(* ===== verification/OmxPrelude.thy ===== *)
theory OmxPrelude
  imports Main "HOL-Library.Word" "HOL-Library.Monad_Syntax" "HOL-Library.Multiset"
begin

text \<open>
  Shared vocabulary of the development: the machine types of the OpenMAX IL headers
  (32-bit ARM: \<open>OMX_U32\<close>, \<open>OMX_S32\<close> and pointers are 32 bits wide), the enumerations of
  \<open>omx/core/inc/OMX_Core.h\<close> the components use, and the generic facts on lists, options and
  modular arithmetic that the component theories share.

  Conventions of every theory:
  \<^item> a pointer is a natural number and \<open>NULL\<close> is 0; memory is a partial function from pointers;
  \<^item> a function that may execute undefined behaviour of C (a NULL or dangling dereference, an index
    outside an array, a failed \<open>assert\<close>) returns \<open>None\<close> there and \<open>Some (result, state)\<close> elsewhere;
  \<^item> error codes of the program are ordinary values of the result.
\<close>

unbundle bit_operations_syntax

section \<open>Machine types\<close>

type_synonym OMX_U8 = "8 word"
type_synonym OMX_U32 = "32 word"
type_synonym OMX_S32 = "32 word"
type_synonym OMX_TICKS = "64 word"
type_synonym ptr = nat

abbreviation (input) NULL :: ptr where "NULL \<equiv> 0"
abbreviation (input) OMX_ALL :: OMX_U32 where "OMX_ALL \<equiv> 0xFFFFFFFF"

section \<open>Enumerations of OMX_Core.h\<close>

datatype OMX_ERRORTYPE =
    OMX_ErrorNone
  | OMX_ErrorInsufficientResources
  | OMX_ErrorUndefined
  | OMX_ErrorInvalidComponentName
  | OMX_ErrorComponentNotFound
  | OMX_ErrorBadParameter
  | OMX_ErrorNotImplemented
  | OMX_ErrorInvalidState
  | OMX_ErrorPortsNotCompatible
  | OMX_ErrorNoMore
  | OMX_ErrorSameState
  | OMX_ErrorIncorrectStateTransition
  | OMX_ErrorIncorrectStateOperation
  | OMX_ErrorUnsupportedSetting
  | OMX_ErrorUnsupportedIndex
  | OMX_ErrorBadPortIndex
  | OMX_ErrorPortUnpopulated

text \<open>The enumerators' values, used where the code stores an error code in an \<open>OMX_U32\<close>.\<close>

fun omx_error_code :: "OMX_ERRORTYPE \<Rightarrow> OMX_U32" where
  "omx_error_code OMX_ErrorNone = 0"
| "omx_error_code OMX_ErrorInsufficientResources = 0x80001000"
| "omx_error_code OMX_ErrorUndefined = 0x80001001"
| "omx_error_code OMX_ErrorInvalidComponentName = 0x80001002"
| "omx_error_code OMX_ErrorComponentNotFound = 0x80001003"
| "omx_error_code OMX_ErrorBadParameter = 0x80001005"
| "omx_error_code OMX_ErrorNotImplemented = 0x80001006"
| "omx_error_code OMX_ErrorInvalidState = 0x8000100A"
| "omx_error_code OMX_ErrorPortsNotCompatible = 0x8000100C"
| "omx_error_code OMX_ErrorNoMore = 0x8000100E"
| "omx_error_code OMX_ErrorSameState = 0x80001012"
| "omx_error_code OMX_ErrorIncorrectStateTransition = 0x80001017"
| "omx_error_code OMX_ErrorIncorrectStateOperation = 0x80001018"
| "omx_error_code OMX_ErrorUnsupportedSetting = 0x80001019"
| "omx_error_code OMX_ErrorUnsupportedIndex = 0x8000101A"
| "omx_error_code OMX_ErrorBadPortIndex = 0x8000101B"
| "omx_error_code OMX_ErrorPortUnpopulated = 0x8000101C"

text \<open>
  \<open>OMX_STATETYPE\<close>. A client passes the target state as a plain \<open>OMX_U32\<close>, so every 32-bit value can
  occur: values without an enumerator are \<open>OMX_StateOther\<close>.
\<close>

datatype OMX_STATETYPE =
    OMX_StateInvalid
  | OMX_StateLoaded
  | OMX_StateIdle
  | OMX_StateExecuting
  | OMX_StatePause
  | OMX_StateWaitForResources
  | OMX_StateOther OMX_U32

definition to_state :: "OMX_U32 \<Rightarrow> OMX_STATETYPE" where
  "to_state w = (if w = 0 then OMX_StateInvalid else if w = 1 then OMX_StateLoaded
     else if w = 2 then OMX_StateIdle else if w = 3 then OMX_StateExecuting
     else if w = 4 then OMX_StatePause else if w = 5 then OMX_StateWaitForResources
     else OMX_StateOther w)"

lemma inj_to_state: "inj to_state"
  by (rule injI) (auto simp: to_state_def split: if_splits)

datatype OMX_COMMANDTYPE =
    OMX_CommandStateSet
  | OMX_CommandFlush
  | OMX_CommandPortDisable
  | OMX_CommandPortEnable
  | OMX_CommandMarkBuffer
  | OMX_CommandOther OMX_U32

fun omx_command_code :: "OMX_COMMANDTYPE \<Rightarrow> OMX_U32" where
  "omx_command_code OMX_CommandStateSet = 0"
| "omx_command_code OMX_CommandFlush = 1"
| "omx_command_code OMX_CommandPortDisable = 2"
| "omx_command_code OMX_CommandPortEnable = 3"
| "omx_command_code OMX_CommandMarkBuffer = 4"
| "omx_command_code (OMX_CommandOther w) = w"

datatype OMX_EVENTTYPE =
    OMX_EventCmdComplete
  | OMX_EventError
  | OMX_EventPortSettingsChanged

datatype OMX_DIRTYPE = OMX_DirInput | OMX_DirOutput

definition omx_dir_code :: "OMX_DIRTYPE \<Rightarrow> OMX_U32" where
  "omx_dir_code d = (case d of OMX_DirInput \<Rightarrow> 0 | OMX_DirOutput \<Rightarrow> 1)"

abbreviation (input) OMX_BUFFERFLAG_EOS :: OMX_U32 where "OMX_BUFFERFLAG_EOS \<equiv> 0x01"
abbreviation (input) OMX_BUFFERFLAG_SYNCFRAME :: OMX_U32 where "OMX_BUFFERFLAG_SYNCFRAME \<equiv> 0x20"
abbreviation (input) OMX_BUFFERFLAG_CODECCONFIG :: OMX_U32 where "OMX_BUFFERFLAG_CODECCONFIG \<equiv> 0x80"

text \<open>\<open>nFlags & FLAG\<close> used as a condition.\<close>

definition has_flag :: "OMX_U32 \<Rightarrow> OMX_U32 \<Rightarrow> bool" where
  "has_flag w f \<longleftrightarrow> w AND f \<noteq> 0"

section \<open>Shared facts\<close>

named_theorems omx_inv \<open>preservation of a component's invariant by its operations\<close>
named_theorems omx_frame \<open>fields an operation leaves alone\<close>

text \<open>Increment and decrement of a 32-bit counter away from its ends.\<close>

lemma unat_u32_bound: "unat (w :: OMX_U32) < 2 ^ 32"
  using unsigned_less[of w] by simp

lemma word_inc_unat: "(w :: OMX_U32) < m \<Longrightarrow> unat (w + 1) = unat w + 1"
  using unat_u32_bound[of m] by (simp add: word_less_nat_alt unat_word_ariths)

lemma word_dec_unat: "(w :: OMX_U32) \<noteq> 0 \<Longrightarrow> unat (w - 1) = unat w - 1"
  by (simp add: unat_minus_one)

lemma word_inc_le: "(w :: OMX_U32) < m \<Longrightarrow> w + 1 \<le> m \<and> w + 1 \<noteq> 0"
  using word_inc_unat[of w m] by (metis Suc_eq_plus1 Suc_leI nat.simps(3) unat_0 word_le_nat_alt word_less_nat_alt)

lemma word_dec_le: "(w :: OMX_U32) \<noteq> 0 \<Longrightarrow> w \<le> m \<Longrightarrow> w - 1 \<le> m"
  by (simp add: word_le_nat_alt word_dec_unat)

text \<open>A ring index one step further, and the distance of two ring positions.\<close>

lemma ring_succ_lt: "0 < n \<Longrightarrow> Suc i mod n < (n::nat)"
  by simp

lemma ring_shift:
  assumes "h < (n::nat)"
  shows "(Suc h mod n + i) mod n = (h + Suc i) mod n"
  by (simp add: mod_add_left_eq)

lemma ring_inj:
  assumes "(h + i) mod n = (h + j) mod (n::nat)" "i < n" "j < n"
  shows "i = j"
proof -
  have "int i mod int n = int j mod int n"
  proof -
    have "(int h + int i) mod int n = (int h + int j) mod int n"
      using assms(1) by (metis of_nat_add zmod_int)
    then have "(int h + int i - int h) mod int n = (int h + int j - int h) mod int n"
      by (metis mod_diff_left_eq)
    then show ?thesis by simp
  qed
  then have "int i = int j" using assms(2,3) by simp
  then show ?thesis by simp
qed

lemma nth_list_update_map:
  "n < length xs \<Longrightarrow> map f (xs[n := x]) = (map f xs)[n := f x]"
  by (simp add: map_update)

lemma upt_split_at: "i < n \<Longrightarrow> [0..<n] = [0..<i] @ i # [Suc i..<n]"
  using upt_add_eq_append[of 0 i "n - i"] upt_conv_Cons[of i n] by simp

text \<open>Counting the indices of a list that satisfy a predicate under a single update.\<close>

definition count_if :: "('a \<Rightarrow> bool) \<Rightarrow> 'a list \<Rightarrow> nat" where
  "count_if P xs = length (filter P xs)"

lemma count_if_Nil [simp]: "count_if P [] = 0"
  by (simp add: count_if_def)

lemma count_if_Cons [simp]: "count_if P (x # xs) = (if P x then Suc (count_if P xs) else count_if P xs)"
  by (simp add: count_if_def)

lemma count_if_update:
  "i < length xs \<Longrightarrow>
   count_if P (xs[i := y]) + (if P (xs ! i) then 1 else 0) = count_if P xs + (if P y then 1 else 0)"
proof (induction xs arbitrary: i)
  case Nil
  then show ?case by simp
next
  case (Cons x xs)
  then show ?case by (cases i) auto
qed

lemma count_if_pos: "i < length xs \<Longrightarrow> P (xs ! i) \<Longrightarrow> 0 < count_if P xs"
  unfolding count_if_def by (metis filter_empty_conv length_greater_0_conv nth_mem)

lemma count_if_zero_iff: "count_if P xs = 0 \<longleftrightarrow> (\<forall>x\<in>set xs. \<not> P x)"
  by (simp add: count_if_def filter_empty_conv)

lemma count_if_le: "count_if P xs \<le> length xs"
  by (simp add: count_if_def)

lemma count_if_replicate: "count_if P (replicate n x) = (if P x then n else 0)"
  by (induction n) auto

end
