(* ===== verification/OmxCore.thy ===== *)
theory OmxCore
  imports OmxPrelude
begin

text \<open>
  The IL core of \<open>omx/core/NX_OMXCore.c\<close>: the table of registered components and roles, its
  construction and destruction under the reference count, the enumeration functions and the
  creation of component handles. The file-scope variables of the C file are the record
  \<open>omx_core\<close>; the strings made by \<open>strdup\<close> live in \<open>str_mem\<close>, so that freeing them and
  using them afterwards is visible. Every entry point holds \<open>gstOMXCoreMutex\<close> and is one function.
\<close>

section \<open>State\<close>

abbreviation (input) NX_MAX_COMPONENTS :: nat where "NX_MAX_COMPONENTS \<equiv> 20"
abbreviation (input) NX_MAX_ROLES :: nat where "NX_MAX_ROLES \<equiv> 16"
abbreviation (input) OMX_MAX_STRINGNAME_SIZE :: nat where "OMX_MAX_STRINGNAME_SIZE \<equiv> 128"

record NX_COMPONENT_INFO =
  strName :: ptr
  nRoles :: nat
  hModule :: ptr
  pRoles :: "ptr list"
  handle :: "ptr list"
  nRefCount :: int
  ComponentInit :: ptr

record NX_COMPONENT_REG_INFO =
  CompName :: ptr
  CompRole :: ptr
  RegComponentInit :: ptr

record omx_core =
  str_mem :: "ptr \<Rightarrow> string option"
  next_str :: ptr
  strdup_ok :: "ptr \<Rightarrow> bool"
  gstCurOMXComponents :: OMX_U32
  gstCurOMXCompRoles :: OMX_U32
  gstOMXCoreRefCnt :: OMX_U32
  gstNXOMXInit :: bool
  gstOMXComponentList :: "NX_COMPONENT_INFO list"
  gstCompRegInfo :: "NX_COMPONENT_REG_INFO list"
  gstNumRegInfo :: nat
  gst_role :: string

definition zero_info :: NX_COMPONENT_INFO where
  "zero_info = \<lparr>strName = NULL, nRoles = 0, hModule = NULL, pRoles = replicate NX_MAX_ROLES NULL,
     handle = [NULL], nRefCount = 0, ComponentInit = NULL\<rparr>"

definition zero_reg :: NX_COMPONENT_REG_INFO where
  "zero_reg = \<lparr>CompName = NULL, CompRole = NULL, RegComponentInit = NULL\<rparr>"

text \<open>The initial values of the file-scope variables; \<open>ok\<close> says which \<open>strdup\<close> calls succeed.\<close>

definition core0 :: "(ptr \<Rightarrow> bool) \<Rightarrow> omx_core" where
  "core0 ok = \<lparr>str_mem = (\<lambda>_. None), next_str = 1, strdup_ok = ok, gstCurOMXComponents = 0,
     gstCurOMXCompRoles = 0, gstOMXCoreRefCnt = 0, gstNXOMXInit = False,
     gstOMXComponentList = replicate NX_MAX_COMPONENTS zero_info,
     gstCompRegInfo = replicate NX_MAX_COMPONENTS zero_reg, gstNumRegInfo = 0, gst_role = []\<rparr>"

section \<open>C strings\<close>

definition strdup :: "string \<Rightarrow> omx_core \<Rightarrow> ptr \<times> omx_core" where
  "strdup s c =
     (let p = next_str c in
      if strdup_ok c p
      then (p, c\<lparr>str_mem := (str_mem c)(p := Some s), next_str := Suc p\<rparr>)
      else (NULL, c\<lparr>next_str := Suc p\<rparr>))"

text \<open>\<open>free\<close> of a non-NULL pointer: undefined unless the pointer is a live allocation.\<close>

definition free_str :: "ptr \<Rightarrow> omx_core \<Rightarrow> omx_core option" where
  "free_str p c =
     (case str_mem c p of None \<Rightarrow> None | Some _ \<Rightarrow> Some (c\<lparr>str_mem := (str_mem c)(p := None)\<rparr>))"

text \<open>\<open>!strcmp( p, q )\<close> on two pointers into the string memory.\<close>

definition str_eq :: "omx_core \<Rightarrow> ptr \<Rightarrow> ptr \<Rightarrow> bool option" where
  "str_eq c p q = do { a \<leftarrow> str_mem c p; b \<leftarrow> str_mem c q; Some (a = b) }"

text \<open>\<open>!strcmp( s, p )\<close> for a caller's string.\<close>

definition str_is :: "omx_core \<Rightarrow> string \<Rightarrow> ptr \<Rightarrow> bool option" where
  "str_is c s p = do { a \<leftarrow> str_mem c p; Some (s = a) }"

section \<open>Registration\<close>

definition NX_OMXRegisterComponent ::
  "string \<Rightarrow> string \<Rightarrow> ptr \<Rightarrow> omx_core \<Rightarrow> (OMX_ERRORTYPE \<times> omx_core) option" where
  "NX_OMXRegisterComponent Name Role init c =
     (if length Name > OMX_MAX_STRINGNAME_SIZE - 1 then Some (OMX_ErrorBadParameter, c)
      else if length Role > OMX_MAX_STRINGNAME_SIZE - 1 then Some (OMX_ErrorBadParameter, c)
      else if gstNumRegInfo c \<ge> NX_MAX_COMPONENTS then None
      else
        (let i = gstNumRegInfo c;
             (pn, c) = strdup Name c;
             (pr, c) = strdup Role c
         in Some (OMX_ErrorNone,
              c\<lparr>gstCompRegInfo := (gstCompRegInfo c)
                   [i := \<lparr>CompName = pn, CompRole = pr, RegComponentInit = init\<rparr>],
                gstNumRegInfo := Suc i\<rparr>)))"

text \<open>The calls of \<open>RegisterAllComponents\<close>; \<open>audio\<close> is \<open>USE_AUDIO_COMPONENT\<close>.\<close>

definition reg_calls :: "bool \<Rightarrow> (string \<times> string) list" where
  "reg_calls audio =
     (if audio then
       [(''OMX.NX.AUDIO_DECODER.FFMPEG'', ''audio_decoder.mp2''),
        (''OMX.NX.AUDIO_DECODER.FFMPEG'', ''audio_decoder.ac3''),
        (''OMX.NX.AUDIO_DECODER.FFMPEG'', ''audio_decoder.ra''),
        (''OMX.NX.AUDIO_DECODER.FFMPEG'', ''audio_decoder.x-ms-wma''),
        (''OMX.NX.AUDIO_DECODER.FFMPEG'', ''audio_decoder.dts''),
        (''OMX.NX.AUDIO_DECODER.FFMPEG'', ''audio_decoder.flac'')]
      else []) @
     [(''OMX.NX.VIDEO_DECODER'', ''video_decoder.avc''),
      (''OMX.NX.VIDEO_DECODER'', ''video_decoder.mpeg4''),
      (''OMX.NX.VIDEO_DECODER'', ''video_decoder.mpeg2''),
      (''OMX.NX.VIDEO_DECODER'', ''video_decoder.h263''),
      (''OMX.NX.VIDEO_DECODER'', ''video_decoder.3gpp''),
      (''OMX.NX.VIDEO_DECODER'', ''video_decoder.mp43''),
      (''OMX.NX.VIDEO_DECODER'', ''video_decoder.x-flv''),
      (''OMX.NX.VIDEO_DECODER'', ''video_decoder.x-ms-wmv''),
      (''OMX.NX.VIDEO_DECODER'', ''video_decoder.wvc1''),
      (''OMX.NX.VIDEO_DECODER'', ''video_decoder.vc1''),
      (''OMX.NX.VIDEO_DECODER'', ''video_decoder.x-pn-realvideo''),
      (''OMX.NX.VIDEO_ENCODER'', ''video_encoder.avc'')]"

fun register_list :: "(string \<times> string) list \<Rightarrow> omx_core \<Rightarrow> omx_core option" where
  "register_list [] c = Some c"
| "register_list ((n, r) # rs) c =
     do { (e, c') \<leftarrow> NX_OMXRegisterComponent n r NULL c; register_list rs c' }"

definition RegisterAllComponents :: "bool \<Rightarrow> omx_core \<Rightarrow> omx_core option" where
  "RegisterAllComponents audio c = register_list (reg_calls audio) c"

section \<open>The component table\<close>

text \<open>
  The inner loop \<open>for( j=0 ; j<regComps ; j++ )\<close>: the index of the first table entry with the
  registered name, \<open>regComps\<close> (the length of the list passed) when there is none.
\<close>

fun find_component :: "omx_core \<Rightarrow> ptr \<Rightarrow> NX_COMPONENT_INFO list \<Rightarrow> nat option" where
  "find_component c p [] = Some 0"
| "find_component c p (x # xs) =
     do { b \<leftarrow> str_eq c p (strName x); if b then Some 0 else map_option Suc (find_component c p xs) }"

definition add_role :: "ptr \<Rightarrow> NX_COMPONENT_INFO \<Rightarrow> NX_COMPONENT_INFO option" where
  "add_role r x =
     (if nRoles x \<ge> NX_MAX_ROLES then None
      else Some (x\<lparr>pRoles := (pRoles x)[nRoles x := r], nRoles := nRoles x + 1\<rparr>))"

definition build_entry :: "NX_COMPONENT_REG_INFO \<Rightarrow> nat \<times> nat \<times> omx_core \<Rightarrow> (nat \<times> nat \<times> omx_core) option" where
  "build_entry reg = (\<lambda>(regComps, regRoles, c). do {
     j \<leftarrow> find_component c (CompName reg) (take regComps (gstOMXComponentList c));
     if regComps = j then
       Some (Suc regComps, Suc regRoles,
         c\<lparr>gstOMXComponentList := (gstOMXComponentList c)[regComps :=
              (gstOMXComponentList c ! regComps)
                \<lparr>strName := CompName reg, nRoles := 1,
                 pRoles := (pRoles (gstOMXComponentList c ! regComps))[0 := CompRole reg],
                 handle := [NULL], nRefCount := 0, ComponentInit := RegComponentInit reg\<rparr>]\<rparr>)
     else do {
       x \<leftarrow> add_role (CompRole reg) (gstOMXComponentList c ! j);
       Some (regComps, Suc regRoles, c\<lparr>gstOMXComponentList := (gstOMXComponentList c)[j := x]\<rparr>)
     } })"

fun build_loop :: "NX_COMPONENT_REG_INFO list \<Rightarrow> nat \<times> nat \<times> omx_core \<Rightarrow> (nat \<times> nat \<times> omx_core) option" where
  "build_loop [] s = Some s"
| "build_loop (r # rs) s = do { s' \<leftarrow> build_entry r s; build_loop rs s' }"

definition NX_OMXBuildComponentTable :: "bool \<Rightarrow> omx_core \<Rightarrow> (OMX_ERRORTYPE \<times> omx_core) option" where
  "NX_OMXBuildComponentTable audio c =
     (if gstNXOMXInit c then Some (OMX_ErrorNone, c)
      else do {
        c \<leftarrow> RegisterAllComponents audio
               (c\<lparr>gstOMXComponentList := replicate NX_MAX_COMPONENTS zero_info,
                  gstCompRegInfo := replicate NX_MAX_COMPONENTS zero_reg\<rparr>);
        (regComps, regRoles, c) \<leftarrow>
          build_loop (take (gstNumRegInfo c) (take NX_MAX_COMPONENTS (gstCompRegInfo c)))
            (0, 0, c\<lparr>gstOMXComponentList := replicate NX_MAX_COMPONENTS zero_info\<rparr>);
        Some (OMX_ErrorNone,
          c\<lparr>gstCurOMXComponents := of_nat regComps, gstCurOMXCompRoles := of_nat regRoles,
            gstNXOMXInit := True\<rparr>)
      })"

text \<open>The loop frees the strings and leaves every pointer to them in the tables.\<close>

fun destroy_loop :: "NX_COMPONENT_REG_INFO list \<Rightarrow> omx_core \<Rightarrow> omx_core option" where
  "destroy_loop [] c = Some c"
| "destroy_loop (r # rs) c = do {
     c \<leftarrow> (if CompName r \<noteq> NULL then free_str (CompName r) c else Some c);
     c \<leftarrow> (if CompRole r \<noteq> NULL then free_str (CompRole r) c else Some c);
     destroy_loop rs c }"

definition NX_OMXDestroyComponentTable :: "omx_core \<Rightarrow> omx_core option" where
  "NX_OMXDestroyComponentTable c = destroy_loop (take NX_MAX_COMPONENTS (gstCompRegInfo c)) c"

definition NX_OMX_Init :: "bool \<Rightarrow> omx_core \<Rightarrow> (OMX_ERRORTYPE \<times> omx_core) option" where
  "NX_OMX_Init audio c = do {
     c \<leftarrow> (if 0 = gstOMXCoreRefCnt c then map_option snd (NX_OMXBuildComponentTable audio c) else Some c);
     Some (OMX_ErrorNone, c\<lparr>gstOMXCoreRefCnt := gstOMXCoreRefCnt c + 1\<rparr>) }"

definition NX_OMX_Deinit :: "omx_core \<Rightarrow> (OMX_ERRORTYPE \<times> omx_core) option" where
  "NX_OMX_Deinit c = do {
     let c = (if gstOMXCoreRefCnt c > 0 then c\<lparr>gstOMXCoreRefCnt := gstOMXCoreRefCnt c - 1\<rparr> else c);
     c \<leftarrow> (if gstOMXCoreRefCnt c = 0 then NX_OMXDestroyComponentTable c else Some c);
     Some (OMX_ErrorNone, c) }"

section \<open>Enumeration\<close>

text \<open>The component name is what the call writes through \<open>cComponentName\<close>, if it writes.\<close>

definition NX_OMX_ComponentNameEnum ::
  "OMX_U32 \<Rightarrow> OMX_U32 \<Rightarrow> omx_core \<Rightarrow> (OMX_ERRORTYPE \<times> string option) option" where
  "NX_OMX_ComponentNameEnum nNameLength nIndex c =
     (if \<not> gstNXOMXInit c \<or> nIndex > gstCurOMXComponents c - 1 then Some (OMX_ErrorNoMore, None)
      else if unat nIndex \<ge> NX_MAX_COMPONENTS then None
      else do {
        s \<leftarrow> str_mem c (strName (gstOMXComponentList c ! unat nIndex));
        if nNameLength - 1 < of_nat (length s) then Some (OMX_ErrorInvalidComponentName, None)
        else Some (OMX_ErrorNone, Some s) })"

definition ConverteRoleName :: "string \<Rightarrow> string" where
  "ConverteRoleName str = map (\<lambda>ch. if ch = CHR ''.'' then CHR ''_'' else ch) str"

text \<open>
  The matches of \<open>NX_OMX_GetComponentsOfRole\<close>, in table order; \<open>cap\<close> is the number of string buffers
  behind \<open>compNames\<close> (0 for a NULL array): writing past it is undefined.
\<close>

fun count_roles :: "omx_core \<Rightarrow> string \<Rightarrow> ptr list \<Rightarrow> nat option" where
  "count_roles c role [] = Some 0"
| "count_roles c role (r # rs) = do {
     b \<leftarrow> str_is c role r;
     k \<leftarrow> count_roles c role rs;
     Some (if b then Suc k else k) }"

fun match_components :: "omx_core \<Rightarrow> string \<Rightarrow> NX_COMPONENT_INFO list \<Rightarrow> string list option" where
  "match_components c role [] = Some []"
| "match_components c role (x # xs) = do {
     k \<leftarrow> count_roles c role (take (nRoles x) (pRoles x));
     m \<leftarrow> (if k = 0 then Some [] else map_option (replicate k) (str_mem c (strName x)));
     ms \<leftarrow> match_components c role xs;
     Some (m @ ms) }"

definition NX_OMX_GetComponentsOfRole ::
  "string \<Rightarrow> nat \<Rightarrow> omx_core \<Rightarrow> (OMX_ERRORTYPE \<times> OMX_U32 \<times> string list) option" where
  "NX_OMX_GetComponentsOfRole role cap c = do {
     ms \<leftarrow> match_components c role (take (unat (gstCurOMXComponents c)) (gstOMXComponentList c));
     if length ms > cap then None
     else Some (OMX_ErrorNone, of_nat (length ms), ms) }"

text \<open>The search of the component by name; \<open>None\<close> in the inner option when the loop runs out.\<close>

fun find_by_name :: "omx_core \<Rightarrow> string \<Rightarrow> NX_COMPONENT_INFO list \<Rightarrow> nat option option" where
  "find_by_name c s [] = Some None"
| "find_by_name c s (x # xs) = do {
     b \<leftarrow> str_is c s (strName x);
     if b then Some (Some 0) else map_option (map_option Suc) (find_by_name c s xs) }"

definition the_components :: "omx_core \<Rightarrow> NX_COMPONENT_INFO list" where
  "the_components c = take (unat (gstCurOMXComponents c)) (gstOMXComponentList c)"

fun read_strings :: "omx_core \<Rightarrow> ptr list \<Rightarrow> string list option" where
  "read_strings c [] = Some []"
| "read_strings c (p # ps) = do { s \<leftarrow> str_mem c p; ss \<leftarrow> read_strings c ps; Some (s # ss) }"

text \<open>
  \<open>want\<close> is false for \<open>roles == NULL\<close>. The result is the error, the new \<open>*pNumRoles\<close> and the strings
  copied to \<open>roles\<close>.
\<close>

definition NX_OMX_GetRolesOfComponent ::
  "string \<Rightarrow> OMX_U32 \<Rightarrow> bool \<Rightarrow> omx_core \<Rightarrow> (OMX_ERRORTYPE \<times> OMX_U32 \<times> string list) option" where
  "NX_OMX_GetRolesOfComponent compName pNumRoles want c = do {
     f \<leftarrow> find_by_name c compName (the_components c);
     (case f of
        None \<Rightarrow> Some (OMX_ErrorComponentNotFound, pNumRoles, [])
      | Some i \<Rightarrow>
          (let x = gstOMXComponentList c ! i; numMatch = nRoles x in
           if numMatch = 0 then Some (OMX_ErrorComponentNotFound, pNumRoles, [])
           else if \<not> want then Some (OMX_ErrorNone, of_nat numMatch, [])
           else if pNumRoles \<ge> of_nat (nRoles x) then do {
             rs \<leftarrow> read_strings c (take (nRoles x) (pRoles x));
             Some (OMX_ErrorNone, of_nat (nRoles x), rs) }
           else Some (OMX_ErrorBadParameter, pNumRoles, []))) }"

section \<open>Handles\<close>

text \<open>\<open>isspace\<close> and \<open>sscanf( s, "OMX.NX.%s", role )\<close>: what is stored in \<open>role\<close>, if the format matches.\<close>

definition is_space :: "char \<Rightarrow> bool" where
  "is_space ch \<longleftrightarrow> of_char ch \<in> {9, 10, 11, 12, 13, 32 :: nat}"

definition scan_role :: "string \<Rightarrow> string option" where
  "scan_role s =
     (if take 7 s = ''OMX.NX.'' then
        (let r = takeWhile (\<lambda>ch. \<not> is_space ch) (dropWhile is_space (drop 7 s))
         in if r = [] then None else Some r)
      else None)"

text \<open>
  The dynamic loader, the function behind a component's init pointer, its \<open>SetCallbacks\<close> and the
  allocation of the \<open>OMX_COMPONENTTYPE\<close> (0 when it fails) are arguments.
\<close>

record loader =
  dlopen :: "string \<Rightarrow> ptr"
  dlsym_ComponentInit :: "ptr \<Rightarrow> ptr"
  call_ComponentInit :: "ptr \<Rightarrow> OMX_ERRORTYPE"
  call_SetCallbacks :: "OMX_ERRORTYPE"
  malloc_component :: ptr

definition load_component ::
  "loader \<Rightarrow> string \<Rightarrow> NX_COMPONENT_INFO \<Rightarrow> omx_core \<Rightarrow> (ptr \<times> NX_COMPONENT_INFO \<times> omx_core) option" where
  "load_component ld cComponentName x c =
     (if ComponentInit x = NULL then
        (let role = (case scan_role cComponentName of Some r \<Rightarrow> r | None \<Rightarrow> gst_role c) in
         if length role \<ge> 64 then None
         else
           (let role = ConverteRoleName role;
                c = c\<lparr>gst_role := role\<rparr>;
                soname = ''libNX_OMX_'' @ role @ ''.so''
            in if hModule x = NULL then
                 (let m = dlopen ld soname; x = x\<lparr>hModule := m\<rparr>
                  in if m \<noteq> NULL then Some (dlsym_ComponentInit ld m, x, c) else Some (NULL, x, c))
               else Some (NULL, x, c)))
      else Some (ComponentInit x, x, c))"

text \<open>The result is the error and the handle stored through \<open>pHandle\<close>, if one is stored.\<close>

definition NX_OMX_GetHandle ::
  "loader \<Rightarrow> string \<Rightarrow> omx_core \<Rightarrow> (OMX_ERRORTYPE \<times> ptr option \<times> omx_core) option" where
  "NX_OMX_GetHandle ld cComponentName c = do {
     f \<leftarrow> find_by_name c cComponentName (the_components c);
     (case f of
        None \<Rightarrow> Some (OMX_ErrorInsufficientResources, None, c)
      | Some i \<Rightarrow> do {
          (ci, x, c) \<leftarrow> load_component ld cComponentName (gstOMXComponentList c ! i) c;
          if ci = NULL then
            Some (OMX_ErrorInvalidComponentName, None,
                  c\<lparr>gstOMXComponentList := (gstOMXComponentList c)[i := x]\<rparr>)
          else
            (let c = c\<lparr>gstOMXComponentList := (gstOMXComponentList c)[i := x\<lparr>ComponentInit := ci\<rparr>]\<rparr> in
             if malloc_component ld = NULL then Some (OMX_ErrorComponentNotFound, None, c)
             else
               (let eError = call_ComponentInit ld ci;
                    eError = (if eError = OMX_ErrorNone then call_SetCallbacks ld else eError)
                in if eError = OMX_ErrorNone
                   then Some (eError, Some (malloc_component ld), c)
                   else Some (eError, None, c))) }) }"

text \<open>\<open>deinit_rc\<close>: what the component's \<open>ComponentDeInit\<close> returns. The result is the returned error
  and the error the function computed for its local \<open>eError\<close>.\<close>

definition NX_OMX_FreeHandle :: "OMX_ERRORTYPE \<Rightarrow> ptr \<Rightarrow> OMX_ERRORTYPE \<times> OMX_ERRORTYPE" where
  "NX_OMX_FreeHandle deinit_rc hComponent =
     (let eError = (if hComponent \<noteq> NULL then deinit_rc else OMX_ErrorUndefined)
      in (OMX_ErrorNone, eError))"

definition NX_OMX_SetupTunnel :: "ptr \<Rightarrow> OMX_U32 \<Rightarrow> ptr \<Rightarrow> OMX_U32 \<Rightarrow> OMX_ERRORTYPE" where
  "NX_OMX_SetupTunnel hOutput nPortOutput hInput nPortInput = OMX_ErrorNotImplemented"

definition NX_OMX_GetContentPipe :: "ptr \<Rightarrow> string \<Rightarrow> OMX_ERRORTYPE" where
  "NX_OMX_GetContentPipe hPipe szURI = OMX_ErrorNotImplemented"

section \<open>The table as the client sees it\<close>

text \<open>Names and roles of the registered components, with the strings read from memory.\<close>

fun info_view :: "omx_core \<Rightarrow> NX_COMPONENT_INFO list \<Rightarrow> (string \<times> string list) list option" where
  "info_view c [] = Some []"
| "info_view c (x # xs) = do {
     n \<leftarrow> str_mem c (strName x);
     rs \<leftarrow> read_strings c (take (nRoles x) (pRoles x));
     v \<leftarrow> info_view c xs;
     Some ((n, rs) # v) }"

definition table_view :: "omx_core \<Rightarrow> (string \<times> string list) list option" where
  "table_view c = info_view c (the_components c)"

text \<open>The specification: the registrations grouped by component name, in order of first occurrence.\<close>

fun add_registration :: "string \<times> string \<Rightarrow> (string \<times> string list) list \<Rightarrow> (string \<times> string list) list" where
  "add_registration (n, r) [] = [(n, [r])]"
| "add_registration (n, r) ((m, rs) # t) =
     (if n = m then (m, rs @ [r]) # t else (m, rs) # add_registration (n, r) t)"

definition grouped :: "(string \<times> string) list \<Rightarrow> (string \<times> string list) list" where
  "grouped regs = fold add_registration regs []"

definition roles_of :: "(string \<times> string) list \<Rightarrow> string \<Rightarrow> string list" where
  "roles_of regs n = map snd (filter (\<lambda>p. fst p = n) regs)"

lemma map_of_add_registration:
  "map_of (add_registration (n, r) t) m =
     (if m = n then Some ((case map_of t n of None \<Rightarrow> [] | Some rs \<Rightarrow> rs) @ [r]) else map_of t m)"
  by (induction "(n, r)" t rule: add_registration.induct) auto

lemma map_of_grouped_gen:
  "map_of (fold add_registration regs t) m =
     (if roles_of regs m = [] then map_of t m
      else Some ((case map_of t m of None \<Rightarrow> [] | Some rs \<Rightarrow> rs) @ roles_of regs m))"
proof (induction regs arbitrary: t)
  case Nil
  then show ?case by (simp add: roles_of_def)
next
  case (Cons p regs)
  obtain n r where p: "p = (n, r)" by (cases p)
  show ?case
    by (simp add: Cons.IH p map_of_add_registration) (auto simp: roles_of_def p split: option.splits)
qed

lemma map_of_grouped:
  "map_of (grouped regs) m = (if roles_of regs m = [] then None else Some (roles_of regs m))"
  by (simp add: grouped_def map_of_grouped_gen)

text \<open>The searches of the code, on the view.\<close>

lemma length_info_view: "info_view c xs = Some v \<Longrightarrow> length v = length xs"
  by (induction xs arbitrary: v) (auto split: Option.bind_splits)

lemma find_by_name_view:
  "info_view c xs = Some v \<Longrightarrow>
   \<exists>f. find_by_name c s xs = Some f \<and>
     (case f of None \<Rightarrow> map_of v s = None
      | Some i \<Rightarrow> i < length xs \<and> map_of v s = Some (snd (v ! i)) \<and> fst (v ! i) = s)"
proof (induction xs arbitrary: v)
  case Nil
  then show ?case by simp
next
  case (Cons x xs)
  then obtain n rs v' where v: "str_mem c (strName x) = Some n" "info_view c xs = Some v'"
      "v = (n, rs) # v'"
    by (auto split: Option.bind_splits)
  from Cons.IH[OF v(2)] obtain f where f: "find_by_name c s xs = Some f"
      "case f of None \<Rightarrow> map_of v' s = None
       | Some i \<Rightarrow> i < length xs \<and> map_of v' s = Some (snd (v' ! i)) \<and> fst (v' ! i) = s"
    by blast
  show ?case
  proof (cases "s = n")
    case True
    with v show ?thesis by (intro exI[of _ "Some 0"]) (simp add: str_is_def)
  next
    case False
    with v f show ?thesis
      by (intro exI[of _ "map_option Suc f"]) (auto simp: str_is_def split: option.splits)
  qed
qed

lemma read_strings_view:
  "info_view c xs = Some v \<Longrightarrow> i < length xs \<Longrightarrow>
   read_strings c (take (nRoles (xs ! i)) (pRoles (xs ! i))) = Some (snd (v ! i))"
proof (induction xs arbitrary: v i)
  case Nil
  then show ?case by simp
next
  case (Cons x xs)
  then show ?case by (cases i) (auto split: Option.bind_splits)
qed

lemma count_roles_view:
  "read_strings c ps = Some rs \<Longrightarrow> count_roles c role ps = Some (count_list rs role)"
  by (induction ps arbitrary: rs) (auto simp: str_is_def split: Option.bind_splits)

lemma match_components_view:
  "info_view c xs = Some v \<Longrightarrow>
   match_components c role xs = Some (concat (map (\<lambda>(n, rs). replicate (count_list rs role) n) v))"
  by (induction xs arbitrary: v) (auto simp: count_roles_view split: Option.bind_splits)

section \<open>The core after its first initialisation\<close>

definition core_inited :: "bool \<Rightarrow> omx_core" where
  "core_inited audio = (case NX_OMX_Init audio (core0 (\<lambda>_. True)) of Some (e, c) \<Rightarrow> c | None \<Rightarrow> core0 (\<lambda>_. True))"

lemma core_init_runs: "NX_OMX_Init audio (core0 (\<lambda>_. True)) = Some (OMX_ErrorNone, core_inited audio)"
proof -
  have "map_option fst (NX_OMX_Init audio (core0 (\<lambda>_. True))) = Some OMX_ErrorNone"
    by (induct audio) (code_simp+)
  then show ?thesis by (auto simp: core_inited_def)
qed

lemma core_inited_view: "table_view (core_inited audio) = Some (grouped (reg_calls audio))"
  by (induct audio) (code_simp+)

lemma core_inited_wf:
  "gstNXOMXInit (core_inited audio) \<and> gstOMXCoreRefCnt (core_inited audio) = 1 \<and>
   length (gstOMXComponentList (core_inited audio)) = NX_MAX_COMPONENTS \<and>
   unat (gstCurOMXComponents (core_inited audio)) = (if audio then 3 else 2) \<and>
   list_all (\<lambda>x. length (pRoles x) = NX_MAX_ROLES \<and> nRoles x \<le> NX_MAX_ROLES)
     (gstOMXComponentList (core_inited audio))"
  by (induct audio) (code_simp+)

lemma length_read_strings: "read_strings c ps = Some ss \<Longrightarrow> length ss = length ps"
  by (induction ps arbitrary: ss) (auto split: Option.bind_splits)

lemma core_inited_find:
  obtains f where "find_by_name (core_inited audio) n (the_components (core_inited audio)) = Some f"
    "case f of None \<Rightarrow> roles_of (reg_calls audio) n = []
     | Some i \<Rightarrow> i < (if audio then 3 else 2) \<and> roles_of (reg_calls audio) n \<noteq> [] \<and>
        read_strings (core_inited audio) (take (nRoles (gstOMXComponentList (core_inited audio) ! i))
          (pRoles (gstOMXComponentList (core_inited audio) ! i))) = Some (roles_of (reg_calls audio) n) \<and>
        nRoles (gstOMXComponentList (core_inited audio) ! i) = length (roles_of (reg_calls audio) n)"
proof -
  let ?c = "core_inited audio"
  have v: "info_view ?c (the_components ?c) = Some (grouped (reg_calls audio))"
    using core_inited_view[of audio] by (simp add: table_view_def)
  obtain f where f: "find_by_name ?c n (the_components ?c) = Some f"
    "case f of None \<Rightarrow> map_of (grouped (reg_calls audio)) n = None
      | Some i \<Rightarrow> i < length (the_components ?c) \<and>
          map_of (grouped (reg_calls audio)) n = Some (snd (grouped (reg_calls audio) ! i)) \<and>
          fst (grouped (reg_calls audio) ! i) = n"
    using find_by_name_view[OF v] by blast
  show thesis
  proof (rule that[OF f(1)])
    show "case f of None \<Rightarrow> roles_of (reg_calls audio) n = []
     | Some i \<Rightarrow> i < (if audio then 3 else 2) \<and> roles_of (reg_calls audio) n \<noteq> [] \<and>
        read_strings ?c (take (nRoles (gstOMXComponentList ?c ! i))
          (pRoles (gstOMXComponentList ?c ! i))) = Some (roles_of (reg_calls audio) n) \<and>
        nRoles (gstOMXComponentList ?c ! i) = length (roles_of (reg_calls audio) n)"
    proof (cases f)
      case None
      with f(2) show ?thesis by (auto simp: map_of_grouped split: if_splits)
    next
      case (Some i)
      with f(2) have i: "i < length (the_components ?c)"
        and m: "map_of (grouped (reg_calls audio)) n = Some (snd (grouped (reg_calls audio) ! i))" by auto
      from i core_inited_wf[of audio] have i': "i < (if audio then 3 else 2)"
        by (auto simp: the_components_def split: if_splits)
      then have x: "the_components ?c ! i = gstOMXComponentList ?c ! i"
        using core_inited_wf[of audio] by (simp add: the_components_def)
      have rs: "read_strings ?c (take (nRoles (gstOMXComponentList ?c ! i))
          (pRoles (gstOMXComponentList ?c ! i))) = Some (roles_of (reg_calls audio) n)"
        using read_strings_view[OF v i] m by (auto simp: x map_of_grouped split: if_splits)
      have wf: "length (pRoles (gstOMXComponentList ?c ! i)) = NX_MAX_ROLES \<and>
          nRoles (gstOMXComponentList ?c ! i) \<le> NX_MAX_ROLES"
        using core_inited_wf[of audio] i' by (auto simp: list_all_length split: if_splits)
      from length_read_strings[OF rs] wf
      have "nRoles (gstOMXComponentList ?c ! i) = length (roles_of (reg_calls audio) n)" by simp
      with Some i' rs m show ?thesis by (auto simp: map_of_grouped split: if_splits)
    qed
  qed
qed

text \<open>Roles are looked up one by one in the grouped table; unregistered roles have no entry at all.\<close>

definition role_components :: "bool \<Rightarrow> string \<Rightarrow> string list" where
  "role_components audio role =
     concat (map (\<lambda>(n, rs). replicate (count_list rs role) n) (grouped (reg_calls audio)))"

lemma grouped_registered_roles:
  "list_all (\<lambda>r. role_components audio r = map fst (filter (\<lambda>p. snd p = r) (reg_calls audio)))
     (map snd (reg_calls audio))"
  by (induct audio) (code_simp+)

lemma grouped_roles_registered:
  "list_all (\<lambda>(n, rs). list_all (\<lambda>r. r \<in> set (map snd (reg_calls audio))) rs) (grouped (reg_calls audio))"
  by (induct audio) (code_simp+)

lemma grouped_components_of_role:
  "concat (map (\<lambda>(n, rs). replicate (count_list rs role) n) (grouped (reg_calls audio))) =
   map fst (filter (\<lambda>p. snd p = role) (reg_calls audio))"
proof (cases "role \<in> set (map snd (reg_calls audio))")
  case True
  with grouped_registered_roles[of audio] show ?thesis
    unfolding list_all_iff role_components_def by blast
next
  case False
  have "role \<notin> set rs" if "(n, rs) \<in> set (grouped (reg_calls audio))" for n rs
    using that grouped_roles_registered[of audio] False unfolding list_all_iff by blast
  moreover have "filter (\<lambda>p. snd p = role) (reg_calls audio) = []"
    using False by (auto simp: filter_empty_conv)
  ultimately show ?thesis by (auto simp: count_list_0_iff)
qed

section \<open>Properties\<close>

text \<open>
  After the first \<open>NX_OMX_Init\<close>, for every component name the role query answers exactly with the roles
  that \<open>RegisterAllComponents\<close> registered for that name, in order, with the count first when no array
  is passed, and with the documented errors for an unknown name and for an array that is too small.
\<close>

theorem roles_after_init:
  "NX_OMX_GetRolesOfComponent n num want (core_inited audio) =
     (let rs = roles_of (reg_calls audio) n in
      if rs = [] then Some (OMX_ErrorComponentNotFound, num, [])
      else if \<not> want then Some (OMX_ErrorNone, of_nat (length rs), [])
      else if of_nat (length rs) \<le> num then Some (OMX_ErrorNone, of_nat (length rs), rs)
      else Some (OMX_ErrorBadParameter, num, []))"
proof -
  obtain f where f: "find_by_name (core_inited audio) n (the_components (core_inited audio)) = Some f"
    and c: "case f of None \<Rightarrow> roles_of (reg_calls audio) n = []
     | Some i \<Rightarrow> i < (if audio then 3 else 2) \<and> roles_of (reg_calls audio) n \<noteq> [] \<and>
        read_strings (core_inited audio) (take (nRoles (gstOMXComponentList (core_inited audio) ! i))
          (pRoles (gstOMXComponentList (core_inited audio) ! i))) = Some (roles_of (reg_calls audio) n) \<and>
        nRoles (gstOMXComponentList (core_inited audio) ! i) = length (roles_of (reg_calls audio) n)"
    by (rule core_inited_find)
  show ?thesis
    using c by (cases f) (auto simp: NX_OMX_GetRolesOfComponent_def f Let_def)
qed

text \<open>
  The search by role is the inverse of the search by component: after the first \<open>NX_OMX_Init\<close> it
  returns, for any role string, exactly the components registered for that role, provided the
  caller's array has room for them.
\<close>

theorem components_of_role_after_init:
  assumes "length (filter (\<lambda>p. snd p = role) (reg_calls audio)) \<le> cap"
  shows "NX_OMX_GetComponentsOfRole role cap (core_inited audio) =
     (let ns = map fst (filter (\<lambda>p. snd p = role) (reg_calls audio))
      in Some (OMX_ErrorNone, of_nat (length ns), ns))"
proof -
  have "match_components (core_inited audio) role (the_components (core_inited audio)) =
      Some (concat (map (\<lambda>(n, rs). replicate (count_list rs role) n) (grouped (reg_calls audio))))"
    using core_inited_view[of audio] by (intro match_components_view) (simp add: table_view_def)
  moreover note grouped_components_of_role[of role audio]
  ultimately show ?thesis
    using assms by (simp add: NX_OMX_GetComponentsOfRole_def the_components_def[symmetric] Let_def)
qed

theorem components_of_role_after_init_witness:
  "NX_OMX_GetComponentsOfRole ''video_decoder.avc'' 1 (core_inited True) =
     Some (OMX_ErrorNone, 1, [''OMX.NX.VIDEO_DECODER''])"
  using components_of_role_after_init[of "''video_decoder.avc''" True 1] by (simp add: reg_calls_def)

text \<open>
  A component name written by \<open>NX_OMX_ComponentNameEnum\<close> fits the caller's buffer with its
  terminator, for every non-zero buffer length, and the index range is exactly the table.
\<close>

theorem name_enum_fits:
  assumes "NX_OMX_ComponentNameEnum len i c = Some (e, Some s)" and "0 < len"
    and "length s < 2 ^ 32"
  shows "e = OMX_ErrorNone \<and> length s + 1 \<le> unat len \<and>
    (0 < gstCurOMXComponents c \<longrightarrow> i < gstCurOMXComponents c)"
proof -
  from assms(1) have s: "str_mem c (strName (gstOMXComponentList c ! unat i)) = Some s"
    and le: "\<not> len - 1 < of_nat (length s)" "e = OMX_ErrorNone" "\<not> i > gstCurOMXComponents c - 1"
    by (auto simp: NX_OMX_ComponentNameEnum_def split: if_splits Option.bind_splits)
  from assms(3) have "unat (of_nat (length s) :: OMX_U32) = length s"
    by (simp add: unat_of_nat)
  with le(1) assms(2) have "length s \<le> unat len - 1"
    by (simp add: word_less_nat_alt word_dec_unat)
  moreover have "0 < unat len" using assms(2) by (simp add: word_less_nat_alt)
  moreover have "i < gstCurOMXComponents c" if "0 < gstCurOMXComponents c"
    using le(3) that by (simp add: word_less_nat_alt word_dec_unat)
  ultimately show ?thesis using le(2) by auto
qed

theorem name_enum_fits_witness:
  "NX_OMX_ComponentNameEnum 22 0 (core_inited False) = Some (OMX_ErrorNone, Some ''OMX.NX.VIDEO_DECODER'') \<and>
   length ''OMX.NX.VIDEO_DECODER'' + 1 \<le> unat (22 :: OMX_U32)"
proof -
  have h: "NX_OMX_ComponentNameEnum 22 0 (core_inited False) = Some (OMX_ErrorNone, Some ''OMX.NX.VIDEO_DECODER'')"
    by code_simp
  show ?thesis using h name_enum_fits[OF h] by simp
qed

text \<open>
  With a buffer length of 0 the test \<open>nNameLength-1 < strlen\<close> wraps around: the call succeeds and copies
  the whole name into a buffer that has no room for it.
\<close>

theorem name_enum_zero_length_overruns:
  "NX_OMX_ComponentNameEnum 0 0 (core_inited audio) =
     Some (OMX_ErrorNone, Some (if audio then ''OMX.NX.AUDIO_DECODER.FFMPEG'' else ''OMX.NX.VIDEO_DECODER''))"
  by (induct audio) (code_simp+)

text \<open>
  Runs of \<open>NX_OMX_Init\<close> (\<open>True\<close>) and \<open>NX_OMX_Deinit\<close> (\<open>False\<close>).
\<close>

fun core_run :: "bool \<Rightarrow> bool list \<Rightarrow> omx_core \<Rightarrow> omx_core option" where
  "core_run audio [] c = Some c"
| "core_run audio (b # bs) c = do {
     (e, c) \<leftarrow> (if b then NX_OMX_Init audio c else NX_OMX_Deinit c);
     core_run audio bs c }"

fun stays_open :: "nat \<Rightarrow> bool list \<Rightarrow> bool" where
  "stays_open d [] \<longleftrightarrow> 0 < d"
| "stays_open d (True # bs) \<longleftrightarrow> 0 < d \<and> stays_open (Suc d) bs"
| "stays_open d (False # bs) \<longleftrightarrow> 0 < d \<and> stays_open (d - 1) bs"

lemma stays_open_pos: "stays_open d bs \<Longrightarrow> 0 < d"
  by (cases "(d, bs)" rule: stays_open.cases) auto

text \<open>
  As long as the reference count never returns to 0, no sequence of \<open>NX_OMX_Init\<close> and \<open>NX_OMX_Deinit\<close>
  touches the component table or frees a name: only the count changes.
\<close>

theorem nested_init_keeps_table:
  assumes "stays_open (unat (gstOMXCoreRefCnt c)) bs"
    and "unat (gstOMXCoreRefCnt c) + length bs < 2 ^ 32"
  shows "\<exists>n. core_run audio bs c = Some (c\<lparr>gstOMXCoreRefCnt := n\<rparr>) \<and> 0 < n"
  using assms
proof (induction bs arbitrary: c)
  case Nil
  then show ?case by (intro exI[of _ "gstOMXCoreRefCnt c"]) (simp add: unat_gt_0 word_gt_0)
next
  case (Cons b bs)
  let ?r = "gstOMXCoreRefCnt c"
  have r: "?r \<noteq> 0" using stays_open_pos[OF Cons.prems(1)] by auto
  show ?case
  proof (cases b)
    case True
    let ?c = "c\<lparr>gstOMXCoreRefCnt := ?r + 1\<rparr>"
    have u: "unat (?r + 1) = Suc (unat ?r)"
      using Cons.prems(2) by (simp add: unat_word_ariths)
    have "stays_open (unat (gstOMXCoreRefCnt ?c)) bs" "unat (gstOMXCoreRefCnt ?c) + length bs < 2 ^ 32"
      using Cons.prems True u by auto
    from Cons.IH[OF this] True r show ?thesis by (auto simp: NX_OMX_Init_def)
  next
    case False
    let ?c = "c\<lparr>gstOMXCoreRefCnt := ?r - 1\<rparr>"
    have u: "unat (?r - 1) = unat ?r - 1" using r by (simp add: word_dec_unat)
    have "stays_open (unat (gstOMXCoreRefCnt ?c)) bs" "unat (gstOMXCoreRefCnt ?c) + length bs < 2 ^ 32"
      using Cons.prems False u by auto
    moreover from this(1) have "?r \<noteq> 1" by (auto dest: stays_open_pos)
    ultimately show ?thesis
      using Cons.IH[of ?c] False r by (auto simp: NX_OMX_Deinit_def word_gt_0 Let_def)
  qed
qed

theorem nested_init_keeps_table_witness:
  "\<exists>n. core_run True [True, False, True] (core_inited True) =
     Some ((core_inited True)\<lparr>gstOMXCoreRefCnt := n\<rparr>) \<and> 0 < n"
  by (rule nested_init_keeps_table) (simp_all add: core_inited_wf)

text \<open>
  \<open>NX_OMX_Deinit\<close> of the last user frees the registered names but neither clears the tables nor
  resets \<open>gstNXOMXInit\<close>: the next \<open>NX_OMX_Init\<close> succeeds without rebuilding the table, and the first
  \<open>NX_OMX_GetHandle\<close> after it compares the requested name with freed memory, whatever the name. One
  \<open>NX_OMX_Deinit\<close> too many frees the names a second time.
\<close>

theorem reinit_uses_freed_names:
  "(\<exists>c. core_run audio [True, False, True] (core0 (\<lambda>_. True)) = Some c \<and> NX_OMX_GetHandle ld n c = None) \<and>
   core_run audio [True, False, False] (core0 (\<lambda>_. True)) = None"
proof -
  have r: "map_option (\<lambda>c. (str_mem c (strName (gstOMXComponentList c ! 0)), the_components c \<noteq> [],
       gstOMXComponentList c \<noteq> [])) (core_run audio [True, False, True] (core0 (\<lambda>_. True))) = Some (None, True, True)"
    by (induct audio) (code_simp+)
  then obtain c where c: "core_run audio [True, False, True] (core0 (\<lambda>_. True)) = Some c"
    and n: "str_mem c (strName (gstOMXComponentList c ! 0)) = None" "the_components c \<noteq> []" by auto
  then obtain x xs where x: "the_components c = x # xs" by (cases "the_components c") auto
  then have "x = gstOMXComponentList c ! 0"
    unfolding the_components_def by (metis nth_Cons_0 nth_take take_eq_Nil gr0I list.distinct(1))
  with n x have "NX_OMX_GetHandle ld n c = None"
    by (simp add: NX_OMX_GetHandle_def str_is_def)
  with c have "\<exists>c. core_run audio [True, False, True] (core0 (\<lambda>_. True)) = Some c \<and> NX_OMX_GetHandle ld n c = None"
    by blast
  moreover have "core_run audio [True, False, False] (core0 (\<lambda>_. True)) = None"
    by (induct audio) (code_simp+)
  ultimately show ?thesis by blast
qed

text \<open>The shared object that the makefile of each registered component builds (\<open>LOCAL_MODULE\<close>).\<close>

definition module_of :: "string \<Rightarrow> string" where
  "module_of n = (if n = ''OMX.NX.VIDEO_DECODER'' then ''libNX_OMX_VIDEO_DECODER.so''
     else if n = ''OMX.NX.VIDEO_ENCODER'' then ''libNX_OMX_VIDEO_ENCODER.so''
     else ''libNX_OMX_AUDIO_DECODER_FFMPEG.so'')"

lemma soname_registered:
  "list_all (\<lambda>(n, r). case scan_role n of None \<Rightarrow> False
     | Some role \<Rightarrow> length role < 64 \<and> ''libNX_OMX_'' @ ConverteRoleName role @ ''.so'' = module_of n)
     (reg_calls audio)"
  by (induct audio) (code_simp+)

lemma core_inited_not_loaded:
  "list_all (\<lambda>x. ComponentInit x = NULL \<and> hModule x = NULL) (gstOMXComponentList (core_inited audio))"
  by (induct audio) (code_simp+)

text \<open>
  The dynamic loader: asking the freshly initialised core for a registered component opens the shared
  object that the component's makefile builds, and returns a handle exactly when the object, its
  \<open>OMX_ComponentInit\<close> symbol, the allocation, the init function and \<open>SetCallbacks\<close> all succeed.
\<close>

theorem get_handle_after_init:
  assumes "n \<in> fst ` set (reg_calls audio)"
  shows "(\<exists>h c. NX_OMX_GetHandle ld n (core_inited audio) = Some (OMX_ErrorNone, Some h, c)) \<longleftrightarrow>
     dlopen ld (module_of n) \<noteq> NULL \<and> dlsym_ComponentInit ld (dlopen ld (module_of n)) \<noteq> NULL \<and>
     malloc_component ld \<noteq> NULL \<and>
     call_ComponentInit ld (dlsym_ComponentInit ld (dlopen ld (module_of n))) = OMX_ErrorNone \<and>
     call_SetCallbacks ld = OMX_ErrorNone"
proof -
  from assms obtain r where r: "(n, r) \<in> set (reg_calls audio)" by auto
  then have ne: "roles_of (reg_calls audio) n \<noteq> []" by (force simp: roles_of_def filter_empty_conv)
  obtain i where f: "find_by_name (core_inited audio) n (the_components (core_inited audio)) = Some (Some i)"
    and i: "i < (if audio then 3 else 2)"
    by (rule core_inited_find[of audio n]) (use ne in \<open>auto split: option.splits\<close>)
  have "i < length (gstOMXComponentList (core_inited audio))"
    using i core_inited_wf[of audio] by (auto split: if_splits)
  with core_inited_not_loaded[of audio]
  have x: "ComponentInit (gstOMXComponentList (core_inited audio) ! i) = NULL"
    "hModule (gstOMXComponentList (core_inited audio) ! i) = NULL"
    by (auto simp: list_all_length)
  from soname_registered[of audio] r obtain role where
    "scan_role n = Some role" "length role < 64" "''libNX_OMX_'' @ ConverteRoleName role @ ''.so'' = module_of n"
    by (fastforce simp: list_all_iff split: option.splits)
  with f x show ?thesis
    by (auto simp: NX_OMX_GetHandle_def load_component_def Let_def)
qed

theorem get_handle_after_init_witness:
  "\<exists>h c. NX_OMX_GetHandle \<lparr>dlopen = (\<lambda>s. if s = ''libNX_OMX_VIDEO_DECODER.so'' then 7 else 0),
      dlsym_ComponentInit = (\<lambda>m. m + 1), call_ComponentInit = (\<lambda>_. OMX_ErrorNone),
      call_SetCallbacks = OMX_ErrorNone, malloc_component = 9\<rparr> ''OMX.NX.VIDEO_DECODER'' (core_inited True) =
    Some (OMX_ErrorNone, Some h, c)"
  by (subst get_handle_after_init) (simp_all add: reg_calls_def module_of_def)

end
