(* ===== verification/OmxQueue.thy ===== *)
theory OmxQueue
  imports OmxPrelude
begin

text \<open>
  The thread-safe ring buffer of \<open>omx/common/NX_OMXQueue.c\<close>. Every operation runs under the queue's
  mutex, so it is one atomic function on the queue's state. The interface the components rely on
  is the locale \<open>bounded_fifo\<close>; the ring buffer is shown to implement it.
\<close>

section \<open>The ring buffer\<close>

abbreviation (input) NX_MAX_QUEUE_ELEMENT :: nat where "NX_MAX_QUEUE_ELEMENT \<equiv> 128"

record NX_QUEUE =
  head :: nat
  tail :: nat
  maxElement :: nat
  curElements :: nat
  bEnabled :: bool
  pElements :: "ptr list"

text \<open>\<open>NxMemset( pQueue, 0, sizeof(NX_QUEUE) )\<close>.\<close>

definition zero_queue :: NX_QUEUE where
  "zero_queue = \<lparr>head = 0, tail = 0, maxElement = 0, curElements = 0, bEnabled = False,
     pElements = replicate NX_MAX_QUEUE_ELEMENT NULL\<rparr>"

text \<open>\<open>mutex_rc\<close> is what \<open>pthread_mutex_init\<close> returns.\<close>

definition NX_InitQueue :: "int \<Rightarrow> nat \<Rightarrow> int \<times> NX_QUEUE" where
  "NX_InitQueue mutex_rc maxNumElement =
     (if maxNumElement > NX_MAX_QUEUE_ELEMENT then (-1, zero_queue)
      else if 0 \<noteq> mutex_rc then (-1, zero_queue)
      else (0, zero_queue\<lparr>maxElement := maxNumElement, bEnabled := True\<rparr>))"

definition NX_PushQueue :: "NX_QUEUE \<Rightarrow> ptr \<Rightarrow> int \<times> NX_QUEUE" where
  "NX_PushQueue q e =
     (if curElements q \<ge> maxElement q \<or> \<not> bEnabled q then (-1, q)
      else (0, q\<lparr>pElements := (pElements q)[tail q := e],
                 tail := (tail q + 1) mod maxElement q,
                 curElements := curElements q + 1\<rparr>))"

text \<open>The out-parameter is \<open>None\<close> where the code leaves \<open>*pElement\<close> alone.\<close>

definition NX_PopQueue :: "NX_QUEUE \<Rightarrow> int \<times> ptr option \<times> NX_QUEUE" where
  "NX_PopQueue q =
     (if curElements q = 0 \<or> \<not> bEnabled q then (-1, None, q)
      else (0, Some (pElements q ! head q),
            q\<lparr>head := (head q + 1) mod maxElement q, curElements := curElements q - 1\<rparr>))"

definition NX_GetNextQueuInfo :: "NX_QUEUE \<Rightarrow> int \<times> ptr option" where
  "NX_GetNextQueuInfo q =
     (if curElements q = 0 \<or> \<not> bEnabled q then (-1, None)
      else (0, Some (pElements q ! head q)))"

definition NX_GetQueueCnt :: "NX_QUEUE \<Rightarrow> nat" where
  "NX_GetQueueCnt q = curElements q"

definition NX_DeinitQueue :: "NX_QUEUE \<Rightarrow> NX_QUEUE" where
  "NX_DeinitQueue q = zero_queue"

section \<open>Well-formed queues and their contents\<close>

definition queue_inv :: "NX_QUEUE \<Rightarrow> bool" where
  "queue_inv q \<longleftrightarrow>
     length (pElements q) = NX_MAX_QUEUE_ELEMENT \<and> maxElement q \<le> NX_MAX_QUEUE_ELEMENT \<and>
     curElements q \<le> maxElement q \<and>
     (maxElement q = 0 \<longrightarrow> head q = 0 \<and> tail q = 0) \<and>
     (0 < maxElement q \<longrightarrow> head q < maxElement q \<and>
        tail q = (head q + curElements q) mod maxElement q)"

definition queue_list :: "NX_QUEUE \<Rightarrow> ptr list" where
  "queue_list q = map (\<lambda>i. pElements q ! ((head q + i) mod maxElement q)) [0..<curElements q]"

lemma length_queue_list [simp]: "length (queue_list q) = curElements q"
  by (simp add: queue_list_def)

lemma zero_queue_inv [simp]: "queue_inv zero_queue"
  by (simp add: queue_inv_def zero_queue_def)

lemma init_queue_inv: "queue_inv (snd (NX_InitQueue rc n))"
  by (simp add: NX_InitQueue_def queue_inv_def zero_queue_def)

lemma init_queue_list: "queue_list (snd (NX_InitQueue rc n)) = []"
  by (simp add: NX_InitQueue_def queue_list_def zero_queue_def)

lemma push_full:
  "curElements q \<ge> maxElement q \<or> \<not> bEnabled q \<Longrightarrow> NX_PushQueue q e = (-1, q)"
  by (auto simp: NX_PushQueue_def)

lemma push_inv:
  assumes "queue_inv q"
  shows "queue_inv (snd (NX_PushQueue q e))"
  using assms by (auto simp: NX_PushQueue_def queue_inv_def mod_Suc_eq)

lemma push_list:
  assumes inv: "queue_inv q" and room: "curElements q < maxElement q" "bEnabled q"
  shows "fst (NX_PushQueue q e) = 0 \<and> queue_list (snd (NX_PushQueue q e)) = queue_list q @ [e]"
proof -
  have tl: "tail q = (head q + curElements q) mod maxElement q" "tail q < length (pElements q)"
    using inv room by (auto simp: queue_inv_def intro: less_le_trans[OF mod_less_divisor])
  have "pElements q ! ((head q + i) mod maxElement q) =
        (pElements q)[tail q := e] ! ((head q + i) mod maxElement q)" if "i < curElements q" for i
  proof -
    have "(head q + i) mod maxElement q \<noteq> tail q"
      using ring_inj[of "head q" i "maxElement q" "curElements q"] that room tl(1) by auto
    then show ?thesis by simp
  qed
  then show ?thesis
    using room tl by (simp add: NX_PushQueue_def queue_list_def)
qed

lemma pop_inv:
  assumes "queue_inv q"
  shows "queue_inv (snd (snd (NX_PopQueue q)))"
  using assms ring_shift[of "head q" "maxElement q" "curElements q - 1"]
  by (auto simp: NX_PopQueue_def queue_inv_def)

lemma pop_list:
  assumes inv: "queue_inv q" and ne: "queue_list q = x # xs" and en: "bEnabled q"
  shows "fst (NX_PopQueue q) = 0 \<and> fst (snd (NX_PopQueue q)) = Some x \<and>
         queue_list (snd (snd (NX_PopQueue q))) = xs"
proof -
  have c: "curElements q = Suc (length xs)"
    using ne length_queue_list[of q] by simp
  have h: "head q < maxElement q" using inv c by (auto simp: queue_inv_def)
  have split: "[0..<curElements q] = 0 # map Suc [0..<length xs]"
    by (simp only: c upt_conv_Cons[OF zero_less_Suc] map_Suc_upt)
  have "x = pElements q ! head q"
    and "xs = map (\<lambda>i. pElements q ! ((head q + Suc i) mod maxElement q)) [0..<length xs]"
    using ne h unfolding queue_list_def split by (simp_all add: o_def)
  then show ?thesis
    using c en ring_shift[OF h] by (simp add: NX_PopQueue_def queue_list_def)
qed

section \<open>The interface: a bounded FIFO\<close>

text \<open>
  What a client of the queue may rely on: the contents are a list of bounded length, a push appends,
  a pop removes the front element, both fail without effect when they cannot, and both keep the
  invariant.
\<close>

locale bounded_fifo =
  fixes inv :: "'q \<Rightarrow> bool"
    and contents :: "'q \<Rightarrow> 'e list"
    and ready :: "'q \<Rightarrow> bool"
    and cap :: "'q \<Rightarrow> nat"
    and push :: "'q \<Rightarrow> 'e \<Rightarrow> int \<times> 'q"
    and pop :: "'q \<Rightarrow> int \<times> 'e option \<times> 'q"
  assumes bounded: "inv q \<Longrightarrow> length (contents q) \<le> cap q"
    and push_ok: "inv q \<Longrightarrow> ready q \<Longrightarrow> length (contents q) < cap q \<Longrightarrow>
          fst (push q e) = 0 \<and> contents (snd (push q e)) = contents q @ [e]"
    and push_fail: "inv q \<Longrightarrow> \<not> (ready q \<and> length (contents q) < cap q) \<Longrightarrow> push q e = (-1, q)"
    and pop_ok: "inv q \<Longrightarrow> ready q \<Longrightarrow> contents q = x # xs \<Longrightarrow>
          fst (pop q) = 0 \<and> fst (snd (pop q)) = Some x \<and> contents (snd (snd (pop q))) = xs"
    and pop_fail: "inv q \<Longrightarrow> \<not> (ready q \<and> contents q \<noteq> []) \<Longrightarrow> pop q = (-1, None, q)"
    and inv_push: "inv q \<Longrightarrow> inv (snd (push q e))"
    and inv_pop: "inv q \<Longrightarrow> inv (snd (snd (pop q)))"
    and ready_push: "ready (snd (push q e)) = ready q"
    and ready_pop: "ready (snd (snd (pop q))) = ready q"
    and cap_push: "cap (snd (push q e)) = cap q"
    and cap_pop: "cap (snd (snd (pop q))) = cap q"
begin

text \<open>Pushing a list of elements, and draining until a pop fails (the flush loops of the clients).\<close>

primrec push_all :: "'q \<Rightarrow> 'e list \<Rightarrow> 'q" where
  "push_all q [] = q"
| "push_all q (e # es) = push_all (snd (push q e)) es"

primrec pop_n :: "nat \<Rightarrow> 'q \<Rightarrow> 'e list \<times> 'q" where
  "pop_n 0 q = ([], q)"
| "pop_n (Suc n) q =
     (case pop q of (rc, None, q') \<Rightarrow> ([], q')
      | (rc, Some x, q') \<Rightarrow> (let (xs, q'') = pop_n n q' in (x # xs, q'')))"

lemma push_all_contents:
  "inv q \<Longrightarrow> ready q \<Longrightarrow> length (contents q) + length es \<le> cap q \<Longrightarrow>
   contents (push_all q es) = contents q @ es \<and> inv (push_all q es) \<and> ready (push_all q es)"
proof (induction es arbitrary: q)
  case Nil
  then show ?case by simp
next
  case (Cons e es)
  then have "contents (snd (push q e)) = contents q @ [e]" using push_ok by simp
  with Cons show ?case
    by (simp add: inv_push ready_push cap_push)
qed

lemma pop_n_contents:
  "inv q \<Longrightarrow> ready q \<Longrightarrow>
   fst (pop_n n q) = take n (contents q) \<and> contents (snd (pop_n n q)) = drop n (contents q)"
proof (induction n arbitrary: q)
  case 0
  then show ?case by simp
next
  case (Suc n)
  show ?case
  proof (cases "contents q")
    case Nil
    with Suc.prems have "pop q = (-1, None, q)" using pop_fail by simp
    with Nil show ?thesis by simp
  next
    case (Cons x xs)
    obtain q' where q': "pop q = (0, Some x, q')" "contents q' = xs"
      using pop_ok[OF Suc.prems Cons] by (cases "pop q") auto
    have "inv q'" "ready q'"
      using inv_pop[of q] ready_pop[of q] Suc.prems q'(1) by auto
    with Suc.IH[of q'] q' Cons show ?thesis
      by (simp add: case_prod_unfold Let_def)
  qed
qed

lemma fifo_order:
  assumes "inv q" "ready q" "contents q = []" "length es \<le> cap q"
  shows "fst (pop_n (length es) (push_all q es)) = es"
  using push_all_contents[of q es] pop_n_contents[of "push_all q es" "length es"] assms by simp

end

interpretation nxq: bounded_fifo queue_inv queue_list bEnabled maxElement NX_PushQueue NX_PopQueue
proof unfold_locales
  show "queue_inv q \<Longrightarrow> length (queue_list q) \<le> maxElement q" for q
    by (simp add: queue_inv_def)
  show "queue_inv q \<Longrightarrow> bEnabled q \<Longrightarrow> length (queue_list q) < maxElement q \<Longrightarrow>
     fst (NX_PushQueue q e) = 0 \<and> queue_list (snd (NX_PushQueue q e)) = queue_list q @ [e]" for q e
    using push_list by simp
  show "queue_inv q \<Longrightarrow> \<not> (bEnabled q \<and> length (queue_list q) < maxElement q) \<Longrightarrow>
     NX_PushQueue q e = (-1, q)" for q e
    by (auto simp: NX_PushQueue_def)
  show "queue_inv q \<Longrightarrow> bEnabled q \<Longrightarrow> queue_list q = x # xs \<Longrightarrow>
     fst (NX_PopQueue q) = 0 \<and> fst (snd (NX_PopQueue q)) = Some x \<and>
     queue_list (snd (snd (NX_PopQueue q))) = xs" for q x xs
    by (rule pop_list)
  show "queue_inv q \<Longrightarrow> \<not> (bEnabled q \<and> queue_list q \<noteq> []) \<Longrightarrow> NX_PopQueue q = (-1, None, q)" for q
    by (auto simp: NX_PopQueue_def queue_list_def)
  show "queue_inv q \<Longrightarrow> queue_inv (snd (NX_PushQueue q e))" for q e by (rule push_inv)
  show "queue_inv q \<Longrightarrow> queue_inv (snd (snd (NX_PopQueue q)))" for q by (rule pop_inv)
qed (auto simp: NX_PushQueue_def NX_PopQueue_def)

section \<open>Runs of the queue\<close>

text \<open>
  The calls a component makes on an initialised queue, in any order (the mutex makes every
  interleaving of two threads such an order), with what each returns; and the same calls on a list
  with a capacity.
\<close>

datatype queue_call = Push ptr | Pop | Peek | Count

type_synonym queue_result = "int \<times> ptr option"

fun queue_run :: "queue_call list \<Rightarrow> NX_QUEUE \<Rightarrow> queue_result list" where
  "queue_run [] q = []"
| "queue_run (Push e # cs) q = (let (rc, q) = NX_PushQueue q e in (rc, None) # queue_run cs q)"
| "queue_run (Pop # cs) q = (let (rc, x, q) = NX_PopQueue q in (rc, x) # queue_run cs q)"
| "queue_run (Peek # cs) q = NX_GetNextQueuInfo q # queue_run cs q"
| "queue_run (Count # cs) q = (int (NX_GetQueueCnt q), None) # queue_run cs q"

fun fifo_run :: "nat \<Rightarrow> queue_call list \<Rightarrow> ptr list \<Rightarrow> queue_result list" where
  "fifo_run n [] xs = []"
| "fifo_run n (Push e # cs) xs =
     (if length xs < n then (0, None) # fifo_run n cs (xs @ [e]) else (-1, None) # fifo_run n cs xs)"
| "fifo_run n (Pop # cs) xs =
     (case xs of [] \<Rightarrow> (-1, None) # fifo_run n cs [] | x # ys \<Rightarrow> (0, Some x) # fifo_run n cs ys)"
| "fifo_run n (Peek # cs) xs =
     (case xs of [] \<Rightarrow> (-1, None) | x # ys \<Rightarrow> (0, Some x)) # fifo_run n cs xs"
| "fifo_run n (Count # cs) xs = (int (length xs), None) # fifo_run n cs xs"

lemma peek_list:
  "queue_inv q \<Longrightarrow> bEnabled q \<Longrightarrow>
   NX_GetNextQueuInfo q = (case queue_list q of [] \<Rightarrow> (-1, None) | x # _ \<Rightarrow> (0, Some x))"
proof (cases "queue_list q")
  case Nil
  then show ?thesis by (simp add: NX_GetNextQueuInfo_def queue_list_def)
next
  case (Cons x xs)
  assume a: "queue_inv q" "bEnabled q"
  have "curElements q \<noteq> 0" using Cons length_queue_list[of q] by auto
  moreover have "pElements q ! head q = x"
    using pop_list[OF a(1) Cons a(2)] a(2) calculation by (simp add: NX_PopQueue_def)
  ultimately show ?thesis using a Cons by (simp add: NX_GetNextQueuInfo_def)
qed

lemma queue_run_fifo:
  "queue_inv q \<Longrightarrow> bEnabled q \<Longrightarrow> queue_run cs q = fifo_run (maxElement q) cs (queue_list q)"
proof (induction cs arbitrary: q)
  case Nil
  then show ?case by simp
next
  case (Cons c cs)
  show ?case
  proof (cases c)
    case (Push e)
    with Cons.prems nxq.push_ok[of q e] nxq.push_fail[of q e] Cons.IH[of "snd (NX_PushQueue q e)"]
      nxq.inv_push[of q e] nxq.ready_push[of q e] nxq.cap_push[of q e]
    show ?thesis by (cases "curElements q < maxElement q") (auto simp: Let_def case_prod_unfold)
  next
    case Pop
    with Cons.prems nxq.pop_ok[of q] nxq.pop_fail[of q] Cons.IH[of "snd (snd (NX_PopQueue q))"]
      nxq.inv_pop[of q] nxq.ready_pop[of q] nxq.cap_pop[of q]
    show ?thesis by (cases "queue_list q") (auto simp: Let_def case_prod_unfold)
  next
    case Peek
    with Cons show ?thesis by (simp add: peek_list)
  next
    case Count
    with Cons show ?thesis by (simp add: NX_GetQueueCnt_def)
  qed
qed

lemma zero_queue_run: "queue_run cs zero_queue = fifo_run 0 cs []"
proof (induction cs)
  case Nil
  then show ?case by simp
next
  case (Cons c cs)
  then show ?case
    by (cases c) (auto simp: zero_queue_def NX_PushQueue_def NX_PopQueue_def NX_GetNextQueuInfo_def
        NX_GetQueueCnt_def)
qed

text \<open>
  C2: The ring buffer refines a bounded list: after \<open>NX_InitQueue\<close> with a capacity of at most
  \<open>NX_MAX_QUEUE_ELEMENT\<close>, every sequence of pushes, pops, peeks and counts returns exactly what it
  returns on a list with that capacity; a full push and an empty pop fail and change nothing. A
  larger capacity, or a failing mutex, is refused, and every later push and pop fails.
\<close>

theorem queue_refines_fifo:
  "queue_run cs (snd (NX_InitQueue rc n)) =
     (if n \<le> NX_MAX_QUEUE_ELEMENT \<and> rc = 0 then fifo_run n cs [] else fifo_run 0 cs [])"
  using queue_run_fifo[of "snd (NX_InitQueue rc n)" cs] init_queue_inv[of rc n] init_queue_list[of rc n]
  by (auto simp: NX_InitQueue_def zero_queue_run)

end
