(* ===== verification/OmxSem.thy ===== *)
theory OmxSem
  imports OmxPrelude
begin

text \<open>
  The counting semaphore of \<open>omx/common/NX_OMXSemaphore.c\<close>: its operations, the threads that use it
  concurrently, and the condition under which the decrement never wraps. The code tests the value
  once before \<open>pthread_cond_wait\<close> and does not test it again afterwards, so what holds depends on the
  number of threads that pend.
\<close>

section \<open>Operations\<close>

record NX_SEMAPHORE =
  nValue :: OMX_U32
  nMaxValue :: OMX_U32

abbreviation (input) NX_ESEM :: int where "NX_ESEM \<equiv> -1"
abbreviation (input) NX_ESEM_OVERFLOW :: int where "NX_ESEM_OVERFLOW \<equiv> -2"

text \<open>
  \<open>alloc\<close>: whether \<open>NxMalloc\<close> succeeds; \<open>cond_rc\<close>, \<open>mutex_rc\<close>: what \<open>pthread_cond_init\<close> and
  \<open>pthread_mutex_init\<close> return. \<open>None\<close> is the NULL handle.
\<close>

definition NX_CreateSem :: "bool \<Rightarrow> int \<Rightarrow> int \<Rightarrow> OMX_U32 \<Rightarrow> OMX_U32 \<Rightarrow> NX_SEMAPHORE option" where
  "NX_CreateSem alloc cond_rc mutex_rc initValue maxValue =
     (if \<not> alloc then None
      else if 0 \<noteq> cond_rc then None
      else if 0 \<noteq> mutex_rc then None
      else Some \<lparr>nValue = initValue, nMaxValue = maxValue\<rparr>)"

text \<open>
  \<open>NX_PendSem\<close> up to \<open>pthread_cond_wait\<close>: \<open>None\<close> when the thread goes to sleep, otherwise the
  semaphore after the decrement (the call then returns 0).
\<close>

definition NX_PendSem_enter :: "NX_SEMAPHORE \<Rightarrow> NX_SEMAPHORE option" where
  "NX_PendSem_enter s =
     (if nValue s = 0 then None else Some (s\<lparr>nValue := nValue s - 1\<rparr>))"

text \<open>\<open>NX_PendSem\<close> from the return of \<open>pthread_cond_wait\<close>, which returned \<open>error\<close>.\<close>

definition NX_PendSem_resume :: "int \<Rightarrow> NX_SEMAPHORE \<Rightarrow> int \<times> NX_SEMAPHORE" where
  "NX_PendSem_resume error s =
     (if 0 \<noteq> error then (NX_ESEM, s) else (error, s\<lparr>nValue := nValue s - 1\<rparr>))"

definition NX_PostSem :: "NX_SEMAPHORE \<Rightarrow> int \<times> NX_SEMAPHORE" where
  "NX_PostSem s =
     (if nValue s \<ge> nMaxValue s then (NX_ESEM_OVERFLOW, s)
      else (0, s\<lparr>nValue := nValue s + 1\<rparr>))"

lemma post_max [simp]: "nMaxValue (snd (NX_PostSem s)) = nMaxValue s"
  by (simp add: NX_PostSem_def)

lemma post_value:
  "unat (nValue (snd (NX_PostSem s))) =
     (if nValue s < nMaxValue s then unat (nValue s) + 1 else unat (nValue s))"
  by (simp add: NX_PostSem_def word_inc_unat not_le[symmetric])

lemma pend_enter_value:
  "NX_PendSem_enter s = Some t \<Longrightarrow>
     0 < unat (nValue s) \<and> unat (nValue t) = unat (nValue s) - 1 \<and> nMaxValue t = nMaxValue s"
  by (auto simp: NX_PendSem_enter_def word_dec_unat unat_gt_0 split: if_splits)

lemma pend_enter_None [simp]: "NX_PendSem_enter s = None \<longleftrightarrow> nValue s = 0"
  by (simp add: NX_PendSem_enter_def)

text \<open>A post that is not at the limit cancels with the next pend.\<close>

lemma post_then_pend:
  assumes "nValue s < nMaxValue s"
  shows "NX_PendSem_enter (snd (NX_PostSem s)) = Some s"
proof -
  have "nValue s + 1 \<noteq> 0"
    using assms by (simp add: word_inc_le)
  with assms show ?thesis by (simp add: NX_PostSem_def NX_PendSem_enter_def not_le[symmetric])
qed

text \<open>The handle is gone; destroying a NULL handle does nothing.\<close>

definition NX_DestroySem :: "NX_SEMAPHORE option \<Rightarrow> NX_SEMAPHORE option" where
  "NX_DestroySem h = None"

section \<open>Threads\<close>

text \<open>
  Any number of threads share one semaphore. The mutex makes each of the segments below atomic:
  a pend up to the wait, the end of a pend after the wait, and a post with its
  \<open>pthread_cond_signal\<close>, which wakes one waiting thread if there is one. POSIX also allows a waiter
  to wake spuriously; \<open>spur\<close> says whether that happens.
\<close>

datatype sem_thread = Running | Waiting | Woken

record sem_sys =
  sem :: NX_SEMAPHORE
  thr :: "nat \<Rightarrow> sem_thread"

inductive sem_step :: "bool \<Rightarrow> nat set \<Rightarrow> sem_sys \<Rightarrow> sem_sys \<Rightarrow> bool" for spur :: bool and C :: "nat set" where
  pend_take: "i \<in> C \<Longrightarrow> thr s i = Running \<Longrightarrow> NX_PendSem_enter (sem s) = Some m \<Longrightarrow>
     sem_step spur C s (s\<lparr>sem := m\<rparr>)"
| pend_wait: "i \<in> C \<Longrightarrow> thr s i = Running \<Longrightarrow> NX_PendSem_enter (sem s) = None \<Longrightarrow>
     sem_step spur C s (s\<lparr>thr := (thr s)(i := Waiting)\<rparr>)"
| post_signal: "thr s i = Waiting \<Longrightarrow> NX_PostSem (sem s) = (rc, m) \<Longrightarrow>
     sem_step spur C s (s\<lparr>sem := m, thr := (thr s)(i := Woken)\<rparr>)"
| post_quiet: "\<forall>i. thr s i \<noteq> Waiting \<Longrightarrow> NX_PostSem (sem s) = (rc, m) \<Longrightarrow>
     sem_step spur C s (s\<lparr>sem := m\<rparr>)"
| pend_resume: "thr s i = Woken \<Longrightarrow> NX_PendSem_resume 0 (sem s) = (rc, m) \<Longrightarrow>
     sem_step spur C s (s\<lparr>sem := m, thr := (thr s)(i := Running)\<rparr>)"
| spurious: "spur \<Longrightarrow> thr s i = Waiting \<Longrightarrow>
     sem_step spur C s (s\<lparr>thr := (thr s)(i := Woken)\<rparr>)"

inductive sem_reach :: "bool \<Rightarrow> nat set \<Rightarrow> sem_sys \<Rightarrow> sem_sys \<Rightarrow> bool" for spur :: bool and C :: "nat set" where
  refl: "sem_reach spur C s s"
| step: "sem_reach spur C s t \<Longrightarrow> sem_step spur C t u \<Longrightarrow> sem_reach spur C s u"

definition sem_init :: "OMX_U32 \<Rightarrow> OMX_U32 \<Rightarrow> sem_sys" where
  "sem_init v m = \<lparr>sem = \<lparr>nValue = v, nMaxValue = m\<rparr>, thr = \<lambda>_. Running\<rparr>"

text \<open>
  With a single pending thread \<open>c\<close> a sleeping thread means value 0 and a woken thread means that
  the value counts the post that woke it.
\<close>

definition one_pender_inv :: "nat \<Rightarrow> sem_sys \<Rightarrow> bool" where
  "one_pender_inv c s \<longleftrightarrow>
     nValue (sem s) \<le> nMaxValue (sem s) \<and> 0 < nMaxValue (sem s) \<and>
     (\<forall>i. i \<noteq> c \<longrightarrow> thr s i = Running) \<and>
     (thr s c = Waiting \<longrightarrow> nValue (sem s) = 0) \<and>
     (thr s c = Woken \<longrightarrow> nValue (sem s) \<noteq> 0)"

lemma one_pender_init: "v \<le> m \<Longrightarrow> 0 < m \<Longrightarrow> one_pender_inv c (sem_init v m)"
  by (simp add: one_pender_inv_def sem_init_def)

lemma one_pender_step:
  assumes "sem_step False {c} s t" "one_pender_inv c s"
  shows "one_pender_inv c t"
  using assms
proof (induction rule: sem_step.induct)
  case (pend_take i s m)
  then show ?case
    by (auto simp: one_pender_inv_def NX_PendSem_enter_def word_dec_le split: if_splits)
next
  case (post_signal s i rc m)
  then have "i = c" by (metis one_pender_inv_def sem_thread.distinct(1))
  with post_signal word_inc_le[of "nValue (sem s)" "nMaxValue (sem s)"] show ?case
    by (auto simp: one_pender_inv_def NX_PostSem_def split: if_splits)
next
  case (post_quiet s rc m)
  with word_inc_le[of "nValue (sem s)" "nMaxValue (sem s)"] show ?case
    by (cases "thr s c") (auto simp: one_pender_inv_def NX_PostSem_def not_le split: if_splits)
next
  case (pend_resume s i rc m)
  then have "i = c" by (metis one_pender_inv_def sem_thread.distinct(3))
  with pend_resume show ?case
    by (auto simp: one_pender_inv_def NX_PendSem_resume_def word_dec_le)
qed (auto simp: one_pender_inv_def)

lemma one_pender_reach:
  "sem_reach False {c} s t \<Longrightarrow> one_pender_inv c s \<Longrightarrow> one_pender_inv c t"
  by (induction rule: sem_reach.induct) (auto intro: one_pender_step)

lemma sem_reach_max: "sem_reach b C s t \<Longrightarrow> nMaxValue (sem t) = nMaxValue (sem s)"
proof (induction rule: sem_reach.induct)
  case (step s t u)
  from step(2) have "nMaxValue (sem u) = nMaxValue (sem t)"
  proof (induction rule: sem_step.induct)
    case (pend_take i s m)
    then show ?case by (auto dest: pend_enter_value)
  next
    case (post_signal s i rc m)
    then show ?case using post_max[of "sem s"] by simp
  next
    case (post_quiet s rc m)
    then show ?case using post_max[of "sem s"] by simp
  qed (auto simp: NX_PendSem_resume_def)
  with step show ?case by simp
qed simp


lemma sem_reach_wait_post:
  "sem_reach b {0} (sem_init 0 1) ((sem_init 0 1)\<lparr>thr := (\<lambda>_. Running)(0 := Waiting)\<rparr>)"
  "sem_reach b {0} (sem_init 0 1) ((sem_init 1 1)\<lparr>thr := (\<lambda>_. Running)(0 := Woken)\<rparr>)"
proof -
  show w: "sem_reach b {0} (sem_init 0 1) ((sem_init 0 1)\<lparr>thr := (\<lambda>_. Running)(0 := Waiting)\<rparr>)"
    using sem_reach.step[OF sem_reach.refl sem_step.pend_wait[of 0 "{0}" "sem_init 0 1"]]
    by (simp add: sem_init_def)
  show "sem_reach b {0} (sem_init 0 1) ((sem_init 1 1)\<lparr>thr := (\<lambda>_. Running)(0 := Woken)\<rparr>)"
    using sem_reach.step[OF w sem_step.post_signal[of _ 0 0 "\<lparr>nValue = 1, nMaxValue = 1\<rparr>"]]
    by (simp add: sem_init_def NX_PostSem_def)
qed


lemma sem_step_mono: "sem_step b C s t \<Longrightarrow> C \<subseteq> D \<Longrightarrow> sem_step b D s t"
  by (induction rule: sem_step.induct) (auto intro: sem_step.intros)

lemma sem_reach_mono: "sem_reach b C s t \<Longrightarrow> C \<subseteq> D \<Longrightarrow> sem_reach b D s t"
  by (induction rule: sem_reach.induct) (auto intro: sem_reach.intros sem_step_mono)

text \<open>
  The single test before \<open>pthread_cond_wait\<close> is not enough beyond one pending thread without spurious
  wakeups: with two pending threads, or with one spurious wakeup, a semaphore created with the
  values 0 and 1 reaches the value \<open>0xFFFFFFFF\<close>, after which every pend succeeds at once and every
  post fails.
\<close>

theorem sem_two_penders_wrap:
  "(\<exists>t. sem_reach False {0, 1} (sem_init 0 1) t \<and> nValue (sem t) = 0xFFFFFFFF) \<and>
   (\<exists>t. sem_reach True {0} (sem_init 0 1) t \<and> nValue (sem t) = 0xFFFFFFFF)"
proof
  let ?w = "(sem_init 1 1)\<lparr>thr := (\<lambda>_. Running)(0 := Woken)\<rparr>"
  let ?v = "(sem_init 0 1)\<lparr>thr := (\<lambda>_. Running)(0 := Woken)\<rparr>"
  let ?t = "sem_init 0xFFFFFFFF 1"
  have "sem_reach False {0, 1} (sem_init 0 1) ?w"
    using sem_reach_wait_post(2) by (rule sem_reach_mono) simp
  from sem_reach.step[OF this sem_step.pend_take[of 1 "{0, 1}" _ "\<lparr>nValue = 0, nMaxValue = 1\<rparr>"]]
  have v: "sem_reach False {0, 1} (sem_init 0 1) ?v"
    by (simp add: sem_init_def NX_PendSem_enter_def)
  have r: "sem_step b C ?v ?t" for b C
    using sem_step.pend_resume[of ?v 0 0 "\<lparr>nValue = 0xFFFFFFFF, nMaxValue = 1\<rparr>" b C]
    by (simp add: sem_init_def NX_PendSem_resume_def fun_upd_idem)
  show "\<exists>t. sem_reach False {0, 1} (sem_init 0 1) t \<and> nValue (sem t) = 0xFFFFFFFF"
    using sem_reach.step[OF v r] by (intro exI[of _ ?t]) (simp add: sem_init_def)
  have "sem_reach True {0} (sem_init 0 1) ?v"
    using sem_reach.step[OF sem_reach_wait_post(1) sem_step.spurious[of True _ 0]]
    by (simp add: sem_init_def)
  from sem_reach.step[OF this r] show "\<exists>t. sem_reach True {0} (sem_init 0 1) t \<and> nValue (sem t) = 0xFFFFFFFF"
    by (intro exI[of _ ?t]) (simp add: sem_init_def)
qed

end
