(* ===== verification/OmxBase.thy ===== *)
theory OmxBase
  imports OmxQueue OmxSem
begin

text \<open>
  The base every component embeds (\<open>omx/components/base\<close>): port definitions, command messages, the
  struct \<open>NX_BASE_COMPNENT\<close> and the default entry points. The C components start with the members
  of the macro \<open>NX_BASECOMPONENTTYPE\<close>; here their records extend \<open>NX_BASE_COMPNENT\<close>, and the default
  entry points work on every extension.

  The memory a component shares with its client is part of the record: the buffer headers
  (\<open>hdr_mem\<close>), the data they point to (\<open>byte_mem\<close>) and the command messages (\<open>cmd_mem\<close>). Calls out of
  the component (callbacks to the client, calls of the decoder library) are appended to \<open>trace\<close>.
  A pointer that \<open>NxMalloc\<close> returns is an argument of the operation that allocates, \<open>NULL\<close> for a
  failure.
\<close>

section \<open>Buffer headers, events\<close>

record OMX_BUFFERHEADERTYPE =
  hdr_nSize :: OMX_U32
  hdr_nVersion :: OMX_U32
  pBuffer :: ptr
  nAllocLen :: OMX_U32
  nFilledLen :: OMX_U32
  nOffset :: OMX_U32
  pAppPrivate :: ptr
  pPlatformPrivate :: ptr
  hMarkTargetComponent :: ptr
  pMarkData :: ptr
  nTickCount :: OMX_U32
  nTimeStamp :: OMX_TICKS
  nFlags :: OMX_U32
  nOutputPortIndex :: OMX_U32
  nInputPortIndex :: OMX_U32

definition zero_hdr :: OMX_BUFFERHEADERTYPE where
  "zero_hdr = \<lparr>hdr_nSize = 0, hdr_nVersion = 0, pBuffer = NULL, nAllocLen = 0, nFilledLen = 0, nOffset = 0,
     pAppPrivate = NULL, pPlatformPrivate = NULL, hMarkTargetComponent = NULL, pMarkData = NULL,
     nTickCount = 0, nTimeStamp = 0, nFlags = 0, nOutputPortIndex = 0, nInputPortIndex = 0\<rparr>"

text \<open>\<open>sizeof(OMX_BUFFERHEADERTYPE)\<close> on the 32-bit target.\<close>

abbreviation (input) sizeof_hdr :: OMX_U32 where "sizeof_hdr \<equiv> 80"

text \<open>
  What a component does to the outside, with the contents of the header at the time of the call for
  the two buffer callbacks.
\<close>

datatype omx_call =
    EmptyBufferDone ptr OMX_BUFFERHEADERTYPE
  | FillBufferDone ptr OMX_BUFFERHEADERTYPE
  | EventHandler OMX_EVENTTYPE OMX_U32 OMX_U32 ptr
  | VpuOpen ptr
  | VpuClose ptr
  | VpuFlush ptr
  | VpuClrDspFlag ptr int
  | VpuInit ptr "OMX_U8 list"
  | VpuDecode ptr "OMX_U8 list" bool
  | VencOpen ptr
  | VencClose ptr
  | VencEncode ptr
  | VencFreeMemory
  | AvFlush ptr
  | SwrAlloc
  | SwrFree

section \<open>Ports\<close>

datatype OMX_PORTDOMAINTYPE =
    OMX_PortDomainAudio | OMX_PortDomainVideo | OMX_PortDomainImage | OMX_PortDomainOther
  | OMX_PortDomainMax

datatype NX_BUFFER_HEADER_TYPE = NX_BUFHEADER_TYPE_ALLOCATED | NX_BUFHEADER_TYPE_USEBUFFER

record OMX_VIDEO_PORTDEFINITIONTYPE =
  pNativeRender :: ptr
  nFrameWidth :: OMX_U32
  nFrameHeight :: OMX_U32
  nStride :: OMX_S32
  xFramerate :: OMX_U32
  bFlagErrorConcealment :: bool
  eCompressionFormat :: OMX_U32
  eColorFormat :: OMX_U32
  pNativeWindow :: ptr

record OMX_IMAGE_PORTDEFINITIONTYPE =
  img_nFrameWidth :: OMX_U32
  img_nFrameHeight :: OMX_U32
  img_nStride :: OMX_S32
  img_bFlagErrorConcealment :: bool
  img_eCompressionFormat :: OMX_U32
  img_eColorFormat :: OMX_U32
  img_pNativeWindow :: ptr

record OMX_AUDIO_PORTDEFINITIONTYPE =
  aud_pNativeRender :: ptr
  aud_bFlagErrorConcealment :: bool
  aud_eEncoding :: OMX_U32

text \<open>
  \<open>format\<close> is a union in C whose member is selected by \<open>eDomain\<close>, which never changes after
  \<open>NX_InitOMXPort\<close>; the members are fields of their own here.
\<close>

record OMX_PARAM_PORTDEFINITIONTYPE =
  nVersion :: OMX_U32
  nPortIndex :: OMX_U32
  eDir :: OMX_DIRTYPE
  nBufferCountActual :: OMX_U32
  nBufferCountMin :: OMX_U32
  nBufferSize :: OMX_U32
  bPortEnabled :: bool
  bPopulated :: bool
  eDomain :: OMX_PORTDOMAINTYPE
  audio :: OMX_AUDIO_PORTDEFINITIONTYPE
  video :: OMX_VIDEO_PORTDEFINITIONTYPE
  image :: OMX_IMAGE_PORTDEFINITIONTYPE
  other :: OMX_U32

text \<open>\<open>stdPortDef\<close> is the first member, which is why the code casts between the two.\<close>

record NX_BASEPORTTYPE = OMX_PARAM_PORTDEFINITIONTYPE +
  nAllocatedBuf :: OMX_U32
  eBufferType :: NX_BUFFER_HEADER_TYPE

definition zero_video :: OMX_VIDEO_PORTDEFINITIONTYPE where
  "zero_video = \<lparr>pNativeRender = NULL, nFrameWidth = 0, nFrameHeight = 0, nStride = 0, xFramerate = 0,
     bFlagErrorConcealment = False, eCompressionFormat = 0, eColorFormat = 0, pNativeWindow = NULL\<rparr>"

definition zero_port :: NX_BASEPORTTYPE where
  "zero_port = \<lparr>nVersion = 0, nPortIndex = 0, eDir = OMX_DirInput, nBufferCountActual = 0,
     nBufferCountMin = 0, nBufferSize = 0, bPortEnabled = False, bPopulated = False,
     eDomain = OMX_PortDomainAudio,
     audio = \<lparr>aud_pNativeRender = NULL, aud_bFlagErrorConcealment = False, aud_eEncoding = 0\<rparr>,
     video = zero_video,
     image = \<lparr>img_nFrameWidth = 0, img_nFrameHeight = 0, img_nStride = 0,
       img_bFlagErrorConcealment = False, img_eCompressionFormat = 0, img_eColorFormat = 0,
       img_pNativeWindow = NULL\<rparr>,
     other = 0, nAllocatedBuf = 0, eBufferType = NX_BUFHEADER_TYPE_ALLOCATED\<rparr>"

text \<open>Version 1.0.0.0, the major number in the first byte.\<close>

definition NX_OMXSetVersion :: OMX_U32 where
  "NX_OMXSetVersion = 1"

definition NX_InitOMXPort ::
  "OMX_U32 \<Rightarrow> OMX_DIRTYPE \<Rightarrow> bool \<Rightarrow> OMX_PORTDOMAINTYPE \<Rightarrow>
   'a OMX_PARAM_PORTDEFINITIONTYPE_scheme \<Rightarrow> 'a OMX_PARAM_PORTDEFINITIONTYPE_scheme" where
  "NX_InitOMXPort i d en eDom p =
     p\<lparr>nVersion := 0, nPortIndex := i, eDir := d, bPortEnabled := en, eDomain := eDom, bPopulated := False\<rparr>"

definition NX_InitializeOutputBuffer :: "OMX_BUFFERHEADERTYPE \<Rightarrow> OMX_BUFFERHEADERTYPE" where
  "NX_InitializeOutputBuffer h = h\<lparr>nFilledLen := 0, hMarkTargetComponent := NULL, pMarkData := NULL,
     nTickCount := 0, nTimeStamp := 0, nFlags := 0\<rparr>"

definition NX_InitializeInputBuffer :: "OMX_BUFFERHEADERTYPE \<Rightarrow> OMX_BUFFERHEADERTYPE" where
  "NX_InitializeInputBuffer h = h"

section \<open>The base component\<close>

datatype NX_THREAD_CMD =
  NX_THREAD_CMD_INVALID | NX_THREAD_CMD_RUN | NX_THREAD_CMD_PAUSE | NX_THREAD_CMD_EXIT

record NX_CMD_MSG_TYPE =
  cmd_id :: OMX_U32
  eCmd :: OMX_COMMANDTYPE
  nParam1 :: OMX_U32
  pCmdData :: ptr

record OMX_CALLBACKTYPE =
  cbEventHandler :: ptr
  cbEmptyBufferDone :: ptr
  cbFillBufferDone :: ptr

record NX_BASE_COMPNENT =
  hdr_mem :: "ptr \<Rightarrow> OMX_BUFFERHEADERTYPE option"
  byte_mem :: "ptr \<Rightarrow> OMX_U8 list option"
  cmd_mem :: "ptr \<Rightarrow> NX_CMD_MSG_TYPE option"
  trace :: "omx_call list"
  comp_nVersion :: OMX_U32
  hComp :: ptr
  nNumPort :: nat
  compName :: string
  compRole :: string
  compUUID :: "OMX_U8 list"
  pPort :: "nat \<Rightarrow> NX_BASEPORTTYPE"
  pBufQueue :: "nat \<Rightarrow> NX_QUEUE"
  eCurState :: OMX_STATETYPE
  eNewState :: OMX_STATETYPE
  pCallbacks :: OMX_CALLBACKTYPE
  pCallbackData :: ptr
  eCmdThreadCmd :: NX_THREAD_CMD
  hSemCmd :: "NX_SEMAPHORE option"
  hSemCmdWait :: "NX_SEMAPHORE option"
  cmdQueue :: NX_QUEUE
  cmdId :: OMX_U32

text \<open>\<open>NX_PostSem\<close> on a handle: \<open>assert( NULL != hSem )\<close>. The code ignores the result.\<close>

definition post_handle :: "NX_SEMAPHORE option \<Rightarrow> NX_SEMAPHORE option option" where
  "post_handle h = (case h of None \<Rightarrow> None | Some m \<Rightarrow> Some (Some (snd (NX_PostSem m))))"

text \<open>The callbacks, called through function pointers that \<open>SetCallbacks\<close> installs.\<close>

definition emit :: "omx_call \<Rightarrow> 'a NX_BASE_COMPNENT_scheme \<Rightarrow> 'a NX_BASE_COMPNENT_scheme" where
  "emit e s = s\<lparr>trace := trace s @ [e]\<rparr>"

definition call_EmptyBufferDone :: "ptr \<Rightarrow> 'a NX_BASE_COMPNENT_scheme \<Rightarrow> 'a NX_BASE_COMPNENT_scheme option" where
  "call_EmptyBufferDone p s =
     (if cbEmptyBufferDone (pCallbacks s) = NULL then None
      else do { h \<leftarrow> hdr_mem s p; Some (emit (EmptyBufferDone p h) s) })"

definition call_FillBufferDone :: "ptr \<Rightarrow> 'a NX_BASE_COMPNENT_scheme \<Rightarrow> 'a NX_BASE_COMPNENT_scheme option" where
  "call_FillBufferDone p s =
     (if cbFillBufferDone (pCallbacks s) = NULL then None
      else do { h \<leftarrow> hdr_mem s p; Some (emit (FillBufferDone p h) s) })"

definition SendEvent :: "OMX_EVENTTYPE \<Rightarrow> OMX_U32 \<Rightarrow> OMX_U32 \<Rightarrow> ptr \<Rightarrow>
   'a NX_BASE_COMPNENT_scheme \<Rightarrow> 'a NX_BASE_COMPNENT_scheme option" where
  "SendEvent e p1 p2 d s =
     (if cbEventHandler (pCallbacks s) = NULL then None
      else Some (emit (EventHandler e p1 p2 d) s))"

text \<open>A write to a field of the header at \<open>p\<close>.\<close>

definition upd_hdr :: "ptr \<Rightarrow> (OMX_BUFFERHEADERTYPE \<Rightarrow> OMX_BUFFERHEADERTYPE) \<Rightarrow>
   'a NX_BASE_COMPNENT_scheme \<Rightarrow> 'a NX_BASE_COMPNENT_scheme option" where
  "upd_hdr p f s = do { h \<leftarrow> hdr_mem s p; Some (s\<lparr>hdr_mem := (hdr_mem s)(p := Some (f h))\<rparr>) }"

definition upd_port :: "nat \<Rightarrow> (NX_BASEPORTTYPE \<Rightarrow> NX_BASEPORTTYPE) \<Rightarrow>
   'a NX_BASE_COMPNENT_scheme \<Rightarrow> 'a NX_BASE_COMPNENT_scheme" where
  "upd_port i f s = s\<lparr>pPort := (pPort s)(i := f (pPort s i))\<rparr>"

section \<open>Default entry points\<close>

text \<open>\<open>alloc\<close>: whether the callback block is allocated.\<close>

definition NX_BaseComponentInit ::
  "bool \<Rightarrow> ptr \<Rightarrow> 'a NX_BASE_COMPNENT_scheme \<Rightarrow> OMX_ERRORTYPE \<times> 'a NX_BASE_COMPNENT_scheme" where
  "NX_BaseComponentInit alloc hComponent s =
     (let s = s\<lparr>hComp := hComponent, nNumPort := 0\<rparr> in
      if \<not> alloc then (OMX_ErrorInsufficientResources, s)
      else (OMX_ErrorNone,
        s\<lparr>pCallbacks := \<lparr>cbEventHandler = NULL, cbEmptyBufferDone = NULL, cbFillBufferDone = NULL\<rparr>,
          eCurState := OMX_StateLoaded, eNewState := OMX_StateLoaded\<rparr>))"

definition NX_BaseGetComponentVersion ::
  "'a NX_BASE_COMPNENT_scheme \<Rightarrow> OMX_ERRORTYPE \<times> string \<times> OMX_U32 \<times> OMX_U32 \<times> OMX_U8 list" where
  "NX_BaseGetComponentVersion s =
     (OMX_ErrorNone, compName s, comp_nVersion s, comp_nVersion s, take 128 (compUUID s))"

text \<open>\<open>p\<close> is the message block that \<open>NxMalloc\<close> returns; its result is used unchecked.\<close>

definition NX_BaseSendCommand ::
  "ptr \<Rightarrow> OMX_COMMANDTYPE \<Rightarrow> OMX_U32 \<Rightarrow> ptr \<Rightarrow> 'a NX_BASE_COMPNENT_scheme \<Rightarrow>
   (OMX_ERRORTYPE \<times> 'a NX_BASE_COMPNENT_scheme) option" where
  "NX_BaseSendCommand p Cmd par dat s =
     (if p = NULL then None
      else
        (let s = s\<lparr>cmd_mem := (cmd_mem s)(p := Some \<lparr>cmd_id = cmdId s, eCmd = Cmd, nParam1 = par, pCmdData = dat\<rparr>),
                   cmdId := cmdId s + 1\<rparr>;
             s = (if OMX_CommandStateSet = Cmd then s\<lparr>eNewState := to_state par\<rparr> else s);
             s = s\<lparr>cmdQueue := snd (NX_PushQueue (cmdQueue s) p)\<rparr>
         in do {
           h \<leftarrow> post_handle (hSemCmd s);
           Some (OMX_ErrorNone, s\<lparr>hSemCmd := h\<rparr>) }))"

text \<open>
  \<open>GetParameter\<close> and \<open>SetParameter\<close> on the port definition; the other indices of the base are
  \<open>OMX_ErrorUnsupportedIndex\<close>.
\<close>

definition NX_BaseGetParameter ::
  "OMX_PARAM_PORTDEFINITIONTYPE \<Rightarrow> 'a NX_BASE_COMPNENT_scheme \<Rightarrow> OMX_ERRORTYPE \<times> OMX_PARAM_PORTDEFINITIONTYPE" where
  "NX_BaseGetParameter d s =
     (if unat (nPortIndex d) \<ge> nNumPort s then (OMX_ErrorBadPortIndex, d)
      else (OMX_ErrorNone, OMX_PARAM_PORTDEFINITIONTYPE.truncate (pPort s (unat (nPortIndex d)))))"

definition set_video :: "OMX_VIDEO_PORTDEFINITIONTYPE \<Rightarrow> NX_BASEPORTTYPE \<Rightarrow> NX_BASEPORTTYPE" where
  "set_video v p = p\<lparr>video := (video p)\<lparr>pNativeRender := pNativeRender v, nFrameWidth := nFrameWidth v,
     nFrameHeight := nFrameHeight v, nStride := nStride v, xFramerate := xFramerate v,
     bFlagErrorConcealment := bFlagErrorConcealment v, eCompressionFormat := eCompressionFormat v,
     eColorFormat := eColorFormat v, pNativeWindow := pNativeWindow v\<rparr>\<rparr>"

definition set_image :: "OMX_IMAGE_PORTDEFINITIONTYPE \<Rightarrow> NX_BASEPORTTYPE \<Rightarrow> NX_BASEPORTTYPE" where
  "set_image v p = p\<lparr>image := (image p)\<lparr>img_nFrameWidth := img_nFrameWidth v,
     img_nFrameHeight := img_nFrameHeight v, img_nStride := img_nStride v,
     img_bFlagErrorConcealment := img_bFlagErrorConcealment v,
     img_eCompressionFormat := img_eCompressionFormat v, img_eColorFormat := img_eColorFormat v,
     img_pNativeWindow := img_pNativeWindow v\<rparr>\<rparr>"

definition NX_BaseSetParameter ::
  "OMX_PARAM_PORTDEFINITIONTYPE \<Rightarrow> 'a NX_BASE_COMPNENT_scheme \<Rightarrow> OMX_ERRORTYPE \<times> 'a NX_BASE_COMPNENT_scheme" where
  "NX_BaseSetParameter d s =
     (let i = unat (nPortIndex d) in
      if i \<ge> nNumPort s then (OMX_ErrorBadPortIndex, s)
      else
        (let s = upd_port i (nBufferCountActual_update (\<lambda>_. nBufferCountActual d)) s in
         case eDomain (pPort s i) of
           OMX_PortDomainAudio \<Rightarrow> (OMX_ErrorNone, upd_port i (\<lambda>p. p\<lparr>audio := audio p\<rparr>) s)
         | OMX_PortDomainVideo \<Rightarrow> (OMX_ErrorNone, upd_port i (set_video (video d)) s)
         | OMX_PortDomainImage \<Rightarrow> (OMX_ErrorNone, upd_port i (set_image (image d)) s)
         | OMX_PortDomainOther \<Rightarrow> (OMX_ErrorNone, upd_port i (\<lambda>p. p\<lparr>other := other d\<rparr>) s)
         | _ \<Rightarrow> (OMX_ErrorBadParameter, s)))"

definition NX_BaseGetConfig :: "'c \<Rightarrow> 'a NX_BASE_COMPNENT_scheme \<Rightarrow> OMX_ERRORTYPE \<times> 'c" where
  "NX_BaseGetConfig c s = (OMX_ErrorNone, c)"

definition NX_BaseSetConfig :: "'c \<Rightarrow> 'a NX_BASE_COMPNENT_scheme \<Rightarrow> OMX_ERRORTYPE \<times> 'a NX_BASE_COMPNENT_scheme" where
  "NX_BaseSetConfig c s = (OMX_ErrorNone, s)"

datatype omx_extension =
    OMX_IndexAndroidNativeBufferUsage
  | OMX_IndexEnableAndroidNativeBuffers
  | OMX_IndexUseAndroidNativeBuffer2
  | OMX_IndexStoreMetaDataInBuffers
  | OMX_IndexVideoDecoderThumbnailMode
  | OMX_IndexVideoDecoderExtradata
  | OMX_IndexVideoDecoderCodecTag
  | OMX_IndexAudioDecoderFFMpegExtradata

definition NX_BaseGetExtensionIndex :: "string \<Rightarrow> OMX_ERRORTYPE \<times> omx_extension option" where
  "NX_BaseGetExtensionIndex n =
     (if n = ''OMX.google.android.index.getAndroidNativeBufferUsage''
        then (OMX_ErrorNone, Some OMX_IndexAndroidNativeBufferUsage)
      else if n = ''OMX.google.android.index.enableAndroidNativeBuffers''
        then (OMX_ErrorNone, Some OMX_IndexEnableAndroidNativeBuffers)
      else if n = ''OMX.google.android.index.useAndroidNativeBuffer2''
        then (OMX_ErrorNone, Some OMX_IndexUseAndroidNativeBuffer2)
      else if n = ''OMX.google.android.index.storeMetaDataInBuffers''
        then (OMX_ErrorNone, Some OMX_IndexStoreMetaDataInBuffers)
      else if n = ''OMX.NX.VIDEO_DECODER.ThumbnailMode''
        then (OMX_ErrorNone, Some OMX_IndexVideoDecoderThumbnailMode)
      else if n = ''OMX.NX.VIDEO_DECODER.Extradata''
        then (OMX_ErrorNone, Some OMX_IndexVideoDecoderExtradata)
      else if n = ''OMX.NX.VIDEO_DECODER.CodecTag''
        then (OMX_ErrorNone, Some OMX_IndexVideoDecoderCodecTag)
      else if n = ''OMX.NX.AUDIO_DECODER.FFMPEG.Extradata''
        then (OMX_ErrorNone, Some OMX_IndexAudioDecoderFFMpegExtradata)
      else (OMX_ErrorNotImplemented, None))"

definition NX_BaseGetState :: "'a NX_BASE_COMPNENT_scheme \<Rightarrow> OMX_ERRORTYPE \<times> OMX_STATETYPE" where
  "NX_BaseGetState s = (OMX_ErrorNone, eCurState s)"

definition NX_BaseComponentTunnelRequest :: "OMX_U32 \<Rightarrow> ptr \<Rightarrow> OMX_U32 \<Rightarrow> OMX_ERRORTYPE" where
  "NX_BaseComponentTunnelRequest nPort hTunneledComp nTunneledPort = OMX_ErrorNone"

definition NX_BaseSetCallbacks ::
  "OMX_CALLBACKTYPE \<Rightarrow> ptr \<Rightarrow> 'a NX_BASE_COMPNENT_scheme \<Rightarrow> OMX_ERRORTYPE \<times> 'a NX_BASE_COMPNENT_scheme" where
  "NX_BaseSetCallbacks cb dat s = (OMX_ErrorNone, s\<lparr>pCallbacks := cb, pCallbackData := dat\<rparr>)"

definition NX_BaseComponentDeInit :: "ptr \<Rightarrow> OMX_ERRORTYPE" where
  "NX_BaseComponentDeInit hComponent = OMX_ErrorNone"

definition NX_BaseUseEGLImage :: "ptr \<Rightarrow> OMX_U32 \<Rightarrow> ptr \<Rightarrow> ptr \<Rightarrow> OMX_ERRORTYPE" where
  "NX_BaseUseEGLImage pp port app egl = OMX_ErrorNone"

definition NX_BaseComponentRoleEnum :: "ptr \<Rightarrow> OMX_U32 \<Rightarrow> OMX_ERRORTYPE" where
  "NX_BaseComponentRoleEnum cRole i = OMX_ErrorNone"

end
