(* ===== verification/OmxIo.thy ===== *)
theory OmxIo
  imports OmxBase
begin

text \<open>
  What the components share beyond the base: memory blocks, arrays and search loops, the blocking calls of
  semaphores as steps, the state test of the buffer calls, and the callbacks that a trace records.
\<close>

section \<open>Memory\<close>

definition rd :: "OMX_U8 list \<Rightarrow> nat \<Rightarrow> nat \<Rightarrow> OMX_U8 list option" where
  "rd src off n = (if off + n \<le> length src then Some (take n (drop off src)) else None)"

definition wr :: "OMX_U8 list \<Rightarrow> nat \<Rightarrow> OMX_U8 list \<Rightarrow> OMX_U8 list option" where
  "wr dst off bs =
     (if off + length bs \<le> length dst then Some (take off dst @ bs @ drop (off + length bs) dst) else None)"

text \<open>\<open>memcpy\<close> of \<open>n\<close> bytes from a block that may be absent; a negative count is a huge \<open>size_t\<close>.\<close>

definition rd_block :: "OMX_U8 list option \<Rightarrow> int \<Rightarrow> OMX_U8 list option" where
  "rd_block b n =
     (if n < 0 then None else if n = 0 then Some []
      else case b of None \<Rightarrow> None | Some bs \<Rightarrow> rd bs 0 (nat n))"

text \<open>A word that lies in a block of bytes.\<close>

definition get_le32 :: "OMX_U8 list \<Rightarrow> nat \<Rightarrow> OMX_U32 option" where
  "get_le32 p off =
     (if off + 4 \<le> length p then
        Some (push_bit 24 (ucast (p ! (off + 3))) OR push_bit 16 (ucast (p ! (off + 2))) OR
              push_bit 8 (ucast (p ! (off + 1))) OR ucast (p ! off))
      else None)"

text \<open>An element of one of the arrays of \<open>NX_OMX_MAX_BUF\<close> entries: outside is undefined.\<close>

definition arr :: "'a list \<Rightarrow> nat \<Rightarrow> 'a option" where
  "arr xs i = (if i < length xs then Some (xs ! i) else None)"

lemma arr_Some [simp]: "arr xs i = Some x \<longleftrightarrow> i < length xs \<and> xs ! i = x"
  by (auto simp: arr_def)

text \<open>
  The search loops \<open>for( i=0 ; i<nBufferCountActual ; i++ )\<close>: the first index below the bound with
  the property, \<open>Some None\<close> when the loop runs out, \<open>None\<close> when it leaves the array.
\<close>

fun find_slot :: "(ptr \<Rightarrow> bool) \<Rightarrow> ptr list \<Rightarrow> nat \<Rightarrow> nat option option" where
  "find_slot P xs 0 = Some None"
| "find_slot P [] (Suc n) = None"
| "find_slot P (x # xs) (Suc n) =
     (if P x then Some (Some 0) else map_option (map_option Suc) (find_slot P xs n))"

lemma find_slot_some:
  "find_slot P xs n = Some (Some i) \<Longrightarrow> i < n \<and> i < length xs \<and> P (xs ! i)"
  by (induction P xs n arbitrary: i rule: find_slot.induct) (auto split: if_splits)

lemma find_slot_prefix:
  "\<forall>x\<in>set xs. \<not> P x \<Longrightarrow> length xs < n \<Longrightarrow> P y \<Longrightarrow> find_slot P (xs @ y # ys) n = Some (Some (length xs))"
proof (induction xs arbitrary: n)
  case Nil
  then show ?case by (cases n) auto
next
  case (Cons x xs)
  then show ?case by (cases n) auto
qed

lemma find_slot_none:
  "n \<le> length xs \<Longrightarrow> \<forall>x\<in>set (take n xs). \<not> P x \<Longrightarrow> find_slot P xs n = Some None"
proof (induction P xs n rule: find_slot.induct)
  case (3 P x xs n)
  then show ?case by auto
qed auto

lemma find_slot_nth:
  "i < n \<Longrightarrow> n \<le> length xs \<Longrightarrow> P (xs ! i) \<Longrightarrow> \<exists>j\<le>i. find_slot P xs n = Some (Some j) \<and> P (xs ! j)"
proof (induction P xs n arbitrary: i rule: find_slot.induct)
  case (3 P x xs n)
  show ?case
  proof (cases "P x")
    case True
    then show ?thesis by (intro exI[of _ 0]) simp
  next
    case False
    with 3 obtain k where "i = Suc k" by (cases i) auto
    with 3 False obtain j where "j \<le> k" "find_slot P xs n = Some (Some j)" "P (xs ! j)" by auto
    with False \<open>i = Suc k\<close> show ?thesis by (intro exI[of _ "Suc j"]) simp
  qed
qed auto

lemma find_slot_absent: "b \<notin> set xs \<Longrightarrow> n \<le> length xs \<Longrightarrow> find_slot (\<lambda>q. b = q) xs n = Some None"
  by (rule find_slot_none) (auto dest: in_set_takeD)

text \<open>The macros of \<open>nexell_format.h\<close> and \<open>nx_fourcc.h\<close>.\<close>

definition ALIGN :: "OMX_S32 \<Rightarrow> OMX_S32 \<Rightarrow> OMX_S32" where
  "ALIGN x a = (x + a - 1) AND NOT (a - 1)"

definition MAKEFOURCC :: "char \<Rightarrow> char \<Rightarrow> char \<Rightarrow> char \<Rightarrow> OMX_U32" where
  "MAKEFOURCC a b c d = of_char a OR push_bit 8 (of_char b) OR push_bit 16 (of_char c) OR push_bit 24 (of_char d)"

definition FOURCC_YV12 :: OMX_U32 where
  "FOURCC_YV12 = MAKEFOURCC (CHR ''Y'') (CHR ''V'') (CHR ''1'') (CHR ''2'')"

definition FOURCC_NV12 :: OMX_U32 where
  "FOURCC_NV12 = MAKEFOURCC (CHR ''N'') (CHR ''V'') (CHR ''1'') (CHR ''2'')"

definition FOURCC_MVS0 :: OMX_U32 where
  "FOURCC_MVS0 = MAKEFOURCC (CHR ''M'') (CHR ''V'') (CHR ''S'') (CHR ''0'')"

section \<open>Video types\<close>

record NX_VID_MEMORY_INFO =
  memoryMap :: int
  fourCC :: OMX_U32
  imgWidth :: OMX_S32
  imgHeight :: OMX_S32
  luPhyAddr :: OMX_U32
  cbPhyAddr :: OMX_U32
  crPhyAddr :: OMX_U32
  luStride :: OMX_U32
  cbStride :: OMX_U32
  crStride :: OMX_U32

record OMX_VIDEO_PARAM_PORTFORMATTYPE =
  fmt_nPortIndex :: OMX_U32
  fmt_nIndex :: OMX_U32
  fmt_eCompressionFormat :: OMX_U32
  fmt_eColorFormat :: OMX_U32
  fmt_xFramerate :: OMX_U32

definition zero_format :: OMX_VIDEO_PARAM_PORTFORMATTYPE where
  "zero_format = \<lparr>fmt_nPortIndex = 0, fmt_nIndex = 0, fmt_eCompressionFormat = 0, fmt_eColorFormat = 0,
     fmt_xFramerate = 0\<rparr>"

definition zero_mem_info :: NX_VID_MEMORY_INFO where
  "zero_mem_info = \<lparr>memoryMap = 0, fourCC = 0, imgWidth = 0, imgHeight = 0, luPhyAddr = 0, cbPhyAddr = 0,
     crPhyAddr = 0, luStride = 0, cbStride = 0, crStride = 0\<rparr>"

record OMX_VIDEO_PARAM_PROFILELEVELTYPE =
  pl_nPortIndex :: OMX_U32
  nProfileIndex :: OMX_U32
  pl_eProfile :: OMX_U32
  pl_eLevel :: OMX_U32

abbreviation (input) OMX_COLOR_FormatUnused :: OMX_U32 where "OMX_COLOR_FormatUnused \<equiv> 0"
abbreviation (input) OMX_COLOR_FormatYUV420Planar :: OMX_U32 where "OMX_COLOR_FormatYUV420Planar \<equiv> 19"
abbreviation (input) OMX_VIDEO_CodingUnused :: OMX_U32 where "OMX_VIDEO_CodingUnused \<equiv> 0"
abbreviation (input) OMX_VIDEO_CodingMPEG2 :: OMX_U32 where "OMX_VIDEO_CodingMPEG2 \<equiv> 2"
abbreviation (input) OMX_VIDEO_CodingH263 :: OMX_U32 where "OMX_VIDEO_CodingH263 \<equiv> 3"
abbreviation (input) OMX_VIDEO_CodingMPEG4 :: OMX_U32 where "OMX_VIDEO_CodingMPEG4 \<equiv> 4"
abbreviation (input) OMX_VIDEO_CodingWMV :: OMX_U32 where "OMX_VIDEO_CodingWMV \<equiv> 5"
abbreviation (input) OMX_VIDEO_CodingRV :: OMX_U32 where "OMX_VIDEO_CodingRV \<equiv> 6"
abbreviation (input) OMX_VIDEO_CodingAVC :: OMX_U32 where "OMX_VIDEO_CodingAVC \<equiv> 7"
abbreviation (input) OMX_VIDEO_CodingVP8 :: OMX_U32 where "OMX_VIDEO_CodingVP8 \<equiv> 9"

section \<open>Ports and buffers\<close>

text \<open>Port 0 is the input port, every other admitted index the output port.\<close>

definition port_of :: "OMX_U32 \<Rightarrow> nat" where
  "port_of n = (if n = 0 then 0 else 1)"

text \<open>The header that both calls fill in.\<close>

definition new_hdr :: "nat \<Rightarrow> ptr \<Rightarrow> OMX_U32 \<Rightarrow> ptr \<Rightarrow> 'a NX_BASE_COMPNENT_scheme \<Rightarrow> OMX_BUFFERHEADERTYPE" where
  "new_hdr k buf sz app s =
     (let h = zero_hdr\<lparr>hdr_nSize := sizeof_hdr, hdr_nVersion := NX_OMXSetVersion, pBuffer := buf,
                nAllocLen := sz, pAppPrivate := app, pPlatformPrivate := hComp s\<rparr>
      in if eDir (pPort s k) = OMX_DirInput then h\<lparr>nInputPortIndex := nPortIndex (pPort s k)\<rparr>
         else h\<lparr>nOutputPortIndex := nPortIndex (pPort s k)\<rparr>)"

text \<open>The state test of both calls.\<close>

definition accepts_buffers :: "'a NX_BASE_COMPNENT_scheme \<Rightarrow> bool" where
  "accepts_buffers s \<longleftrightarrow>
     (if eCurState s = eNewState s
      then OMX_StateIdle = eCurState s \<or> OMX_StatePause = eCurState s \<or> OMX_StateExecuting = eCurState s
      else \<not> (OMX_StateIdle = eNewState s \<and> (OMX_StateExecuting = eCurState s \<or> OMX_StatePause = eCurState s)))"

section \<open>Semaphores and events\<close>

text \<open>
  \<open>NX_PendSem\<close> on a handle as one step, which is possible when the value is not 0. Each of the semaphores of
  the component has one pending thread, for which \<open>OmxSem\<close> shows that a woken thread finds a token.
\<close>

definition pend_handle :: "NX_SEMAPHORE option \<Rightarrow> NX_SEMAPHORE option option" where
  "pend_handle h = (case h of None \<Rightarrow> None | Some m \<Rightarrow> map_option Some (NX_PendSem_enter m))"

definition create_sem :: "OMX_U32 \<Rightarrow> OMX_U32 \<Rightarrow> NX_SEMAPHORE option" where
  "create_sem v mx = NX_CreateSem True 0 0 v mx"

definition send_complete :: "OMX_COMMANDTYPE \<Rightarrow> OMX_U32 \<Rightarrow> ptr \<Rightarrow> 'a NX_BASE_COMPNENT_scheme \<Rightarrow> 'a NX_BASE_COMPNENT_scheme option" where
  "send_complete c n dat s = SendEvent OMX_EventCmdComplete (omx_command_code c) n dat s"

section \<open>Components with two ports and a buffer thread\<close>

text \<open>
  The members that the decoder and encoder components have in common: the command to the buffer thread, the
  semaphores, and the arrays of registered buffers.
\<close>

record NX_IO_COMP = NX_BASE_COMPNENT +
  eCmdBufThread :: NX_THREAD_CMD
  hBufAllocSem :: "NX_SEMAPHORE option"
  hBufCtrlSem :: "NX_SEMAPHORE option"
  hBufChangeSem :: "NX_SEMAPHORE option"
  pInputBuffers :: "ptr list"
  pOutputBuffers :: "ptr list"

text \<open>
  \<open>pInputPort\<close> and \<open>pOutputPort\<close> are \<open>pPort[0]\<close> and \<open>pPort[1]\<close>; the queues likewise.
\<close>

abbreviation (input) pInputPort :: "'a NX_BASE_COMPNENT_scheme \<Rightarrow> NX_BASEPORTTYPE" where "pInputPort s \<equiv> pPort s 0"
abbreviation (input) pOutputPort :: "'a NX_BASE_COMPNENT_scheme \<Rightarrow> NX_BASEPORTTYPE" where "pOutputPort s \<equiv> pPort s 1"
abbreviation (input) pInputPortQueue :: "'a NX_BASE_COMPNENT_scheme \<Rightarrow> NX_QUEUE" where "pInputPortQueue s \<equiv> pBufQueue s 0"
abbreviation (input) pOutputPortQueue :: "'a NX_BASE_COMPNENT_scheme \<Rightarrow> NX_QUEUE" where "pOutputPortQueue s \<equiv> pBufQueue s 1"

text \<open>\<open>port_bufs\<close> is the array that \<open>pPortBuf\<close> points to.\<close>

definition port_bufs :: "nat \<Rightarrow> 'a NX_IO_COMP_scheme \<Rightarrow> ptr list" where
  "port_bufs k s = (if k = 0 then pInputBuffers s else pOutputBuffers s)"

definition set_port_buf :: "nat \<Rightarrow> nat \<Rightarrow> ptr \<Rightarrow> 'a NX_IO_COMP_scheme \<Rightarrow> 'a NX_IO_COMP_scheme" where
  "set_port_buf k i p s =
     (if k = 0 then s\<lparr>pInputBuffers := (pInputBuffers s)[i := p]\<rparr>
      else s\<lparr>pOutputBuffers := (pOutputBuffers s)[i := p]\<rparr>)"

text \<open>The end of both calls: one more buffer, and the port is populated when it was the last one.\<close>

definition buffer_added :: "NX_BUFFER_HEADER_TYPE \<Rightarrow> nat \<Rightarrow> 'a NX_IO_COMP_scheme \<Rightarrow> 'a NX_IO_COMP_scheme option" where
  "buffer_added ty k s =
     (let s = upd_port k (\<lambda>p. p\<lparr>nAllocatedBuf := nAllocatedBuf p + 1\<rparr>) s in
      if nAllocatedBuf (pPort s k) = nBufferCountActual (pPort s k) then do {
        let s = upd_port k (\<lambda>p. p\<lparr>bPopulated := True, eBufferType := ty\<rparr>) s;
        h \<leftarrow> post_handle (hBufAllocSem s);
        Some (s\<lparr>hBufAllocSem := h\<rparr>) }
      else Some s)"

text \<open>The branch of \<open>FreeBuffer\<close> for the matching slot.\<close>

definition release_buffer :: "ptr \<Rightarrow> nat \<Rightarrow> nat \<Rightarrow> 'a NX_IO_COMP_scheme \<Rightarrow> 'a NX_IO_COMP_scheme option" where
  "release_buffer b k i s = do {
     h \<leftarrow> hdr_mem s b;
     s \<leftarrow> (if eBufferType (pPort s k) = NX_BUFHEADER_TYPE_ALLOCATED \<and> pBuffer h \<noteq> NULL then
            do { _ \<leftarrow> byte_mem s (pBuffer h); Some (s\<lparr>byte_mem := (byte_mem s)(pBuffer h := None)\<rparr>) }
          else Some s);
     let s = set_port_buf k i NULL (s\<lparr>hdr_mem := (hdr_mem s)(b := None)\<rparr>);
     let s = upd_port k (\<lambda>q. q\<lparr>nAllocatedBuf := nAllocatedBuf q - 1\<rparr>) s;
     if nAllocatedBuf (pPort s k) = 0 then do {
       let s = upd_port k (\<lambda>q. q\<lparr>bPopulated := False\<rparr>) s;
       m \<leftarrow> post_handle (hBufAllocSem s);
       Some (s\<lparr>hBufAllocSem := m\<rparr>) }
     else Some s }"

text \<open>The ports that a transition waits for.\<close>

definition pend_alloc :: "nat \<Rightarrow> 'a NX_IO_COMP_scheme \<Rightarrow> 'a NX_IO_COMP_scheme option" where
  "pend_alloc i s =
     (if bPortEnabled (pPort s i) then do { m \<leftarrow> pend_handle (hBufAllocSem s); Some (s\<lparr>hBufAllocSem := m\<rparr>) } else Some s)"

lemma set_port_buf_frame [simp]:
  "hdr_mem (set_port_buf k i p s) = hdr_mem s" "byte_mem (set_port_buf k i p s) = byte_mem s"
  "pPort (set_port_buf k i p s) = pPort s" "eNewState (set_port_buf k i p s) = eNewState s"
  "nNumPort (set_port_buf k i p s) = nNumPort s"
  "hBufAllocSem (set_port_buf k i p s) = hBufAllocSem s" "pCallbacks (set_port_buf k i p s) = pCallbacks s"
  "port_bufs k (set_port_buf k i p s) = (port_bufs k s)[i := p]"
  by (simp_all add: set_port_buf_def port_bufs_def)

lemma port_bufs_frame [simp]:
  "port_bufs k (s\<lparr>hdr_mem := x1\<rparr>) = port_bufs k s"
  "port_bufs k (s\<lparr>hBufAllocSem := x3\<rparr>) = port_bufs k s" "port_bufs k (upd_port j f s) = port_bufs k s"
  "port_bufs k (s\<lparr>byte_mem := x4\<rparr>) = port_bufs k s" "port_bufs k (emit e s) = port_bufs k s"
  by (simp_all add: port_bufs_def upd_port_def emit_def)

text \<open>A port as \<open>ComponentInit\<close> configures it: the version is set and then cleared again.\<close>

definition init_port :: "nat \<Rightarrow> OMX_DIRTYPE \<Rightarrow> OMX_U32 \<Rightarrow> OMX_U32 \<Rightarrow> NX_BASEPORTTYPE" where
  "init_port i dir cnt sz =
     (NX_InitOMXPort (word_of_nat i) dir True OMX_PortDomainVideo (zero_port\<lparr>nVersion := NX_OMXSetVersion\<rparr>))
       \<lparr>nBufferCountActual := cnt, nBufferCountMin := cnt, nBufferSize := sz\<rparr>"

text \<open>\<open>NxFree\<close> of a command message.\<close>

definition free_cmd :: "ptr \<Rightarrow> 'a NX_BASE_COMPNENT_scheme \<Rightarrow> 'a NX_BASE_COMPNENT_scheme" where
  "free_cmd p s = s\<lparr>cmd_mem := (cmd_mem s)(p := None)\<rparr>"

section \<open>Queues of buffers\<close>

text \<open>The ring buffers of a port, in use: \<open>NX_OMX_MAX_BUF\<close> buffers at most.\<close>

abbreviation (input) NX_OMX_MAX_BUF :: nat where "NX_OMX_MAX_BUF \<equiv> 128"

definition buf_queue :: "NX_QUEUE \<Rightarrow> bool" where
  "buf_queue q \<longleftrightarrow> queue_inv q \<and> bEnabled q \<and> maxElement q = NX_OMX_MAX_BUF"

abbreviation in_list :: "'a NX_BASE_COMPNENT_scheme \<Rightarrow> ptr list" where "in_list s \<equiv> queue_list (pBufQueue s 0)"
abbreviation out_list :: "'a NX_BASE_COMPNENT_scheme \<Rightarrow> ptr list" where "out_list s \<equiv> queue_list (pBufQueue s (Suc 0))"

lemma buf_queue_push: "buf_queue q \<Longrightarrow> buf_queue (snd (NX_PushQueue q b))"
  by (simp add: buf_queue_def push_inv nxq.ready_push nxq.cap_push)

lemma buf_queue_pop: "buf_queue q \<Longrightarrow> buf_queue (snd (snd (NX_PopQueue q)))"
  by (simp add: buf_queue_def pop_inv nxq.ready_pop nxq.cap_pop)

lemma buf_queue_popped: "NX_PopQueue q = (rc, e, q') \<Longrightarrow> buf_queue q \<Longrightarrow> buf_queue q'"
  using buf_queue_pop[of q] by simp

text \<open>Taking a buffer out of a queue.\<close>

lemma buf_pop_cases:
  assumes "NX_PopQueue q = (rc, e, q')" and "buf_queue q"
  obtains "queue_list q = []" "e = None" "q' = q" | x where "queue_list q = x # queue_list q'" "e = Some x"
proof (cases "queue_list q")
  case Nil
  then show ?thesis using assms nxq.pop_fail[of q] that(1) by (auto simp: buf_queue_def)
next
  case (Cons x xs)
  then show ?thesis using assms nxq.pop_ok[of q x xs] that(2) by (auto simp: buf_queue_def)
qed

lemma new_queue:
  "buf_queue (snd (NX_InitQueue 0 NX_OMX_MAX_BUF))" "queue_list (snd (NX_InitQueue 0 NX_OMX_MAX_BUF)) = []"
  "queue_inv (snd (NX_InitQueue 0 NX_MAX_QUEUE_ELEMENT))" "bEnabled (snd (NX_InitQueue 0 NX_MAX_QUEUE_ELEMENT))"
proof -
  have i: "queue_inv (snd (NX_InitQueue 0 NX_OMX_MAX_BUF))" "queue_inv (snd (NX_InitQueue 0 NX_MAX_QUEUE_ELEMENT))"
    "queue_list (snd (NX_InitQueue 0 NX_OMX_MAX_BUF)) = []"
    by (simp_all only: init_queue_inv init_queue_list)
  from i(1) show "buf_queue (snd (NX_InitQueue 0 NX_OMX_MAX_BUF))" by (simp add: buf_queue_def NX_InitQueue_def)
  show "queue_list (snd (NX_InitQueue 0 NX_OMX_MAX_BUF)) = []" "queue_inv (snd (NX_InitQueue 0 NX_MAX_QUEUE_ELEMENT))"
    by (fact i)+
  show "bEnabled (snd (NX_InitQueue 0 NX_MAX_QUEUE_ELEMENT))" by (simp add: NX_InitQueue_def)
qed

text \<open>A queue that holds one buffer.\<close>

definition one_queue :: "ptr \<Rightarrow> NX_QUEUE" where
  "one_queue p = snd (NX_PushQueue (snd (NX_InitQueue 0 NX_OMX_MAX_BUF)) p)"

lemma one_queue: "buf_queue (one_queue p)" "queue_list (one_queue p) = [p]"
  "\<exists>q. NX_PopQueue (one_queue p) = (0, Some p, q) \<and> queue_list q = []"
proof -
  have i: "queue_inv (snd (NX_InitQueue 0 NX_OMX_MAX_BUF))" "queue_list (snd (NX_InitQueue 0 NX_OMX_MAX_BUF)) = []"
    "bEnabled (snd (NX_InitQueue 0 NX_OMX_MAX_BUF))" "maxElement (snd (NX_InitQueue 0 NX_OMX_MAX_BUF)) = NX_OMX_MAX_BUF"
    by (simp_all only: init_queue_inv init_queue_list) (simp_all add: NX_InitQueue_def)
  then have "buf_queue (snd (NX_InitQueue 0 NX_OMX_MAX_BUF))" by (simp add: buf_queue_def)
  then show e: "buf_queue (one_queue p)" unfolding one_queue_def by (rule buf_queue_push)
  show l: "queue_list (one_queue p) = [p]"
    using nxq.push_ok[OF i(1,3), of p] i(2,4) by (simp add: one_queue_def)
  show "\<exists>q. NX_PopQueue (one_queue p) = (0, Some p, q) \<and> queue_list q = []"
    using nxq.pop_ok[of "one_queue p" p "[]"] e l by (cases "NX_PopQueue (one_queue p)") (auto simp: buf_queue_def)
qed

definition port_dir :: "nat \<Rightarrow> OMX_DIRTYPE" where
  "port_dir k = (if k = 0 then OMX_DirInput else OMX_DirOutput)"

section \<open>The control semaphore\<close>

text \<open>\<open>NX_PendSem( hBufCtrlSem )\<close> up to the wait, which leads to \<open>wait\<close>, and behind it.\<close>

definition ctrl_enter :: "'pc \<Rightarrow> 'pc \<Rightarrow> 'a NX_IO_COMP_scheme \<Rightarrow> ('pc \<times> 'a NX_IO_COMP_scheme) option" where
  "ctrl_enter wait go s = do {
     m \<leftarrow> hBufCtrlSem s;
     Some (case NX_PendSem_enter m of None \<Rightarrow> (wait, s) | Some m \<Rightarrow> (go, s\<lparr>hBufCtrlSem := Some m\<rparr>)) }"

definition ctrl_resume :: "'pc \<Rightarrow> 'a NX_IO_COMP_scheme \<Rightarrow> ('pc \<times> 'a NX_IO_COMP_scheme) option" where
  "ctrl_resume go s = do {
     m \<leftarrow> hBufCtrlSem s;
     Some (go, s\<lparr>hBufCtrlSem := Some (snd (NX_PendSem_resume 0 m))\<rparr>) }"

text \<open>
  What a step of a thread does beyond the component: it posts \<open>hBufCtrlSem\<close>, or creates the buffer thread. How a
  command goes on: it has returned; a state transition has begun; or it stands before the pend of
  \<open>hBufCtrlSem\<close> in the branch of a port command. What the command thread waits for at that semaphore: the
  start of the buffer thread, in the transition from Loaded to Idle, or its turn in a port command.
\<close>

datatype thread_effect = Quiet | PostsCtrl | CreatesThread

datatype 't cmd_next = Returned | InTransition 't | AtCtrl

datatype ctrl_reason = ForThread | ForCommand

section \<open>Callbacks in a trace\<close>

fun ebd_ptrs :: "omx_call list \<Rightarrow> ptr list" where
  "ebd_ptrs [] = []"
| "ebd_ptrs (EmptyBufferDone p h # es) = p # ebd_ptrs es"
| "ebd_ptrs (_ # es) = ebd_ptrs es"

fun fbd_ptrs :: "omx_call list \<Rightarrow> ptr list" where
  "fbd_ptrs [] = []"
| "fbd_ptrs (FillBufferDone p h # es) = p # fbd_ptrs es"
| "fbd_ptrs (_ # es) = fbd_ptrs es"

lemma ebd_ptrs_append [simp]: "ebd_ptrs (xs @ ys) = ebd_ptrs xs @ ebd_ptrs ys"
  by (induction xs rule: ebd_ptrs.induct) auto

lemma fbd_ptrs_append [simp]: "fbd_ptrs (xs @ ys) = fbd_ptrs xs @ fbd_ptrs ys"
  by (induction xs rule: fbd_ptrs.induct) auto

lemma ebd_ptrs_none: "\<forall>e\<in>set evs. \<exists>b h. e = FillBufferDone b h \<Longrightarrow> ebd_ptrs evs = []"
  by (induction evs) auto

lemma fbd_ptrs_none: "\<forall>e\<in>set evs. \<exists>b h. e = EmptyBufferDone b h \<and> P b h \<Longrightarrow> fbd_ptrs evs = []"
  by (induction evs) auto

end
