(* ===== verification/VidDecTime.thy ===== *)
theory VidDecTime
  imports OmxIo
begin

text \<open>
  The timestamp pool of the video decoder (\<open>InitVideoTimeStamp\<close>, \<open>PushVideoTimeStamp\<close> and
  \<open>PopVideoTimeStamp\<close> of \<open>NX_OMXVideoDecoder.c\<close>): pictures leave the decoder in display order while
  their timestamps enter in decoding order, so the smallest pending timestamp goes with the next
  picture. The interface is the locale \<open>time_pool\<close>, a bounded multiset with a minimum.
\<close>

section \<open>The pool\<close>

abbreviation (input) NX_OMX_MAX_BUF :: nat where "NX_OMX_MAX_BUF \<equiv> 32"

record OutBufferTimeInfo =
  timestamp :: OMX_TICKS
  flag :: OMX_U32

text \<open>\<open>(OMX_U32)-1\<close> marks a free entry.\<close>

definition ts_used :: "OutBufferTimeInfo \<Rightarrow> bool" where
  "ts_used x \<longleftrightarrow> flag x \<noteq> 0xFFFFFFFF"

definition init_ts :: "OutBufferTimeInfo list \<Rightarrow> OutBufferTimeInfo list" where
  "init_ts xs = map (\<lambda>x. x\<lparr>flag := 0xFFFFFFFF\<rparr>) xs"

fun push_ts :: "OMX_TICKS \<Rightarrow> OMX_U32 \<Rightarrow> OutBufferTimeInfo list \<Rightarrow> OutBufferTimeInfo list" where
  "push_ts t f [] = []"
| "push_ts t f (x # xs) =
     (if flag x = 0xFFFFFFFF then x\<lparr>timestamp := t, flag := f\<rparr> # xs else x # push_ts t f xs)"

text \<open>The search loop, from index \<open>i\<close> on, with the current \<open>minTime\<close> and \<open>minIdx\<close> (\<open>None\<close> for -1).\<close>

fun min_ts :: "nat \<Rightarrow> OMX_TICKS \<Rightarrow> nat option \<Rightarrow> OutBufferTimeInfo list \<Rightarrow> nat option" where
  "min_ts i minTime minIdx [] = minIdx"
| "min_ts i minTime minIdx (x # xs) =
     (if flag x \<noteq> 0xFFFFFFFF \<and> sint minTime > sint (timestamp x)
      then min_ts (Suc i) (timestamp x) (Some i) xs
      else min_ts (Suc i) minTime minIdx xs)"

definition pop_ts :: "OutBufferTimeInfo list \<Rightarrow> (OMX_TICKS \<times> OMX_U32) option \<times> OutBufferTimeInfo list" where
  "pop_ts xs =
     (case min_ts 0 0x7FFFFFFFFFFFFFFF None xs of
        Some i \<Rightarrow> (Some (timestamp (xs ! i), flag (xs ! i)), xs[i := (xs ! i)\<lparr>flag := 0xFFFFFFFF\<rparr>])
      | None \<Rightarrow> (None, xs))"

section \<open>The pool as a bounded multiset\<close>

type_synonym stamp = "int \<times> OMX_U32"

definition ts_view :: "OutBufferTimeInfo list \<Rightarrow> stamp multiset" where
  "ts_view xs = mset (map (\<lambda>x. (sint (timestamp x), flag x)) (filter ts_used xs))"

lemma ts_view_Nil [simp]: "ts_view [] = {#}"
  by (simp add: ts_view_def)

lemma ts_view_Cons: "ts_view (x # xs) =
    (if ts_used x then {#(sint (timestamp x), flag x)#} else {#}) + ts_view xs"
  by (simp add: ts_view_def)

lemma length_push_ts [simp]: "length (push_ts t f xs) = length xs"
  by (induction xs) auto

lemma length_pop_ts [simp]: "length (snd (pop_ts xs)) = length xs"
  by (simp add: pop_ts_def split: option.split)

lemma length_init_ts [simp]: "length (init_ts xs) = length xs"
  by (simp add: init_ts_def)

lemma init_ts_view: "ts_view (init_ts xs) = {#}"
  by (induction xs) (simp_all add: init_ts_def ts_view_Cons ts_used_def)

lemma ts_view_size_le: "size (ts_view xs) \<le> length xs"
  unfolding ts_view_def by (metis length_filter_le length_map size_mset)

lemma push_ts_room:
  "size (ts_view xs) < length xs \<Longrightarrow> f \<noteq> 0xFFFFFFFF \<Longrightarrow>
   ts_view (push_ts t f xs) = add_mset (sint t, f) (ts_view xs)"
  by (induction xs) (auto simp: ts_view_Cons ts_used_def)

lemma push_ts_full: "size (ts_view xs) = length xs \<Longrightarrow> push_ts t f xs = xs"
proof (induction xs)
  case (Cons x xs)
  then show ?case using ts_view_size_le[of xs] by (auto simp: ts_view_Cons ts_used_def split: if_splits)
qed simp

lemma push_ts_reserved: "ts_view (push_ts t 0xFFFFFFFF xs) = ts_view xs"
  by (induction xs) (auto simp: ts_view_Cons ts_used_def)

lemma min_ts_cases:
  "(min_ts i m k xs = k \<and> (\<forall>x\<in>set xs. ts_used x \<longrightarrow> sint m \<le> sint (timestamp x))) \<or>
   (\<exists>j<length xs. min_ts i m k xs = Some (i + j) \<and> ts_used (xs ! j) \<and> sint (timestamp (xs ! j)) < sint m \<and>
      (\<forall>x\<in>set xs. ts_used x \<longrightarrow> sint (timestamp (xs ! j)) \<le> sint (timestamp x)))"
proof (induction xs arbitrary: i m k)
  case Nil
  then show ?case by simp
next
  case (Cons x xs)
  show ?case
  proof (cases "flag x \<noteq> 0xFFFFFFFF \<and> sint m > sint (timestamp x)")
    case True
    from Cons.IH[of "Suc i" "timestamp x" "Some i"] show ?thesis
    proof
      assume "min_ts (Suc i) (timestamp x) (Some i) xs = Some i \<and>
        (\<forall>y\<in>set xs. ts_used y \<longrightarrow> sint (timestamp x) \<le> sint (timestamp y))"
      with True show ?thesis by (intro disjI2 exI[of _ 0]) (auto simp: ts_used_def)
    next
      assume "\<exists>j<length xs. min_ts (Suc i) (timestamp x) (Some i) xs = Some (Suc i + j) \<and> ts_used (xs ! j) \<and>
        sint (timestamp (xs ! j)) < sint (timestamp x) \<and>
        (\<forall>y\<in>set xs. ts_used y \<longrightarrow> sint (timestamp (xs ! j)) \<le> sint (timestamp y))"
      then obtain j where "j < length xs" "min_ts (Suc i) (timestamp x) (Some i) xs = Some (Suc i + j)"
        "ts_used (xs ! j)" "sint (timestamp (xs ! j)) < sint (timestamp x)"
        "\<forall>y\<in>set xs. ts_used y \<longrightarrow> sint (timestamp (xs ! j)) \<le> sint (timestamp y)" by blast
      with True show ?thesis by (intro disjI2 exI[of _ "Suc j"]) (auto simp: ts_used_def)
    qed
  next
    case False
    then have low: "ts_used x \<longrightarrow> sint m \<le> sint (timestamp x)"
      by (auto simp: ts_used_def not_less)
    from Cons.IH[of "Suc i" m k] show ?thesis
    proof
      assume "min_ts (Suc i) m k xs = k \<and> (\<forall>x\<in>set xs. ts_used x \<longrightarrow> sint m \<le> sint (timestamp x))"
      with False low show ?thesis by (intro disjI1) auto
    next
      assume "\<exists>j<length xs. min_ts (Suc i) m k xs = Some (Suc i + j) \<and> ts_used (xs ! j) \<and>
        sint (timestamp (xs ! j)) < sint m \<and>
        (\<forall>y\<in>set xs. ts_used y \<longrightarrow> sint (timestamp (xs ! j)) \<le> sint (timestamp y))"
      then obtain j where "j < length xs" "min_ts (Suc i) m k xs = Some (Suc i + j)"
        "ts_used (xs ! j)" "sint (timestamp (xs ! j)) < sint m"
        "\<forall>y\<in>set xs. ts_used y \<longrightarrow> sint (timestamp (xs ! j)) \<le> sint (timestamp y)" by blast
      with False low show ?thesis by (intro disjI2 exI[of _ "Suc j"]) auto
    qed
  qed
qed

lemma ts_view_member: "p \<in># ts_view xs \<longleftrightarrow> (\<exists>x\<in>set xs. ts_used x \<and> p = (sint (timestamp x), flag x))"
  by (auto simp: ts_view_def)

lemma ts_view_free:
  "j < length xs \<Longrightarrow> ts_used (xs ! j) \<Longrightarrow>
   ts_view (xs[j := (xs ! j)\<lparr>flag := 0xFFFFFFFF\<rparr>]) = ts_view xs - {#(sint (timestamp (xs ! j)), flag (xs ! j))#} \<and>
   (sint (timestamp (xs ! j)), flag (xs ! j)) \<in># ts_view xs"
proof (induction xs arbitrary: j)
  case (Cons x xs)
  then show ?case by (cases j) (auto simp: ts_view_Cons ts_used_def)
qed simp

lemma sint_max: "sint (0x7FFFFFFFFFFFFFFF :: OMX_TICKS) = 2 ^ 63 - 1"
  by simp

lemma sint_ticks_le: "sint (t :: OMX_TICKS) \<le> 2 ^ 63 - 1"
  using sint_lt[of t] by simp

lemma pop_ts_some:
  assumes "p \<in># ts_view xs" "fst p < 2 ^ 63 - 1"
  obtains t f ys where "pop_ts xs = (Some (t, f), ys)" "(sint t, f) \<in># ts_view xs"
    "ts_view ys = ts_view xs - {#(sint t, f)#}" "\<forall>q. q \<in># ts_view xs \<longrightarrow> sint t \<le> fst q"
proof -
  from assms have "\<not> (\<forall>x\<in>set xs. ts_used x \<longrightarrow> sint (0x7FFFFFFFFFFFFFFF :: OMX_TICKS) \<le> sint (timestamp x))"
    by (auto simp: ts_view_member sint_max)
  with min_ts_cases[of 0 "0x7FFFFFFFFFFFFFFF" None xs] obtain j where j: "j < length xs"
    "min_ts 0 0x7FFFFFFFFFFFFFFF None xs = Some j" "ts_used (xs ! j)"
    "\<forall>x\<in>set xs. ts_used x \<longrightarrow> sint (timestamp (xs ! j)) \<le> sint (timestamp x)" by auto
  show thesis
  proof (rule that)
    show "pop_ts xs = (Some (timestamp (xs ! j), flag (xs ! j)), xs[j := (xs ! j)\<lparr>flag := 0xFFFFFFFF\<rparr>])"
      using j(2) by (simp add: pop_ts_def)
    show "(sint (timestamp (xs ! j)), flag (xs ! j)) \<in># ts_view xs"
      "ts_view (xs[j := (xs ! j)\<lparr>flag := 0xFFFFFFFF\<rparr>]) = ts_view xs - {#(sint (timestamp (xs ! j)), flag (xs ! j))#}"
      using ts_view_free[OF j(1,3)] by auto
    show "\<forall>q. q \<in># ts_view xs \<longrightarrow> sint (timestamp (xs ! j)) \<le> fst q"
      using j(4) by (auto simp: ts_view_member)
  qed
qed

lemma pop_ts_none:
  assumes "\<forall>p. p \<in># ts_view xs \<longrightarrow> fst p = 2 ^ 63 - 1"
  shows "pop_ts xs = (None, xs)"
proof -
  have "\<forall>x\<in>set xs. ts_used x \<longrightarrow> sint (timestamp x) = 2 ^ 63 - 1"
    using assms by (auto simp: ts_view_member)
  with min_ts_cases[of 0 "0x7FFFFFFFFFFFFFFF" None xs] have "min_ts 0 0x7FFFFFFFFFFFFFFF None xs = None"
    by (auto simp: sint_max dest: nth_mem)
  then show ?thesis by (simp add: pop_ts_def)
qed

section \<open>The interface: a bounded pool that yields the earliest stamp\<close>

locale time_pool =
  fixes inv :: "'q \<Rightarrow> bool"
    and view :: "'q \<Rightarrow> (int \<times> 'f) multiset"
    and cap :: nat
    and valid :: "int \<times> 'f \<Rightarrow> bool"
    and push :: "int \<times> 'f \<Rightarrow> 'q \<Rightarrow> 'q"
    and pop :: "'q \<Rightarrow> (int \<times> 'f) option \<times> 'q"
  assumes push_room: "inv q \<Longrightarrow> valid p \<Longrightarrow> size (view q) < cap \<Longrightarrow> view (push p q) = add_mset p (view q)"
    and push_full: "inv q \<Longrightarrow> size (view q) = cap \<Longrightarrow> push p q = q"
    and pop_min: "inv q \<Longrightarrow> view q \<noteq> {#} \<Longrightarrow> \<forall>x. x \<in># view q \<longrightarrow> valid x \<Longrightarrow>
          \<exists>p q'. pop q = (Some p, q') \<and> p \<in># view q \<and> view q' = view q - {#p#} \<and>
            (\<forall>x. x \<in># view q \<longrightarrow> fst p \<le> fst x)"
    and inv_push: "inv q \<Longrightarrow> inv (push p q)"
    and inv_pop: "inv q \<Longrightarrow> inv (snd (pop q))"
begin

primrec push_list :: "(int \<times> 'f) list \<Rightarrow> 'q \<Rightarrow> 'q" where
  "push_list [] q = q"
| "push_list (p # ps) q = push_list ps (push p q)"

primrec pop_times :: "nat \<Rightarrow> 'q \<Rightarrow> int option list" where
  "pop_times 0 q = []"
| "pop_times (Suc n) q = map_option fst (fst (pop q)) # pop_times n (snd (pop q))"

lemma push_list_view:
  "inv q \<Longrightarrow> \<forall>p\<in>set ps. valid p \<Longrightarrow> size (view q) + length ps \<le> cap \<Longrightarrow>
   view (push_list ps q) = view q + mset ps \<and> inv (push_list ps q)"
  by (induction ps arbitrary: q) (simp_all add: push_room inv_push)

lemma pop_times_sorted:
  "inv q \<Longrightarrow> \<forall>x. x \<in># view q \<longrightarrow> valid x \<Longrightarrow> size (view q) = n \<Longrightarrow>
   pop_times n q = map Some (sorted_list_of_multiset (image_mset fst (view q)))"
proof (induction n arbitrary: q)
  case 0
  then show ?case by simp
next
  case (Suc n)
  then have "view q \<noteq> {#}" by auto
  with pop_min[of q] Suc.prems obtain p q' where p: "pop q = (Some p, q')" "p \<in># view q"
    "view q' = view q - {#p#}" "\<forall>x. x \<in># view q \<longrightarrow> fst p \<le> fst x" by blast
  have "inv q'" using inv_pop[of q] Suc.prems(1) p(1) by simp
  moreover have "\<forall>x. x \<in># view q' \<longrightarrow> valid x"
    using Suc.prems(2) p(3) by (auto dest: in_diffD)
  moreover have "size (view q') = n"
    using Suc.prems(3) p(2,3) by (simp add: size_Diff_singleton)
  ultimately have IH: "pop_times n q' = map Some (sorted_list_of_multiset (image_mset fst (view q')))"
    by (rule Suc.IH)
  have v: "view q = add_mset p (view q')" using p(2,3) by simp
  have "sorted_list_of_multiset (image_mset fst (view q)) =
      fst p # sorted_list_of_multiset (image_mset fst (view q'))"
  proof -
    have "\<forall>x\<in>set (sorted_list_of_multiset (image_mset fst (view q'))). fst p \<le> x"
      using p(4) v by auto
    then show ?thesis by (simp add: v insort_is_Cons)
  qed
  with IH p(1) show ?case by simp
qed

lemma display_order:
  assumes "inv q" "view q = {#}" "\<forall>p\<in>set ps. valid p" "length ps \<le> cap"
  shows "pop_times (length ps) (push_list ps q) = map Some (sort (map fst ps))"
proof -
  have v: "view (push_list ps q) = mset ps" "inv (push_list ps q)"
    using push_list_view[OF assms(1,3)] assms(2,4) by auto
  have "pop_times (length ps) (push_list ps q) =
      map Some (sorted_list_of_multiset (image_mset fst (mset ps)))"
    using pop_times_sorted[OF v(2), of "length ps"] v(1) assms(3) by simp
  also have "sorted_list_of_multiset (image_mset fst (mset ps)) = sort (map fst ps)"
    by (metis mset_map sorted_list_of_multiset_mset)
  finally show ?thesis .
qed

end

definition ts_push :: "stamp \<Rightarrow> OutBufferTimeInfo list \<Rightarrow> OutBufferTimeInfo list" where
  "ts_push p xs = push_ts (word_of_int (fst p)) (snd p) xs"

definition ts_pop :: "OutBufferTimeInfo list \<Rightarrow> stamp option \<times> OutBufferTimeInfo list" where
  "ts_pop xs = map_prod (map_option (\<lambda>(t, f). (sint t, f))) id (pop_ts xs)"

text \<open>A stamp that the pool can hold and return: not the free mark, not the largest tick.\<close>

definition ts_valid :: "stamp \<Rightarrow> bool" where
  "ts_valid p \<longleftrightarrow> - (2 ^ 63) \<le> fst p \<and> fst p < 2 ^ 63 - 1 \<and> snd p \<noteq> 0xFFFFFFFF"

lemma sint_word_of_ticks: "- (2 ^ 63) \<le> i \<Longrightarrow> i < 2 ^ 63 \<Longrightarrow> sint (word_of_int i :: OMX_TICKS) = i"
  by (simp add: signed_of_int signed_take_bit_int_eq_self)

interpretation pool: time_pool "\<lambda>xs. length xs = NX_OMX_MAX_BUF" ts_view NX_OMX_MAX_BUF ts_valid ts_push ts_pop
proof unfold_locales
  fix q :: "OutBufferTimeInfo list" and p :: stamp
  assume len: "length q = NX_OMX_MAX_BUF"
  show "ts_view (ts_push p q) = add_mset p (ts_view q)" if "ts_valid p" "size (ts_view q) < NX_OMX_MAX_BUF"
    using push_ts_room[of q "snd p" "word_of_int (fst p)"] that len
    by (simp add: ts_push_def ts_valid_def sint_word_of_ticks)
  show "ts_push p q = q" if "size (ts_view q) = NX_OMX_MAX_BUF"
    using push_ts_full[of q] that len by (simp add: ts_push_def)
  show "\<exists>p q'. ts_pop q = (Some p, q') \<and> p \<in># ts_view q \<and> ts_view q' = ts_view q - {#p#} \<and>
      (\<forall>x. x \<in># ts_view q \<longrightarrow> fst p \<le> fst x)"
    if ne: "ts_view q \<noteq> {#}" and val: "\<forall>x. x \<in># ts_view q \<longrightarrow> ts_valid x"
  proof -
    obtain p0 where p0: "p0 \<in># ts_view q" using ne by (meson multiset_nonemptyE)
    with val have "fst p0 < 2 ^ 63 - 1" by (cases p0) (auto simp: ts_valid_def)
    from pop_ts_some[OF p0 this] obtain t f ys where *: "pop_ts q = (Some (t, f), ys)"
      "(sint t, f) \<in># ts_view q" "ts_view ys = ts_view q - {#(sint t, f)#}"
      "\<forall>r. r \<in># ts_view q \<longrightarrow> sint t \<le> fst r" by blast
    then show ?thesis
      by (intro exI[of _ "(sint t, f)"] exI[of _ ys]) (auto simp: ts_pop_def)
  qed
  show "length (ts_push p q) = NX_OMX_MAX_BUF" using len by (simp add: ts_push_def)
  show "length (snd (ts_pop q)) = NX_OMX_MAX_BUF" using len by (simp add: ts_pop_def)
qed

end
