(* ===== verification/VidDecState.thy ===== *)
theory VidDecState
  imports VidDecTime
begin

text \<open>
  The state of the video decoder component (\<open>struct tNX_VIDDEC_VIDEO_COMP_TYPE\<close> of
  \<open>NX_OMXVideoDecoder.h\<close>) and the decoder library it drives. The header \<open>nx_video_api.h\<close> and the
  gralloc/ion headers are not part of the repository: what the component calls of them is the
  record \<open>vpu_lib\<close>, an argument of every operation that uses it.
\<close>

section \<open>The decoder library\<close>

datatype codec_id =
    NX_NO_CODEC
  | NX_AVC_DEC | NX_MP2_DEC | NX_MP4_DEC | NX_H263_DEC | NX_DIV3_DEC | NX_VC1_DEC | NX_RV_DEC
  | NX_VPX_VP8

record NX_VID_SEQ_IN =
  seq_width :: OMX_S32
  seq_height :: OMX_S32
  seqInfo :: "OMX_U8 list"
  addNumBuffers :: int
  enablePostFilter :: int
  numBuffers :: int
  pMemHandle :: "NX_VID_MEMORY_INFO list"

record NX_VID_SEQ_OUT =
  minBuffers :: int
  seq_numBuffers :: int

record NX_VID_DEC_IN =
  strmBuf :: "OMX_U8 list"
  in_timeStamp :: OMX_TICKS
  eos :: bool

text \<open>
  A decoded picture: its index in the frame buffers, its type and, for the copying mode, the memory
  that can be read from the addresses of the three planes on.
\<close>

record NX_VID_DEC_OUT =
  outImgIdx :: int
  picType :: int
  luVirAddr :: "OMX_U8 list"
  cbVirAddr :: "OMX_U8 list"
  crVirAddr :: "OMX_U8 list"
  out_luStride :: OMX_U32
  out_cbStride :: OMX_U32

record private_handle_t =
  gr_height :: OMX_S32
  gr_stride :: OMX_S32
  share_fd :: int

text \<open>
  The library at one call: what each function returns for its arguments, the constants of its
  headers, the gralloc handle that a buffer pointer designates, the bytes that \<open>malloc\<close> leaves
  in a new block, and the contents at the time of the call of the static buffer of \<open>NX_AVCUtil.c\<close>, which all
  instances share.
\<close>

record vpu_lib =
  NX_VidDecOpen :: "codec_id \<Rightarrow> int \<Rightarrow> ptr"
  NX_VidDecInit :: "ptr \<Rightarrow> NX_VID_SEQ_IN \<Rightarrow> int \<times> NX_VID_SEQ_OUT"
  NX_VidDecDecodeFrame :: "ptr \<Rightarrow> NX_VID_DEC_IN \<Rightarrow> int \<times> NX_VID_DEC_OUT"
  VID_ERR_NONE :: int
  PIC_TYPE_I :: int
  MAX_DEC_FRAME_BUFFERS :: nat
  HAL_PIXEL_FORMAT_YV12 :: OMX_U32
  sizeof_private_handle :: OMX_U32
  GRALLOC_USAGE_DISPLAY :: OMX_U32
  gralloc_handle :: "ptr \<Rightarrow> private_handle_t option"
  ion_open :: int
  ion_get_phys :: "int \<Rightarrow> int \<Rightarrow> int \<times> OMX_U32"
  heap_junk :: "nat \<Rightarrow> OMX_U8"
  rbsp_static :: "OMX_U8 list"

section \<open>The component\<close>

datatype decode_function =
    NX_DecodeAvcFrame_ptr | NX_DecodeMpeg2Frame_ptr | NX_DecodeMpeg4Frame_ptr | NX_DecodeDiv3Frame_ptr
  | NX_DecodeVC1Frame_ptr | NX_DecodeRVFrame_ptr | NX_DecodeVP8Frame_ptr

text \<open>
  The counters of buffers are \<open>OMX_S32\<close> in C and stay far from its bounds; they are integers here.
  \<open>tmpInputBuffer\<close> is written before every use and appears as the value that is passed on.
\<close>

record NX_VIDDEC = NX_IO_COMP +
  inputFormat :: OMX_VIDEO_PARAM_PORTFORMATTYPE
  outputFormat :: OMX_VIDEO_PARAM_PORTFORMATTYPE
  outBufferUseFlag :: "bool list"
  outUsableBuffers :: int
  curOutBuffers :: int
  minRequiredFrameBuffer :: int
  outBufferable :: int
  outTimeStamp :: "OutBufferTimeInfo list"
  isOutIdr :: bool
  wmvFormat :: OMX_U32
  bFlush :: bool
  hVpuCodec :: ptr
  videoCodecId :: codec_id
  bInitialized :: bool
  bNeedKey :: bool
  bStartEoS :: bool
  frameDelay :: bool
  rvFrameCnt :: "16 word"
  DecodeFrame :: "decode_function option"
  width :: OMX_S32
  height :: OMX_S32
  bUseNativeBuffer :: bool
  bEnableThumbNailMode :: bool
  bMetaDataInBuffers :: bool
  codecSpecificData :: "OMX_U8 list option"
  codecSpecificDataSize :: int
  pExtraData :: "OMX_U8 list option"
  nExtraDataSize :: int
  codecTag :: OMX_U32
  vidFrameBuf :: "nat \<Rightarrow> NX_VID_MEMORY_INFO"
  bXMSWMVType :: bool
  inFrameCount :: OMX_S32
  outFrameCount :: OMX_S32
  instanceId :: int
  bNeedSequenceData :: bool

text \<open>The component after \<open>NxMemset\<close> to 0.\<close>

definition zero_viddec :: NX_VIDDEC where
  "zero_viddec = \<lparr>hdr_mem = (\<lambda>_. None), byte_mem = (\<lambda>_. None), cmd_mem = (\<lambda>_. None), trace = [],
     comp_nVersion = 0, hComp = NULL, nNumPort = 0, compName = [], compRole = [], compUUID = replicate 128 0,
     pPort = (\<lambda>_. zero_port), pBufQueue = (\<lambda>_. zero_queue), eCurState = OMX_StateInvalid,
     eNewState = OMX_StateInvalid,
     pCallbacks = \<lparr>cbEventHandler = NULL, cbEmptyBufferDone = NULL, cbFillBufferDone = NULL\<rparr>,
     pCallbackData = NULL, eCmdThreadCmd = NX_THREAD_CMD_INVALID, hSemCmd = None, hSemCmdWait = None,
     cmdQueue = zero_queue, cmdId = 0,
     eCmdBufThread = NX_THREAD_CMD_INVALID, hBufAllocSem = None, hBufCtrlSem = None, hBufChangeSem = None,
     pInputBuffers = replicate NX_OMX_MAX_BUF NULL, pOutputBuffers = replicate NX_OMX_MAX_BUF NULL,
     inputFormat = zero_format, outputFormat = zero_format,
     outBufferUseFlag = replicate NX_OMX_MAX_BUF False, outUsableBuffers = 0, curOutBuffers = 0,
     minRequiredFrameBuffer = 0, outBufferable = 0,
     outTimeStamp = replicate NX_OMX_MAX_BUF \<lparr>timestamp = 0, flag = 0\<rparr>, isOutIdr = False, wmvFormat = 0,
     bFlush = False, hVpuCodec = NULL, videoCodecId = NX_NO_CODEC, bInitialized = False, bNeedKey = False,
     bStartEoS = False, frameDelay = False, rvFrameCnt = 0, DecodeFrame = None, width = 0, height = 0,
     bUseNativeBuffer = False, bEnableThumbNailMode = False, bMetaDataInBuffers = False,
     codecSpecificData = None, codecSpecificDataSize = 0, pExtraData = None, nExtraDataSize = 0,
     codecTag = 0, vidFrameBuf = (\<lambda>_. zero_mem_info), bXMSWMVType = False,
     inFrameCount = 0, outFrameCount = 0, instanceId = 0, bNeedSequenceData = False\<rparr>"

abbreviation (input) VPUDEC_VID_INPORT_INDEX :: nat where "VPUDEC_VID_INPORT_INDEX \<equiv> 0"
abbreviation (input) VPUDEC_VID_OUTPORT_INDEX :: nat where "VPUDEC_VID_OUTPORT_INDEX \<equiv> 1"
abbreviation (input) VPUDEC_VID_NUM_PORT :: nat where "VPUDEC_VID_NUM_PORT \<equiv> 2"
abbreviation (input) VID_INPORT_MIN_BUF_CNT :: OMX_U32 where "VID_INPORT_MIN_BUF_CNT \<equiv> 6"
abbreviation (input) VID_INPORT_MIN_BUF_SIZE :: OMX_U32 where "VID_INPORT_MIN_BUF_SIZE \<equiv> 4194304"
abbreviation (input) VID_OUTPORT_MIN_BUF_CNT_THUMB :: OMX_U32 where "VID_OUTPORT_MIN_BUF_CNT_THUMB \<equiv> 4"
abbreviation (input) VID_OUTPORT_MIN_BUF_CNT :: OMX_U32 where "VID_OUTPORT_MIN_BUF_CNT \<equiv> 16"
abbreviation (input) VID_OUTPORT_MIN_BUF_SIZE :: OMX_U32 where "VID_OUTPORT_MIN_BUF_SIZE \<equiv> 4096"
abbreviation (input) VID_TEMP_IN_BUF_SIZE :: nat where "VID_TEMP_IN_BUF_SIZE \<equiv> 4194304"

section \<open>Timestamps of the component\<close>

definition InitVideoTimeStamp :: "NX_VIDDEC \<Rightarrow> NX_VIDDEC" where
  "InitVideoTimeStamp s = s\<lparr>outTimeStamp := init_ts (outTimeStamp s)\<rparr>"

definition PushVideoTimeStamp :: "OMX_TICKS \<Rightarrow> OMX_U32 \<Rightarrow> NX_VIDDEC \<Rightarrow> NX_VIDDEC" where
  "PushVideoTimeStamp t f s = s\<lparr>outTimeStamp := push_ts t f (outTimeStamp s)\<rparr>"

text \<open>\<open>None\<close> in the first component when the call returns -1 and leaves its out-parameters alone.\<close>

definition PopVideoTimeStamp :: "NX_VIDDEC \<Rightarrow> (OMX_TICKS \<times> OMX_U32) option \<times> NX_VIDDEC" where
  "PopVideoTimeStamp s =
     (let (r, ts) = pop_ts (outTimeStamp s) in (r, s\<lparr>outTimeStamp := ts\<rparr>))"

primrec push_stamps :: "(OMX_TICKS \<times> OMX_U32) list \<Rightarrow> NX_VIDDEC \<Rightarrow> NX_VIDDEC" where
  "push_stamps [] s = s"
| "push_stamps (p # ps) s = push_stamps ps (PushVideoTimeStamp (fst p) (snd p) s)"

primrec pop_stamps :: "nat \<Rightarrow> NX_VIDDEC \<Rightarrow> OMX_TICKS option list" where
  "pop_stamps 0 s = []"
| "pop_stamps (Suc n) s = (let (r, s) = PopVideoTimeStamp s in map_option fst r # pop_stamps n s)"

lemma push_stamps_pool:
  "outTimeStamp (push_stamps ps s) = pool.push_list (map (\<lambda>(t, f). (sint t, f)) ps) (outTimeStamp s)"
  by (induction ps arbitrary: s) (auto simp: PushVideoTimeStamp_def ts_push_def)

lemma pop_stamps_pool:
  "map (map_option sint) (pop_stamps n s) = pool.pop_times n (outTimeStamp s)"
  by (induction n arbitrary: s)
    (auto simp: PopVideoTimeStamp_def ts_pop_def case_prod_unfold Let_def option.map_comp o_def)

text \<open>
  C19: Display order: after \<open>InitVideoTimeStamp\<close>, pushing up to \<open>NX_OMX_MAX_BUF\<close> timestamps in any order
  and popping as many returns them in increasing (signed) order. The flag word \<open>0xFFFFFFFF\<close> and the
  largest tick are excluded: the pool uses the first as its free mark and never pops the second.
\<close>

theorem timestamps_in_display_order:
  assumes "length (outTimeStamp s) = NX_OMX_MAX_BUF" and "length ps \<le> NX_OMX_MAX_BUF"
    and "\<forall>(t, f)\<in>set ps. f \<noteq> 0xFFFFFFFF \<and> t \<noteq> 0x7FFFFFFFFFFFFFFF"
  shows "map (map_option sint) (pop_stamps (length ps) (push_stamps ps (InitVideoTimeStamp s))) =
     map Some (sort (map (\<lambda>p. sint (fst p)) ps))"
proof -
  have v: "\<forall>p\<in>set (map (\<lambda>(t, f). (sint t, f)) ps). ts_valid p"
  proof -
    have "sint t < 2 ^ 63 - 1" if "t \<noteq> 0x7FFFFFFFFFFFFFFF" for t :: OMX_TICKS
    proof -
      have "sint t \<noteq> sint (0x7FFFFFFFFFFFFFFF :: OMX_TICKS)" using that by (metis word_eq_iff_signed)
      with sint_ticks_le[of t] show ?thesis by (simp add: sint_max)
    qed
    moreover have "- (2 ^ 63) \<le> sint t" for t :: OMX_TICKS
      using sint_ge[of t] by simp
    ultimately show ?thesis using assms(3) by (fastforce simp: ts_valid_def)
  qed
  show ?thesis
    using pool.display_order[of "init_ts (outTimeStamp s)" "map (\<lambda>(t, f). (sint t, f)) ps"] v assms(1,2)
    by (simp add: pop_stamps_pool push_stamps_pool InitVideoTimeStamp_def init_ts_view o_def case_prod_unfold)
qed

theorem timestamps_in_display_order_witness:
  "map (map_option sint) (pop_stamps 3 (push_stamps [(7, 0), (2, 1), (5, 0)] (InitVideoTimeStamp zero_viddec))) =
     [Some 2, Some 5, Some 7]"
proof -
  have "length (outTimeStamp zero_viddec) = NX_OMX_MAX_BUF" by (simp add: zero_viddec_def)
  from timestamps_in_display_order[OF this, of "[(7, 0), (2, 1), (5, 0)]"] show ?thesis
    by (simp add: numeral_3_eq_3 del: push_stamps.simps pop_stamps.simps)
qed

end
