(* ===== verification/VidDecBuf.thy ===== *)
theory VidDecBuf
  imports VidDecState
begin

text \<open>
  The buffer entry points of the video decoder: \<open>NX_VidDec_UseBuffer\<close>, \<open>NX_VidDec_AllocateBuffer\<close>,
  \<open>NX_VidDec_FreeBuffer\<close>, \<open>NX_VidDec_EmptyThisBuffer\<close> and \<open>NX_VidDec_FillThisBuffer\<close>, with the
  invariants of the two buffer pools.
\<close>

section \<open>Registering buffers\<close>

text \<open>\<open>p\<close> is the header block that \<open>NxMalloc\<close> returns; the second result is \<open>*ppBufferHdr\<close> if written.\<close>

definition NX_VidDec_UseBuffer ::
  "ptr \<Rightarrow> OMX_U32 \<Rightarrow> ptr \<Rightarrow> OMX_U32 \<Rightarrow> ptr \<Rightarrow> NX_VIDDEC \<Rightarrow> (OMX_ERRORTYPE \<times> ptr option \<times> NX_VIDDEC) option" where
  "NX_VidDec_UseBuffer p port app sz buf s =
     (if unat port \<ge> nNumPort s then Some (OMX_ErrorBadPortIndex, None, s)
      else if OMX_StateIdle \<noteq> eNewState s \<and> OMX_StateExecuting \<noteq> eNewState s then
        Some (OMX_ErrorIncorrectStateTransition, None, s)
      else
        (let k = port_of port in
         if \<not> bUseNativeBuffer s \<and> nBufferSize (pPort s k) > sz then Some (OMX_ErrorBadParameter, None, s)
         else do {
           slot \<leftarrow> find_slot (\<lambda>q. q = NULL) (port_bufs k s) (unat (nBufferCountActual (pPort s k)));
           case slot of
             None \<Rightarrow> Some (OMX_ErrorInsufficientResources, None, s)
           | Some i \<Rightarrow>
               (let s = set_port_buf k i p s in
                if p = NULL then Some (OMX_ErrorInsufficientResources, None, s)
                else do {
                  let s = s\<lparr>hdr_mem := (hdr_mem s)(p := Some (new_hdr k buf sz app s))\<rparr>;
                  let s = (if eDir (pPort s k) = OMX_DirInput then s
                           else s\<lparr>outUsableBuffers := outUsableBuffers s + 1\<rparr>);
                  s \<leftarrow> buffer_added NX_BUFHEADER_TYPE_USEBUFFER k s;
                  Some (OMX_ErrorNone, Some p, s) }) }))"

text \<open>\<open>p\<close> and \<open>pb\<close> are the header and the data block that \<open>NxMalloc\<close> returns.\<close>

definition NX_VidDec_AllocateBuffer ::
  "vpu_lib \<Rightarrow> ptr \<Rightarrow> ptr \<Rightarrow> OMX_U32 \<Rightarrow> ptr \<Rightarrow> OMX_U32 \<Rightarrow> NX_VIDDEC \<Rightarrow> (OMX_ERRORTYPE \<times> ptr option \<times> NX_VIDDEC) option" where
  "NX_VidDec_AllocateBuffer lib p pb port app sz s =
     (if unat port \<ge> nNumPort s then Some (OMX_ErrorBadPortIndex, None, s)
      else if OMX_StateLoaded \<noteq> eCurState s \<or> OMX_StateIdle \<noteq> eNewState s then
        Some (OMX_ErrorIncorrectStateTransition, None, s)
      else
        (let k = port_of port in
         if nBufferSize (pPort s k) > sz then Some (OMX_ErrorBadParameter, None, s)
         else do {
           slot \<leftarrow> find_slot (\<lambda>q. q = NULL) (port_bufs k s) (unat (nBufferCountActual (pPort s k)));
           case slot of
             None \<Rightarrow> do {
               b0 \<leftarrow> arr (port_bufs k s) 0;
               Some (OMX_ErrorInsufficientResources, Some b0, upd_port k (\<lambda>q. q\<lparr>bPopulated := True\<rparr>) s) }
           | Some i \<Rightarrow>
               (let s = set_port_buf k i p s in
                if p = NULL then Some (OMX_ErrorInsufficientResources, None, s)
                else
                  (let s = s\<lparr>hdr_mem := (hdr_mem s)(p := Some (zero_hdr\<lparr>hdr_nSize := sizeof_hdr,
                             hdr_nVersion := NX_OMXSetVersion, pBuffer := pb\<rparr>))\<rparr>
                   in if pb = NULL then Some (OMX_ErrorInsufficientResources, None, s)
                   else do {
                     let s = s\<lparr>hdr_mem := (hdr_mem s)(p := Some (new_hdr k pb sz app s)),
                               byte_mem := (byte_mem s)(pb := Some (map (heap_junk lib) [0..<unat sz]))\<rparr>;
                     s \<leftarrow> buffer_added NX_BUFHEADER_TYPE_ALLOCATED k s;
                     Some (OMX_ErrorNone, Some p, s) })) }))"

definition free_event :: "OMX_U32 \<Rightarrow> NX_VIDDEC \<Rightarrow> NX_VIDDEC option" where
  "free_event port s =
     (if OMX_StateLoaded \<noteq> eNewState s \<and> OMX_StateExecuting \<noteq> eNewState s
      then SendEvent OMX_EventError (omx_error_code OMX_ErrorPortUnpopulated) port NULL s
      else Some s)"

definition NX_VidDec_FreeBuffer :: "OMX_U32 \<Rightarrow> ptr \<Rightarrow> NX_VIDDEC \<Rightarrow> (OMX_ERRORTYPE \<times> NX_VIDDEC) option" where
  "NX_VidDec_FreeBuffer port b s =
     (if unat port \<ge> nNumPort s then Some (OMX_ErrorBadPortIndex, s)
      else do {
        s \<leftarrow> free_event port s;
        let k = port_of port;
        if b = NULL then Some (OMX_ErrorBadParameter, s)
        else do {
          slot \<leftarrow> find_slot (\<lambda>q. b = q) (port_bufs k s) (unat (nBufferCountActual (pPort s k)));
          case slot of
            None \<Rightarrow> Some (OMX_ErrorInsufficientResources, s)
          | Some i \<Rightarrow> do { s \<leftarrow> release_buffer b k i s; Some (OMX_ErrorNone, s) } } })"

section \<open>Queueing buffers\<close>

definition NX_VidDec_EmptyThisBuffer :: "ptr \<Rightarrow> NX_VIDDEC \<Rightarrow> (OMX_ERRORTYPE \<times> NX_VIDDEC) option" where
  "NX_VidDec_EmptyThisBuffer b s =
     (if \<not> accepts_buffers s then Some (OMX_ErrorIncorrectStateOperation, s)
      else
        (let (rc, q) = NX_PushQueue (pInputPortQueue s) b in
         if 0 \<noteq> rc then Some (OMX_ErrorUndefined, s)
         else do {
           m \<leftarrow> post_handle (hBufChangeSem s);
           Some (OMX_ErrorNone, s\<lparr>pBufQueue := (pBufQueue s)(0 := q), hBufChangeSem := m\<rparr>) }))"

text \<open>
  One turn of the search loop in native window mode. \<open>foundBuffer\<close> starts as 1, so the branch that
  hands an unknown buffer back is never taken.
\<close>

definition fill_slot :: "ptr \<Rightarrow> nat \<Rightarrow> NX_VIDDEC \<Rightarrow> NX_VIDDEC" where
  "fill_slot b i s =
     (if i < length (pOutputBuffers s) \<and> pOutputBuffers s ! i = b
      then (emit (VpuClrDspFlag (hVpuCodec s) (int i)) s)
             \<lparr>outBufferUseFlag := (outBufferUseFlag s)[i := True], curOutBuffers := curOutBuffers s + 1\<rparr>
      else s)"

definition NX_VidDec_FillThisBuffer :: "ptr \<Rightarrow> NX_VIDDEC \<Rightarrow> (OMX_ERRORTYPE \<times> NX_VIDDEC) option" where
  "NX_VidDec_FillThisBuffer b s =
     (if \<not> accepts_buffers s then Some (OMX_ErrorIncorrectStateOperation, s)
      else if bEnableThumbNailMode s then
        (let (rc, q) = NX_PushQueue (pOutputPortQueue s) b in do {
           m \<leftarrow> post_handle (hBufChangeSem s);
           if 0 \<noteq> rc then Some (OMX_ErrorUndefined, s\<lparr>hBufChangeSem := m\<rparr>)
           else Some (OMX_ErrorNone, s\<lparr>pBufQueue := (pBufQueue s)(1 := q), hBufChangeSem := m\<rparr>) })
      else
        (let s = fold (fill_slot b) [0..<NX_OMX_MAX_BUF] s in do {
           m \<leftarrow> post_handle (hBufChangeSem s);
           Some (OMX_ErrorNone, s\<lparr>hBufChangeSem := m\<rparr>) }))"

section \<open>Populating a port\<close>

text \<open>Fields that the calls leave alone.\<close>

lemma set_port_buf_viddec [simp]:
  "bUseNativeBuffer (set_port_buf k i p s) = bUseNativeBuffer s" "outUsableBuffers (set_port_buf k i p s) = outUsableBuffers s"
  "port_bufs k (s\<lparr>outUsableBuffers := x2\<rparr>) = port_bufs k s"
  by (simp_all add: set_port_buf_def port_bufs_def)

definition use_ready :: "OMX_U32 \<Rightarrow> OMX_U32 \<Rightarrow> NX_VIDDEC \<Rightarrow> bool" where
  "use_ready port sz s \<longleftrightarrow> unat port < nNumPort s \<and>
     (eNewState s = OMX_StateIdle \<or> eNewState s = OMX_StateExecuting) \<and>
     (bUseNativeBuffer s \<or> nBufferSize (pPort s (port_of port)) \<le> sz)"

lemma buffer_added_spec:
  assumes "hBufAllocSem s = Some sm"
  shows "\<exists>t. buffer_added ty k s = Some t \<and>
     (let p = pPort s k; last = (nAllocatedBuf p + 1 = nBufferCountActual p) in
      pPort t k = p\<lparr>nAllocatedBuf := nAllocatedBuf p + 1, bPopulated := bPopulated p \<or> last,
        eBufferType := (if last then ty else eBufferType p)\<rparr> \<and>
      hBufAllocSem t = Some (if last then snd (NX_PostSem sm) else sm)) \<and>
     (\<forall>j. port_bufs j t = port_bufs j s) \<and> eNewState t = eNewState s \<and> nNumPort t = nNumPort s \<and>
     bUseNativeBuffer t = bUseNativeBuffer s"
  using assms by (simp add: buffer_added_def Let_def upd_port_def post_handle_def port_bufs_def)

lemma use_buffer_step:
  assumes "use_ready port sz s" and k: "k = port_of port"
    and bufs: "port_bufs k s = xs @ replicate (Suc m) NULL" "NULL \<notin> set xs"
    and n: "length xs < unat (nBufferCountActual (pPort s k))"
    and al: "unat (nAllocatedBuf (pPort s k)) = length xs"
    and p: "p \<noteq> NULL" and sem: "hBufAllocSem s = Some sm"
  obtains t where "NX_VidDec_UseBuffer p port app sz buf s = Some (OMX_ErrorNone, Some p, t)"
    "use_ready port sz t" "port_bufs k t = (xs @ [p]) @ replicate m NULL"
    "nBufferCountActual (pPort t k) = nBufferCountActual (pPort s k)"
    "unat (nAllocatedBuf (pPort t k)) = length (xs @ [p])"
    "bPopulated (pPort t k) = (bPopulated (pPort s k) \<or> length (xs @ [p]) = unat (nBufferCountActual (pPort s k)))"
    "hBufAllocSem t = Some (if length (xs @ [p]) = unat (nBufferCountActual (pPort s k)) then snd (NX_PostSem sm) else sm)"
proof -
  let ?s1 = "(set_port_buf k (length xs) p s)\<lparr>hdr_mem := (hdr_mem s)(p := Some (new_hdr k buf sz app (set_port_buf k (length xs) p s)))\<rparr>"
  define s2 where "s2 = (if eDir (pPort s k) = OMX_DirInput then ?s1 else ?s1\<lparr>outUsableBuffers := outUsableBuffers s + 1\<rparr>)"
  have slot: "find_slot (\<lambda>q. q = NULL) (port_bufs k s) (unat (nBufferCountActual (pPort s k))) = Some (Some (length xs))"
  proof -
    have "\<forall>x\<in>set xs. \<not> x = NULL" using bufs(2) by metis
    from find_slot_prefix[OF this n, of NULL "replicate m NULL"] show ?thesis using bufs(1) by simp
  qed
  have al': "unat (nAllocatedBuf (pPort s k) + 1) = Suc (length xs)"
    using word_inc_unat[of "nAllocatedBuf (pPort s k)" "nBufferCountActual (pPort s k)"] n al
    by (simp add: word_less_nat_alt)
  then have full: "nAllocatedBuf (pPort s k) + 1 = nBufferCountActual (pPort s k) \<longleftrightarrow>
      Suc (length xs) = unat (nBufferCountActual (pPort s k))"
    by (metis word_unat_eq_iff)
  have call: "NX_VidDec_UseBuffer p port app sz buf s =
      do { s \<leftarrow> buffer_added NX_BUFHEADER_TYPE_USEBUFFER k s2; Some (OMX_ErrorNone, Some p, s) }"
    using assms(1) slot p k by (auto simp: NX_VidDec_UseBuffer_def use_ready_def Let_def not_less s2_def)
  have s2: "pPort s2 = pPort s" "hBufAllocSem s2 = Some sm" "port_bufs k s2 = (port_bufs k s)[length xs := p]"
    "eNewState s2 = eNewState s" "nNumPort s2 = nNumPort s" "bUseNativeBuffer s2 = bUseNativeBuffer s"
    using sem by (simp_all add: s2_def)
  obtain t where t: "buffer_added NX_BUFHEADER_TYPE_USEBUFFER k s2 = Some t"
    "pPort t k = (pPort s k)\<lparr>nAllocatedBuf := nAllocatedBuf (pPort s k) + 1,
        bPopulated := bPopulated (pPort s k) \<or> Suc (length xs) = unat (nBufferCountActual (pPort s k)),
        eBufferType := (if Suc (length xs) = unat (nBufferCountActual (pPort s k)) then NX_BUFHEADER_TYPE_USEBUFFER
          else eBufferType (pPort s k))\<rparr>"
    "hBufAllocSem t = Some (if Suc (length xs) = unat (nBufferCountActual (pPort s k)) then snd (NX_PostSem sm) else sm)"
    "port_bufs k t = (port_bufs k s)[length xs := p]" "eNewState t = eNewState s" "nNumPort t = nNumPort s"
    "bUseNativeBuffer t = bUseNativeBuffer s"
    using buffer_added_spec[OF s2(2), of NX_BUFHEADER_TYPE_USEBUFFER k] full s2(3) unfolding s2(1,4-6) by (auto simp: Let_def)
  have "(port_bufs k s)[length xs := p] = (xs @ [p]) @ replicate m NULL"
    using bufs(1) by (simp add: list_update_append)
  with t al' assms(1) k call show thesis by (intro that[of t]) (auto simp: use_ready_def)
qed

primrec use_run :: "ptr list \<Rightarrow> OMX_U32 \<Rightarrow> ptr \<Rightarrow> OMX_U32 \<Rightarrow> ptr \<Rightarrow> NX_VIDDEC \<Rightarrow> (OMX_ERRORTYPE list \<times> NX_VIDDEC) option" where
  "use_run [] port app sz buf s = Some ([], s)"
| "use_run (p # ps) port app sz buf s = do {
     (e, r, s) \<leftarrow> NX_VidDec_UseBuffer p port app sz buf s;
     (es, s) \<leftarrow> use_run ps port app sz buf s;
     Some (e # es, s) }"

lemma use_run_fills:
  assumes "use_ready port sz s" and "k = port_of port"
    and "port_bufs k s = xs @ replicate m NULL" and "NULL \<notin> set xs" and "NULL \<notin> set ps"
    and "length xs + length ps \<le> unat (nBufferCountActual (pPort s k))" and "length ps \<le> m"
    and "unat (nAllocatedBuf (pPort s k)) = length xs" and "hBufAllocSem s = Some sm"
  shows "\<exists>t. use_run ps port app sz buf s = Some (replicate (length ps) OMX_ErrorNone, t) \<and> use_ready port sz t \<and>
     port_bufs k t = (xs @ ps) @ replicate (m - length ps) NULL \<and>
     nBufferCountActual (pPort t k) = nBufferCountActual (pPort s k) \<and>
     bPopulated (pPort t k) = (bPopulated (pPort s k) \<or>
        (ps \<noteq> [] \<and> length xs + length ps = unat (nBufferCountActual (pPort s k)))) \<and>
     hBufAllocSem t = Some (if ps \<noteq> [] \<and> length xs + length ps = unat (nBufferCountActual (pPort s k))
        then snd (NX_PostSem sm) else sm)"
  using assms
proof (induction ps arbitrary: s xs m sm)
  case Nil
  then show ?case by simp
next
  case (Cons p ps)
  then obtain m' where m': "m = Suc m'" by (cases m) auto
  let ?n = "unat (nBufferCountActual (pPort s k))"
  have bufs: "port_bufs k s = xs @ replicate (Suc m') NULL" "length xs < ?n" "p \<noteq> NULL"
    using Cons.prems m' by auto
  obtain t where t: "NX_VidDec_UseBuffer p port app sz buf s = Some (OMX_ErrorNone, Some p, t)"
    "use_ready port sz t" "port_bufs k t = (xs @ [p]) @ replicate m' NULL"
    "nBufferCountActual (pPort t k) = nBufferCountActual (pPort s k)"
    "unat (nAllocatedBuf (pPort t k)) = length (xs @ [p])"
    "bPopulated (pPort t k) = (bPopulated (pPort s k) \<or> length (xs @ [p]) = ?n)"
    "hBufAllocSem t = Some (if length (xs @ [p]) = ?n then snd (NX_PostSem sm) else sm)"
    by (rule use_buffer_step[OF Cons.prems(1,2) bufs(1) Cons.prems(4) bufs(2) Cons.prems(8) bufs(3) Cons.prems(9)])
  have "ps \<noteq> [] \<Longrightarrow> length (xs @ [p]) \<noteq> ?n" using Cons.prems(6) by (cases ps) auto
  with Cons.IH[of t "xs @ [p]" m' "if length (xs @ [p]) = ?n then snd (NX_PostSem sm) else sm"] t Cons.prems m'
  show ?case by (cases "ps = []") auto
qed

text \<open>
  Registering buffers on an empty port: each of the first \<open>nBufferCountActual\<close> calls of \<open>UseBuffer\<close>
  succeeds and takes the next slot; the port becomes populated, and the allocation semaphore is
  posted, with the last of them and not before; one call more is refused.
\<close>

theorem use_buffers_populate_port:
  assumes "use_ready port sz s" and "k = port_of port"
    and "port_bufs k s = replicate NX_OMX_MAX_BUF NULL" and "nAllocatedBuf (pPort s k) = 0"
    and "\<not> bPopulated (pPort s k)" and "hBufAllocSem s = Some sm" and "NULL \<notin> set ps" and "ps \<noteq> []"
    and "length ps \<le> unat (nBufferCountActual (pPort s k))"
    and "unat (nBufferCountActual (pPort s k)) \<le> NX_OMX_MAX_BUF"
  shows "\<exists>t. use_run ps port app sz buf s = Some (replicate (length ps) OMX_ErrorNone, t) \<and>
     take (length ps) (port_bufs k t) = ps \<and>
     (if length ps = unat (nBufferCountActual (pPort s k))
      then bPopulated (pPort t k) \<and> hBufAllocSem t = Some (snd (NX_PostSem sm)) \<and>
        NX_VidDec_UseBuffer q port app sz buf t = Some (OMX_ErrorInsufficientResources, None, t)
      else \<not> bPopulated (pPort t k) \<and> hBufAllocSem t = Some sm)"
proof -
  obtain t where t: "use_run ps port app sz buf s = Some (replicate (length ps) OMX_ErrorNone, t)"
    "use_ready port sz t" "port_bufs k t = ps @ replicate (NX_OMX_MAX_BUF - length ps) NULL"
    "nBufferCountActual (pPort t k) = nBufferCountActual (pPort s k)"
    "bPopulated (pPort t k) = (length ps = unat (nBufferCountActual (pPort s k)))"
    "hBufAllocSem t = Some (if length ps = unat (nBufferCountActual (pPort s k)) then snd (NX_PostSem sm) else sm)"
    using use_run_fills[of port sz s k "[]" NX_OMX_MAX_BUF ps sm app buf] assms by auto
  have "NX_VidDec_UseBuffer q port app sz buf t = Some (OMX_ErrorInsufficientResources, None, t)"
    if "length ps = unat (nBufferCountActual (pPort s k))"
  proof -
    have "find_slot (\<lambda>q. q = NULL) (port_bufs k t) (length ps) = Some None"
    proof (rule find_slot_none)
      show "length ps \<le> length (port_bufs k t)" using t(3) by simp
      show "\<forall>x\<in>set (take (length ps) (port_bufs k t)). \<not> x = NULL" using t(3) assms(7) by (simp, metis gr0I)
    qed
    with t(2,4) that assms(2) show ?thesis by (auto simp: NX_VidDec_UseBuffer_def use_ready_def Let_def not_less)
  qed
  with t show ?thesis by auto
qed

theorem use_buffers_populate_port_witness:
  "\<exists>t. use_run [5, 6] 0 0 0 0 (zero_viddec\<lparr>nNumPort := 2, eNewState := OMX_StateIdle,
       pPort := (\<lambda>i. zero_port\<lparr>nBufferCountActual := 2\<rparr>), hBufAllocSem := Some \<lparr>nValue = 0, nMaxValue = 16\<rparr>\<rparr>) =
     Some ([OMX_ErrorNone, OMX_ErrorNone], t) \<and> bPopulated (pPort t 0) \<and>
     hBufAllocSem t = Some \<lparr>nValue = 1, nMaxValue = 16\<rparr>"
  using use_buffers_populate_port[of 0 0 "zero_viddec\<lparr>nNumPort := 2, eNewState := OMX_StateIdle,
       pPort := (\<lambda>i. zero_port\<lparr>nBufferCountActual := 2\<rparr>), hBufAllocSem := Some \<lparr>nValue = 0, nMaxValue = 16\<rparr>\<rparr>"
      0 "\<lparr>nValue = 0, nMaxValue = 16\<rparr>" "[5, 6]" 0 0 0]
  by (auto simp: use_ready_def port_of_def port_bufs_def zero_viddec_def zero_port_def NX_PostSem_def)

section \<open>Releasing buffers\<close>

text \<open>
  The pool of a port: the counter agrees with the occupied slots and no header occupies two of them.
\<close>

definition pool_ok :: "nat \<Rightarrow> NX_VIDDEC \<Rightarrow> bool" where
  "pool_ok k s \<longleftrightarrow> length (port_bufs k s) = NX_OMX_MAX_BUF \<and>
     unat (nAllocatedBuf (pPort s k)) = count_if (\<lambda>p. p \<noteq> NULL) (port_bufs k s) \<and>
     (\<forall>i<NX_OMX_MAX_BUF. \<forall>j<NX_OMX_MAX_BUF. port_bufs k s ! i = port_bufs k s ! j \<and>
        port_bufs k s ! i \<noteq> NULL \<longrightarrow> i = j)"

text \<open>\<open>FreeBuffer\<close> may report an error event before it frees; then the client's handler is needed.\<close>

definition free_ready :: "OMX_U32 \<Rightarrow> ptr \<Rightarrow> NX_VIDDEC \<Rightarrow> bool" where
  "free_ready port b s \<longleftrightarrow> unat port < nNumPort s \<and> cbEventHandler (pCallbacks s) \<noteq> NULL \<and>
     unat (nBufferCountActual (pPort s (port_of port))) \<le> NX_OMX_MAX_BUF \<and>
     b \<noteq> NULL \<and> b \<in> set (take (unat (nBufferCountActual (pPort s (port_of port)))) (port_bufs (port_of port) s)) \<and>
     (\<exists>h. hdr_mem s b = Some h \<and> (eBufferType (pPort s (port_of port)) = NX_BUFHEADER_TYPE_ALLOCATED \<and>
        pBuffer h \<noteq> NULL \<longrightarrow> byte_mem s (pBuffer h) \<noteq> None))"

lemma free_slot:
  assumes "pool_ok k s" "n \<le> NX_OMX_MAX_BUF" "b \<noteq> NULL" "b \<in> set (take n (port_bufs k s))"
  obtains i where "find_slot (\<lambda>q. b = q) (port_bufs k s) n = Some (Some i)" "i < n" "port_bufs k s ! i = b"
    "b \<notin> set ((port_bufs k s)[i := NULL])"
    "count_if (\<lambda>p. p \<noteq> NULL) (port_bufs k s) = Suc (count_if (\<lambda>p. p \<noteq> NULL) ((port_bufs k s)[i := NULL]))"
proof -
  let ?xs = "port_bufs k s"
  have len: "length ?xs = NX_OMX_MAX_BUF" using assms(1) by (simp add: pool_ok_def)
  obtain m where m: "m < n" "?xs ! m = b"
    using assms(2,4) len by (auto simp: in_set_conv_nth)
  with find_slot_nth[of m n ?xs "\<lambda>q. b = q"] assms(2) len obtain i where
    i: "find_slot (\<lambda>q. b = q) ?xs n = Some (Some i)" "?xs ! i = b" by auto
  have il: "i < n" "i < length ?xs" using find_slot_some[OF i(1)] by auto
  have "b \<notin> set (?xs[i := NULL])"
  proof
    assume "b \<in> set (?xs[i := NULL])"
    then obtain j where "j < length ?xs" "?xs[i := NULL] ! j = b" by (auto simp: in_set_conv_nth)
    then have "j \<noteq> i \<and> ?xs ! j = b" using assms(3) il(2) by (cases "j = i") auto
    then have "j \<noteq> i" "?xs ! j = b" by auto
    with assms(1,3) i(2) il len \<open>j < length ?xs\<close> show False unfolding pool_ok_def by metis
  qed
  moreover have "count_if (\<lambda>p. p \<noteq> NULL) ?xs = Suc (count_if (\<lambda>p. p \<noteq> NULL) (?xs[i := NULL]))"
    using count_if_update[OF il(2), of "\<lambda>p. p \<noteq> NULL" NULL] i(2) assms(3) by simp
  ultimately show thesis using that i il by blast
qed

lemma free_event_spec:
  assumes "cbEventHandler (pCallbacks s) \<noteq> NULL"
  shows "\<exists>t. free_event port s = Some t \<and> pPort t = pPort s \<and> (\<forall>j. port_bufs j t = port_bufs j s) \<and>
     hdr_mem t = hdr_mem s \<and> byte_mem t = byte_mem s \<and> hBufAllocSem t = hBufAllocSem s \<and>
     pCallbacks t = pCallbacks s \<and> nNumPort t = nNumPort s"
  using assms by (simp add: free_event_def SendEvent_def emit_def port_bufs_def)

lemma release_buffer_spec:
  assumes "hdr_mem s b = Some h" and "hBufAllocSem s = Some sm"
    and "eBufferType (pPort s k) = NX_BUFHEADER_TYPE_ALLOCATED \<and> pBuffer h \<noteq> NULL \<longrightarrow> byte_mem s (pBuffer h) \<noteq> None"
  shows "\<exists>t. release_buffer b k i s = Some t \<and>
     (let p = pPort s k; last = (nAllocatedBuf p = 1) in
      pPort t k = p\<lparr>nAllocatedBuf := nAllocatedBuf p - 1, bPopulated := bPopulated p \<and> \<not> last\<rparr> \<and>
      hBufAllocSem t = Some (if last then snd (NX_PostSem sm) else sm)) \<and>
     port_bufs k t = (port_bufs k s)[i := NULL] \<and> hdr_mem t b = None \<and>
     pCallbacks t = pCallbacks s \<and> nNumPort t = nNumPort s"
  using assms by (cases "byte_mem s (pBuffer h)")
    (auto simp: release_buffer_def Let_def upd_port_def post_handle_def port_bufs_def set_port_buf_def)

lemma pool_ok_release:
  assumes "pool_ok k s" "port_bufs k t = (port_bufs k s)[i := NULL]" "i < NX_OMX_MAX_BUF"
    and "unat (nAllocatedBuf (pPort t k)) = count_if (\<lambda>p. p \<noteq> NULL) ((port_bufs k s)[i := NULL])"
  shows "pool_ok k t"
  using assms by (simp add: pool_ok_def nth_list_update)

text \<open>
  C38: Freeing a registered buffer removes exactly that header from the pool, keeps the pool's invariant,
  and with the last one marks the port unpopulated and posts the allocation semaphore. Freeing the
  same header again is refused: nothing is freed twice.
\<close>

theorem free_buffer_releases_once:
  assumes "free_ready port b s" and "pool_ok k s" and "k = port_of port" and "hBufAllocSem s = Some sm"
  shows "\<exists>t. NX_VidDec_FreeBuffer port b s = Some (OMX_ErrorNone, t) \<and> pool_ok k t \<and>
     hdr_mem t b = None \<and> b \<notin> set (port_bufs k t) \<and>
     nAllocatedBuf (pPort t k) = nAllocatedBuf (pPort s k) - 1 \<and>
     (if nAllocatedBuf (pPort t k) = 0
      then \<not> bPopulated (pPort t k) \<and> hBufAllocSem t = Some (snd (NX_PostSem sm))
      else bPopulated (pPort t k) = bPopulated (pPort s k) \<and> hBufAllocSem t = Some sm) \<and>
     map_option fst (NX_VidDec_FreeBuffer port b t) = Some OMX_ErrorInsufficientResources"
proof -
  let ?n = "unat (nBufferCountActual (pPort s k))" and ?xs = "port_bufs k s"
  from assms(1,3) obtain h where r: "unat port < nNumPort s" "cbEventHandler (pCallbacks s) \<noteq> NULL"
    "?n \<le> NX_OMX_MAX_BUF" "b \<noteq> NULL" "b \<in> set (take ?n ?xs)"
    and h: "hdr_mem s b = Some h"
    "eBufferType (pPort s k) = NX_BUFHEADER_TYPE_ALLOCATED \<and> pBuffer h \<noteq> NULL \<longrightarrow> byte_mem s (pBuffer h) \<noteq> None"
    by (auto simp: free_ready_def)
  obtain i where i: "find_slot (\<lambda>q. b = q) ?xs ?n = Some (Some i)" "i < ?n" "b \<notin> set (?xs[i := NULL])"
    "count_if (\<lambda>p. p \<noteq> NULL) ?xs = Suc (count_if (\<lambda>p. p \<noteq> NULL) (?xs[i := NULL]))"
    by (rule free_slot[OF assms(2) r(3-5)])
  obtain s1 where s1: "free_event port s = Some s1" "pPort s1 = pPort s" "port_bufs k s1 = ?xs"
    "hdr_mem s1 = hdr_mem s" "byte_mem s1 = byte_mem s" "hBufAllocSem s1 = Some sm"
    "pCallbacks s1 = pCallbacks s" "nNumPort s1 = nNumPort s"
    using free_event_spec[OF r(2), of port] assms(4) by auto
  obtain t where t: "release_buffer b k i s1 = Some t"
    "pPort t k = (pPort s k)\<lparr>nAllocatedBuf := nAllocatedBuf (pPort s k) - 1,
       bPopulated := bPopulated (pPort s k) \<and> nAllocatedBuf (pPort s k) \<noteq> 1\<rparr>"
    "hBufAllocSem t = Some (if nAllocatedBuf (pPort s k) = 1 then snd (NX_PostSem sm) else sm)"
    "port_bufs k t = ?xs[i := NULL]" "hdr_mem t b = None" "pCallbacks t = pCallbacks s" "nNumPort t = nNumPort s"
    using release_buffer_spec[of s1 b h sm k i] h s1 by (auto simp: Let_def)
  have call: "NX_VidDec_FreeBuffer port b s = Some (OMX_ErrorNone, t)"
    using r(1,4) i(1) s1 t(1) assms(3) by (simp add: NX_VidDec_FreeBuffer_def Let_def)
  have "unat (nAllocatedBuf (pPort s k)) = Suc (count_if (\<lambda>p. p \<noteq> NULL) (?xs[i := NULL]))"
    using assms(2) i(4) by (simp add: pool_ok_def)
  moreover from this have "nAllocatedBuf (pPort s k) \<noteq> 0" by auto
  ultimately have "pool_ok k t"
    using assms(2) t(2,4) i(2) r(3) by (intro pool_ok_release[of k s t i]) (simp_all add: word_dec_unat)
  moreover have again: "map_option fst (NX_VidDec_FreeBuffer port b t) = Some OMX_ErrorInsufficientResources"
  proof -
    obtain t1 where t1: "free_event port t = Some t1" "pPort t1 = pPort t" "port_bufs k t1 = port_bufs k t"
      using free_event_spec[of t port] t(6) r(2) by auto
    have "find_slot (\<lambda>q. b = q) (port_bufs k t1) (unat (nBufferCountActual (pPort t1 k))) = Some None"
      using i(3) t(2,4) t1 r(3) assms(2) by (intro find_slot_absent) (auto simp: pool_ok_def)
    with t1(1) t(7) r(1,4) assms(3) show ?thesis by (simp add: NX_VidDec_FreeBuffer_def Let_def)
  qed
  ultimately show ?thesis using call i(3) t by auto
qed

definition one_buffer_port :: NX_VIDDEC where
  "one_buffer_port = zero_viddec\<lparr>nNumPort := 2, eNewState := OMX_StateLoaded,
     pCallbacks := \<lparr>cbEventHandler = 1, cbEmptyBufferDone = 1, cbFillBufferDone = 1\<rparr>,
     pPort := (\<lambda>i. zero_port\<lparr>nBufferCountActual := 1, nAllocatedBuf := 1, bPopulated := True\<rparr>),
     pInputBuffers := 5 # replicate 31 NULL, hdr_mem := [5 \<mapsto> zero_hdr],
     hBufAllocSem := Some \<lparr>nValue = 0, nMaxValue = 16\<rparr>\<rparr>"

theorem free_buffer_releases_once_witness:
  "\<exists>t. NX_VidDec_FreeBuffer 0 5 one_buffer_port = Some (OMX_ErrorNone, t) \<and> hdr_mem t 5 = None \<and>
     hBufAllocSem t = Some \<lparr>nValue = 1, nMaxValue = 16\<rparr>"
proof -
  have "pool_ok 0 one_buffer_port"
    by (simp add: pool_ok_def one_buffer_port_def port_bufs_def zero_port_def count_if_replicate nth_Cons
        split: nat.split)
  moreover have "free_ready 0 5 one_buffer_port"
    by (simp add: free_ready_def one_buffer_port_def port_of_def port_bufs_def zero_port_def zero_hdr_def)
  ultimately show ?thesis
    using free_buffer_releases_once[of 0 5 one_buffer_port 0 "\<lparr>nValue = 0, nMaxValue = 16\<rparr>"]
    by (auto simp: port_of_def one_buffer_port_def zero_port_def NX_PostSem_def)
qed

section \<open>Handing buffers over\<close>

text \<open>
  \<open>EmptyThisBuffer\<close> in a state that accepts buffers appends the buffer to the input queue and wakes
  the buffer thread, or reports \<open>OMX_ErrorUndefined\<close> and changes nothing when the queue is full; in
  any other state it is refused without effect.
\<close>

theorem empty_this_buffer_queues:
  assumes "queue_inv (pInputPortQueue s)" and "bEnabled (pInputPortQueue s)" and "hBufChangeSem s = Some m"
  shows "\<exists>e t. NX_VidDec_EmptyThisBuffer b s = Some (e, t) \<and>
     (if \<not> accepts_buffers s then e = OMX_ErrorIncorrectStateOperation \<and> t = s
      else if length (queue_list (pInputPortQueue s)) = maxElement (pInputPortQueue s) then e = OMX_ErrorUndefined \<and> t = s
      else e = OMX_ErrorNone \<and> queue_list (pInputPortQueue t) = queue_list (pInputPortQueue s) @ [b] \<and>
        hBufChangeSem t = Some (snd (NX_PostSem m)))"
proof (cases "length (queue_list (pInputPortQueue s)) < maxElement (pInputPortQueue s)")
  case True
  with nxq.push_ok[OF assms(1,2) True, of b] assms(3) show ?thesis
    by (cases "NX_PushQueue (pInputPortQueue s) b") (simp add: NX_VidDec_EmptyThisBuffer_def post_handle_def)
next
  case False
  with nxq.push_fail[OF assms(1), of b] nxq.bounded[OF assms(1)] show ?thesis
    by (simp add: NX_VidDec_EmptyThisBuffer_def)
qed

definition idle_viddec :: NX_VIDDEC where
  "idle_viddec = zero_viddec\<lparr>nNumPort := 2, eCurState := OMX_StateIdle, eNewState := OMX_StateIdle,
     pCallbacks := \<lparr>cbEventHandler = 1, cbEmptyBufferDone = 1, cbFillBufferDone = 1\<rparr>,
     pBufQueue := (\<lambda>_. snd (NX_InitQueue 0 32)), hBufChangeSem := Some \<lparr>nValue = 0, nMaxValue = 2048\<rparr>\<rparr>"

theorem empty_this_buffer_queues_witness:
  "\<exists>t. NX_VidDec_EmptyThisBuffer 7 idle_viddec = Some (OMX_ErrorNone, t) \<and> queue_list (pInputPortQueue t) = [7]"
proof -
  have i: "pInputPortQueue idle_viddec = snd (NX_InitQueue 0 32)" "accepts_buffers idle_viddec"
    "hBufChangeSem idle_viddec = Some \<lparr>nValue = 0, nMaxValue = 2048\<rparr>"
    by (simp_all add: idle_viddec_def accepts_buffers_def)
  have q: "queue_inv (snd (NX_InitQueue 0 32))" "queue_list (snd (NX_InitQueue 0 32)) = []"
    "bEnabled (snd (NX_InitQueue 0 32))" "maxElement (snd (NX_InitQueue 0 32)) = 32"
    by (simp_all add: init_queue_inv init_queue_list) (simp_all add: NX_InitQueue_def)
  show ?thesis
    using empty_this_buffer_queues[of idle_viddec "\<lparr>nValue = 0, nMaxValue = 2048\<rparr>" 7] i q by auto
qed

text \<open>
  The state test lets a buffer through while the component moves from Loaded to Idle, when the buffer
  thread and its semaphore do not exist yet: \<open>EmptyThisBuffer\<close> and \<open>FillThisBuffer\<close> then run into the
  assertion of \<open>NX_PostSem\<close>. The same holds after a state command that the component rejected, since
  the requested state stays recorded.
\<close>

theorem buffers_before_buffer_thread_abort:
  assumes "eCurState s = OMX_StateLoaded" and "eNewState s \<noteq> OMX_StateLoaded" and "hBufChangeSem s = None"
    and "fst (NX_PushQueue (pInputPortQueue s) b) = 0"
  shows "NX_VidDec_EmptyThisBuffer b s = None \<and> NX_VidDec_FillThisBuffer b s = None"
proof -
  have "accepts_buffers s" using assms(1,2) by (auto simp: accepts_buffers_def)
  moreover have "hBufChangeSem (fold (fill_slot b) is s) = None" for "is"
    using assms(3) by (induction "is" arbitrary: s) (auto simp: fill_slot_def emit_def)
  ultimately show ?thesis
    using assms(3,4)
    by (auto simp: NX_VidDec_EmptyThisBuffer_def NX_VidDec_FillThisBuffer_def post_handle_def split: prod.splits)
qed

theorem buffers_before_buffer_thread_abort_witness:
  "NX_VidDec_EmptyThisBuffer 7 (idle_viddec\<lparr>eCurState := OMX_StateLoaded, hBufChangeSem := None\<rparr>) = None"
  using buffers_before_buffer_thread_abort[of "idle_viddec\<lparr>eCurState := OMX_StateLoaded, hBufChangeSem := None\<rparr>" 7]
  by (simp add: idle_viddec_def NX_InitQueue_def zero_queue_def NX_PushQueue_def)

text \<open>The pool of output buffers in native window mode: the counter agrees with the use flags.\<close>

definition out_pool :: "NX_VIDDEC \<Rightarrow> bool" where
  "out_pool s \<longleftrightarrow> length (pOutputBuffers s) = NX_OMX_MAX_BUF \<and> length (outBufferUseFlag s) = NX_OMX_MAX_BUF \<and>
     curOutBuffers s = int (count_if id (outBufferUseFlag s))"

lemma fold_fill_absent:
  "\<forall>i\<in>set is. \<not> (i < length (pOutputBuffers s) \<and> pOutputBuffers s ! i = b) \<Longrightarrow> fold (fill_slot b) is s = s"
  by (induction "is") (auto simp: fill_slot_def)

lemma fold_fill_unique:
  assumes "i < NX_OMX_MAX_BUF" "length (pOutputBuffers s) = NX_OMX_MAX_BUF" "pOutputBuffers s ! i = b"
    and "\<forall>j<NX_OMX_MAX_BUF. j \<noteq> i \<longrightarrow> pOutputBuffers s ! j \<noteq> b"
  shows "fold (fill_slot b) [0..<NX_OMX_MAX_BUF] s = (emit (VpuClrDspFlag (hVpuCodec s) (int i)) s)
     \<lparr>outBufferUseFlag := (outBufferUseFlag s)[i := True], curOutBuffers := curOutBuffers s + 1\<rparr>"
proof -
  let ?t = "(emit (VpuClrDspFlag (hVpuCodec s) (int i)) s)
     \<lparr>outBufferUseFlag := (outBufferUseFlag s)[i := True], curOutBuffers := curOutBuffers s + 1\<rparr>"
  have split: "[0..<NX_OMX_MAX_BUF] = [0..<i] @ i # [Suc i..<NX_OMX_MAX_BUF]"
    using assms(1) by (rule upt_split_at)
  have "fold (fill_slot b) [0..<i] s = s"
    using assms by (intro fold_fill_absent) auto
  moreover have "fill_slot b i s = ?t"
    using assms by (simp add: fill_slot_def)
  moreover have "fold (fill_slot b) [Suc i..<NX_OMX_MAX_BUF] ?t = ?t"
    using assms by (intro fold_fill_absent) (auto simp: emit_def)
  ultimately show ?thesis by (simp only: split fold_append fold.simps comp_def id_def)
qed

text \<open>
  \<open>FillThisBuffer\<close> in native window mode, for a buffer of the pool that the component does not hold:
  its use flag is set, its picture is released to the decoder, the count of available buffers grows by
  one and stays equal to the number of flags, and the buffer thread is woken.
\<close>

theorem fill_this_buffer_returns_to_pool:
  assumes "accepts_buffers s" and "\<not> bEnableThumbNailMode s" and "out_pool s" and "i < NX_OMX_MAX_BUF"
    and "pOutputBuffers s ! i = b" and "\<forall>j<NX_OMX_MAX_BUF. j \<noteq> i \<longrightarrow> pOutputBuffers s ! j \<noteq> b"
    and "\<not> outBufferUseFlag s ! i" and "hBufChangeSem s = Some m"
  shows "\<exists>t. NX_VidDec_FillThisBuffer b s = Some (OMX_ErrorNone, t) \<and> out_pool t \<and>
     outBufferUseFlag t = (outBufferUseFlag s)[i := True] \<and> curOutBuffers t = curOutBuffers s + 1 \<and>
     trace t = trace s @ [VpuClrDspFlag (hVpuCodec s) (int i)] \<and> hBufChangeSem t = Some (snd (NX_PostSem m))"
proof -
  have "count_if id ((outBufferUseFlag s)[i := True]) = Suc (count_if id (outBufferUseFlag s))"
    using count_if_update[of i "outBufferUseFlag s" id True] assms(3,4,7) by (simp add: out_pool_def)
  with fold_fill_unique[OF assms(4) _ assms(5,6)] assms show ?thesis
    by (simp add: NX_VidDec_FillThisBuffer_def out_pool_def post_handle_def emit_def)
qed

definition native_viddec :: NX_VIDDEC where
  "native_viddec = idle_viddec\<lparr>bUseNativeBuffer := True, pOutputBuffers := [11, 12] @ replicate 30 NULL\<rparr>"

lemma native_viddec_pool: "out_pool native_viddec" "accepts_buffers native_viddec"
  "\<not> bEnableThumbNailMode native_viddec" "hBufChangeSem native_viddec = Some \<lparr>nValue = 0, nMaxValue = 2048\<rparr>"
  "\<not> outBufferUseFlag native_viddec ! 1"
  by (simp_all add: native_viddec_def idle_viddec_def zero_viddec_def out_pool_def count_if_replicate accepts_buffers_def)

lemma native_viddec_unique: "j < NX_OMX_MAX_BUF \<Longrightarrow> j \<noteq> 1 \<Longrightarrow> pOutputBuffers native_viddec ! j \<noteq> 12"
  "pOutputBuffers native_viddec ! 1 = 12"
  by (auto simp: native_viddec_def nth_Cons split: nat.splits)

theorem fill_this_buffer_returns_to_pool_witness:
  "\<exists>t. NX_VidDec_FillThisBuffer 12 native_viddec = Some (OMX_ErrorNone, t) \<and> out_pool t \<and>
     curOutBuffers t = curOutBuffers native_viddec + 1"
  using fill_this_buffer_returns_to_pool[of native_viddec 1 12] native_viddec_pool native_viddec_unique by auto

text \<open>
  The guards of the native mode are ineffective: a buffer that is not in the pool is accepted
  silently (\<open>foundBuffer\<close> is initialised to 1, so it is neither kept nor returned), and a buffer that
  the component already holds is counted again, after which the count of available buffers exceeds
  the number of buffers.
\<close>

theorem fill_this_buffer_unknown_and_duplicate:
  assumes "accepts_buffers s" and "\<not> bEnableThumbNailMode s" and "hBufChangeSem s = Some m" and "out_pool s"
  shows "(b \<notin> set (pOutputBuffers s) \<longrightarrow>
      NX_VidDec_FillThisBuffer b s = Some (OMX_ErrorNone, s\<lparr>hBufChangeSem := Some (snd (NX_PostSem m))\<rparr>)) \<and>
    (i < NX_OMX_MAX_BUF \<and> pOutputBuffers s ! i = b \<and> (\<forall>j<NX_OMX_MAX_BUF. j \<noteq> i \<longrightarrow> pOutputBuffers s ! j \<noteq> b) \<and>
       outBufferUseFlag s ! i \<longrightarrow>
      (\<exists>t. NX_VidDec_FillThisBuffer b s = Some (OMX_ErrorNone, t) \<and> outBufferUseFlag t = outBufferUseFlag s \<and>
        curOutBuffers t = int (count_if id (outBufferUseFlag t)) + 1))"
proof (intro conjI impI)
  assume "b \<notin> set (pOutputBuffers s)"
  then have "fold (fill_slot b) [0..<NX_OMX_MAX_BUF] s = s" by (intro fold_fill_absent) auto
  with assms show "NX_VidDec_FillThisBuffer b s = Some (OMX_ErrorNone, s\<lparr>hBufChangeSem := Some (snd (NX_PostSem m))\<rparr>)"
    by (simp add: NX_VidDec_FillThisBuffer_def post_handle_def)
next
  assume i: "i < NX_OMX_MAX_BUF \<and> pOutputBuffers s ! i = b \<and>
    (\<forall>j<NX_OMX_MAX_BUF. j \<noteq> i \<longrightarrow> pOutputBuffers s ! j \<noteq> b) \<and> outBufferUseFlag s ! i"
  then have "(outBufferUseFlag s)[i := True] = outBufferUseFlag s"
    by (metis list_update_id)
  with i fold_fill_unique[of i s b] assms show "\<exists>t. NX_VidDec_FillThisBuffer b s = Some (OMX_ErrorNone, t) \<and>
      outBufferUseFlag t = outBufferUseFlag s \<and> curOutBuffers t = int (count_if id (outBufferUseFlag t)) + 1"
    by (simp add: NX_VidDec_FillThisBuffer_def out_pool_def post_handle_def emit_def)
qed

theorem fill_this_buffer_unknown_and_duplicate_witness:
  "NX_VidDec_FillThisBuffer 99 native_viddec =
     Some (OMX_ErrorNone, native_viddec\<lparr>hBufChangeSem := Some (snd (NX_PostSem \<lparr>nValue = 0, nMaxValue = 2048\<rparr>))\<rparr>)"
proof -
  have "99 \<notin> set (pOutputBuffers native_viddec)" by (simp add: native_viddec_def)
  with fill_this_buffer_unknown_and_duplicate[OF native_viddec_pool(2-4,1), of 99 0] show ?thesis by blast
qed

end
