(* ===== verification/VidDecUtil.thy ===== *)
theory VidDecUtil
  imports OmxIo "HOL-Library.Signed_Division"
begin

text \<open>
  \<open>NX_DecoderUtil.c\<close> and the stream builders of the codec files: the profile and level tables, the
  copy of a decoded picture into a client buffer, and the packet headers that the decoder hardware
  expects in front of DivX 3, VC-1, RealVideo and VP8 data. Byte buffers are lists; a read or write
  outside is \<open>None\<close>.
\<close>

section \<open>Profile and level tables\<close>

text \<open>The enumerators of \<open>OMX_Video.h\<close>: most are single bits, not consecutive numbers.\<close>

definition gstDecSupportedAVCProfiles :: "OMX_U32 list" where
  "gstDecSupportedAVCProfiles = [0x01, 0x02, 0x08]"

definition gstDecSupportedAVCLevels :: "OMX_U32 list" where
  "gstDecSupportedAVCLevels = [0x01, 0x02, 0x04, 0x08, 0x10, 0x20, 0x40, 0x80, 0x100, 0x200, 0x400, 0x800,
     0x1000, 0x2000]"

definition gstDecSupportedMPEG4Profiles :: "OMX_U32 list" where
  "gstDecSupportedMPEG4Profiles = [0x01, 0x8000]"

definition gstDecSupportedMPEG4Levels :: "OMX_U32 list" where
  "gstDecSupportedMPEG4Levels = [0x01, 0x02, 0x04, 0x08, 0x10, 0x20, 0x40, 0x80]"

definition gstDecSupportedMPEG2Profiles :: "OMX_U32 list" where
  "gstDecSupportedMPEG2Profiles = [0, 1, 5]"

definition gstDecSupportedMPEG2Levels :: "OMX_U32 list" where
  "gstDecSupportedMPEG2Levels = [0, 1, 3]"

definition gstDecSupportedH263Profiles :: "OMX_U32 list" where
  "gstDecSupportedH263Profiles = [0x01, 0x08]"

definition gstDecSupportedH263Levels :: "OMX_U32 list" where
  "gstDecSupportedH263Levels = [0x01, 0x02, 0x04, 0x08, 0x10, 0x20, 0x40, 0x80]"

text \<open>
  \<open>MBs\<close> on 32-bit signed operands; the floating-point quotient is taken exactly and truncated, and
  a division by zero macroblocks is undefined (an infinity converted to \<open>int\<close>).
\<close>

definition mb_count :: "OMX_S32 \<Rightarrow> OMX_S32 \<Rightarrow> OMX_S32" where
  "mb_count w h = signed_drop_bit 4 (w + 15) * signed_drop_bit 4 (h + 15)"

definition AVCFindMinimumBufferSize :: "OMX_U32 \<Rightarrow> OMX_S32 \<Rightarrow> OMX_S32 \<Rightarrow> int option" where
  "AVCFindMinimumBufferSize level w h =
     (if level < 0x01 \<or> level > 0x2000 then Some (-1)
      else if unat level \<ge> length gstDecSupportedAVCLevels then None
      else
        (let MBs = sint (mb_count w h); MaxDPB = uint (gstDecSupportedAVCLevels ! unat level) in
         if MBs = 0 then None
         else
           (let buffers = (1024 * MaxDPB * 10000 + 9999 * (MBs * 384)) sdiv (MBs * 384 * 10000)
            in Some (if buffers > 16 then 16 else buffers))))"

section \<open>Memory copies\<close>

fun copy_rows :: "nat \<Rightarrow> nat \<Rightarrow> nat \<Rightarrow> OMX_U8 list \<Rightarrow> nat \<Rightarrow> OMX_U8 list \<times> nat \<Rightarrow> (OMX_U8 list \<times> nat) option" where
  "copy_rows 0 step w src off d = Some d"
| "copy_rows (Suc n) step w src off (dst, doff) = do {
     bs \<leftarrow> rd src off w;
     dst \<leftarrow> wr dst doff bs;
     copy_rows n step w src (off + step) (dst, doff + w) }"

text \<open>
  \<open>copy_rows n step w src off (dst, doff)\<close> is a row loop whose source pointer advances by \<open>step\<close>. In
  the two chroma loops the code advances \<open>srcY\<close>, so \<open>srcU\<close> and \<open>srcV\<close> stay at their first row.
\<close>

definition copy_block :: "nat \<Rightarrow> OMX_U8 list \<Rightarrow> OMX_U8 list \<times> nat \<Rightarrow> (OMX_U8 list \<times> nat) option" where
  "copy_block n src d = do { bs \<leftarrow> rd src 0 n; dst \<leftarrow> wr (fst d) (snd d) bs; Some (dst, snd d + n) }"

definition CopySurfaceToBufferYV12 ::
  "OMX_U8 list \<Rightarrow> OMX_U8 list \<Rightarrow> OMX_U8 list \<Rightarrow> OMX_U8 list \<Rightarrow> OMX_U32 \<Rightarrow> OMX_U32 \<Rightarrow> OMX_U32 \<Rightarrow> OMX_U32 \<Rightarrow>
   OMX_U8 list option" where
  "CopySurfaceToBufferYV12 srcY srcU srcV dst strideY strideUV w h = do {
     d \<leftarrow> (if w = strideY then copy_block (unat (w * h)) srcY (dst, 0)
          else copy_rows (unat h) (unat strideY) (unat w) srcY 0 (dst, 0));
     let w = w div 2;
     let h = h div 2;
     d \<leftarrow> (if w = strideUV then do {
              d \<leftarrow> copy_block (unat (w * h)) srcU d;
              copy_block (unat (w * h)) srcV d }
          else do {
              d \<leftarrow> copy_rows (unat h) 0 (unat w) srcU 0 d;
              copy_rows (unat h) 0 (unat w) srcV 0 d });
     Some (fst d) }"

section \<open>Stream headers\<close>

definition MKTAG :: "char \<Rightarrow> char \<Rightarrow> char \<Rightarrow> char \<Rightarrow> OMX_U32" where
  "MKTAG a b c d = of_char a OR push_bit 8 (of_char b) OR push_bit 16 (of_char c) OR push_bit 24 (of_char d)"

definition PUT_LE32 :: "OMX_U32 \<Rightarrow> OMX_U8 list" where
  "PUT_LE32 v = [ucast v, ucast (drop_bit 8 v), ucast (drop_bit 16 v), ucast (drop_bit 24 v)]"

definition PUT_BE32 :: "OMX_U32 \<Rightarrow> OMX_U8 list" where
  "PUT_BE32 v = [ucast (drop_bit 24 v), ucast (drop_bit 16 v), ucast (drop_bit 8 v), ucast v]"

definition PUT_LE16 :: "OMX_U32 \<Rightarrow> OMX_U8 list" where
  "PUT_LE16 v = [ucast v, ucast (drop_bit 8 v)]"

definition PUT_BE16 :: "OMX_U32 \<Rightarrow> OMX_U8 list" where
  "PUT_BE16 v = [ucast (drop_bit 8 v), ucast v]"

text \<open>
  The builders return the bytes they write from \<open>pOut\<close> on, and their return value is the length of
  that list. \<open>extra\<close> and \<open>n\<close> are \<open>pExtraData\<close> and \<open>nExtraDataSize\<close>.
\<close>

definition MakeDiv3DecodeSpecificInfo ::
  "OMX_S32 \<Rightarrow> OMX_S32 \<Rightarrow> OMX_U8 list option \<Rightarrow> int \<Rightarrow> OMX_U8 list option" where
  "MakeDiv3DecodeSpecificInfo w h extra n =
     (if n = 0 then
        Some (PUT_LE32 (MKTAG (CHR ''C'') (CHR ''N'') (CHR ''M'') (CHR ''V'')) @ PUT_LE16 0 @ PUT_LE16 0x20 @
          PUT_LE32 (MKTAG (CHR ''D'') (CHR ''I'') (CHR ''V'') (CHR ''3'')) @ PUT_LE16 w @ PUT_LE16 h @
          PUT_LE32 0 @ PUT_LE32 0 @ PUT_LE32 1 @ PUT_LE32 0)
      else do { bs \<leftarrow> rd_block extra n; Some (PUT_BE32 (word_of_int n) @ bs) })"

definition MakeDiv3Stream :: "OMX_U8 list option \<Rightarrow> int \<Rightarrow> OMX_U8 list option" where
  "MakeDiv3Stream pIn inSize = do {
     bs \<leftarrow> rd_block pIn inSize;
     Some (PUT_LE32 (word_of_int inSize) @ PUT_LE32 0 @ PUT_LE32 0 @ bs) }"

definition MakeVP8DecoderSpecificInfo :: "OMX_S32 \<Rightarrow> OMX_S32 \<Rightarrow> OMX_U8 list" where
  "MakeVP8DecoderSpecificInfo w h =
     PUT_LE32 (MKTAG (CHR ''D'') (CHR ''K'') (CHR ''I'') (CHR ''F'')) @ PUT_LE16 0 @ PUT_LE16 0x20 @
     PUT_LE32 (MKTAG (CHR ''V'') (CHR ''P'') (CHR ''8'') (CHR ''0'')) @ PUT_LE16 w @ PUT_LE16 h @
     PUT_LE32 0 @ PUT_LE32 0 @ PUT_LE32 1 @ PUT_LE32 0"

definition MakeVP8Stream :: "OMX_U8 list option \<Rightarrow> int \<Rightarrow> OMX_U8 list option" where
  "MakeVP8Stream pIn inSize = do {
     bs \<leftarrow> rd_block pIn inSize;
     Some (PUT_LE32 (word_of_int inSize) @ PUT_LE32 0 @ PUT_LE32 0 @ bs) }"

text \<open>\<open>wmv\<close>: the format is WMV 8 or 9, or \<open>bXMSWMVType\<close> is set.\<close>

definition MakeVC1DecodeSpecificInfo ::
  "bool \<Rightarrow> OMX_S32 \<Rightarrow> OMX_S32 \<Rightarrow> OMX_U8 list option \<Rightarrow> int \<Rightarrow> OMX_U8 list option" where
  "MakeVC1DecodeSpecificInfo wmv w h extra n = do {
     bs \<leftarrow> rd_block extra n;
     Some (if wmv then
         PUT_LE32 (push_bit 24 0xC5) @ PUT_LE32 (word_of_int n) @ bs @ PUT_LE32 h @ PUT_LE32 w @
         PUT_LE32 12 @ PUT_LE32 (push_bit 29 2 OR push_bit 28 1 OR push_bit 24 0x80 OR 1) @
         PUT_LE32 0 @ PUT_LE32 0
       else bs) }"

definition MakeVC1PacketData :: "bool \<Rightarrow> OMX_U8 list option \<Rightarrow> int \<Rightarrow> bool \<Rightarrow> OMX_U8 list option" where
  "MakeVC1PacketData wmv pIn inSize key =
     (if wmv then do {
        bs \<leftarrow> rd_block pIn inSize;
        Some (PUT_LE32 (word_of_int inSize OR (if key then 0x80000000 else 0)) @ PUT_LE32 0 @ bs) }
      else do {
        p \<leftarrow> pIn;
        p0 \<leftarrow> rd p 0 1;
        no_code \<leftarrow> (if p0 \<noteq> [0] then Some True
                   else do { p1 \<leftarrow> rd p 1 1;
                     if p1 \<noteq> [0] then Some True
                     else do { p2 \<leftarrow> rd p 2 1; Some (p2 \<noteq> [1]) } });
        bs \<leftarrow> rd_block pIn inSize;
        Some (if no_code then [0x00, 0x00, 0x01, 0x0D] @ bs else bs) })"

definition MakeRVDecodeSpecificInfo ::
  "OMX_S32 \<Rightarrow> OMX_S32 \<Rightarrow> OMX_U8 list option \<Rightarrow> int \<Rightarrow> OMX_U8 list option" where
  "MakeRVDecodeSpecificInfo w h extra n = do {
     bs \<leftarrow> rd_block extra n;
     Some (PUT_BE32 (word_of_int (26 + n)) @
       PUT_LE32 (MKTAG (CHR ''V'') (CHR ''I'') (CHR ''D'') (CHR ''O'')) @
       PUT_LE32 (MKTAG (CHR ''R'') (CHR ''V'') (CHR ''4'') (CHR ''0'')) @
       PUT_BE16 w @ PUT_BE16 h @ PUT_BE16 0x0c @ PUT_BE16 0 @ PUT_BE16 0 @ PUT_LE32 30 @ bs) }"

text \<open>The slice table: \<open>val\<close> is read little-endian and written big-endian, two words per slice.\<close>

fun rv_slices :: "nat \<Rightarrow> OMX_U8 list \<Rightarrow> nat \<Rightarrow> OMX_U8 list option" where
  "rv_slices 0 p off = Some []"
| "rv_slices (Suc n) p off = do {
     v \<leftarrow> get_le32 p off;
     u \<leftarrow> get_le32 p (off + 4);
     rest \<leftarrow> rv_slices n p (off + 8);
     Some (PUT_BE32 v @ PUT_BE32 u @ rest) }"

definition MakeRVPacketData :: "OMX_U8 list option \<Rightarrow> int \<Rightarrow> OMX_U8 list option" where
  "MakeRVPacketData pIn inSize = do {
     p \<leftarrow> pIn;
     p0 \<leftarrow> rd p 0 1;
     let cSlice = unat (hd p0) + 1;
     let nSlice = inSize - 1 - int (cSlice * 8);
     tab \<leftarrow> rv_slices cSlice p 1;
     bs \<leftarrow> (if nSlice < 0 then None else rd p (1 + cSlice * 8) (nat nSlice));
     Some (PUT_BE32 (word_of_int nSlice) @ PUT_LE32 0 @ PUT_BE16 0 @ PUT_BE16 0x02 @ PUT_BE32 0 @
       PUT_BE32 (of_nat cSlice) @ tab @ bs) }"

section \<open>What the copy does\<close>

text \<open>\<open>n\<close> rows of \<open>w\<close> bytes, \<open>step\<close> bytes apart.\<close>

definition plane :: "nat \<Rightarrow> nat \<Rightarrow> nat \<Rightarrow> OMX_U8 list \<Rightarrow> OMX_U8 list" where
  "plane n step w src = concat (map (\<lambda>r. take w (drop (r * step) src)) [0..<n])"

definition plane_readable :: "nat \<Rightarrow> nat \<Rightarrow> nat \<Rightarrow> OMX_U8 list \<Rightarrow> bool" where
  "plane_readable n step w src \<longleftrightarrow> (0 < n \<longrightarrow> (n - 1) * step + w \<le> length src)"

lemma plane_Suc: "plane (Suc n) step w src = take w src @ plane n step w (drop step src)"
proof -
  have "[0..<Suc n] = 0 # map Suc [0..<n]" by (simp add: upt_conv_Cons map_Suc_upt del: upt_Suc)
  then show ?thesis by (simp add: plane_def o_def add.commute del: upt_Suc)
qed

lemma plane_0 [simp]: "plane 0 step w src = []"
  by (simp add: plane_def)

lemma plane_same_row: "plane n 0 w src = concat (replicate n (take w src))"
  by (simp add: plane_def map_replicate_const)

lemma plane_tight: "n * w \<le> length src \<Longrightarrow> plane n w w src = take (n * w) src"
proof (induction n arbitrary: src)
  case (Suc n)
  then show ?case by (simp add: plane_Suc take_add)
qed simp

lemma length_plane: "plane_readable n step w src \<Longrightarrow> length (plane n step w src) = n * w"
proof (induction n arbitrary: src)
  case (Suc n)
  have "plane_readable n step w (drop step src)" "w \<le> length src"
    using Suc.prems by (cases n; auto simp: plane_readable_def)+
  with Suc.IH show ?case by (simp add: plane_Suc)
qed simp

lemma copy_rows_plane:
  assumes "off \<le> length src" "plane_readable n step w (drop off src)" "doff + n * w \<le> length dst"
  shows "copy_rows n step w src off (dst, doff) =
     Some (take doff dst @ plane n step w (drop off src) @ drop (doff + n * w) dst, doff + n * w)"
  using assms
proof (induction n arbitrary: off dst doff)
  case 0
  then show ?case by simp
next
  case (Suc n)
  let ?row = "take w (drop off src)"
  let ?dst = "take doff dst @ ?row @ drop (doff + w) dst"
  have w: "off + w \<le> length src" "off + (n * step + w) \<le> length src"
    using Suc.prems by (auto simp: plane_readable_def)
  have first: "rd src off w = Some ?row" "wr dst doff ?row = Some ?dst"
    using w Suc.prems(3) by (auto simp: rd_def wr_def)
  show ?case
  proof (cases n)
    case 0
    with first w Suc.prems show ?thesis by (simp add: plane_Suc)
  next
    case (Suc m)
    have "copy_rows n step w src (off + step) (?dst, doff + w) =
        Some (take (doff + w) ?dst @ plane n step w (drop (off + step) src) @
          drop (doff + w + n * w) ?dst, doff + w + n * w)"
      using w Suc.prems Suc by (intro Suc.IH) (auto simp: plane_readable_def algebra_simps)
    moreover have "length ?row = w" "length (take doff dst) = doff" using w Suc.prems(3) by auto
    then have "take (doff + w) ?dst = take doff dst @ ?row" "drop (doff + w + n * w) ?dst = drop (doff + w + n * w) dst"
      by (simp_all add: add.commute)
    ultimately show ?thesis
      using first by (simp add: plane_Suc algebra_simps)
  qed
qed

lemma copy_block_append:
  assumes "n \<le> length src" "n \<le> length d2"
  shows "copy_block n src (d1 @ d2, length d1) = Some (d1 @ take n src @ drop n d2, length d1 + n)"
  using assms by (simp add: copy_block_def rd_def wr_def)

lemma copy_rows_append:
  assumes "plane_readable n step w src" "n * w \<le> length d2"
  shows "copy_rows n step w src 0 (d1 @ d2, length d1) =
     Some (d1 @ plane n step w src @ drop (n * w) d2, length d1 + n * w)"
  using copy_rows_plane[of 0 src n step w "length d1" "d1 @ d2"] assms by simp

lemma unat_mult_lt: "unat w * unat h < 2 ^ 32 \<Longrightarrow> unat (w * h :: OMX_U32) = unat h * unat w"
  by (simp add: unat_word_ariths mult.commute)

text \<open>The chroma planes as the code copies them: \<open>n\<close> rows of \<open>w\<close> bytes with the stride \<open>step\<close>.\<close>

definition chroma_copied :: "nat \<Rightarrow> nat \<Rightarrow> nat \<Rightarrow> OMX_U8 list \<Rightarrow> OMX_U8 list" where
  "chroma_copied n step w src = (if w = step then take (n * w) src else concat (replicate n (take w src)))"

lemma copy_surface:
  assumes "unat w * unat h < 2 ^ 32"
    and "plane_readable (unat h) (unat strideY) (unat w) srcY"
    and "plane_readable (unat (h div 2)) (unat strideUV) (unat (w div 2)) srcU"
    and "plane_readable (unat (h div 2)) (unat strideUV) (unat (w div 2)) srcV"
    and "unat h * unat w + 2 * (unat (h div 2) * unat (w div 2)) \<le> length dst"
  shows "CopySurfaceToBufferYV12 srcY srcU srcV dst strideY strideUV w h =
    Some (plane (unat h) (unat strideY) (unat w) srcY @
      chroma_copied (unat (h div 2)) (unat strideUV) (unat (w div 2)) srcU @
      chroma_copied (unat (h div 2)) (unat strideUV) (unat (w div 2)) srcV @
      drop (unat h * unat w + 2 * (unat (h div 2) * unat (w div 2))) dst)"
proof -
  let ?H = "unat h" and ?W = "unat w" and ?h = "unat (h div 2)" and ?w = "unat (w div 2)"
  have le: "?w \<le> ?W" "?h \<le> ?H" by (simp_all add: unat_div)
  have m: "unat (w * h) = ?H * ?W" using assms(1) by (rule unat_mult_lt)
  have "?w * ?h \<le> ?W * ?H" using le by (rule mult_le_mono)
  then have m2: "unat ((w div 2) * (h div 2)) = ?h * ?w"
    using assms(1) by (intro unat_mult_lt) simp
  have lenY: "length (plane ?H (unat strideY) ?W srcY) = ?H * ?W" using assms(2) by (rule length_plane)
  let ?Y = "plane ?H (unat strideY) ?W srcY" and ?U = "chroma_copied ?h (unat strideUV) ?w srcU"
  let ?V = "chroma_copied ?h (unat strideUV) ?w srcV"
  have Y: "(if w = strideY then copy_block (unat (w * h)) srcY (dst, 0)
      else copy_rows ?H (unat strideY) ?W srcY 0 (dst, 0)) = Some (?Y @ drop (?H * ?W) dst, length ?Y)"
  proof (cases "w = strideY")
    case True
    then have r: "?H * ?W \<le> length srcY"
      using assms(2) by (cases "unat h") (auto simp: plane_readable_def)
    with True copy_block_append[of "?H * ?W" srcY dst "[]"] assms(5) m lenY show ?thesis
      by (simp add: plane_tight)
  next
    case False
    with copy_rows_append[of ?H "unat strideY" ?W srcY dst "[]"] assms(2,5) lenY show ?thesis by simp
  qed
  have tight: "plane_readable ?h (unat strideUV) ?w src \<Longrightarrow> w div 2 = strideUV \<Longrightarrow> ?h * ?w \<le> length src" for src
    by (cases ?h) (auto simp: plane_readable_def)
  have row0: "plane_readable ?h (unat strideUV) ?w src \<Longrightarrow> plane_readable ?h 0 ?w src" for src
    by (auto simp: plane_readable_def)
  have U: "(if w div 2 = strideUV then copy_block (?h * ?w) src (d1 @ d2, length d1)
      else copy_rows ?h 0 ?w src 0 (d1 @ d2, length d1)) =
      Some (d1 @ chroma_copied ?h (unat strideUV) ?w src @ drop (?h * ?w) d2, length d1 + ?h * ?w)"
    if "plane_readable ?h (unat strideUV) ?w src" "?h * ?w \<le> length d2" for src d1 d2
    using copy_block_append[of "?h * ?w" src d2 d1] copy_rows_append[of ?h 0 ?w src d2 d1]
      tight[of src] row0[of src] that
    by (auto simp: chroma_copied_def plane_same_row word_unat_eq_iff)
  have lenC: "length (chroma_copied ?h (unat strideUV) ?w src) = ?h * ?w"
    if "plane_readable ?h (unat strideUV) ?w src" for src
    using tight[OF that] length_plane[OF row0[OF that]]
    by (auto simp: chroma_copied_def plane_same_row word_unat_eq_iff)
  have room: "?h * ?w \<le> length (drop (?H * ?W) dst)"
    "?h * ?w \<le> length (drop (?h * ?w) (drop (?H * ?W) dst))"
    using assms(5) by auto
  note U1 = U[OF assms(3) room(1), of ?Y]
  have V1: "(if w div 2 = strideUV
      then copy_block (?h * ?w) srcV (?Y @ ?U @ drop (?h * ?w) (drop (?H * ?W) dst), length ?Y + ?h * ?w)
      else copy_rows ?h 0 ?w srcV 0 (?Y @ ?U @ drop (?h * ?w) (drop (?H * ?W) dst), length ?Y + ?h * ?w)) =
      Some ((?Y @ ?U) @ ?V @ drop (?h * ?w) (drop (?h * ?w) (drop (?H * ?W) dst)), length (?Y @ ?U) + ?h * ?w)"
    using U[OF assms(4) room(2), of "?Y @ ?U"] by (simp only: append_assoc length_append lenC[OF assms(3)])
  have total: "drop (?h * ?w) (drop (?h * ?w) (drop (?H * ?W) dst)) = drop (?H * ?W + 2 * (?h * ?w)) dst"
    by (simp add: algebra_simps mult_2)
  have chroma: "(if w div 2 = strideUV then do {
         d \<leftarrow> copy_block (?h * ?w) srcU d; copy_block (?h * ?w) srcV d }
       else do { d \<leftarrow> copy_rows ?h 0 ?w srcU 0 d; copy_rows ?h 0 ?w srcV 0 d }) =
     do { d \<leftarrow> (if w div 2 = strideUV then copy_block (?h * ?w) srcU d else copy_rows ?h 0 ?w srcU 0 d);
          (if w div 2 = strideUV then copy_block (?h * ?w) srcV d else copy_rows ?h 0 ?w srcV 0 d) }" for d
    by simp
  show ?thesis
    unfolding CopySurfaceToBufferYV12_def Let_def Y m2 bind.bind_lunit option.simps chroma U1 V1 total
    by simp
qed

section \<open>Properties\<close>

text \<open>
  Copying a decoded picture whose chroma planes are tightly packed yields the three planes one after
  the other, without the padding of the luma rows, and leaves the rest of the buffer alone.
\<close>

theorem copy_surface_packs_planes:
  assumes "unat w * unat h < 2 ^ 32" and "strideUV = w div 2"
    and "plane_readable (unat h) (unat strideY) (unat w) srcY"
    and "unat (h div 2) * unat (w div 2) \<le> length srcU"
    and "unat (h div 2) * unat (w div 2) \<le> length srcV"
    and "unat h * unat w + 2 * (unat (h div 2) * unat (w div 2)) \<le> length dst"
  shows "CopySurfaceToBufferYV12 srcY srcU srcV dst strideY strideUV w h =
    Some (plane (unat h) (unat strideY) (unat w) srcY @
      take (unat (h div 2) * unat (w div 2)) srcU @ take (unat (h div 2) * unat (w div 2)) srcV @
      drop (unat h * unat w + 2 * (unat (h div 2) * unat (w div 2))) dst)"
proof -
  have "plane_readable (unat (h div 2)) (unat strideUV) (unat (w div 2)) src"
    if "unat (h div 2) * unat (w div 2) \<le> length src" for src
    using that assms(2) by (cases "unat (h div 2)") (auto simp: plane_readable_def)
  then show ?thesis
    using copy_surface[OF assms(1,3) _ _ assms(6), of strideUV srcU srcV] assms(2,4,5)
    by (simp add: chroma_copied_def)
qed

theorem copy_surface_packs_planes_witness:
  "CopySurfaceToBufferYV12 [1,2,0,3,4] [5] [6] [9,9,9,9,9,9,9] 3 1 2 2 = Some [1,2,3,4,5,6,9]"
proof -
  have "CopySurfaceToBufferYV12 [1,2,0,3,4] [5] [6] [9,9,9,9,9,9,9] 3 1 2 2 =
      Some (plane (unat (2 :: OMX_U32)) (unat (3 :: OMX_U32)) (unat (2 :: OMX_U32)) [1,2,0,3,4] @
        take (unat (2 div 2 :: OMX_U32) * unat (2 div 2 :: OMX_U32)) [5] @
        take (unat (2 div 2 :: OMX_U32) * unat (2 div 2 :: OMX_U32)) [6] @
        drop (unat (2 :: OMX_U32) * unat (2 :: OMX_U32) +
          2 * (unat (2 div 2 :: OMX_U32) * unat (2 div 2 :: OMX_U32))) [9,9,9,9,9,9,9])"
    by (rule copy_surface_packs_planes) (simp_all add: plane_readable_def)
  also have "\<dots> = Some [1,2,3,4,5,6,9]" by code_simp
  finally show ?thesis .
qed

text \<open>
  When the chroma stride differs from half the width, the chroma loops advance the luma pointer
  instead of their own: every row of both chroma planes of the copy is the first row of the surface.
\<close>

theorem copy_surface_strided_chroma_repeats_first_row:
  assumes "unat w * unat h < 2 ^ 32" and "strideUV \<noteq> w div 2"
    and "plane_readable (unat h) (unat strideY) (unat w) srcY"
    and "plane_readable (unat (h div 2)) (unat strideUV) (unat (w div 2)) srcU"
    and "plane_readable (unat (h div 2)) (unat strideUV) (unat (w div 2)) srcV"
    and "unat h * unat w + 2 * (unat (h div 2) * unat (w div 2)) \<le> length dst"
  shows "CopySurfaceToBufferYV12 srcY srcU srcV dst strideY strideUV w h =
    Some (plane (unat h) (unat strideY) (unat w) srcY @
      concat (replicate (unat (h div 2)) (take (unat (w div 2)) srcU)) @
      concat (replicate (unat (h div 2)) (take (unat (w div 2)) srcV)) @
      drop (unat h * unat w + 2 * (unat (h div 2) * unat (w div 2))) dst)"
proof -
  have "unat (w div 2) \<noteq> unat strideUV" using assms(2) by (simp add: word_unat_eq_iff)
  with copy_surface[OF assms(1,3,4,5,6)] show ?thesis by (simp add: chroma_copied_def)
qed

theorem copy_surface_strided_chroma_witness:
  "CopySurfaceToBufferYV12 (replicate 16 0) [1,0,2,0] [3,0,4,0] (replicate 12 9) 2 2 2 4 =
     Some (replicate 8 0 @ [1,1,3,3])"
proof -
  have "CopySurfaceToBufferYV12 (replicate 16 0) [1,0,2,0] [3,0,4,0] (replicate 12 9) 2 2 2 4 =
    Some (plane (unat (4 :: OMX_U32)) (unat (2 :: OMX_U32)) (unat (2 :: OMX_U32)) (replicate 16 0) @
      concat (replicate (unat (4 div 2 :: OMX_U32)) (take (unat (2 div 2 :: OMX_U32)) [1,0,2,0])) @
      concat (replicate (unat (4 div 2 :: OMX_U32)) (take (unat (2 div 2 :: OMX_U32)) [3,0,4,0])) @
      drop (unat (4 :: OMX_U32) * unat (2 :: OMX_U32) +
        2 * (unat (4 div 2 :: OMX_U32) * unat (2 div 2 :: OMX_U32))) (replicate 12 9))"
    by (rule copy_surface_strided_chroma_repeats_first_row) (simp_all add: plane_readable_def)
  also have "\<dots> = Some (replicate 8 0 @ [1,1,3,3])" by code_simp
  finally show ?thesis .
qed

lemma le32_bytes:
  "push_bit 24 (ucast (ucast (drop_bit 24 v) :: OMX_U8)) OR push_bit 16 (ucast (ucast (drop_bit 16 v) :: OMX_U8)) OR
   push_bit 8 (ucast (ucast (drop_bit 8 v) :: OMX_U8)) OR ucast (ucast v :: OMX_U8) = (v :: OMX_U32)"
proof (rule bit_word_eqI)
  fix n assume "n < LENGTH(32)"
  then consider "n < 8" | "8 \<le> n" "n < 16" | "16 \<le> n" "n < 24" | "24 \<le> n" "n < 32" by fastforce
  then show "bit (push_bit 24 (ucast (ucast (drop_bit 24 v) :: OMX_U8)) OR
      push_bit 16 (ucast (ucast (drop_bit 16 v) :: OMX_U8)) OR
      push_bit 8 (ucast (ucast (drop_bit 8 v) :: OMX_U8)) OR ucast (ucast v :: OMX_U8) :: OMX_U32) n = bit v n"
    by cases (simp_all add: bit_simps less_diff_conv2)
qed

lemma get_le32_PUT_LE32: "length a = off \<Longrightarrow> get_le32 (a @ PUT_LE32 v @ b) off = Some v"
  using le32_bytes[of v] by (simp add: get_le32_def PUT_LE32_def nth_append)

lemma length_PUT [simp]: "length (PUT_LE32 v) = 4" "length (PUT_BE32 v) = 4"
  by (simp_all add: PUT_LE32_def PUT_BE32_def)

lemma rv_slices_swap:
  "length ws = 2 * n \<Longrightarrow> rv_slices n (a @ concat (map PUT_LE32 ws) @ b) (length a) = Some (concat (map PUT_BE32 ws))"
proof (induction n arbitrary: ws a)
  case 0
  then show ?case by simp
next
  case (Suc n)
  then obtain v u us where ws: "ws = v # u # us" "length us = 2 * n"
    by (cases ws; cases "tl ws") auto
  have "get_le32 (a @ concat (map PUT_LE32 ws) @ b) (length a) = Some v"
    using get_le32_PUT_LE32[of a "length a" v] ws(1) by simp
  moreover have "get_le32 (a @ concat (map PUT_LE32 ws) @ b) (length a + 4) = Some u"
    using get_le32_PUT_LE32[of "a @ PUT_LE32 v" "length a + 4" u] ws(1) by simp
  moreover have "rv_slices n (a @ concat (map PUT_LE32 ws) @ b) (length a + 8) = Some (concat (map PUT_BE32 us))"
    using Suc.IH[OF ws(2), of "a @ PUT_LE32 v @ PUT_LE32 u"] ws(1) by simp
  ultimately show ?case using ws(1) by simp
qed

text \<open>
  A RealVideo packet of \<open>c\<close> slices (first byte \<open>c-1\<close>, a table of two little-endian words per slice,
  then the payload) is handed to the decoder as the 20-byte header with the payload length and the
  slice count, the same table in big-endian order, and the unchanged payload.
\<close>

theorem rv_packet_reorders_slice_table:
  assumes "length ws = 2 * (unat c + 1)" and "inSize = int (1 + 8 * (unat c + 1) + length payload)"
  shows "MakeRVPacketData (Some (c # concat (map PUT_LE32 ws) @ payload @ rest)) inSize =
     Some (PUT_BE32 (of_nat (length payload)) @ PUT_LE32 0 @ PUT_BE16 0 @ PUT_BE16 0x02 @ PUT_BE32 0 @
       PUT_BE32 (of_nat (unat c + 1)) @ concat (map PUT_BE32 ws) @ payload)"
proof -
  have len: "length (concat (map PUT_LE32 ws)) = 8 * (unat c + 1)"
    using assms(1) by (simp add: length_concat o_def sum_list_triv)
  have "rv_slices (unat c + 1) (c # concat (map PUT_LE32 ws) @ payload @ rest) 1 = Some (concat (map PUT_BE32 ws))"
    using rv_slices_swap[OF assms(1), of "[c]"] by simp
  moreover have "drop (1 + (unat c + 1) * 8) (c # concat (map PUT_LE32 ws) @ payload @ rest) = payload @ rest"
  proof -
    have "length (c # concat (map PUT_LE32 ws)) = 1 + (unat c + 1) * 8" using len by simp
    then have "drop (1 + (unat c + 1) * 8) ((c # concat (map PUT_LE32 ws)) @ payload @ rest) = payload @ rest"
      by (metis append_eq_conv_conj)
    then show ?thesis by simp
  qed
  ultimately show ?thesis
    using assms(2) len by (simp add: MakeRVPacketData_def rd_def del: rv_slices.simps)
qed

theorem rv_packet_reorders_slice_table_witness:
  "MakeRVPacketData (Some ([0] @ [1,0,0,0, 0x34,0x12,0,0] @ [7,8] @ [])) 11 =
     Some ([0,0,0,2, 0,0,0,0, 0,0, 0,2, 0,0,0,0, 0,0,0,1] @ [0,0,0,1, 0,0,0x12,0x34] @ [7,8])"
proof -
  have "MakeRVPacketData (Some (0 # concat (map PUT_LE32 [1, 0x1234]) @ [7,8] @ [])) 11 =
     Some (PUT_BE32 (of_nat (length [7 :: OMX_U8,8])) @ PUT_LE32 0 @ PUT_BE16 0 @ PUT_BE16 0x02 @ PUT_BE32 0 @
       PUT_BE32 (of_nat (unat (0 :: OMX_U8) + 1)) @ concat (map PUT_BE32 [1, 0x1234]) @ [7,8])"
    by (rule rv_packet_reorders_slice_table) simp_all
  moreover have "0 # concat (map PUT_LE32 [1, 0x1234]) @ [7,8] @ [] = [0] @ [1,0,0,0, 0x34,0x12,0,0] @ [7,8] @ []"
    by code_simp
  moreover have "PUT_BE32 (of_nat (length [7 :: OMX_U8,8])) @ PUT_LE32 0 @ PUT_BE16 0 @ PUT_BE16 0x02 @ PUT_BE32 0 @
       PUT_BE32 (of_nat (unat (0 :: OMX_U8) + 1)) @ concat (map PUT_BE32 [1, 0x1234]) @ [7,8] =
     [0,0,0,2, 0,0,0,0, 0,0, 0,2, 0,0,0,0, 0,0,0,1] @ [0,0,0,1, 0,0,0x12,0x34] @ [7,8]"
    by code_simp
  ultimately show ?thesis by metis
qed

text \<open>
  In VC-1 mode every packet given to the decoder starts with the start code prefix 0, 0, 1: a frame
  that has it passes unchanged, any other gets the code \<open>00 00 01 0D\<close> in front.
\<close>

theorem vc1_packet_has_start_code:
  assumes "3 \<le> n" and "n \<le> length bs"
  shows "\<exists>out. MakeVC1PacketData False (Some bs) (int n) key = Some out \<and> take 3 out = [0, 0, 1] \<and>
     (out = take n bs \<or> out = [0, 0, 1, 0x0D] @ take n bs)"
proof -
  obtain a b c r where bs: "bs = a # b # c # r"
    using assms by (cases bs; cases "tl bs"; cases "tl (tl bs)") auto
  have "rd_block (Some bs) (int n) = Some (take n bs)"
    using assms by (auto simp: rd_block_def rd_def)
  moreover obtain m where "n = Suc (Suc (Suc m))"
    using assms(1) by (intro that[of "n - 3"]) simp
  ultimately show ?thesis
    using bs by (auto simp: MakeVC1PacketData_def rd_def numeral_3_eq_3)
qed

theorem vc1_packet_has_start_code_witness:
  "\<exists>out. MakeVC1PacketData False (Some [5, 6, 7, 8]) (int 3) True = Some out \<and> take 3 out = [0, 0, 1] \<and>
     (out = take 3 [5, 6, 7, 8] \<or> out = [0, 0, 1, 0x0D] @ take 3 [5, 6, 7, 8])"
  by (rule vc1_packet_has_start_code) simp_all

text \<open>
  \<open>AVCFindMinimumBufferSize\<close> indexes the 14-entry level table with the level's enumerator, which is a
  single bit: for every level from 1.3 on it reads outside the table.
\<close>

theorem avc_minimum_buffers_reads_outside:
  "list_all (\<lambda>level. AVCFindMinimumBufferSize level w h = None) (drop 4 gstDecSupportedAVCLevels)"
proof -
  have "list_all (\<lambda>level. 0x10 \<le> level \<and> level \<le> 0x2000) (drop 4 gstDecSupportedAVCLevels)"
    by code_simp
  moreover have "AVCFindMinimumBufferSize level w h = None" if l: "0x10 \<le> level" "level \<le> 0x2000" for level
  proof -
    have "unat level \<ge> length gstDecSupportedAVCLevels"
      using l(1) by (simp add: gstDecSupportedAVCLevels_def word_le_nat_alt)
    moreover have "\<not> level < 0x01"
      using l(1) by (simp add: word_le_nat_alt word_less_nat_alt)
    ultimately show ?thesis using l(2) by (simp add: AVCFindMinimumBufferSize_def)
  qed
  ultimately show ?thesis by (auto simp: list_all_iff)
qed

end
