(* ===== verification/VidDecParam.thy ===== *)
theory VidDecParam
  imports VidDecState VidDecUtil OmxCore
begin

text \<open>
  \<open>NX_VidDec_GetConfig\<close>, \<open>NX_VidDec_GetParameter\<close> and \<open>NX_VidDec_SetParameter\<close>. A parameter is an
  index with its structure; here one constructor per index carries the fields that the code reads
  or writes.
\<close>

section \<open>Parameters\<close>

record OMX_CONFIG_RECTTYPE =
  rect_nPortIndex :: OMX_U32
  nLeft :: OMX_S32
  nTop :: OMX_S32
  nWidth :: OMX_U32
  nHeight :: OMX_U32

datatype omx_param =
    ParamVideoPortFormat OMX_VIDEO_PARAM_PORTFORMATTYPE
  | ParamNativeBufferUsage OMX_U32 OMX_U32
  | ParamPortDefinition OMX_PARAM_PORTDEFINITIONTYPE
  | ParamProfileLevel OMX_VIDEO_PARAM_PROFILELEVELTYPE
  | ParamComponentRole string
  | ParamVideoAvc OMX_U32 OMX_U32
  | ParamVideoMpeg2 OMX_U32 OMX_U32
  | ParamVideoMpeg4 OMX_U32 OMX_U32
  | ParamVideoH263 OMX_U32 OMX_U32
  | ParamVideoWmv OMX_U32
  | ParamVideoRv OMX_U32
  | ParamCodecTag OMX_U32
  | ParamEnableNativeBuffers OMX_U32 bool
  | ParamThumbnailMode
  | ParamExtradata "OMX_U8 list"
  | ParamOther OMX_U32

section \<open>Reading\<close>

definition NX_VidDec_GetConfig :: "OMX_CONFIG_RECTTYPE option \<Rightarrow> NX_VIDDEC \<Rightarrow> OMX_ERRORTYPE \<times> OMX_CONFIG_RECTTYPE option" where
  "NX_VidDec_GetConfig c s =
     (case c of
        Some r \<Rightarrow>
          (if rect_nPortIndex r \<noteq> 0 \<and> rect_nPortIndex r \<noteq> 1 then (OMX_ErrorBadPortIndex, c)
           else
             (let p = (if rect_nPortIndex r = 0 then pInputPort s else pOutputPort s)
              in (OMX_ErrorNone, Some (r\<lparr>nTop := 0, nLeft := 0, nWidth := nFrameWidth (video p),
                    nHeight := nFrameHeight (video p)\<rparr>))))
      | None \<Rightarrow> NX_BaseGetConfig c s)"

text \<open>
  The profile and level query of one codec: \<open>nProfileIndex\<close> runs up to the product of the table
  sizes; an index outside a table is undefined.
\<close>

definition query_profile ::
  "OMX_U32 list \<Rightarrow> OMX_U32 list \<Rightarrow> OMX_VIDEO_PARAM_PROFILELEVELTYPE \<Rightarrow>
   (OMX_ERRORTYPE \<times> OMX_VIDEO_PARAM_PROFILELEVELTYPE) option" where
  "query_profile profiles levels q =
     (let i = unat (nProfileIndex q); np = length profiles; nl = length levels in
      if i \<ge> np * nl then Some (OMX_ErrorNoMore, q)
      else do {
        p \<leftarrow> arr profiles (i div np);
        l \<leftarrow> arr levels (i mod nl);
        Some (OMX_ErrorNone, q\<lparr>pl_eProfile := p, pl_eLevel := l\<rparr>) })"

definition NX_VidDec_ProfileLevel ::
  "OMX_VIDEO_PARAM_PROFILELEVELTYPE \<Rightarrow> NX_VIDDEC \<Rightarrow> (OMX_ERRORTYPE \<times> OMX_VIDEO_PARAM_PROFILELEVELTYPE) option" where
  "NX_VidDec_ProfileLevel q s =
     (if pl_nPortIndex q > 1 then Some (OMX_ErrorBadPortIndex, q)
      else if videoCodecId s = NX_AVC_DEC then query_profile gstDecSupportedAVCProfiles gstDecSupportedAVCLevels q
      else if videoCodecId s = NX_MP4_DEC then query_profile gstDecSupportedMPEG4Profiles gstDecSupportedMPEG4Levels q
      else if videoCodecId s = NX_H263_DEC then query_profile gstDecSupportedH263Profiles gstDecSupportedH263Levels q
      else Some (OMX_ErrorNoMore, q))"

definition NX_VidDec_GetParameter ::
  "vpu_lib \<Rightarrow> omx_param \<Rightarrow> NX_VIDDEC \<Rightarrow> (OMX_ERRORTYPE \<times> omx_param \<times> NX_VIDDEC) option" where
  "NX_VidDec_GetParameter lib par s =
     (case par of
        ParamVideoPortFormat f \<Rightarrow>
          (if fmt_nPortIndex f = 0 then Some (OMX_ErrorNone, ParamVideoPortFormat (inputFormat s), s)
           else if fmt_nIndex f = 0 then
             Some (OMX_ErrorNone,
               ParamVideoPortFormat ((outputFormat s)\<lparr>fmt_eColorFormat := OMX_COLOR_FormatYUV420Planar\<rparr>),
               s\<lparr>outputFormat := (outputFormat s)\<lparr>fmt_nPortIndex := 1\<rparr>\<rparr>)
           else Some (OMX_ErrorNoMore, par, s))
      | ParamNativeBufferUsage port usage \<Rightarrow>
          (if port \<noteq> 1 then Some (OMX_ErrorBadPortIndex, par, s)
           else Some (OMX_ErrorNone, ParamNativeBufferUsage port (usage OR GRALLOC_USAGE_DISPLAY lib), s))
      | ParamPortDefinition d \<Rightarrow>
          (let (e, d) = NX_BaseGetParameter d s in
           if e \<noteq> OMX_ErrorNone then Some (e, ParamPortDefinition d, s)
           else if nPortIndex d = 1 then
             Some (OMX_ErrorNone, ParamPortDefinition
               (d\<lparr>video := (video d)\<lparr>eColorFormat := HAL_PIXEL_FORMAT_YV12 lib\<rparr>\<rparr>), s)
           else Some (OMX_ErrorNone, ParamPortDefinition d, s))
      | ParamProfileLevel q \<Rightarrow>
          map_option (\<lambda>(e, q). (e, ParamProfileLevel q, s)) (NX_VidDec_ProfileLevel q s)
      | _ \<Rightarrow> Some (OMX_ErrorUnsupportedIndex, par, s))"

section \<open>Writing\<close>

definition set_input_codec :: "OMX_U32 \<Rightarrow> codec_id \<Rightarrow> NX_VIDDEC \<Rightarrow> NX_VIDDEC" where
  "set_input_codec coding codec s =
     s\<lparr>inputFormat := (inputFormat s)\<lparr>fmt_eCompressionFormat := coding,
         fmt_eColorFormat := OMX_COLOR_FormatUnused, fmt_nPortIndex := 0\<rparr>,
       videoCodecId := codec\<rparr>"

definition SetParameter_Role :: "string \<Rightarrow> NX_VIDDEC \<Rightarrow> OMX_ERRORTYPE \<times> NX_VIDDEC" where
  "SetParameter_Role role s =
     (let r =
       (if role = ''video_decoder.avc'' then Some (set_input_codec OMX_VIDEO_CodingAVC NX_AVC_DEC s)
        else if role = ''video_decoder.mpeg4'' then Some (set_input_codec OMX_VIDEO_CodingMPEG4 NX_MP4_DEC s)
        else if role = ''video_decoder.x-flv'' then
          Some ((set_input_codec OMX_VIDEO_CodingMPEG4 NX_MP4_DEC s)
            \<lparr>codecTag := MKTAG (CHR ''f'') (CHR ''l'') (CHR ''v'') (CHR ''1'')\<rparr>)
        else if role = ''video_decoder.mp43'' then
          Some ((set_input_codec OMX_VIDEO_CodingMPEG4 NX_MP4_DEC s)
            \<lparr>codecTag := MKTAG (CHR ''m'') (CHR ''p'') (CHR ''4'') (CHR ''3'')\<rparr>)
        else if role = ''video_decoder.mpeg2'' then Some (set_input_codec OMX_VIDEO_CodingMPEG2 NX_MP2_DEC s)
        else if role = ''video_decoder.h263'' \<or> role = ''video_decoder.3gpp'' then
          Some (set_input_codec OMX_VIDEO_CodingH263 NX_H263_DEC s)
        else if role = ''video_decoder.x-ms-wmv'' then
          Some ((set_input_codec OMX_VIDEO_CodingWMV NX_VC1_DEC s)\<lparr>bXMSWMVType := True\<rparr>)
        else if role = ''video_decoder.wvc1'' \<or> role = ''video_decoder.vc1'' then
          Some (set_input_codec OMX_VIDEO_CodingWMV NX_VC1_DEC s)
        else if role = ''video_decoder.x-pn-realvideo'' then Some (set_input_codec OMX_VIDEO_CodingRV NX_RV_DEC s)
        else if role = ''video_decoder.vp8'' then Some (set_input_codec OMX_VIDEO_CodingVP8 NX_VPX_VP8 s)
        else None)
      in case r of
        None \<Rightarrow> (OMX_ErrorBadParameter, s)
      | Some s \<Rightarrow> (OMX_ErrorNone,
          s\<lparr>outputFormat := (outputFormat s)\<lparr>fmt_eCompressionFormat := OMX_VIDEO_CodingUnused,
               fmt_eColorFormat := OMX_COLOR_FormatYUV420Planar, fmt_nPortIndex := 1\<rparr>,
            compRole := role\<rparr>))"

text \<open>\<open>width*height*3/2\<close> on \<open>OMX_S32\<close> operands.\<close>

definition yuv_size :: "OMX_S32 \<Rightarrow> OMX_S32 \<Rightarrow> OMX_U32" where
  "yuv_size w h = word_of_int (sint (w * h * 3) sdiv 2)"

definition set_out_buffers :: "OMX_U32 \<Rightarrow> NX_VIDDEC \<Rightarrow> NX_VIDDEC" where
  "set_out_buffers n s = upd_port VPUDEC_VID_OUTPORT_INDEX (\<lambda>p. p\<lparr>nBufferCountMin := n, nBufferCountActual := n\<rparr>) s"

definition set_out_size :: "OMX_U32 \<Rightarrow> NX_VIDDEC \<Rightarrow> NX_VIDDEC" where
  "set_out_size n s = upd_port VPUDEC_VID_OUTPORT_INDEX (\<lambda>p. p\<lparr>nBufferSize := n\<rparr>) s"

definition SetParameter_PortDefinition :: "OMX_PARAM_PORTDEFINITIONTYPE \<Rightarrow> NX_VIDDEC \<Rightarrow> OMX_ERRORTYPE \<times> NX_VIDDEC" where
  "SetParameter_PortDefinition d s =
     (let (e, s) = NX_BaseSetParameter d s in
      if e \<noteq> OMX_ErrorNone then (e, s)
      else if nPortIndex d \<noteq> 0 then (OMX_ErrorNone, s)
      else
        (let w = nFrameWidth (video d); h = nFrameHeight (video d);
             s = s\<lparr>width := w, height := h\<rparr>;
             MBs = mb_count w h;
             s = (if videoCodecId s = NX_AVC_DEC \<and> sint MBs \<le> 1620 then set_out_buffers 19 s else s);
             s = set_out_size (if bEnableThumbNailMode s then yuv_size w h else VID_OUTPORT_MIN_BUF_SIZE) s
         in if sint MBs > 120 * 68 then (OMX_ErrorUnsupportedSetting, s) else (OMX_ErrorNone, s)))"

text \<open>The extra data: a 32-bit size, then the bytes; the old block is freed and replaced.\<close>

definition SetParameter_Extradata :: "OMX_U8 list \<Rightarrow> NX_VIDDEC \<Rightarrow> (OMX_ERRORTYPE \<times> NX_VIDDEC) option" where
  "SetParameter_Extradata p s = do {
     size \<leftarrow> get_le32 p 0;
     bs \<leftarrow> (if sint size < 0 then None else rd p 4 (nat (sint size)));
     Some (OMX_ErrorNone, s\<lparr>pExtraData := Some bs, nExtraDataSize := sint size\<rparr>) }"

definition NX_VidDec_SetParameter :: "omx_param \<Rightarrow> NX_VIDDEC \<Rightarrow> (OMX_ERRORTYPE \<times> NX_VIDDEC) option" where
  "NX_VidDec_SetParameter par s =
     (case par of
        ParamComponentRole role \<Rightarrow> Some (SetParameter_Role role s)
      | ParamVideoPortFormat f \<Rightarrow>
          Some (OMX_ErrorNone, if fmt_nPortIndex f = 0 then s\<lparr>inputFormat := f\<rparr> else s\<lparr>outputFormat := f\<rparr>)
      | ParamVideoAvc p l \<Rightarrow>
          Some (if p > 0x08 then OMX_ErrorPortsNotCompatible
                else if l > 0x8000 then OMX_ErrorPortsNotCompatible else OMX_ErrorNone, s)
      | ParamVideoMpeg2 p l \<Rightarrow>
          Some (if p \<noteq> 0 \<or> p \<noteq> 1 \<or> p \<noteq> 5 then OMX_ErrorPortsNotCompatible
                else if l \<noteq> 0 \<or> l \<noteq> 1 \<or> l \<noteq> 3 then OMX_ErrorPortsNotCompatible else OMX_ErrorNone, s)
      | ParamVideoMpeg4 p l \<Rightarrow>
          Some (if p > 0x8000 then OMX_ErrorPortsNotCompatible
                else if l > 0x80 then OMX_ErrorPortsNotCompatible else OMX_ErrorNone, s)
      | ParamVideoH263 p l \<Rightarrow>
          Some (if p \<noteq> 0x01 \<or> p \<noteq> 0x08 then OMX_ErrorPortsNotCompatible
                else if l > 0x80 then OMX_ErrorPortsNotCompatible else OMX_ErrorNone, s)
      | ParamVideoWmv f \<Rightarrow>
          Some (if f > 0x08 then (OMX_ErrorPortsNotCompatible, s)
                else
                  (let s = s\<lparr>wmvFormat := f\<rparr>
                   in (OMX_ErrorNone, if f = 0 \<and> bXMSWMVType s then s\<lparr>bXMSWMVType := False\<rparr> else s)))
      | ParamVideoRv f \<Rightarrow> Some (if f > 3 then OMX_ErrorPortsNotCompatible else OMX_ErrorNone, s)
      | ParamCodecTag t \<Rightarrow> Some (OMX_ErrorNone, s\<lparr>codecTag := t\<rparr>)
      | ParamPortDefinition d \<Rightarrow> Some (SetParameter_PortDefinition d s)
      | ParamEnableNativeBuffers port en \<Rightarrow>
          Some (if port \<noteq> 1 then (OMX_ErrorBadPortIndex, s)
                else (OMX_ErrorNone, s\<lparr>bUseNativeBuffer := en, bEnableThumbNailMode := False\<rparr>))
      | ParamThumbnailMode \<Rightarrow>
          Some (OMX_ErrorNone,
            set_out_size (yuv_size (width s) (height s))
              (set_out_buffers VID_OUTPORT_MIN_BUF_CNT_THUMB (s\<lparr>bEnableThumbNailMode := True\<rparr>)))
      | ParamExtradata p \<Rightarrow> SetParameter_Extradata p s
      | _ \<Rightarrow> Some (OMX_ErrorUnsupportedIndex, s))"

section \<open>Properties\<close>

lemma set_video_all: "set_video v p = p\<lparr>video := v\<rparr>"
  by (simp add: set_video_def)

lemma base_set_video:
  assumes "i = unat (nPortIndex d)" "i < nNumPort s" "eDomain (pPort s i) = OMX_PortDomainVideo"
  shows "NX_BaseSetParameter d s = (OMX_ErrorNone,
     upd_port i (\<lambda>p. p\<lparr>nBufferCountActual := nBufferCountActual d, video := video d\<rparr>) s)"
  using assms by (simp add: NX_BaseSetParameter_def Let_def upd_port_def set_video_all)

text \<open>
  A port definition written with \<open>SetParameter\<close> is read back by \<open>GetParameter\<close>: on a video port exactly
  the buffer count and the video format change, whatever their values, and nothing else of the port.
\<close>

theorem port_definition_roundtrip:
  assumes "unat (nPortIndex d) < nNumPort s"
    and "eDomain (pPort s (unat (nPortIndex d))) = OMX_PortDomainVideo"
  shows "snd (NX_BaseGetParameter d (snd (NX_BaseSetParameter d s))) =
     (snd (NX_BaseGetParameter d s))\<lparr>nBufferCountActual := nBufferCountActual d, video := video d\<rparr>"
  using assms by (simp add: base_set_video NX_BaseGetParameter_def upd_port_def
      OMX_PARAM_PORTDEFINITIONTYPE.truncate_def)

theorem port_definition_roundtrip_witness:
  "nBufferCountActual (snd (NX_BaseGetParameter
      ((OMX_PARAM_PORTDEFINITIONTYPE.truncate zero_port)\<lparr>nBufferCountActual := 100\<rparr>)
      (snd (NX_BaseSetParameter ((OMX_PARAM_PORTDEFINITIONTYPE.truncate zero_port)\<lparr>nBufferCountActual := 100\<rparr>)
        (zero_viddec\<lparr>nNumPort := 2, pPort := (\<lambda>_. zero_port\<lparr>eDomain := OMX_PortDomainVideo\<rparr>)\<rparr>))))) = 100"
  by (subst port_definition_roundtrip)
    (simp_all add: zero_port_def OMX_PARAM_PORTDEFINITIONTYPE.truncate_def)

text \<open>
  On an audio port \<open>SetParameter\<close> copies the port's audio format onto itself: it reports success and
  the client's format is lost.
\<close>

theorem audio_format_is_ignored:
  assumes "unat (nPortIndex d) < nNumPort s"
    and "eDomain (pPort s (unat (nPortIndex d))) = OMX_PortDomainAudio"
  shows "fst (NX_BaseSetParameter d s) = OMX_ErrorNone \<and>
     audio (pPort (snd (NX_BaseSetParameter d s)) i) = audio (pPort s i)"
  using assms by (simp add: NX_BaseSetParameter_def Let_def upd_port_def)

theorem audio_format_is_ignored_witness:
  "fst (NX_BaseSetParameter (OMX_PARAM_PORTDEFINITIONTYPE.truncate
       (zero_port\<lparr>audio := \<lparr>aud_pNativeRender = 0, aud_bFlagErrorConcealment = True, aud_eEncoding = 7\<rparr>\<rparr>))
      (zero_viddec\<lparr>nNumPort := 2\<rparr>)) = OMX_ErrorNone"
  using audio_format_is_ignored[of "OMX_PARAM_PORTDEFINITIONTYPE.truncate
       (zero_port\<lparr>audio := \<lparr>aud_pNativeRender = 0, aud_bFlagErrorConcealment = True, aud_eEncoding = 7\<rparr>\<rparr>)"
      "zero_viddec\<lparr>nNumPort := 2\<rparr>"]
  by (simp add: zero_viddec_def zero_port_def OMX_PARAM_PORTDEFINITIONTYPE.truncate_def)

text \<open>The roles of \<open>SetParameter\<close> with the stream format and the codec each selects.\<close>

definition role_table :: "(string \<times> OMX_U32 \<times> codec_id) list" where
  "role_table = [
     (''video_decoder.avc'', OMX_VIDEO_CodingAVC, NX_AVC_DEC),
     (''video_decoder.mpeg4'', OMX_VIDEO_CodingMPEG4, NX_MP4_DEC),
     (''video_decoder.x-flv'', OMX_VIDEO_CodingMPEG4, NX_MP4_DEC),
     (''video_decoder.mp43'', OMX_VIDEO_CodingMPEG4, NX_MP4_DEC),
     (''video_decoder.mpeg2'', OMX_VIDEO_CodingMPEG2, NX_MP2_DEC),
     (''video_decoder.h263'', OMX_VIDEO_CodingH263, NX_H263_DEC),
     (''video_decoder.3gpp'', OMX_VIDEO_CodingH263, NX_H263_DEC),
     (''video_decoder.x-ms-wmv'', OMX_VIDEO_CodingWMV, NX_VC1_DEC),
     (''video_decoder.wvc1'', OMX_VIDEO_CodingWMV, NX_VC1_DEC),
     (''video_decoder.vc1'', OMX_VIDEO_CodingWMV, NX_VC1_DEC),
     (''video_decoder.x-pn-realvideo'', OMX_VIDEO_CodingRV, NX_RV_DEC),
     (''video_decoder.vp8'', OMX_VIDEO_CodingVP8, NX_VPX_VP8)]"

lemma set_role_table:
  "list_all (\<lambda>(role, coding, codec). fst (SetParameter_Role role s) = OMX_ErrorNone \<and>
     videoCodecId (snd (SetParameter_Role role s)) = codec \<and>
     fmt_eCompressionFormat (inputFormat (snd (SetParameter_Role role s))) = coding \<and>
     compRole (snd (SetParameter_Role role s)) = role) role_table"
  by (simp add: role_table_def SetParameter_Role_def set_input_codec_def)

lemma set_role_unknown:
  "role \<notin> set (map fst role_table) \<Longrightarrow> SetParameter_Role role s = (OMX_ErrorBadParameter, s)"
  by (simp add: role_table_def SetParameter_Role_def)

text \<open>
  The roles that the decoder accepts are the roles that the IL core registers for it, and VP8, which
  the core never offers: a client that looks the component up by role cannot reach the VP8 decoder.
\<close>

theorem accepted_roles_are_registered_roles:
  "{role. fst (SetParameter_Role role s) = OMX_ErrorNone} =
     insert ''video_decoder.vp8'' {role. (''OMX.NX.VIDEO_DECODER'', role) \<in> set (reg_calls b)} \<and>
   ''video_decoder.vp8'' \<notin> snd ` set (reg_calls b)"
proof
  have "fst (SetParameter_Role role s) = OMX_ErrorNone \<longleftrightarrow> role \<in> set (map fst role_table)" for role
    using set_role_table[of s] set_role_unknown[of role s] by (force simp: list_all_iff)
  moreover have "set (map fst role_table) =
      insert ''video_decoder.vp8'' {role. (''OMX.NX.VIDEO_DECODER'', role) \<in> set (reg_calls b)}"
    by (auto simp: role_table_def reg_calls_def)
  ultimately show "{role. fst (SetParameter_Role role s) = OMX_ErrorNone} =
     insert ''video_decoder.vp8'' {role. (''OMX.NX.VIDEO_DECODER'', role) \<in> set (reg_calls b)}" by auto
  show "''video_decoder.vp8'' \<notin> snd ` set (reg_calls b)"
    by (auto simp: reg_calls_def)
qed

text \<open>
  The AVC profile query is meant to list 3 profiles with 14 levels each. It divides by the number of
  profiles instead of the number of levels: indices 0 to 8 answer with the first nine levels, each
  once, and from 9 to 41 the profile table is read outside its bounds.
\<close>

theorem avc_profile_query:
  assumes "videoCodecId s = NX_AVC_DEC" and "pl_nPortIndex q \<le> 1"
  shows "NX_VidDec_ProfileLevel q s =
     (if 42 \<le> unat (nProfileIndex q) then Some (OMX_ErrorNoMore, q)
      else if 9 \<le> unat (nProfileIndex q) then None
      else Some (OMX_ErrorNone, q\<lparr>pl_eProfile := gstDecSupportedAVCProfiles ! (unat (nProfileIndex q) div 3),
             pl_eLevel := gstDecSupportedAVCLevels ! unat (nProfileIndex q)\<rparr>))"
proof -
  have len: "length gstDecSupportedAVCProfiles = 3" "length gstDecSupportedAVCLevels = 14"
    by (simp_all add: gstDecSupportedAVCProfiles_def gstDecSupportedAVCLevels_def)
  show ?thesis
    using assms by (auto simp: NX_VidDec_ProfileLevel_def query_profile_def len arr_def Let_def not_less)
qed

theorem avc_profile_query_witness:
  "NX_VidDec_ProfileLevel \<lparr>pl_nPortIndex = 1, nProfileIndex = 9, pl_eProfile = 0, pl_eLevel = 0\<rparr>
     (zero_viddec\<lparr>videoCodecId := NX_AVC_DEC\<rparr>) = None"
  by (subst avc_profile_query) simp_all

text \<open>
  \<open>SetParameter\<close> refuses every MPEG-2 and every H.263 configuration, the supported ones included: a
  profile would have to equal all supported profiles at once.
\<close>

theorem mpeg2_h263_parameters_always_rejected:
  "NX_VidDec_SetParameter (ParamVideoMpeg2 p l) s = Some (OMX_ErrorPortsNotCompatible, s) \<and>
   NX_VidDec_SetParameter (ParamVideoH263 p l) s = Some (OMX_ErrorPortsNotCompatible, s)"
  by (auto simp: NX_VidDec_SetParameter_def)

text \<open>
  Setting the input port definition succeeds exactly for pictures of at most 120 x 68 macroblocks, sets
  the size of the output buffers from the mode, and raises the buffer count to 19 for small AVC
  pictures; a refused size has nevertheless replaced the component's width and height.
\<close>

theorem input_port_resolution:
  assumes "nNumPort s = 2" and "nPortIndex d = 0" and "eDomain (pInputPort s) = OMX_PortDomainVideo"
  shows "let (e, t) = SetParameter_PortDefinition d s; MBs = mb_count (nFrameWidth (video d)) (nFrameHeight (video d)) in
    (e = OMX_ErrorNone \<longleftrightarrow> sint MBs \<le> 8160) \<and>
    width t = nFrameWidth (video d) \<and> height t = nFrameHeight (video d) \<and>
    nBufferSize (pOutputPort t) =
      (if bEnableThumbNailMode s then yuv_size (nFrameWidth (video d)) (nFrameHeight (video d)) else 4096) \<and>
    nBufferCountActual (pOutputPort t) =
      (if videoCodecId s = NX_AVC_DEC \<and> sint MBs \<le> 1620 then 19 else nBufferCountActual (pOutputPort s))"
  using assms base_set_video[of 0 d s]
  by (simp add: SetParameter_PortDefinition_def Let_def set_out_size_def set_out_buffers_def upd_port_def)

theorem input_port_resolution_witness:
  "fst (SetParameter_PortDefinition
      (OMX_PARAM_PORTDEFINITIONTYPE.truncate (zero_port\<lparr>video := zero_video\<lparr>nFrameWidth := 1920, nFrameHeight := 1080\<rparr>\<rparr>))
      (zero_viddec\<lparr>nNumPort := 2, pPort := (\<lambda>_. zero_port\<lparr>eDomain := OMX_PortDomainVideo\<rparr>)\<rparr>)) = OMX_ErrorNone"
proof -
  let ?d = "OMX_PARAM_PORTDEFINITIONTYPE.truncate (zero_port\<lparr>video := zero_video\<lparr>nFrameWidth := 1920, nFrameHeight := 1080\<rparr>\<rparr>)"
  let ?s = "zero_viddec\<lparr>nNumPort := 2, pPort := (\<lambda>_. zero_port\<lparr>eDomain := OMX_PortDomainVideo\<rparr>)\<rparr>"
  have "nPortIndex ?d = 0" "nFrameWidth (video ?d) = 1920" "nFrameHeight (video ?d) = 1080"
    by (simp_all add: zero_port_def OMX_PARAM_PORTDEFINITIONTYPE.truncate_def)
  moreover have "sint (mb_count 1920 1080) \<le> 8160" by code_simp
  ultimately show ?thesis using input_port_resolution[of ?s ?d] by (auto simp: Let_def split: prod.splits)
qed

end
