(* ===== verification/VidDecCodec.thy ===== *)
theory VidDecCodec
  imports VidDecBuf VidDecParam
begin

text \<open>
  The codec side of the video decoder: opening, closing, flushing and initialising the decoder
  library (\<open>NX_OMXVideoDecoder.c\<close>), the frame functions of the MPEG-2, MPEG-4, DivX 3, VC-1,
  RealVideo and VP8 files, and the end of stream (\<open>processEOS\<close>). The frame functions share their
  beginning and their end, which are definitions of their own here: \<open>decode_prologue\<close> (flush, next
  input buffer, end of stream), \<open>deliver\<close> (hand a decoded picture to the client) and \<open>decode_exit\<close>
  (give the input buffer back). \<open>lib\<close> is the library as it answers during the call.
\<close>

section \<open>Opening and closing\<close>

definition CodecTagToMp4Class :: "OMX_U32 \<Rightarrow> codec_id \<Rightarrow> codec_id \<times> int" where
  "CodecTagToMp4Class tag codec =
     (if tag \<in> {MKTAG (CHR ''D'') (CHR ''I'') (CHR ''V'') (CHR ''X''), MKTAG (CHR ''d'') (CHR ''i'') (CHR ''v'') (CHR ''x''),
                MKTAG (CHR ''D'') (CHR ''I'') (CHR ''V'') (CHR ''4''), MKTAG (CHR ''d'') (CHR ''i'') (CHR ''v'') (CHR ''4'')}
        then (codec, 5)
      else if tag \<in> {MKTAG (CHR ''D'') (CHR ''X'') (CHR ''5'') (CHR ''0''), MKTAG (CHR ''d'') (CHR ''x'') (CHR ''5'') (CHR ''0''),
                MKTAG (CHR ''D'') (CHR ''I'') (CHR ''V'') (CHR ''5''), MKTAG (CHR ''d'') (CHR ''i'') (CHR ''v'') (CHR ''5''),
                MKTAG (CHR ''D'') (CHR ''I'') (CHR ''V'') (CHR ''6''), MKTAG (CHR ''d'') (CHR ''i'') (CHR ''v'') (CHR ''6'')}
        then (codec, 1)
      else if tag \<in> {MKTAG (CHR ''X'') (CHR ''V'') (CHR ''I'') (CHR ''D''), MKTAG (CHR ''x'') (CHR ''v'') (CHR ''i'') (CHR ''d'')}
        then (codec, 2)
      else if tag \<in> {MKTAG (CHR ''F'') (CHR ''L'') (CHR ''V'') (CHR ''1''), MKTAG (CHR ''f'') (CHR ''l'') (CHR ''v'') (CHR ''1'')}
        then (codec, 256)
      else if tag \<in> {MKTAG (CHR ''D'') (CHR ''I'') (CHR ''V'') (CHR ''3''), MKTAG (CHR ''d'') (CHR ''i'') (CHR ''v'') (CHR ''3''),
                MKTAG (CHR ''M'') (CHR ''P'') (CHR ''4'') (CHR ''3''), MKTAG (CHR ''m'') (CHR ''p'') (CHR ''4'') (CHR ''3''),
                MKTAG (CHR ''M'') (CHR ''P'') (CHR ''G'') (CHR ''3''), MKTAG (CHR ''m'') (CHR ''p'') (CHR ''g'') (CHR ''3''),
                MKTAG (CHR ''D'') (CHR ''V'') (CHR ''X'') (CHR ''3''), MKTAG (CHR ''d'') (CHR ''v'') (CHR ''x'') (CHR ''3''),
                MKTAG (CHR ''A'') (CHR ''P'') (CHR ''4'') (CHR ''1''), MKTAG (CHR ''a'') (CHR ''p'') (CHR ''4'') (CHR ''1'')}
        then (NX_DIV3_DEC, 0)
      else (codec, 0))"

fun decode_function_of :: "codec_id \<Rightarrow> decode_function option" where
  "decode_function_of NX_AVC_DEC = Some NX_DecodeAvcFrame_ptr"
| "decode_function_of NX_MP2_DEC = Some NX_DecodeMpeg2Frame_ptr"
| "decode_function_of NX_MP4_DEC = Some NX_DecodeMpeg4Frame_ptr"
| "decode_function_of NX_H263_DEC = Some NX_DecodeMpeg4Frame_ptr"
| "decode_function_of NX_DIV3_DEC = Some NX_DecodeDiv3Frame_ptr"
| "decode_function_of NX_VC1_DEC = Some NX_DecodeVC1Frame_ptr"
| "decode_function_of NX_RV_DEC = Some NX_DecodeRVFrame_ptr"
| "decode_function_of NX_VPX_VP8 = Some NX_DecodeVP8Frame_ptr"
| "decode_function_of NX_NO_CODEC = None"

definition openVideoCodec :: "vpu_lib \<Rightarrow> NX_VIDDEC \<Rightarrow> int \<times> NX_VIDDEC" where
  "openVideoCodec lib s =
     (let s = s\<lparr>isOutIdr := False, width := nFrameWidth (video (pInputPort s)),
                height := nFrameHeight (video (pInputPort s))\<rparr>;
          (codec, mp4Class) = CodecTagToMp4Class (codecTag s) (videoCodecId s);
          h = NX_VidDecOpen lib codec mp4Class;
          s = emit (VpuOpen h) (s\<lparr>videoCodecId := codec, DecodeFrame := decode_function_of codec, hVpuCodec := h\<rparr>)
      in if h = NULL then (-1, s) else (0, InitVideoTimeStamp s))"

definition closeVideoCodec :: "NX_VIDDEC \<Rightarrow> NX_VIDDEC" where
  "closeVideoCodec s =
     (if hVpuCodec s \<noteq> NULL then
        (emit (VpuClose (hVpuCodec s)) (emit (VpuFlush (hVpuCodec s)) s))
          \<lparr>bInitialized := False, bNeedKey := True, hVpuCodec := NULL, isOutIdr := False,
           codecSpecificDataSize := 0, bNeedSequenceData := False\<rparr>
      else s)"

text \<open>The library is flushed twice: once for the effect and once in the return statement.\<close>

definition flushVideoCodec :: "NX_VIDDEC \<Rightarrow> NX_VIDDEC" where
  "flushVideoCodec s =
     (let s = InitVideoTimeStamp s in
      if hVpuCodec s \<noteq> NULL then
        emit (VpuFlush (hVpuCodec s)) ((emit (VpuFlush (hVpuCodec s)) s)\<lparr>isOutIdr := False\<rparr>)
      else s)"

text \<open>
  The loop that describes the native output buffers to the library. The first component of the
  result is the code of an early return.
\<close>

definition mem_info :: "vpu_lib \<Rightarrow> private_handle_t \<Rightarrow> OMX_U32 \<Rightarrow> NX_VIDDEC \<Rightarrow> NX_VID_MEMORY_INFO" where
  "mem_info lib g phys s =
     (let vstride = ALIGN (gr_height g) 16; stride = gr_stride g;
          half = signed_drop_bit 1 stride; cb = phys + stride * vstride
      in \<lparr>memoryMap = 0, fourCC = FOURCC_YV12, imgWidth = width s, imgHeight = height s, luPhyAddr = phys,
          cbPhyAddr = cb, crPhyAddr = cb + ALIGN half 16 * ALIGN (signed_drop_bit 1 vstride) 16,
          luStride = stride, cbStride = half, crStride = half\<rparr>)"

fun import_buffers :: "vpu_lib \<Rightarrow> nat list \<Rightarrow> NX_VIDDEC \<Rightarrow> (int option \<times> NX_VIDDEC) option" where
  "import_buffers lib [] s = Some (None, s)"
| "import_buffers lib (i # is) s = do {
     b \<leftarrow> arr (pOutputBuffers s) i;
     if b = NULL then Some (Some (-1), s)
     else do {
       h \<leftarrow> hdr_mem s b;
       g \<leftarrow> (if pBuffer h = NULL then None else gralloc_handle lib (pBuffer h));
       if ion_open lib < 0 then Some (Some (ion_open lib), s)
       else
         (let (rc, phys) = ion_get_phys lib (ion_open lib) (share_fd g) in
          if i \<ge> MAX_DEC_FRAME_BUFFERS lib then None
          else if rc \<noteq> 0 then Some (Some rc, s)
          else import_buffers lib is (s\<lparr>vidFrameBuf := (vidFrameBuf s)(i := mem_info lib g phys s)\<rparr>)) } }"

definition InitializeCodaVpu :: "vpu_lib \<Rightarrow> OMX_U8 list \<Rightarrow> NX_VIDDEC \<Rightarrow> (int \<times> NX_VIDDEC) option" where
  "InitializeCodaVpu lib buf s =
     (if hVpuCodec s = NULL then Some (-1, s)
      else do {
        (r, s) \<leftarrow> (if bUseNativeBuffer s then import_buffers lib [0..<nat (outUsableBuffers s)] s else Some (None, s));
        (case r of
           Some code \<Rightarrow> Some (code, s)
         | None \<Rightarrow>
             (let n = (if bUseNativeBuffer s then outUsableBuffers s else 0);
                  seqIn = \<lparr>seq_width = width s, seq_height = height s, seqInfo = buf, addNumBuffers = 4,
                    enablePostFilter = 0, numBuffers = n, pMemHandle = map (vidFrameBuf s) [0..<nat n]\<rparr>;
                  (ret, seqOut) = NX_VidDecInit lib (hVpuCodec s) seqIn
              in Some (ret, (emit (VpuInit (hVpuCodec s) buf) s)
                   \<lparr>minRequiredFrameBuffer := minBuffers seqOut,
                    outBufferable := seq_numBuffers seqOut - minBuffers seqOut\<rparr>))) })"

section \<open>What the frame functions share\<close>

text \<open>
  The beginning: a pending flush, then the next input buffer; \<open>None\<close> when there is none, and the
  function returns 0.
\<close>

definition decode_prologue :: "NX_VIDDEC \<Rightarrow> ptr option \<times> NX_VIDDEC" where
  "decode_prologue s =
     (let s = (if bFlush s then (flushVideoCodec s)\<lparr>bFlush := False\<rparr> else s);
          (rc, e, q) = NX_PopQueue (pInputPortQueue s);
          s = s\<lparr>pBufQueue := (pBufQueue s)(0 := q)\<rparr>
      in case e of
           None \<Rightarrow> (None, s)
         | Some b \<Rightarrow> if b = NULL then (None, s) else (Some b, s\<lparr>inFrameCount := inFrameCount s + 1\<rparr>))"

definition decode_exit :: "ptr \<Rightarrow> int \<Rightarrow> NX_VIDDEC \<Rightarrow> (int \<times> NX_VIDDEC) option" where
  "decode_exit b ret s = do {
     s \<leftarrow> upd_hdr b (\<lambda>h. h\<lparr>nFilledLen := 0\<rparr>) s;
     s \<leftarrow> call_EmptyBufferDone b s;
     Some (ret, s) }"

definition clr_dsp_flag :: "NX_VID_DEC_OUT \<Rightarrow> NX_VIDDEC \<Rightarrow> NX_VIDDEC" where
  "clr_dsp_flag out s = emit (VpuClrDspFlag (hVpuCodec s) (outImgIdx out)) s"

text \<open>The timestamp and the flags of an outgoing buffer, from the pool or as given.\<close>

definition stamp_output :: "ptr \<Rightarrow> OMX_TICKS \<times> OMX_U32 \<Rightarrow> NX_VIDDEC \<Rightarrow> NX_VIDDEC option" where
  "stamp_output o_ptr other_stamp s =
     (let (r, s) = PopVideoTimeStamp s; (t, f) = (case r of Some p \<Rightarrow> p | None \<Rightarrow> other_stamp)
      in upd_hdr o_ptr (\<lambda>h. h\<lparr>nTimeStamp := t, nFlags := f\<rparr>) s)"

text \<open>Thumbnail mode: the picture is copied into the next queued output buffer.\<close>

definition copy_picture :: "NX_VID_DEC_OUT \<Rightarrow> ptr \<Rightarrow> NX_VIDDEC \<Rightarrow> NX_VIDDEC option" where
  "copy_picture out o_ptr s = do {
     h \<leftarrow> hdr_mem s o_ptr;
     dst \<leftarrow> byte_mem s (pBuffer h);
     dst \<leftarrow> CopySurfaceToBufferYV12 (luVirAddr out) (cbVirAddr out) (crVirAddr out) dst
              (out_luStride out) (out_cbStride out) (width s) (height s);
     let s = clr_dsp_flag out (s\<lparr>byte_mem := (byte_mem s)(pBuffer h := Some dst)\<rparr>);
     upd_hdr o_ptr (\<lambda>h. h\<lparr>nFilledLen := yuv_size (width s) (height s)\<rparr>) s }"

definition send_output :: "ptr \<Rightarrow> OMX_TICKS \<times> OMX_U32 \<Rightarrow> NX_VIDDEC \<Rightarrow> NX_VIDDEC option" where
  "send_output o_ptr other_stamp s = do {
     s \<leftarrow> stamp_output o_ptr other_stamp s;
     call_FillBufferDone o_ptr (s\<lparr>outFrameCount := outFrameCount s + 1\<rparr>) }"

definition deliver_copy :: "NX_VID_DEC_OUT \<Rightarrow> ptr \<Rightarrow> NX_VIDDEC \<Rightarrow> NX_VIDDEC option" where
  "deliver_copy out b s = do {
     let (rc, e, q) = NX_PopQueue (pOutputPortQueue s);
     o_ptr \<leftarrow> e;
     s \<leftarrow> copy_picture out o_ptr (s\<lparr>pBufQueue := (pBufQueue s)(1 := q)\<rparr>);
     h \<leftarrow> hdr_mem s b;
     send_output o_ptr (nTimeStamp h, nFlags h) s }"

text \<open>
  Native window mode: the picture already is in the output buffer with its index. \<open>gated\<close>: pictures
  before the first I picture are dropped; \<open>sets\<close>: \<open>isOutIdr\<close> is set.
\<close>

definition deliver_native :: "vpu_lib \<Rightarrow> bool \<Rightarrow> bool \<Rightarrow> NX_VID_DEC_OUT \<Rightarrow> ptr \<Rightarrow> NX_VIDDEC \<Rightarrow> NX_VIDDEC option" where
  "deliver_native lib gated sets out b s =
     (if gated \<and> \<not> isOutIdr s \<and> picType out \<noteq> PIC_TYPE_I lib then Some (clr_dsp_flag out s)
      else
        (let s = (if sets then s\<lparr>isOutIdr := True\<rparr> else s); i = nat (outImgIdx out) in do {
           o_ptr \<leftarrow> arr (pOutputBuffers s) i;
           used \<leftarrow> arr (outBufferUseFlag s) i;
           if \<not> used then Some (clr_dsp_flag out s)
           else do {
             s \<leftarrow> upd_hdr o_ptr (\<lambda>h. h\<lparr>nFilledLen := sizeof_private_handle lib\<rparr>)
                    (s\<lparr>outBufferUseFlag := (outBufferUseFlag s)[i := False], curOutBuffers := curOutBuffers s - 1\<rparr>);
             h \<leftarrow> hdr_mem s b;
             send_output o_ptr (nTimeStamp h, nFlags h) s } }))"

definition deliver :: "vpu_lib \<Rightarrow> bool \<Rightarrow> bool \<Rightarrow> int \<Rightarrow> NX_VID_DEC_OUT \<Rightarrow> ptr \<Rightarrow> NX_VIDDEC \<Rightarrow> NX_VIDDEC option" where
  "deliver lib gated sets ret out b s =
     (if ret = VID_ERR_NONE lib \<and> 0 \<le> outImgIdx out \<and> outImgIdx out < int NX_OMX_MAX_BUF then
        (if bEnableThumbNailMode s then deliver_copy out b s else deliver_native lib gated sets out b s)
      else Some s)"

definition vpu_decode :: "vpu_lib \<Rightarrow> OMX_U8 list \<Rightarrow> OMX_TICKS \<Rightarrow> bool \<Rightarrow> NX_VIDDEC \<Rightarrow> (int \<times> NX_VID_DEC_OUT) \<times> NX_VIDDEC" where
  "vpu_decode lib bs t e s =
     (NX_VidDecDecodeFrame lib (hVpuCodec s) \<lparr>strmBuf = bs, in_timeStamp = t, eos = e\<rparr>,
      emit (VpuDecode (hVpuCodec s) bs e) s)"

text \<open>One decode call with its delivery, the last step of every frame function.\<close>

definition decode_and_deliver ::
  "vpu_lib \<Rightarrow> bool \<Rightarrow> bool \<Rightarrow> OMX_U8 list \<Rightarrow> ptr \<Rightarrow> OMX_BUFFERHEADERTYPE \<Rightarrow> NX_VIDDEC \<Rightarrow> (int \<times> NX_VIDDEC) option" where
  "decode_and_deliver lib gated sets bs b h s =
     (let ((ret, out), s) = vpu_decode lib bs (nTimeStamp h) False s
      in do { s \<leftarrow> deliver lib gated sets ret out b s; Some (ret, s) })"

text \<open>
  The frame of every function: \<open>body\<close> is what it does with a buffer \<open>b\<close> whose header is \<open>h\<close>, up to
  the label \<open>Exit\<close>. An empty buffer that carries the end of stream goes straight back.
\<close>

type_synonym frame_body = "vpu_lib \<Rightarrow> ptr \<Rightarrow> OMX_BUFFERHEADERTYPE \<Rightarrow> NX_VIDDEC \<Rightarrow> (int \<times> NX_VIDDEC) option"

definition decode_with :: "frame_body \<Rightarrow> vpu_lib \<Rightarrow> NX_VIDDEC \<Rightarrow> (int \<times> NX_VIDDEC) option" where
  "decode_with body lib s =
     (let (ob, s) = decode_prologue s in
      case ob of
        None \<Rightarrow> Some (0, s)
      | Some b \<Rightarrow> do {
          h \<leftarrow> hdr_mem s b;
          let s = (if has_flag (nFlags h) OMX_BUFFERFLAG_EOS then s\<lparr>bStartEoS := True\<rparr> else s);
          if has_flag (nFlags h) OMX_BUFFERFLAG_EOS \<and> sint (nFilledLen h) \<le> 0 then decode_exit b 0 s
          else do { (ret, s) \<leftarrow> body lib b h s; decode_exit b ret s } })"

definition in_data :: "OMX_BUFFERHEADERTYPE \<Rightarrow> NX_VIDDEC \<Rightarrow> OMX_U8 list option" where
  "in_data h s = byte_mem s (pBuffer h)"

definition in_bytes :: "OMX_BUFFERHEADERTYPE \<Rightarrow> NX_VIDDEC \<Rightarrow> OMX_U8 list option" where
  "in_bytes h s = rd_block (in_data h s) (sint (nFilledLen h))"

text \<open>The temporary buffer of the component has room for the list.\<close>

definition tmp_buffer :: "OMX_U8 list \<Rightarrow> OMX_U8 list option" where
  "tmp_buffer bs = (if length bs \<le> VID_TEMP_IN_BUF_SIZE then Some bs else None)"

text \<open>
  Initialisation of the library with the bytes \<open>bs\<close>; afterwards \<open>outImgIdx\<close> is -1, so nothing is
  delivered, and the function's result is that of the library.
\<close>

definition init_codec :: "vpu_lib \<Rightarrow> OMX_U8 list \<Rightarrow> NX_VIDDEC \<Rightarrow> (int \<times> NX_VIDDEC) option" where
  "init_codec lib bs s = do {
     (ret, s) \<leftarrow> InitializeCodaVpu lib bs s;
     if ret \<noteq> 0 then Some (ret, s) else Some (0, s\<lparr>bNeedKey := False, bInitialized := True\<rparr>) }"

section \<open>The frame functions\<close>

definition mpeg_body :: frame_body where
  "mpeg_body lib b h s =
     (if \<not> bInitialized s \<and> has_flag (nFlags h) OMX_BUFFERFLAG_CODECCONFIG then do {
        bs \<leftarrow> in_bytes h s;
        Some (0, s\<lparr>codecSpecificData := Some bs, codecSpecificDataSize := sint (nFilledLen h)\<rparr>) }
      else
        (let s = PushVideoTimeStamp (nTimeStamp h) (nFlags h) s in
         if \<not> bInitialized s then do {
           cs \<leftarrow> rd_block (codecSpecificData s) (codecSpecificDataSize s);
           bs \<leftarrow> in_bytes h s;
           init_codec lib (cs @ bs) s }
         else do {
           bs \<leftarrow> in_bytes h s;
           decode_and_deliver lib False True bs b h s }))"

definition NX_DecodeMpeg2Frame :: "vpu_lib \<Rightarrow> NX_VIDDEC \<Rightarrow> (int \<times> NX_VIDDEC) option" where
  "NX_DecodeMpeg2Frame = decode_with mpeg_body"

definition NX_DecodeMpeg4Frame :: "vpu_lib \<Rightarrow> NX_VIDDEC \<Rightarrow> (int \<times> NX_VIDDEC) option" where
  "NX_DecodeMpeg4Frame = decode_with mpeg_body"

definition div3_body :: frame_body where
  "div3_body lib b h s =
     (let s = (if has_flag (nFlags h) OMX_BUFFERFLAG_CODECCONFIG then s
               else PushVideoTimeStamp (nTimeStamp h) (nFlags h) s) in
      if \<not> bInitialized s then do {
        info \<leftarrow> MakeDiv3DecodeSpecificInfo (width s) (height s) (pExtraData s) (nExtraDataSize s);
        strm \<leftarrow> MakeDiv3Stream (in_data h s) (sint (nFilledLen h));
        bs \<leftarrow> tmp_buffer (info @ strm);
        (ret, s) \<leftarrow> init_codec lib bs s;
        Some (0, s) }
      else do {
        strm \<leftarrow> MakeDiv3Stream (in_data h s) (sint (nFilledLen h));
        bs \<leftarrow> tmp_buffer strm;
        (ret, s) \<leftarrow> decode_and_deliver lib True True bs b h s;
        Some (0, s) })"

definition NX_DecodeDiv3Frame :: "vpu_lib \<Rightarrow> NX_VIDDEC \<Rightarrow> (int \<times> NX_VIDDEC) option" where
  "NX_DecodeDiv3Frame = decode_with div3_body"

definition vp8_body :: frame_body where
  "vp8_body lib b h s =
     (let s = PushVideoTimeStamp (nTimeStamp h) (nFlags h) s in
      if \<not> bInitialized s then do {
        strm \<leftarrow> MakeVP8Stream (in_data h s) (sint (nFilledLen h));
        bs \<leftarrow> tmp_buffer (MakeVP8DecoderSpecificInfo (width s) (height s) @ strm);
        init_codec lib bs s }
      else do {
        strm \<leftarrow> MakeVP8Stream (in_data h s) (sint (nFilledLen h));
        bs \<leftarrow> tmp_buffer strm;
        decode_and_deliver lib False True bs b h s })"

definition NX_DecodeVP8Frame :: "vpu_lib \<Rightarrow> NX_VIDDEC \<Rightarrow> (int \<times> NX_VIDDEC) option" where
  "NX_DecodeVP8Frame = decode_with vp8_body"

definition rv_body :: frame_body where
  "rv_body lib b h s = do {
     s \<leftarrow> (if \<not> bInitialized s then do {
             info \<leftarrow> MakeRVDecodeSpecificInfo (width s) (height s) (pExtraData s) (nExtraDataSize s);
             Some (s\<lparr>codecSpecificData := Some info, codecSpecificDataSize := 26 + nExtraDataSize s\<rparr>) }
           else Some s);
     let s = PushVideoTimeStamp (nTimeStamp h) (nFlags h) s;
     if \<not> bInitialized s then do {
       info \<leftarrow> rd_block (codecSpecificData s) (codecSpecificDataSize s);
       pkt \<leftarrow> MakeRVPacketData (in_data h s) (sint (nFilledLen h));
       bs \<leftarrow> tmp_buffer (info @ pkt);
       init_codec lib bs s }
     else do {
       pkt \<leftarrow> MakeRVPacketData (in_data h s) (sint (nFilledLen h));
       bs \<leftarrow> tmp_buffer pkt;
       decode_and_deliver lib False False bs b h (s\<lparr>rvFrameCnt := rvFrameCnt s + 1\<rparr>) } }"

definition NX_DecodeRVFrame :: "vpu_lib \<Rightarrow> NX_VIDDEC \<Rightarrow> (int \<times> NX_VIDDEC) option" where
  "NX_DecodeRVFrame = decode_with rv_body"

text \<open>
  VC-1 keeps the configuration in \<open>pExtraData\<close>: the new block has the size of the old extra data if
  there was any, and the trace message reads its first 24 bytes.
\<close>

definition wmv_mode :: "NX_VIDDEC \<Rightarrow> bool" where
  "wmv_mode s \<longleftrightarrow> wmvFormat s = 0x04 \<or> wmvFormat s = 0x08 \<or> bXMSWMVType s"

definition vc1_config :: "vpu_lib \<Rightarrow> OMX_BUFFERHEADERTYPE \<Rightarrow> NX_VIDDEC \<Rightarrow> (int \<times> NX_VIDDEC) option" where
  "vc1_config lib h s = do {
     let n = (if nExtraDataSize s \<le> 0 then sint (nFilledLen h) else nExtraDataSize s);
     bs \<leftarrow> in_bytes h s;
     block \<leftarrow> (if n < 0 then None else wr (map (heap_junk lib) [0..<nat n]) 0 bs);
     _ \<leftarrow> rd block 0 24;
     Some (0, s\<lparr>nExtraDataSize := n, pExtraData := Some block\<rparr>) }"

definition vc1_body :: frame_body where
  "vc1_body lib b h s =
     (let key = has_flag (nFlags h) OMX_BUFFERFLAG_SYNCFRAME in
      if \<not> bInitialized s \<and> has_flag (nFlags h) OMX_BUFFERFLAG_CODECCONFIG then vc1_config lib h s
      else
        (let s = PushVideoTimeStamp (nTimeStamp h) (nFlags h) s in
         if \<not> bInitialized s then do {
           info \<leftarrow> MakeVC1DecodeSpecificInfo (wmv_mode s) (width s) (height s) (pExtraData s) (nExtraDataSize s);
           let s = s\<lparr>codecSpecificData := Some info, codecSpecificDataSize := int (length info)\<rparr>;
           pkt \<leftarrow> MakeVC1PacketData (wmv_mode s) (in_data h s) (sint (nFilledLen h)) key;
           bs \<leftarrow> tmp_buffer (info @ pkt);
           init_codec lib bs s }
         else do {
           pkt \<leftarrow> MakeVC1PacketData (wmv_mode s) (in_data h s) (sint (nFilledLen h)) key;
           bs \<leftarrow> tmp_buffer pkt;
           decode_and_deliver lib True True bs b h s }))"

definition NX_DecodeVC1Frame :: "vpu_lib \<Rightarrow> NX_VIDDEC \<Rightarrow> (int \<times> NX_VIDDEC) option" where
  "NX_DecodeVC1Frame = decode_with vc1_body"

section \<open>End of stream\<close>

fun first_used :: "bool list \<Rightarrow> nat option" where
  "first_used [] = None"
| "first_used (f # fs) = (if f then Some 0 else map_option Suc (first_used fs))"

text \<open>The final empty buffer that carries the end of stream to the client.\<close>

definition send_eos :: "NX_VIDDEC \<Rightarrow> NX_VIDDEC option" where
  "send_eos s =
     (if bEnableThumbNailMode s then
        (if NX_GetQueueCnt (pOutputPortQueue s) > 0 then
           (let (rc, e, q) = NX_PopQueue (pOutputPortQueue s); s = s\<lparr>pBufQueue := (pBufQueue s)(1 := q)\<rparr>
            in case e of None \<Rightarrow> Some s
               | Some o_ptr \<Rightarrow> do {
                   s \<leftarrow> upd_hdr o_ptr (\<lambda>h. h\<lparr>nTimeStamp := 0, nFlags := OMX_BUFFERFLAG_EOS\<rparr>) s;
                   call_FillBufferDone o_ptr s })
         else Some s)
      else
        (case first_used (outBufferUseFlag s) of
           None \<Rightarrow> Some s
         | Some i \<Rightarrow> do {
             o_ptr \<leftarrow> arr (pOutputBuffers s) i;
             s \<leftarrow> upd_hdr o_ptr (\<lambda>h. h\<lparr>nFilledLen := 0, nTimeStamp := 0, nFlags := OMX_BUFFERFLAG_EOS\<rparr>)
                    (s\<lparr>outBufferUseFlag := (outBufferUseFlag s)[i := False], curOutBuffers := curOutBuffers s - 1\<rparr>);
             call_FillBufferDone o_ptr s }))"

text \<open>A delayed picture: its timestamp is -1 and its flags 0x10 when the pool is empty.\<close>

definition eos_picture :: "vpu_lib \<Rightarrow> NX_VID_DEC_OUT \<Rightarrow> NX_VIDDEC \<Rightarrow> NX_VIDDEC option" where
  "eos_picture lib out s = do {
     let i = nat (outImgIdx out);
     o_ptr \<leftarrow> arr (pOutputBuffers s) i;
     if bEnableThumbNailMode s then do {
       let (rc, e, q) = NX_PopQueue (pOutputPortQueue s);
       let o_ptr = (case e of Some p \<Rightarrow> p | None \<Rightarrow> o_ptr);
       s \<leftarrow> copy_picture out o_ptr (s\<lparr>pBufQueue := (pBufQueue s)(1 := q)\<rparr>);
       send_output o_ptr (-1, 0x10) s }
     else do {
       used \<leftarrow> arr (outBufferUseFlag s) i;
       if \<not> used then Some (clr_dsp_flag out s)
       else do {
         s \<leftarrow> upd_hdr o_ptr (\<lambda>h. h\<lparr>nFilledLen := sizeof_private_handle lib\<rparr>)
                (s\<lparr>outBufferUseFlag := (outBufferUseFlag s)[i := False], curOutBuffers := curOutBuffers s - 1\<rparr>);
         send_output o_ptr (-1, 0x10) s } } }"

definition processEOS :: "vpu_lib \<Rightarrow> NX_VIDDEC \<Rightarrow> NX_VIDDEC option" where
  "processEOS lib s =
     (if hVpuCodec s \<noteq> NULL then
        (let ((ret, out), s) = vpu_decode lib [] 0 True s in
         if ret = VID_ERR_NONE lib \<and> 0 \<le> outImgIdx out \<and> outImgIdx out < int NX_OMX_MAX_BUF
         then eos_picture lib out s else send_eos s)
      else send_eos s)"

end
