(* ===== verification/VidDecFrame.thy ===== *)
theory VidDecFrame
  imports VidDecCodec
begin

text \<open>
  What every frame function promises, whatever the codec: it takes the first input buffer and gives
  exactly that one back, it hands over at most one output buffer, and the pool of output buffers
  loses exactly the buffers that were handed over. The promise of a codec's own part is the locale
  \<open>frame_decoder\<close>; each codec is an interpretation of it.
\<close>

section \<open>The shared state\<close>

text \<open>
  The part of the state that the threads and the client share, and that decoding must not touch. Of a port
  it is what the buffer accounting needs: a new resolution changes the video format and the buffer size.
\<close>

definition port_shape where
  "port_shape p = (nBufferCountActual p, nAllocatedBuf p, bPopulated p, eDir p, eDomain p, eBufferType p)"

definition kept where
  "kept s = (bEnableThumbNailMode s, bUseNativeBuffer s, eCurState s, eNewState s, pCallbacks s, hBufAllocSem s,
     hBufCtrlSem s, hBufChangeSem s, eCmdBufThread s, (\<lambda>k. port_shape (pPort s k)), pInputBuffers s, pOutputBuffers s, hComp s, nNumPort s,
     cmdQueue s, cmd_mem s)"

lemmas kept_simps = kept_def prod.inject

text \<open>The buffers that the component holds for output.\<close>

definition held_native :: "ptr list \<Rightarrow> bool list \<Rightarrow> ptr multiset" where
  "held_native bs fs = mset (map fst (filter snd (zip bs fs)))"

definition held_out :: "NX_VIDDEC \<Rightarrow> ptr multiset" where
  "held_out s = (if bEnableThumbNailMode s then mset (queue_list (pOutputPortQueue s))
     else held_native (pOutputBuffers s) (outBufferUseFlag s))"

lemma held_native_clear:
  "i < length bs \<Longrightarrow> i < length fs \<Longrightarrow> fs ! i \<Longrightarrow>
     held_native bs fs = add_mset (bs ! i) (held_native bs (fs[i := False]))"
proof (induction bs arbitrary: i fs)
  case Nil
  then show ?case by simp
next
  case (Cons b bs)
  then obtain f fs' where "fs = f # fs'" by (cases fs) auto
  with Cons show ?case by (cases i) (auto simp: held_native_def)
qed

lemma held_native_set:
  "i < length bs \<Longrightarrow> i < length fs \<Longrightarrow> \<not> fs ! i \<Longrightarrow>
     held_native bs (fs[i := True]) = add_mset (bs ! i) (held_native bs fs)"
  using held_native_clear[of i bs "fs[i := True]"] by (simp, metis list_update_id)

section \<open>Steps\<close>

text \<open>
  \<open>calls eb fb s t\<close>: between the two states exactly these buffers were given back, and neither the
  queues nor the pool nor the shared state changed.
\<close>

definition core where
  "core s = (kept s, pBufQueue s, outBufferUseFlag s, curOutBuffers s)"

definition calls :: "ptr list \<Rightarrow> ptr list \<Rightarrow> NX_VIDDEC \<Rightarrow> NX_VIDDEC \<Rightarrow> bool" where
  "calls eb fb s t \<longleftrightarrow> (\<exists>evs. trace t = trace s @ evs \<and> ebd_ptrs evs = eb \<and> fbd_ptrs evs = fb) \<and> core t = core s"

lemma calls_refl [simp]: "calls [] [] s s"
  by (auto simp: calls_def)

lemma calls_trans: "calls a b s t \<Longrightarrow> calls c d t u \<Longrightarrow> calls (a @ c) (b @ d) s u"
  unfolding calls_def by (metis append.assoc ebd_ptrs_append fbd_ptrs_append)

lemma calls_quiet: "trace t = trace s \<Longrightarrow> core t = core s \<Longrightarrow> calls [] [] s t"
  by (auto simp: calls_def)

lemma calls_from_update: "calls a b s' t \<Longrightarrow> trace s' = trace s \<Longrightarrow> core s' = core s \<Longrightarrow> calls a b s t"
  by (auto simp: calls_def)

lemma calls_emit: "ebd_ptrs [e] = eb \<Longrightarrow> fbd_ptrs [e] = fb \<Longrightarrow> calls eb fb s (emit e s)"
  by (auto simp: calls_def core_def kept_def emit_def)

lemma calls_upd_hdr: "upd_hdr p f s = Some t \<Longrightarrow> calls [] [] s t"
  by (auto simp: upd_hdr_def calls_def core_def kept_def split: bind_splits)

lemma calls_EmptyBufferDone: "call_EmptyBufferDone p s = Some t \<Longrightarrow> calls [p] [] s t"
  by (auto simp: call_EmptyBufferDone_def calls_def core_def kept_def emit_def split: bind_splits if_splits)

lemma calls_FillBufferDone: "call_FillBufferDone p s = Some t \<Longrightarrow> calls [] [p] s t"
  by (auto simp: call_FillBufferDone_def calls_def core_def kept_def emit_def split: bind_splits if_splits)

lemma calls_push_stamp [simp]: "calls [] [] s (PushVideoTimeStamp a b s)"
  by (rule calls_quiet) (simp_all add: PushVideoTimeStamp_def core_def kept_def)

lemma calls_pop_stamp: "calls [] [] s (snd (PopVideoTimeStamp s))"
  by (rule calls_quiet) (simp_all add: PopVideoTimeStamp_def core_def kept_def case_prod_unfold Let_def)

lemma calls_clr [simp]: "calls [] [] s (clr_dsp_flag out s)"
  by (simp add: clr_dsp_flag_def calls_emit)

lemma calls_flush: "calls [] [] s (flushVideoCodec s)"
  by (simp add: flushVideoCodec_def InitVideoTimeStamp_def emit_def calls_def core_def kept_def Let_def)

lemma calls_decode: "calls [] [] s (snd (vpu_decode lib bs t e s))"
  by (simp add: vpu_decode_def calls_emit)

lemma calls_stamp_output: "stamp_output p x s = Some t \<Longrightarrow> calls [] [] s t"
  using calls_trans[OF calls_pop_stamp calls_upd_hdr, of _ _ s t]
  by (auto simp: stamp_output_def case_prod_unfold Let_def)

lemma calls_send_output:
  assumes "send_output p x s = Some t"
  shows "calls [] [p] s t"
proof -
  obtain s1 where "stamp_output p x s = Some s1" "call_FillBufferDone p (s1\<lparr>outFrameCount := outFrameCount s1 + 1\<rparr>) = Some t"
    using assms by (auto simp: send_output_def split: bind_splits)
  then show ?thesis
    using calls_trans[OF calls_stamp_output calls_from_update[OF calls_FillBufferDone], of p x s s1 p _ t]
    by (simp add: core_def kept_def)
qed

lemma calls_copy_picture:
  assumes "copy_picture out p s = Some t"
  shows "calls [] [] s t"
proof -
  obtain s1 d where "upd_hdr p (\<lambda>h. h\<lparr>nFilledLen := yuv_size (width s1) (height s1)\<rparr>) s1 = Some t"
    "s1 = clr_dsp_flag out (s\<lparr>byte_mem := d\<rparr>)"
    using assms by (auto simp: copy_picture_def Let_def split: bind_splits)
  moreover have "calls [] [] s (clr_dsp_flag out (s\<lparr>byte_mem := d\<rparr>))"
    by (rule calls_from_update[OF calls_clr]) (simp_all add: core_def kept_def)
  ultimately show ?thesis using calls_trans[OF _ calls_upd_hdr] by fastforce
qed

section \<open>Output\<close>

text \<open>
  \<open>out_step n s t\<close>: \<open>n\<close> output buffers were handed over, and the pool lost exactly these.
\<close>

definition out_step :: "nat \<Rightarrow> NX_VIDDEC \<Rightarrow> NX_VIDDEC \<Rightarrow> bool" where
  "out_step n s t \<longleftrightarrow>
     (\<exists>evs. trace t = trace s @ evs \<and> ebd_ptrs evs = [] \<and> length (fbd_ptrs evs) = n \<and>
        (queue_inv (pOutputPortQueue s) \<longrightarrow> mset (fbd_ptrs evs) + held_out t = held_out s)) \<and>
     kept t = kept s \<and> pInputPortQueue t = pInputPortQueue s \<and>
     (queue_inv (pOutputPortQueue s) \<longrightarrow> queue_inv (pOutputPortQueue t)) \<and>
     bEnabled (pOutputPortQueue t) = bEnabled (pOutputPortQueue s) \<and> (out_pool s \<longrightarrow> out_pool t)"

lemma kept_held:
  "kept t = kept s \<Longrightarrow> bEnableThumbNailMode t = bEnableThumbNailMode s \<and> pOutputBuffers t = pOutputBuffers s"
  by (simp add: kept_def)

lemma out_step_calls: "calls [] fb s t \<Longrightarrow> fb = [] \<Longrightarrow> out_step 0 s t"
  unfolding calls_def core_def out_step_def by (auto simp: held_out_def out_pool_def dest: kept_held)

lemma out_step_trans:
  assumes "out_step m s t" "out_step n t u"
  shows "out_step (m + n) s u"
proof -
  obtain e1 where e1: "trace t = trace s @ e1" "ebd_ptrs e1 = []" "length (fbd_ptrs e1) = m"
    "queue_inv (pOutputPortQueue s) \<longrightarrow> mset (fbd_ptrs e1) + held_out t = held_out s"
    using assms(1) unfolding out_step_def by blast
  obtain e2 where e2: "trace u = trace t @ e2" "ebd_ptrs e2 = []" "length (fbd_ptrs e2) = n"
    "queue_inv (pOutputPortQueue t) \<longrightarrow> mset (fbd_ptrs e2) + held_out u = held_out t"
    using assms(2) unfolding out_step_def by blast
  have "queue_inv (pOutputPortQueue s) \<longrightarrow> mset (fbd_ptrs (e1 @ e2)) + held_out u = held_out s"
    using assms(1) e1(4) e2(4) by (simp add: out_step_def, metis add.assoc)
  with e1 e2 assms show ?thesis unfolding out_step_def by (intro conjI exI[of _ "e1 @ e2"]) auto
qed

text \<open>Taking a buffer out of the pool and handing it over is one step.\<close>

lemma out_step_native:
  assumes "i < length (pOutputBuffers s)" "i < length (outBufferUseFlag s)" "outBufferUseFlag s ! i"
    and "\<not> bEnableThumbNailMode s"
    and "calls [] [pOutputBuffers s ! i]
      (s\<lparr>outBufferUseFlag := (outBufferUseFlag s)[i := False], curOutBuffers := curOutBuffers s - 1\<rparr>) t"
  shows "out_step 1 s t"
proof -
  let ?s = "s\<lparr>outBufferUseFlag := (outBufferUseFlag s)[i := False], curOutBuffers := curOutBuffers s - 1\<rparr>"
  obtain evs where e: "trace t = trace s @ evs" "ebd_ptrs evs = []" "fbd_ptrs evs = [pOutputBuffers s ! i]"
    and c: "core t = core ?s" using assms(5) by (auto simp: calls_def)
  have k: "kept t = kept s" "pBufQueue t = pBufQueue s" "outBufferUseFlag t = (outBufferUseFlag s)[i := False]"
    "curOutBuffers t = curOutBuffers s - 1" using c by (auto simp: core_def kept_def)
  have n: "count_if id (outBufferUseFlag s) = Suc (count_if id ((outBufferUseFlag s)[i := False]))"
    using count_if_update[OF assms(2), of id False] assms(3) by simp
  have "{#pOutputBuffers s ! i#} + held_out t = held_out s"
    using held_native_clear[OF assms(1-3)] k(1,3) assms(4) by (simp add: held_out_def kept_def)
  then show ?thesis
    using e k n kept_held[OF k(1)] unfolding out_step_def out_pool_def
    by (intro conjI exI[of _ evs]) simp_all
qed

lemma out_step_copy:
  assumes "NX_PopQueue (pOutputPortQueue s) = (rc, Some p, q)" and "bEnableThumbNailMode s"
    and "calls [] [p] (s\<lparr>pBufQueue := (pBufQueue s)(1 := q)\<rparr>) t"
  shows "out_step 1 s t"
proof -
  obtain evs where e: "trace t = trace s @ evs" "ebd_ptrs evs = []" "fbd_ptrs evs = [p]"
    and c: "core t = core (s\<lparr>pBufQueue := (pBufQueue s)(1 := q)\<rparr>)" using assms(3) by (auto simp: calls_def)
  have k: "kept t = kept s" "pBufQueue t = (pBufQueue s)(1 := q)" "outBufferUseFlag t = outBufferUseFlag s"
    "curOutBuffers t = curOutBuffers s" using c by (auto simp: core_def kept_def)
  have en: "bEnabled (pOutputPortQueue s)" "bEnabled q" "curElements (pOutputPortQueue s) \<noteq> 0"
    using assms(1) by (auto simp: NX_PopQueue_def split: if_splits)
  have "queue_list (pOutputPortQueue s) = p # queue_list q \<and> queue_inv q" if "queue_inv (pOutputPortQueue s)"
  proof -
    have "queue_list (pOutputPortQueue s) \<noteq> []"
      using en(3) by (metis length_queue_list list.size(3))
    then obtain x xs where x: "queue_list (pOutputPortQueue s) = x # xs" by (cases "queue_list (pOutputPortQueue s)") auto
    with pop_list[OF that x en(1)] pop_inv[OF that] assms(1) show ?thesis by auto
  qed
  then show ?thesis
    using e k en kept_held[OF k(1)] assms(2) unfolding out_step_def held_out_def out_pool_def
    by (intro conjI exI[of _ evs]) auto
qed

definition out_step1 :: "NX_VIDDEC \<Rightarrow> NX_VIDDEC \<Rightarrow> bool" where
  "out_step1 s t \<longleftrightarrow> out_step 0 s t \<or> out_step 1 s t"

lemma out_step1_calls: "calls [] [] s t \<Longrightarrow> out_step1 s t"
  by (simp add: out_step1_def out_step_calls)

lemma out_step1_before: "calls [] [] s t \<Longrightarrow> out_step1 t u \<Longrightarrow> out_step1 s u"
  using out_step_trans[OF out_step_calls[of "[]" s t], of _ u] by (auto simp: out_step1_def)

lemma out_step1_after: "out_step1 s t \<Longrightarrow> calls [] [] t u \<Longrightarrow> out_step1 s u"
  using out_step_trans[OF _ out_step_calls[of "[]" t u], of _ s] by (auto simp: out_step1_def)

lemma out_step_deliver_copy:
  assumes "deliver_copy out b s = Some t" and "bEnableThumbNailMode s"
  shows "out_step 1 s t"
proof -
  obtain rc e q where pop: "NX_PopQueue (pOutputPortQueue s) = (rc, e, q)" by (metis prod_cases3)
  with assms(1) obtain p s1 x where p: "e = Some p"
    "copy_picture out p (s\<lparr>pBufQueue := (pBufQueue s)(1 := q)\<rparr>) = Some s1" "send_output p x s1 = Some t"
    by (auto simp: deliver_copy_def split: bind_splits)
  show ?thesis
    using out_step_copy[OF _ assms(2), of rc p q t] pop p(1)
      calls_trans[OF calls_copy_picture[OF p(2)] calls_send_output[OF p(3)]] by simp
qed

lemma native_hand_over:
  assumes "\<not> bEnableThumbNailMode s" and "i < length (pOutputBuffers s)"
    and "i < length (outBufferUseFlag s)" and "outBufferUseFlag s ! i"
    and "upd_hdr (pOutputBuffers s ! i) f
       (s\<lparr>outBufferUseFlag := (outBufferUseFlag s)[i := False], curOutBuffers := curOutBuffers s - 1\<rparr>) = Some s1"
    and "calls [] [pOutputBuffers s ! i] s1 t"
  shows "out_step 1 s t"
  using out_step_native[OF assms(2-4,1)] calls_trans[OF calls_upd_hdr[OF assms(5)] assms(6)] by simp

lemma out_step_deliver_native:
  assumes "deliver_native lib gated sets out b s = Some t" and "\<not> bEnableThumbNailMode s"
  shows "out_step1 s t"
proof (cases "gated \<and> \<not> isOutIdr s \<and> picType out \<noteq> PIC_TYPE_I lib")
  case True
  with assms(1) show ?thesis by (auto simp: deliver_native_def intro: out_step1_calls)
next
  case False
  define s0 where "s0 = (if sets then s\<lparr>isOutIdr := True\<rparr> else s)"
  let ?i = "nat (outImgIdx out)"
  have s0: "calls [] [] s s0" "\<not> bEnableThumbNailMode s0"
    using assms(2) by (auto simp: s0_def core_def kept_def intro: calls_quiet)
  have i: "?i < length (pOutputBuffers s0)" "?i < length (outBufferUseFlag s0)"
    using assms(1) False unfolding deliver_native_def Let_def s0_def[symmetric] by (auto split: bind_splits)
  have "out_step1 s0 t"
  proof (cases "outBufferUseFlag s0 ! ?i")
    case True
    obtain s1 x where "upd_hdr (pOutputBuffers s0 ! ?i) (\<lambda>h. h\<lparr>nFilledLen := sizeof_private_handle lib\<rparr>)
        (s0\<lparr>outBufferUseFlag := (outBufferUseFlag s0)[?i := False], curOutBuffers := curOutBuffers s0 - 1\<rparr>) = Some s1"
      "send_output (pOutputBuffers s0 ! ?i) x s1 = Some t"
      using assms(1) False True unfolding deliver_native_def Let_def s0_def[symmetric] by (auto split: bind_splits)
    with native_hand_over[OF s0(2) i True] calls_send_output show ?thesis by (auto simp: out_step1_def)
  next
    case no: False
    then have "t = clr_dsp_flag out s0"
      using assms(1) False i unfolding deliver_native_def Let_def s0_def[symmetric] by (auto split: bind_splits)
    then show ?thesis by (simp add: out_step1_calls)
  qed
  with s0(1) show ?thesis by (rule out_step1_before)
qed

lemma out_step_deliver: "deliver lib gated sets ret out b s = Some t \<Longrightarrow> out_step1 s t"
  using out_step_deliver_copy[of out b s t] out_step_deliver_native[of lib gated sets out b s t]
    out_step_calls[of "[]" s s]
  by (auto simp: deliver_def out_step1_def split: if_splits)

lemma out_step_decode_and_deliver:
  assumes "decode_and_deliver lib gated sets bs b h s = Some (ret, t)"
  shows "out_step1 s t"
proof -
  obtain r out s1 where v: "vpu_decode lib bs (nTimeStamp h) False s = ((r, out), s1)" by (metis surj_pair)
  then have "calls [] [] s s1" using calls_decode[of s lib bs "nTimeStamp h" False] by simp
  moreover have "out_step1 s1 t"
    using assms v out_step_deliver by (auto simp: decode_and_deliver_def split: bind_splits)
  ultimately show ?thesis by (rule out_step1_before)
qed

section \<open>Initialisation\<close>

lemma calls_import: "import_buffers lib is s = Some (r, t) \<Longrightarrow> calls [] [] s t"
proof (induction "is" arbitrary: s)
  case (Cons i "is")
  have upd: "calls [] [] s (s\<lparr>vidFrameBuf := v\<rparr>)" for v
    by (rule calls_quiet) (simp_all add: core_def kept_def)
  from Cons.prems consider "t = s" | v where "import_buffers lib is (s\<lparr>vidFrameBuf := v\<rparr>) = Some (r, t)"
    by (auto simp: Let_def split: bind_splits if_splits prod.splits)
  then show ?case using Cons.IH calls_trans[OF upd] by cases fastforce+
qed simp

lemma calls_InitializeCodaVpu:
  assumes "InitializeCodaVpu lib bs s = Some (ret, t)"
  shows "calls [] [] s t"
proof (cases "hVpuCodec s = NULL")
  case True
  with assms show ?thesis by (simp add: InitializeCodaVpu_def)
next
  case False
  define r0 where "r0 = (if bUseNativeBuffer s then import_buffers lib [0..<nat (outUsableBuffers s)] s else Some (None, s))"
  obtain r s1 where r: "r0 = Some (r, s1)"
    using assms False by (auto simp: InitializeCodaVpu_def r0_def[symmetric] split: bind_splits)
  have "calls [] [] s s1"
    using r calls_import by (auto simp: r0_def split: if_splits)
  moreover have "calls [] [] s1 t"
  proof (cases r)
    case (Some c)
    with assms False r show ?thesis by (simp add: InitializeCodaVpu_def r0_def[symmetric])
  next
    case None
    with assms False r obtain x y where "t = (emit (VpuInit (hVpuCodec s1) bs) s1)\<lparr>minRequiredFrameBuffer := x, outBufferable := y\<rparr>"
      by (auto simp: InitializeCodaVpu_def r0_def[symmetric] Let_def split: prod.splits)
    then show ?thesis
      using calls_trans[OF calls_emit[of "VpuInit (hVpuCodec s1) bs" "[]" "[]" s1] calls_quiet[of t]]
      by (simp add: core_def kept_def)
  qed
  ultimately show ?thesis using calls_trans by fastforce
qed

lemma calls_init_codec:
  assumes "init_codec lib bs s = Some (ret, t)"
  shows "calls [] [] s t"
proof -
  obtain r s1 where "InitializeCodaVpu lib bs s = Some (r, s1)" "t = s1 \<or> t = s1\<lparr>bNeedKey := False, bInitialized := True\<rparr>"
    using assms by (auto simp: init_codec_def split: bind_splits if_splits)
  moreover have "calls [] [] s1 (s1\<lparr>bNeedKey := False, bInitialized := True\<rparr>)"
    by (rule calls_quiet) (simp_all add: core_def kept_def)
  ultimately show ?thesis
    using calls_InitializeCodaVpu calls_trans[of "[]" "[]" s s1 "[]" "[]"] by fastforce
qed

section \<open>The contract of a frame function\<close>

definition frame_contract :: "NX_VIDDEC \<Rightarrow> int \<Rightarrow> NX_VIDDEC \<Rightarrow> bool" where
  "frame_contract s ret t \<longleftrightarrow>
     kept t = kept s \<and> queue_inv (pInputPortQueue t) \<and> bEnabled (pInputPortQueue t) \<and>
     (out_pool s \<longrightarrow> out_pool t) \<and> (queue_inv (pOutputPortQueue s) \<longrightarrow> queue_inv (pOutputPortQueue t)) \<and>
     bEnabled (pOutputPortQueue t) = bEnabled (pOutputPortQueue s) \<and>
     (\<exists>evs. trace t = trace s @ evs \<and>
        (queue_inv (pOutputPortQueue s) \<longrightarrow> mset (fbd_ptrs evs) + held_out t = held_out s) \<and>
        (case queue_list (pInputPortQueue s) of
           [] \<Rightarrow> ret = 0 \<and> ebd_ptrs evs = [] \<and> fbd_ptrs evs = [] \<and> queue_list (pInputPortQueue t) = []
         | b # bs \<Rightarrow> ebd_ptrs evs = [b] \<and> length (fbd_ptrs evs) \<le> 1 \<and> queue_list (pInputPortQueue t) = bs \<and>
             (\<exists>h. last evs = EmptyBufferDone b h \<and> nFilledLen h = 0)))"

definition in_ready :: "NX_VIDDEC \<Rightarrow> bool" where
  "in_ready s \<longleftrightarrow> queue_inv (pInputPortQueue s) \<and> bEnabled (pInputPortQueue s) \<and> NULL \<notin> set (queue_list (pInputPortQueue s))"

lemma decode_exit_spec:
  assumes "decode_exit b ret s = Some (r, t)"
  shows "r = ret \<and> core t = core s \<and> (\<exists>h. trace t = trace s @ [EmptyBufferDone b h] \<and> nFilledLen h = 0)"
  using assms
  by (auto simp: decode_exit_def upd_hdr_def call_EmptyBufferDone_def emit_def core_def kept_def split: bind_splits if_splits)

text \<open>The state after the prologue: the flush, if one was pending, left the buffers alone.\<close>

lemma decode_prologue_spec:
  assumes "in_ready s" and "decode_prologue s = (ob, t)"
  shows "kept t = kept s \<and> pOutputPortQueue t = pOutputPortQueue s \<and> outBufferUseFlag t = outBufferUseFlag s \<and>
     curOutBuffers t = curOutBuffers s \<and> queue_inv (pInputPortQueue t) \<and> bEnabled (pInputPortQueue t) \<and>
     (\<exists>evs. trace t = trace s @ evs \<and> ebd_ptrs evs = [] \<and> fbd_ptrs evs = []) \<and>
     (case queue_list (pInputPortQueue s) of
        [] \<Rightarrow> ob = None \<and> queue_list (pInputPortQueue t) = []
      | b # bs \<Rightarrow> ob = Some b \<and> b \<noteq> NULL \<and> queue_list (pInputPortQueue t) = bs)"
proof -
  define s0 where "s0 = (if bFlush s then (flushVideoCodec s)\<lparr>bFlush := False\<rparr> else s)"
  have "calls [] [] (flushVideoCodec s) ((flushVideoCodec s)\<lparr>bFlush := False\<rparr>)"
    by (rule calls_quiet) (simp_all add: core_def kept_def)
  then have c: "calls [] [] s s0"
    using calls_trans[OF calls_flush] by (auto simp: s0_def)
  let ?q = "pInputPortQueue s"
  obtain rc e q where pop: "NX_PopQueue ?q = (rc, e, q)" by (metis prod_cases3)
  have t: "(ob, t) = (let s1 = s0\<lparr>pBufQueue := (pBufQueue s0)(0 := q)\<rparr> in
      case e of None \<Rightarrow> (None, s1) | Some b \<Rightarrow> if b = NULL then (None, s1) else (Some b, s1\<lparr>inFrameCount := inFrameCount s1 + 1\<rparr>))"
    using assms(2) c pop by (simp add: decode_prologue_def s0_def[symmetric] calls_def core_def)
  have upd: "pBufQueue t = (pBufQueue s0)(0 := q)" "kept t = kept s0" "trace t = trace s0"
    "outBufferUseFlag t = outBufferUseFlag s0" "curOutBuffers t = curOutBuffers s0"
    "ob = (case e of None \<Rightarrow> None | Some b \<Rightarrow> if b = NULL then None else Some b)"
    using t by (auto simp: Let_def kept_def split: option.splits if_splits)
  have q: "queue_inv q" "bEnabled q"
    using pop_inv[of ?q] pop assms(1) by (auto simp: in_ready_def NX_PopQueue_def split: if_splits)
  have l: "case queue_list ?q of [] \<Rightarrow> e = None \<and> queue_list q = []
     | b # bs \<Rightarrow> e = Some b \<and> b \<noteq> NULL \<and> queue_list q = bs"
  proof (cases "queue_list ?q")
    case Nil
    then have "curElements ?q = 0" by (metis length_queue_list list.size(3))
    with pop Nil show ?thesis by (auto simp: NX_PopQueue_def)
  next
    case (Cons b bs)
    with pop_list[of ?q b bs] pop assms(1) show ?thesis by (fastforce simp: in_ready_def)
  qed
  from c have "core s0 = core s" "\<exists>evs. trace s0 = trace s @ evs \<and> ebd_ptrs evs = [] \<and> fbd_ptrs evs = []"
    by (auto simp: calls_def)
  with upd q l show ?thesis by (auto simp: core_def split: list.splits)
qed

locale frame_decoder =
  fixes body :: frame_body
  assumes body_step: "body lib b h s = Some (ret, t) \<Longrightarrow> out_step1 s t"
begin

lemma contract:
  assumes "in_ready s" and "decode_with body lib s = Some (ret, t)"
  shows "frame_contract s ret t"
proof -
  obtain ob s1 where pro: "decode_prologue s = (ob, s1)" by (metis surj_pair)
  note P = decode_prologue_spec[OF assms(1) pro]
  obtain e1 where e1: "trace s1 = trace s @ e1" "ebd_ptrs e1 = []" "fbd_ptrs e1 = []" using P by blast
  have held: "held_out s1 = held_out s" "out_pool s1 = out_pool s"
    using P kept_held[of s1 s] by (auto simp: held_out_def out_pool_def)
  show ?thesis
  proof (cases "queue_list (pInputPortQueue s)")
    case Nil
    with P have "ob = None" by simp
    with assms(2) pro have "ret = 0" "t = s1" by (auto simp: decode_with_def)
    with P e1 held Nil show ?thesis
      unfolding frame_contract_def by (intro conjI exI[of _ e1]) auto
  next
    case (Cons b bs)
    with P have ob: "ob = Some b" "queue_list (pInputPortQueue s1) = bs" by auto
    define s2 where "s2 = (\<lambda>h :: OMX_BUFFERHEADERTYPE. if has_flag (nFlags h) OMX_BUFFERFLAG_EOS then s1\<lparr>bStartEoS := True\<rparr> else s1)"
    have s2: "calls [] [] s1 (s2 h)" for h
      by (rule calls_quiet) (simp_all add: s2_def core_def kept_def)
    obtain h where h0: "hdr_mem s1 b = Some h"
      using assms(2) pro ob(1) by (auto simp: decode_with_def split: bind_splits)
    have run: "decode_with body lib s = (if has_flag (nFlags h) OMX_BUFFERFLAG_EOS \<and> sint (nFilledLen h) \<le> 0
        then decode_exit b 0 (s2 h) else do { (r, s) \<leftarrow> body lib b h (s2 h); decode_exit b r s })"
      using pro ob(1) h0 by (simp add: decode_with_def s2_def Let_def)
    obtain ret' s3 where h: "decode_exit b ret' s3 = Some (ret, t)" "s3 = s2 h \<or> body lib b h (s2 h) = Some (ret', s3)"
      using assms(2) unfolding run by (auto split: bind_splits if_splits)
    then have "out_step1 s1 s3"
      using body_step out_step1_before[OF s2] out_step1_calls[OF s2] by blast
    then obtain n where n: "out_step n s1 s3" "n \<le> 1" by (auto simp: out_step1_def)
    then obtain e2 where e2: "trace s3 = trace s1 @ e2" "ebd_ptrs e2 = []" "length (fbd_ptrs e2) = n"
      "queue_inv (pOutputPortQueue s1) \<longrightarrow> mset (fbd_ptrs e2) + held_out s3 = held_out s1"
      unfolding out_step_def by blast
    obtain h' where x: "core t = core s3" "trace t = trace s3 @ [EmptyBufferDone b h']" "nFilledLen h' = 0"
      using decode_exit_spec[OF h(1)] by blast
    have x': "kept t = kept s3" "pBufQueue t = pBufQueue s3" "held_out t = held_out s3" "out_pool t = out_pool s3"
      using x(1) kept_held[of t s3] by (auto simp: core_def held_out_def out_pool_def)
    have pn: "queue_inv (pInputPortQueue t)" "bEnabled (pInputPortQueue t)" "kept t = kept s"
      "queue_list (pInputPortQueue t) = bs" "out_pool s \<longrightarrow> out_pool t"
      "queue_inv (pOutputPortQueue s) \<longrightarrow> queue_inv (pOutputPortQueue t)"
      "bEnabled (pOutputPortQueue t) = bEnabled (pOutputPortQueue s)"
      using n(1) P x' ob(2) held(2) by (auto simp: out_step_def)
    show ?thesis
      unfolding frame_contract_def
      using e1 e2 x x'(3) pn held(1) P n(2) Cons
      by (intro conjI exI[of _ "e1 @ e2 @ [EmptyBufferDone b h']"]) auto
  qed
qed

end

section \<open>The codecs\<close>

lemma calls_fields:
  "calls [] [] s (s\<lparr>codecSpecificData := a, codecSpecificDataSize := c\<rparr>)"
  "calls [] [] s (s\<lparr>rvFrameCnt := d\<rparr>)" "calls [] [] s (s\<lparr>bNeedSequenceData := f\<rparr>)"
  by (rule calls_quiet, simp_all add: core_def kept_def)+

lemmas frame_simps = case_prod_unfold Let_def
lemmas body_steps = out_step1_calls[OF calls_fields(1)] out_step1_calls[OF calls_refl]
  out_step1_calls[OF calls_init_codec] out_step_decode_and_deliver

interpretation mpeg: frame_decoder mpeg_body
proof
  fix lib b h s ret t
  assume a: "mpeg_body lib b h s = Some (ret, t)"
  let ?s = "PushVideoTimeStamp (nTimeStamp h) (nFlags h) s"
  have i: "bInitialized ?s = bInitialized s" by (simp add: PushVideoTimeStamp_def)
  from a consider c d where "t = s\<lparr>codecSpecificData := c, codecSpecificDataSize := d\<rparr>"
    | bs where "init_codec lib bs ?s = Some (ret, t)"
    | bs where "decode_and_deliver lib False True bs b h ?s = Some (ret, t)"
    by (auto simp: mpeg_body_def Let_def i split: if_splits bind_splits)
  then show "out_step1 s t"
    by cases (auto intro: body_steps out_step1_before[OF calls_push_stamp])
qed

interpretation div3: frame_decoder div3_body
proof
  fix lib b h s ret t
  assume a: "div3_body lib b h s = Some (ret, t)"
  define s1 where "s1 = (if has_flag (nFlags h) OMX_BUFFERFLAG_CODECCONFIG then s
     else PushVideoTimeStamp (nTimeStamp h) (nFlags h) s)"
  have "calls [] [] s s1" by (simp add: s1_def)
  moreover from a consider bs r where "init_codec lib bs s1 = Some (r, t)"
    | bs r where "decode_and_deliver lib True True bs b h s1 = Some (r, t)"
    unfolding div3_body_def s1_def[symmetric] Let_def by (auto split: if_splits bind_splits)
  then have "out_step1 s1 t" by cases (auto intro: body_steps)
  ultimately show "out_step1 s t" by (rule out_step1_before)
qed

interpretation vp8: frame_decoder vp8_body
proof
  fix lib b h s ret t
  assume a: "vp8_body lib b h s = Some (ret, t)"
  let ?s = "PushVideoTimeStamp (nTimeStamp h) (nFlags h) s"
  from a consider bs where "init_codec lib bs ?s = Some (ret, t)"
    | bs where "decode_and_deliver lib False True bs b h ?s = Some (ret, t)"
    by (auto simp: vp8_body_def Let_def split: if_splits bind_splits)
  then show "out_step1 s t" by cases (auto intro: body_steps out_step1_before[OF calls_push_stamp])
qed

interpretation rv: frame_decoder rv_body
proof
  fix lib b h s ret t
  assume a: "rv_body lib b h s = Some (ret, t)"
  define m where "m = (if \<not> bInitialized s then do {
      info \<leftarrow> MakeRVDecodeSpecificInfo (width s) (height s) (pExtraData s) (nExtraDataSize s);
      Some (s\<lparr>codecSpecificData := Some info, codecSpecificDataSize := 26 + nExtraDataSize s\<rparr>) }
    else Some s)"
  from a obtain s1 where s1: "m = Some s1"
    unfolding rv_body_def m_def[symmetric] by (cases m) auto
  then have q: "calls [] [] s s1"
    using calls_fields(1) by (auto simp: m_def split: if_splits bind_splits)
  let ?s = "PushVideoTimeStamp (nTimeStamp h) (nFlags h) s1"
  from a s1 consider bs where "init_codec lib bs ?s = Some (ret, t)"
    | bs c where "decode_and_deliver lib False False bs b h (?s\<lparr>rvFrameCnt := c\<rparr>) = Some (ret, t)"
    unfolding rv_body_def m_def[symmetric] by (auto simp: Let_def split: if_splits bind_splits)
  then have "out_step1 ?s t"
    by cases (auto intro: body_steps out_step1_before[OF calls_fields(2)])
  with q show "out_step1 s t" by (blast intro: out_step1_before calls_push_stamp)
qed

lemma calls_vc1_config: "vc1_config lib h s = Some (ret, t) \<Longrightarrow> calls [] [] s t"
  by (auto simp: vc1_config_def calls_def core_def kept_def Let_def split: bind_splits if_splits)

interpretation vc1: frame_decoder vc1_body
proof
  fix lib b h s ret t
  assume a: "vc1_body lib b h s = Some (ret, t)"
  let ?s = "PushVideoTimeStamp (nTimeStamp h) (nFlags h) s"
  from a consider "vc1_config lib h s = Some (ret, t)"
    | bs c d where "init_codec lib bs (?s\<lparr>codecSpecificData := c, codecSpecificDataSize := d\<rparr>) = Some (ret, t)"
    | bs where "decode_and_deliver lib True True bs b h ?s = Some (ret, t)"
    by (auto simp: vc1_body_def Let_def split: if_splits bind_splits)
  then show "out_step1 s t"
  proof cases
    case 1
    then show ?thesis by (intro out_step1_calls calls_vc1_config)
  next
    case 2
    then show ?thesis
      by (rule out_step1_before[OF calls_push_stamp out_step1_before[OF calls_fields(1) out_step1_calls[OF calls_init_codec]]])
  next
    case 3
    then show ?thesis by (rule out_step1_before[OF calls_push_stamp out_step_decode_and_deliver])
  qed
qed

section \<open>A picture in native window mode\<close>

text \<open>A component that is decoding: the first input buffer is \<open>b\<close> with header \<open>h\<close> and data \<open>bs\<close>.\<close>

definition decoding :: "NX_VIDDEC \<Rightarrow> ptr \<Rightarrow> OMX_BUFFERHEADERTYPE \<Rightarrow> OMX_U8 list \<Rightarrow> bool" where
  "decoding s b h bs \<longleftrightarrow> in_ready s \<and> (\<exists>rest. queue_list (pInputPortQueue s) = b # rest) \<and> \<not> bFlush s \<and>
     bInitialized s \<and> hdr_mem s b = Some h \<and> in_bytes h s = Some bs \<and> 0 < sint (nFilledLen h) \<and>
     cbEmptyBufferDone (pCallbacks s) \<noteq> NULL \<and> cbFillBufferDone (pCallbacks s) \<noteq> NULL"

lemma ready_prologue:
  assumes "in_ready s" and "queue_list (pInputPortQueue s) = b # rest" and "\<not> bFlush s"
  obtains q n where "decode_prologue s = (Some b, s\<lparr>pBufQueue := q, inFrameCount := n\<rparr>)"
proof -
  obtain rc e q' where pop: "NX_PopQueue (pInputPortQueue s) = (rc, e, q')" by (metis prod_cases3)
  have "e = Some b" "b \<noteq> NULL"
    using pop_list[OF _ assms(2)] pop assms(1,2) by (auto simp: in_ready_def)
  with pop assms(3) that[of "inFrameCount s + 1" "(pBufQueue s)(0 := q')"]
  show thesis by (simp add: decode_prologue_def)
qed

lemma deliver_native_spec:
  assumes "outImgIdx out = int i" "i < NX_OMX_MAX_BUF" "\<not> bEnableThumbNailMode s" "out_pool s"
    and "hdr_mem s (pOutputBuffers s ! i) = Some ho" "hdr_mem s b = Some h" "pOutputBuffers s ! i \<noteq> b"
    and "cbFillBufferDone (pCallbacks s) \<noteq> NULL"
    and "stamp = (case fst (PopVideoTimeStamp s) of Some p \<Rightarrow> p | None \<Rightarrow> (nTimeStamp h, nFlags h))"
  shows "\<exists>t. deliver lib False True (VID_ERR_NONE lib) out b s = Some t \<and> hdr_mem t b = Some h \<and> pCallbacks t = pCallbacks s \<and>
     (if outBufferUseFlag s ! i
      then trace t = trace s @ [FillBufferDone (pOutputBuffers s ! i) (ho\<lparr>nFilledLen := sizeof_private_handle lib,
          nTimeStamp := fst stamp, nFlags := snd stamp\<rparr>)] \<and>
        outBufferUseFlag t = (outBufferUseFlag s)[i := False] \<and> curOutBuffers t = curOutBuffers s - 1
      else trace t = trace s @ [VpuClrDspFlag (hVpuCodec s) (int i)] \<and>
        outBufferUseFlag t = outBufferUseFlag s \<and> curOutBuffers t = curOutBuffers s)"
  using assms
  by (cases stamp) (auto simp: deliver_def deliver_native_def out_pool_def arr_def clr_dsp_flag_def emit_def upd_hdr_def
      send_output_def stamp_output_def PopVideoTimeStamp_def call_FillBufferDone_def Let_def case_prod_unfold)

lemma mpeg2_frame_picture:
  assumes "decoding s b h bs" and "\<not> bEnableThumbNailMode s" and "out_pool s"
    and "NX_VidDecDecodeFrame lib (hVpuCodec s) \<lparr>strmBuf = bs, in_timeStamp = nTimeStamp h, eos = False\<rparr> =
      (VID_ERR_NONE lib, out)"
    and "outImgIdx out = int i" and "i < NX_OMX_MAX_BUF" and "pOutputBuffers s ! i = p" and "p \<noteq> b"
    and "hdr_mem s p = Some ho"
    and "stamp = (case fst (PopVideoTimeStamp (PushVideoTimeStamp (nTimeStamp h) (nFlags h) s)) of
      Some st \<Rightarrow> st | None \<Rightarrow> (nTimeStamp h, nFlags h))"
  shows "\<exists>t. NX_DecodeMpeg2Frame lib s = Some (VID_ERR_NONE lib, t) \<and>
     trace t = trace s @ [VpuDecode (hVpuCodec s) bs False,
       if outBufferUseFlag s ! i
       then FillBufferDone p (ho\<lparr>nFilledLen := sizeof_private_handle lib, nTimeStamp := fst stamp, nFlags := snd stamp\<rparr>)
       else VpuClrDspFlag (hVpuCodec s) (int i),
       EmptyBufferDone b (h\<lparr>nFilledLen := 0\<rparr>)] \<and>
     outBufferUseFlag t = (outBufferUseFlag s)[i := False] \<and>
     curOutBuffers t = (if outBufferUseFlag s ! i then curOutBuffers s - 1 else curOutBuffers s)"
proof -
  obtain q n where pro: "decode_prologue s = (Some b, s\<lparr>pBufQueue := q, inFrameCount := n\<rparr>)"
    using ready_prologue[of s b] assms(1) unfolding decoding_def by blast
  define s2 where "s2 = (if has_flag (nFlags h) OMX_BUFFERFLAG_EOS then s\<lparr>pBufQueue := q, inFrameCount := n, bStartEoS := True\<rparr>
    else s\<lparr>pBufQueue := q, inFrameCount := n\<rparr>)"
  define s3 where "s3 = emit (VpuDecode (hVpuCodec s) bs False) (PushVideoTimeStamp (nTimeStamp h) (nFlags h) s2)"
  note d = assms(1)[unfolded decoding_def]
  have s3: "trace s3 = trace s @ [VpuDecode (hVpuCodec s) bs False]" "hdr_mem s3 = hdr_mem s"
    "outBufferUseFlag s3 = outBufferUseFlag s" "curOutBuffers s3 = curOutBuffers s" "pOutputBuffers s3 = pOutputBuffers s"
    "pCallbacks s3 = pCallbacks s" "bEnableThumbNailMode s3 = bEnableThumbNailMode s" "hVpuCodec s3 = hVpuCodec s"
    "out_pool s3" "fst (PopVideoTimeStamp s3) = fst (PopVideoTimeStamp (PushVideoTimeStamp (nTimeStamp h) (nFlags h) s))"
    using assms(3) by (simp_all add: s3_def s2_def emit_def PushVideoTimeStamp_def out_pool_def PopVideoTimeStamp_def case_prod_unfold Let_def)
  obtain s4 where s4: "deliver lib False True (VID_ERR_NONE lib) out b s3 = Some s4" "hdr_mem s4 b = Some h" "pCallbacks s4 = pCallbacks s"
    "if outBufferUseFlag s ! i
     then trace s4 = trace s3 @ [FillBufferDone p (ho\<lparr>nFilledLen := sizeof_private_handle lib,
         nTimeStamp := fst stamp, nFlags := snd stamp\<rparr>)] \<and>
       outBufferUseFlag s4 = (outBufferUseFlag s)[i := False] \<and> curOutBuffers s4 = curOutBuffers s - 1
     else trace s4 = trace s3 @ [VpuClrDspFlag (hVpuCodec s) (int i)] \<and>
       outBufferUseFlag s4 = outBufferUseFlag s \<and> curOutBuffers s4 = curOutBuffers s"
    using deliver_native_spec[of out i s3 ho b h stamp lib] assms d by (auto simp: s3)
  have s2: "bInitialized s2" "byte_mem s2 = byte_mem s" "hVpuCodec s2 = hVpuCodec s"
    using d by (simp_all add: s2_def)
  have body: "mpeg_body lib b h s2 = Some (VID_ERR_NONE lib, s4)"
    using d assms(4) s4(1) s2
    by (simp add: mpeg_body_def decode_and_deliver_def vpu_decode_def s3_def in_bytes_def in_data_def
        PushVideoTimeStamp_def Let_def)
  have ex: "decode_exit b (VID_ERR_NONE lib) s4 = Some (VID_ERR_NONE lib,
      emit (EmptyBufferDone b (h\<lparr>nFilledLen := 0\<rparr>)) (s4\<lparr>hdr_mem := (hdr_mem s4)(b \<mapsto> h\<lparr>nFilledLen := 0\<rparr>)\<rparr>))"
    using s4(2,3) d by (simp add: decode_exit_def upd_hdr_def call_EmptyBufferDone_def)
  have "NX_DecodeMpeg2Frame lib s = decode_exit b (VID_ERR_NONE lib) s4"
    using pro d body by (simp add: NX_DecodeMpeg2Frame_def decode_with_def s2_def Let_def)
  moreover have "(outBufferUseFlag s)[i := False] = outBufferUseFlag s" if "\<not> outBufferUseFlag s ! i"
    using that by (metis (full_types) list_update_id)
  ultimately show ?thesis using ex s4(4) s3(1) by (auto simp: emit_def)
qed

text \<open>
  C13: One MPEG-2 frame in native window mode: the coded bytes of the first input buffer are decoded; the
  picture that the library reports is handed to the client in the output buffer with its index, with
  the earliest pending timestamp, and that buffer leaves the pool; the input buffer goes back last,
  empty. If the component does not hold the buffer with that index, the picture is released to the
  library instead.
\<close>

theorem mpeg2_frame_shows_picture:
  assumes "decoding s b h bs" and "\<not> bEnableThumbNailMode s" and "out_pool s"
    and "NX_VidDecDecodeFrame lib (hVpuCodec s) \<lparr>strmBuf = bs, in_timeStamp = nTimeStamp h, eos = False\<rparr> =
      (VID_ERR_NONE lib, out)"
    and "outImgIdx out = int i" and "i < NX_OMX_MAX_BUF" and "pOutputBuffers s ! i = p" and "p \<noteq> b"
    and "hdr_mem s p = Some ho"
    and "stamp = (case fst (PopVideoTimeStamp (PushVideoTimeStamp (nTimeStamp h) (nFlags h) s)) of
      Some st \<Rightarrow> st | None \<Rightarrow> (nTimeStamp h, nFlags h))"
  shows "\<exists>t. NX_DecodeMpeg2Frame lib s = Some (VID_ERR_NONE lib, t) \<and>
     trace t = trace s @ [VpuDecode (hVpuCodec s) bs False,
       if outBufferUseFlag s ! i
       then FillBufferDone p (ho\<lparr>nFilledLen := sizeof_private_handle lib, nTimeStamp := fst stamp, nFlags := snd stamp\<rparr>)
       else VpuClrDspFlag (hVpuCodec s) (int i),
       EmptyBufferDone b (h\<lparr>nFilledLen := 0\<rparr>)] \<and>
     outBufferUseFlag t = (outBufferUseFlag s)[i := False] \<and>
     curOutBuffers t = (if outBufferUseFlag s ! i then curOutBuffers s - 1 else curOutBuffers s)"
  by (rule mpeg2_frame_picture[OF assms])

text \<open>A library that decodes every frame to picture 1, and a component that decodes with it.\<close>

definition sample_lib :: vpu_lib where
  "sample_lib = \<lparr>NX_VidDecOpen = (\<lambda>_ _. 9), NX_VidDecInit = (\<lambda>_ _. (0, \<lparr>minBuffers = 1, seq_numBuffers = 5\<rparr>)),
     NX_VidDecDecodeFrame = (\<lambda>_ _. (0, \<lparr>outImgIdx = 1, picType = 0, luVirAddr = [], cbVirAddr = [], crVirAddr = [],
       out_luStride = 0, out_cbStride = 0\<rparr>)),
     VID_ERR_NONE = 0, PIC_TYPE_I = 0, MAX_DEC_FRAME_BUFFERS = 31, HAL_PIXEL_FORMAT_YV12 = 0,
     sizeof_private_handle = 64, GRALLOC_USAGE_DISPLAY = 0, gralloc_handle = (\<lambda>_. None), ion_open = 3,
     ion_get_phys = (\<lambda>_ _. (0, 0)), heap_junk = (\<lambda>_. 0),
     rbsp_static = replicate 65536 0\<rparr>"

lemma sample_lib_simps [simp]:
  "NX_VidDecDecodeFrame sample_lib c i = (0, \<lparr>outImgIdx = 1, picType = 0, luVirAddr = [], cbVirAddr = [], crVirAddr = [],
     out_luStride = 0, out_cbStride = 0\<rparr>)" "VID_ERR_NONE sample_lib = 0" "NX_VidDecOpen sample_lib codec cls = 9"
  by (simp_all add: sample_lib_def)

definition decoding_viddec :: NX_VIDDEC where
  "decoding_viddec = native_viddec\<lparr>pBufQueue := (\<lambda>k. if k = 0 then snd (NX_PushQueue (snd (NX_InitQueue 0 32)) 7)
       else snd (NX_InitQueue 0 32)), bInitialized := True, hVpuCodec := 9, DecodeFrame := Some NX_DecodeMpeg2Frame_ptr,
     hdr_mem := [7 \<mapsto> zero_hdr\<lparr>pBuffer := 70, nFilledLen := 2\<rparr>, 12 \<mapsto> zero_hdr], byte_mem := [70 \<mapsto> [1, 2, 3]],
     outBufferUseFlag := (replicate NX_OMX_MAX_BUF False)[1 := True], curOutBuffers := 1\<rparr>"

lemma init_queue_32: "queue_inv (snd (NX_InitQueue 0 32))" "bEnabled (snd (NX_InitQueue 0 32))"
  "maxElement (snd (NX_InitQueue 0 32)) = 32" "queue_list (snd (NX_InitQueue 0 32)) = []"
  by (simp_all add: init_queue_inv init_queue_list) (simp_all add: NX_InitQueue_def)

lemma pushed_queue_32: "queue_inv (snd (NX_PushQueue (snd (NX_InitQueue 0 32)) p))"
  "bEnabled (snd (NX_PushQueue (snd (NX_InitQueue 0 32)) p))"
  "queue_list (snd (NX_PushQueue (snd (NX_InitQueue 0 32)) p)) = [p]"
proof -
  have "curElements (snd (NX_InitQueue 0 32)) = 0" by (simp add: NX_InitQueue_def zero_queue_def)
  with push_list[OF init_queue_32(1), of p] init_queue_32 push_inv[OF init_queue_32(1), of p]
  show "queue_inv (snd (NX_PushQueue (snd (NX_InitQueue 0 32)) p))"
    "bEnabled (snd (NX_PushQueue (snd (NX_InitQueue 0 32)) p))"
    "queue_list (snd (NX_PushQueue (snd (NX_InitQueue 0 32)) p)) = [p]"
    by (simp_all add: NX_PushQueue_def)
qed

lemma decoding_viddec_ready:
  "decoding decoding_viddec 7 (zero_hdr\<lparr>pBuffer := 70, nFilledLen := 2\<rparr>) [1, 2]"
  "out_pool decoding_viddec" "\<not> bEnableThumbNailMode decoding_viddec" "pOutputBuffers decoding_viddec ! 1 = 12"
  "hdr_mem decoding_viddec 12 = Some zero_hdr" "hVpuCodec decoding_viddec = 9" "outBufferUseFlag decoding_viddec ! 1"
  "curOutBuffers decoding_viddec = 1" "in_ready decoding_viddec" "DecodeFrame decoding_viddec = Some NX_DecodeMpeg2Frame_ptr"
proof -
  show "in_ready decoding_viddec"
    by (simp add: in_ready_def decoding_viddec_def pushed_queue_32)
  show "decoding decoding_viddec 7 (zero_hdr\<lparr>pBuffer := 70, nFilledLen := 2\<rparr>) [1, 2]"
    by (simp add: decoding_def in_ready_def decoding_viddec_def pushed_queue_32)
      (simp add: native_viddec_def idle_viddec_def zero_viddec_def in_bytes_def in_data_def rd_block_def rd_def)
  show "out_pool decoding_viddec"
    using count_if_update[of 1 "replicate NX_OMX_MAX_BUF False" id True]
    by (simp add: count_if_replicate out_pool_def decoding_viddec_def native_viddec_def idle_viddec_def zero_viddec_def)
qed (simp_all add: decoding_viddec_def native_viddec_def idle_viddec_def zero_viddec_def)

theorem mpeg2_frame_shows_picture_witness:
  "\<exists>t. NX_DecodeMpeg2Frame sample_lib decoding_viddec = Some (0, t) \<and> curOutBuffers t = 0"
  using mpeg2_frame_shows_picture[OF decoding_viddec_ready(1,3,2), of sample_lib _ 1 12 zero_hdr, OF _ _ _ decoding_viddec_ready(4) _
    decoding_viddec_ready(5) HOL.refl]
    decoding_viddec_ready(7,8) by (auto simp: sample_lib_simps)

section \<open>End of stream\<close>

lemma first_used_Some: "first_used fs = Some i \<Longrightarrow> i < length fs \<and> fs ! i"
  by (induction fs arbitrary: i) (auto split: if_splits)

lemma first_used_None: "first_used fs = None \<longleftrightarrow> True \<notin> set fs"
  by (induction fs) auto

text \<open>The guard under which the buffer thread calls \<open>processEOS\<close> in thumbnail mode.\<close>

definition eos_ready :: "NX_VIDDEC \<Rightarrow> bool" where
  "eos_ready s \<longleftrightarrow> (bEnableThumbNailMode s \<longrightarrow> NX_GetQueueCnt (pOutputPortQueue s) > 0 \<and> bEnabled (pOutputPortQueue s))"

lemma eos_pop:
  assumes "eos_ready s" "bEnableThumbNailMode s"
  obtains rc p q where "NX_PopQueue (pOutputPortQueue s) = (rc, Some p, q)"
  using assms that by (auto simp: eos_ready_def NX_GetQueueCnt_def NX_PopQueue_def)

lemma out_step_send_eos:
  assumes "send_eos s = Some t" and "eos_ready s"
  shows "out_step1 s t"
proof (cases "bEnableThumbNailMode s")
  case True
  obtain rc p q where pop: "NX_PopQueue (pOutputPortQueue s) = (rc, Some p, q)" by (rule eos_pop[OF assms(2) True])
  with assms True obtain s1 where "upd_hdr p (\<lambda>h. h\<lparr>nTimeStamp := 0, nFlags := OMX_BUFFERFLAG_EOS\<rparr>)
      (s\<lparr>pBufQueue := (pBufQueue s)(1 := q)\<rparr>) = Some s1" "call_FillBufferDone p s1 = Some t"
    by (auto simp: send_eos_def eos_ready_def split: bind_splits)
  with out_step_copy[OF pop True] calls_trans[OF calls_upd_hdr calls_FillBufferDone] show ?thesis
    by (fastforce simp: out_step1_def)
next
  case False
  show ?thesis
  proof (cases "first_used (outBufferUseFlag s)")
    case None
    with assms False show ?thesis by (simp add: send_eos_def out_step1_calls)
  next
    case (Some i)
    note i = first_used_Some[OF Some]
    from assms(1) False Some obtain s1 where "i < length (pOutputBuffers s)"
      "upd_hdr (pOutputBuffers s ! i) (\<lambda>h. h\<lparr>nFilledLen := 0, nTimeStamp := 0, nFlags := OMX_BUFFERFLAG_EOS\<rparr>)
         (s\<lparr>outBufferUseFlag := (outBufferUseFlag s)[i := False], curOutBuffers := curOutBuffers s - 1\<rparr>) = Some s1"
      "call_FillBufferDone (pOutputBuffers s ! i) s1 = Some t"
      by (auto simp: send_eos_def split: bind_splits)
    with native_hand_over[OF False _ _ _ _ calls_FillBufferDone] i show ?thesis by (auto simp: out_step1_def)
  qed
qed

lemma out_step_eos_picture:
  assumes "eos_picture lib out s = Some t" and "eos_ready s"
  shows "out_step1 s t"
proof (cases "bEnableThumbNailMode s")
  case True
  obtain rc p q where pop: "NX_PopQueue (pOutputPortQueue s) = (rc, Some p, q)" by (rule eos_pop[OF assms(2) True])
  with assms True obtain s1 where s1: "copy_picture out p (s\<lparr>pBufQueue := (pBufQueue s)(1 := q)\<rparr>) = Some s1"
      "send_output p (-1, 0x10) s1 = Some t"
    by (auto simp: eos_picture_def Let_def split: bind_splits)
  with out_step_copy[OF pop True] calls_trans[OF calls_copy_picture[OF s1(1)] calls_send_output[OF s1(2)]] show ?thesis
    by (simp add: out_step1_def)
next
  case False
  let ?i = "nat (outImgIdx out)"
  have i: "?i < length (pOutputBuffers s)" "?i < length (outBufferUseFlag s)"
    using assms(1) False by (auto simp: eos_picture_def Let_def split: bind_splits)
  show ?thesis
  proof (cases "outBufferUseFlag s ! ?i")
    case no: False
    then have "t = clr_dsp_flag out s" using assms(1) i False by (auto simp: eos_picture_def arr_def Let_def)
    then show ?thesis by (simp add: out_step1_calls)
  next
    case True
    with assms(1) i False obtain s1 where
      "upd_hdr (pOutputBuffers s ! ?i) (\<lambda>h. h\<lparr>nFilledLen := sizeof_private_handle lib\<rparr>)
         (s\<lparr>outBufferUseFlag := (outBufferUseFlag s)[?i := False], curOutBuffers := curOutBuffers s - 1\<rparr>) = Some s1"
      "send_output (pOutputBuffers s ! ?i) (-1, 0x10) s1 = Some t"
      by (auto simp: eos_picture_def Let_def split: bind_splits)
    with native_hand_over[OF False i True _ calls_send_output] show ?thesis by (auto simp: out_step1_def)
  qed
qed

lemma out_step_processEOS:
  assumes "processEOS lib s = Some t" and "eos_ready s"
  shows "out_step1 s t"
proof (cases "hVpuCodec s = NULL")
  case True
  with assms show ?thesis by (simp add: processEOS_def out_step_send_eos)
next
  case False
  obtain r out s1 where v: "vpu_decode lib [] 0 True s = ((r, out), s1)" by (metis surj_pair)
  have c: "calls [] [] s s1" using calls_decode[of s lib "[]" 0 True] v by simp
  then have "eos_ready s1" using assms(2) by (auto simp: calls_def core_def kept_def eos_ready_def)
  moreover have "eos_picture lib out s1 = Some t \<or> send_eos s1 = Some t"
    using assms(1) v False by (auto simp: processEOS_def split: if_splits)
  ultimately show ?thesis
    using out_step_eos_picture out_step_send_eos out_step1_before[OF c] by blast
qed

end
