(* ===== verification/AvcBits.thy ===== *)
theory AvcBits
  imports OmxPrelude
begin

text \<open>
  The bit reader and the Exp-Golomb decoders of \<open>NX_AVCUtil.h\<close> with their lookup tables of
  \<open>NX_AVCUtil.c\<close>. The buffer of a reader is the list of all bytes from the start of the stream to
  the end of the memory that may be read; the reader loads four bytes at a time, and a load that
  leaves the list is \<open>None\<close>. The specification is on bit lists, most significant bit first.
\<close>

section \<open>Tables\<close>

definition ff_golomb_vlc_len :: "nat list" where
  "ff_golomb_vlc_len = [
    0,0,0,0,0,0,0,0,0,0,0,0,0,0,0,0,9,9,9,9,9,9,9,9,9,9,9,9,9,9,9,9,
    7,7,7,7,7,7,7,7,7,7,7,7,7,7,7,7,7,7,7,7,7,7,7,7,7,7,7,7,7,7,7,7,
    5,5,5,5,5,5,5,5,5,5,5,5,5,5,5,5,5,5,5,5,5,5,5,5,5,5,5,5,5,5,5,5,
    5,5,5,5,5,5,5,5,5,5,5,5,5,5,5,5,5,5,5,5,5,5,5,5,5,5,5,5,5,5,5,5,
    3,3,3,3,3,3,3,3,3,3,3,3,3,3,3,3,3,3,3,3,3,3,3,3,3,3,3,3,3,3,3,3,
    3,3,3,3,3,3,3,3,3,3,3,3,3,3,3,3,3,3,3,3,3,3,3,3,3,3,3,3,3,3,3,3,
    3,3,3,3,3,3,3,3,3,3,3,3,3,3,3,3,3,3,3,3,3,3,3,3,3,3,3,3,3,3,3,3,
    3,3,3,3,3,3,3,3,3,3,3,3,3,3,3,3,3,3,3,3,3,3,3,3,3,3,3,3,3,3,3,3,
    1,1,1,1,1,1,1,1,1,1,1,1,1,1,1,1,1,1,1,1,1,1,1,1,1,1,1,1,1,1,1,1,
    1,1,1,1,1,1,1,1,1,1,1,1,1,1,1,1,1,1,1,1,1,1,1,1,1,1,1,1,1,1,1,1,
    1,1,1,1,1,1,1,1,1,1,1,1,1,1,1,1,1,1,1,1,1,1,1,1,1,1,1,1,1,1,1,1,
    1,1,1,1,1,1,1,1,1,1,1,1,1,1,1,1,1,1,1,1,1,1,1,1,1,1,1,1,1,1,1,1,
    1,1,1,1,1,1,1,1,1,1,1,1,1,1,1,1,1,1,1,1,1,1,1,1,1,1,1,1,1,1,1,1,
    1,1,1,1,1,1,1,1,1,1,1,1,1,1,1,1,1,1,1,1,1,1,1,1,1,1,1,1,1,1,1,1,
    1,1,1,1,1,1,1,1,1,1,1,1,1,1,1,1,1,1,1,1,1,1,1,1,1,1,1,1,1,1,1,1,
    1,1,1,1,1,1,1,1,1,1,1,1,1,1,1,1,1,1,1,1,1,1,1,1,1,1,1,1,1,1,1,1]"

definition ff_log2_tab :: "nat list" where
  "ff_log2_tab = [
    0,0,1,1,2,2,2,2,3,3,3,3,3,3,3,3,4,4,4,4,4,4,4,4,4,4,4,4,4,4,4,4,
    5,5,5,5,5,5,5,5,5,5,5,5,5,5,5,5,5,5,5,5,5,5,5,5,5,5,5,5,5,5,5,5,
    6,6,6,6,6,6,6,6,6,6,6,6,6,6,6,6,6,6,6,6,6,6,6,6,6,6,6,6,6,6,6,6,
    6,6,6,6,6,6,6,6,6,6,6,6,6,6,6,6,6,6,6,6,6,6,6,6,6,6,6,6,6,6,6,6,
    7,7,7,7,7,7,7,7,7,7,7,7,7,7,7,7,7,7,7,7,7,7,7,7,7,7,7,7,7,7,7,7,
    7,7,7,7,7,7,7,7,7,7,7,7,7,7,7,7,7,7,7,7,7,7,7,7,7,7,7,7,7,7,7,7,
    7,7,7,7,7,7,7,7,7,7,7,7,7,7,7,7,7,7,7,7,7,7,7,7,7,7,7,7,7,7,7,7,
    7,7,7,7,7,7,7,7,7,7,7,7,7,7,7,7,7,7,7,7,7,7,7,7,7,7,7,7,7,7,7,7]"

definition ff_ue_golomb_vlc_code :: "nat list" where
  "ff_ue_golomb_vlc_code = [
    0,0,0,0,0,0,0,0,0,0,0,0,0,0,0,0,15,16,17,18,19,20,21,22,23,24,25,26,27,28,29,30,
    7,7,7,7,8,8,8,8,9,9,9,9,10,10,10,10,11,11,11,11,12,12,12,12,13,13,13,13,14,14,14,14,
    3,3,3,3,3,3,3,3,3,3,3,3,3,3,3,3,4,4,4,4,4,4,4,4,4,4,4,4,4,4,4,4,
    5,5,5,5,5,5,5,5,5,5,5,5,5,5,5,5,6,6,6,6,6,6,6,6,6,6,6,6,6,6,6,6,
    1,1,1,1,1,1,1,1,1,1,1,1,1,1,1,1,1,1,1,1,1,1,1,1,1,1,1,1,1,1,1,1,
    1,1,1,1,1,1,1,1,1,1,1,1,1,1,1,1,1,1,1,1,1,1,1,1,1,1,1,1,1,1,1,1,
    2,2,2,2,2,2,2,2,2,2,2,2,2,2,2,2,2,2,2,2,2,2,2,2,2,2,2,2,2,2,2,2,
    2,2,2,2,2,2,2,2,2,2,2,2,2,2,2,2,2,2,2,2,2,2,2,2,2,2,2,2,2,2,2,2,
    0,0,0,0,0,0,0,0,0,0,0,0,0,0,0,0,0,0,0,0,0,0,0,0,0,0,0,0,0,0,0,0,
    0,0,0,0,0,0,0,0,0,0,0,0,0,0,0,0,0,0,0,0,0,0,0,0,0,0,0,0,0,0,0,0,
    0,0,0,0,0,0,0,0,0,0,0,0,0,0,0,0,0,0,0,0,0,0,0,0,0,0,0,0,0,0,0,0,
    0,0,0,0,0,0,0,0,0,0,0,0,0,0,0,0,0,0,0,0,0,0,0,0,0,0,0,0,0,0,0,0,
    0,0,0,0,0,0,0,0,0,0,0,0,0,0,0,0,0,0,0,0,0,0,0,0,0,0,0,0,0,0,0,0,
    0,0,0,0,0,0,0,0,0,0,0,0,0,0,0,0,0,0,0,0,0,0,0,0,0,0,0,0,0,0,0,0,
    0,0,0,0,0,0,0,0,0,0,0,0,0,0,0,0,0,0,0,0,0,0,0,0,0,0,0,0,0,0,0,0,
    0,0,0,0,0,0,0,0,0,0,0,0,0,0,0,0,0,0,0,0,0,0,0,0,0,0,0,0,0,0,0,0]"

definition ff_se_golomb_vlc_code :: "int list" where
  "ff_se_golomb_vlc_code = [
    0,0,0,0,0,0,0,0,0,0,0,0,0,0,0,0,8,-8,9,-9,10,-10,11,-11,12,-12,13,-13,14,-14,15,-15,
    4,4,4,4,-4,-4,-4,-4,5,5,5,5,-5,-5,-5,-5,6,6,6,6,-6,-6,-6,-6,7,7,7,7,-7,-7,-7,-7,
    2,2,2,2,2,2,2,2,2,2,2,2,2,2,2,2,-2,-2,-2,-2,-2,-2,-2,-2,-2,-2,-2,-2,-2,-2,-2,-2,
    3,3,3,3,3,3,3,3,3,3,3,3,3,3,3,3,-3,-3,-3,-3,-3,-3,-3,-3,-3,-3,-3,-3,-3,-3,-3,-3,
    1,1,1,1,1,1,1,1,1,1,1,1,1,1,1,1,1,1,1,1,1,1,1,1,1,1,1,1,1,1,1,1,
    1,1,1,1,1,1,1,1,1,1,1,1,1,1,1,1,1,1,1,1,1,1,1,1,1,1,1,1,1,1,1,1,
    -1,-1,-1,-1,-1,-1,-1,-1,-1,-1,-1,-1,-1,-1,-1,-1,-1,-1,-1,-1,-1,-1,-1,-1,-1,-1,-1,-1,-1,-1,-1,-1,
    -1,-1,-1,-1,-1,-1,-1,-1,-1,-1,-1,-1,-1,-1,-1,-1,-1,-1,-1,-1,-1,-1,-1,-1,-1,-1,-1,-1,-1,-1,-1,-1,
    0,0,0,0,0,0,0,0,0,0,0,0,0,0,0,0,0,0,0,0,0,0,0,0,0,0,0,0,0,0,0,0,
    0,0,0,0,0,0,0,0,0,0,0,0,0,0,0,0,0,0,0,0,0,0,0,0,0,0,0,0,0,0,0,0,
    0,0,0,0,0,0,0,0,0,0,0,0,0,0,0,0,0,0,0,0,0,0,0,0,0,0,0,0,0,0,0,0,
    0,0,0,0,0,0,0,0,0,0,0,0,0,0,0,0,0,0,0,0,0,0,0,0,0,0,0,0,0,0,0,0,
    0,0,0,0,0,0,0,0,0,0,0,0,0,0,0,0,0,0,0,0,0,0,0,0,0,0,0,0,0,0,0,0,
    0,0,0,0,0,0,0,0,0,0,0,0,0,0,0,0,0,0,0,0,0,0,0,0,0,0,0,0,0,0,0,0,
    0,0,0,0,0,0,0,0,0,0,0,0,0,0,0,0,0,0,0,0,0,0,0,0,0,0,0,0,0,0,0,0,
    0,0,0,0,0,0,0,0,0,0,0,0,0,0,0,0,0,0,0,0,0,0,0,0,0,0,0,0,0,0,0,0]"

section \<open>The reader\<close>

record GetBitContext =
  buffer :: "OMX_U8 list"
  index :: nat
  size_in_bits :: int

text \<open>\<open>unaligned32_be\<close>: the four bytes at \<open>i\<close> as a big-endian word.\<close>

definition unaligned32_be :: "OMX_U8 list \<Rightarrow> nat \<Rightarrow> OMX_U32 option" where
  "unaligned32_be p i =
     (if i + 4 \<le> length p then
        Some (push_bit 24 (ucast (p ! i)) OR push_bit 16 (ucast (p ! (i + 1))) OR
              push_bit 8 (ucast (p ! (i + 2))) OR ucast (p ! (i + 3)))
      else None)"

definition UPDATE_CACHE :: "GetBitContext \<Rightarrow> OMX_U32 option" where
  "UPDATE_CACHE gb =
     map_option (push_bit (index gb mod 8)) (unaligned32_be (buffer gb) (index gb div 8))"

definition SKIP_COUNTER :: "GetBitContext \<Rightarrow> nat \<Rightarrow> GetBitContext" where
  "SKIP_COUNTER gb n = gb\<lparr>index := index gb + n\<rparr>"

text \<open>A shift by \<open>32 - n\<close> with \<open>n = 0\<close> or \<open>n > 32\<close> is undefined.\<close>

definition SHOW_UBITS :: "OMX_U32 \<Rightarrow> nat \<Rightarrow> OMX_U32 option" where
  "SHOW_UBITS cache n = (if 0 < n \<and> n \<le> 32 then Some (drop_bit (32 - n) cache) else None)"

definition show_bits :: "GetBitContext \<Rightarrow> nat \<Rightarrow> OMX_U32 option" where
  "show_bits gb n = do { cache \<leftarrow> UPDATE_CACHE gb; SHOW_UBITS cache n }"

definition get_bits :: "GetBitContext \<Rightarrow> nat \<Rightarrow> (OMX_U32 \<times> GetBitContext) option" where
  "get_bits gb n = do {
     cache \<leftarrow> UPDATE_CACHE gb;
     tmp \<leftarrow> SHOW_UBITS cache n;
     Some (tmp, SKIP_COUNTER gb n) }"

definition skip_bits :: "GetBitContext \<Rightarrow> nat \<Rightarrow> GetBitContext option" where
  "skip_bits gb n = do { _ \<leftarrow> UPDATE_CACHE gb; Some (SKIP_COUNTER gb n) }"

definition get_bits1 :: "GetBitContext \<Rightarrow> (OMX_U8 \<times> GetBitContext) option" where
  "get_bits1 gb =
     (if index gb div 8 < length (buffer gb) then
        (let result = buffer gb ! (index gb div 8);
             result = push_bit (index gb mod 8) result;
             result = drop_bit 7 result
         in Some (result, gb\<lparr>index := index gb + 1\<rparr>))
      else None)"

text \<open>The two cache loads of \<open>init_get_bits\<close> have no effect but to read the first four bytes.\<close>

definition init_get_bits :: "OMX_U8 list \<Rightarrow> int \<Rightarrow> GetBitContext option" where
  "init_get_bits buf bit_size =
     (let gb = \<lparr>buffer = buf, index = 0, size_in_bits = bit_size\<rparr>
      in do { _ \<leftarrow> UPDATE_CACHE gb; Some gb })"

definition av_log2 :: "OMX_U32 \<Rightarrow> nat" where
  "av_log2 v =
     (let (v, n) = (if v AND 0xffff0000 \<noteq> 0 then (drop_bit 16 v, 16) else (v, 0));
          (v, n) = (if v AND 0xff00 \<noteq> 0 then (drop_bit 8 v, n + 8) else (v, n))
      in n + ff_log2_tab ! unat v)"

text \<open>A shift by a negative \<open>log\<close> is undefined.\<close>

definition get_ue_golomb :: "GetBitContext \<Rightarrow> (int \<times> GetBitContext) option" where
  "get_ue_golomb gb = do {
     buf \<leftarrow> UPDATE_CACHE gb;
     if buf \<ge> push_bit 27 1 then
       (let buf = unat (drop_bit (32 - 9) buf)
        in Some (int (ff_ue_golomb_vlc_code ! buf), SKIP_COUNTER gb (ff_golomb_vlc_len ! buf)))
     else
       (let log = 2 * int (av_log2 buf) - 31 in
        if log < 0 then None
        else (let buf = drop_bit (nat log) buf - 1
              in Some (sint buf, SKIP_COUNTER gb (32 - nat log)))) }"

definition get_se_golomb :: "GetBitContext \<Rightarrow> (int \<times> GetBitContext) option" where
  "get_se_golomb gb = do {
     buf \<leftarrow> UPDATE_CACHE gb;
     if buf \<ge> push_bit 27 1 then
       (let buf = unat (drop_bit (32 - 9) buf)
        in Some (ff_se_golomb_vlc_code ! buf, SKIP_COUNTER gb (ff_golomb_vlc_len ! buf)))
     else
       (let log = 2 * int (av_log2 buf) - 31 in
        if log < 0 then None
        else
          (let buf = drop_bit (nat log) buf;
               buf = (if buf AND 1 \<noteq> 0 then - drop_bit 1 buf else drop_bit 1 buf)
           in Some (sint buf, SKIP_COUNTER gb (32 - nat log)))) }"

section \<open>Bit streams\<close>

text \<open>Bit \<open>k\<close> of a byte list, most significant bit first, and the value of a bit list.\<close>

definition bitat :: "OMX_U8 list \<Rightarrow> nat \<Rightarrow> bool" where
  "bitat p k = bit (p ! (k div 8)) (7 - k mod 8)"

definition bval :: "bool list \<Rightarrow> nat" where
  "bval bs = horner_sum of_bool 2 (rev bs)"

lemma bval_Nil [simp]: "bval [] = 0"
  by (simp add: bval_def)

lemma bval_snoc: "bval (bs @ [b]) = of_bool b + 2 * bval bs"
  by (simp add: bval_def)

lemma bval_append: "bval (as @ bs) = bval as * 2 ^ length bs + bval bs"
  by (simp add: bval_def horner_sum_append algebra_simps)

lemma bval_Cons: "bval (b # bs) = of_bool b * 2 ^ length bs + bval bs"
  using bval_append[of "[b]" bs] by (simp add: bval_def)

lemma bval_lt: "bval bs < 2 ^ length bs"
  by (induction bs) (auto simp: bval_Cons)

lemma bval_zeros [simp]: "bval (replicate n False) = 0"
  by (induction n) (auto simp: bval_Cons)

text \<open>The \<open>k\<close> low bits of a number.\<close>

definition nbits :: "nat \<Rightarrow> nat \<Rightarrow> bool list" where
  "nbits k n = rev (map (bit n) [0..<k])"

lemma length_nbits [simp]: "length (nbits k n) = k"
  by (simp add: nbits_def)

lemma bval_nbits [simp]: "n < 2 ^ k \<Longrightarrow> bval (nbits k n) = n"
  by (simp add: bval_def nbits_def horner_sum_bit_eq_take_bit take_bit_nat_eq_self)

lemma bitat_byte:
  assumes "r < 8" and "k = 8 * q + (7 - r)"
  shows "bitat p (8 * i + k) = bit (p ! (i + q)) r"
proof -
  have k: "8 * i + k = (7 - r) + (i + q) * 8" using assms(2) by simp
  have "((7 - r) + (i + q) * 8) div 8 = i + q" "((7 - r) + (i + q) * 8) mod 8 = 7 - r"
    by (simp_all only: div_mult_self1 mod_mult_self1 div_less mod_less zero_neq_numeral not_False_eq_True add_0_right)
  with k assms(1) show ?thesis by (simp add: bitat_def)
qed

lemma unaligned32_be_bits:
  assumes "i + 4 \<le> length p"
  obtains w where "unaligned32_be p i = Some w" "\<And>j. j < 32 \<Longrightarrow> bit w j = bitat p (8 * i + (31 - j))"
proof -
  define w :: OMX_U32 where "w = push_bit 24 (ucast (p ! i)) OR push_bit 16 (ucast (p ! (i + 1))) OR
              push_bit 8 (ucast (p ! (i + 2))) OR ucast (p ! (i + 3))"
  have "bit w j = bitat p (8 * i + (31 - j))" if "j < 32" for j
  proof -
    have high: "\<not> bit (x :: OMX_U8) n" if "8 \<le> n" for x n
      using that bit_imp_le_length[of x n] by auto
    have B: "bit w j \<longleftrightarrow> 24 \<le> j \<and> bit (p ! i) (j - 24) \<or> 16 \<le> j \<and> bit (p ! (i + 1)) (j - 16) \<or>
        8 \<le> j \<and> bit (p ! (i + 2)) (j - 8) \<or> bit (p ! (i + 3)) j"
      using \<open>j < 32\<close> by (auto simp: w_def bit_simps)
    consider "j < 8" | "8 \<le> j" "j < 16" | "16 \<le> j" "j < 24" | "24 \<le> j" "j < 32" using \<open>j < 32\<close> by linarith
    then show ?thesis
    proof cases
      case 1
      then have "bitat p (8 * i + (31 - j)) = bit (p ! (i + 3)) j" by (intro bitat_byte) linarith+
      moreover have "bit w j = bit (p ! (i + 3)) j"
        using 1 B  by fastforce
      ultimately show ?thesis by simp
    next
      case 2
      then have "bitat p (8 * i + (31 - j)) = bit (p ! (i + 2)) (j - 8)" by (intro bitat_byte) linarith+
      moreover have "bit w j = bit (p ! (i + 2)) (j - 8)"
        using 2 B high[of j "p ! (i + 3)"] by fastforce
      ultimately show ?thesis by simp
    next
      case 3
      then have "bitat p (8 * i + (31 - j)) = bit (p ! (i + 1)) (j - 16)" by (intro bitat_byte) linarith+
      moreover have "bit w j = bit (p ! (i + 1)) (j - 16)"
        using 3 B high[of j "p ! (i + 3)"] high[of "j - 8" "p ! (i + 2)"] by fastforce
      ultimately show ?thesis by simp
    next
      case 4
      then have "bitat p (8 * i + (31 - j)) = bit (p ! (i + 0)) (j - 24)" by (intro bitat_byte) linarith+
      moreover have "bit w j = bit (p ! (i + 0)) (j - 24)"
        using 4 B high[of j "p ! (i + 3)"] high[of "j - 8" "p ! (i + 2)"] high[of "j - 16" "p ! (i + 1)"] by fastforce
      ultimately show ?thesis by simp
    qed
  qed
  with assms that[of w] show thesis by (simp add: unaligned32_be_def w_def)
qed


text \<open>\<open>stream gb bs\<close>: the next bits are \<open>bs\<close>, and the four-byte loads stay inside the memory.\<close>

definition stream :: "GetBitContext \<Rightarrow> bool list \<Rightarrow> bool" where
  "stream gb bs \<longleftrightarrow> (\<forall>j<length bs. bitat (buffer gb) (index gb + j) = bs ! j) \<and>
     index gb + length bs + 32 \<le> 8 * length (buffer gb)"

lemma bit_bval: "bit (bval bs) m \<longleftrightarrow> m < length bs \<and> bs ! (length bs - 1 - m)"
  by (auto simp: bval_def bit_horner_sum_bit_iff rev_nth)

lemma stream_prefix: "stream gb (as @ bs) \<Longrightarrow> j < length as \<Longrightarrow> bitat (buffer gb) (index gb + j) = as ! j"
  by (auto simp: stream_def nth_append)

lemma stream_skip: "stream gb (as @ bs) \<Longrightarrow> n = length as \<Longrightarrow> stream (SKIP_COUNTER gb n) bs"
  by (auto simp: stream_def SKIP_COUNTER_def add.assoc nth_append_length_plus dest: spec[of _ "length as + _"])

text \<open>The cache holds the next 25 bits, whatever the position inside the byte.\<close>

lemma cache_window:
  assumes "index gb + 32 \<le> 8 * length (buffer gb)"
  obtains c where "UPDATE_CACHE gb = Some c"
    "\<And>j. 7 \<le> j \<Longrightarrow> j < 32 \<Longrightarrow> bit c j = bitat (buffer gb) (index gb + (31 - j))"
proof -
  have "index gb div 8 + 4 \<le> length (buffer gb)" using assms by linarith
  then obtain w where w: "unaligned32_be (buffer gb) (index gb div 8) = Some w"
    "\<And>j. j < 32 \<Longrightarrow> bit w j = bitat (buffer gb) (8 * (index gb div 8) + (31 - j))"
    by (rule unaligned32_be_bits) blast
  have "bit (push_bit (index gb mod 8) w) j = bitat (buffer gb) (index gb + (31 - j))" if "7 \<le> j" "j < 32" for j
  proof -
    have "index gb mod 8 \<le> j" using that(1) by linarith
    moreover from this have "8 * (index gb div 8) + (31 - (j - index gb mod 8)) = index gb + (31 - j)"
      using that(2) mult_div_mod_eq[of 8 "index gb"] by linarith
    ultimately show ?thesis using w(2)[of "j - index gb mod 8"] that(2) by (simp add: bit_simps)
  qed
  with w(1) that[of "push_bit (index gb mod 8) w"] show thesis by (simp add: UPDATE_CACHE_def)
qed

lemma cache_value:
  assumes "stream gb (as @ bs)" and "length as \<le> 25"
  obtains c where "UPDATE_CACHE gb = Some c" "unat (drop_bit (32 - length as) c) = bval as"
proof -
  have "index gb + 32 \<le> 8 * length (buffer gb)" using assms(1) by (simp add: stream_def)
  then obtain c where c: "UPDATE_CACHE gb = Some c"
    "\<And>j. 7 \<le> j \<Longrightarrow> j < 32 \<Longrightarrow> bit c j = bitat (buffer gb) (index gb + (31 - j))"
    by (rule cache_window) blast
  have "bit (unat (drop_bit (32 - length as) c)) m = bit (bval as) m" for m
  proof (cases "m < length as")
    case True
    then have "bit c (m + (32 - length as)) = bitat (buffer gb) (index gb + (31 - (m + (32 - length as))))"
      using assms(2) by (intro c(2)) linarith+
    moreover have "31 - (m + (32 - length as)) = length as - 1 - m" using True assms(2) by linarith
    ultimately show ?thesis
      using True assms(2) stream_prefix[OF assms(1), of "length as - 1 - m"] by (simp add: bit_bval bit_simps add.commute)
  next
    case False
    then have "\<not> bit c (32 - length as + m)"
      using bit_imp_le_length[of c "32 - length as + m"] assms(2) by auto
    with False show ?thesis by (auto simp: bit_bval bit_simps)
  qed
  with c(1) that show thesis by (metis bit_eqI)
qed

lemma get_bits_stream:
  assumes "stream gb (as @ bs)" and "0 < length as" and "length as \<le> 25" and "n = length as"
  shows "get_bits gb n = Some (word_of_nat (bval as), SKIP_COUNTER gb n)"
proof -
  obtain c where "UPDATE_CACHE gb = Some c" "unat (drop_bit (32 - length as) c) = bval as"
    by (rule cache_value[OF assms(1,3)])
  then show ?thesis using assms(2-4)
    by (auto simp: get_bits_def SHOW_UBITS_def) (metis word_unat_eq_iff unat_of_nat word_of_nat_eq_0_iff of_nat_unat ucast_id)
qed

lemma get_bits1_stream:
  assumes "stream gb (b # bs)"
  shows "get_bits1 gb = Some (of_bool b, SKIP_COUNTER gb 1)"
proof -
  have b: "bit (buffer gb ! (index gb div 8)) (7 - index gb mod 8) = b"
    using assms by (auto simp: stream_def bitat_def)
  have "index gb + 32 \<le> 8 * length (buffer gb)" using assms by (simp add: stream_def)
  then have "index gb div 8 < length (buffer gb)" by linarith
  moreover have "drop_bit 7 (push_bit (index gb mod 8) x) = of_bool (bit x (7 - index gb mod 8))" for x :: OMX_U8
  proof (rule bit_eqI)
    fix m
    have "\<not> bit x (7 + m - index gb mod 8)" if "0 < m" "7 + m < 8"
      using that by simp
    then show "bit (drop_bit 7 (push_bit (index gb mod 8) x)) m = bit (of_bool (bit x (7 - index gb mod 8)) :: OMX_U8) m"
      by (cases "m = 0") (auto simp: bit_simps)
  qed
  ultimately show ?thesis using b by (simp add: get_bits1_def SKIP_COUNTER_def)
qed

section \<open>Exp-Golomb codes\<close>

text \<open>The number of binary digits, and the code words for unsigned and signed numbers.\<close>

fun bitlen :: "nat \<Rightarrow> nat" where
  "bitlen n = (if n = 0 then 0 else Suc (bitlen (n div 2)))"

declare bitlen.simps [simp del]

definition ue_bits :: "nat \<Rightarrow> bool list" where
  "ue_bits n = (let k = bitlen (n + 1) in replicate (k - 1) False @ nbits k (n + 1))"

text \<open>The signed number with code number \<open>k\<close>: 0, 1, -1, 2, -2, ...\<close>

definition se_of :: "nat \<Rightarrow> int" where
  "se_of k = (if odd k then int ((k + 1) div 2) else - int (k div 2))"

lemma bitlen_bounds: "0 < n \<Longrightarrow> 0 < bitlen n \<and> 2 ^ (bitlen n - 1) \<le> n \<and> n < 2 ^ bitlen n"
proof (induction n rule: bitlen.induct)
  case (1 n)
  show ?case
  proof (cases "n = 1")
    case True
    then show ?thesis by (simp add: bitlen.simps)
  next
    case False
    with 1 have IH: "0 < bitlen (n div 2)" "2 ^ (bitlen (n div 2) - 1) \<le> n div 2" "n div 2 < 2 ^ bitlen (n div 2)"
      by auto
    have "bitlen n = Suc (bitlen (n div 2))" using 1 by (simp add: bitlen.simps[of n])
    moreover have "(2::nat) ^ bitlen (n div 2) = 2 * 2 ^ (bitlen (n div 2) - 1)"
      using IH(1) by (metis Suc_diff_1 power_Suc)
    ultimately show ?thesis using IH by simp linarith
  qed
qed

lemma ue_bits_length [simp]: "length (ue_bits n) = 2 * bitlen (n + 1) - 1"
  using bitlen_bounds[of "n + 1"] by (simp add: ue_bits_def Let_def)

lemma ue_bits_value [simp]: "bval (ue_bits n) = n + 1"
  using bitlen_bounds[of "n + 1"] by (simp add: ue_bits_def Let_def bval_append)

subsection \<open>The tables\<close>

text \<open>A table section: \<open>n\<close> consecutive numbers from \<open>a\<close> on, each \<open>k\<close> times.\<close>

definition runs :: "nat \<Rightarrow> nat \<Rightarrow> nat \<Rightarrow> nat list" where
  "runs k a n = concat (map (replicate k) [a..<a + n])"

lemma length_runs [simp]: "length (runs k a n) = n * k"
proof -
  have "length (concat (map (replicate k) xs)) = length xs * k" for xs :: "nat list"
    by (induction xs) auto
  then show ?thesis by (simp add: runs_def)
qed

lemma nth_runs: "i < n * k \<Longrightarrow> runs k a n ! i = a + i div k"
proof (induction n arbitrary: a i)
  case 0
  then show ?case by simp
next
  case (Suc n)
  have split: "runs k a (Suc n) = replicate k a @ runs k (Suc a) n"
    unfolding runs_def by (subst upt_conv_Cons) (simp_all del: upt_Suc)
  show ?case
  proof (cases "i < k")
    case True
    then show ?thesis unfolding split by (simp add: nth_append)
  next
    case False
    have "0 < k" using Suc.prems by (cases k) auto
    with False Suc.prems have "i - k < n * k" "i = (i - k) + k" by auto
    then have "i div k = Suc ((i - k) div k)" using \<open>0 < k\<close> by (metis div_add_self2 Suc_eq_plus1 less_not_refl)
    with False Suc.IH[OF \<open>i - k < n * k\<close>, of "Suc a"] show ?thesis unfolding split by (simp add: nth_append)
  qed
qed

lemma vlc_len_table: "ff_golomb_vlc_len =
    replicate 16 0 @ replicate 16 9 @ replicate 32 7 @ replicate 64 5 @ replicate 128 3 @ replicate 256 1"
  by code_simp

lemma ue_code_table: "ff_ue_golomb_vlc_code =
    replicate 16 0 @ runs 1 15 16 @ runs 4 7 8 @ runs 16 3 4 @ runs 64 1 2 @ replicate 256 0"
  by code_simp

lemma se_code_table: "ff_se_golomb_vlc_code = map se_of ff_ue_golomb_vlc_code"
  by code_simp

lemma log2_table: "ff_log2_tab = [0, 0] @ replicate 2 1 @ replicate 4 2 @ replicate 8 3 @ replicate 16 4 @
    replicate 32 5 @ replicate 64 6 @ replicate 128 7"
  by code_simp

lemma nth_in_section:
  "(xs @ ys @ zs) ! i = ys ! (i - length xs)" if "length xs \<le> i" "i < length xs + length ys"
proof -
  have "i - length xs < length ys" using that by linarith
  then show ?thesis using that(1) by (simp add: nth_append)
qed

lemma nth_in_last: "(xs @ ys) ! i = ys ! (i - length xs)" if "length xs \<le> i"
  using that by (simp add: nth_append)

text \<open>The entry for a code word of \<open>2 k - 1 \<le> 9\<close> bits.\<close>

lemma code_tables:
  assumes "i div 2 ^ (10 - 2 * k) = n + 1" and "2 ^ (k - 1) \<le> n + 1" and "n + 1 < 2 ^ k" and "0 < k" and "k \<le> 5" and "i < 512"
  shows "ff_ue_golomb_vlc_code ! i = n \<and> ff_golomb_vlc_len ! i = 2 * k - 1"
proof -
  let ?c = "ff_ue_golomb_vlc_code" and ?l = "ff_golomb_vlc_len"
  consider "k = 1" | "k = 2" | "k = 3" | "k = 4" | "k = 5" using assms(4,5) by linarith
  then show ?thesis
  proof cases
    case 1
    with assms have i: "256 \<le> i" "n = 0" by auto
    have "?c ! i = replicate 256 0 ! (i - 256)" "?l ! i = replicate 256 1 ! (i - 256)"
      unfolding ue_code_table vlc_len_table using i
        nth_in_last[of "replicate 16 0 @ runs 1 15 16 @ runs 4 7 8 @ runs 16 3 4 @ runs 64 1 2"]
        nth_in_last[of "replicate 16 0 @ replicate 16 9 @ replicate 32 7 @ replicate 64 5 @ replicate 128 3"]
      by simp_all
    with i 1 assms(6) show ?thesis by simp
  next
    case 2
    with assms have i: "128 \<le> i" "i < 256" "n + 1 = i div 64" by auto
    have "?c ! i = runs 64 1 2 ! (i - 128)" "?l ! i = replicate 128 3 ! (i - 128)"
      unfolding ue_code_table vlc_len_table using i
        nth_in_section[of "replicate 16 0 @ runs 1 15 16 @ runs 4 7 8 @ runs 16 3 4" i "runs 64 1 2"]
        nth_in_section[of "replicate 16 0 @ replicate 16 9 @ replicate 32 7 @ replicate 64 5" i "replicate 128 3"]
      by simp_all
    with i 2 show ?thesis by (simp add: nth_runs)
  next
    case 3
    with assms have i: "64 \<le> i" "i < 128" "n + 1 = i div 16" by auto
    have "?c ! i = runs 16 3 4 ! (i - 64)" "?l ! i = replicate 64 5 ! (i - 64)"
      unfolding ue_code_table vlc_len_table using i
        nth_in_section[of "replicate 16 0 @ runs 1 15 16 @ runs 4 7 8" i "runs 16 3 4"]
        nth_in_section[of "replicate 16 0 @ replicate 16 9 @ replicate 32 7" i "replicate 64 5"]
      by simp_all
    with i 3 show ?thesis by (simp add: nth_runs)
  next
    case 4
    with assms have i: "32 \<le> i" "i < 64" "n + 1 = i div 4" by auto
    have "?c ! i = runs 4 7 8 ! (i - 32)" "?l ! i = replicate 32 7 ! (i - 32)"
      unfolding ue_code_table vlc_len_table using i
        nth_in_section[of "replicate 16 0 @ runs 1 15 16" i "runs 4 7 8"]
        nth_in_section[of "replicate 16 0 @ replicate 16 9" i "replicate 32 7"]
      by simp_all
    with i 4 show ?thesis by (simp add: nth_runs)
  next
    case 5
    with assms have i: "16 \<le> i" "i < 32" "n + 1 = i" by auto
    have "?c ! i = runs 1 15 16 ! (i - 16)" "?l ! i = replicate 16 9 ! (i - 16)"
      unfolding ue_code_table vlc_len_table using i
        nth_in_section[of "replicate 16 0" i "runs 1 15 16"] nth_in_section[of "replicate 16 0" i "replicate 16 9"]
      by simp_all
    with i 5 show ?thesis by (simp add: nth_runs)
  qed
qed

lemma log2_tab_entry:
  assumes "2 ^ m \<le> i" and "i < 2 ^ (m + 1)" and "m \<le> 7"
  shows "ff_log2_tab ! i = m"
proof -
  consider "m = 0" | "m = 1" | "m = 2" | "m = 3" | "m = 4" | "m = 5" | "m = 6" | "m = 7" using assms(3) by linarith
  then show ?thesis
  proof cases
    case 1
    with assms have "i = 1" by simp
    with 1 show ?thesis by (simp add: log2_table)
  next
    case 2
    with assms have "i = 2 \<or> i = 3" by auto
    with 2 show ?thesis by (auto simp: log2_table nth_append)
  next
    case 3
    with assms show ?thesis
      using nth_in_section[of "[0 :: nat, 0] @ replicate 2 1" i "replicate 4 2"] by (simp add: log2_table)
  next
    case 4
    with assms show ?thesis
      using nth_in_section[of "[0 :: nat, 0] @ replicate 2 1 @ replicate 4 2" i "replicate 8 3"] by (simp add: log2_table)
  next
    case 5
    with assms show ?thesis
      using nth_in_section[of "[0 :: nat, 0] @ replicate 2 1 @ replicate 4 2 @ replicate 8 3" i "replicate 16 4"]
      by (simp add: log2_table)
  next
    case 6
    with assms show ?thesis
      using nth_in_section[of "[0 :: nat, 0] @ replicate 2 1 @ replicate 4 2 @ replicate 8 3 @ replicate 16 4" i "replicate 32 5"]
      by (simp add: log2_table)
  next
    case 7
    with assms show ?thesis
      using nth_in_section[of "[0 :: nat, 0] @ replicate 2 1 @ replicate 4 2 @ replicate 8 3 @ replicate 16 4 @ replicate 32 5" i
          "replicate 64 6"]
      by (simp add: log2_table)
  next
    case 8
    with assms show ?thesis
      using nth_in_last[of "[0 :: nat, 0] @ replicate 2 1 @ replicate 4 2 @ replicate 8 3 @ replicate 16 4 @ replicate 32 5 @
          replicate 64 6" i "replicate 128 7"]
      by (simp add: log2_table)
  qed
qed

lemma take_bit_self_iff: "take_bit n v = v \<longleftrightarrow> unat v < 2 ^ n" for v :: OMX_U32
  by (metis take_bit_nat_eq_self_iff unsigned_take_bit_eq word_unat_eq_iff)

lemma high_mask: "v AND NOT (mask n) = 0 \<longleftrightarrow> unat v < 2 ^ n" for v :: OMX_U32
proof -
  have "v AND NOT (mask n) = 0 \<longleftrightarrow> v AND mask n = v"
    by (auto simp: bit_eq_iff bit_simps)
  then show ?thesis by (simp add: take_bit_self_iff flip: take_bit_eq_mask)
qed

lemma high_half: "v AND 0xffff0000 = 0 \<longleftrightarrow> unat v < 2 ^ 16" for v :: OMX_U32
proof -
  have "(0xffff0000 :: OMX_U32) = NOT (mask 16)" by (simp add: mask_eq_exp_minus_1)
  then show ?thesis by (simp only: high_mask)
qed

lemma second_byte:
  fixes v :: OMX_U32
  assumes "unat v < 2 ^ 16"
  shows "v AND 0xff00 = 0 \<longleftrightarrow> unat v < 2 ^ 8"
proof -
  have "(0xff00 :: OMX_U32) = mask 16 AND NOT (mask 8)" by (simp add: mask_eq_exp_minus_1)
  then have "v AND 0xff00 = take_bit 16 v AND NOT (mask 8)" by (simp add: take_bit_eq_mask and.assoc)
  also have "take_bit 16 v = v" using assms by (simp add: take_bit_self_iff)
  finally show ?thesis by (simp only: high_mask)
qed

lemma div_pow2_bounds:
  assumes "2 ^ m \<le> (n::nat)" "n < 2 ^ (m + 1)" "k \<le> m"
  shows "2 ^ (m - k) \<le> n div 2 ^ k" "n div 2 ^ k < 2 ^ (m - k + 1)"
proof -
  have "2 ^ m = 2 ^ (m - k) * (2 ^ k :: nat)" "2 ^ (m + 1) = 2 ^ (m - k + 1) * (2 ^ k :: nat)"
    using assms(3) by (simp_all flip: power_add)
  with assms(1,2) show "2 ^ (m - k) \<le> n div 2 ^ k" "n div 2 ^ k < 2 ^ (m - k + 1)"
    by (simp_all add: less_eq_div_iff_mult_less_eq less_mult_imp_div_less)
qed

lemma unat_drop: "unat (drop_bit k v) = unat v div 2 ^ k" for v :: OMX_U32
  by (simp only: unat_drop_bit_eq drop_bit_nat_def)

lemma pow2_window:
  assumes "2 ^ m \<le> (n::nat)" "n < 2 ^ (m + 1)"
  shows "n < 2 ^ k \<longleftrightarrow> m < k"
proof
  assume "n < 2 ^ k"
  with assms(1) have "2 ^ m < (2 ^ k :: nat)" by (rule le_less_trans)
  then show "m < k" by (rule power_less_imp_less_exp[rotated]) simp
next
  assume "m < k"
  then have "2 ^ (m + 1) \<le> (2 ^ k :: nat)" by (intro power_increasing) auto
  with assms(2) show "n < 2 ^ k" by (rule less_le_trans)
qed

lemma av_log2_bounds:
  assumes "2 ^ m \<le> unat v" and "unat v < 2 ^ (m + 1)"
  shows "av_log2 v = m"
proof -
  define v1 where "v1 = (if v AND 0xffff0000 \<noteq> 0 then drop_bit 16 v else v)"
  define m1 where "m1 = (if v AND 0xffff0000 \<noteq> 0 then m - 16 else m)"
  have c1: "v AND 0xffff0000 \<noteq> 0 \<longleftrightarrow> 16 \<le> m"
    using pow2_window[OF assms, of 16] by (simp only: high_half not_less)
  have m31: "m < 32"
    using pow2_window[OF assms, of 32] unat_u32_bound[of v] by blast
  have b1: "2 ^ m1 \<le> unat v1" "unat v1 < 2 ^ (m1 + 1)" "m1 < 16"
    using assms div_pow2_bounds[OF assms, of 16] m31 unat_drop[of 16 v]
    by (cases "16 \<le> m"; simp only: v1_def m1_def c1 if_True if_False; simp)+
  have c2: "v1 AND 0xff00 \<noteq> 0 \<longleftrightarrow> 8 \<le> m1"
    using pow2_window[OF b1(1,2), of 8] pow2_window[OF b1(1,2), of 16] b1(3) by (simp only: second_byte not_less)
  define v2 where "v2 = (if v1 AND 0xff00 \<noteq> 0 then drop_bit 8 v1 else v1)"
  define m2 where "m2 = (if v1 AND 0xff00 \<noteq> 0 then m1 - 8 else m1)"
  have b2: "2 ^ m2 \<le> unat v2" "unat v2 < 2 ^ (m2 + 1)" "m2 \<le> 7"
    using b1 div_pow2_bounds[OF b1(1,2), of 8] unat_drop[of 8 v1]
    by (cases "8 \<le> m1"; simp only: v2_def m2_def c2 if_True if_False; simp)+
  have "av_log2 v = (if 16 \<le> m then 16 else 0) + (if 8 \<le> m1 then 8 else 0) + ff_log2_tab ! unat v2"
    unfolding av_log2_def Let_def v2_def c2[symmetric] c1[symmetric] v1_def by simp
  also have "\<dots> = m"
    using log2_tab_entry[OF b2] c1 c2 by (auto simp: m1_def m2_def)
  finally show ?thesis .
qed

subsection \<open>Reading a code word\<close>

lemma sint_small: "sint (word_of_int i :: OMX_U32) = i" if "- (2 ^ 31) \<le> i" "i < 2 ^ 31"
  using that by (simp add: signed_of_int signed_take_bit_int_eq_self)

lemma ue_cache:
  assumes "stream gb (ue_bits n @ bs)" and "n \<le> 8190" and k: "k = bitlen (n + 1)"
  obtains c where "UPDATE_CACHE gb = Some c" "unat c div 2 ^ (33 - 2 * k) = n + 1"
    "0 < k" "k \<le> 13" "2 ^ (k - 1) \<le> n + 1" "n + 1 < 2 ^ k" "c \<ge> push_bit 27 1 \<longleftrightarrow> k \<le> 5"
    "2 ^ (32 - k) \<le> unat c" "unat c < 2 ^ (33 - k)"
proof -
  have b: "0 < k" "2 ^ (k - 1) \<le> n + 1" "n + 1 < 2 ^ k" using bitlen_bounds[of "n + 1"] k by auto
  have "2 ^ (k - 1) < (2 ^ 13 :: nat)" using b(2) assms(2) by simp
  then have "k - 1 < 13" by (rule power_less_imp_less_exp[rotated]) simp
  then have k13: "k \<le> 13" by linarith
  obtain c where c: "UPDATE_CACHE gb = Some c" "unat (drop_bit (32 - length (ue_bits n)) c) = bval (ue_bits n)"
    by (rule cache_value[OF assms(1)]) (use k13 k in simp)
  have "32 - (2 * k - 1) = 33 - 2 * k" using b(1) by linarith
  then have q: "unat c div 2 ^ (33 - 2 * k) = n + 1"
    using c(2) k unat_drop[of "33 - 2 * k" c] by simp
  have lo: "(n + 1) * 2 ^ (33 - 2 * k) \<le> unat c" and hi: "unat c < (n + 2) * 2 ^ (33 - 2 * k)"
    using q by (metis div_times_less_eq_dividend) (metis q add_Suc_right dividend_less_div_times mult_Suc Suc_1 Suc_eq_plus1 add.commute add_2_eq_Suc zero_less_numeral zero_less_power)
  have "2 ^ (32 - k) = 2 ^ (k - 1) * (2 ^ (33 - 2 * k) :: nat)" "2 ^ (33 - k) = 2 ^ k * (2 ^ (33 - 2 * k) :: nat)"
    using b(1) k13 by (simp_all flip: power_add)
  with lo hi b(2,3) have w: "2 ^ (32 - k) \<le> unat c" "unat c < 2 ^ (33 - k)"
    by (metis mult_le_mono1 order_trans) (metis \<open>2 ^ (33 - k) = 2 ^ k * 2 ^ (33 - 2 * k)\<close> hi b(3) mult_le_mono1 Suc_leI add_2_eq_Suc' Suc_eq_plus1 less_le_trans)
  have "unat (push_bit 27 1 :: OMX_U32) = 2 ^ 27" by simp
  then have "c \<ge> push_bit 27 1 \<longleftrightarrow> \<not> unat c < 2 ^ 27" by (simp only: word_le_nat_alt not_less)
  also have "\<dots> \<longleftrightarrow> k \<le> 5"
  proof -
    have e: "32 - k + 1 = 33 - k" using k13 by linarith
    have "unat c < 2 ^ 27 \<longleftrightarrow> 32 - k < 27" by (rule pow2_window) (simp_all only: e w)
    then show ?thesis using k13 by linarith
  qed
  finally show thesis using that c(1) q b k13 w by blast
qed

lemma get_ue_golomb_stream:
  assumes "stream gb (ue_bits n @ bs)" and "n \<le> 8190"
  shows "get_ue_golomb gb = Some (int n, SKIP_COUNTER gb (length (ue_bits n)))"
proof -
  define k where "k = bitlen (n + 1)"
  obtain c where c: "UPDATE_CACHE gb = Some c" "unat c div 2 ^ (33 - 2 * k) = n + 1"
    "0 < k" "k \<le> 13" "2 ^ (k - 1) \<le> n + 1" "n + 1 < 2 ^ k" "c \<ge> push_bit 27 1 \<longleftrightarrow> k \<le> 5"
    "2 ^ (32 - k) \<le> unat c" "unat c < 2 ^ (33 - k)"
    by (rule ue_cache[OF assms k_def])
  have len: "length (ue_bits n) = 2 * k - 1" by (simp add: k_def)
  show ?thesis
  proof (cases "k \<le> 5")
    case True
    define i where "i = unat (drop_bit (32 - 9) c)"
    have i: "i = unat c div 2 ^ 23" unfolding i_def unat_drop by simp
    have "33 - 2 * k = 23 + (10 - 2 * k)" using True by linarith
    then have "2 ^ (33 - 2 * k) = 2 ^ 23 * (2 ^ (10 - 2 * k) :: nat)" by (metis power_add)
    then have "i div 2 ^ (10 - 2 * k) = n + 1"
      using c(2) unfolding i by (metis div_mult2_eq)
    moreover have "i < 512" using i unat_u32_bound[of c] by simp
    ultimately have "ff_ue_golomb_vlc_code ! i = n \<and> ff_golomb_vlc_len ! i = 2 * k - 1"
      using c(3,5,6) True by (intro code_tables)
    with c(1,7) True len show ?thesis by (simp add: get_ue_golomb_def Let_def i_def)
  next
    case False
    have "32 - k + 1 = 33 - k" using c(4) by linarith
    with c(8,9) have lg: "av_log2 c = 32 - k" by (intro av_log2_bounds) simp_all
    then have log: "2 * int (av_log2 c) - 31 = int (33 - 2 * k)" using c(4) by simp
    have "unat (drop_bit (33 - 2 * k) c) = n + 1" unfolding unat_drop by (rule c(2))
    then have "drop_bit (33 - 2 * k) c = word_of_nat (n + 1)"
      by (metis of_nat_unat ucast_id)
    then have d: "drop_bit (33 - 2 * k) c - 1 = word_of_int (int n)" by simp
    have "sint (word_of_int (int n) :: OMX_U32) = int n" using assms(2) by (intro sint_small) auto
    with d have "sint (drop_bit (33 - 2 * k) c - 1) = int n" by simp
    moreover have "32 - (33 - 2 * k) = 2 * k - 1" using c(3,4) by linarith
    moreover have "nat (33 - 2 * int k) = 33 - 2 * k" "\<not> 33 < 2 * int k" using c(4) by auto
    ultimately show ?thesis
      using c(1,7) False len log by (simp add: get_ue_golomb_def Let_def)
  qed
qed

lemma code_drop:
  fixes c :: OMX_U32
  assumes "unat c div 2 ^ (33 - 2 * k) = n + 1"
  shows "drop_bit (33 - 2 * k) c = word_of_nat (n + 1)"
  using assms unat_drop[of "33 - 2 * k" c] by (metis of_nat_unat ucast_id)

lemma get_se_golomb_stream:
  assumes "stream gb (ue_bits n @ bs)" and "n \<le> 8190"
  shows "get_se_golomb gb = Some (se_of n, SKIP_COUNTER gb (length (ue_bits n)))"
proof -
  define k where "k = bitlen (n + 1)"
  obtain c where c: "UPDATE_CACHE gb = Some c" "unat c div 2 ^ (33 - 2 * k) = n + 1"
    "0 < k" "k \<le> 13" "2 ^ (k - 1) \<le> n + 1" "n + 1 < 2 ^ k" "c \<ge> push_bit 27 1 \<longleftrightarrow> k \<le> 5"
    "2 ^ (32 - k) \<le> unat c" "unat c < 2 ^ (33 - k)"
    by (rule ue_cache[OF assms k_def])
  have len: "length (ue_bits n) = 2 * k - 1" by (simp add: k_def)
  show ?thesis
  proof (cases "k \<le> 5")
    case True
    have u: "get_ue_golomb gb = Some (int n, SKIP_COUNTER gb (length (ue_bits n)))"
      by (rule get_ue_golomb_stream[OF assms])
    define i where "i = unat (drop_bit (32 - 9) c)"
    have "i < 512" using unat_u32_bound[of c] unfolding i_def unat_drop by simp
    moreover have "length ff_ue_golomb_vlc_code = 512" by (simp add: ue_code_table)
    ultimately have "ff_se_golomb_vlc_code ! i = se_of (ff_ue_golomb_vlc_code ! i)" by (simp add: se_code_table)
    with u c(1,7) True show ?thesis by (simp add: get_ue_golomb_def get_se_golomb_def Let_def i_def)
  next
    case False
    have "32 - k + 1 = 33 - k" using c(4) by linarith
    with c(8,9) have "av_log2 c = 32 - k" by (intro av_log2_bounds) simp_all
    then have log: "2 * int (av_log2 c) - 31 = int (33 - 2 * k)" using c(4) by simp
    define d :: OMX_U32 where "d = word_of_nat (n + 1)"
    have dd: "drop_bit (33 - 2 * k) c = d" unfolding d_def by (rule code_drop[OF c(2)])
    have ud: "unat d = n + 1" using assms(2) unfolding d_def unat_of_nat by (intro mod_less) simp
    then have "unat (drop_bit 1 d) = (n + 1) div 2" unfolding unat_drop by simp
    then have "drop_bit 1 d = word_of_nat ((n + 1) div 2)" by (metis of_nat_unat ucast_id)
    then have h: "drop_bit 1 d = word_of_int (int ((n + 1) div 2))" by simp
    have par: "d AND 1 \<noteq> 0 \<longleftrightarrow> even n"
    proof -
      have "odd d = odd (unat d)" by (simp flip: bit_0 add: bit_simps)
      with ud show ?thesis by (simp add: and_one_eq mod_2_eq_odd)
    qed
    have "sint (- word_of_int (int ((n + 1) div 2)) :: OMX_U32) = - int ((n + 1) div 2)"
      using sint_small[of "- int ((n + 1) div 2)"] assms(2) by simp
    moreover have "sint (word_of_int (int ((n + 1) div 2)) :: OMX_U32) = int ((n + 1) div 2)"
      using assms(2) by (intro sint_small) auto
    ultimately have v: "sint (if d AND 1 \<noteq> 0 then - drop_bit 1 d else drop_bit 1 d) = se_of n"
      unfolding h par by (auto simp: se_of_def)
    have "nat (33 - 2 * int k) = 33 - 2 * k" "\<not> 33 < 2 * int k" "32 - (33 - 2 * k) = 2 * k - 1" using c(3,4) by auto
    with c(1,7) False len log dd v show ?thesis by (simp add: get_se_golomb_def Let_def)
  qed
qed

section \<open>Codes of up to 25 bits\<close>

text \<open>
  Exp-Golomb round trip: standing in front of the code word of any number up to 8190, at any bit
  position, the unsigned reader returns the number, the signed reader the number of that code in the
  order 0, 1, -1, 2, -2, and both stand behind the code word. This holds for the table path (codes of
  at most 9 bits) and for the logarithm path.
\<close>

theorem golomb_roundtrip:
  assumes "stream gb (ue_bits n @ bs)" and "n \<le> 8190"
  shows "get_ue_golomb gb = Some (int n, SKIP_COUNTER gb (length (ue_bits n))) \<and>
     get_se_golomb gb = Some (se_of n, SKIP_COUNTER gb (length (ue_bits n))) \<and>
     stream (SKIP_COUNTER gb (length (ue_bits n))) bs"
  using get_ue_golomb_stream[OF assms] get_se_golomb_stream[OF assms] stream_skip[OF assms(1) HOL.refl] by blast

lemma ue_bits_by_len: "bitlen (n + 1) = k \<Longrightarrow> ue_bits n = replicate (k - 1) False @ nbits k (n + 1)"
  by (simp add: ue_bits_def)

lemma ue_bits_11: "ue_bits 11 = [False, False, False, True, True, False, False]"
proof -
  have "bitlen (11 + 1) = 4" by (simp add: bitlen.simps)
  then show ?thesis unfolding ue_bits_by_len[OF \<open>bitlen (11 + 1) = 4\<close>]
    by (simp add: nbits_def upt_rec bit_iff_odd) (simp add: numeral_eq_Suc)
qed

lemma ue_bits_8192: "ue_bits 8192 = replicate 13 False @ True # replicate 12 False @ [True]"
proof -
  have "bitlen (8192 + 1) = 14" by (simp add: bitlen.simps)
  then show ?thesis unfolding ue_bits_by_len[OF \<open>bitlen (8192 + 1) = 14\<close>]
    by (simp add: nbits_def upt_rec bit_iff_odd) (simp add: numeral_eq_Suc)
qed

theorem golomb_roundtrip_witness:
  "get_ue_golomb \<lparr>buffer = [0x01, 0x94, 0, 0, 0, 0, 0], index = 4, size_in_bits = 56\<rparr> =
     Some (11, \<lparr>buffer = [0x01, 0x94, 0, 0, 0, 0, 0], index = 11, size_in_bits = 56\<rparr>) \<and>
   get_se_golomb \<lparr>buffer = [0x01, 0x94, 0, 0, 0, 0, 0], index = 4, size_in_bits = 56\<rparr> =
     Some (6, \<lparr>buffer = [0x01, 0x94, 0, 0, 0, 0, 0], index = 11, size_in_bits = 56\<rparr>)"
proof -
  have s: "stream \<lparr>buffer = [0x01, 0x94, 0, 0, 0, 0, 0], index = 4, size_in_bits = 56\<rparr> (ue_bits 11 @ [])"
    unfolding ue_bits_11 by (simp add: stream_def) code_simp
  have len: "length (ue_bits 11) = 7" by (simp only: ue_bits_11) simp
  show ?thesis
    using golomb_roundtrip[OF s] unfolding len by (simp add: se_of_def SKIP_COUNTER_def)
qed

text \<open>
  The limit of the reader: it looks at one window of four bytes from the current byte on, so a code word
  of 27 bits at bit offset 7 is cut. The bytes hold the code of 8192 there; the reader returns 8191
  and still advances over 27 bits.
\<close>

theorem golomb_beyond_window:
  "\<exists>gb. stream gb (ue_bits 8192) \<and>
     get_ue_golomb gb = Some (8191, SKIP_COUNTER gb (length (ue_bits 8192)))"
proof -
  define gb where "gb = \<lparr>buffer = [0, 0, 8, 0, 64, 0, 0, 0, 0], index = 7, size_in_bits = 72\<rparr>"
  have "stream gb (ue_bits 8192)"
    unfolding ue_bits_8192 gb_def by (simp add: stream_def) code_simp
  moreover have "get_ue_golomb gb = Some (8191, SKIP_COUNTER gb 27)"
    unfolding gb_def by (simp add: get_ue_golomb_def UPDATE_CACHE_def unaligned32_be_def av_log2_def ff_log2_tab_def Let_def)
  moreover have "length (ue_bits 8192) = 27" unfolding ue_bits_8192 by simp
  ultimately show ?thesis by metis
qed

end
