(* ===== verification/AvcNal.thy ===== *)
theory AvcNal
  imports AvcBits
begin

text \<open>
  NAL unit extraction of \<open>NX_AVCUtil.c\<close>: \<open>decode_nal\<close> finds the end of a NAL unit and removes the
  emulation prevention bytes. It first scans every second byte for a sequence 0 0 x with \<open>x \<le> 3\<close>
  and returns the source in place when there is none; otherwise it copies into the static
  \<open>rbsp_buffer\<close>. The specification is the function \<open>rbsp\<close> on byte lists.
\<close>

section \<open>The code\<close>

text \<open>The scan: the position it stops at and the possibly shortened length.\<close>

function nal_scan :: "OMX_U8 list \<Rightarrow> nat \<Rightarrow> nat \<Rightarrow> nat \<times> nat" where
  "nal_scan src len i =
     (if i + 1 < len then
        (if src ! i \<noteq> 0 then nal_scan src len (i + 2)
         else
           (let i = (if i > 0 \<and> src ! (i - 1) = 0 then i - 1 else i)
            in if i + 2 < len \<and> src ! (i + 1) = 0 \<and> src ! (i + 2) \<le> 3
               then (i, if src ! (i + 2) \<noteq> 3 then i else len)
               else nal_scan src len (i + 2)))
      else (i, len))"
  by auto
termination by (relation "measure (\<lambda>(src, len, i). len - i)") auto

text \<open>The copy loop: the bytes written and the final source position.\<close>

function nal_copy :: "OMX_U8 list \<Rightarrow> nat \<Rightarrow> nat \<Rightarrow> OMX_U8 list \<times> nat" where
  "nal_copy src len si =
     (if si < len then
        (if si + 2 < len \<and> src ! si = 0 \<and> src ! (si + 1) = 0 \<and> src ! (si + 2) \<le> 3 then
           (if src ! (si + 2) = 3 then (let (d, e) = nal_copy src len (si + 3) in (0 # 0 # d, e))
            else ([], si))
         else (let (d, e) = nal_copy src len (si + 1) in (src ! si # d, e)))
      else ([], si))"
  by auto
termination by (relation "measure (\<lambda>(src, len, si). len - si)") auto

declare nal_scan.simps [simp del] nal_copy.simps [simp del]

text \<open>
  The result of \<open>decode_nal\<close>: the unit's type, the returned pointer as a memory and a position in
  it, \<open>dst_length\<close>, \<open>consumed\<close> and the static buffer afterwards.
\<close>

record nal_result =
  nal_unit_type :: OMX_U8
  ptr_mem :: "OMX_U8 list"
  ptr_pos :: nat
  dst_length :: nat
  consumed :: nat
  rbsp_buffer :: "OMX_U8 list"

text \<open>\<open>mem\<close> is the memory of the stream, the unit's header is at \<open>off\<close>, \<open>n\<close> bytes remain from there.\<close>

definition decode_nal :: "OMX_U8 list \<Rightarrow> OMX_U8 list \<Rightarrow> nat \<Rightarrow> nat \<Rightarrow> nal_result option" where
  "decode_nal static mem off n =
     (let ty = mem ! off AND 0x1F; src = drop (off + 1) mem; (i, len) = nal_scan src (n - 1) 0
      in if int i \<ge> int len - 1 then
           Some \<lparr>nal_unit_type = ty, ptr_mem = mem, ptr_pos = off + 1, dst_length = len, consumed = len + 1,
                 rbsp_buffer = static\<rparr>
         else
           (let (dst, si) = nal_copy src len 0; static' = dst @ drop (length dst) static
            in if length dst > length static then None
               else Some \<lparr>nal_unit_type = ty, ptr_mem = static', ptr_pos = 0, dst_length = length dst,
                          consumed = si + 1, rbsp_buffer = static'\<rparr>))"

text \<open>The number of trailing bits: the position of the lowest set bit, counted from 1.\<close>

function trailing_loop :: "OMX_U8 \<Rightarrow> nat \<Rightarrow> nat" where
  "trailing_loop v r = (if r < 9 then (if v AND 1 \<noteq> 0 then r else trailing_loop (drop_bit 1 v) (r + 1)) else 0)"
  by auto
termination by (relation "measure (\<lambda>(v, r). 9 - r)") auto

definition decode_rbsp_trailing :: "OMX_U8 \<Rightarrow> nat" where
  "decode_rbsp_trailing v = trailing_loop v 1"

section \<open>Specification\<close>

text \<open>The payload of a unit: up to the next start code, with the emulation prevention bytes removed.\<close>

fun rbsp :: "OMX_U8 list \<Rightarrow> OMX_U8 list" where
  "rbsp (a # b # c # xs) =
     (if a = 0 \<and> b = 0 \<and> c = 3 then 0 # 0 # rbsp xs
      else if a = 0 \<and> b = 0 \<and> c \<le> 3 then []
      else a # rbsp (b # c # xs))"
| "rbsp xs = xs"

text \<open>The encoder's side: after two zero bytes a 3 is inserted before any byte up to 3.\<close>

fun escape_from :: "nat \<Rightarrow> OMX_U8 list \<Rightarrow> OMX_U8 list" where
  "escape_from z [] = []"
| "escape_from z (x # xs) =
     (if z = 2 \<and> x \<le> 3 then 3 # x # escape_from (if x = 0 then 1 else 0) xs
      else x # escape_from (if x = 0 then z + 1 else 0) xs)"

definition nal_escape :: "OMX_U8 list \<Rightarrow> OMX_U8 list" where
  "nal_escape xs = escape_from 0 xs"

section \<open>The scan\<close>

definition nal_match :: "OMX_U8 list \<Rightarrow> nat \<Rightarrow> nat \<Rightarrow> bool" where
  "nal_match src len p \<longleftrightarrow> p + 2 < len \<and> src ! p = 0 \<and> src ! (p + 1) = 0 \<and> src ! (p + 2) \<le> 3"

text \<open>The scan looks at every second byte and still finds the first match.\<close>

lemma nal_scan_first:
  assumes "\<forall>p. p + 2 \<le> i \<longrightarrow> \<not> nal_match src len p"
  shows "case nal_scan src len i of (j, m) \<Rightarrow>
     (nal_match src len j \<and> (\<forall>p<j. \<not> nal_match src len p) \<and> m = (if src ! (j + 2) = 3 then len else j)) \<or>
     ((\<forall>p. \<not> nal_match src len p) \<and> len \<le> j + 1 \<and> m = len)"
  using assms
proof (induction src len i rule: nal_scan.induct)
  case (1 src len i)
  show ?case
  proof (cases "i + 1 < len")
    case False
    then have "\<not> nal_match src len p" for p
      using 1(3) by (cases "p + 2 \<le> i") (auto simp: nal_match_def)
    with False show ?thesis by (subst nal_scan.simps) auto
  next
    case True
    show ?thesis
    proof (cases "src ! i = 0")
      case False
      have "\<not> nal_match src len p" if "p + 2 \<le> i + 2" for p
      proof -
        consider "p + 2 \<le> i" | "p + 1 = i" | "p = i" using \<open>p + 2 \<le> i + 2\<close> by linarith
        then show ?thesis using 1(3) False by cases (auto simp: nal_match_def)
      qed
      with 1(1)[OF True] False True show ?thesis by (subst nal_scan.simps) simp
    next
      case zero: True
      define k where "k = (if i > 0 \<and> src ! (i - 1) = 0 then i - 1 else i)"
      have k0: "src ! k = 0" using zero by (simp add: k_def)
      have below: "\<not> nal_match src len p" if "p < k" for p
      proof (cases "p + 2 \<le> i")
        case False
        with that have "p + 1 = i" "k = i" by (auto simp: k_def split: if_splits)
        then have "src ! p \<noteq> 0" by (auto simp: k_def split: if_splits)
        then show ?thesis by (simp add: nal_match_def)
      qed (use 1(3) in simp)
      have step: "nal_scan src len i = (if nal_match src len k then (k, if src ! (k + 2) \<noteq> 3 then k else len)
          else nal_scan src len (k + 2))"
        using True zero k0 unfolding nal_scan.simps[of src len i] k_def[symmetric] Let_def nal_match_def by simp
      show ?thesis
      proof (cases "nal_match src len k")
        case True
        with below step show ?thesis by simp
      next
        case False
        then have "\<forall>p. p + 2 \<le> k + 2 \<longrightarrow> \<not> nal_match src len p" using below by (metis add_le_cancel_right le_neq_implies_less)
        moreover have "\<not> (k + 2 < len \<and> src ! (k + 1) = 0 \<and> src ! (k + 2) \<le> 3)" using False k0 by (simp add: nal_match_def)
        ultimately have "case nal_scan src len (k + 2) of (j, m) \<Rightarrow>
           (nal_match src len j \<and> (\<forall>p<j. \<not> nal_match src len p) \<and> m = (if src ! (j + 2) = 3 then len else j)) \<or>
           ((\<forall>p. \<not> nal_match src len p) \<and> len \<le> j + 1 \<and> m = len)"
          using 1(2)[OF \<open>i + 1 < len\<close> _ k_def] zero by simp
        then show ?thesis unfolding step using False by simp
      qed
    qed
  qed
qed

section \<open>The copy\<close>

lemma rbsp_unfold:
  "rbsp xs = (if 2 < length xs \<and> xs ! 0 = 0 \<and> xs ! 1 = 0 \<and> xs ! 2 \<le> 3
      then (if xs ! 2 = 3 then 0 # 0 # rbsp (drop 3 xs) else [])
      else if xs = [] then [] else hd xs # rbsp (tl xs))"
proof (cases xs rule: rbsp.cases)
  case (1 a b c ys)
  then show ?thesis by (auto simp: numeral_2_eq_2 numeral_3_eq_3)
qed auto

lemma rbsp_escape_seq:
  "2 < length xs \<and> xs ! 0 = 0 \<and> xs ! 1 = 0 \<and> xs ! 2 \<le> 3 \<Longrightarrow> xs ! 2 = 3 \<Longrightarrow> rbsp xs = 0 # 0 # rbsp (drop 3 xs)"
  using rbsp_unfold[of xs] by simp

lemma rbsp_start_code:
  "2 < length xs \<and> xs ! 0 = 0 \<and> xs ! 1 = 0 \<and> xs ! 2 \<le> 3 \<Longrightarrow> xs ! 2 \<noteq> 3 \<Longrightarrow> rbsp xs = []"
  using rbsp_unfold[of xs] by simp

lemma rbsp_plain:
  assumes "\<not> (2 < length xs \<and> xs ! 0 = 0 \<and> xs ! 1 = 0 \<and> xs ! 2 \<le> 3)" and "xs = y # ys"
  shows "rbsp xs = y # rbsp ys"
  using rbsp_unfold[of xs] unfolding if_not_P[OF assms(1)] by (simp add: assms(2))

lemma drop_nth_unfold: "si < length xs \<Longrightarrow> drop si xs = xs ! si # drop (si + 1) xs"
  by (simp add: Cons_nth_drop_Suc)

lemma nal_copy_rbsp:
  assumes "len \<le> length src"
  shows "fst (nal_copy src len si) = rbsp (drop si (take len src))"
  using assms
proof (induction src len si rule: nal_copy.induct)
  case (1 src len si)
  let ?l = "take len src"
  have nth: "drop si ?l ! k = src ! (si + k)" if "si + k < len" for k
    using that 1(3) by simp
  show ?case
  proof (cases "si < len")
    case False
    then show ?thesis by (subst nal_copy.simps) simp
  next
    case True
    show ?thesis
    proof (cases "si + 2 < len \<and> src ! si = 0 \<and> src ! (si + 1) = 0 \<and> src ! (si + 2) \<le> 3")
      case m: True
      then have h: "2 < length (drop si ?l) \<and> drop si ?l ! 0 = 0 \<and> drop si ?l ! 1 = 0 \<and> drop si ?l ! 2 \<le> 3"
        "drop si ?l ! 2 = src ! (si + 2)" "drop 3 (drop si ?l) = drop (si + 3) ?l"
        using 1(3) nth by (auto simp: add.commute)
      show ?thesis
      proof (cases "src ! (si + 2) = 3")
        case True
        then have "fst (nal_copy src len si) = 0 # 0 # fst (nal_copy src len (si + 3))"
          using m \<open>si < len\<close> by (subst nal_copy.simps) (simp add: case_prod_unfold Let_def)
        also have "\<dots> = rbsp (drop si ?l)"
          using 1(1)[OF \<open>si < len\<close> m True 1(3)] rbsp_escape_seq[OF h(1)] h(2,3) True by simp
        finally show ?thesis .
      next
        case False
        then have "fst (nal_copy src len si) = []" using m \<open>si < len\<close> by (subst nal_copy.simps) simp
        then show ?thesis using rbsp_start_code[OF h(1)] h(2) False by simp
      qed
    next
      case False
      then have "fst (nal_copy src len si) = src ! si # fst (nal_copy src len (si + 1))"
        unfolding nal_copy.simps[of src len si] if_P[OF True] if_not_P[OF False] by (simp add: case_prod_unfold Let_def)
      moreover have d: "drop si ?l = src ! si # drop (si + 1) ?l"
        using drop_nth_unfold[of si ?l] True 1(3) by simp
      moreover have "\<not> (2 < length (drop si ?l) \<and> drop si ?l ! 0 = 0 \<and> drop si ?l ! 1 = 0 \<and> drop si ?l ! 2 \<le> 3)"
      proof
        assume a: "2 < length (drop si ?l) \<and> drop si ?l ! 0 = 0 \<and> drop si ?l ! 1 = 0 \<and> drop si ?l ! 2 \<le> 3"
        then have "2 < len - si" using 1(3) by simp
        then have "si + 2 < len" by linarith
        with a nth[of 0] nth[of 1] nth[of 2] False show False by (simp add: add.commute)
      qed
      then have "rbsp (drop si ?l) = src ! si # rbsp (drop (si + 1) ?l)"
        by (rule rbsp_plain) (rule d)
      ultimately show ?thesis using 1(2)[OF True False 1(3)] by simp
    qed
  qed
qed

lemma nal_copy_end:
  assumes "si \<le> len"
  shows "case snd (nal_copy src len si) of e \<Rightarrow> si \<le> e \<and> e \<le> len \<and> (e = len \<or> nal_match src len e \<and> src ! (e + 2) \<noteq> 3)"
  using assms
proof (induction src len si rule: nal_copy.induct)
  case (1 src len si)
  show ?case
  proof (cases "si < len")
    case False
    then show ?thesis using 1(3) unfolding nal_copy.simps[of src len si] if_not_P[OF False] by simp
  next
    case True
    show ?thesis
    proof (cases "si + 2 < len \<and> src ! si = 0 \<and> src ! (si + 1) = 0 \<and> src ! (si + 2) \<le> 3")
      case m: True
      show ?thesis
      proof (cases "src ! (si + 2) = 3")
        case True
        have "snd (nal_copy src len si) = snd (nal_copy src len (si + 3))"
          unfolding nal_copy.simps[of src len si] if_P[OF \<open>si < len\<close>] if_P[OF m] if_P[OF True]
          by (simp add: case_prod_unfold Let_def)
        moreover have "si + 3 \<le> len" using m by linarith
        ultimately show ?thesis using 1(1)[OF \<open>si < len\<close> m True] by simp
      next
        case False
        have "snd (nal_copy src len si) = si"
          unfolding nal_copy.simps[of src len si] if_P[OF \<open>si < len\<close>] if_P[OF m] if_not_P[OF False] by simp
        with m False True show ?thesis by (simp add: nal_match_def)
      qed
    next
      case False
      have "snd (nal_copy src len si) = snd (nal_copy src len (si + 1))"
        unfolding nal_copy.simps[of src len si] if_P[OF True] if_not_P[OF False] by (simp add: case_prod_unfold Let_def)
      with 1(2)[OF True False] True show ?thesis by simp
    qed
  qed
qed

lemma nal_match_take: "len \<le> length src \<Longrightarrow> nal_match (take len src) len p = nal_match src len p"
  by (auto simp: nal_match_def)

lemma nal_match_Cons: "nal_match (x # xs) (Suc n) (Suc p) = nal_match xs n p"
  by (auto simp: nal_match_def)

lemma nal_match_0: "nal_match xs (length xs) 0 \<longleftrightarrow> 2 < length xs \<and> xs ! 0 = 0 \<and> xs ! 1 = 0 \<and> xs ! 2 \<le> 3"
  by (auto simp: nal_match_def numeral_2_eq_2)

lemma rbsp_no_match: "\<forall>p. \<not> nal_match xs (length xs) p \<Longrightarrow> rbsp xs = xs"
proof (induction xs)
  case Nil
  then show ?case by simp
next
  case (Cons x xs)
  have "\<forall>p. \<not> nal_match xs (length xs) p" using Cons.prems nal_match_Cons by (metis length_Cons)
  with rbsp_plain[of "x # xs" x xs] Cons nal_match_0[of "x # xs"] show ?case by simp
qed

lemma rbsp_to_start_code:
  "\<forall>p<j. \<not> nal_match xs (length xs) p \<Longrightarrow> nal_match xs (length xs) j \<Longrightarrow> xs ! (j + 2) \<noteq> 3 \<Longrightarrow> rbsp xs = take j xs"
proof (induction j arbitrary: xs)
  case 0
  then show ?case using rbsp_start_code[of xs] by (simp add: nal_match_0 numeral_2_eq_2)
next
  case (Suc j)
  then obtain y ys where xs: "xs = y # ys" by (cases xs) (auto simp: nal_match_def)
  have "\<forall>p<j. \<not> nal_match ys (length ys) p"
  proof (intro allI impI)
    fix p assume "p < j"
    with Suc.prems(1) show "\<not> nal_match ys (length ys) p" unfolding xs by (metis Suc_less_eq length_Cons nal_match_Cons)
  qed
  moreover have "nal_match ys (length ys) j" "ys ! (j + 2) \<noteq> 3"
    using Suc.prems(2,3) unfolding xs by (simp_all add: nal_match_Cons)
  ultimately have "rbsp ys = take j ys" by (rule Suc.IH)
  with rbsp_plain[of xs y ys] Suc.prems(1) nal_match_0[of xs] show ?case unfolding xs by simp
qed

lemma rbsp_length: "length (rbsp xs) \<le> length xs"
  by (induction xs rule: rbsp.induct) auto

section \<open>Correctness\<close>

lemma decode_nal_payload:
  assumes "0 < n" and "off + n \<le> length mem" and "length static = 65536" and "n \<le> 65536"
  shows "\<exists>r. decode_nal static mem off n = Some r \<and>
     take (dst_length r) (drop (ptr_pos r) (ptr_mem r)) = rbsp (take (n - 1) (drop (off + 1) mem)) \<and>
     dst_length r = length (rbsp (take (n - 1) (drop (off + 1) mem))) \<and>
     nal_unit_type r = mem ! off AND 0x1F \<and> length (rbsp_buffer r) = 65536 \<and>
     (ptr_mem r = mem \<and> ptr_pos r = off + 1 \<or> ptr_mem r = rbsp_buffer r \<and> ptr_pos r = 0) \<and>
     0 < consumed r \<and> consumed r \<le> n \<and>
     (consumed r = n \<or> (mem ! (off + consumed r) = 0 \<and> mem ! (off + consumed r + 1) = 0 \<and> mem ! (off + consumed r + 2) < 3))"
proof -
  define src where "src = drop (off + 1) mem"
  define l where "l = take (n - 1) src"
  have ls: "n - 1 \<le> length src" "length l = n - 1" using assms(1,2) by (auto simp: src_def l_def)
  have at: "src ! k = mem ! (off + (k + 1))" if "k < n - 1" for k
    using that ls(1) by (simp add: src_def add.commute)
  have mt: "nal_match l (n - 1) p = nal_match src (n - 1) p" for p
    unfolding l_def by (rule nal_match_take[OF ls(1)])
  have stop: "mem ! (off + (e + 1)) = 0 \<and> mem ! (off + (e + 1) + 1) = 0 \<and> mem ! (off + (e + 1) + 2) < 3 \<and> e + 1 \<le> n"
    if "nal_match src (n - 1) e" "src ! (e + 2) \<noteq> 3" for e
    using that at[of e] at[of "e + 1"] at[of "e + 2"] by (auto simp: nal_match_def add.assoc)
  obtain i len where sc: "nal_scan src (n - 1) 0 = (i, len)" by (metis surj_pair)
  have first: "(nal_match src (n - 1) i \<and> (\<forall>p<i. \<not> nal_match src (n - 1) p) \<and> len = (if src ! (i + 2) = 3 then n - 1 else i)) \<or>
     ((\<forall>p. \<not> nal_match src (n - 1) p) \<and> n - 1 \<le> i + 1 \<and> len = n - 1)"
    using nal_scan_first[of 0 src "n - 1"] sc by simp
  have dn: "decode_nal static mem off n =
      (if int i \<ge> int len - 1 then Some \<lparr>nal_unit_type = mem ! off AND 0x1F, ptr_mem = mem, ptr_pos = off + 1,
         dst_length = len, consumed = len + 1, rbsp_buffer = static\<rparr>
       else (let (dst, si) = nal_copy src len 0; static' = dst @ drop (length dst) static
            in if length dst > length static then None
               else Some \<lparr>nal_unit_type = mem ! off AND 0x1F, ptr_mem = static', ptr_pos = 0, dst_length = length dst,
                          consumed = si + 1, rbsp_buffer = static'\<rparr>))"
    by (simp only: decode_nal_def src_def[symmetric] sc Let_def case_prod_conv)
  show ?thesis
  proof (cases "int i \<ge> int len - 1")
    case True
    have r: "rbsp l = take len src \<and> len \<le> n - 1"
    proof (cases "\<forall>p. \<not> nal_match src (n - 1) p")
      case True
      with first have "len = n - 1" by auto
      with True rbsp_no_match[of l] mt ls show ?thesis by (simp add: l_def)
    next
      case False
      with first True have m: "nal_match src (n - 1) i" "\<forall>p<i. \<not> nal_match src (n - 1) p" "src ! (i + 2) \<noteq> 3" "len = i"
        by (auto simp: nal_match_def split: if_splits)
      moreover from m have "l ! (i + 2) = src ! (i + 2)" by (simp add: l_def nal_match_def)
      ultimately have "rbsp l = take i l" using rbsp_to_start_code[of i l] mt ls(2) by simp
      with m show ?thesis by (simp add: l_def nal_match_def)
    qed
    moreover have "len = n - 1 \<or> nal_match src (n - 1) len \<and> src ! (len + 2) \<noteq> 3"
      using first by (auto split: if_splits)
    ultimately show ?thesis
      unfolding dn if_P[OF True] src_def[symmetric] l_def[symmetric]
      using assms(1,3) ls stop[of len] by (auto simp: src_def)
  next
    case False
    with first have len: "len = n - 1" by (auto split: if_splits)
    obtain dst si where c: "nal_copy src len 0 = (dst, si)" by (metis surj_pair)
    have d: "dst = rbsp l" using nal_copy_rbsp[of len src 0] ls(1) len c by (simp add: l_def)
    have dl: "length dst \<le> n - 1" using rbsp_length[of l] ls(2) d by simp
    have e: "si \<le> n - 1" "si = n - 1 \<or> nal_match src (n - 1) si \<and> src ! (si + 2) \<noteq> 3"
      using nal_copy_end[of 0 len src] c len by auto
    have "\<not> length dst > length static" using dl assms(1,3,4) by simp
    then show ?thesis
      unfolding dn if_not_P[OF False] src_def[symmetric] l_def[symmetric]
      using c d e assms(1,3) dl stop[of si] by (auto simp: Let_def)
  qed
qed

text \<open>
  \<open>decode_nal\<close> returns exactly the payload of the unit: whichever of its two paths it takes, the
  bytes at the returned pointer are \<open>rbsp\<close> of the bytes that follow the unit's header, the type is the
  low five bits of the header, and the number of consumed bytes ends at the next start code or at the
  end of the stream. The static buffer, 64 KB large, is never overrun by a stream of at most 64 KB.
\<close>

theorem decode_nal_extracts_payload:
  assumes "0 < n" and "off + n \<le> length mem" and "length static = 65536" and "n \<le> 65536"
  shows "\<exists>r. decode_nal static mem off n = Some r \<and>
     take (dst_length r) (drop (ptr_pos r) (ptr_mem r)) = rbsp (take (n - 1) (drop (off + 1) mem)) \<and>
     dst_length r = length (rbsp (take (n - 1) (drop (off + 1) mem))) \<and>
     nal_unit_type r = mem ! off AND 0x1F \<and> length (rbsp_buffer r) = 65536 \<and>
     (ptr_mem r = mem \<and> ptr_pos r = off + 1 \<or> ptr_mem r = rbsp_buffer r \<and> ptr_pos r = 0) \<and>
     0 < consumed r \<and> consumed r \<le> n \<and>
     (consumed r = n \<or> (mem ! (off + consumed r) = 0 \<and> mem ! (off + consumed r + 1) = 0 \<and> mem ! (off + consumed r + 2) < 3))"
  using assms by (rule decode_nal_payload)

theorem decode_nal_extracts_payload_witness:
  "\<exists>r. decode_nal (replicate 65536 7) [0x67, 1, 0, 0, 3, 1, 0, 0, 1, 0x68] 0 10 = Some r \<and>
     take (dst_length r) (drop (ptr_pos r) (ptr_mem r)) = [1, 0, 0, 1] \<and> nal_unit_type r = 7"
  using decode_nal_extracts_payload[of 10 0 "[0x67, 1, 0, 0, 3, 1, 0, 0, 1, 0x68]" "replicate 65536 7"]
  by auto

section \<open>Round trip\<close>

text \<open>What may follow a unit: nothing, or a start code.\<close>

definition unit_end :: "OMX_U8 list \<Rightarrow> bool" where
  "unit_end t \<longleftrightarrow> t = [] \<or> (2 < length t \<and> t ! 0 = 0 \<and> t ! 1 = 0 \<and> t ! 2 < 3)"

lemma rbsp_unit_end: "unit_end t \<Longrightarrow> rbsp t = []"
  unfolding unit_end_def using rbsp_start_code[of t] by (cases "t = []") auto

lemma rbsp_nonzero: "x \<noteq> 0 \<Longrightarrow> rbsp (x # ys) = x # rbsp ys"
  by (rule rbsp_plain[of "x # ys" x ys]) auto

lemma rbsp_zero_nonzero: "x \<noteq> 0 \<Longrightarrow> rbsp (0 # x # ys) = 0 # x # rbsp ys"
  using rbsp_plain[of "0 # x # ys" 0 "x # ys"] by (simp add: rbsp_nonzero)

lemma rbsp_two_zeros: "x > 3 \<Longrightarrow> rbsp (0 # 0 # x # ys) = 0 # 0 # x # rbsp ys"
proof -
  assume x: "x > 3"
  then have "x \<noteq> 0" by auto
  moreover from x have "rbsp (0 # 0 # x # ys) = 0 # rbsp (0 # x # ys)"
    by (intro rbsp_plain[of _ _ "0 # x # ys"]) (auto simp: not_le)
  ultimately show ?thesis by (simp add: rbsp_zero_nonzero)
qed

lemma rbsp_escape_from:
  assumes "z \<le> 2" and "xs = [] \<Longrightarrow> z = 0" and "xs \<noteq> [] \<Longrightarrow> last xs \<noteq> 0" and "unit_end t"
  shows "rbsp (replicate z 0 @ escape_from z xs @ t) = replicate z 0 @ xs"
  using assms
proof (induction xs arbitrary: z)
  case Nil
  then show ?case by (simp add: rbsp_unit_end)
next
  case (Cons x xs)
  have IH: "rbsp (replicate y 0 @ escape_from y xs @ t) = replicate y 0 @ xs" if "y \<le> 2" "xs = [] \<Longrightarrow> y = 0" for y
    using Cons.IH[of y] that Cons.prems(3,4) by (cases "xs = []") auto
  have one: "x = 0 \<Longrightarrow> xs \<noteq> []" using Cons.prems(3) by auto
  consider "z = 2" "x \<le> 3" | "z = 2" "3 < x" | "z < 2" "x = 0" | "z < 2" "x \<noteq> 0"
    using Cons.prems(1) by (metis leI le_neq_implies_less)
  then show ?case
  proof cases
    case 1
    have "rbsp (x # escape_from (if x = 0 then 1 else 0) xs @ t) = x # xs"
      using IH[of 1] IH[of 0] one by (cases "x = 0") (auto simp: rbsp_nonzero)
    with 1 show ?thesis using rbsp_escape_seq[of "0 # 0 # 3 # x # escape_from (if x = 0 then 1 else 0) xs @ t"]
      by (simp add: numeral_2_eq_2 numeral_3_eq_3)
  next
    case 2
    then have "x \<noteq> 0" "\<not> x \<le> 3" by auto
    with 2 IH[of 0] rbsp_two_zeros[of x "escape_from 0 xs @ t"] show ?thesis
      by (simp add: numeral_2_eq_2 del: rbsp.simps)
  next
    case 3
    from 3(1) consider "z = 0" | "z = 1" by linarith
    then show ?thesis
      using IH[of 1] IH[of 2] 3(2) one by cases (simp_all add: numeral_2_eq_2 del: rbsp.simps)
  next
    case 4
    then have e: "escape_from z (x # xs) = x # escape_from 0 xs" by simp
    from 4(1) consider "z = 0" | "z = 1" by linarith
    then show ?thesis using IH[of 0] 4(2) unfolding e by cases (simp_all add: rbsp_nonzero rbsp_zero_nonzero)
  qed
qed

text \<open>
  C27: Round trip: a payload that ends in a nonzero byte, escaped as the standard prescribes, framed by a
  header and followed by the end of the stream or a start code, is what \<open>decode_nal\<close> returns.
\<close>

theorem nal_roundtrip:
  assumes "mem = pre @ hdr # nal_escape xs @ t" and "xs \<noteq> []" and "last xs \<noteq> 0" and "unit_end t"
    and "length static = 65536" and "length (nal_escape xs @ t) < 65536"
  shows "\<exists>r. decode_nal static mem (length pre) (length (hdr # nal_escape xs @ t)) = Some r \<and>
     take (dst_length r) (drop (ptr_pos r) (ptr_mem r)) = xs \<and> dst_length r = length xs \<and>
     nal_unit_type r = hdr AND 0x1F"
proof -
  have p: "rbsp (nal_escape xs @ t) = xs"
    using rbsp_escape_from[of 0 xs t] assms(2-4) by (simp add: nal_escape_def)
  have m: "take (length (hdr # nal_escape xs @ t) - 1) (drop (length pre + 1) mem) = nal_escape xs @ t"
    "mem ! length pre = hdr" "length pre + length (hdr # nal_escape xs @ t) \<le> length mem"
    using assms(1) by simp_all
  obtain r where "decode_nal static mem (length pre) (length (hdr # nal_escape xs @ t)) = Some r"
     "take (dst_length r) (drop (ptr_pos r) (ptr_mem r)) = rbsp (nal_escape xs @ t)"
     "dst_length r = length (rbsp (nal_escape xs @ t))" "nal_unit_type r = hdr AND 0x1F"
    using decode_nal_payload[OF _ m(3) assms(5)] assms(6) unfolding m(1,2) by auto
  with p show ?thesis by simp
qed

theorem nal_roundtrip_witness:
  "\<exists>r. decode_nal (replicate 65536 0) ([0, 0, 1] @ 0x67 # nal_escape [0, 0, 1, 0x80] @ [0, 0, 1, 0x68]) 3 10 = Some r \<and>
     take (dst_length r) (drop (ptr_pos r) (ptr_mem r)) = [0, 0, 1, 0x80]"
proof -
  have l: "length ([0, 0, 1] :: OMX_U8 list) = 3" "length (0x67 # nal_escape [0, 0, 1, 0x80] @ [0, 0, 1, 0x68]) = 10"
    by (simp_all add: nal_escape_def)
  show ?thesis
    using nal_roundtrip[of "[0, 0, 1] @ 0x67 # nal_escape [0, 0, 1, 0x80] @ [0, 0, 1, 0x68]" "[0, 0, 1]" "0x67"
        "[0, 0, 1, 0x80]" "[0, 0, 1, 0x68]" "replicate 65536 0"]
    unfolding l by (auto simp: unit_end_def nal_escape_def)
qed

end
