(* ===== verification/AvcSps.thy ===== *)
theory AvcSps
  imports AvcNal "HOL-Library.Signed_Division"
begin

text \<open>
  The sequence parameter set and the video size of \<open>NX_AVCUtil.c\<close>: \<open>decode_seq_parameter_set\<close>,
  \<open>decode_nal_units\<close> and \<open>avc_get_video_size\<close>. The specification is a writer of parameter sets in
  the syntax of H.264 (7.3.2.1.1) up to \<open>vui_parameters_present_flag\<close>, which is as far as the code reads,
  with the list of profiles of the standard; the parser is shown to be its inverse where its own list of
  profiles and its number of scaling lists agree with the standard (\<open>code_agrees\<close>).
\<close>

section \<open>The parser\<close>

record SPS =
  profile_idc :: int
  level_idc :: int
  chroma_format_idc :: int
  log2_max_frame_num :: int
  poc_type :: int
  log2_max_poc_lsb :: int
  delta_pic_order_always_zero_flag :: int
  offset_for_non_ref_pic :: int
  offset_for_top_to_bottom_field :: int
  poc_cycle_length :: int
  ref_frame_count :: int
  gaps_in_frame_num_allowed_flag :: int
  mb_width :: int
  mb_height :: int
  frame_mbs_only_flag :: int
  mb_aff :: int
  direct_8x8_inference_flag :: int
  crop :: int
  crop_left :: int
  crop_right :: int
  crop_top :: int
  crop_bottom :: int
  vui_parameters_present_flag :: int

definition zero_sps :: SPS where
  "zero_sps = \<lparr>profile_idc = 0, level_idc = 0, chroma_format_idc = 0, log2_max_frame_num = 0, poc_type = 0,
     log2_max_poc_lsb = 0, delta_pic_order_always_zero_flag = 0, offset_for_non_ref_pic = 0,
     offset_for_top_to_bottom_field = 0, poc_cycle_length = 0, ref_frame_count = 0,
     gaps_in_frame_num_allowed_flag = 0, mb_width = 0, mb_height = 0, frame_mbs_only_flag = 0, mb_aff = 0,
     direct_8x8_inference_flag = 0, crop = 0, crop_left = 0, crop_right = 0, crop_top = 0, crop_bottom = 0,
     vui_parameters_present_flag = 0\<rparr>"

text \<open>\<open>get_bits\<close> and \<open>get_bits1\<close> as the \<open>int\<close> they are assigned to.\<close>

definition int_bits :: "nat \<Rightarrow> GetBitContext \<Rightarrow> (int \<times> GetBitContext) option" where
  "int_bits n gb = do { (v, gb) \<leftarrow> get_bits gb n; Some (sint v, gb) }"

definition int_bit :: "GetBitContext \<Rightarrow> (int \<times> GetBitContext) option" where
  "int_bit gb = do { (v, gb) \<leftarrow> get_bits1 gb; Some (uint v, gb) }"

text \<open>The loop over one scaling list; \<open>%\<close> of C truncates towards zero.\<close>

fun scaling_list :: "nat \<Rightarrow> int \<Rightarrow> int \<Rightarrow> GetBitContext \<Rightarrow> (unit \<times> GetBitContext) option" where
  "scaling_list 0 lastScale nextScale gb = Some ((), gb)"
| "scaling_list (Suc j) lastScale nextScale gb = do {
     (nextScale, gb) \<leftarrow>
       (if nextScale \<noteq> 0 then do { (delta_scale, gb) \<leftarrow> get_se_golomb gb; Some ((lastScale + delta_scale + 256) smod 256, gb) }
        else Some (nextScale, gb));
     scaling_list j (if nextScale = 0 then lastScale else nextScale) nextScale gb }"

fun scaling_matrix :: "nat list \<Rightarrow> GetBitContext \<Rightarrow> (unit \<times> GetBitContext) option" where
  "scaling_matrix [] gb = Some ((), gb)"
| "scaling_matrix (i # is) gb = do {
     (present, gb) \<leftarrow> int_bit gb;
     (_, gb) \<leftarrow> (if present \<noteq> 0 then scaling_list (if i < 6 then 16 else 64) 8 8 gb else Some ((), gb));
     scaling_matrix is gb }"

definition sps_chroma :: "SPS \<Rightarrow> GetBitContext \<Rightarrow> (SPS \<times> GetBitContext) option" where
  "sps_chroma sps gb = do {
     (c, gb) \<leftarrow> get_ue_golomb gb;
     (_, gb) \<leftarrow> (if c = 3 then int_bit gb else Some (0, gb));
     (_, gb) \<leftarrow> get_ue_golomb gb;
     (_, gb) \<leftarrow> get_ue_golomb gb;
     (_, gb) \<leftarrow> int_bit gb;
     (m, gb) \<leftarrow> int_bit gb;
     (_, gb) \<leftarrow> (if m \<noteq> 0 then scaling_matrix [0..<8] gb else Some ((), gb));
     Some (sps\<lparr>chroma_format_idc := c\<rparr>, gb) }"

fun skip_se :: "nat \<Rightarrow> GetBitContext \<Rightarrow> (unit \<times> GetBitContext) option" where
  "skip_se 0 gb = Some ((), gb)"
| "skip_se (Suc n) gb = do { (_, gb) \<leftarrow> get_se_golomb gb; skip_se n gb }"

definition sps_poc :: "SPS \<Rightarrow> GetBitContext \<Rightarrow> (SPS \<times> GetBitContext) option" where
  "sps_poc sps gb = do {
     (pt, gb) \<leftarrow> get_ue_golomb gb;
     let sps = sps\<lparr>poc_type := pt\<rparr>;
     if pt = 0 then do {
       (v, gb) \<leftarrow> get_ue_golomb gb;
       Some (sps\<lparr>log2_max_poc_lsb := v + 4\<rparr>, gb) }
     else if pt = 1 then do {
       (z, gb) \<leftarrow> int_bit gb;
       (nr, gb) \<leftarrow> get_se_golomb gb;
       (tb, gb) \<leftarrow> get_se_golomb gb;
       (n, gb) \<leftarrow> get_ue_golomb gb;
       (_, gb) \<leftarrow> skip_se (nat n) gb;
       Some (sps\<lparr>delta_pic_order_always_zero_flag := z, offset_for_non_ref_pic := nr,
                 offset_for_top_to_bottom_field := tb, poc_cycle_length := n\<rparr>, gb) }
     else Some (sps, gb) }"

definition sps_frame :: "SPS \<Rightarrow> GetBitContext \<Rightarrow> (SPS \<times> GetBitContext) option" where
  "sps_frame sps gb = do {
     (rf, gb) \<leftarrow> get_ue_golomb gb;
     (gp, gb) \<leftarrow> int_bit gb;
     (w, gb) \<leftarrow> get_ue_golomb gb;
     (h, gb) \<leftarrow> get_ue_golomb gb;
     (fo, gb) \<leftarrow> int_bit gb;
     (af, gb) \<leftarrow> (if fo = 0 then int_bit gb else Some (0, gb));
     (d8, gb) \<leftarrow> int_bit gb;
     Some (sps\<lparr>ref_frame_count := rf, gaps_in_frame_num_allowed_flag := gp, mb_width := w + 1, mb_height := h + 1,
               frame_mbs_only_flag := fo, mb_aff := af, direct_8x8_inference_flag := d8\<rparr>, gb) }"

definition sps_crop :: "SPS \<Rightarrow> GetBitContext \<Rightarrow> (SPS \<times> GetBitContext) option" where
  "sps_crop sps gb = do {
     (c, gb) \<leftarrow> int_bit gb;
     if c \<noteq> 0 then do {
       (l, gb) \<leftarrow> get_ue_golomb gb;
       (r, gb) \<leftarrow> get_ue_golomb gb;
       (t, gb) \<leftarrow> get_ue_golomb gb;
       (b, gb) \<leftarrow> get_ue_golomb gb;
       Some (sps\<lparr>crop := c, crop_left := l, crop_right := r, crop_top := t, crop_bottom := b\<rparr>, gb) }
     else Some (sps\<lparr>crop := c, crop_left := 0, crop_right := 0, crop_top := 0, crop_bottom := 0\<rparr>, gb) }"

definition decode_seq_parameter_set :: "SPS \<Rightarrow> GetBitContext \<Rightarrow> ((int \<times> SPS) \<times> GetBitContext) option" where
  "decode_seq_parameter_set sps gb = do {
     (pr, gb) \<leftarrow> int_bits 8 gb;
     (_, gb) \<leftarrow> int_bit gb;
     (_, gb) \<leftarrow> int_bit gb;
     (_, gb) \<leftarrow> int_bit gb;
     (_, gb) \<leftarrow> int_bits 5 gb;
     (lv, gb) \<leftarrow> int_bits 8 gb;
     (_, gb) \<leftarrow> get_ue_golomb gb;
     let sps = sps\<lparr>profile_idc := pr, level_idc := lv, chroma_format_idc := 1\<rparr>;
     (sps, gb) \<leftarrow> (if pr \<in> {100, 110, 122, 144} then sps_chroma sps gb else Some (sps, gb));
     (v, gb) \<leftarrow> get_ue_golomb gb;
     (sps, gb) \<leftarrow> sps_poc (sps\<lparr>log2_max_frame_num := v + 4\<rparr>) gb;
     if poc_type sps > 2 then Some ((-1, sps), gb)
     else do {
       (sps, gb) \<leftarrow> sps_frame sps gb;
       (sps, gb) \<leftarrow> sps_crop sps gb;
       (u, gb) \<leftarrow> int_bit gb;
       Some ((0, sps\<lparr>vui_parameters_present_flag := u\<rparr>), gb) } }"

section \<open>NAL units and the video size\<close>

text \<open>The search for a start code prefix.\<close>

function find_start :: "OMX_U8 list \<Rightarrow> nat \<Rightarrow> nat \<Rightarrow> nat" where
  "find_start mem n i =
     (if i + 3 < n then
        (if mem ! i = 0 \<and> mem ! (i + 1) = 0 \<and> mem ! (i + 2) = 1 then i else find_start mem n (i + 1))
      else i)"
  by auto
termination by (relation "measure (\<lambda>(mem, n, i). n - i)") auto

declare find_start.simps [simp del]

lemma find_start_ge: "i \<le> find_start mem n i"
  by (induction mem n i rule: find_start.induct) (subst find_start.simps, auto)

text \<open>A byte at a possibly negative position.\<close>

definition byte_at :: "OMX_U8 list \<Rightarrow> int \<Rightarrow> OMX_U8 option" where
  "byte_at mem k = (if 0 \<le> k \<and> k < int (length mem) then Some (mem ! nat k) else None)"

text \<open>
  The pointer of \<open>decode_nal\<close> may be followed by \<open>dst_length = 0\<close>; the byte before it is then the unit's
  header, which is still in the stream.
\<close>

definition nal_bit_length :: "nal_result \<Rightarrow> int option" where
  "nal_bit_length r = do {
     b \<leftarrow> byte_at (ptr_mem r) (int (ptr_pos r) + int (dst_length r) - 1);
     let dl = (if b = 0 then int (dst_length r) - 1 else int (dst_length r));
     t \<leftarrow> byte_at (ptr_mem r) (int (ptr_pos r) + dl - 1);
     Some (8 * dl - int (decode_rbsp_trailing t)) }"

text \<open>The result of the parameter set parser is not looked at.\<close>

function decode_nal_units ::
  "OMX_U8 list \<Rightarrow> OMX_U8 list \<Rightarrow> nat \<Rightarrow> nat \<Rightarrow> SPS \<Rightarrow> (int \<times> SPS \<times> OMX_U8 list) option" where
  "decode_nal_units static mem n i sps =
     (let k = find_start mem n i in
      if k + 3 \<ge> n then Some (0, sps, static)
      else do {
        r \<leftarrow> decode_nal static mem (k + 3) (n - (k + 3));
        bl \<leftarrow> nal_bit_length r;
        if nal_unit_type r = 7 then do {
          gb \<leftarrow> init_get_bits (drop (ptr_pos r) (ptr_mem r)) bl;
          ((rc, sps), gb) \<leftarrow> decode_seq_parameter_set sps gb;
          Some (1, sps, rbsp_buffer r) }
        else decode_nal_units (rbsp_buffer r) mem n (k + 3 + consumed r) sps })"
  by auto
termination
proof (relation "measure (\<lambda>(static, mem, n, i, sps). n - i)", goal_cases)
  case (2 static mem n i sps k r bl)
  then show ?case using find_start_ge[of i mem n] by auto
qed auto

declare decode_nal_units.simps [simp del]

definition crop_units :: "SPS \<Rightarrow> int \<times> int" where
  "crop_units sps =
     (if chroma_format_idc sps = 0 then (1, 2 - frame_mbs_only_flag sps)
      else (if chroma_format_idc sps = 3 then 1 else 2,
            (if chroma_format_idc sps = 1 then 2 else 1) * (2 - frame_mbs_only_flag sps)))"

text \<open>
  \<open>static\<close> is the content of the static buffer before the call, \<open>mem\<close> the memory from \<open>buf\<close> on, which
  holds at least \<open>buf_size\<close> bytes. The first component is the size, if a parameter set was found.
\<close>

definition avc_get_video_size ::
  "OMX_U8 list \<Rightarrow> OMX_U8 list \<Rightarrow> nat \<Rightarrow> ((OMX_S32 \<times> OMX_S32) option \<times> OMX_U8 list) option" where
  "avc_get_video_size static mem buf_size =
     (let n = (if buf_size > 64 * 1024 then 64 * 1024 else buf_size) in
      if n > length mem then None
      else do {
        (found, sps, static) \<leftarrow> decode_nal_units static mem n 0 zero_sps;
        if found \<noteq> 0 then
          (let w = word_of_int (mb_width sps * 16); h = word_of_int (mb_height sps * 16); (ux, uy) = crop_units sps
           in Some (Some (if crop sps \<noteq> 0
                then (w - word_of_int (crop_left sps + crop_right sps) * word_of_int ux,
                      h - word_of_int (crop_top sps + crop_bottom sps) * word_of_int uy)
                else (w, h)), static))
        else Some (None, static) })"

section \<open>Readers and what they read\<close>

text \<open>\<open>reads f v as\<close>: wherever the bits \<open>as\<close> come next, \<open>f\<close> returns \<open>v\<close> and stands behind them.\<close>

definition reads :: "(GetBitContext \<Rightarrow> ('a \<times> GetBitContext) option) \<Rightarrow> 'a \<Rightarrow> bool list \<Rightarrow> bool" where
  "reads f v as \<longleftrightarrow> (\<forall>gb bs. stream gb (as @ bs) \<longrightarrow> (\<exists>gb'. f gb = Some (v, gb') \<and> stream gb' bs))"

lemma reads_bind:
  assumes "reads f v as" and "reads (g v) w bs"
  shows "reads (\<lambda>gb. do { (x, gb) \<leftarrow> f gb; g x gb }) w (as @ bs)"
  unfolding reads_def
proof (intro allI impI)
  fix gb cs
  assume "stream gb ((as @ bs) @ cs)"
  then have "stream gb (as @ (bs @ cs))" by simp
  then obtain gb1 where "f gb = Some (v, gb1)" "stream gb1 (bs @ cs)" using assms(1) unfolding reads_def by blast
  moreover from this obtain gb2 where "g v gb1 = Some (w, gb2)" "stream gb2 cs"
    using assms(2) unfolding reads_def by blast
  ultimately show "\<exists>gb'. (do { (x, gb) \<leftarrow> f gb; g x gb }) = Some (w, gb') \<and> stream gb' cs" by simp
qed

lemma reads_return: "v = w \<Longrightarrow> reads (\<lambda>gb. Some (v, gb)) w []"
  by (simp add: reads_def)

lemma reads_last:
  assumes "reads f v as" and "g v = w"
  shows "reads (\<lambda>gb. do { (x, gb) \<leftarrow> f gb; Some (g x, gb) }) w as"
  using reads_bind[of f v as "\<lambda>x gb. Some (g x, gb)" w "[]"] reads_return[of "g v" w] assms by simp

lemma reads_ue: "0 \<le> v \<Longrightarrow> v \<le> 8190 \<Longrightarrow> reads get_ue_golomb v (ue_bits (nat v))"
  unfolding reads_def using get_ue_golomb_stream[of _ "nat v"] stream_skip by fastforce

definition se_code :: "int \<Rightarrow> nat" where
  "se_code v = (if v > 0 then nat (2 * v - 1) else nat (- 2 * v))"

lemma se_of_code [simp]: "se_of (se_code v) = v"
  by (auto simp: se_of_def se_code_def even_nat_iff nat_add_distrib nat_diff_distrib)

lemma reads_se: "se_code v \<le> 8190 \<Longrightarrow> reads get_se_golomb v (ue_bits (se_code v))"
  unfolding reads_def using get_se_golomb_stream[of _ "se_code v"] stream_skip by fastforce

lemma reads_bits:
  assumes "0 \<le> v" and "v < 2 ^ n" and "0 < n" and "n \<le> 25"
  shows "reads (int_bits n) v (nbits n (nat v))"
  unfolding reads_def
proof (intro allI impI)
  fix gb bs
  assume s: "stream gb (nbits n (nat v) @ bs)"
  have "nat v < 2 ^ n" using assms(1,2) by (simp add: nat_less_iff)
  then have g: "get_bits gb n = Some (word_of_nat (nat v), SKIP_COUNTER gb n)"
    using get_bits_stream[OF s _ _ refl] assms(3,4) by simp
  have "(2::int) ^ n \<le> 2 ^ 25" using assms(4) by (intro power_increasing) auto
  then have "sint (word_of_int v :: OMX_U32) = v" using assms(1,2) by (intro sint_small) auto
  then have "sint (word_of_nat (nat v) :: OMX_U32) = v" using assms(1) by (simp add: of_nat_nat)
  with g s show "\<exists>gb'. int_bits n gb = Some (v, gb') \<and> stream gb' bs"
    by (simp add: int_bits_def stream_skip)
qed

text \<open>Fields that are read and thrown away.\<close>

lemma reads_any_bits:
  assumes "length as = n" and "0 < n" and "n \<le> 25"
  shows "reads (int_bits n) (int (bval as)) as"
proof -
  have e: "as = nbits n (nat (int (bval as)))"
  proof (rule nth_equalityI)
    show "length as = length (nbits n (nat (int (bval as))))" using assms(1) by simp
    fix i assume "i < length as"
    then show "as ! i = nbits n (nat (int (bval as))) ! i"
      using assms(1) by (simp add: nbits_def rev_nth bit_bval)
  qed
  have "int (bval as) < 2 ^ n" using bval_lt[of as] assms(1) by (metis of_nat_less_iff of_nat_numeral of_nat_power)
  then have "reads (int_bits n) (int (bval as)) (nbits n (nat (int (bval as))))"
    using assms(2,3) by (intro reads_bits) auto
  then show ?thesis using e by simp
qed

lemma reads_bit: "v = of_bool b \<Longrightarrow> reads int_bit v [b]"
  unfolding reads_def int_bit_def using get_bits1_stream stream_skip[of _ "[_]"] by (cases b) fastforce+

section \<open>Writing a parameter set\<close>

text \<open>
  What a parameter set contains beside the fields that the parser keeps: its identifier, the
  constraint flags with the reserved bits, the fields of the high profiles and the reference
  frame offsets.
\<close>

record sps_extra =
  x_id :: int
  x_constraints :: "bool list"
  x_residual :: bool
  x_luma_depth :: int
  x_chroma_depth :: int
  x_bypass :: bool
  x_scaling :: "int list option list option"
  x_offsets :: "int list"

text \<open>
  The profiles whose parameter sets have the chroma fields, by the standard. The code has a list of its own,
  with 144 (withdrawn) and without 244 and the profiles below 100 and above 122.
\<close>

definition standard_high :: "int \<Rightarrow> bool" where
  "standard_high p \<longleftrightarrow> p \<in> {100, 110, 122, 244, 44, 83, 86, 118, 128, 138, 139, 134, 135}"

text \<open>
  A scaling list is written as its differences; a list ends early when the next scale becomes 0.
\<close>

definition write_se :: "int list \<Rightarrow> bool list" where
  "write_se vs = concat (map (\<lambda>v. ue_bits (se_code v)) vs)"

definition write_scaling :: "int list option \<Rightarrow> bool list" where
  "write_scaling l = [l \<noteq> None] @ (case l of None \<Rightarrow> [] | Some ds \<Rightarrow> write_se ds)"

fun valid_scaling :: "nat \<Rightarrow> int \<Rightarrow> int list \<Rightarrow> bool" where
  "valid_scaling 0 scale ds = (ds = [])"
| "valid_scaling (Suc j) scale [] = False"
| "valid_scaling (Suc j) scale (d # ds) =
     (- 128 \<le> d \<and> d \<le> 127 \<and>
      (if (scale + d + 256) mod 256 = 0 then ds = [] else valid_scaling j ((scale + d + 256) mod 256) ds))"

definition valid_list :: "nat \<Rightarrow> int list option \<Rightarrow> bool" where
  "valid_list n l = (case l of None \<Rightarrow> True | Some ds \<Rightarrow> valid_scaling n 8 ds)"

definition valid_matrix :: "int \<Rightarrow> int list option list option \<Rightarrow> bool" where
  "valid_matrix c m = (case m of None \<Rightarrow> True | Some ls \<Rightarrow>
     length ls = (if c = 3 then 12 else 8) \<and>
     (\<forall>i<length ls. valid_list (if i < 6 then 16 else 64) (ls ! i)))"

definition write_matrix :: "int list option list option \<Rightarrow> bool list" where
  "write_matrix m = (case m of None \<Rightarrow> [] | Some ls \<Rightarrow> concat (map write_scaling ls))"

definition write_chroma :: "SPS \<Rightarrow> sps_extra \<Rightarrow> bool list" where
  "write_chroma p x = ue_bits (nat (chroma_format_idc p)) @ (if chroma_format_idc p = 3 then [x_residual x] else []) @
     ue_bits (nat (x_luma_depth x)) @ ue_bits (nat (x_chroma_depth x)) @ [x_bypass x] @
     [x_scaling x \<noteq> None] @ write_matrix (x_scaling x) @ []"

definition write_poc :: "SPS \<Rightarrow> sps_extra \<Rightarrow> bool list" where
  "write_poc p x = ue_bits (nat (poc_type p)) @
     (if poc_type p = 0 then ue_bits (nat (log2_max_poc_lsb p - 4)) @ []
      else if poc_type p = 1 then
        [delta_pic_order_always_zero_flag p \<noteq> 0] @ ue_bits (se_code (offset_for_non_ref_pic p)) @
        ue_bits (se_code (offset_for_top_to_bottom_field p)) @ ue_bits (nat (poc_cycle_length p)) @
        write_se (x_offsets x) @ []
      else [])"

definition write_frame :: "SPS \<Rightarrow> bool list" where
  "write_frame p = ue_bits (nat (ref_frame_count p)) @ [gaps_in_frame_num_allowed_flag p \<noteq> 0] @
     ue_bits (nat (mb_width p - 1)) @ ue_bits (nat (mb_height p - 1)) @ [frame_mbs_only_flag p \<noteq> 0] @
     (if frame_mbs_only_flag p = 0 then [mb_aff p \<noteq> 0] else []) @ [direct_8x8_inference_flag p \<noteq> 0] @ []"

definition write_crop :: "SPS \<Rightarrow> bool list" where
  "write_crop p = [crop p \<noteq> 0] @
     (if crop p \<noteq> 0 then ue_bits (nat (crop_left p)) @ ue_bits (nat (crop_right p)) @ ue_bits (nat (crop_top p)) @
        ue_bits (nat (crop_bottom p)) @ [] else [])"

definition write_sps :: "SPS \<Rightarrow> sps_extra \<Rightarrow> bool list" where
  "write_sps p x = nbits 8 (nat (profile_idc p)) @ [x_constraints x ! 0] @ [x_constraints x ! 1] @ [x_constraints x ! 2] @
     drop 3 (x_constraints x) @ nbits 8 (nat (level_idc p)) @ ue_bits (nat (x_id x)) @
     (if standard_high (profile_idc p) then write_chroma p x else []) @
     ue_bits (nat (log2_max_frame_num p - 4)) @ write_poc p x @ write_frame p @ write_crop p @
     [vui_parameters_present_flag p \<noteq> 0] @ []"

text \<open>A flag, a number that the parser can read, and a well-formed parameter set.\<close>

definition is_flag :: "int \<Rightarrow> bool" where
  "is_flag v \<longleftrightarrow> v = 0 \<or> v = 1"

definition is_ue :: "int \<Rightarrow> bool" where
  "is_ue v \<longleftrightarrow> 0 \<le> v \<and> v \<le> 8190"

definition valid_poc :: "SPS \<Rightarrow> sps_extra \<Rightarrow> bool" where
  "valid_poc p x \<longleftrightarrow> poc_type p \<in> {0, 1, 2} \<and>
     (if poc_type p = 0 then is_ue (log2_max_poc_lsb p - 4) else log2_max_poc_lsb p = 0) \<and>
     (if poc_type p = 1 then is_flag (delta_pic_order_always_zero_flag p) \<and> se_code (offset_for_non_ref_pic p) \<le> 8190 \<and>
        se_code (offset_for_top_to_bottom_field p) \<le> 8190 \<and> is_ue (poc_cycle_length p) \<and>
        poc_cycle_length p = int (length (x_offsets x)) \<and> (\<forall>v\<in>set (x_offsets x). se_code v \<le> 8190)
      else delta_pic_order_always_zero_flag p = 0 \<and> offset_for_non_ref_pic p = 0 \<and>
        offset_for_top_to_bottom_field p = 0 \<and> poc_cycle_length p = 0)"

definition valid_frame :: "SPS \<Rightarrow> bool" where
  "valid_frame p \<longleftrightarrow> is_ue (ref_frame_count p) \<and> is_flag (gaps_in_frame_num_allowed_flag p) \<and> is_ue (mb_width p - 1) \<and>
     is_ue (mb_height p - 1) \<and> is_flag (frame_mbs_only_flag p) \<and> is_flag (mb_aff p) \<and>
     (frame_mbs_only_flag p = 1 \<longrightarrow> mb_aff p = 0) \<and> is_flag (direct_8x8_inference_flag p)"

definition valid_crop :: "SPS \<Rightarrow> bool" where
  "valid_crop p \<longleftrightarrow> is_flag (crop p) \<and> is_flag (vui_parameters_present_flag p) \<and>
     (if crop p = 0 then crop_left p = 0 \<and> crop_right p = 0 \<and> crop_top p = 0 \<and> crop_bottom p = 0
      else is_ue (crop_left p) \<and> is_ue (crop_right p) \<and> is_ue (crop_top p) \<and> is_ue (crop_bottom p))"

definition valid_sps :: "SPS \<Rightarrow> sps_extra \<Rightarrow> bool" where
  "valid_sps p x \<longleftrightarrow> 0 \<le> profile_idc p \<and> profile_idc p < 256 \<and> 0 \<le> level_idc p \<and> level_idc p < 256 \<and>
     length (x_constraints x) = 8 \<and> is_ue (x_id x) \<and> is_ue (log2_max_frame_num p - 4) \<and>
     (if standard_high (profile_idc p)
      then 0 \<le> chroma_format_idc p \<and> chroma_format_idc p \<le> 3 \<and> is_ue (x_luma_depth x) \<and> is_ue (x_chroma_depth x) \<and>
        valid_matrix (chroma_format_idc p) (x_scaling x)
      else chroma_format_idc p = 1) \<and> valid_poc p x \<and> valid_frame p \<and> valid_crop p"

text \<open>
  Where the code follows the standard: not for the profiles that its list misses or has in excess, and not
  for a scaling matrix of a 4:4:4 stream, which has twelve lists of which the code reads eight.
\<close>

definition code_agrees :: "SPS \<Rightarrow> sps_extra \<Rightarrow> bool" where
  "code_agrees p x \<longleftrightarrow> profile_idc p \<notin> {44, 83, 86, 118, 128, 134, 135, 138, 139, 144, 244} \<and>
     (chroma_format_idc p = 3 \<longrightarrow> x_scaling x = None)"

lemma standard_high_of_code: "code_agrees p x \<Longrightarrow> standard_high (profile_idc p) \<longleftrightarrow> profile_idc p \<in> {100, 110, 122, 144}"
  by (auto simp: code_agrees_def standard_high_def)

section \<open>The parser inverts the writer\<close>

lemma reads_flag: "is_flag v \<Longrightarrow> reads int_bit v [v \<noteq> 0]"
  by (rule reads_bit) (auto simp: is_flag_def)

lemma reads_num: "is_ue v \<Longrightarrow> reads get_ue_golomb v (ue_bits (nat v))"
  by (rule reads_ue) (auto simp: is_ue_def)

lemma reads_if: "(b \<Longrightarrow> reads f v as) \<Longrightarrow> (\<not> b \<Longrightarrow> reads g v bs) \<Longrightarrow>
    reads (\<lambda>gb. if b then f gb else g gb) v (if b then as else bs)"
  by simp

lemma reads_num_plus:
  "is_ue (v - c) \<Longrightarrow> reads (g (v - c)) w bs \<Longrightarrow> reads (\<lambda>gb. do { (x, gb) \<leftarrow> get_ue_golomb gb; g x gb }) w (ue_bits (nat (v - c)) @ bs)"
  by (rule reads_bind[OF reads_num])

lemma reads_skip_se: "\<forall>v\<in>set vs. se_code v \<le> 8190 \<Longrightarrow>
    reads (skip_se (length vs)) () (write_se vs)"
proof (induction vs)
  case Nil
  then show ?case by (simp add: reads_def write_se_def)
next
  case (Cons v vs)
  then show ?case using reads_bind[OF reads_se[of v], of "\<lambda>_. skip_se (length vs)"] by (simp add: write_se_def)
qed

lemma reads_scaling_rest: "reads (scaling_list j scale 0) () []"
  by (induction j) (simp_all add: reads_def)

lemma se_code_small: "- 128 \<le> d \<Longrightarrow> d \<le> 127 \<Longrightarrow> se_code d \<le> 8190"
  unfolding se_code_def by auto

lemma smod_pos: "0 \<le> (a :: int) \<Longrightarrow> a smod 256 = a mod 256"
  by (cases "a = 0") (simp_all add: signed_modulo_int_def)

lemma reads_scaling_list:
  "valid_scaling j scale ds \<Longrightarrow> 0 \<le> scale \<Longrightarrow> nxt \<noteq> 0 \<Longrightarrow> reads (scaling_list j scale nxt) () (write_se ds)"
proof (induction j scale ds arbitrary: nxt rule: valid_scaling.induct)
  case (1 scale ds)
  then show ?case by (simp add: reads_def write_se_def)
next
  case (2 j scale)
  then show ?case by simp
next
  case (3 j scale d ds)
  let ?v = "(scale + d + 256) mod 256"
  have d: "- 128 \<le> d" "d \<le> 127" using "3.prems"(1) by simp_all
  then have v: "(scale + d + 256) smod 256 = ?v" using "3.prems"(2) by (intro smod_pos) simp
  have first: "reads (\<lambda>gb. if nxt \<noteq> 0
       then do { (delta_scale, gb) \<leftarrow> get_se_golomb gb; Some ((scale + delta_scale + 256) smod 256, gb) }
       else Some (nxt, gb)) ?v (ue_bits (se_code d))"
    unfolding if_P[OF "3.prems"(3)] by (rule reads_last[OF reads_se[OF se_code_small[OF d]]]) (rule v)
  have "reads (scaling_list j (if ?v = 0 then scale else ?v) ?v) () (write_se ds)"
  proof (cases "?v = 0")
    case True
    then have "ds = []" using "3.prems"(1) by simp
    with True reads_scaling_rest show ?thesis by (simp add: write_se_def)
  next
    case False
    then have "valid_scaling j ?v ds" using "3.prems"(1) by simp
    with "3.IH"[OF False this _ False] False show ?thesis by simp
  qed
  from reads_bind[OF first, where g = "\<lambda>n. scaling_list j (if n = 0 then scale else n) n", OF this] show ?case
    by (simp add: write_se_def)
qed

lemma reads_scaling:
  assumes "valid_list n l"
    and "reads f w bs"
  shows "reads (\<lambda>gb. do { (present, gb) \<leftarrow> int_bit gb;
       (_, gb) \<leftarrow> (if present \<noteq> 0 then scaling_list n 8 8 gb else Some ((), gb)); f gb }) w (write_scaling l @ bs)"
proof -
  have "reads (\<lambda>gb. if (of_bool (l \<noteq> None) :: int) \<noteq> 0 then scaling_list n 8 8 gb else Some ((), gb)) ()
      (case l of None \<Rightarrow> [] | Some ds \<Rightarrow> write_se ds)"
    using assms(1) reads_scaling_list[of n 8 _ 8] by (cases l) (simp_all add: reads_def valid_list_def)
  from reads_bind[OF this, where g = "\<lambda>_. f", OF assms(2)]
  have "reads (\<lambda>gb. do { (_, gb) \<leftarrow> (if (of_bool (l \<noteq> None) :: int) \<noteq> 0 then scaling_list n 8 8 gb else Some ((), gb)); f gb }) w
      ((case l of None \<Rightarrow> [] | Some ds \<Rightarrow> write_se ds) @ bs)" .
  from reads_bind[OF reads_bit[OF HOL.refl], where g = "\<lambda>present gb.
      do { (_, gb) \<leftarrow> (if present \<noteq> 0 then scaling_list n 8 8 gb else Some ((), gb)); f gb }", OF this]
  show ?thesis by (simp add: write_scaling_def)
qed

lemma reads_matrix:
  "\<forall>i<length ls. valid_list (if js ! i < 6 then 16 else 64) (ls ! i) \<Longrightarrow>
   length js = length ls \<Longrightarrow> reads (scaling_matrix js) () (concat (map write_scaling ls))"
proof (induction ls arbitrary: js)
  case Nil
  then show ?case by (simp add: reads_def)
next
  case (Cons l ls)
  then obtain j js' where js: "js = j # js'" by (cases js) auto
  have l: "valid_list (if j < 6 then 16 else 64) l"
    using Cons.prems(1)[rule_format, of 0] js by simp
  have "\<forall>i<length ls. valid_list (if js' ! i < 6 then 16 else 64) (ls ! i)"
    using Cons.prems(1)[rule_format, of "Suc _"] js by simp
  then have "reads (scaling_matrix js') () (concat (map write_scaling ls))" using Cons js by simp
  from reads_scaling[OF l this] show ?case by (simp add: js)
qed

lemma reads_opt_matrix:
  assumes "valid_matrix c m" and "c = 3 \<longrightarrow> m = None"
  shows "reads (\<lambda>gb. if (of_bool (m \<noteq> None) :: int) \<noteq> 0 then scaling_matrix [0..<8] gb else Some ((), gb)) () (write_matrix m)"
proof (cases m)
  case None
  then show ?thesis by (simp add: reads_def write_matrix_def)
next
  case (Some ls)
  with assms have "length ls = 8" "\<forall>i<length ls. valid_list (if i < 6 then 16 else 64) (ls ! i)"
    by (auto simp: valid_matrix_def)
  then have "reads (scaling_matrix [0..<8]) () (concat (map write_scaling ls))" by (intro reads_matrix) auto
  with Some show ?thesis by (simp add: write_matrix_def)
qed

lemma reads_opt_bit: "reads (\<lambda>gb. if b then int_bit gb else Some (0, gb)) (if b then of_bool y else 0) (if b then [y] else [])"
  by (cases b) (auto intro: reads_bit reads_return)

lemma reads_chroma:
  assumes "is_ue (chroma_format_idc p)" "is_ue (x_luma_depth x)" "is_ue (x_chroma_depth x)"
    "valid_matrix (chroma_format_idc p) (x_scaling x)" "chroma_format_idc p = 3 \<longrightarrow> x_scaling x = None"
  shows "reads (sps_chroma s) (s\<lparr>chroma_format_idc := chroma_format_idc p\<rparr>) (write_chroma p x)"
  unfolding sps_chroma_def[abs_def] write_chroma_def
  by (rule reads_bind[OF reads_num[OF assms(1)]], rule reads_bind[OF reads_opt_bit], rule reads_bind[OF reads_num[OF assms(2)]],
      rule reads_bind[OF reads_num[OF assms(3)]], rule reads_bind[OF reads_bit[OF HOL.refl]],
      rule reads_bind[OF reads_bit[OF HOL.refl]], rule reads_bind[OF reads_opt_matrix[OF assms(4,5)]]) (simp add: reads_def)

lemma reads_poc:
  assumes "valid_poc p x" and "log2_max_poc_lsb s = 0" "delta_pic_order_always_zero_flag s = 0" "offset_for_non_ref_pic s = 0"
    "offset_for_top_to_bottom_field s = 0" "poc_cycle_length s = 0"
  shows "reads (sps_poc s) (s\<lparr>poc_type := poc_type p, log2_max_poc_lsb := log2_max_poc_lsb p,
     delta_pic_order_always_zero_flag := delta_pic_order_always_zero_flag p, offset_for_non_ref_pic := offset_for_non_ref_pic p,
     offset_for_top_to_bottom_field := offset_for_top_to_bottom_field p, poc_cycle_length := poc_cycle_length p\<rparr>) (write_poc p x)"
proof -
  have v: "poc_type p \<in> {0, 1, 2}" using assms(1) by (simp add: valid_poc_def)
  then have "is_ue (poc_type p)" by (auto simp: is_ue_def)
  note start = reads_bind[OF reads_num[OF this]]
  from v consider "poc_type p = 0" | "poc_type p = 1" | "poc_type p = 2" by blast
  then show ?thesis
  proof cases
    case 1
    with assms have "is_ue (log2_max_poc_lsb p - 4)" and z: "delta_pic_order_always_zero_flag p = 0" "offset_for_non_ref_pic p = 0"
      "offset_for_top_to_bottom_field p = 0" "poc_cycle_length p = 0" by (simp_all add: valid_poc_def)
    then show ?thesis unfolding sps_poc_def[abs_def] write_poc_def if_P[OF 1] Let_def
      by (intro start) (simp only: 1 HOL.refl if_True, rule reads_bind[OF reads_num], simp_all add: reads_def assms(2-) z 1)
  next
    case 2
    with assms(1) have f: "is_flag (delta_pic_order_always_zero_flag p)" "se_code (offset_for_non_ref_pic p) \<le> 8190"
      "se_code (offset_for_top_to_bottom_field p) \<le> 8190" "is_ue (poc_cycle_length p)"
      "nat (poc_cycle_length p) = length (x_offsets x)" "\<forall>v\<in>set (x_offsets x). se_code v \<le> 8190" "log2_max_poc_lsb p = 0"
      by (auto simp: valid_poc_def)
    have ne: "poc_type p \<noteq> 0" using 2 by simp
    show ?thesis unfolding sps_poc_def[abs_def] write_poc_def if_not_P[OF ne] if_P[OF 2] Let_def
      apply (rule start)
      apply (simp only: if_not_P[OF ne] if_P[OF 2])
      apply (rule reads_bind[OF reads_flag[OF f(1)]])
      apply (rule reads_bind[OF reads_se[OF f(2)]])
      apply (rule reads_bind[OF reads_se[OF f(3)]])
      apply (rule reads_bind[OF reads_num[OF f(4)]])
      apply (simp only: f(5))
      apply (rule reads_bind[OF reads_skip_se[OF f(6)]])
      apply (rule reads_return)
      using assms(2-) f(7) by simp
  next
    case 3
    then have ne: "poc_type p \<noteq> 0" "poc_type p \<noteq> 1" by simp_all
    with 3 assms(1) have z: "delta_pic_order_always_zero_flag p = 0" "offset_for_non_ref_pic p = 0" "log2_max_poc_lsb p = 0"
      "offset_for_top_to_bottom_field p = 0" "poc_cycle_length p = 0" by (simp_all add: valid_poc_def)
    show ?thesis unfolding sps_poc_def[abs_def] write_poc_def if_not_P[OF ne(1)] if_not_P[OF ne(2)] Let_def
      by (rule start) (simp add: 3 reads_def assms(2-) z)
  qed
qed

lemma reads_opt_flag:
  "is_flag v \<Longrightarrow> (\<not> b \<Longrightarrow> v = 0) \<Longrightarrow>
     reads (\<lambda>gb. if b then int_bit gb else Some (0, gb)) v (if b then [v \<noteq> 0] else [])"
  by (cases b) (auto intro: reads_flag reads_return)

lemma reads_frame:
  assumes "valid_frame p"
  shows "reads (sps_frame s) (s\<lparr>ref_frame_count := ref_frame_count p,
     gaps_in_frame_num_allowed_flag := gaps_in_frame_num_allowed_flag p, mb_width := mb_width p, mb_height := mb_height p,
     frame_mbs_only_flag := frame_mbs_only_flag p, mb_aff := mb_aff p, direct_8x8_inference_flag := direct_8x8_inference_flag p\<rparr>)
     (write_frame p)"
proof -
  have f: "is_ue (ref_frame_count p)" "is_flag (gaps_in_frame_num_allowed_flag p)" "is_ue (mb_width p - 1)"
    "is_ue (mb_height p - 1)" "is_flag (frame_mbs_only_flag p)" "is_flag (mb_aff p)"
    "frame_mbs_only_flag p \<noteq> 0 \<Longrightarrow> mb_aff p = 0" "is_flag (direct_8x8_inference_flag p)"
    using assms by (auto simp: valid_frame_def is_flag_def)
  show ?thesis unfolding sps_frame_def[abs_def] write_frame_def
    by (rule reads_bind[OF reads_num[OF f(1)]], rule reads_bind[OF reads_flag[OF f(2)]], rule reads_bind[OF reads_num[OF f(3)]],
        rule reads_bind[OF reads_num[OF f(4)]], rule reads_bind[OF reads_flag[OF f(5)]],
        rule reads_bind[OF reads_opt_flag[OF f(6,7)]], assumption, rule reads_bind[OF reads_flag[OF f(8)]], rule reads_return, simp)
qed

lemma reads_crop:
  assumes "valid_crop p"
  shows "reads (sps_crop s) (s\<lparr>crop := crop p, crop_left := crop_left p, crop_right := crop_right p,
     crop_top := crop_top p, crop_bottom := crop_bottom p\<rparr>) (write_crop p)"
proof -
  have f: "is_flag (crop p)" using assms by (simp add: valid_crop_def)
  show ?thesis
  proof (cases "crop p = 0")
    case True
    with assms show ?thesis unfolding sps_crop_def[abs_def] write_crop_def
      by (intro reads_bind[OF reads_flag[OF f]]) (simp add: reads_def valid_crop_def)
  next
    case False
    then have g: "crop p \<noteq> 0" "is_ue (crop_left p)" "is_ue (crop_right p)" "is_ue (crop_top p)" "is_ue (crop_bottom p)"
      using assms by (simp_all add: valid_crop_def)
    show ?thesis unfolding sps_crop_def[abs_def] write_crop_def if_P[OF g(1)]
      by (rule reads_bind[OF reads_flag[OF f]], simp only: g(1) if_True not_False_eq_True, rule reads_bind[OF reads_num[OF g(2)]],
          rule reads_bind[OF reads_num[OF g(3)]], rule reads_bind[OF reads_num[OF g(4)]], rule reads_bind[OF reads_num[OF g(5)]],
          rule reads_return, simp)
  qed
qed

lemma reads_high:
  assumes "if standard_high (profile_idc p)
      then 0 \<le> chroma_format_idc p \<and> chroma_format_idc p \<le> 3 \<and> is_ue (x_luma_depth x) \<and> is_ue (x_chroma_depth x) \<and>
        valid_matrix (chroma_format_idc p) (x_scaling x)
      else chroma_format_idc p = 1" and "chroma_format_idc s = 1" and "code_agrees p x"
  shows "reads (\<lambda>gb. if profile_idc p \<in> {100, 110, 122, 144} then sps_chroma s gb else Some (s, gb))
     (s\<lparr>chroma_format_idc := chroma_format_idc p\<rparr>) (if standard_high (profile_idc p) then write_chroma p x else [])"
proof (cases "standard_high (profile_idc p)")
  case True
  with assms(1,3) have a: "is_ue (chroma_format_idc p)" "is_ue (x_luma_depth x)" "is_ue (x_chroma_depth x)"
    "valid_matrix (chroma_format_idc p) (x_scaling x)" "chroma_format_idc p = 3 \<longrightarrow> x_scaling x = None"
    by (simp_all add: is_ue_def code_agrees_def)
  from True have "profile_idc p \<in> {100, 110, 122, 144}" by (simp only: standard_high_of_code[OF assms(3)])
  with True reads_chroma[OF a] show ?thesis by (simp only: if_True)
next
  case False
  then have "profile_idc p \<notin> {100, 110, 122, 144}" by (simp only: standard_high_of_code[OF assms(3)] not_False_eq_True)
  moreover have "s\<lparr>chroma_format_idc := chroma_format_idc p\<rparr> = s" using False assms by simp
  ultimately show ?thesis using False by (simp only: if_False reads_return)
qed

lemma reads_sps:
  assumes "valid_sps p x" and "code_agrees p x"
  shows "reads (decode_seq_parameter_set zero_sps) (0, p) (write_sps p x)"
proof -
  have f: "0 \<le> profile_idc p" "profile_idc p < 2 ^ 8" "0 \<le> level_idc p" "level_idc p < 2 ^ 8"
    "length (drop 3 (x_constraints x)) = 5" "is_ue (x_id x)" "is_ue (log2_max_frame_num p - 4)"
    "if standard_high (profile_idc p)
      then 0 \<le> chroma_format_idc p \<and> chroma_format_idc p \<le> 3 \<and> is_ue (x_luma_depth x) \<and> is_ue (x_chroma_depth x) \<and>
        valid_matrix (chroma_format_idc p) (x_scaling x)
      else chroma_format_idc p = 1" "valid_poc p x" "valid_frame p" "valid_crop p" "is_flag (vui_parameters_present_flag p)"
    using assms(1) by (simp_all add: valid_sps_def valid_crop_def)
  have pt: "\<not> poc_type p > 2" using f(9) by (auto simp: valid_poc_def)
  note byte = reads_bind[OF reads_bits[of _ 8]] and any = reads_bind[OF reads_bit[OF HOL.refl]]
  show ?thesis unfolding decode_seq_parameter_set_def[abs_def] write_sps_def
    apply (rule byte[OF f(1,2)], simp, simp)
    apply (rule any, rule any, rule any)
    apply (rule reads_bind[OF reads_any_bits[OF f(5)]], simp, simp)
    apply (rule byte[OF f(3,4)], simp, simp)
    apply (rule reads_bind[OF reads_num[OF f(6)]])
    apply (simp only: Let_def)
    apply (rule reads_bind[OF reads_high[OF f(8) _ assms(2)]], simp)
    apply (rule reads_bind[OF reads_num[OF f(7)]])
    apply (rule reads_bind[OF reads_poc[OF f(9)]], simp_all only: zero_sps_def SPS.simps)
    apply (simp only: pt if_False)
    apply (rule reads_bind[OF reads_frame[OF f(10)]])
    apply (rule reads_bind[OF reads_crop[OF f(11)]])
    apply (rule reads_bind[OF reads_flag[OF f(12)]])
    apply (rule reads_return)
    by simp
qed

section \<open>The video size of a stream\<close>

text \<open>
  A stream that starts with a unit of type 7: a start code, the unit's header, and the escaped payload
  \<open>pl\<close>, whose bits begin with \<open>as\<close>. The stream has \<open>n\<close> bytes; at least four bytes can be read behind the payload.
\<close>

definition unit_stream :: "bool list \<Rightarrow> OMX_U8 list \<Rightarrow> OMX_U8 list \<Rightarrow> nat \<Rightarrow> bool" where
  "unit_stream as pl mem n \<longleftrightarrow>
     (\<exists>pre hdr t rest. (pre = [0, 0, 1] \<or> pre = [0, 0, 0, 1]) \<and> mem = pre @ hdr # nal_escape pl @ t @ rest \<and>
        n = length (pre @ hdr # nal_escape pl @ t) \<and> n \<le> 65536 \<and> 4 \<le> length (t @ rest) \<and> hdr AND 0x1F = 7 \<and> unit_end t) \<and>
     pl \<noteq> [] \<and> last pl \<noteq> 0 \<and> length as \<le> 8 * length pl \<and> (\<forall>j<length as. bitat pl j = as ! j)"

text \<open>
  The size that the parser computes, and the size of the picture as the standard defines it: table 6-1 for
  the subsampling of chroma, the cropping units of 7.4.2.1.1, and \<open>FrameHeightInMbs\<close>.
\<close>

definition sps_size :: "SPS \<Rightarrow> OMX_S32 \<times> OMX_S32" where
  "sps_size p = (word_of_int (mb_width p * 16 - (crop_left p + crop_right p) * fst (crop_units p)),
     word_of_int (mb_height p * 16 - (crop_top p + crop_bottom p) * snd (crop_units p)))"

definition SubWidthC :: "int \<Rightarrow> int" where
  "SubWidthC c = (if c = 1 \<or> c = 2 then 2 else 1)"

definition SubHeightC :: "int \<Rightarrow> int" where
  "SubHeightC c = (if c = 1 then 2 else 1)"

definition CropUnitX :: "int \<Rightarrow> int" where
  "CropUnitX c = (if c = 0 then 1 else SubWidthC c)"

definition CropUnitY :: "int \<Rightarrow> int \<Rightarrow> int" where
  "CropUnitY c fmo = (if c = 0 then 2 - fmo else SubHeightC c * (2 - fmo))"

definition standard_size :: "SPS \<Rightarrow> OMX_S32 \<times> OMX_S32" where
  "standard_size p =
     (word_of_int (16 * mb_width p - CropUnitX (chroma_format_idc p) * (crop_left p + crop_right p)),
      word_of_int (16 * ((2 - frame_mbs_only_flag p) * mb_height p) -
        CropUnitY (chroma_format_idc p) (frame_mbs_only_flag p) * (crop_top p + crop_bottom p)))"

lemma valid_sps_chroma: "valid_sps p x \<Longrightarrow> 0 \<le> chroma_format_idc p \<and> chroma_format_idc p \<le> 3"
  by (auto simp: valid_sps_def split: if_splits)

lemma crop_units_standard:
  assumes "valid_sps p x"
  shows "crop_units p = (CropUnitX (chroma_format_idc p), CropUnitY (chroma_format_idc p) (frame_mbs_only_flag p))"
proof -
  from valid_sps_chroma[OF assms] consider "chroma_format_idc p = 0" | "chroma_format_idc p = 1"
    | "chroma_format_idc p = 2" | "chroma_format_idc p = 3" by linarith
  then show ?thesis by cases (simp_all add: crop_units_def CropUnitX_def CropUnitY_def SubWidthC_def SubHeightC_def)
qed

lemma sps_size_standard:
  assumes "valid_sps p x"
  shows "fst (sps_size p) = fst (standard_size p)"
    "snd (sps_size p) = snd (standard_size p) - word_of_int (16 * ((1 - frame_mbs_only_flag p) * mb_height p))"
  by (simp_all add: sps_size_def standard_size_def crop_units_standard[OF assms] algebra_simps)

lemma escape_from_length: "length xs \<le> length (escape_from z xs)"
proof (induction xs arbitrary: z)
  case Nil
  then show ?case by simp
next
  case (Cons x xs)
  from Cons.IH[of "if x = 0 then 1 else 0"] Cons.IH[of "if x = 0 then z + 1 else 0"] show ?case by simp
qed

lemma find_start_prefix:
  assumes "pre = [0, 0, 1] \<or> pre = [0, 0, 0, 1]" and "mem = pre @ h # ys" and "length pre < n"
  shows "find_start mem n 0 = length pre - 3"
  using assms(1)
proof
  assume "pre = [0, 0, 1]"
  then show ?thesis using assms(2,3) unfolding find_start.simps[of mem n 0] by simp
next
  assume "pre = [0, 0, 0, 1]"
  moreover from this have "find_start mem n 0 = find_start mem n 1"
    using assms(2,3) unfolding find_start.simps[of mem n 0] by (simp add: numeral_2_eq_2)
  moreover from calculation have "find_start mem n 1 = 1"
    using assms(2,3) unfolding find_start.simps[of mem n 1] by (simp add: numeral_2_eq_2 numeral_3_eq_3)
  ultimately show ?thesis by simp
qed

lemma bitat_take: "j < 8 * n \<Longrightarrow> n \<le> length b \<Longrightarrow> bitat (take n b) j = bitat b j"
  by (simp add: bitat_def less_mult_imp_div_less mult.commute)

lemma unit_stream_video_size:
  assumes "unit_stream as pl mem n" and "reads (decode_seq_parameter_set zero_sps) (rc, p) as"
    and "length static = 65536"
    and "crop p = 0 \<longrightarrow> crop_left p = 0 \<and> crop_right p = 0 \<and> crop_top p = 0 \<and> crop_bottom p = 0"
  shows "\<exists>static'. avc_get_video_size static mem n = Some (Some (sps_size p), static') \<and> length static' = 65536"
proof -
  obtain pre hdr t rest where s: "pre = [0, 0, 1] \<or> pre = [0, 0, 0, 1]" "mem = pre @ hdr # nal_escape pl @ t @ rest"
    "n = length (pre @ hdr # nal_escape pl @ t)" "n \<le> 65536" "4 \<le> length (t @ rest)" "hdr AND 0x1F = 7" "unit_end t"
    "pl \<noteq> []" "last pl \<noteq> 0" "length as \<le> 8 * length pl"
    and bits: "\<forall>j<length as. bitat pl j = as ! j"
    using assms(1) unfolding unit_stream_def by blast
  have fs: "find_start mem n 0 = length pre - 3" "length pre - 3 + 3 = length pre"
    using find_start_prefix[OF s(1), of mem hdr] s by auto
  have pl: "rbsp (nal_escape pl @ t) = pl"
    using rbsp_escape_from[of 0 pl t] s(7-9) by (simp add: nal_escape_def)
  have "length pl \<le> length (nal_escape pl)" using escape_from_length[of pl 0] by (simp only: nal_escape_def)
  moreover have "3 \<le> length pre" using s(1) by auto
  moreover have "n = length pre + (1 + (length (nal_escape pl) + length t))" using s(3) by simp
  moreover have "length mem = n + length rest" using s(2,3) by simp
  ultimately have un: "n - length pre = length (hdr # nal_escape pl @ t)" "length pre < n" "length pl + 4 \<le> 65536"
    "n \<le> length mem" "length pl + length pre < n" "length pl + 4 + length pre < length mem"
    using s(4,5) by simp_all
  have pay: "take (n - length pre - 1) (drop (length pre + 1) mem) = nal_escape pl @ t" "mem ! length pre = hdr"
    using s(2) un(1) by simp_all
  have pr: "0 < n - length pre" "length pre + (n - length pre) \<le> length mem" "n - length pre \<le> 65536"
    using un s(4) by linarith+
  obtain r where r: "decode_nal static mem (length pre) (n - length pre) = Some r"
    "take (dst_length r) (drop (ptr_pos r) (ptr_mem r)) = pl" "dst_length r = length pl" "nal_unit_type r = 7"
    "length (rbsp_buffer r) = 65536"
    "ptr_mem r = mem \<and> ptr_pos r = length pre + 1 \<or> ptr_mem r = rbsp_buffer r \<and> ptr_pos r = 0"
    using decode_nal_payload[OF pr(1,2) assms(3) pr(3), unfolded pay pl s(6)] by blast
  define b where "b = drop (ptr_pos r) (ptr_mem r)"
  have lb: "length pl + 4 \<le> length b" "ptr_pos r + length pl \<le> length (ptr_mem r)"
    using r(5,6) un by (auto simp: b_def)
  have last: "b ! (length pl - 1) = last pl"
    using r(2,3) s(8) by (metis b_def last_conv_nth nth_take diff_less length_greater_0_conv zero_less_one)
  have pos: "nat (int (ptr_pos r) + int (length pl) - 1) = ptr_pos r + (length pl - 1)"
    using s(8) by (cases pl) auto
  have at: "byte_at (ptr_mem r) (int (ptr_pos r) + int (length pl) - 1) = Some (last pl)"
    using last lb s(8) by (cases pl) (auto simp: byte_at_def b_def pos nat_add_distrib)
  then obtain bl where bl: "nal_bit_length r = Some bl"
    using s(9) r(3) by (simp add: nal_bit_length_def)
  define gb where "gb = \<lparr>buffer = b, index = 0, size_in_bits = bl\<rparr>"
  have st: "stream gb (as @ [])"
  proof -
    have "bitat b j = bitat pl j" if "j < length as" for j
      using bitat_take[of j "length pl" b] that s(10) lb(1) r(2,3) by (simp add: b_def)
    then show ?thesis using bits s(10) lb(1) by (auto simp: stream_def gb_def)
  qed
  have ini: "init_get_bits b bl = Some gb"
    using lb(1) by (simp add: init_get_bits_def gb_def UPDATE_CACHE_def unaligned32_be_def)
  obtain gb' where dec: "decode_seq_parameter_set zero_sps gb = Some ((rc, p), gb')"
    using assms(2) st unfolding reads_def by blast
  have units: "decode_nal_units static mem n 0 zero_sps = Some (1, p, rbsp_buffer r)"
    using fs un r(1,4) bl ini dec
    by (subst decode_nal_units.simps) (simp add: b_def[symmetric] Let_def)
  have "avc_get_video_size static mem n = Some (Some (sps_size p), rbsp_buffer r)"
    using assms(4) units s(4) un(4) by (auto simp: avc_get_video_size_def sps_size_def Let_def case_prod_unfold)
  with r(5) show ?thesis by blast
qed

text \<open>
  C11: Round trip of the sequence parameter set: standing in front of a parameter set written in the syntax
  of the standard, the parser succeeds, returns exactly the fields that were written, for every type of the
  picture order count, with or without cropping and scaling lists, and stands behind the flag
  \<open>vui_parameters_present_flag\<close>, where the code stops reading. The numbers of the set are at most 8190, the
  profile is none of the eleven for which the list in the code differs from the standard's, and a 4:4:4
  stream has no scaling matrix (\<open>code_agrees\<close>).
\<close>

theorem sps_roundtrip:
  assumes "valid_sps p x" and "code_agrees p x" and "stream gb (write_sps p x @ bs)"
  shows "\<exists>gb'. decode_seq_parameter_set zero_sps gb = Some ((0, p), gb') \<and> stream gb' bs"
  using reads_sps[OF assms(1,2)] assms(3) unfolding reads_def by blast

text \<open>
  A progressive 1920 x 1080 stream of the High profile, with cropping and one scaling list that ends at once,
  and an interlaced 720 x 576 one.
\<close>

definition hd_sps :: SPS where
  "hd_sps = zero_sps\<lparr>profile_idc := 100, level_idc := 40, chroma_format_idc := 1, log2_max_frame_num := 4, poc_type := 0,
     log2_max_poc_lsb := 4, ref_frame_count := 1, mb_width := 120, mb_height := 68, frame_mbs_only_flag := 1,
     direct_8x8_inference_flag := 1, crop := 1, crop_bottom := 4\<rparr>"

definition field_sps :: SPS where
  "field_sps = zero_sps\<lparr>profile_idc := 66, level_idc := 30, chroma_format_idc := 1, log2_max_frame_num := 4, poc_type := 2,
     ref_frame_count := 1, mb_width := 45, mb_height := 18, frame_mbs_only_flag := 0, direct_8x8_inference_flag := 1\<rparr>"

definition plain_extra :: sps_extra where
  "plain_extra = \<lparr>x_id = 0, x_constraints = [True, True, False, False, False, False, False, False],
     x_residual = False, x_luma_depth = 0, x_chroma_depth = 0, x_bypass = False, x_scaling = None, x_offsets = []\<rparr>"

definition scaling_extra :: sps_extra where
  "scaling_extra = plain_extra\<lparr>x_scaling := Some [Some [- 8], None, None, None, None, None, None, None]\<rparr>"

lemma sample_matrix: "valid_matrix 1 (x_scaling scaling_extra)"
proof -
  have "valid_scaling 16 8 [- 8]" by code_simp
  then show ?thesis by (auto simp: valid_matrix_def scaling_extra_def valid_list_def nth_Cons split: nat.splits)
qed

lemma sample_sps_valid: "valid_sps hd_sps scaling_extra" "valid_sps field_sps plain_extra"
  using sample_matrix
  by (simp_all add: valid_sps_def hd_sps_def field_sps_def plain_extra_def scaling_extra_def zero_sps_def valid_poc_def
      valid_frame_def valid_crop_def is_ue_def is_flag_def standard_high_def)

lemma sample_sps_agrees: "code_agrees hd_sps scaling_extra" "code_agrees field_sps plain_extra"
  by (simp_all add: code_agrees_def hd_sps_def field_sps_def zero_sps_def)

lemma small_ue_bits:
  "ue_bits 0 = [True]" "ue_bits (Suc 0) = [False, True, False]" "ue_bits 2 = [False, True, True]"
  "ue_bits 3 = [False, False, True, False, False]" "ue_bits 4 = [False, False, True, False, True]"
  "ue_bits 16 = [False, False, False, False, True, False, False, False, True]"
  "ue_bits 17 = [False, False, False, False, True, False, False, True, False]"
  "ue_bits 44 = [False, False, False, False, False, True, False, True, True, False, True]"
  "ue_bits 67 = [False, False, False, False, False, False, True, False, False, False, True, False, False]"
  "ue_bits 119 = [False, False, False, False, False, False, True, True, True, True, False, False, False]"
  by code_simp+

lemma sample_bytes:
  "nbits 8 66 = [False, True, False, False, False, False, True, False]"
  "nbits 8 30 = [False, False, False, True, True, True, True, False]"
  "nbits 8 40 = [False, False, True, False, True, False, False, False]"
  "nbits 8 100 = [False, True, True, False, False, True, False, False]"
  "nbits 8 244 = [True, True, True, True, False, True, False, False]"
  by code_simp+

lemma sample_header:
  "write_sps hd_sps scaling_extra =
     [False, True, True, False, False, True, False, False, True, True, False, False, False, False, False, False,
     False, False, True, False, True, False, False, False, True, False, True, False, True, True, False, True,
     True, False, False, False, False, True, False, False, False, True, False, False, False, False, False, False,
     False, True, True, True, False, True, False, False, False, False, False, False, False, False, True, True,
     True, True, False, False, False, False, False, False, False, False, False, True, False, False, False, True,
     False, False, True, True, True, True, True, True, False, False, True, False, True, False]"
  "write_sps field_sps plain_extra =
     [False, True, False, False, False, False, True, False, True, True, False, False, False, False, False, False,
      False, False, False, True, True, True, True, False, True, True, False, True, True, False, True, False, False,
      False, False, False, False, False, True, False, True, True, False, True, False, False, False, False, True, False, False, True, False,
      False, False, True, False, False]"
  by (simp_all add: write_sps_def write_poc_def write_frame_def write_crop_def write_chroma_def write_matrix_def
      write_scaling_def write_se_def se_code_def hd_sps_def field_sps_def plain_extra_def scaling_extra_def
      zero_sps_def standard_high_def small_ue_bits sample_bytes)

theorem sps_roundtrip_witness:
  "\<exists>gb'. decode_seq_parameter_set zero_sps
     \<lparr>buffer = [0x64, 0xC0, 0x28, 0xAD, 0x84, 0x40, 0x74, 0x03, 0xC0, 0x11, 0x3F, 0x2A, 0, 0, 0, 0], index = 0, size_in_bits = 94\<rparr> = Some ((0, hd_sps), gb')"
proof -
  have "stream \<lparr>buffer = [0x64, 0xC0, 0x28, 0xAD, 0x84, 0x40, 0x74, 0x03, 0xC0, 0x11, 0x3F, 0x2A, 0, 0, 0, 0], index = 0, size_in_bits = 94\<rparr>
      (write_sps hd_sps scaling_extra @ [])"
    unfolding sample_header by (simp add: stream_def) code_simp
  from sps_roundtrip[OF sample_sps_valid(1) sample_sps_agrees(1) this] show ?thesis by blast
qed

lemma valid_crop_zero:
  "valid_sps p x \<Longrightarrow> crop p = 0 \<longrightarrow> crop_left p = 0 \<and> crop_right p = 0 \<and> crop_top p = 0 \<and> crop_bottom p = 0"
  by (simp add: valid_sps_def valid_crop_def split: if_splits)

text \<open>
  C32: The video size of a progressive stream: whatever precedes the picture size in the parameter set, whatever
  emulation prevention the unit needs and whatever follows it, \<open>avc_get_video_size\<close> finds the size that the
  standard gives the picture, with the cropping units of its chroma format. The parameter set is one of those
  of C11: numbers of at most 8190, and a profile and a scaling matrix on which the code agrees with the standard.
\<close>

theorem video_size_of_stream:
  assumes "unit_stream (write_sps p x) pl mem n" and "valid_sps p x" and "code_agrees p x"
    and "frame_mbs_only_flag p = 1" and "length static = 65536"
  shows "\<exists>static'. avc_get_video_size static mem n = Some (Some (standard_size p), static') \<and> length static' = 65536"
proof -
  have "sps_size p = standard_size p" using sps_size_standard[OF assms(2)] assms(4) by (simp add: prod_eq_iff)
  then show ?thesis
    using unit_stream_video_size[OF assms(1) reads_sps[OF assms(2,3)] assms(5) valid_crop_zero[OF assms(2)]] by simp
qed

definition hd_stream :: "OMX_U8 list" where
  "hd_stream = [0, 0, 0, 1] @ 0x67 # nal_escape [0x64, 0xC0, 0x28, 0xAD, 0x84, 0x40, 0x74, 0x03, 0xC0, 0x11, 0x3F, 0x2A] @ [0, 0, 0, 1] @ [0x68, 0xCE, 0x38, 0x80]"

lemma hd_unit: "unit_stream (write_sps hd_sps scaling_extra) [0x64, 0xC0, 0x28, 0xAD, 0x84, 0x40, 0x74, 0x03, 0xC0, 0x11, 0x3F, 0x2A] hd_stream 21"
proof -
  have "\<exists>pre hdr t rest. (pre = [0, 0, 1] \<or> pre = [0, 0, 0, 1]) \<and>
      hd_stream = pre @ hdr # nal_escape [0x64, 0xC0, 0x28, 0xAD, 0x84, 0x40, 0x74, 0x03, 0xC0, 0x11, 0x3F, 0x2A] @ t @ rest \<and>
      21 = length (pre @ hdr # nal_escape [0x64, 0xC0, 0x28, 0xAD, 0x84, 0x40, 0x74, 0x03, 0xC0, 0x11, 0x3F, 0x2A] @ t) \<and> (21::nat) \<le> 65536 \<and>
      4 \<le> length (t @ rest) \<and> hdr AND 0x1F = 7 \<and> unit_end t"
    by (rule exI[of _ "[0, 0, 0, 1]"], rule exI[of _ "0x67"], rule exI[of _ "[0, 0, 0, 1]"],
        rule exI[of _ "[0x68, 0xCE, 0x38, 0x80]"]) (simp add: hd_stream_def unit_end_def nal_escape_def)
  moreover have "\<forall>j<length (write_sps hd_sps scaling_extra).
      bitat [0x64, 0xC0, 0x28, 0xAD, 0x84, 0x40, 0x74, 0x03, 0xC0, 0x11, 0x3F, 0x2A] j = write_sps hd_sps scaling_extra ! j"
    unfolding sample_header by code_simp
  ultimately show ?thesis unfolding unit_stream_def by (simp add: sample_header)
qed

theorem video_size_of_stream_witness:
  "\<exists>static'. avc_get_video_size (replicate 65536 0) hd_stream 21 = Some (Some (1920, 1080), static')"
proof -
  have "standard_size hd_sps = (1920, 1080)"
    by (simp add: standard_size_def hd_sps_def zero_sps_def CropUnitX_def CropUnitY_def SubWidthC_def SubHeightC_def)
  then show ?thesis
    using video_size_of_stream[OF hd_unit sample_sps_valid(1) sample_sps_agrees(1), of "replicate 65536 0"]
    by (auto simp: hd_sps_def)
qed

text \<open>
  An interlaced stream (\<open>frame_mbs_only_flag\<close> 0) counts its height in pairs of macroblock rows; the code
  doubles the cropping unit but not the height, so the height it reports is too small by sixteen times the
  number of rows.
\<close>

theorem interlaced_height_halved:
  assumes "unit_stream (write_sps p x) pl mem n" and "valid_sps p x" and "code_agrees p x" and "frame_mbs_only_flag p = 0"
    and "length static = 65536"
  shows "\<exists>static' w h. avc_get_video_size static mem n = Some (Some (w, h), static') \<and> w = fst (standard_size p) \<and>
     h = snd (standard_size p) - word_of_int (16 * mb_height p) \<and> h \<noteq> snd (standard_size p)"
proof -
  have h: "snd (sps_size p) = snd (standard_size p) - word_of_int (16 * mb_height p)"
    using sps_size_standard(2)[OF assms(2)] assms(4) by simp
  have "1 \<le> mb_height p" "mb_height p \<le> 8191"
    using assms(2) by (simp_all add: valid_sps_def valid_frame_def is_ue_def)
  then have "sint (word_of_int (16 * mb_height p) :: OMX_S32) = 16 * mb_height p" by (intro sint_small) auto
  with \<open>1 \<le> mb_height p\<close> have "(word_of_int (16 * mb_height p) :: OMX_S32) \<noteq> 0" by (metis mult_eq_0_iff not_one_le_zero signed_0 zero_neq_numeral)
  moreover note sps_size_standard(1)[OF assms(2)]
  ultimately show ?thesis
    using unit_stream_video_size[OF assms(1) reads_sps[OF assms(2,3)] assms(5) valid_crop_zero[OF assms(2)]] h
    by (metis diff_eq_eq prod.collapse add_0_right add_left_cancel)
qed

definition field_stream :: "OMX_U8 list" where
  "field_stream = [0, 0, 1] @ 0x67 # nal_escape [0x42, 0xC0, 0x1E, 0xDA, 0x02, 0xD0, 0x91, 0x20] @ [] @ [0, 0, 1, 0x68]"

lemma field_unit: "unit_stream (write_sps field_sps plain_extra) [0x42, 0xC0, 0x1E, 0xDA, 0x02, 0xD0, 0x91, 0x20] field_stream 12"
proof -
  have "\<exists>pre hdr t rest. (pre = [0, 0, 1] \<or> pre = [0, 0, 0, 1]) \<and>
      field_stream = pre @ hdr # nal_escape [0x42, 0xC0, 0x1E, 0xDA, 0x02, 0xD0, 0x91, 0x20] @ t @ rest \<and>
      12 = length (pre @ hdr # nal_escape [0x42, 0xC0, 0x1E, 0xDA, 0x02, 0xD0, 0x91, 0x20] @ t) \<and> (12::nat) \<le> 65536 \<and>
      4 \<le> length (t @ rest) \<and> hdr AND 0x1F = 7 \<and> unit_end t"
    by (rule exI[of _ "[0, 0, 1]"], rule exI[of _ "0x67"], rule exI[of _ "[]"],
        rule exI[of _ "[0, 0, 1, 0x68]"]) (simp add: field_stream_def unit_end_def nal_escape_def)
  moreover have "\<forall>j<length (write_sps field_sps plain_extra).
      bitat [0x42, 0xC0, 0x1E, 0xDA, 0x02, 0xD0, 0x91, 0x20] j = write_sps field_sps plain_extra ! j"
    unfolding sample_header by code_simp
  ultimately show ?thesis unfolding unit_stream_def by (simp add: sample_header)
qed

theorem interlaced_height_halved_witness:
  "\<exists>static'. avc_get_video_size (replicate 65536 0) field_stream 12 = Some (Some (720, 288), static') \<and>
     standard_size field_sps = (720, 576)"
proof -
  have s: "standard_size field_sps = (720, 576)" and m: "mb_height field_sps = 18"
    by (simp_all add: standard_size_def field_sps_def zero_sps_def CropUnitX_def CropUnitY_def SubWidthC_def SubHeightC_def)
  have "frame_mbs_only_flag field_sps = 0" by (simp add: field_sps_def)
  from interlaced_height_halved[OF field_unit sample_sps_valid(2) sample_sps_agrees(2) this, of "replicate 65536 0"] show ?thesis
    unfolding s m by auto
qed

lemma reads_bad_poc:
  assumes "is_ue t" "2 < t" "is_ue i" "is_ue l" "length c = 8" "0 \<le> pr" "pr < 256" "pr \<notin> {100, 110, 122, 144}" "0 \<le> lv" "lv < 256"
  shows "reads (decode_seq_parameter_set zero_sps)
     (-1, zero_sps\<lparr>profile_idc := pr, level_idc := lv, chroma_format_idc := 1, log2_max_frame_num := l + 4, poc_type := t\<rparr>)
     (nbits 8 (nat pr) @ [c ! 0] @ [c ! 1] @ [c ! 2] @ drop 3 c @ nbits 8 (nat lv) @ ue_bits (nat i) @ [] @ ue_bits (nat l) @
      (ue_bits (nat t) @ []) @ [])"
proof -
  have hp: "\<not> pr \<in> {100, 110, 122, 144}" using assms(8) by (simp only: not_False_eq_True)
  have t: "t \<noteq> 0" "t \<noteq> 1" using assms(2) by simp_all
  have c: "length (drop 3 c) = 5" using assms(5) by simp
  have b: "pr < 2 ^ 8" "lv < 2 ^ 8" using assms by simp_all
  note byte = reads_bind[OF reads_bits[of _ 8]] and any = reads_bind[OF reads_bit[OF HOL.refl]]
  show ?thesis unfolding decode_seq_parameter_set_def[abs_def]
    apply (rule byte[OF assms(6) b(1)], simp, simp)
    apply (rule any, rule any, rule any)
    apply (rule reads_bind[OF reads_any_bits[OF c]], simp, simp)
    apply (rule byte[OF assms(9) b(2)], simp, simp)
    apply (rule reads_bind[OF reads_num[OF assms(3)]])
    apply (simp only: Let_def hp if_False)
    apply (rule reads_bind[OF reads_return[OF HOL.refl]])
    apply (rule reads_bind[OF reads_num[OF assms(4)]])
    apply (rule reads_bind)
     apply (unfold sps_poc_def[abs_def] Let_def)
     apply (rule reads_bind[OF reads_num[OF assms(1)]])
     apply (simp only: t if_False)
     apply (rule reads_return[OF HOL.refl])
    using assms(2) by (simp add: reads_def zero_sps_def)
qed

text \<open>
  A parameter set that the parser rejects (a type of the picture order count above 2) is not rejected by
  its caller: \<open>avc_get_video_size\<close> reports that it found a size, and the size is 0 x 0.
\<close>

theorem sps_failure_ignored:
  assumes "unit_stream (nbits 8 (nat pr) @ c @ nbits 8 (nat lv) @ ue_bits (nat i) @ ue_bits (nat l) @ ue_bits (nat t)) pl mem n"
    and "2 < t" and "is_ue t" and "is_ue i" and "is_ue l" and "length c = 8" and "0 \<le> pr" and "pr < 256"
    and "pr \<notin> {100, 110, 122, 144}" and "0 \<le> lv" and "lv < 256" and "length static = 65536"
  shows "\<exists>static'. avc_get_video_size static mem n = Some (Some (0, 0), static')"
proof -
  have "c = [c ! 0] @ [c ! 1] @ [c ! 2] @ drop 3 c"
    using assms(6) by (intro nth_equalityI) (auto simp: nth_Cons nth_drop numeral_2_eq_2 numeral_3_eq_3 split: nat.splits)
  then have e: "nbits 8 (nat pr) @ c @ nbits 8 (nat lv) @ ue_bits (nat i) @ ue_bits (nat l) @ ue_bits (nat t) =
      nbits 8 (nat pr) @ [c ! 0] @ [c ! 1] @ [c ! 2] @ drop 3 c @ nbits 8 (nat lv) @ ue_bits (nat i) @ [] @ ue_bits (nat l) @
      (ue_bits (nat t) @ []) @ []"
    by (metis append.assoc append_Nil append_Nil2)
  show ?thesis
    using unit_stream_video_size[OF assms(1)[unfolded e] reads_bad_poc[OF assms(3,2,4-11)] assms(12)]
    by (auto simp: sps_size_def zero_sps_def)
qed

definition bad_stream :: "OMX_U8 list" where
  "bad_stream = [0, 0, 1] @ 0x67 # nal_escape [0x42, 0xC0, 0x1E, 0xC9] @ [] @ [0, 0, 1, 0x68]"

theorem sps_failure_ignored_witness:
  "\<exists>static'. avc_get_video_size (replicate 65536 0) bad_stream 8 = Some (Some (0, 0), static')"
proof -
  define as where "as = nbits 8 (nat 66) @ [True, True, False, False, False, False, False, False] @ nbits 8 (nat 30) @
      ue_bits (nat 0) @ ue_bits (nat 0) @ ue_bits (nat 3)"
  have as: "as = [False, True, False, False, False, False, True, False, True, True, False, False, False, False, False, False,
      False, False, False, True, True, True, True, False, True, True, False, False, True, False, False]"
    by (simp add: as_def small_ue_bits sample_bytes)
  have "\<exists>pre hdr t rest. (pre = [0, 0, 1] \<or> pre = [0, 0, 0, 1]) \<and>
      bad_stream = pre @ hdr # nal_escape [0x42, 0xC0, 0x1E, 0xC9] @ t @ rest \<and>
      8 = length (pre @ hdr # nal_escape [0x42, 0xC0, 0x1E, 0xC9] @ t) \<and> (8::nat) \<le> 65536 \<and>
      4 \<le> length (t @ rest) \<and> hdr AND 0x1F = 7 \<and> unit_end t"
    by (rule exI[of _ "[0, 0, 1]"], rule exI[of _ "0x67"], rule exI[of _ "[]"],
        rule exI[of _ "[0, 0, 1, 0x68]"]) (simp add: bad_stream_def unit_end_def nal_escape_def)
  moreover have "\<forall>j<length as. bitat [0x42, 0xC0, 0x1E, 0xC9] j = as ! j"
    unfolding as by code_simp
  ultimately have "unit_stream as [0x42, 0xC0, 0x1E, 0xC9] bad_stream 8"
    unfolding unit_stream_def by (simp add: as)
  from sps_failure_ignored[OF this[unfolded as_def], of "replicate 65536 0"] show ?thesis
    by (simp add: is_ue_def)
qed

text \<open>
  What the list of profiles costs: a 1920 x 1080 set of the High 4:4:4 Predictive profile (244) has the chroma
  fields, which the code takes for what follows them; it reads a picture of 16 x 7680.
\<close>

definition predictive_sps :: SPS where
  "predictive_sps = hd_sps\<lparr>profile_idc := 244\<rparr>"

lemma predictive_header:
  "write_sps predictive_sps plain_extra =
     [True, True, True, True, False, True, False, False, True, True, False, False, False, False, False, False,
     False, False, True, False, True, False, False, False, True, False, True, False, True, True, False, False,
     True, True, True, False, True, False, False, False, False, False, False, False, False, True, True, True,
     True, False, False, False, False, False, False, False, False, False, True, False, False, False, True, False,
     False, True, True, True, True, True, True, False, False, True, False, True, False]"
  by (simp add: write_sps_def write_poc_def write_frame_def write_crop_def write_chroma_def write_matrix_def
      predictive_sps_def hd_sps_def plain_extra_def zero_sps_def standard_high_def small_ue_bits sample_bytes)

theorem profile_244_is_misread:
  "\<exists>gb. valid_sps predictive_sps plain_extra \<and> stream gb (write_sps predictive_sps plain_extra) \<and>
     standard_size predictive_sps = (1920, 1080) \<and>
     map_option (\<lambda>((rc, p), gb). (rc, mb_width p * 16, mb_height p * 16)) (decode_seq_parameter_set zero_sps gb) =
       Some (0, 16, 7680)"
proof (intro exI conjI)
  let ?gb = "\<lparr>buffer = [0xF4, 0xC0, 0x28, 0xAC, 0xE8, 0x07, 0x80, 0x22, 0x7E, 0x54, 0, 0, 0, 0], index = 0, size_in_bits = 77\<rparr>"
  show "valid_sps predictive_sps plain_extra"
    by (simp add: valid_sps_def predictive_sps_def hd_sps_def plain_extra_def zero_sps_def valid_poc_def
      valid_frame_def valid_crop_def is_ue_def is_flag_def standard_high_def valid_matrix_def)
  show "stream ?gb (write_sps predictive_sps plain_extra)"
    unfolding predictive_header by (simp add: stream_def) code_simp
  show "standard_size predictive_sps = (1920, 1080)"
    by (simp add: standard_size_def predictive_sps_def hd_sps_def zero_sps_def CropUnitX_def CropUnitY_def SubWidthC_def SubHeightC_def)
  show "map_option (\<lambda>((rc, p), gb). (rc, mb_width p * 16, mb_height p * 16)) (decode_seq_parameter_set zero_sps ?gb) =
       Some (0, 16, 7680)"
    by code_simp
qed

end
