(* ===== verification/VidDecAvc.thy ===== *)
theory VidDecAvc
  imports VidDecFrame AvcSps
begin

text \<open>
  The AVC frame function (\<open>NX_AVCDecoder.c\<close>), which looks for the picture size in the parameter sets
  before it initialises the decoder and asks the client to reconfigure the output port when the size is
  new, and \<open>decodeVideoFrame\<close>, which calls the frame function of the open codec. Every frame function
  keeps the contract of \<open>VidDecFrame\<close>.
\<close>

section \<open>Port reconfiguration\<close>

text \<open>
  The test for a parameter set at the start of the \<open>n\<close> bytes at a pointer; \<open>mem\<close> is the memory from there on.
\<close>

definition starts_with_sps :: "OMX_U8 list \<Rightarrow> int \<Rightarrow> bool option" where
  "starts_with_sps mem n =
     (if n \<le> 4 then Some False
      else if length mem < 5 then None
      else Some (mem ! 0 = 0 \<and> mem ! 1 = 0 \<and> mem ! 2 = 0 \<and> mem ! 3 = 1 \<and> mem ! 4 AND 0x0F = 7 \<or>
                 mem ! 0 = 0 \<and> mem ! 1 = 0 \<and> mem ! 2 = 1 \<and> mem ! 3 AND 0x0F = 7))"

definition align16 :: "OMX_S32 \<Rightarrow> OMX_S32" where
  "align16 x = push_bit 4 (signed_drop_bit 4 (x + 15))"

text \<open>The branch for a new resolution.\<close>

definition set_resolution :: "OMX_S32 \<Rightarrow> OMX_S32 \<Rightarrow> NX_VIDDEC \<Rightarrow> NX_VIDDEC" where
  "set_resolution w h s =
     upd_port VPUDEC_VID_OUTPORT_INDEX
       (\<lambda>p. p\<lparr>video := (video p)\<lparr>nFrameWidth := w, nFrameHeight := h\<rparr>,
             nBufferSize := (if bUseNativeBuffer s then 4096 else yuv_size (align16 w) (align16 h))\<rparr>)
       (s\<lparr>width := w, height := h\<rparr>)"

definition reconfigure :: "vpu_lib \<Rightarrow> OMX_S32 \<Rightarrow> OMX_S32 \<Rightarrow> NX_VIDDEC \<Rightarrow> NX_VIDDEC option" where
  "reconfigure lib w h s = do {
     s \<leftarrow> SendEvent OMX_EventPortSettingsChanged (omx_dir_code OMX_DirOutput) 0 NULL (set_resolution w h s);
     let s = (if bInitialized s then
                snd (openVideoCodec lib (closeVideoCodec (InitVideoTimeStamp (s\<lparr>bInitialized := False\<rparr>))))
              else s);
     Some (upd_port VPUDEC_VID_OUTPORT_INDEX (\<lambda>p. p\<lparr>bPortEnabled := False\<rparr>) s) }"

text \<open>The results are the return value and the static buffer of the parser.\<close>

definition AVCCheckPortReconfiguration ::
  "vpu_lib \<Rightarrow> OMX_U8 list \<Rightarrow> OMX_U8 list \<Rightarrow> int \<Rightarrow> NX_VIDDEC \<Rightarrow> (int \<times> OMX_U8 list \<times> NX_VIDDEC) option" where
  "AVCCheckPortReconfiguration lib static inBuf inSize s = do {
     sps \<leftarrow> starts_with_sps inBuf inSize;
     if \<not> sps then Some (0, static, s)
     else do {
       (size, static) \<leftarrow> avc_get_video_size static inBuf (nat inSize);
       case size of
         None \<Rightarrow> Some (0, static, s)
       | Some (w, h) \<Rightarrow>
           if width s \<noteq> w \<or> height s \<noteq> h then do {
             s \<leftarrow> reconfigure lib w h s;
             Some (1, static, s) }
           else Some (1, static, s) } }"

section \<open>The AVC frame function\<close>

text \<open>
  The first configuration buffer: the reconfiguration, the copy of the data, and a second test of the size
  on the copy, which sends the event before it changes the port.
\<close>

definition recheck_resolution :: "OMX_S32 \<Rightarrow> OMX_S32 \<Rightarrow> NX_VIDDEC \<Rightarrow> NX_VIDDEC option" where
  "recheck_resolution w h s = do {
     s \<leftarrow> SendEvent OMX_EventPortSettingsChanged (omx_dir_code OMX_DirOutput) 0 NULL s;
     Some (upd_port VPUDEC_VID_OUTPORT_INDEX
       (\<lambda>p. p\<lparr>video := (video p)\<lparr>nFrameWidth := w, nFrameHeight := h\<rparr>,
             nBufferSize := (if bUseNativeBuffer s then 4096 else yuv_size (align16 w) (align16 h))\<rparr>) s) }"

definition avc_config :: "vpu_lib \<Rightarrow> OMX_BUFFERHEADERTYPE \<Rightarrow> NX_VIDDEC \<Rightarrow> (int \<times> NX_VIDDEC) option" where
  "avc_config lib h s = do {
     let n = sint (nFilledLen h);
     mem \<leftarrow> in_data h s;
     (_, static, s) \<leftarrow> AVCCheckPortReconfiguration lib (rbsp_static lib) mem n (s\<lparr>bNeedSequenceData := False\<rparr>);
     bs \<leftarrow> rd_block (Some mem) n;
     block \<leftarrow> (if codecSpecificDataSize s < 0 then None
               else wr (map (heap_junk lib) [0..<nat n]) (nat (codecSpecificDataSize s)) bs);
     let s = s\<lparr>codecSpecificData := Some block, codecSpecificDataSize := codecSpecificDataSize s + n\<rparr>;
     sps \<leftarrow> starts_with_sps mem n;
     if \<not> sps then Some (0, s)
     else do {
       (size, static) \<leftarrow> avc_get_video_size static block (nat (codecSpecificDataSize s));
       case size of
         None \<Rightarrow> Some (0, s)
       | Some (w, h) \<Rightarrow>
           if width s \<noteq> w \<or> height s \<noteq> h then do { s \<leftarrow> recheck_resolution w h s; Some (0, s) }
           else Some (0, s) } }"

text \<open>The bytes that the decoder is initialised with.\<close>

definition avc_init_bytes :: "OMX_BUFFERHEADERTYPE \<Rightarrow> NX_VIDDEC \<Rightarrow> OMX_U8 list option" where
  "avc_init_bytes h s = do {
     pre \<leftarrow> (if codecSpecificDataSize s = 0 \<and> nExtraDataSize s > 0 then rd_block (pExtraData s) (nExtraDataSize s)
            else rd_block (codecSpecificData s) (codecSpecificDataSize s));
     bs \<leftarrow> in_bytes h s;
     Some (pre @ bs) }"

definition avc_init :: "vpu_lib \<Rightarrow> ptr \<Rightarrow> OMX_BUFFERHEADERTYPE \<Rightarrow> NX_VIDDEC \<Rightarrow> (int \<times> NX_VIDDEC) option" where
  "avc_init lib b h s = do {
     initBuf \<leftarrow> avc_init_bytes h s;
     if bNeedSequenceData s then do {
       (r, _, s) \<leftarrow> AVCCheckPortReconfiguration lib (rbsp_static lib) initBuf (int (length initBuf)) s;
       Some (0, if r \<noteq> 0 then s\<lparr>bNeedSequenceData := False, codecSpecificData := Some initBuf,
                               codecSpecificDataSize := int (length initBuf)\<rparr> else s) }
     else do {
       (ret, s) \<leftarrow> InitializeCodaVpu lib initBuf s;
       if ret < 0 then Some (ret, s)
       else if ret > 0 then Some (0, s)
       else decode_and_deliver lib True True [] b h (s\<lparr>bNeedKey := False, bInitialized := True\<rparr>) } }"

definition avc_body :: frame_body where
  "avc_body lib b h s =
     (if bNeedSequenceData s \<and> has_flag (nFlags h) OMX_BUFFERFLAG_CODECCONFIG then avc_config lib h s
      else
        (let s = (if has_flag (nFlags h) OMX_BUFFERFLAG_CODECCONFIG then s
                  else PushVideoTimeStamp (nTimeStamp h) (nFlags h) s) in
         if \<not> bInitialized s then avc_init lib b h s
         else do {
           bs \<leftarrow> in_bytes h s;
           decode_and_deliver lib True True bs b h s }))"

definition NX_DecodeAvcFrame :: "vpu_lib \<Rightarrow> NX_VIDDEC \<Rightarrow> (int \<times> NX_VIDDEC) option" where
  "NX_DecodeAvcFrame = decode_with avc_body"

section \<open>Dispatch\<close>

definition decodeVideoFrame :: "vpu_lib \<Rightarrow> NX_VIDDEC \<Rightarrow> (int \<times> NX_VIDDEC) option" where
  "decodeVideoFrame lib s =
     (case DecodeFrame s of
        None \<Rightarrow> Some (0, s)
      | Some NX_DecodeAvcFrame_ptr \<Rightarrow> NX_DecodeAvcFrame lib s
      | Some NX_DecodeMpeg2Frame_ptr \<Rightarrow> NX_DecodeMpeg2Frame lib s
      | Some NX_DecodeMpeg4Frame_ptr \<Rightarrow> NX_DecodeMpeg4Frame lib s
      | Some NX_DecodeDiv3Frame_ptr \<Rightarrow> NX_DecodeDiv3Frame lib s
      | Some NX_DecodeVC1Frame_ptr \<Rightarrow> NX_DecodeVC1Frame lib s
      | Some NX_DecodeRVFrame_ptr \<Rightarrow> NX_DecodeRVFrame lib s
      | Some NX_DecodeVP8Frame_ptr \<Rightarrow> NX_DecodeVP8Frame lib s)"

section \<open>The contract\<close>

lemma calls_out_port:
  "(\<And>p. port_shape (f p) = port_shape p) \<Longrightarrow> calls [] [] s (upd_port k f s)"
  by (rule calls_quiet) (auto simp: upd_port_def core_def kept_def fun_eq_iff)

lemma calls_two: "calls [] [] s t \<Longrightarrow> calls [] [] t u \<Longrightarrow> calls [] [] s u"
  using calls_trans by fastforce

lemma calls_set_resolution: "calls [] [] s (set_resolution w h s)"
proof -
  have "calls [] [] s (s\<lparr>width := w, height := h\<rparr>)" by (rule calls_quiet) (simp_all add: core_def kept_def)
  then show ?thesis
    unfolding set_resolution_def by (rule calls_two[OF _ calls_out_port]) (simp add: port_shape_def)
qed

lemma calls_SendEvent: "SendEvent e a b d s = Some t \<Longrightarrow> calls [] [] s t"
  by (auto simp: SendEvent_def calls_emit split: if_splits)

lemma calls_close: "calls [] [] s (closeVideoCodec s)"
  by (simp add: closeVideoCodec_def emit_def calls_def core_def kept_def)

lemma calls_open: "calls [] [] s (snd (openVideoCodec lib s))"
  by (auto simp: openVideoCodec_def InitVideoTimeStamp_def emit_def calls_def core_def kept_def Let_def split: prod.splits)

lemma calls_reopen: "calls [] [] s (snd (openVideoCodec lib (closeVideoCodec (InitVideoTimeStamp (s\<lparr>bInitialized := False\<rparr>)))))"
proof -
  have "calls [] [] s (InitVideoTimeStamp (s\<lparr>bInitialized := False\<rparr>))"
    by (rule calls_quiet) (simp_all add: InitVideoTimeStamp_def core_def kept_def)
  then show ?thesis by (blast intro: calls_two calls_close calls_open)
qed

lemma calls_reconfigure:
  assumes "reconfigure lib w h s = Some t"
  shows "calls [] [] s t"
proof -
  obtain s1 where ev: "SendEvent OMX_EventPortSettingsChanged (omx_dir_code OMX_DirOutput) 0 NULL (set_resolution w h s) = Some s1"
    and t: "t = upd_port VPUDEC_VID_OUTPORT_INDEX (\<lambda>p. p\<lparr>bPortEnabled := False\<rparr>) (if bInitialized s1 then
        snd (openVideoCodec lib (closeVideoCodec (InitVideoTimeStamp (s1\<lparr>bInitialized := False\<rparr>)))) else s1)"
    using assms by (auto simp: reconfigure_def Let_def split: bind_splits)
  have "calls [] [] s s1" using calls_two[OF calls_set_resolution calls_SendEvent[OF ev]] .
  moreover have "calls [] [] s1 t"
    unfolding t by (rule calls_two[OF _ calls_out_port]) (simp_all add: port_shape_def calls_reopen)
  ultimately show ?thesis by (rule calls_two)
qed

lemma calls_AVCCheck:
  assumes "AVCCheckPortReconfiguration lib static mem n s = Some (r, static', t)"
  shows "calls [] [] s t"
proof -
  have "t = s \<or> (\<exists>w h. reconfigure lib w h s = Some t)"
    using assms by (auto simp: AVCCheckPortReconfiguration_def split: bind_splits if_splits option.splits prod.splits)
  then show ?thesis using calls_reconfigure by auto
qed

lemma calls_recheck: "recheck_resolution w h s = Some t \<Longrightarrow> calls [] [] s t"
  unfolding recheck_resolution_def
  by (auto split: bind_splits intro!: calls_two[OF calls_SendEvent calls_out_port] simp: port_shape_def)

lemma calls_avc_config:
  assumes "avc_config lib h s = Some (ret, t)"
  shows "calls [] [] s t"
proof -
  obtain mem r static s1 block where a: "AVCCheckPortReconfiguration lib (rbsp_static lib) mem (sint (nFilledLen h))
      (s\<lparr>bNeedSequenceData := False\<rparr>) = Some (r, static, s1)"
    and t: "t = s1\<lparr>codecSpecificData := Some block, codecSpecificDataSize := codecSpecificDataSize s1 + sint (nFilledLen h)\<rparr> \<or>
      (\<exists>w h'. recheck_resolution w h' (s1\<lparr>codecSpecificData := Some block,
         codecSpecificDataSize := codecSpecificDataSize s1 + sint (nFilledLen h)\<rparr>) = Some t)"
    using assms unfolding avc_config_def Let_def
    by (clarsimp split: bind_splits if_splits option.splits prod.splits) blast+
  have "calls [] [] s1 t" using t calls_recheck calls_two[OF calls_fields(1)] calls_fields(1) by blast
  then show ?thesis using calls_two[OF calls_fields(3) calls_two[OF calls_AVCCheck[OF a]]] by blast
qed

lemma out_step_avc_init:
  assumes "avc_init lib b h s = Some (ret, t)"
  shows "out_step1 s t"
proof -
  obtain buf where b: "avc_init_bytes h s = Some buf" using assms by (auto simp: avc_init_def split: bind_splits)
  show ?thesis
  proof (cases "bNeedSequenceData s")
    case True
    then obtain r st s1 where c: "AVCCheckPortReconfiguration lib (rbsp_static lib) buf (int (length buf)) s = Some (r, st, s1)"
      and t: "t = s1 \<or> t = s1\<lparr>bNeedSequenceData := False, codecSpecificData := Some buf, codecSpecificDataSize := int (length buf)\<rparr>"
      using assms b by (auto simp: avc_init_def split: bind_splits)
    have "calls [] [] s1 (s1\<lparr>bNeedSequenceData := False, codecSpecificData := Some buf, codecSpecificDataSize := int (length buf)\<rparr>)"
      by (rule calls_quiet) (simp_all add: core_def kept_def)
    with t have "calls [] [] s1 t" by auto
    then show ?thesis by (intro out_step1_calls calls_two[OF calls_AVCCheck[OF c]])
  next
    case False
    then obtain r s1 where i: "InitializeCodaVpu lib buf s = Some (r, s1)"
      and t: "t = s1 \<or> decode_and_deliver lib True True [] b h (s1\<lparr>bNeedKey := False, bInitialized := True\<rparr>) = Some (ret, t)"
      using assms b by (auto simp: avc_init_def split: bind_splits if_splits)
    have q: "calls [] [] s1 (s1\<lparr>bNeedKey := False, bInitialized := True\<rparr>)"
      by (rule calls_quiet) (simp_all add: core_def kept_def)
    from t have "out_step1 s1 t"
    proof
      assume "t = s1"
      then show ?thesis by (simp add: out_step1_calls)
    next
      assume "decode_and_deliver lib True True [] b h (s1\<lparr>bNeedKey := False, bInitialized := True\<rparr>) = Some (ret, t)"
      then show ?thesis by (intro out_step1_before[OF q out_step_decode_and_deliver])
    qed
    then show ?thesis by (rule out_step1_before[OF calls_InitializeCodaVpu[OF i]])
  qed
qed

interpretation avc: frame_decoder avc_body
proof
  fix lib b h s ret t
  assume a: "avc_body lib b h s = Some (ret, t)"
  define s1 where "s1 = (if has_flag (nFlags h) OMX_BUFFERFLAG_CODECCONFIG then s
     else PushVideoTimeStamp (nTimeStamp h) (nFlags h) s)"
  have s1: "calls [] [] s s1" by (simp add: s1_def)
  from a consider "avc_config lib h s = Some (ret, t)" | "avc_init lib b h s1 = Some (ret, t)"
    | bs where "decode_and_deliver lib True True bs b h s1 = Some (ret, t)"
    unfolding avc_body_def s1_def[symmetric] Let_def by (auto split: if_splits bind_splits)
  then show "out_step1 s t"
    by cases (simp_all add: out_step1_calls[OF calls_avc_config] out_step1_before[OF s1] out_step_avc_init
        out_step1_before[OF s1 out_step_decode_and_deliver])
qed

lemma decode_contract:
  assumes "in_ready s" and "decodeVideoFrame lib s = Some (ret, t)" and "DecodeFrame s \<noteq> None"
  shows "frame_contract s ret t"
proof -
  obtain f where f: "DecodeFrame s = Some f" using assms(3) by auto
  show ?thesis
    using assms(1,2) f avc.contract mpeg.contract div3.contract vc1.contract rv.contract vp8.contract
    by (cases f) (simp_all add: decodeVideoFrame_def NX_DecodeAvcFrame_def NX_DecodeMpeg2Frame_def NX_DecodeMpeg4Frame_def
        NX_DecodeDiv3Frame_def NX_DecodeVC1Frame_def NX_DecodeRVFrame_def NX_DecodeVP8Frame_def)
qed

text \<open>
  C3: Buffer conservation in every frame function: whatever the codec, the data and the answers of the library,
  one call takes the first input buffer and gives exactly that one back, emptied, as its last act; it hands
  over at most one output buffer; the output buffers that the component holds are afterwards those it held
  before without the ones handed over. With an empty queue, or with no codec open, no buffer moves. Of the
  component these fields stay as they were: the modes and states, the callbacks, the semaphores, the command
  of the buffer thread, the pools of both ports, the handle, the command queue with its memory, and of every
  port the number of buffers, asked for and registered, whether it is populated, its direction, domain and
  type. Not among them are the size of a buffer, the video format and \<open>bPortEnabled\<close> of the output port, which
  a new resolution changes, and the codec itself with its flags.
\<close>

theorem frame_functions_conserve_buffers:
  assumes "in_ready s" and "queue_inv (pOutputPortQueue s)" and "decodeVideoFrame lib s = Some (ret, t)"
  shows "bEnableThumbNailMode t = bEnableThumbNailMode s \<and> bUseNativeBuffer t = bUseNativeBuffer s \<and>
     eCurState t = eCurState s \<and> eNewState t = eNewState s \<and> pCallbacks t = pCallbacks s \<and>
     hBufAllocSem t = hBufAllocSem s \<and> hBufCtrlSem t = hBufCtrlSem s \<and>
     hBufChangeSem t = hBufChangeSem s \<and> eCmdBufThread t = eCmdBufThread s \<and>
     pInputBuffers t = pInputBuffers s \<and> pOutputBuffers t = pOutputBuffers s \<and> hComp t = hComp s \<and>
     nNumPort t = nNumPort s \<and> cmdQueue t = cmdQueue s \<and> cmd_mem t = cmd_mem s \<and>
     (\<forall>k. nBufferCountActual (pPort t k) = nBufferCountActual (pPort s k) \<and>
        nAllocatedBuf (pPort t k) = nAllocatedBuf (pPort s k) \<and>
        bPopulated (pPort t k) = bPopulated (pPort s k) \<and> eDir (pPort t k) = eDir (pPort s k) \<and>
        eDomain (pPort t k) = eDomain (pPort s k) \<and> eBufferType (pPort t k) = eBufferType (pPort s k)) \<and>
     (\<exists>evs. trace t = trace s @ evs \<and> mset (fbd_ptrs evs) + held_out t = held_out s \<and> length (fbd_ptrs evs) \<le> 1 \<and>
        (if DecodeFrame s = None \<or> queue_list (pInputPortQueue s) = []
         then ret = 0 \<and> ebd_ptrs evs = [] \<and> fbd_ptrs evs = [] \<and> queue_list (pInputPortQueue t) = queue_list (pInputPortQueue s)
         else ebd_ptrs evs = [hd (queue_list (pInputPortQueue s))] \<and>
           queue_list (pInputPortQueue t) = tl (queue_list (pInputPortQueue s)) \<and>
           (\<exists>h. last evs = EmptyBufferDone (hd (queue_list (pInputPortQueue s))) h \<and> nFilledLen h = 0)))"
proof (cases "DecodeFrame s = None")
  case True
  with assms(3) have "ret = 0" "t = s" by (simp_all add: decodeVideoFrame_def)
  with True show ?thesis by (intro conjI exI[of _ "[]"]) simp_all
next
  case False
  note c = decode_contract[OF assms(1,3) False, unfolded frame_contract_def]
  then obtain evs where "trace t = trace s @ evs" "mset (fbd_ptrs evs) + held_out t = held_out s"
    "case queue_list (pInputPortQueue s) of
       [] \<Rightarrow> ret = 0 \<and> ebd_ptrs evs = [] \<and> fbd_ptrs evs = [] \<and> queue_list (pInputPortQueue t) = []
     | b # bs \<Rightarrow> ebd_ptrs evs = [b] \<and> length (fbd_ptrs evs) \<le> 1 \<and> queue_list (pInputPortQueue t) = bs \<and>
         (\<exists>h. last evs = EmptyBufferDone b h \<and> nFilledLen h = 0)"
    using assms(2) by blast
  moreover have "kept t = kept s" using c by blast
  ultimately show ?thesis using False
    by (intro conjI exI[of _ evs] allI) (simp_all add: kept_def port_shape_def fun_eq_iff split: list.splits)
qed

lemma decoding_viddec_view: "queue_inv (pOutputPortQueue decoding_viddec)" "bEnabled (pOutputPortQueue decoding_viddec)"
  "queue_list (pInputPortQueue decoding_viddec) = [7]" "held_out decoding_viddec = {#12#}"
proof -
  show "queue_inv (pOutputPortQueue decoding_viddec)" "bEnabled (pOutputPortQueue decoding_viddec)"
    by (simp_all add: decoding_viddec_def init_queue_32)
  show "queue_list (pInputPortQueue decoding_viddec) = [7]" by (simp add: decoding_viddec_def pushed_queue_32)
  have "held_native [11, 12] [False, True] = {#12#}" by (simp add: held_native_def)
  then show "held_out decoding_viddec = {#12#}"
    using held_native_set[of 1 "pOutputBuffers decoding_viddec" "replicate NX_OMX_MAX_BUF False"]
    by (simp add: held_out_def decoding_viddec_def native_viddec_def idle_viddec_def zero_viddec_def held_native_def
        replicate_eq_replicate) (simp add: eval_nat_numeral)
qed

theorem frame_functions_conserve_buffers_witness:
  "\<exists>ret t. decodeVideoFrame sample_lib decoding_viddec = Some (ret, t) \<and>
     (\<exists>evs. trace t = trace decoding_viddec @ evs \<and> ebd_ptrs evs = [7] \<and> mset (fbd_ptrs evs) + held_out t = {#12#})"
proof -
  obtain t where t: "decodeVideoFrame sample_lib decoding_viddec = Some (0, t)"
    using mpeg2_frame_picture[OF decoding_viddec_ready(1,3,2), of sample_lib _ 1 12 zero_hdr, OF _ _ _ decoding_viddec_ready(4) _
      decoding_viddec_ready(5) HOL.refl] decoding_viddec_ready(6,10) by (auto simp: decodeVideoFrame_def)
  from frame_functions_conserve_buffers[OF decoding_viddec_ready(9) decoding_viddec_view(1) t] show ?thesis
    using t decoding_viddec_view(3,4) decoding_viddec_ready(10) by auto
qed

section \<open>A new resolution\<close>

text \<open>
  A component that waits for the configuration of an AVC stream; the first input buffer \<open>b\<close> carries the
  bytes \<open>bs\<close>.
\<close>

definition config_pending :: "NX_VIDDEC \<Rightarrow> ptr \<Rightarrow> OMX_BUFFERHEADERTYPE \<Rightarrow> OMX_U8 list \<Rightarrow> bool" where
  "config_pending s b h bs \<longleftrightarrow> hdr_mem s b = Some h \<and> in_bytes h s = Some bs \<and> sint (nFilledLen h) = int (length bs) \<and>
     has_flag (nFlags h) OMX_BUFFERFLAG_CODECCONFIG \<and> \<not> has_flag (nFlags h) OMX_BUFFERFLAG_EOS \<and>
     bNeedSequenceData s \<and> \<not> bInitialized s \<and> codecSpecificDataSize s = 0 \<and>
     cbEmptyBufferDone (pCallbacks s) \<noteq> NULL \<and> cbEventHandler (pCallbacks s) \<noteq> NULL"

definition awaits_config :: "NX_VIDDEC \<Rightarrow> ptr \<Rightarrow> OMX_BUFFERHEADERTYPE \<Rightarrow> OMX_U8 list \<Rightarrow> bool" where
  "awaits_config s b h bs \<longleftrightarrow> in_ready s \<and> (\<exists>rest. queue_list (pInputPortQueue s) = b # rest) \<and> \<not> bFlush s \<and>
     config_pending s b h bs"

lemma in_bytes_queue [simp]: "in_bytes h (s\<lparr>pBufQueue := q, inFrameCount := n\<rparr>) = in_bytes h s"
  by (simp add: in_bytes_def in_data_def)

lemma unit_stream_extend:
  assumes "unit_stream as pl mem n"
  shows "unit_stream as pl (mem @ xs) n"
proof -
  obtain pre hdr t rest where "pre = [0, 0, 1] \<or> pre = [0, 0, 0, 1]" "mem = pre @ hdr # nal_escape pl @ t @ rest"
    "n = length (pre @ hdr # nal_escape pl @ t)" "n \<le> 65536" "4 \<le> length (t @ rest)" "hdr AND 0x1F = 7" "unit_end t"
    using assms unfolding unit_stream_def by blast
  then have "\<exists>pre hdr t rest. (pre = [0, 0, 1] \<or> pre = [0, 0, 0, 1]) \<and> mem @ xs = pre @ hdr # nal_escape pl @ t @ rest \<and>
        n = length (pre @ hdr # nal_escape pl @ t) \<and> n \<le> 65536 \<and> 4 \<le> length (t @ rest) \<and> hdr AND 0x1F = 7 \<and> unit_end t"
    by (intro exI[of _ pre] exI[of _ hdr] exI[of _ t] exI[of _ "rest @ xs"]) auto
  with assms show ?thesis unfolding unit_stream_def by blast
qed

lemma unit_stream_starts:
  assumes "unit_stream as pl mem n"
  shows "starts_with_sps mem (int n) = Some True"
proof -
  obtain pre hdr t rest where s: "pre = [0, 0, 1] \<or> pre = [0, 0, 0, 1]" "mem = pre @ hdr # nal_escape pl @ t @ rest"
    "n = length (pre @ hdr # nal_escape pl @ t)" "hdr AND 0x1F = 7" "pl \<noteq> []"
    using assms unfolding unit_stream_def by blast
  have "hdr AND 0x0F = (hdr AND 0x1F) AND 0x0F" by (simp add: and.assoc)
  with s(4) have h: "hdr AND 0x0F = 7" by simp
  have "nal_escape pl \<noteq> []" using escape_from_length[of pl 0] s(5)
    by (simp only: nal_escape_def) (metis le_zero_eq length_0_conv)
  then obtain e es where "nal_escape pl = e # es" by (cases "nal_escape pl") auto
  then have "5 \<le> length mem" "4 < n" using s(1-3) by auto
  then show ?thesis using s(1,2) h by (auto simp: starts_with_sps_def eval_nat_numeral)
qed

text \<open>The fields after the change of the resolution, with no codec initialised.\<close>

lemma reconfigure_spec:
  assumes "cbEventHandler (pCallbacks s) \<noteq> NULL" and "\<not> bInitialized s"
  shows "\<exists>t. reconfigure lib w h s = Some t \<and> width t = w \<and> height t = h \<and>
     nFrameWidth (video (pOutputPort t)) = w \<and> nFrameHeight (video (pOutputPort t)) = h \<and> \<not> bPortEnabled (pOutputPort t) \<and>
     trace t = trace s @ [EventHandler OMX_EventPortSettingsChanged 1 0 NULL] \<and> hdr_mem t = hdr_mem s \<and>
     pCallbacks t = pCallbacks s \<and> codecSpecificDataSize t = codecSpecificDataSize s \<and>
     bNeedSequenceData t = bNeedSequenceData s \<and> bInitialized t = bInitialized s"
  using assms by (simp add: reconfigure_def SendEvent_def set_resolution_def upd_port_def emit_def omx_dir_code_def)

lemma wr_whole: "length junk = length bs \<Longrightarrow> wr junk 0 bs = Some bs"
  by (simp add: wr_def)

lemma in_bytes_split:
  assumes "in_bytes h s = Some bs" and "sint (nFilledLen h) = int (length bs)" and "bs \<noteq> []"
  obtains xs where "in_data h s = Some (bs @ xs)"
proof -
  obtain mem where m: "in_data h s = Some mem" "take (length bs) mem = bs"
    using assms by (cases "in_data h s") (auto simp: in_bytes_def rd_block_def rd_def split: if_splits)
  then show thesis using that[of "drop (length bs) mem"] by (metis append_take_drop_id)
qed

lemma avc_config_new_resolution:
  assumes "config_pending s b h bs" and "unit_stream (write_sps p x) pl bs (length bs)" and "valid_sps p x" and "code_agrees p x"
    and "length (rbsp_static lib) = 65536" and "sps_size p = (vw, vh)" and "width s \<noteq> vw \<or> height s \<noteq> vh"
  shows "\<exists>t. avc_config lib h s = Some (0, t) \<and> width t = vw \<and> height t = vh \<and>
     nFrameWidth (video (pOutputPort t)) = vw \<and> nFrameHeight (video (pOutputPort t)) = vh \<and> \<not> bPortEnabled (pOutputPort t) \<and>
     trace t = trace s @ [EventHandler OMX_EventPortSettingsChanged 1 0 NULL] \<and> hdr_mem t = hdr_mem s \<and>
     pCallbacks t = pCallbacks s \<and> codecSpecificData t = Some bs \<and> codecSpecificDataSize t = int (length bs) \<and>
     \<not> bNeedSequenceData t \<and> \<not> bInitialized t"
proof -
  note a = assms(1)[unfolded config_pending_def]
  note vs = unit_stream_video_size[OF _ reads_sps[OF assms(3,4)] _ valid_crop_zero[OF assms(3)], unfolded assms(6)]
  have st: "starts_with_sps bs (int (length bs)) = Some True" by (rule unit_stream_starts[OF assms(2)])
  then have ne: "bs \<noteq> []" by (auto simp: starts_with_sps_def split: if_splits)
  obtain xs where mem: "in_data h s = Some (bs @ xs)" using in_bytes_split[OF _ _ ne] a by blast
  have stx: "starts_with_sps (bs @ xs) (int (length bs)) = Some True"
    by (rule unit_stream_starts[OF unit_stream_extend[OF assms(2)]])
  obtain st1 where v1: "avc_get_video_size (rbsp_static lib) (bs @ xs) (length bs) = Some (Some (vw, vh), st1)"
      "length st1 = 65536"
    using vs[OF unit_stream_extend[OF assms(2)] assms(5)] by blast
  obtain st2 where v2: "avc_get_video_size st1 bs (length bs) = Some (Some (vw, vh), st2)"
    using vs[OF assms(2) v1(2)] by blast
  obtain t where t: "reconfigure lib vw vh (s\<lparr>bNeedSequenceData := False\<rparr>) = Some t" "width t = vw" "height t = vh"
    "nFrameWidth (video (pOutputPort t)) = vw" "nFrameHeight (video (pOutputPort t)) = vh" "\<not> bPortEnabled (pOutputPort t)"
    "trace t = trace s @ [EventHandler OMX_EventPortSettingsChanged 1 0 NULL]" "hdr_mem t = hdr_mem s"
    "pCallbacks t = pCallbacks s" "codecSpecificDataSize t = 0" "\<not> bNeedSequenceData t" "\<not> bInitialized t"
    using reconfigure_spec[of "s\<lparr>bNeedSequenceData := False\<rparr>" lib vw vh] a by auto
  have chk: "AVCCheckPortReconfiguration lib (rbsp_static lib) (bs @ xs) (int (length bs)) (s\<lparr>bNeedSequenceData := False\<rparr>) =
      Some (1, st1, t)"
    using stx v1 t(1) assms(7) by (auto simp: AVCCheckPortReconfiguration_def)
  have rb: "rd_block (Some (bs @ xs)) (int (length bs)) = Some bs"
    using ne by (simp add: rd_block_def rd_def)
  have "avc_config lib h s =
      Some (0, t\<lparr>codecSpecificData := Some bs, codecSpecificDataSize := int (length bs)\<rparr>)"
    using mem a chk rb stx v2 t by (simp add: avc_config_def wr_whole Let_def)
  with t show ?thesis by simp
qed


definition config_viddec :: NX_VIDDEC where
  "config_viddec = idle_viddec\<lparr>pBufQueue := (\<lambda>k. if k = 0 then snd (NX_PushQueue (snd (NX_InitQueue 0 32)) 7)
       else snd (NX_InitQueue 0 32)), bNeedSequenceData := True,
     hdr_mem := [7 \<mapsto> zero_hdr\<lparr>pBuffer := 70, nFilledLen := 25, nFlags := OMX_BUFFERFLAG_CODECCONFIG\<rparr>],
     byte_mem := [70 \<mapsto> hd_stream]\<rparr>"

lemma hd_whole: "unit_stream (write_sps hd_sps scaling_extra) [0x64, 0xC0, 0x28, 0xAD, 0x84, 0x40, 0x74, 0x03, 0xC0, 0x11, 0x3F, 0x2A] hd_stream (length hd_stream)"
proof -
  have "\<exists>pre hdr t rest. (pre = [0, 0, 1] \<or> pre = [0, 0, 0, 1]) \<and>
      hd_stream = pre @ hdr # nal_escape [0x64, 0xC0, 0x28, 0xAD, 0x84, 0x40, 0x74, 0x03, 0xC0, 0x11, 0x3F, 0x2A] @ t @ rest \<and>
      length hd_stream = length (pre @ hdr # nal_escape [0x64, 0xC0, 0x28, 0xAD, 0x84, 0x40, 0x74, 0x03, 0xC0, 0x11, 0x3F, 0x2A] @ t) \<and> length hd_stream \<le> 65536 \<and>
      4 \<le> length (t @ rest) \<and> hdr AND 0x1F = 7 \<and> unit_end t"
    by (rule exI[of _ "[0, 0, 0, 1]"], rule exI[of _ "0x67"], rule exI[of _ "[0, 0, 0, 1, 0x68, 0xCE, 0x38, 0x80]"],
        rule exI[of _ "[]"]) (simp add: hd_stream_def unit_end_def nal_escape_def)
  with hd_unit show ?thesis unfolding unit_stream_def by blast
qed


end
