(* ===== verification/VidDecCmd.thy ===== *)
theory VidDecCmd
  imports VidDecAvc
begin

text \<open>
  The commands of the video decoder (\<open>NX_OMXVideoDecoder.c\<close>): flushing the ports, the state
  transitions, \<open>NX_VidDec_CommandProc\<close>, and the creation and destruction of the component. A state
  transition has points where the command thread blocks; it is a first part, up to the first of them, and
  steps from one to the next, so that other threads can run in between (\<open>VidDecThread\<close>).
\<close>

section \<open>Giving buffers back\<close>

text \<open>
  The loops that empty the input queue; \<open>n\<close> is the number of queued buffers. A flush (\<open>clear\<close>) zeroes the
  length of each buffer and never ends if the queue does not yield the buffers it counts, which is \<open>None\<close>;
  the loop of the state transition stops at the first failing pop.
\<close>

fun drain_in :: "bool \<Rightarrow> nat \<Rightarrow> NX_VIDDEC \<Rightarrow> NX_VIDDEC option" where
  "drain_in clear 0 s = Some s"
| "drain_in clear (Suc n) s =
     (let (rc, e, q) = NX_PopQueue (pInputPortQueue s) in
      case e of
        None \<Rightarrow> if clear then None else Some s
      | Some b \<Rightarrow> do {
          let s = s\<lparr>pBufQueue := (pBufQueue s)(0 := q)\<rparr>;
          s \<leftarrow> (if clear then upd_hdr b (\<lambda>h. h\<lparr>nFilledLen := 0\<rparr>) s else Some s);
          s \<leftarrow> call_EmptyBufferDone b s;
          drain_in clear n s })"

text \<open>
  The same for the output queue in thumbnail mode; here no length is cleared, and a flush does not look at
  the result of the pop: a failing one hands over a NULL pointer, which is \<open>None\<close>.
\<close>

fun drain_out :: "bool \<Rightarrow> nat \<Rightarrow> NX_VIDDEC \<Rightarrow> NX_VIDDEC option" where
  "drain_out flush 0 s = Some s"
| "drain_out flush (Suc n) s =
     (let (rc, e, q) = NX_PopQueue (pOutputPortQueue s) in
      case e of
        None \<Rightarrow> if flush then None else Some s
      | Some b \<Rightarrow> do {
          s \<leftarrow> call_FillBufferDone b (s\<lparr>pBufQueue := (pBufQueue s)(1 := q)\<rparr>);
          drain_out flush n s })"

text \<open>Native window mode: the loop over the slots of the pool.\<close>

fun give_native :: "bool \<Rightarrow> nat list \<Rightarrow> NX_VIDDEC \<Rightarrow> NX_VIDDEC option" where
  "give_native clear [] s = Some s"
| "give_native clear (i # is) s = do {
     used \<leftarrow> arr (outBufferUseFlag s) i;
     if \<not> used then give_native clear is s
     else do {
       b \<leftarrow> arr (pOutputBuffers s) i;
       s \<leftarrow> (if clear then upd_hdr b (\<lambda>h. h\<lparr>nFilledLen := 0\<rparr>) s else Some s);
       s \<leftarrow> call_FillBufferDone b s;
       give_native clear is (s\<lparr>outBufferUseFlag := (outBufferUseFlag s)[i := False],
         curOutBuffers := curOutBuffers s - 1\<rparr>) } }"

definition give_outputs :: "bool \<Rightarrow> NX_VIDDEC \<Rightarrow> NX_VIDDEC option" where
  "give_outputs flush s =
     (if bEnableThumbNailMode s then drain_out flush (NX_GetQueueCnt (pOutputPortQueue s)) s
      else give_native flush [0..<NX_OMX_MAX_BUF] s)"

definition FlushVideoInputPort :: "ptr \<Rightarrow> NX_VIDDEC \<Rightarrow> NX_VIDDEC option" where
  "FlushVideoInputPort dat s = do {
     s \<leftarrow> drain_in True (NX_GetQueueCnt (pInputPortQueue s)) s;
     send_complete OMX_CommandFlush 0 dat s }"

definition FlushVideoOutputPort :: "ptr \<Rightarrow> NX_VIDDEC \<Rightarrow> NX_VIDDEC option" where
  "FlushVideoOutputPort dat s = do {
     s \<leftarrow> give_outputs True s;
     send_complete OMX_CommandFlush 1 dat s }"

section \<open>State transitions\<close>

text \<open>
  Where the command thread stands inside \<open>NX_VidDec_StateTransition\<close>: returned with a code; from Loaded to
  Idle, at the allocation semaphore for port \<open>i\<close>; from Idle to Loaded, at \<open>pthread_join\<close> and then at the
  allocation semaphore for port \<open>i\<close>; from Idle to Executing, after the buffer thread was released and before
  the codec is opened; from Executing to Idle, before the buffers are returned under the mutex.
\<close>

datatype trans_pc =
    TransDone OMX_ERRORTYPE
  | TransAlloc nat
  | TransJoin
  | TransFree nat
  | TransOpen
  | TransReturn

definition NX_VidDec_StateTransition ::
  "OMX_STATETYPE \<Rightarrow> OMX_STATETYPE \<Rightarrow> NX_VIDDEC \<Rightarrow> (trans_pc \<times> NX_VIDDEC) option" where
  "NX_VidDec_StateTransition cur new s =
     (if cur = new then Some (TransDone OMX_ErrorSameState, s)
      else if OMX_StateInvalid = cur \<or> OMX_StateInvalid = new then Some (TransDone OMX_ErrorInvalidState, s)
      else case cur of
        OMX_StateLoaded \<Rightarrow>
          (case new of
             OMX_StateIdle \<Rightarrow> Some (TransAlloc 0, s)
           | _ \<Rightarrow> Some (TransDone OMX_ErrorIncorrectStateTransition, s))
      | OMX_StateIdle \<Rightarrow>
          (case new of
             OMX_StateLoaded \<Rightarrow> do {
               let s = s\<lparr>eCmdBufThread := NX_THREAD_CMD_EXIT\<rparr>;
               m \<leftarrow> post_handle (hBufChangeSem s);
               c \<leftarrow> post_handle (hBufCtrlSem s);
               Some (TransJoin, s\<lparr>hBufChangeSem := m, hBufCtrlSem := c\<rparr>) }
           | OMX_StateExecuting \<Rightarrow> do {
               c \<leftarrow> post_handle (hBufCtrlSem s);
               Some (TransOpen, s\<lparr>eCmdBufThread := NX_THREAD_CMD_RUN, hBufCtrlSem := c, eCurState := new\<rparr>) }
           | OMX_StatePause \<Rightarrow> Some (TransDone OMX_ErrorNone, s\<lparr>eCurState := new\<rparr>)
           | _ \<Rightarrow> Some (TransDone OMX_ErrorIncorrectStateTransition, s))
      | OMX_StateExecuting \<Rightarrow>
          (case new of
             OMX_StateIdle \<Rightarrow> do {
               m \<leftarrow> post_handle (hBufChangeSem s);
               Some (TransReturn, s\<lparr>eCmdBufThread := NX_THREAD_CMD_PAUSE, hBufChangeSem := m\<rparr>) }
           | OMX_StatePause \<Rightarrow> Some (TransDone OMX_ErrorNone, s\<lparr>eCurState := new\<rparr>)
           | _ \<Rightarrow> Some (TransDone OMX_ErrorIncorrectStateTransition, s))
      | OMX_StatePause \<Rightarrow>
          (if new = OMX_StateIdle \<or> new = OMX_StateExecuting then Some (TransDone OMX_ErrorNone, s\<lparr>eCurState := new\<rparr>)
           else Some (TransDone OMX_ErrorIncorrectStateTransition, s))
      | OMX_StateWaitForResources \<Rightarrow>
          (if new = OMX_StateLoaded \<or> new = OMX_StateIdle then Some (TransDone OMX_ErrorNone, s\<lparr>eCurState := new\<rparr>)
           else Some (TransDone OMX_ErrorIncorrectStateTransition, s))
      | _ \<Rightarrow> Some (TransDone OMX_ErrorUndefined, s))"

text \<open>
  One step of a transition behind a blocking point. Port 0 is the input port and port 1 the output port, as
  \<open>ComponentInit\<close> sets them up. \<open>joined\<close>: the buffer thread has ended. The last component
  is True in the step that creates the buffer thread.
\<close>

fun transition_step :: "vpu_lib \<Rightarrow> bool \<Rightarrow> trans_pc \<Rightarrow> NX_VIDDEC \<Rightarrow> (trans_pc \<times> NX_VIDDEC \<times> bool) option" where
  "transition_step lib joined (TransAlloc i) s =
     (if i < nNumPort s then do { s \<leftarrow> pend_alloc i s; Some (TransAlloc (i + 1), s, False) }
      else Some (TransDone OMX_ErrorNone,
        s\<lparr>eCmdBufThread := NX_THREAD_CMD_PAUSE, hBufCtrlSem := create_sem 0 1,
          hBufChangeSem := create_sem 0 (word_of_nat (VPUDEC_VID_NUM_PORT * 1024)), bStartEoS := False,
          eCurState := OMX_StateIdle\<rparr>, True))"
| "transition_step lib joined TransJoin s =
     (if joined then
        Some (TransFree 0, s\<lparr>hBufChangeSem := NX_DestroySem (hBufChangeSem s), hBufCtrlSem := NX_DestroySem (hBufCtrlSem s)\<rparr>, False)
      else None)"
| "transition_step lib joined (TransFree i) s =
     (if i < nNumPort s then do {
        s \<leftarrow> pend_alloc i s;
        Some (TransFree (i + 1), if eDir (pPort s i) = OMX_DirOutput then s\<lparr>outUsableBuffers := 0\<rparr> else s, False) }
      else Some (TransDone OMX_ErrorNone, (closeVideoCodec s)\<lparr>eCurState := OMX_StateLoaded, bStartEoS := False\<rparr>, False))"
| "transition_step lib joined TransOpen s = Some (TransDone OMX_ErrorNone, snd (openVideoCodec lib s), False)"
| "transition_step lib joined TransReturn s = do {
     s \<leftarrow> drain_in False (NX_GetQueueCnt (pInputPortQueue s)) s;
     s \<leftarrow> give_outputs False s;
     Some (TransDone OMX_ErrorNone, s\<lparr>eCurState := OMX_StateIdle\<rparr>, False) }"
| "transition_step lib joined (TransDone e) s = None"

section \<open>Commands\<close>

text \<open>The branches of \<open>NX_VidDec_CommandProc\<close> that do not block.\<close>

definition proc_flush :: "OMX_U32 \<Rightarrow> ptr \<Rightarrow> NX_VIDDEC \<Rightarrow> NX_VIDDEC option" where
  "proc_flush n dat s = do {
     s \<leftarrow> (if n = 0 \<or> n = OMX_ALL then FlushVideoInputPort dat s else Some s);
     s \<leftarrow> (if n = 1 \<or> n = OMX_ALL then FlushVideoOutputPort dat s else Some s);
     s \<leftarrow> (if n = OMX_ALL then send_complete OMX_CommandFlush OMX_ALL dat s else Some s);
     Some (s\<lparr>bNeedKey := True, bFlush := True, bStartEoS := False\<rparr>) }"

definition set_enabled :: "nat \<Rightarrow> bool \<Rightarrow> NX_VIDDEC \<Rightarrow> NX_VIDDEC" where
  "set_enabled i b s = upd_port i (\<lambda>p. p\<lparr>bPortEnabled := b\<rparr>) s"

definition proc_disable :: "OMX_U32 \<Rightarrow> ptr \<Rightarrow> NX_VIDDEC \<Rightarrow> NX_VIDDEC option" where
  "proc_disable n dat s =
     (if OMX_ALL \<noteq> n \<and> n \<ge> 2 then SendEvent OMX_EventError (omx_error_code OMX_ErrorBadPortIndex) 0 dat s
      else do {
        s \<leftarrow> (if n = 0 then FlushVideoInputPort dat (set_enabled 0 False s)
             else if n = 1 then do {
               s \<leftarrow> give_outputs True s;
               Some ((set_enabled 1 False s)\<lparr>outUsableBuffers := 0\<rparr>) }
             else do {
               s \<leftarrow> FlushVideoInputPort dat s;
               s \<leftarrow> FlushVideoOutputPort dat s;
               Some (set_enabled 1 False (set_enabled 0 False s)) });
        send_complete OMX_CommandPortDisable n dat s })"

definition proc_enable :: "OMX_U32 \<Rightarrow> ptr \<Rightarrow> NX_VIDDEC \<Rightarrow> NX_VIDDEC option" where
  "proc_enable n dat s = do {
     let s = (if n = 0 then set_enabled 0 True s
              else if n = 1 then set_enabled 1 True s
              else if n = OMX_ALL then set_enabled 1 True (set_enabled 0 True s) else s);
     c \<leftarrow> post_handle (hBufCtrlSem s);
     send_complete OMX_CommandPortEnable n dat (s\<lparr>hBufCtrlSem := c\<rparr>) }"

text \<open>
  The first component of the result is \<open>Some pc\<close> when a state transition has begun, and \<open>None\<close> when the
  command is finished. A command without a branch of its own reports completion with two zeros.
\<close>

definition NX_VidDec_CommandProc :: "OMX_COMMANDTYPE \<Rightarrow> OMX_U32 \<Rightarrow> ptr \<Rightarrow> NX_VIDDEC \<Rightarrow> (trans_pc option \<times> NX_VIDDEC) option" where
  "NX_VidDec_CommandProc Cmd n dat s =
     (case Cmd of
        OMX_CommandStateSet \<Rightarrow>
          (if eCurState s = to_state n then do {
             s \<leftarrow> SendEvent OMX_EventError (omx_error_code OMX_ErrorSameState) 0 dat s;
             Some (None, s) }
           else do {
             (pc, s) \<leftarrow> NX_VidDec_StateTransition (eCurState s) (to_state n) s;
             Some (Some pc, s) })
      | OMX_CommandFlush \<Rightarrow> map_option (Pair None) (proc_flush n dat s)
      | OMX_CommandPortDisable \<Rightarrow> map_option (Pair None) (proc_disable n dat s)
      | OMX_CommandPortEnable \<Rightarrow> map_option (Pair None) (proc_enable n dat s)
      | _ \<Rightarrow> map_option (Pair None) (SendEvent OMX_EventCmdComplete 0 0 dat s))"

text \<open>The end of \<open>OMX_CommandStateSet\<close>: the code of the transition is not looked at.\<close>

definition finish_state_set :: "OMX_U32 \<Rightarrow> ptr \<Rightarrow> NX_VIDDEC \<Rightarrow> NX_VIDDEC option" where
  "finish_state_set n dat s = send_complete OMX_CommandStateSet n dat s"

section \<open>Creation and destruction\<close>

text \<open>The members that \<open>ComponentInit\<close> sets once the base is initialised; \<open>num\<close> is the number of the instance.\<close>

definition init_component :: "nat \<Rightarrow> NX_VIDDEC \<Rightarrow> NX_VIDDEC" where
  "init_component num s =
     s\<lparr>comp_nVersion := NX_OMXSetVersion, nNumPort := VPUDEC_VID_NUM_PORT,
       pPort := (pPort s)(0 := init_port 0 OMX_DirInput VID_INPORT_MIN_BUF_CNT VID_INPORT_MIN_BUF_SIZE,
                          1 := init_port 1 OMX_DirOutput VID_OUTPORT_MIN_BUF_CNT VID_OUTPORT_MIN_BUF_SIZE),
       pBufQueue := (pBufQueue s)(0 := snd (NX_InitQueue 0 NX_OMX_MAX_BUF), 1 := snd (NX_InitQueue 0 NX_OMX_MAX_BUF)),
       cmdQueue := snd (NX_InitQueue 0 NX_MAX_QUEUE_ELEMENT),
       hSemCmd := create_sem 0 (word_of_nat NX_MAX_QUEUE_ELEMENT), hSemCmdWait := create_sem 0 1,
       eCmdThreadCmd := NX_THREAD_CMD_RUN, compName := ''OMX.NX.VIDEO_DECODER'', compRole := ''video_decoder'',
       hBufAllocSem := create_sem 0 16, hVpuCodec := NULL, videoCodecId := NX_NO_CODEC, bInitialized := False,
       bNeedKey := False, frameDelay := False, bStartEoS := False, codecSpecificData := None,
       codecSpecificDataSize := 0, outBufferable := 1, outUsableBuffers := 0, curOutBuffers := 0,
       minRequiredFrameBuffer := 1,
       outputFormat := (outputFormat s)\<lparr>fmt_eColorFormat := OMX_COLOR_FormatYUV420Planar\<rparr>,
       bUseNativeBuffer := False, bEnableThumbNailMode := True, bMetaDataInBuffers := False, bXMSWMVType := False,
       inFrameCount := 0, outFrameCount := 0, bNeedSequenceData := True, instanceId := int num\<rparr>"

text \<open>
  \<open>num\<close> and \<open>maxn\<close> are \<open>gstNumInstance\<close> and \<open>gstMaxInstance\<close>, \<open>alloc\<close> and \<open>alloc_cb\<close> whether the blocks for the
  component and for its callbacks are allocated; the semaphores, queues and ports are created. The wait for
  the command thread is over when the call returns: the thread has posted \<open>hSemCmdWait\<close>, and \<open>ComponentInit\<close>
  has taken the token.
\<close>

definition NX_VideoDecoder_ComponentInit ::
  "nat \<Rightarrow> nat \<Rightarrow> bool \<Rightarrow> bool \<Rightarrow> ptr \<Rightarrow> OMX_ERRORTYPE \<times> NX_VIDDEC option \<times> nat" where
  "NX_VideoDecoder_ComponentInit num maxn alloc alloc_cb hComponent =
     (if num \<ge> maxn then (OMX_ErrorInsufficientResources, None, num)
      else if \<not> alloc then (OMX_ErrorInsufficientResources, None, num)
      else
        (let (e, s) = NX_BaseComponentInit alloc_cb hComponent zero_viddec in
         if e \<noteq> OMX_ErrorNone then (e, None, num) else (OMX_ErrorNone, Some (init_component num s), num + 1)))"

text \<open>
  \<open>ComponentDeInit\<close> up to \<open>pthread_join\<close> on the command thread, and its rest: what remains of the component are
  the blocks that are not freed.
\<close>

definition deinit_start :: "NX_VIDDEC \<Rightarrow> NX_VIDDEC option" where
  "deinit_start s = do {
     let s = s\<lparr>eCmdThreadCmd := NX_THREAD_CMD_EXIT\<rparr>;
     w \<leftarrow> post_handle (hSemCmdWait s);
     c \<leftarrow> post_handle (hSemCmd s);
     Some (s\<lparr>hSemCmdWait := w, hSemCmd := c\<rparr>) }"

definition deinit_finish :: "nat \<Rightarrow> NX_VIDDEC \<Rightarrow> OMX_ERRORTYPE \<times> NX_VIDDEC \<times> nat" where
  "deinit_finish num s =
     (OMX_ErrorNone,
      s\<lparr>cmdQueue := NX_DeinitQueue (cmdQueue s), hSemCmdWait := NX_DestroySem (hSemCmdWait s),
        hSemCmd := NX_DestroySem (hSemCmd s),
        pBufQueue := (pBufQueue s)(0 := NX_DeinitQueue (pBufQueue s 0), 1 := NX_DeinitQueue (pBufQueue s 1)),
        hBufAllocSem := NX_DestroySem (hBufAllocSem s), codecSpecificData := None, compName := [], compRole := []\<rparr>,
      num - 1)"

section \<open>Accounting for the buffers\<close>

text \<open>
  The input buffers that were given back, followed by those that wait, in order; the output buffers that were
  handed over, with those that the component holds; and the invariant under which both are meaningful.
\<close>

definition in_view :: "NX_VIDDEC \<Rightarrow> ptr list" where
  "in_view s = ebd_ptrs (trace s) @ queue_list (pInputPortQueue s)"

definition out_view :: "NX_VIDDEC \<Rightarrow> ptr multiset" where
  "out_view s = mset (fbd_ptrs (trace s)) + held_out s"

definition io_inv :: "NX_VIDDEC \<Rightarrow> bool" where
  "io_inv s \<longleftrightarrow> in_ready s \<and> queue_inv (pOutputPortQueue s) \<and> bEnabled (pOutputPortQueue s) \<and> out_pool s \<and>
     (\<not> bEnableThumbNailMode s \<longrightarrow> NULL \<notin># held_out s)"

text \<open>\<open>io_step is os s t\<close>: the step takes in the input buffers \<open>is\<close> and the output buffers \<open>os\<close> and loses none.\<close>

definition io_step :: "ptr list \<Rightarrow> ptr list \<Rightarrow> NX_VIDDEC \<Rightarrow> NX_VIDDEC \<Rightarrow> bool" where
  "io_step is os s t \<longleftrightarrow>
     (io_inv s \<longrightarrow> io_inv t \<and> in_view t = in_view s @ is \<and> out_view t = out_view s + mset os)"

lemma io_step_trans: "io_step a b s t \<Longrightarrow> io_step c d t u \<Longrightarrow> io_step (a @ c) (b @ d) s u"
  by (auto simp: io_step_def add.assoc)

lemma io_step_two: "io_step [] [] s t \<Longrightarrow> io_step [] [] t u \<Longrightarrow> io_step [] [] s u"
  using io_step_trans[of "[]" "[]" s t "[]" "[]" u] by simp

text \<open>Steps that do not touch the buffers.\<close>

definition io_same :: "NX_VIDDEC \<Rightarrow> NX_VIDDEC \<Rightarrow> bool" where
  "io_same s t \<longleftrightarrow> ebd_ptrs (trace t) = ebd_ptrs (trace s) \<and> fbd_ptrs (trace t) = fbd_ptrs (trace s) \<and>
     pBufQueue t = pBufQueue s \<and> outBufferUseFlag t = outBufferUseFlag s \<and> curOutBuffers t = curOutBuffers s \<and>
     pOutputBuffers t = pOutputBuffers s \<and> bEnableThumbNailMode t = bEnableThumbNailMode s"

lemma io_same_step: "io_same s t \<Longrightarrow> io_step [] [] s t"
  by (simp add: io_same_def io_step_def io_inv_def in_view_def out_view_def held_out_def in_ready_def out_pool_def)

lemma io_same_refl [simp]: "io_same s s"
  by (simp add: io_same_def)

lemma io_same_trans: "io_same s t \<Longrightarrow> io_same t u \<Longrightarrow> io_same s u"
  by (simp add: io_same_def)

lemma calls_io_same: "calls [] [] s t \<Longrightarrow> io_same s t"
  by (auto simp: calls_def core_def kept_def io_same_def)

lemma io_same_SendEvent: "SendEvent e a b d s = Some t \<Longrightarrow> io_same s t"
  by (rule calls_io_same[OF calls_SendEvent])

lemma io_same_send_complete: "send_complete c n dat (s :: NX_VIDDEC) = Some t \<Longrightarrow> io_same s t"
  by (simp add: send_complete_def io_same_SendEvent)

text \<open>Decoding and the end of the stream.\<close>

lemma held_null:
  "held_native bs fs = {#} + X \<Longrightarrow> NULL \<notin># X \<Longrightarrow> i < length bs \<Longrightarrow> i < length fs \<Longrightarrow> bs ! i = NULL \<Longrightarrow> \<not> fs ! i"
  using held_native_clear[of i bs fs] by (metis add_0 union_single_eq_member add_mset_add_single)

lemma io_step_out_step:
  assumes "out_step n s t"
  shows "io_step [] [] s t"
  unfolding io_step_def
proof
  assume inv: "io_inv s"
  then have q: "queue_inv (pOutputPortQueue s)" by (simp add: io_inv_def)
  obtain evs where e: "trace t = trace s @ evs" "ebd_ptrs evs = []" "mset (fbd_ptrs evs) + held_out t = held_out s"
    using assms q unfolding out_step_def by blast
  have k: "kept t = kept s" "pInputPortQueue t = pInputPortQueue s" "queue_inv (pOutputPortQueue t)"
    "bEnabled (pOutputPortQueue t) = bEnabled (pOutputPortQueue s)" "out_pool s \<longrightarrow> out_pool t"
    using assms q unfolding out_step_def by blast+
  have "x \<in># held_out t \<Longrightarrow> x \<in># held_out s" for x using e(3) by (metis union_iff)
  then have "io_inv t" using inv k kept_held[OF k(1)] by (auto simp: io_inv_def in_ready_def)
  moreover have "out_view t = out_view s" using e(1) by (simp add: out_view_def e(3)[symmetric])
  moreover have "in_view t = in_view s" using e(1,2) k(2) by (simp add: in_view_def)
  ultimately show "io_inv t \<and> in_view t = in_view s @ [] \<and> out_view t = out_view s + mset []" by simp
qed

lemma io_step_out_step1: "out_step1 s t \<Longrightarrow> io_step [] [] s t"
  using io_step_out_step by (auto simp: out_step1_def)

lemma io_step_decode:
  assumes "decodeVideoFrame lib s = Some (ret, t)"
  shows "io_step [] [] s t"
proof (cases "DecodeFrame s = None")
  case True
  with assms show ?thesis by (simp add: decodeVideoFrame_def io_same_step)
next
  case False
  show ?thesis
    unfolding io_step_def
  proof
    assume inv: "io_inv s"
    then have r: "in_ready s" "queue_inv (pOutputPortQueue s)" by (simp_all add: io_inv_def)
    note c = decode_contract[OF r(1) assms False, unfolded frame_contract_def]
    obtain evs where e: "trace t = trace s @ evs" "mset (fbd_ptrs evs) + held_out t = held_out s"
      "case queue_list (pInputPortQueue s) of [] \<Rightarrow> ret = 0 \<and> ebd_ptrs evs = [] \<and> fbd_ptrs evs = [] \<and> queue_list (pInputPortQueue t) = []
        | b # bs \<Rightarrow> ebd_ptrs evs = [b] \<and> length (fbd_ptrs evs) \<le> 1 \<and> queue_list (pInputPortQueue t) = bs \<and>
            (\<exists>h. last evs = EmptyBufferDone b h \<and> nFilledLen h = 0)"
      using c r(2) by blast
    have l: "ebd_ptrs evs @ queue_list (pInputPortQueue t) = queue_list (pInputPortQueue s)"
      using e(3) by (cases "queue_list (pInputPortQueue s)") auto
    have "NULL \<notin> set (queue_list (pInputPortQueue t))"
      using r(1) l by (metis Un_iff in_ready_def set_append)
    then have ir: "in_ready t" using c by (simp add: in_ready_def)
    have "x \<in># held_out t \<Longrightarrow> x \<in># held_out s" for x using e(2) by (metis union_iff)
    with ir c inv r(2) have "io_inv t" using kept_held[of t s] by (auto simp: io_inv_def)
    moreover have "in_view t = in_view s" using e(1) l by (simp add: in_view_def)
    moreover have "out_view t = out_view s" using e(1) by (simp add: out_view_def e(2)[symmetric])
    ultimately show "io_inv t \<and> in_view t = in_view s @ [] \<and> out_view t = out_view s + mset []" by simp
  qed
qed

text \<open>The loops that give buffers back.\<close>

lemma io_step_give_in:
  assumes "NX_PopQueue (pInputPortQueue s) = (rc, Some b, q)"
    and "calls [b] [] (s\<lparr>pBufQueue := (pBufQueue s)(0 := q)\<rparr>) t"
  shows "io_step [] [] s t"
  unfolding io_step_def
proof
  assume inv: "io_inv s"
  then have qi: "queue_inv (pInputPortQueue s)" "bEnabled (pInputPortQueue s)" "NULL \<notin> set (queue_list (pInputPortQueue s))"
    by (simp_all add: io_inv_def in_ready_def)
  obtain evs where e: "trace t = trace s @ evs" "ebd_ptrs evs = [b]" "fbd_ptrs evs = []"
    and c: "core t = core (s\<lparr>pBufQueue := (pBufQueue s)(0 := q)\<rparr>)" using assms(2) by (auto simp: calls_def)
  have k: "kept t = kept s" "pBufQueue t = (pBufQueue s)(0 := q)" "outBufferUseFlag t = outBufferUseFlag s"
    "curOutBuffers t = curOutBuffers s" using c by (auto simp: core_def kept_def)
  have ne: "curElements (pInputPortQueue s) \<noteq> 0" using assms(1) by (auto simp: NX_PopQueue_def split: if_splits)
  then obtain x xs where x: "queue_list (pInputPortQueue s) = x # xs"
    by (metis length_queue_list list.size(3) neq_Nil_conv)
  have q: "x = b" "queue_list q = xs" "queue_inv q" "bEnabled q"
    using pop_list[OF qi(1) x qi(2)] pop_inv[OF qi(1)] nxq.ready_pop[of "pInputPortQueue s"] qi(2) assms(1) by auto
  have "io_inv t" using inv k q x kept_held[OF k(1)] by (auto simp: io_inv_def in_ready_def out_pool_def held_out_def)
  moreover have "in_view t = in_view s" using e k x q by (simp add: in_view_def)
  moreover have "out_view t = out_view s" using e k kept_held[OF k(1)] by (simp add: out_view_def held_out_def)
  ultimately show "io_inv t \<and> in_view t = in_view s @ [] \<and> out_view t = out_view s + mset []" by simp
qed

text \<open>One turn of each loop.\<close>

lemma drain_in_turn:
  assumes "drain_in clear (Suc n) s = Some t"
  shows "t = s \<or> (\<exists>rc b q s1. NX_PopQueue (pInputPortQueue s) = (rc, Some b, q) \<and>
    calls [b] [] (s\<lparr>pBufQueue := (pBufQueue s)(0 := q)\<rparr>) s1 \<and> drain_in clear n s1 = Some t)"
proof -
  obtain rc e q where pop: "NX_PopQueue (pInputPortQueue s) = (rc, e, q)" by (metis prod_cases3)
  show ?thesis
  proof (cases e)
    case None
    with assms pop show ?thesis by (simp split: if_splits)
  next
    case (Some b)
    with assms pop obtain s1 s2 where s: "(if clear then upd_hdr b (\<lambda>h. h\<lparr>nFilledLen := 0\<rparr>) (s\<lparr>pBufQueue := (pBufQueue s)(0 := q)\<rparr>)
        else Some (s\<lparr>pBufQueue := (pBufQueue s)(0 := q)\<rparr>)) = Some s1" "call_EmptyBufferDone b s1 = Some s2" "drain_in clear n s2 = Some t"
      by (auto simp: Let_def split: bind_splits)
    have "calls [] [] (s\<lparr>pBufQueue := (pBufQueue s)(0 := q)\<rparr>) s1" using s(1) by (auto split: if_splits intro: calls_upd_hdr)
    from calls_trans[OF this calls_EmptyBufferDone[OF s(2)]] show ?thesis using pop Some s(3) by auto
  qed
qed

lemma drain_out_turn:
  assumes "drain_out flush (Suc n) s = Some t"
  shows "t = s \<or> (\<exists>rc b q s1. NX_PopQueue (pOutputPortQueue s) = (rc, Some b, q) \<and>
    calls [] [b] (s\<lparr>pBufQueue := (pBufQueue s)(1 := q)\<rparr>) s1 \<and> drain_out flush n s1 = Some t)"
proof -
  obtain rc e q where "NX_PopQueue (pOutputPortQueue s) = (rc, e, q)" by (metis prod_cases3)
  with assms show ?thesis
    by (cases e) (auto split: if_splits bind_splits intro: calls_FillBufferDone)
qed

lemma give_native_turn:
  assumes "give_native clear (i # is) s = Some t"
  shows "i < length (outBufferUseFlag s) \<and>
   (if \<not> outBufferUseFlag s ! i then give_native clear is s = Some t
    else i < length (pOutputBuffers s) \<and>
      (\<exists>s1. calls [] [pOutputBuffers s ! i] (s\<lparr>outBufferUseFlag := (outBufferUseFlag s)[i := False], curOutBuffers := curOutBuffers s - 1\<rparr>) s1 \<and>
        give_native clear is s1 = Some t))"
proof (cases "i < length (outBufferUseFlag s) \<and> outBufferUseFlag s ! i")
  case False
  with assms show ?thesis by (auto split: bind_splits)
next
  case True
  let ?f = "\<lambda>x. x\<lparr>outBufferUseFlag := (outBufferUseFlag x)[i := False], curOutBuffers := curOutBuffers x - 1\<rparr>"
  let ?b = "pOutputBuffers s ! i"
  obtain s1 s2 where s: "i < length (pOutputBuffers s)"
    "(if clear then upd_hdr ?b (\<lambda>h. h\<lparr>nFilledLen := 0\<rparr>) s else Some s) = Some s1" "call_FillBufferDone ?b s1 = Some s2"
    "give_native clear is (?f s2) = Some t"
    using assms True by (auto split: bind_splits)
  have "calls [] [] s s1" using s(2) by (auto split: if_splits intro: calls_upd_hdr)
  from calls_trans[OF this calls_FillBufferDone[OF s(3)]] have c: "calls [] [?b] s s2" by simp
  then have "calls [] [?b] (?f s) (?f s2)" by (auto simp: calls_def core_def kept_def)
  with True s(1,4) show ?thesis by auto
qed

lemma calls_mode: "calls a b s t \<Longrightarrow> bEnableThumbNailMode t = bEnableThumbNailMode s"
  by (auto simp: calls_def core_def kept_def)

lemma io_step_drain_in: "drain_in clear n s = Some t \<Longrightarrow> io_step [] [] s t"
proof (induction n arbitrary: s)
  case (Suc n)
  from drain_in_turn[OF Suc.prems] show ?case
    using Suc.IH io_step_give_in io_step_two io_same_step[OF io_same_refl] by metis
qed (simp add: io_same_step)

lemma io_step_drain_out: "drain_out flush n s = Some t \<Longrightarrow> bEnableThumbNailMode s \<Longrightarrow> io_step [] [] s t"
proof (induction n arbitrary: s)
  case (Suc n)
  from drain_out_turn[OF Suc.prems(1)] consider "t = s" | rc b q s1 where "NX_PopQueue (pOutputPortQueue s) = (rc, Some b, q)"
    "calls [] [b] (s\<lparr>pBufQueue := (pBufQueue s)(1 := q)\<rparr>) s1" "drain_out flush n s1 = Some t" by blast
  then show ?case
  proof cases
    case 2
    have "bEnableThumbNailMode s1" using calls_mode[OF 2(2)] Suc.prems(2) by simp
    with Suc.IH[OF 2(3)] io_step_out_step[OF out_step_copy[OF 2(1) Suc.prems(2) 2(2)]] show ?thesis using io_step_two by blast
  qed (simp add: io_same_step)
qed (simp add: io_same_step)

lemma io_step_give_native: "give_native clear is s = Some t \<Longrightarrow> \<not> bEnableThumbNailMode s \<Longrightarrow> io_step [] [] s t"
proof (induction "is" arbitrary: s)
  case (Cons i "is")
  note turn = give_native_turn[OF Cons.prems(1)]
  show ?case
  proof (cases "outBufferUseFlag s ! i")
    case True
    with turn obtain s1 where s1: "i < length (pOutputBuffers s)" "i < length (outBufferUseFlag s)" "calls [] [pOutputBuffers s ! i]
      (s\<lparr>outBufferUseFlag := (outBufferUseFlag s)[i := False], curOutBuffers := curOutBuffers s - 1\<rparr>) s1"
      "give_native clear is s1 = Some t" by auto
    have "\<not> bEnableThumbNailMode s1" using calls_mode[OF s1(3)] Cons.prems(2) by simp
    with Cons.IH[OF s1(4)] io_step_out_step[OF out_step_native[OF s1(1,2) True Cons.prems(2) s1(3)]] show ?thesis
      using io_step_two by blast
  qed (use Cons turn in simp)
qed (simp add: io_same_step)

lemma io_step_give_outputs: "give_outputs flush s = Some t \<Longrightarrow> io_step [] [] s t"
  by (auto simp: give_outputs_def intro: io_step_drain_out io_step_give_native split: if_splits)

lemmas io_step_event = io_same_step[OF io_same_SendEvent]
lemmas io_step_complete = io_same_step[OF io_same_send_complete]

lemma io_step_flush_in: "FlushVideoInputPort dat s = Some t \<Longrightarrow> io_step [] [] s t"
  unfolding FlushVideoInputPort_def
  by (auto split: bind_splits intro: io_step_two io_step_drain_in io_step_complete)

lemma io_step_flush_out: "FlushVideoOutputPort dat s = Some t \<Longrightarrow> io_step [] [] s t"
  unfolding FlushVideoOutputPort_def
  by (auto split: bind_splits intro: io_step_two io_step_give_outputs io_step_complete)

lemma io_same_set_enabled: "io_same s (set_enabled i b s)"
  by (simp add: set_enabled_def upd_port_def io_same_def)

lemma io_same_eq: "io_same s t \<Longrightarrow> io_step [] [] t u \<Longrightarrow> io_step [] [] s u"
  by (rule io_step_two[OF io_same_step])

lemma io_step_proc_flush:
  assumes "proc_flush n dat s = Some t"
  shows "io_step [] [] s t"
proof -
  obtain s1 s2 s3 where s: "(if n = 0 \<or> n = OMX_ALL then FlushVideoInputPort dat s else Some s) = Some s1"
    "(if n = 1 \<or> n = OMX_ALL then FlushVideoOutputPort dat s1 else Some s1) = Some s2"
    "(if n = OMX_ALL then send_complete OMX_CommandFlush OMX_ALL dat s2 else Some s2) = Some s3"
    "t = s3\<lparr>bNeedKey := True, bFlush := True, bStartEoS := False\<rparr>"
    using assms unfolding proc_flush_def by (auto split: bind_splits)
  have "io_step [] [] s s1" using s(1) io_step_flush_in io_same_step by (auto split: if_splits)
  moreover have "io_step [] [] s1 s2" using s(2) io_step_flush_out io_same_step by (auto split: if_splits)
  moreover have "io_step [] [] s2 s3" using s(3) io_step_complete io_same_step by (auto split: if_splits)
  moreover have "io_step [] [] s3 t" using s(4) by (simp add: io_same_step io_same_def)
  ultimately show ?thesis by (blast intro: io_step_two)
qed

lemma word_lt_two: "(n :: OMX_U32) < 2 \<Longrightarrow> n = 0 \<or> n = 1"
proof -
  assume "n < 2"
  then have "unat n < 2" by (simp add: word_less_nat_alt)
  then have "unat n = unat (0 :: OMX_U32) \<or> unat n = unat (1 :: OMX_U32)" by auto
  then show ?thesis by (simp only: word_unat_eq_iff)
qed

lemma io_step_proc_disable:
  assumes "proc_disable n dat s = Some t"
  shows "io_step [] [] s t"
proof (cases "OMX_ALL \<noteq> n \<and> n \<ge> 2")
  case True
  with assms show ?thesis by (auto simp: proc_disable_def intro: io_step_event)
next
  case False
  then consider "n = 0" | "n = 1" | "n = OMX_ALL" "n \<noteq> 0" "n \<noteq> 1"
    using word_lt_two[of n] by (auto simp: not_le)
  then show ?thesis
  proof cases
    case 1
    with assms obtain s1 where "FlushVideoInputPort dat (set_enabled 0 False s) = Some s1"
      "send_complete OMX_CommandPortDisable n dat s1 = Some t" by (auto simp: proc_disable_def split: bind_splits)
    then show ?thesis using io_same_eq[OF io_same_set_enabled io_step_flush_in] io_step_complete io_step_two by blast
  next
    case 2
    have "\<not> (2 :: OMX_U32) \<le> 1" by (simp add: word_le_nat_alt)
    with assms 2 obtain s1 where s: "give_outputs True s = Some s1"
      "send_complete OMX_CommandPortDisable n dat ((set_enabled 1 False s1)\<lparr>outUsableBuffers := 0\<rparr>) = Some t"
      by (auto simp: proc_disable_def split: bind_splits)
    have "io_same s1 ((set_enabled 1 False s1)\<lparr>outUsableBuffers := 0\<rparr>)"
      using io_same_set_enabled[of s1 1 False] by (simp add: io_same_def)
    then show ?thesis using io_step_give_outputs[OF s(1)] io_step_complete[OF s(2)] io_same_eq io_step_two by blast
  next
    case 3
    with assms obtain s1 s2 where s: "FlushVideoInputPort dat s = Some s1" "FlushVideoOutputPort dat s1 = Some s2"
      "send_complete OMX_CommandPortDisable n dat (set_enabled 1 False (set_enabled 0 False s2)) = Some t"
      by (auto simp: proc_disable_def split: bind_splits)
    have "io_same s2 (set_enabled 1 False (set_enabled 0 False s2))"
      using io_same_trans[OF io_same_set_enabled io_same_set_enabled] .
    then show ?thesis
      using io_step_flush_in[OF s(1)] io_step_flush_out[OF s(2)] io_step_complete[OF s(3)] io_same_eq io_step_two by blast
  qed
qed

lemma io_step_proc_enable:
  assumes "proc_enable n dat s = Some t"
  shows "io_step [] [] s t"
proof -
  obtain s1 c where s: "s1 = (if n = 0 then set_enabled 0 True s else if n = 1 then set_enabled 1 True s
      else if n = OMX_ALL then set_enabled 1 True (set_enabled 0 True s) else s)"
    "send_complete OMX_CommandPortEnable n dat (s1\<lparr>hBufCtrlSem := c\<rparr>) = Some t"
    using assms by (auto simp: proc_enable_def Let_def split: bind_splits)
  have "io_same s s1"
    unfolding s(1) using io_same_set_enabled io_same_trans[OF io_same_set_enabled io_same_set_enabled] by simp
  moreover have "io_same s1 (s1\<lparr>hBufCtrlSem := c\<rparr>)" by (simp add: io_same_def)
  ultimately show ?thesis using io_step_complete[OF s(2)] io_same_eq by blast
qed

text \<open>
  The first part of a transition as a relation, with one rule per kind of transition, and the function as a
  refinement of it.
\<close>

definition direct_edges :: "(OMX_STATETYPE \<times> OMX_STATETYPE) set" where
  "direct_edges = {(OMX_StateIdle, OMX_StatePause), (OMX_StateExecuting, OMX_StatePause), (OMX_StatePause, OMX_StateIdle),
     (OMX_StatePause, OMX_StateExecuting), (OMX_StateWaitForResources, OMX_StateLoaded),
     (OMX_StateWaitForResources, OMX_StateIdle)}"

inductive trans_begins :: "OMX_STATETYPE \<Rightarrow> OMX_STATETYPE \<Rightarrow> NX_VIDDEC \<Rightarrow> trans_pc \<Rightarrow> NX_VIDDEC \<Rightarrow> bool" where
  to_alloc: "trans_begins OMX_StateLoaded OMX_StateIdle s (TransAlloc 0) s"
| to_join: "post_handle (hBufChangeSem s) = Some m \<Longrightarrow> post_handle (hBufCtrlSem s) = Some c \<Longrightarrow>
     trans_begins OMX_StateIdle OMX_StateLoaded s TransJoin
       (s\<lparr>eCmdBufThread := NX_THREAD_CMD_EXIT, hBufChangeSem := m, hBufCtrlSem := c\<rparr>)"
| to_open: "post_handle (hBufCtrlSem s) = Some c \<Longrightarrow>
     trans_begins OMX_StateIdle OMX_StateExecuting s TransOpen
       (s\<lparr>eCmdBufThread := NX_THREAD_CMD_RUN, hBufCtrlSem := c, eCurState := OMX_StateExecuting\<rparr>)"
| to_return: "post_handle (hBufChangeSem s) = Some m \<Longrightarrow>
     trans_begins OMX_StateExecuting OMX_StateIdle s TransReturn
       (s\<lparr>eCmdBufThread := NX_THREAD_CMD_PAUSE, hBufChangeSem := m\<rparr>)"
| direct: "(cur, new) \<in> direct_edges \<Longrightarrow> trans_begins cur new s (TransDone OMX_ErrorNone) (s\<lparr>eCurState := new\<rparr>)"
| refused: "e \<noteq> OMX_ErrorNone \<Longrightarrow> trans_begins cur new s (TransDone e) s"

lemma StateTransition_begins:
  assumes "NX_VidDec_StateTransition cur new s = Some (pc, t)"
  shows "trans_begins cur new s pc t"
proof (cases "cur = new \<or> OMX_StateInvalid = cur \<or> OMX_StateInvalid = new")
  case True
  with assms show ?thesis by (auto simp: NX_VidDec_StateTransition_def split: if_splits intro: trans_begins.intros)
next
  case False
  with assms show ?thesis
    by (cases cur; cases new)
      (simp_all add: NX_VidDec_StateTransition_def Let_def split: bind_splits,
       auto intro: trans_begins.intros simp: direct_edges_def)
qed

lemma io_same_StateTransition:
  assumes "NX_VidDec_StateTransition cur new s = Some (pc, t)"
  shows "io_same s t"
  using StateTransition_begins[OF assms] by (cases rule: trans_begins.cases) (simp_all add: io_same_def)

lemma io_step_CommandProc:
  assumes "NX_VidDec_CommandProc c n dat s = Some (pc, t)"
  shows "io_step [] [] s t"
proof (cases c)
  case OMX_CommandStateSet
  with assms show ?thesis
    by (auto simp: NX_VidDec_CommandProc_def split: if_splits bind_splits
        intro: io_step_event io_same_step[OF io_same_StateTransition])
qed (use assms in \<open>auto simp: NX_VidDec_CommandProc_def
    intro: io_step_proc_flush io_step_proc_disable io_step_proc_enable io_step_event\<close>)

lemma io_same_pend_alloc: "pend_alloc i s = Some t \<Longrightarrow> io_same s t"
  by (auto simp: pend_alloc_def io_same_def split: if_splits bind_splits)

lemma io_step_transition:
  assumes "transition_step lib joined pc s = Some (pc', t, created)"
  shows "io_step [] [] s t"
proof (cases pc)
  case (TransAlloc i)
  with assms show ?thesis
    by (auto simp: io_same_def intro!: io_same_step dest!: io_same_pend_alloc split: if_splits bind_splits)
next
  case TransJoin
  with assms show ?thesis by (auto simp: io_same_def intro!: io_same_step split: if_splits)
next
  case (TransFree i)
  show ?thesis
  proof (cases "i < nNumPort s")
    case True
    with assms TransFree show ?thesis
      by (auto simp: io_same_def intro!: io_same_step dest!: io_same_pend_alloc split: if_splits bind_splits)
  next
    case False
    then have t: "t = (closeVideoCodec s)\<lparr>eCurState := OMX_StateLoaded, bStartEoS := False\<rparr>" using assms TransFree by simp
    have "io_same (closeVideoCodec s) t" by (simp add: t io_same_def)
    then show ?thesis using calls_io_same[OF calls_close] io_same_trans io_same_step by blast
  qed
next
  case TransOpen
  with assms show ?thesis using calls_io_same[OF calls_open] by (auto intro!: io_same_step)
next
  case TransReturn
  with assms obtain s1 s2 where "drain_in False (NX_GetQueueCnt (pInputPortQueue s)) s = Some s1" "give_outputs False s1 = Some s2"
    "t = s2\<lparr>eCurState := OMX_StateIdle\<rparr>" by (auto split: bind_splits)
  moreover from this have "io_same s2 t" by (simp add: io_same_def)
  ultimately have "io_step [] [] s s1" "io_step [] [] s1 s2" "io_step [] [] s2 t"
    by (simp_all add: io_step_drain_in io_step_give_outputs io_same_step)
  then show ?thesis by (blast intro: io_step_two)
qed (use assms in simp)

section \<open>Flushing returns everything\<close>

definition callbacks_set :: "NX_VIDDEC \<Rightarrow> bool" where
  "callbacks_set s \<longleftrightarrow> cbEventHandler (pCallbacks s) \<noteq> NULL \<and> cbEmptyBufferDone (pCallbacks s) \<noteq> NULL \<and>
     cbFillBufferDone (pCallbacks s) \<noteq> NULL"

text \<open>What a loop over the input queue leaves alone, and what both loops leave alone.\<close>

definition out_part where
  "out_part s = (pOutputPortQueue s, outBufferUseFlag s, pOutputBuffers s, bEnableThumbNailMode s)"

definition client_part where
  "client_part s = (dom (hdr_mem s), pCallbacks s)"

lemma drain_in_all:
  assumes "queue_inv (pInputPortQueue s)" and "bEnabled (pInputPortQueue s)" and "length (queue_list (pInputPortQueue s)) = n"
    and "set (queue_list (pInputPortQueue s)) \<subseteq> dom (hdr_mem s)" and "callbacks_set s"
  shows "\<exists>t evs. drain_in clear n s = Some t \<and> trace t = trace s @ evs \<and> queue_list (pInputPortQueue t) = [] \<and>
     out_part t = out_part s \<and> client_part t = client_part s \<and>
     (\<forall>e\<in>set evs. \<exists>b h. e = EmptyBufferDone b h \<and> (clear \<longrightarrow> nFilledLen h = 0))"
  using assms
proof (induction n arbitrary: s)
  case 0
  then show ?case by (simp del: length_queue_list)
next
  case (Suc n)
  from Suc.prems(3) obtain b bs where l: "queue_list (pInputPortQueue s) = b # bs" "length bs = n"
    by (auto simp del: length_queue_list simp: length_Suc_conv)
  obtain q where pop: "NX_PopQueue (pInputPortQueue s) = (0, Some b, q)" and q: "queue_list q = bs" "queue_inv q" "bEnabled q"
    using pop_list[OF Suc.prems(1) l(1) Suc.prems(2)] pop_inv[OF Suc.prems(1)] nxq.ready_pop[of "pInputPortQueue s"] Suc.prems(2)
    by (cases "NX_PopQueue (pInputPortQueue s)") auto
  obtain h where h: "hdr_mem s b = Some h" using Suc.prems(4) l(1) by auto
  define h' where "h' = (if clear then h\<lparr>nFilledLen := 0\<rparr> else h)"
  define s1 where "s1 = emit (EmptyBufferDone b h') (s\<lparr>pBufQueue := (pBufQueue s)(0 := q), hdr_mem := (hdr_mem s)(b \<mapsto> h')\<rparr>)"
  have s1: "drain_in clear (Suc n) s = drain_in clear n s1"
    using pop h Suc.prems(5) fun_upd_triv[of "hdr_mem s" b]
    by (simp add: s1_def h'_def upd_hdr_def call_EmptyBufferDone_def callbacks_set_def)
  have d: "dom (hdr_mem s1) = dom (hdr_mem s)" using h by (auto simp: s1_def emit_def)
  have s1': "pInputPortQueue s1 = q" "callbacks_set s1" "out_part s1 = out_part s" "client_part s1 = client_part s"
    "trace s1 = trace s @ [EmptyBufferDone b h']"
    using Suc.prems(5) d by (simp_all add: callbacks_set_def client_part_def out_part_def) (simp_all add: s1_def emit_def)
  obtain t evs where t: "drain_in clear n s1 = Some t" "trace t = trace s1 @ evs" "queue_list (pInputPortQueue t) = []"
    "out_part t = out_part s1" "client_part t = client_part s1"
    "\<forall>e\<in>set evs. \<exists>b h. e = EmptyBufferDone b h \<and> (clear \<longrightarrow> nFilledLen h = 0)"
    using Suc.IH[of s1] s1'(1,2) q l Suc.prems(4) d by auto
  show ?case
    using t s1 s1' by (intro exI[of _ t] exI[of _ "EmptyBufferDone b h' # evs"]) (auto simp: h'_def)
qed

lemma drain_out_all:
  assumes "queue_inv (pOutputPortQueue s)" and "bEnabled (pOutputPortQueue s)" and "length (queue_list (pOutputPortQueue s)) = n"
    and "set (queue_list (pOutputPortQueue s)) \<subseteq> dom (hdr_mem s)" and "callbacks_set s"
  shows "\<exists>t evs. drain_out flush n s = Some t \<and> trace t = trace s @ evs \<and> queue_list (pOutputPortQueue t) = [] \<and>
     pInputPortQueue t = pInputPortQueue s \<and> bEnableThumbNailMode t = bEnableThumbNailMode s \<and> client_part t = client_part s \<and>
     (\<forall>e\<in>set evs. \<exists>b h. e = FillBufferDone b h)"
  using assms
proof (induction n arbitrary: s)
  case 0
  then show ?case by (simp del: length_queue_list)
next
  case (Suc n)
  from Suc.prems(3) obtain b bs where l: "queue_list (pOutputPortQueue s) = b # bs" "length bs = n"
    by (auto simp del: length_queue_list simp: length_Suc_conv)
  obtain q where pop: "NX_PopQueue (pOutputPortQueue s) = (0, Some b, q)" and q: "queue_list q = bs" "queue_inv q" "bEnabled q"
    using pop_list[OF Suc.prems(1) l(1) Suc.prems(2)] pop_inv[OF Suc.prems(1)] nxq.ready_pop[of "pOutputPortQueue s"] Suc.prems(2)
    by (cases "NX_PopQueue (pOutputPortQueue s)") auto
  obtain h where h: "hdr_mem s b = Some h" using Suc.prems(4) l(1) by auto
  define s1 where "s1 = emit (FillBufferDone b h) (s\<lparr>pBufQueue := (pBufQueue s)(1 := q)\<rparr>)"
  have s1: "drain_out flush (Suc n) s = drain_out flush n s1"
    using pop h Suc.prems(5) by (simp add: s1_def call_FillBufferDone_def callbacks_set_def)
  have s1': "pBufQueue s1 1 = q" "callbacks_set s1" "pBufQueue s1 0 = pBufQueue s 0" "client_part s1 = client_part s"
    "bEnableThumbNailMode s1 = bEnableThumbNailMode s" "hdr_mem s1 = hdr_mem s"
    "trace s1 = trace s @ [FillBufferDone b h]"
    using Suc.prems(5) by (simp_all add: callbacks_set_def client_part_def s1_def emit_def)
  obtain t evs where t: "drain_out flush n s1 = Some t" "trace t = trace s1 @ evs" "queue_list (pOutputPortQueue t) = []"
    "pInputPortQueue t = pInputPortQueue s1" "bEnableThumbNailMode t = bEnableThumbNailMode s1" "client_part t = client_part s1"
    "\<forall>e\<in>set evs. \<exists>b h. e = FillBufferDone b h"
    using Suc.IH[of s1] s1'(1,2,6) q l Suc.prems(4) by auto
  show ?case
    using t s1 s1' by (intro exI[of _ t] exI[of _ "FillBufferDone b h # evs"]) auto
qed

lemma give_native_all:
  assumes "set is \<subseteq> {..<length (outBufferUseFlag s)}" and "length (pOutputBuffers s) = length (outBufferUseFlag s)"
    and "\<forall>i<length (outBufferUseFlag s). outBufferUseFlag s ! i \<longrightarrow> pOutputBuffers s ! i \<in> dom (hdr_mem s)" and "callbacks_set s"
  shows "\<exists>t evs. give_native clear is s = Some t \<and> trace t = trace s @ evs \<and>
     outBufferUseFlag t = fold (\<lambda>i fs. fs[i := False]) is (outBufferUseFlag s) \<and>
     pInputPortQueue t = pInputPortQueue s \<and> bEnableThumbNailMode t = bEnableThumbNailMode s \<and>
     pOutputBuffers t = pOutputBuffers s \<and> client_part t = client_part s \<and> (\<forall>e\<in>set evs. \<exists>b h. e = FillBufferDone b h)"
  using assms
proof (induction "is" arbitrary: s)
  case Nil
  then show ?case by simp
next
  case (Cons i "is")
  show ?case
  proof (cases "outBufferUseFlag s ! i")
    case False
    then have "(outBufferUseFlag s)[i := False] = outBufferUseFlag s" by (metis (full_types) list_update_id)
    with Cons False show ?thesis by (simp add: arr_def)
  next
    case True
    let ?b = "pOutputBuffers s ! i"
    from True Cons.prems(1,3) obtain h where h: "hdr_mem s ?b = Some h" by auto
    define h' where "h' = (if clear then h\<lparr>nFilledLen := 0\<rparr> else h)"
    define s1 where "s1 = (emit (FillBufferDone ?b h') (s\<lparr>hdr_mem := (hdr_mem s)(?b \<mapsto> h')\<rparr>))\<lparr>
      outBufferUseFlag := (outBufferUseFlag s)[i := False], curOutBuffers := curOutBuffers s - 1\<rparr>"
    have s1: "give_native clear (i # is) s = give_native clear is s1"
      using True h Cons.prems(1,2,4) fun_upd_triv[of "hdr_mem s" ?b]
      by (simp add: s1_def h'_def upd_hdr_def call_FillBufferDone_def callbacks_set_def arr_def emit_def)
    have d: "dom (hdr_mem s1) = dom (hdr_mem s)" using h by (auto simp: s1_def emit_def)
    have s1': "outBufferUseFlag s1 = (outBufferUseFlag s)[i := False]" "callbacks_set s1" "pOutputBuffers s1 = pOutputBuffers s"
      "client_part s1 = client_part s" "pInputPortQueue s1 = pInputPortQueue s" "bEnableThumbNailMode s1 = bEnableThumbNailMode s"
      "trace s1 = trace s @ [FillBufferDone ?b h']"
      using Cons.prems(4) d by (simp_all add: callbacks_set_def client_part_def) (simp_all add: s1_def emit_def)
    have k: "\<forall>j<length (outBufferUseFlag s1). outBufferUseFlag s1 ! j \<longrightarrow> pOutputBuffers s1 ! j \<in> dom (hdr_mem s1)"
      using Cons.prems(1,3) s1'(1,3) d by (auto simp: nth_list_update)
    obtain t evs where t: "give_native clear is s1 = Some t" "trace t = trace s1 @ evs"
      "outBufferUseFlag t = fold (\<lambda>i fs. fs[i := False]) is (outBufferUseFlag s1)"
      "pInputPortQueue t = pInputPortQueue s1" "bEnableThumbNailMode t = bEnableThumbNailMode s1"
      "pOutputBuffers t = pOutputBuffers s1" "client_part t = client_part s1" "\<forall>e\<in>set evs. \<exists>b h. e = FillBufferDone b h"
      using Cons.IH[OF _ _ k s1'(2)] Cons.prems(1,2) s1'(1,3) by auto
    show ?thesis
      using t s1 s1' by (intro exI[of _ t] exI[of _ "FillBufferDone ?b h' # evs"]) auto
  qed
qed

lemma fold_clear_all: "fold (\<lambda>i fs. fs[i := False]) [0..<length fs] fs = replicate (length fs) False"
proof -
  have l: "length (fold (\<lambda>i fs. fs[i := False]) is fs) = length fs" for "is" and fs :: "bool list"
    by (induction "is" arbitrary: fs) auto
  have "fold (\<lambda>i fs. fs[i := False]) is fs ! j = (if j \<in> set is then False else fs ! j)" if "j < length fs" for "is" j and fs :: "bool list"
    using that by (induction "is" arbitrary: fs) (auto simp: nth_list_update)
  then show ?thesis by (intro nth_equalityI) (simp_all add: l)
qed

lemma held_native_none: "held_native bs (replicate n False) = {#}"
proof -
  have "filter snd (zip bs (replicate n False)) = []" by (auto simp: filter_empty_conv dest: set_zip_rightD)
  then show ?thesis by (simp add: held_native_def)
qed

lemma give_outputs_all:
  assumes "io_inv s" and "callbacks_set s" and "set_mset (held_out s) \<subseteq> dom (hdr_mem s)"
  shows "\<exists>t evs. give_outputs flush s = Some t \<and> trace t = trace s @ evs \<and> held_out t = {#} \<and>
     pInputPortQueue t = pInputPortQueue s \<and> client_part t = client_part s \<and> (\<forall>e\<in>set evs. \<exists>b h. e = FillBufferDone b h)"
proof (cases "bEnableThumbNailMode s")
  case True
  obtain t evs where "drain_out flush (NX_GetQueueCnt (pOutputPortQueue s)) s = Some t" "trace t = trace s @ evs"
    "queue_list (pOutputPortQueue t) = []" "pInputPortQueue t = pInputPortQueue s" "bEnableThumbNailMode t"
    "client_part t = client_part s" "\<forall>e\<in>set evs. \<exists>b h. e = FillBufferDone b h"
    using drain_out_all[of s "NX_GetQueueCnt (pOutputPortQueue s)" flush] assms True
    by (auto simp: io_inv_def held_out_def NX_GetQueueCnt_def)
  then show ?thesis by (intro exI[of _ t] exI[of _ evs]) (simp add: give_outputs_def True held_out_def)
next
  case False
  have l: "length (outBufferUseFlag s) = NX_OMX_MAX_BUF" "length (pOutputBuffers s) = NX_OMX_MAX_BUF"
    using assms(1) by (simp_all add: io_inv_def out_pool_def)
  have "pOutputBuffers s ! i \<in># held_out s" if "i < NX_OMX_MAX_BUF" "outBufferUseFlag s ! i" for i
    using held_native_clear[of i "pOutputBuffers s" "outBufferUseFlag s"] that l False by (simp add: held_out_def)
  then have k: "\<forall>i<length (outBufferUseFlag s). outBufferUseFlag s ! i \<longrightarrow> pOutputBuffers s ! i \<in> dom (hdr_mem s)"
    using assms(3) l by auto
  obtain t evs where t: "give_native flush [0..<NX_OMX_MAX_BUF] s = Some t" "trace t = trace s @ evs"
    "outBufferUseFlag t = fold (\<lambda>i fs. fs[i := False]) [0..<NX_OMX_MAX_BUF] (outBufferUseFlag s)"
    "pInputPortQueue t = pInputPortQueue s" "bEnableThumbNailMode t = bEnableThumbNailMode s"
    "client_part t = client_part s" "\<forall>e\<in>set evs. \<exists>b h. e = FillBufferDone b h"
    using give_native_all[OF _ _ k assms(2), of "[0..<NX_OMX_MAX_BUF]" flush] l by (auto simp: atLeast0LessThan)
  have "held_out t = {#}" using t(3,5) fold_clear_all[of "outBufferUseFlag s"] l(1) False by (simp add: held_out_def held_native_none)
  with t show ?thesis by (intro exI[of _ t] exI[of _ evs]) (simp add: give_outputs_def False)
qed

text \<open>All buffers of the component have headers, and the callbacks are installed.\<close>

definition buffers_known :: "NX_VIDDEC \<Rightarrow> bool" where
  "buffers_known s \<longleftrightarrow> io_inv s \<and> callbacks_set s \<and>
     set (queue_list (pInputPortQueue s)) \<union> set_mset (held_out s) \<subseteq> dom (hdr_mem s)"

text \<open>Giving back the inputs and then the outputs, with an event in between or without.\<close>

lemma drain_both:
  assumes "buffers_known s"
  obtains t ins where "drain_in clear (NX_GetQueueCnt (pInputPortQueue s)) s = Some t" "trace t = trace s @ ins"
    "ebd_ptrs ins = queue_list (pInputPortQueue s)" "fbd_ptrs ins = []" "queue_list (pInputPortQueue t) = []"
    "held_out t = held_out s" "io_inv t" "callbacks_set t" "dom (hdr_mem t) = dom (hdr_mem s)"
    "\<forall>e\<in>set ins. \<exists>b h. e = EmptyBufferDone b h \<and> (clear \<longrightarrow> nFilledLen h = 0)"
proof -
  have a: "io_inv s" "callbacks_set s" "set (queue_list (pInputPortQueue s)) \<subseteq> dom (hdr_mem s)"
    using assms by (auto simp: buffers_known_def)
  obtain t evs where t: "drain_in clear (NX_GetQueueCnt (pInputPortQueue s)) s = Some t" "trace t = trace s @ evs"
    "queue_list (pInputPortQueue t) = []" "out_part t = out_part s" "client_part t = client_part s"
    "\<forall>e\<in>set evs. \<exists>b h. e = EmptyBufferDone b h \<and> (clear \<longrightarrow> nFilledLen h = 0)"
    using drain_in_all[of s "NX_GetQueueCnt (pInputPortQueue s)" clear] a by (auto simp: io_inv_def in_ready_def NX_GetQueueCnt_def)
  have "io_inv t" "in_view t = in_view s" using io_step_drain_in[OF t(1)] a(1) by (simp_all add: io_step_def)
  moreover from this have "ebd_ptrs evs = queue_list (pInputPortQueue s)" using t(2,3) by (simp add: in_view_def)
  moreover have "fbd_ptrs evs = []" using fbd_ptrs_none[OF t(6)] .
  moreover have "held_out t = held_out s" using t(4) by (auto simp: out_part_def held_out_def)
  ultimately show thesis using that[OF t(1,2)] t(3,5,6) a(2) by (auto simp: client_part_def callbacks_set_def)
qed

lemma give_outputs_both:
  assumes "io_inv s" and "callbacks_set s" and "set_mset (held_out s) \<subseteq> dom (hdr_mem s)"
  obtains t outs where "give_outputs flush s = Some t" "trace t = trace s @ outs" "ebd_ptrs outs = []"
    "mset (fbd_ptrs outs) = held_out s" "held_out t = {#}" "pInputPortQueue t = pInputPortQueue s" "io_inv t" "callbacks_set t"
proof -
  obtain t evs where t: "give_outputs flush s = Some t" "trace t = trace s @ evs" "held_out t = {#}"
     "pInputPortQueue t = pInputPortQueue s" "client_part t = client_part s" "\<forall>e\<in>set evs. \<exists>b h. e = FillBufferDone b h"
    using give_outputs_all[OF assms, of flush] by blast
  have "io_inv t" "out_view t = out_view s" using io_step_give_outputs[OF t(1)] assms(1) by (simp_all add: io_step_def)
  moreover from this have "mset (fbd_ptrs evs) = held_out s" using t(2,3) by (simp add: out_view_def)
  ultimately show thesis
    using that[OF t(1,2) ebd_ptrs_none[OF t(6)]] t(3-5) assms(2) by (auto simp: client_part_def callbacks_set_def)
qed

lemma send_complete_emits: "callbacks_set s \<Longrightarrow> send_complete c n dat s =
    Some (emit (EventHandler OMX_EventCmdComplete (omx_command_code c) n dat) s)"
  by (simp add: send_complete_def SendEvent_def callbacks_set_def)

lemma emit_frame [simp]:
  "io_inv (emit e s) = io_inv s" "callbacks_set (emit e s) = callbacks_set s" "held_out (emit e s) = held_out s"
  "pBufQueue (emit e s) = pBufQueue s" "hdr_mem (emit e s) = hdr_mem s" "trace (emit e s) = trace s @ [e]"
  by (simp_all add: emit_def io_inv_def in_ready_def out_pool_def held_out_def callbacks_set_def)

lemma flush_frame: "io_inv (s\<lparr>bNeedKey := a, bFlush := b, bStartEoS := c\<rparr>) = io_inv s"
  "held_out (s\<lparr>bNeedKey := a, bFlush := b, bStartEoS := c\<rparr>) = held_out s"
  by (simp_all add: io_inv_def in_ready_def out_pool_def held_out_def)

text \<open>
  C20: \<open>OMX_CommandFlush\<close> on all ports always returns and gives back every buffer: first the queued input
  buffers in the order they came, each emptied, then the completion of the input flush, then every output
  buffer, then two more completions. Afterwards the component holds nothing, ignores the end of stream that
  was pending, and the next frame starts with a flush of the codec.
\<close>

theorem flush_returns_all_buffers:
  assumes "buffers_known s"
  shows "\<exists>t ins outs. NX_VidDec_CommandProc OMX_CommandFlush OMX_ALL dat s = Some (None, t) \<and>
     trace t = trace s @ ins @ EventHandler OMX_EventCmdComplete (omx_command_code OMX_CommandFlush) 0 dat # outs @
       [EventHandler OMX_EventCmdComplete (omx_command_code OMX_CommandFlush) 1 dat,
        EventHandler OMX_EventCmdComplete (omx_command_code OMX_CommandFlush) OMX_ALL dat] \<and>
     ebd_ptrs ins = queue_list (pInputPortQueue s) \<and> fbd_ptrs ins = [] \<and>
     (\<forall>b h. EmptyBufferDone b h \<in> set ins \<longrightarrow> nFilledLen h = 0) \<and>
     ebd_ptrs outs = [] \<and> mset (fbd_ptrs outs) = held_out s \<and>
     queue_list (pInputPortQueue t) = [] \<and> held_out t = {#} \<and> io_inv t \<and> bFlush t \<and> bNeedKey t \<and> \<not> bStartEoS t"
proof -
  obtain s1 ins where s1: "drain_in True (NX_GetQueueCnt (pInputPortQueue s)) s = Some s1" "trace s1 = trace s @ ins"
    "ebd_ptrs ins = queue_list (pInputPortQueue s)" "fbd_ptrs ins = []" "queue_list (pInputPortQueue s1) = []"
    "held_out s1 = held_out s" "io_inv s1" "callbacks_set s1" "dom (hdr_mem s1) = dom (hdr_mem s)"
    "\<forall>e\<in>set ins. \<exists>b h. e = EmptyBufferDone b h \<and> (True \<longrightarrow> nFilledLen h = 0)"
    by (rule drain_both[OF assms])
  define s2 where "s2 = emit (EventHandler OMX_EventCmdComplete (omx_command_code OMX_CommandFlush) 0 dat) s1"
  have "set_mset (held_out s2) \<subseteq> dom (hdr_mem s2)" using assms s1(6,9) by (simp add: s2_def buffers_known_def)
  then obtain s3 outs where s3: "give_outputs True s2 = Some s3" "trace s3 = trace s2 @ outs" "ebd_ptrs outs = []"
    "mset (fbd_ptrs outs) = held_out s2" "held_out s3 = {#}" "pInputPortQueue s3 = pInputPortQueue s2" "io_inv s3" "callbacks_set s3"
    using give_outputs_both[of s2 True] s1(7,8) by (auto simp: s2_def)
  define s4 where "s4 = emit (EventHandler OMX_EventCmdComplete (omx_command_code OMX_CommandFlush) OMX_ALL dat)
     (emit (EventHandler OMX_EventCmdComplete (omx_command_code OMX_CommandFlush) 1 dat) s3)"
  have "NX_VidDec_CommandProc OMX_CommandFlush OMX_ALL dat s = Some (None, s4\<lparr>bNeedKey := True, bFlush := True, bStartEoS := False\<rparr>)"
    using s1(1,8) s3(1,8)
    by (simp add: NX_VidDec_CommandProc_def proc_flush_def FlushVideoInputPort_def FlushVideoOutputPort_def
        send_complete_emits s2_def s4_def)
  moreover have "EmptyBufferDone b h \<in> set ins \<Longrightarrow> nFilledLen h = 0" for b h using s1(10) by fastforce
  ultimately show ?thesis
    using s1(2-6) s3(2-7) by (intro exI[of _ "s4\<lparr>bNeedKey := True, bFlush := True, bStartEoS := False\<rparr>"] exI[of _ ins] exI[of _ outs])
      (simp add: s2_def s4_def flush_frame)
qed

lemma decoding_viddec_known: "buffers_known decoding_viddec"
proof -
  have "callbacks_set decoding_viddec" "hdr_mem decoding_viddec 7 \<noteq> None" "hdr_mem decoding_viddec 12 \<noteq> None"
    by (simp_all add: callbacks_set_def decoding_viddec_def native_viddec_def idle_viddec_def)
  then show ?thesis
    using decoding_viddec_ready(2,9) decoding_viddec_view by (auto simp: buffers_known_def io_inv_def)
qed

theorem flush_returns_all_buffers_witness:
  "\<exists>t. NX_VidDec_CommandProc OMX_CommandFlush OMX_ALL 0 decoding_viddec = Some (None, t) \<and>
     queue_list (pInputPortQueue t) = [] \<and> held_out t = {#}"
proof -
  have "buffers_known decoding_viddec" by (rule decoding_viddec_known)
  from flush_returns_all_buffers[OF this, of 0] show ?thesis by blast
qed

text \<open>
  C28: Leaving Executing gives back every buffer too: the part of the transition to Idle that runs under the
  mutex always returns, with the queued input buffers first, in order and with their contents, then the
  output buffers; the component is then Idle and holds nothing.
\<close>

theorem leaving_executing_returns_all_buffers:
  assumes "buffers_known s"
  shows "\<exists>t ins outs. transition_step lib joined TransReturn s = Some (TransDone OMX_ErrorNone, t, False) \<and>
     trace t = trace s @ ins @ outs \<and> ebd_ptrs ins = queue_list (pInputPortQueue s) \<and> fbd_ptrs ins = [] \<and>
     ebd_ptrs outs = [] \<and> mset (fbd_ptrs outs) = held_out s \<and> eCurState t = OMX_StateIdle \<and>
     queue_list (pInputPortQueue t) = [] \<and> held_out t = {#} \<and> io_inv t"
proof -
  obtain s1 ins where s1: "drain_in False (NX_GetQueueCnt (pInputPortQueue s)) s = Some s1" "trace s1 = trace s @ ins"
    "ebd_ptrs ins = queue_list (pInputPortQueue s)" "fbd_ptrs ins = []" "queue_list (pInputPortQueue s1) = []"
    "held_out s1 = held_out s" "io_inv s1" "callbacks_set s1" "dom (hdr_mem s1) = dom (hdr_mem s)"
    by (rule drain_both[OF assms])
  have "set_mset (held_out s1) \<subseteq> dom (hdr_mem s1)" using assms s1(6,9) by (simp add: buffers_known_def)
  then obtain s2 outs where s2: "give_outputs False s1 = Some s2" "trace s2 = trace s1 @ outs" "ebd_ptrs outs = []"
    "mset (fbd_ptrs outs) = held_out s1" "held_out s2 = {#}" "pInputPortQueue s2 = pInputPortQueue s1" "io_inv s2"
    using give_outputs_both[OF s1(7,8)] by blast
  have "transition_step lib joined TransReturn s = Some (TransDone OMX_ErrorNone, s2\<lparr>eCurState := OMX_StateIdle\<rparr>, False)"
    using s1(1) s2(1) by simp
  moreover have "io_inv (s2\<lparr>eCurState := OMX_StateIdle\<rparr>) = io_inv s2" "held_out (s2\<lparr>eCurState := OMX_StateIdle\<rparr>) = held_out s2"
    by (simp_all add: io_inv_def in_ready_def out_pool_def held_out_def)
  ultimately show ?thesis
    using s1(2-6) s2(2-7) by (intro exI[of _ "s2\<lparr>eCurState := OMX_StateIdle\<rparr>"] exI[of _ ins] exI[of _ outs]) simp
qed

theorem leaving_executing_returns_all_buffers_witness:
  "\<exists>t. transition_step sample_lib False TransReturn decoding_viddec = Some (TransDone OMX_ErrorNone, t, False) \<and>
     queue_list (pInputPortQueue t) = [] \<and> held_out t = {#}"
  using leaving_executing_returns_all_buffers[OF decoding_viddec_known, of sample_lib False] by blast

section \<open>What the commands leave alone\<close>

lemma calls_kept: "calls a b s t \<Longrightarrow> kept t = kept s"
  by (auto simp: calls_def core_def)

lemma kept_queue [simp]: "kept (s\<lparr>pBufQueue := q\<rparr>) = kept s"
  by (simp add: kept_def)

lemma kept_pool [simp]: "kept (s\<lparr>outBufferUseFlag := fs, curOutBuffers := n\<rparr>) = kept s"
  by (simp add: kept_def)

lemma kept_drain_in: "drain_in clear n s = Some t \<Longrightarrow> kept t = kept s"
proof (induction n arbitrary: s)
  case (Suc n)
  with drain_in_turn[OF Suc.prems] show ?case using calls_kept by (metis kept_queue)
qed simp

lemma kept_drain_out: "drain_out flush n s = Some t \<Longrightarrow> kept t = kept s"
proof (induction n arbitrary: s)
  case (Suc n)
  with drain_out_turn[OF Suc.prems] show ?case using calls_kept by (metis kept_queue)
qed simp

lemma kept_give_native: "give_native clear is s = Some t \<Longrightarrow> kept t = kept s"
proof (induction "is" arbitrary: s)
  case (Cons i "is")
  with give_native_turn[OF Cons.prems] show ?case using calls_kept by (metis kept_pool)
qed simp

lemma kept_give_outputs: "give_outputs flush s = Some t \<Longrightarrow> kept t = kept s"
  by (auto simp: give_outputs_def dest: kept_drain_out kept_give_native split: if_splits)

lemma kept_SendEvent: "SendEvent e a b d (s :: NX_VIDDEC) = Some t \<Longrightarrow> kept t = kept s"
  by (rule calls_kept[OF calls_SendEvent])

lemma kept_send_complete: "send_complete c n dat (s :: NX_VIDDEC) = Some t \<Longrightarrow> kept t = kept s"
  by (simp add: send_complete_def kept_SendEvent)

lemma kept_flush_in: "FlushVideoInputPort dat s = Some t \<Longrightarrow> kept t = kept s"
  by (auto simp: FlushVideoInputPort_def dest!: kept_drain_in kept_send_complete split: bind_splits)

lemma kept_flush_out: "FlushVideoOutputPort dat s = Some t \<Longrightarrow> kept t = kept s"
  by (auto simp: FlushVideoOutputPort_def dest!: kept_give_outputs kept_send_complete split: bind_splits)

lemma kept_set_enabled [simp]: "kept (set_enabled i b s) = kept s"
  by (auto simp: set_enabled_def upd_port_def kept_def port_shape_def fun_eq_iff)

lemma kept_fields [simp]: "kept (s\<lparr>bNeedKey := a, bFlush := b, bStartEoS := c\<rparr>) = kept s"
  "kept (s\<lparr>outUsableBuffers := n\<rparr>) = kept s"
  by (simp_all add: kept_def)

lemma kept_proc_flush: "proc_flush n dat s = Some t \<Longrightarrow> kept t = kept s"
  by (auto simp: proc_flush_def dest!: kept_flush_in kept_flush_out kept_send_complete split: bind_splits if_splits)

lemma kept_proc_disable: "proc_disable n dat s = Some t \<Longrightarrow> kept t = kept s"
  by (auto simp: proc_disable_def dest!: kept_flush_in kept_flush_out kept_give_outputs kept_send_complete kept_SendEvent
      split: bind_splits if_splits)

end
