(* ===== verification/VidDecThread.thy ===== *)
theory VidDecThread
  imports VidDecCmd VidDecParam
begin

text \<open>
  The video decoder as a concurrent system: the buffer thread (\<open>NX_VidDec_BufferMgmtThread\<close>), the command
  thread (\<open>NX_VidDec_CommandThread\<close>) and a client that calls the entry points, in any interleaving. A step
  of a thread is the code between two accesses to what the threads share outside the mutex; the critical
  sections under \<open>hBufMutex\<close> are one step each.
\<close>

section \<open>The buffer thread\<close>

text \<open>
  Where the buffer thread stands: not created; before the first post; at the test of the outer loop; at
  \<open>NX_PendSem( hBufCtrlSem )\<close>; at the test of the inner loop; at \<open>NX_PendSem( hBufChangeSem )\<close>; at the test
  behind it; at the test of the ports; before the mutex; at the end with an error; ended.
\<close>

datatype buf_pc =
  BufNone | BufStart | BufOuter | BufPendCtrl | BufInner | BufPendChange | BufWoken | BufPorts | BufLocked | BufError | BufDone

text \<open>Whether there is an output buffer to decode into.\<close>

definition out_available :: "NX_VIDDEC \<Rightarrow> bool" where
  "out_available s =
     (if bEnableThumbNailMode s then NX_GetQueueCnt (pOutputPortQueue s) > 0
      else curOutBuffers s > minRequiredFrameBuffer s)"

definition NX_VidDec_Transform :: "vpu_lib \<Rightarrow> NX_VIDDEC \<Rightarrow> (int \<times> NX_VIDDEC) option" where
  "NX_VidDec_Transform lib s = decodeVideoFrame lib s"

text \<open>
  The critical section: at most one frame, then at most one buffer for the end of the stream. \<open>libE\<close> is the
  library at the second call.
\<close>

definition buffer_turn :: "vpu_lib \<Rightarrow> vpu_lib \<Rightarrow> NX_VIDDEC \<Rightarrow> (buf_pc \<times> NX_VIDDEC) option" where
  "buffer_turn lib libE s = do {
     (err, s) \<leftarrow>
       (if \<not> bStartEoS s \<and> NX_GetQueueCnt (pInputPortQueue s) > 0 \<and> out_available s then NX_VidDec_Transform lib s
        else Some (0, s));
     if 0 \<noteq> err then Some (BufError, s)
     else if bStartEoS s \<and> out_available s then do { s \<leftarrow> processEOS libE s; Some (BufInner, s) }
     else Some (BufInner, s) }"

fun buf_step :: "vpu_lib \<Rightarrow> vpu_lib \<Rightarrow> buf_pc \<Rightarrow> NX_VIDDEC \<Rightarrow> (buf_pc \<times> NX_VIDDEC) option" where
  "buf_step lib libE BufStart s = do { c \<leftarrow> post_handle (hBufCtrlSem s); Some (BufOuter, s\<lparr>hBufCtrlSem := c\<rparr>) }"
| "buf_step lib libE BufOuter s =
     Some (if NX_THREAD_CMD_EXIT \<noteq> eCmdBufThread s then BufPendCtrl else BufDone, s)"
| "buf_step lib libE BufPendCtrl s = do { c \<leftarrow> pend_handle (hBufCtrlSem s); Some (BufInner, s\<lparr>hBufCtrlSem := c\<rparr>) }"
| "buf_step lib libE BufInner s =
     Some (if NX_THREAD_CMD_RUN = eCmdBufThread s then BufPendChange else BufOuter, s)"
| "buf_step lib libE BufPendChange s = do { m \<leftarrow> pend_handle (hBufChangeSem s); Some (BufWoken, s\<lparr>hBufChangeSem := m\<rparr>) }"
| "buf_step lib libE BufWoken s =
     Some (if NX_THREAD_CMD_RUN \<noteq> eCmdBufThread s then BufOuter else BufPorts, s)"
| "buf_step lib libE BufPorts s =
     (if \<not> bPortEnabled (pOutputPort s) \<or> \<not> bPortEnabled (pInputPort s) then do {
        m \<leftarrow> post_handle (hBufChangeSem s);
        Some (BufOuter, s\<lparr>hBufChangeSem := m\<rparr>) }
      else Some (BufLocked, s))"
| "buf_step lib libE BufLocked s = buffer_turn lib libE s"
| "buf_step lib libE BufError s = do { s \<leftarrow> SendEvent OMX_EventError 0 0 NULL s; Some (BufDone, s) }"
| "buf_step lib libE BufNone s = None"
| "buf_step lib libE BufDone s = None"

section \<open>The command thread\<close>

text \<open>
  Where the command thread stands; \<open>p\<close> is the local variable \<open>pCmd\<close>, which keeps its value when a pop fails.
\<close>

datatype cmd_pc = CmdStart | CmdPend ptr | CmdTest ptr | CmdProc ptr | CmdTrans ptr trans_pc | CmdDone

text \<open>\<open>joined\<close> and the last component of the result are those of \<open>transition_step\<close>.\<close>

fun cmd_step :: "vpu_lib \<Rightarrow> bool \<Rightarrow> cmd_pc \<Rightarrow> NX_VIDDEC \<Rightarrow> (cmd_pc \<times> NX_VIDDEC \<times> bool) option" where
  "cmd_step lib joined CmdStart s = do { w \<leftarrow> post_handle (hSemCmdWait s); Some (CmdPend NULL, s\<lparr>hSemCmdWait := w\<rparr>, False) }"
| "cmd_step lib joined (CmdPend p) s = do { c \<leftarrow> pend_handle (hSemCmd s); Some (CmdTest p, s\<lparr>hSemCmd := c\<rparr>, False) }"
| "cmd_step lib joined (CmdTest p) s =
     (if NX_THREAD_CMD_RUN \<noteq> eCmdThreadCmd s \<and> 0 = NX_GetQueueCnt (cmdQueue s) then Some (CmdDone, s, False)
      else
        (let (rc, e, q) = NX_PopQueue (cmdQueue s); s = s\<lparr>cmdQueue := q\<rparr>;
             p = (case e of None \<Rightarrow> p | Some x \<Rightarrow> x)
         in Some (if p \<noteq> NULL then CmdProc p else CmdPend p, s, False)))"
| "cmd_step lib joined (CmdProc p) s = do {
     m \<leftarrow> cmd_mem s p;
     (t, s) \<leftarrow> NX_VidDec_CommandProc (eCmd m) (nParam1 m) (pCmdData m) s;
     Some (case t of None \<Rightarrow> (CmdPend p, free_cmd p s, False) | Some pc \<Rightarrow> (CmdTrans p pc, s, False)) }"
| "cmd_step lib joined (CmdTrans p pc) s =
     (case pc of
        TransDone e \<Rightarrow> do {
          m \<leftarrow> cmd_mem s p;
          s \<leftarrow> finish_state_set (nParam1 m) (pCmdData m) s;
          Some (CmdPend p, free_cmd p s, False) }
      | _ \<Rightarrow> do {
          (pc', s, created) \<leftarrow> transition_step lib joined pc s;
          Some (CmdTrans p pc', s, created) })"
| "cmd_step lib joined CmdDone s = None"

section \<open>The client\<close>

text \<open>
  The calls of the client, with the blocks that the calls allocate; the last two are its writes to the memory
  that it shares with the component.
\<close>

datatype client_call =
    CallEmpty ptr
  | CallFill ptr
  | CallSend ptr OMX_COMMANDTYPE OMX_U32 ptr
  | CallUse ptr OMX_U32 ptr OMX_U32 ptr
  | CallAlloc ptr ptr OMX_U32 ptr OMX_U32
  | CallFree OMX_U32 ptr
  | CallSet omx_param
  | CallCallbacks OMX_CALLBACKTYPE ptr
  | CallHeader ptr OMX_BUFFERHEADERTYPE
  | CallData ptr "OMX_U8 list"

fun client_step :: "vpu_lib \<Rightarrow> client_call \<Rightarrow> NX_VIDDEC \<Rightarrow> (OMX_ERRORTYPE \<times> NX_VIDDEC) option" where
  "client_step lib (CallEmpty b) s = NX_VidDec_EmptyThisBuffer b s"
| "client_step lib (CallFill b) s = NX_VidDec_FillThisBuffer b s"
| "client_step lib (CallSend p c n dat) s = NX_BaseSendCommand p c n dat s"
| "client_step lib (CallUse p port app sz buf) s = map_option (\<lambda>(e, h, s). (e, s)) (NX_VidDec_UseBuffer p port app sz buf s)"
| "client_step lib (CallAlloc p pb port app sz) s =
     map_option (\<lambda>(e, h, s). (e, s)) (NX_VidDec_AllocateBuffer lib p pb port app sz s)"
| "client_step lib (CallFree port b) s = NX_VidDec_FreeBuffer port b s"
| "client_step lib (CallSet par) s = NX_VidDec_SetParameter par s"
| "client_step lib (CallCallbacks cb dat) s = Some (NX_BaseSetCallbacks cb dat s)"
| "client_step lib (CallHeader b h) s = Some (OMX_ErrorNone, s\<lparr>hdr_mem := (hdr_mem s)(b := Some h)\<rparr>)"
| "client_step lib (CallData p bs) s = Some (OMX_ErrorNone, s\<lparr>byte_mem := (byte_mem s)(p := Some bs)\<rparr>)"

text \<open>The buffers that a call hands to the component.\<close>

fun taken_in :: "client_call \<Rightarrow> OMX_ERRORTYPE \<Rightarrow> ptr list" where
  "taken_in (CallEmpty b) e = (if e = OMX_ErrorNone then [b] else [])"
| "taken_in _ e = []"

fun taken_out :: "client_call \<Rightarrow> OMX_ERRORTYPE \<Rightarrow> ptr list" where
  "taken_out (CallFill b) e = (if e = OMX_ErrorNone then [b] else [])"
| "taken_out _ e = []"

text \<open>
  What the client has to observe, beyond what the component checks: buffers are not NULL; in native window
  mode a buffer handed to the output port is one of the port's buffers, and not one that the component holds
  already; an output buffer that the component holds is not freed; and the mode of the output port is not
  changed while the component holds output buffers. The queues have \<open>NX_OMX_MAX_BUF\<close> places, so a client
  that keeps to its buffers never fills them.
\<close>

definition no_outputs :: "NX_VIDDEC \<Rightarrow> bool" where
  "no_outputs s \<longleftrightarrow> queue_list (pOutputPortQueue s) = [] \<and> True \<notin> set (outBufferUseFlag s)"

definition own_output :: "ptr \<Rightarrow> NX_VIDDEC \<Rightarrow> bool" where
  "own_output b s \<longleftrightarrow> (\<exists>i<NX_OMX_MAX_BUF. pOutputBuffers s ! i = b \<and> \<not> outBufferUseFlag s ! i \<and>
     (\<forall>j<NX_OMX_MAX_BUF. j \<noteq> i \<longrightarrow> pOutputBuffers s ! j \<noteq> b))"

fun client_ok :: "client_call \<Rightarrow> NX_VIDDEC \<Rightarrow> bool" where
  "client_ok (CallEmpty b) s \<longleftrightarrow> b \<noteq> NULL"
| "client_ok (CallFill b) s \<longleftrightarrow> b \<noteq> NULL \<and> (bEnableThumbNailMode s \<or> own_output b s)"
| "client_ok (CallFree port b) s \<longleftrightarrow> bEnableThumbNailMode s \<or> port = 0 \<or> b \<notin># held_out s"
| "client_ok (CallSet (ParamEnableNativeBuffers port en)) s \<longleftrightarrow> no_outputs s"
| "client_ok (CallSet ParamThumbnailMode) s \<longleftrightarrow> no_outputs s"
| "client_ok _ s \<longleftrightarrow> True"

section \<open>The system\<close>

text \<open>
  The component, where the two threads stand, and, for the statements below, the buffers that the client has
  handed over so far, in the order of the calls.
\<close>

record dec_sys =
  comp :: NX_VIDDEC
  bpc :: buf_pc
  cpc :: cmd_pc
  ins :: "ptr list"
  outs :: "ptr list"

text \<open>The library may answer differently at every step.\<close>

inductive dec_step :: "dec_sys \<Rightarrow> dec_sys \<Rightarrow> bool" where
  client: "client_ok c (comp S) \<Longrightarrow> client_step lib c (comp S) = Some (e, t) \<Longrightarrow>
     dec_step S (S\<lparr>comp := t, ins := ins S @ taken_in c e, outs := outs S @ taken_out c e\<rparr>)"
| buffer: "buf_step lib libE (bpc S) (comp S) = Some (pc, t) \<Longrightarrow> dec_step S (S\<lparr>comp := t, bpc := pc\<rparr>)"
| command: "cmd_step lib (bpc S = BufDone) (cpc S) (comp S) = Some (pc, t, created) \<Longrightarrow>
     dec_step S (S\<lparr>comp := t, cpc := pc, bpc := (if created then BufStart else bpc S)\<rparr>)"

inductive dec_reach :: "dec_sys \<Rightarrow> dec_sys \<Rightarrow> bool" for S0 where
  start: "dec_reach S0 S0"
| step: "dec_reach S0 S \<Longrightarrow> dec_step S T \<Longrightarrow> dec_reach S0 T"

text \<open>
  A component when \<open>ComponentInit\<close> returns: the command thread has made its first post, which
  \<open>NX_PendSem( hSemCmdWait )\<close> took, and stands at its semaphore.
\<close>

definition created_sys :: "NX_VIDDEC \<Rightarrow> dec_sys" where
  "created_sys s = \<lparr>comp = s, bpc = BufNone, cpc = CmdPend NULL, ins = [], outs = []\<rparr>"

section \<open>The calls and the buffers\<close>

lemma push_result:
  assumes "NX_PushQueue q b = (rc, q')" and "queue_inv q"
  shows "queue_inv q' \<and> bEnabled q' = bEnabled q \<and> queue_list q' = (if rc = 0 then queue_list q @ [b] else queue_list q)"
proof (cases "curElements q < maxElement q \<and> bEnabled q")
  case True
  with push_list[OF assms(2), of b] push_inv[OF assms(2), of b] nxq.ready_push[of q b] assms(1) show ?thesis by auto
next
  case False
  with push_full[of q b] assms show ?thesis by auto
qed

lemma io_step_Empty:
  assumes "NX_VidDec_EmptyThisBuffer b s = Some (e, t)" and "b \<noteq> NULL"
  shows "io_step (taken_in (CallEmpty b) e) [] s t"
proof (cases "accepts_buffers s")
  case False
  with assms(1) show ?thesis by (auto simp: NX_VidDec_EmptyThisBuffer_def io_step_def)
next
  case True
  obtain rc q where q: "NX_PushQueue (pInputPortQueue s) b = (rc, q)" by (metis surj_pair)
  show ?thesis
    unfolding io_step_def
  proof
    assume "io_inv s"
    moreover from this push_result[OF q] have "queue_inv q \<and> bEnabled q = bEnabled (pInputPortQueue s) \<and>
        queue_list q = (if rc = 0 then queue_list (pInputPortQueue s) @ [b] else queue_list (pInputPortQueue s))"
      by (simp add: io_inv_def in_ready_def)
    ultimately show "io_inv t \<and> in_view t = in_view s @ taken_in (CallEmpty b) e \<and> out_view t = out_view s + mset []"
      using assms True q
      by (auto simp: NX_VidDec_EmptyThisBuffer_def io_inv_def in_ready_def out_pool_def held_out_def in_view_def out_view_def
          split: bind_splits if_splits)
  qed
qed

lemma io_step_Fill:
  assumes "NX_VidDec_FillThisBuffer b s = Some (e, t)" and "client_ok (CallFill b) s"
  shows "io_step [] (taken_out (CallFill b) e) s t"
proof (cases "accepts_buffers s")
  case False
  with assms(1) show ?thesis by (auto simp: NX_VidDec_FillThisBuffer_def io_step_def)
next
  case acc: True
  show ?thesis
  proof (cases "bEnableThumbNailMode s")
    case True
    obtain rc q where q: "NX_PushQueue (pOutputPortQueue s) b = (rc, q)" by (metis surj_pair)
    show ?thesis
      unfolding io_step_def
    proof
      assume "io_inv s"
      moreover from this push_result[OF q] have "queue_inv q \<and> bEnabled q = bEnabled (pOutputPortQueue s) \<and>
          queue_list q = (if rc = 0 then queue_list (pOutputPortQueue s) @ [b] else queue_list (pOutputPortQueue s))"
        by (simp add: io_inv_def)
      ultimately show "io_inv t \<and> in_view t = in_view s @ [] \<and> out_view t = out_view s + mset (taken_out (CallFill b) e)"
        using assms(1) acc True q
        by (auto simp: NX_VidDec_FillThisBuffer_def io_inv_def in_ready_def out_pool_def held_out_def in_view_def out_view_def
            split: bind_splits if_splits)
    qed
  next
    case False
    obtain i where i: "i < NX_OMX_MAX_BUF" "pOutputBuffers s ! i = b" "\<not> outBufferUseFlag s ! i"
      "\<forall>j<NX_OMX_MAX_BUF. j \<noteq> i \<longrightarrow> pOutputBuffers s ! j \<noteq> b" and b: "b \<noteq> NULL"
      using assms(2) False by (auto simp: own_output_def)
    show ?thesis
      unfolding io_step_def
    proof
      assume inv: "io_inv s"
      then have l: "length (pOutputBuffers s) = NX_OMX_MAX_BUF" "length (outBufferUseFlag s) = NX_OMX_MAX_BUF"
        by (simp_all add: io_inv_def out_pool_def)
      have "count_if id ((outBufferUseFlag s)[i := True]) = Suc (count_if id (outBufferUseFlag s))"
        using count_if_update[of i "outBufferUseFlag s" id True] l i by simp
      moreover have "held_native (pOutputBuffers s) ((outBufferUseFlag s)[i := True]) =
          add_mset b (held_native (pOutputBuffers s) (outBufferUseFlag s))"
        using held_native_set[of i "pOutputBuffers s" "outBufferUseFlag s"] l i by simp
      moreover obtain m where "e = OMX_ErrorNone" "t = (emit (VpuClrDspFlag (hVpuCodec s) (int i)) s)\<lparr>
          outBufferUseFlag := (outBufferUseFlag s)[i := True], curOutBuffers := curOutBuffers s + 1, hBufChangeSem := m\<rparr>"
        using assms(1) acc False fold_fill_unique[OF i(1) l(1) i(2,4)]
        by (auto simp: NX_VidDec_FillThisBuffer_def split: bind_splits)
      ultimately show "io_inv t \<and> in_view t = in_view s @ [] \<and> out_view t = out_view s + mset (taken_out (CallFill b) e)"
        using False inv b
        by (simp add: io_inv_def in_ready_def out_pool_def held_out_def in_view_def out_view_def emit_def)
    qed
  qed
qed

lemma held_native_skip: "\<not> fs ! i \<Longrightarrow> i < length fs \<Longrightarrow> held_native (bs[i := p]) fs = held_native bs fs"
proof (induction bs arbitrary: i fs)
  case (Cons b bs)
  then obtain f fs' where "fs = f # fs'" by (cases fs) auto
  with Cons show ?case by (cases i) (auto simp: held_native_def)
qed simp

lemma io_step_slot:
  assumes "io_inv s \<Longrightarrow> k \<noteq> 0 \<Longrightarrow> \<not> bEnableThumbNailMode s \<Longrightarrow> \<not> outBufferUseFlag s ! i" and "i < length (port_bufs k s)"
  shows "io_step [] [] s (set_port_buf k i p s)"
proof (cases "k = 0")
  case True
  then show ?thesis by (simp add: set_port_buf_def io_same_def io_same_step)
next
  case False
  show ?thesis
    unfolding io_step_def
  proof
    assume inv: "io_inv s"
    have "i < length (outBufferUseFlag s)"
      using assms(2) inv False by (simp add: port_bufs_def io_inv_def out_pool_def)
    with assms(1)[OF inv False] held_native_skip[of "outBufferUseFlag s" i "pOutputBuffers s" p]
    have "held_out (set_port_buf k i p s) = held_out s"
      using False by (simp add: held_out_def set_port_buf_def)
    with inv False show "io_inv (set_port_buf k i p s) \<and> in_view (set_port_buf k i p s) = in_view s @ [] \<and>
        out_view (set_port_buf k i p s) = out_view s + mset []"
      by (simp add: io_inv_def in_ready_def out_pool_def in_view_def out_view_def set_port_buf_def)
  qed
qed

text \<open>A free slot of the output port is not in use.\<close>

lemma free_slot_unused:
  assumes "io_inv s" and "\<not> bEnableThumbNailMode s" and "i < length (pOutputBuffers s)" and "pOutputBuffers s ! i \<notin># held_out s"
  shows "\<not> outBufferUseFlag s ! i"
  using held_native_clear[of i "pOutputBuffers s" "outBufferUseFlag s"] assms
  by (auto simp: io_inv_def out_pool_def held_out_def)

lemma io_step_new_slot:
  assumes "find_slot (\<lambda>q. q = NULL) (port_bufs k s) n = Some (Some i)"
  shows "io_step [] [] s (set_port_buf k i p s)"
  using find_slot_some[OF assms] free_slot_unused[of s i]
  by (intro io_step_slot) (auto simp: port_bufs_def io_inv_def split: if_splits)

lemma io_same_added: "buffer_added ty k s = Some t \<Longrightarrow> io_same s t"
  by (auto simp: buffer_added_def Let_def upd_port_def io_same_def split: bind_splits if_splits)

lemma io_same_mem [simp]:
  "io_same s (t\<lparr>hdr_mem := x\<rparr>) = io_same s t" "io_same s (t\<lparr>byte_mem := y\<rparr>) = io_same s t"
  "io_same s (t\<lparr>outUsableBuffers := n\<rparr>) = io_same s t" "io_same s (t\<lparr>hBufAllocSem := m\<rparr>) = io_same s t"
  "io_same s (upd_port k f t) = io_same s t"
  by (simp_all add: io_same_def upd_port_def)

lemma io_step_Use:
  assumes "NX_VidDec_UseBuffer p port app sz buf s = Some (e, h, t)"
  shows "io_step [] [] s t"
proof -
  let ?k = "port_of port"
  from assms consider "t = s" | i where "find_slot (\<lambda>q. q = NULL) (port_bufs ?k s) (unat (nBufferCountActual (pPort s ?k))) = Some (Some i)"
      "t = set_port_buf ?k i p s \<or> (\<exists>s1. io_same (set_port_buf ?k i p s) s1 \<and> buffer_added NX_BUFHEADER_TYPE_USEBUFFER ?k s1 = Some t)"
    unfolding NX_VidDec_UseBuffer_def Let_def
    by (fastforce split: if_splits bind_splits option.splits)
  then show ?thesis
  proof cases
    case 2
    then show ?thesis using io_step_new_slot io_same_added io_same_trans io_same_step io_step_two by metis
  qed (simp add: io_same_step)
qed

lemma io_step_Alloc:
  assumes "NX_VidDec_AllocateBuffer lib p pb port app sz s = Some (e, h, t)"
  shows "io_step [] [] s t"
proof -
  let ?k = "port_of port"
  from assms consider "io_same s t" | i where "find_slot (\<lambda>q. q = NULL) (port_bufs ?k s) (unat (nBufferCountActual (pPort s ?k))) = Some (Some i)"
      "io_same (set_port_buf ?k i p s) t \<or> (\<exists>s1. io_same (set_port_buf ?k i p s) s1 \<and> buffer_added NX_BUFHEADER_TYPE_ALLOCATED ?k s1 = Some t)"
    unfolding NX_VidDec_AllocateBuffer_def Let_def
    by (fastforce split: if_splits bind_splits option.splits)
  then show ?thesis
  proof cases
    case 2
    then show ?thesis using io_step_new_slot io_same_added io_same_trans io_same_step io_step_two by metis
  qed (simp add: io_same_step)
qed

lemma release_buffer_slot:
  assumes "release_buffer b k i s = Some t"
  obtains s1 where "io_same s s1" "io_same (set_port_buf k i NULL s1) t" "port_bufs k s1 = port_bufs k s"
proof -
  obtain h s0 where s0: "hdr_mem s b = Some h" "s0 = s \<or> s0 = s\<lparr>byte_mem := (byte_mem s)(pBuffer h := None)\<rparr>"
    and t: "t = upd_port k (\<lambda>q. q\<lparr>nAllocatedBuf := nAllocatedBuf q - 1\<rparr>) (set_port_buf k i NULL (s0\<lparr>hdr_mem := (hdr_mem s0)(b := None)\<rparr>)) \<or>
      (\<exists>m. t = (upd_port k (\<lambda>q. q\<lparr>bPopulated := False\<rparr>) (upd_port k (\<lambda>q. q\<lparr>nAllocatedBuf := nAllocatedBuf q - 1\<rparr>)
        (set_port_buf k i NULL (s0\<lparr>hdr_mem := (hdr_mem s0)(b := None)\<rparr>))))\<lparr>hBufAllocSem := m\<rparr>)"
    using assms unfolding release_buffer_def Let_def by (auto split: bind_splits if_splits)
  from t have "io_same (set_port_buf k i NULL (s0\<lparr>hdr_mem := (hdr_mem s0)(b := None)\<rparr>)) t" by auto
  moreover have "io_same s (s0\<lparr>hdr_mem := (hdr_mem s0)(b := None)\<rparr>)" using s0(2) by auto
  ultimately show thesis using that[of "s0\<lparr>hdr_mem := (hdr_mem s0)(b := None)\<rparr>"] s0(2) by auto
qed

lemma io_step_Free:
  assumes "NX_VidDec_FreeBuffer port b s = Some (e, t)" and "client_ok (CallFree port b) s"
  shows "io_step [] [] s t"
proof -
  let ?k = "port_of port"
  from assms(1) consider "t = s" | s1 where "free_event port s = Some s1" "t = s1" |
    s1 i where "free_event port s = Some s1"
      "find_slot (\<lambda>q. b = q) (port_bufs ?k s1) (unat (nBufferCountActual (pPort s1 ?k))) = Some (Some i)"
      "release_buffer b ?k i s1 = Some t"
    unfolding NX_VidDec_FreeBuffer_def Let_def by (auto split: if_splits bind_splits option.splits)
  then show ?thesis
  proof cases
    case 2
    then show ?thesis by (auto simp: free_event_def io_same_step split: if_splits dest: io_same_SendEvent)
  next
    case 3
    have c: "calls [] [] s s1" using 3(1) by (auto simp: free_event_def split: if_splits dest: calls_SendEvent)
    then have k: "bEnableThumbNailMode s1 = bEnableThumbNailMode s" "held_out s1 = held_out s"
      by (auto simp: calls_def core_def kept_def held_out_def)
    note i = find_slot_some[OF 3(2)]
    obtain s2 where s2: "io_same s1 s2" "io_same (set_port_buf ?k i NULL s2) t" "port_bufs ?k s2 = port_bufs ?k s1"
      using 3(3) by (rule release_buffer_slot)
    have "held_out s2 = held_out s1" using s2(1) by (simp add: io_same_def held_out_def)
    moreover have "b = pOutputBuffers s2 ! i \<and> i < length (pOutputBuffers s2)" if "?k \<noteq> 0"
      using i that s2(3) by (simp add: port_bufs_def)
    moreover have "bEnableThumbNailMode s2 = bEnableThumbNailMode s" using s2(1) k(1) by (simp add: io_same_def)
    moreover have "?k \<noteq> 0 \<longleftrightarrow> port \<noteq> 0" by (simp add: port_of_def)
    ultimately have "io_step [] [] s2 (set_port_buf ?k i NULL s2)"
      using assms(2) k(2) i s2(3) free_slot_unused[of s2 i] by (intro io_step_slot) auto
    then show ?thesis
      using calls_io_same[OF c] s2(1,2) io_same_trans io_same_step io_step_two by metis
  qed (simp add: io_same_step)
qed

lemma io_same_Send: "NX_BaseSendCommand p c n dat s = Some (e, t) \<Longrightarrow> io_same s t"
  by (auto simp: NX_BaseSendCommand_def Let_def io_same_def split: if_splits bind_splits)

lemma io_same_BaseSet: "NX_BaseSetParameter d s = (e, t) \<Longrightarrow> io_same s t"
  by (auto simp: NX_BaseSetParameter_def Let_def split: if_splits OMX_PORTDOMAINTYPE.splits)

lemma io_same_size [simp]: "io_same s (t\<lparr>width := w, height := h\<rparr>) = io_same s t"
  by (simp add: io_same_def)

lemma io_same_PortDefinition:
  assumes "SetParameter_PortDefinition d s = (e, t)"
  shows "io_same s t"
proof -
  obtain e1 s1 where b: "NX_BaseSetParameter d s = (e1, s1)" by (metis surj_pair)
  from io_same_BaseSet[OF b] have "io_same s s1" .
  moreover have "io_same s1 t"
    using assms b by (simp add: SetParameter_PortDefinition_def set_out_buffers_def set_out_size_def Let_def split: if_splits) auto
  ultimately show ?thesis by (rule io_same_trans)
qed

lemma io_same_codec [simp]: "io_same s (set_input_codec c i s)" "io_same s ((set_input_codec c i s)\<lparr>codecTag := n\<rparr>)"
  "io_same s ((set_input_codec c i s)\<lparr>bXMSWMVType := x\<rparr>)"
  by (simp_all add: set_input_codec_def io_same_def)

lemma io_same_Role:
  assumes "SetParameter_Role r s = (e, t)"
  shows "io_same s t"
proof -
  have branch: "pred_option (io_same s) (if P then Some s' else x)" if "io_same s s'" "pred_option (io_same s) x" for P s' x
    using that by simp
  obtain x where x: "pred_option (io_same s) x"
    "(case x of None \<Rightarrow> (OMX_ErrorBadParameter, s)
      | Some s \<Rightarrow> (OMX_ErrorNone, s\<lparr>outputFormat := (outputFormat s)\<lparr>fmt_eCompressionFormat := OMX_VIDEO_CodingUnused,
          fmt_eColorFormat := OMX_COLOR_FormatYUV420Planar, fmt_nPortIndex := 1\<rparr>, compRole := r\<rparr>)) = (e, t)"
    using assms unfolding SetParameter_Role_def Let_def
    by (rule that[rotated]) (intro branch; simp)
  then show ?thesis by (cases x) (auto simp: io_same_def)
qed

text \<open>A change of the mode of the output port.\<close>

lemma no_outputs_held:
  assumes "no_outputs s" and "length (outBufferUseFlag s) = length (pOutputBuffers s)"
  shows "held_out s = {#}"
proof (cases "bEnableThumbNailMode s")
  case False
  have "filter snd (zip (pOutputBuffers s) (outBufferUseFlag s)) = []"
    using assms(1) by (auto simp: no_outputs_def filter_empty_conv dest: set_zip_rightD)
  with False show ?thesis by (simp add: held_out_def held_native_def)
qed (use assms in \<open>simp add: held_out_def no_outputs_def\<close>)

lemma io_step_mode:
  assumes "no_outputs s" and "io_same (s\<lparr>bEnableThumbNailMode := b\<rparr>) t"
  shows "io_step [] [] s t"
  unfolding io_step_def
proof
  assume inv: "io_inv s"
  let ?t = "s\<lparr>bEnableThumbNailMode := b\<rparr>"
  have "held_out s = {#}" "held_out ?t = {#}"
    using no_outputs_held[of s] no_outputs_held[of ?t] assms(1) inv by (simp_all add: no_outputs_def io_inv_def out_pool_def)
  with inv have "io_inv ?t" "in_view ?t = in_view s" "out_view ?t = out_view s"
    by (cases b; simp add: io_inv_def in_ready_def out_pool_def in_view_def out_view_def)+
  with io_same_step[OF assms(2)] show "io_inv t \<and> in_view t = in_view s @ [] \<and> out_view t = out_view s + mset []"
    by (simp add: io_step_def)
qed

lemma io_step_Set:
  assumes "NX_VidDec_SetParameter par s = Some (e, t)" and "client_ok (CallSet par) s"
  shows "io_step [] [] s t"
proof (cases par)
  case (ParamEnableNativeBuffers port en)
  with assms have "t = s \<or> io_same (s\<lparr>bEnableThumbNailMode := False\<rparr>) t" "no_outputs s"
    by (auto simp: NX_VidDec_SetParameter_def io_same_def split: if_splits)
  then show ?thesis using io_step_mode io_same_step[OF io_same_refl] by blast
next
  case ParamThumbnailMode
  with assms have "io_same (s\<lparr>bEnableThumbNailMode := True\<rparr>) t" "no_outputs s"
    by (auto simp: NX_VidDec_SetParameter_def io_same_def set_out_buffers_def set_out_size_def upd_port_def)
  then show ?thesis using io_step_mode by blast
qed (use assms(1) in \<open>auto simp: NX_VidDec_SetParameter_def SetParameter_Extradata_def Let_def io_same_def
    intro!: io_same_step dest: io_same_Role io_same_PortDefinition split: if_splits bind_splits\<close>)

lemma io_step_client:
  assumes "client_step lib c s = Some (e, t)" and "client_ok c s"
  shows "io_step (taken_in c e) (taken_out c e) s t"
proof (cases c)
  case (CallEmpty b)
  with assms io_step_Empty[of b s e t] show ?thesis by simp
next
  case (CallFill b)
  with assms io_step_Fill[of b s e t] show ?thesis by simp
next
  case (CallCallbacks cb dat)
  with assms show ?thesis by (auto simp: NX_BaseSetCallbacks_def io_same_def intro!: io_same_step)
qed (use assms in \<open>auto intro: io_step_Use io_step_Alloc io_step_Free io_step_Set io_same_step[OF io_same_Send]
    io_same_step[OF io_same_mem(1)[THEN iffD2]] io_same_step[OF io_same_mem(2)[THEN iffD2]]\<close>)

section \<open>The threads and the buffers\<close>

lemma io_step_turn:
  assumes "buffer_turn lib libE s = Some (pc, t)"
  shows "io_step [] [] s t"
proof -
  obtain err s1 where s1: "(if \<not> bStartEoS s \<and> NX_GetQueueCnt (pInputPortQueue s) > 0 \<and> out_available s
      then NX_VidDec_Transform lib s else Some (0, s)) = Some (err, s1)"
    and t: "t = s1 \<or> out_available s1 \<and> processEOS libE s1 = Some t"
    using assms unfolding buffer_turn_def by (auto split: bind_splits if_splits)
  have d: "io_step [] [] s s1"
    using s1 by (auto simp: NX_VidDec_Transform_def io_same_step split: if_splits intro: io_step_decode)
  from t show ?thesis
  proof
    assume eos: "out_available s1 \<and> processEOS libE s1 = Some t"
    have "io_step [] [] s1 t"
      unfolding io_step_def
    proof
      assume inv: "io_inv s1"
      with eos have "eos_ready s1" by (auto simp: eos_ready_def out_available_def io_inv_def)
      with eos have "io_step [] [] s1 t" using io_step_out_step1[OF out_step_processEOS] by blast
      with inv show "io_inv t \<and> in_view t = in_view s1 @ [] \<and> out_view t = out_view s1 + mset []" by (simp add: io_step_def)
    qed
    with d show ?thesis by (rule io_step_two)
  qed (use d in simp)
qed

lemma io_same_sems [simp]:
  "io_same s (t\<lparr>hBufCtrlSem := c\<rparr>) = io_same s t" "io_same s (t\<lparr>hBufChangeSem := m\<rparr>) = io_same s t"
  "io_same s (t\<lparr>hSemCmd := c\<rparr>) = io_same s t" "io_same s (t\<lparr>hSemCmdWait := m\<rparr>) = io_same s t"
  "io_same s (t\<lparr>cmdQueue := q\<rparr>) = io_same s t" "io_same s (free_cmd p t) = io_same s t"
  by (simp_all add: io_same_def free_cmd_def)

lemma io_step_buf:
  assumes "buf_step lib libE pc s = Some (pc', t)"
  shows "io_step [] [] s t"
proof (cases "pc = BufLocked")
  case False
  with assms show ?thesis
    by (cases pc) (auto intro!: io_same_step dest: io_same_SendEvent split: bind_splits if_splits)
qed (use assms in \<open>simp add: io_step_turn\<close>)

lemma io_step_free_cmd: "io_step [] [] s t \<Longrightarrow> io_step [] [] s (free_cmd p t)"
  by (rule io_step_two) (auto intro: io_same_step)

lemma io_step_cmd:
  assumes "cmd_step lib joined pc s = Some (pc', t, created)"
  shows "io_step [] [] s t"
proof (cases pc)
  case (CmdTest p)
  with assms show ?thesis by (auto simp: Let_def intro!: io_same_step split: if_splits prod.splits)
next
  case (CmdProc p)
  with assms show ?thesis
    by (auto split: bind_splits option.splits dest!: io_step_CommandProc intro: io_step_free_cmd)
next
  case (CmdTrans p tp)
  show ?thesis
  proof (cases tp)
    case (TransDone e)
    with assms CmdTrans show ?thesis
      by (auto simp: finish_state_set_def split: bind_splits intro: io_step_free_cmd io_step_complete)
  qed (use assms CmdTrans in \<open>auto simp del: transition_step.simps split: bind_splits intro: io_step_transition\<close>)
qed (use assms in \<open>auto intro!: io_same_step split: bind_splits\<close>)

section \<open>Conservation of the buffers\<close>

definition account :: "dec_sys \<Rightarrow> bool" where
  "account S \<longleftrightarrow> io_inv (comp S) \<and> in_view (comp S) = ins S \<and> out_view (comp S) = mset (outs S)"

lemma account_step: "dec_step S T \<Longrightarrow> account S \<Longrightarrow> account T"
proof (induction rule: dec_step.induct)
  case (client c S lib e t)
  from io_step_client[OF client(2,1)] client(3) show ?case by (simp add: account_def io_step_def)
next
  case (buffer lib libE S pc t)
  from io_step_buf[OF buffer(1)] buffer(2) show ?case by (simp add: account_def io_step_def)
next
  case (command lib S pc t created)
  from io_step_cmd[OF command(1)] command(2) show ?case by (simp add: account_def io_step_def)
qed

lemma account_reach: "dec_reach S0 S \<Longrightarrow> account S0 \<Longrightarrow> account S"
  by (induction rule: dec_reach.induct) (auto intro: account_step)

lemma component_init_result:
  assumes "NX_VideoDecoder_ComponentInit num maxn al acb h = (OMX_ErrorNone, Some s, n)"
  shows "num < maxn \<and> al \<and> acb \<and> n = num + 1 \<and>
    s = init_component num (zero_viddec\<lparr>hComp := h, nNumPort := 0,
      pCallbacks := \<lparr>cbEventHandler = NULL, cbEmptyBufferDone = NULL, cbFillBufferDone = NULL\<rparr>,
      eCurState := OMX_StateLoaded, eNewState := OMX_StateLoaded\<rparr>)"
  using assms by (auto simp: NX_VideoDecoder_ComponentInit_def NX_BaseComponentInit_def Let_def split: if_splits)

lemma init_component_account:
  assumes "trace s = []" and "outBufferUseFlag s = replicate NX_OMX_MAX_BUF False" and "length (pOutputBuffers s) = NX_OMX_MAX_BUF"
  shows "account (created_sys (init_component num s)) \<and> no_outputs (init_component num s)"
  using assms init_queue_32
  by (simp add: account_def created_sys_def io_inv_def in_ready_def out_pool_def held_out_def in_view_def out_view_def
      count_if_replicate no_outputs_def init_component_def)

lemma created_account:
  assumes "NX_VideoDecoder_ComponentInit num maxn al acb h = (OMX_ErrorNone, Some s, n)"
  shows "account (created_sys s)"
proof -
  have s: "s = init_component num (zero_viddec\<lparr>hComp := h, nNumPort := 0,
      pCallbacks := \<lparr>cbEventHandler = NULL, cbEmptyBufferDone = NULL, cbFillBufferDone = NULL\<rparr>,
      eCurState := OMX_StateLoaded, eNewState := OMX_StateLoaded\<rparr>)"
    using component_init_result[OF assms] by simp
  show ?thesis unfolding s by (rule init_component_account[THEN conjunct1]) (simp_all add: zero_viddec_def)
qed

section \<open>Control\<close>

text \<open>What the threads synchronise on: the state, the order to the buffer thread and its two semaphores.\<close>

definition ctl where
  "ctl s = (eCurState s, eCmdBufThread s, hBufCtrlSem s, hBufChangeSem s)"

definition sem_live :: "NX_SEMAPHORE option \<Rightarrow> bool" where
  "sem_live h \<longleftrightarrow> (\<exists>m. h = Some m \<and> 0 < nMaxValue m)"

definition sem_token :: "NX_SEMAPHORE option \<Rightarrow> bool" where
  "sem_token h \<longleftrightarrow> (\<exists>m. h = Some m \<and> nValue m \<noteq> 0)"

definition sem_up :: "NX_SEMAPHORE option \<Rightarrow> NX_SEMAPHORE option \<Rightarrow> bool" where
  "sem_up h h' \<longleftrightarrow> h' = h \<or> post_handle h = Some h'"

lemma post_token: "nValue (snd (NX_PostSem m)) \<noteq> 0" if "0 < nMaxValue m \<or> nValue m \<noteq> 0"
  using that word_inc_le[of "nValue m" "nMaxValue m"] by (auto simp: NX_PostSem_def word_le_nat_alt word_less_nat_alt)

lemma post_live: "sem_live h \<Longrightarrow> \<exists>h'. post_handle h = Some h' \<and> sem_live h' \<and> sem_token h'"
  using post_token by (auto simp: sem_live_def sem_token_def post_handle_def)

lemma post_handle_up: "post_handle h = Some h' \<Longrightarrow> sem_live h \<Longrightarrow> sem_live h' \<and> sem_token h'"
  using post_live by fastforce

lemma post_handle_None [simp]: "post_handle None = None"
  by (simp add: post_handle_def)

lemma sem_up_live: "sem_up h h' \<Longrightarrow> sem_live h \<Longrightarrow> sem_live h'"
  using post_handle_up by (auto simp: sem_up_def)

lemma sem_up_token: "sem_up h h' \<Longrightarrow> sem_token h \<Longrightarrow> sem_token h'"
  using post_token by (auto simp: sem_up_def sem_token_def post_handle_def)

lemma sem_up_None: "sem_up None h' \<longleftrightarrow> h' = None"
  by (auto simp: sem_up_def)

lemma pend_live: "pend_handle h = Some h' \<Longrightarrow> sem_live h \<Longrightarrow> sem_live h'"
  by (auto simp: pend_handle_def sem_live_def dest: pend_enter_value split: option.splits)

lemma pend_token: "sem_token h \<longleftrightarrow> pend_handle h \<noteq> None"
  by (cases h) (auto simp: pend_handle_def sem_token_def NX_PendSem_enter_def)

definition ctl_up :: "NX_VIDDEC \<Rightarrow> NX_VIDDEC \<Rightarrow> bool" where
  "ctl_up s t \<longleftrightarrow> eCurState t = eCurState s \<and> eCmdBufThread t = eCmdBufThread s \<and>
     sem_up (hBufCtrlSem s) (hBufCtrlSem t) \<and> sem_up (hBufChangeSem s) (hBufChangeSem t)"

lemma ctl_up_same: "ctl t = ctl s \<Longrightarrow> ctl_up s t"
  by (simp add: ctl_def ctl_up_def sem_up_def)

lemma ctl_kept: "kept t = kept s \<Longrightarrow> ctl t = ctl s"
  by (simp add: kept_def ctl_def)

lemma ctl_fields [simp]:
  "ctl (s\<lparr>hdr_mem := x1\<rparr>) = ctl s" "ctl (s\<lparr>byte_mem := x2\<rparr>) = ctl s" "ctl (s\<lparr>outUsableBuffers := x3\<rparr>) = ctl s"
  "ctl (s\<lparr>hBufAllocSem := x4\<rparr>) = ctl s" "ctl (upd_port k f s) = ctl s" "ctl (set_port_buf k i p s) = ctl s"
  "ctl (set_input_codec c j s) = ctl s" "ctl (s\<lparr>codecTag := x5\<rparr>) = ctl s" "ctl (s\<lparr>bXMSWMVType := x6\<rparr>) = ctl s"
  "ctl (s\<lparr>width := w, height := h\<rparr>) = ctl s" "ctl (emit e s) = ctl s" "ctl (free_cmd p s) = ctl s"
  "ctl (s\<lparr>hSemCmd := x7\<rparr>) = ctl s" "ctl (s\<lparr>hSemCmdWait := x8\<rparr>) = ctl s" "ctl (s\<lparr>cmdQueue := x9\<rparr>) = ctl s"
  "ctl (s\<lparr>outputFormat := x10, compRole := x11\<rparr>) = ctl s" "ctl (s\<lparr>pBufQueue := x12\<rparr>) = ctl s"
  by (simp_all add: ctl_def upd_port_def set_port_buf_def set_input_codec_def emit_def free_cmd_def)

lemma ctl_Use: "NX_VidDec_UseBuffer p port app sz buf s = Some (e, h, t) \<Longrightarrow> ctl t = ctl s"
  by (auto simp: NX_VidDec_UseBuffer_def buffer_added_def Let_def split: bind_splits if_splits option.splits)

lemma ctl_Alloc: "NX_VidDec_AllocateBuffer lib p pb port app sz s = Some (e, h, t) \<Longrightarrow> ctl t = ctl s"
  by (auto simp: NX_VidDec_AllocateBuffer_def buffer_added_def Let_def split: bind_splits if_splits option.splits)

lemma ctl_Free: "NX_VidDec_FreeBuffer port b s = Some (e, t) \<Longrightarrow> ctl t = ctl s"
  by (auto simp: NX_VidDec_FreeBuffer_def free_event_def SendEvent_def release_buffer_def Let_def
      split: bind_splits if_splits option.splits)

lemma ctl_Send: "NX_BaseSendCommand p c n dat (s :: NX_VIDDEC) = Some (e, t) \<Longrightarrow> ctl t = ctl s"
  by (auto simp: NX_BaseSendCommand_def Let_def ctl_def split: if_splits bind_splits)

lemma ctl_BaseSet: "NX_BaseSetParameter d (s :: NX_VIDDEC) = (e, t) \<Longrightarrow> ctl t = ctl s"
  by (auto simp: NX_BaseSetParameter_def Let_def split: if_splits OMX_PORTDOMAINTYPE.splits)

lemma ctl_PortDefinition:
  assumes "SetParameter_PortDefinition d s = (e, t)"
  shows "ctl t = ctl s"
proof -
  obtain e1 s1 where b: "NX_BaseSetParameter d s = (e1, s1)" by (metis surj_pair)
  have "ctl t = ctl s1"
    using assms b by (simp add: SetParameter_PortDefinition_def set_out_buffers_def set_out_size_def Let_def split: if_splits) auto
  with ctl_BaseSet[OF b] show ?thesis by simp
qed

lemma ctl_Role:
  assumes "SetParameter_Role r s = (e, t)"
  shows "ctl t = ctl s"
proof -
  have branch: "pred_option (\<lambda>x. ctl x = ctl s) (if P then Some s' else x)"
    if "ctl s' = ctl s" "pred_option (\<lambda>x. ctl x = ctl s) x" for P s' x using that by simp
  obtain x where x: "pred_option (\<lambda>x. ctl x = ctl s) x"
    "(case x of None \<Rightarrow> (OMX_ErrorBadParameter, s)
      | Some s \<Rightarrow> (OMX_ErrorNone, s\<lparr>outputFormat := (outputFormat s)\<lparr>fmt_eCompressionFormat := OMX_VIDEO_CodingUnused,
          fmt_eColorFormat := OMX_COLOR_FormatYUV420Planar, fmt_nPortIndex := 1\<rparr>, compRole := r\<rparr>)) = (e, t)"
    using assms unfolding SetParameter_Role_def Let_def
    by (rule that[rotated]) (intro branch; simp)
  then show ?thesis by (cases x) auto
qed

lemma ctl_Set: "NX_VidDec_SetParameter par s = Some (e, t) \<Longrightarrow> ctl t = ctl s"
  by (cases par) (auto simp: NX_VidDec_SetParameter_def SetParameter_Extradata_def set_out_buffers_def set_out_size_def Let_def
      dest: ctl_Role ctl_PortDefinition split: if_splits bind_splits, auto simp: ctl_def upd_port_def)

lemma ctl_up_Empty: "NX_VidDec_EmptyThisBuffer b s = Some (e, t) \<Longrightarrow> ctl_up s t"
  by (auto simp: NX_VidDec_EmptyThisBuffer_def ctl_up_def sem_up_def split: prod.splits bind_splits if_splits)

lemma ctl_fill_slots: "ctl (fold (fill_slot b) is s) = ctl s"
  by (induction "is" arbitrary: s) (auto simp: fill_slot_def ctl_def emit_def)

lemma ctl_up_Fill: "NX_VidDec_FillThisBuffer b s = Some (e, t) \<Longrightarrow> ctl_up s t"
  using ctl_fill_slots[of b "[0..<NX_OMX_MAX_BUF]" s]
  by (auto simp: NX_VidDec_FillThisBuffer_def ctl_up_def sem_up_def ctl_def split: prod.splits bind_splits if_splits)

lemma ctl_up_client: "client_step lib c s = Some (e, t) \<Longrightarrow> ctl_up s t"
  by (cases c) (auto intro: ctl_up_Empty ctl_up_Fill ctl_up_same simp: ctl_Use ctl_Alloc ctl_Free ctl_Send ctl_Set NX_BaseSetCallbacks_def,
      auto simp: ctl_up_def sem_up_def)

text \<open>
  The buffer thread is gone and so are its semaphores; it has been created and its semaphores exist; it is on
  its way to the end, with a token where it pends.
\<close>

definition stopped :: "buf_pc \<Rightarrow> NX_VIDDEC \<Rightarrow> bool" where
  "stopped b s \<longleftrightarrow> hBufCtrlSem s = None \<and> hBufChangeSem s = None \<and> (b = BufNone \<or> b = BufDone)"

definition started :: "buf_pc \<Rightarrow> NX_VIDDEC \<Rightarrow> bool" where
  "started b s \<longleftrightarrow> sem_live (hBufCtrlSem s) \<and> sem_live (hBufChangeSem s) \<and> b \<noteq> BufNone"

definition joining :: "buf_pc \<Rightarrow> NX_VIDDEC \<Rightarrow> bool" where
  "joining b s \<longleftrightarrow> eCmdBufThread s = NX_THREAD_CMD_EXIT \<and> (b = BufPendCtrl \<longrightarrow> sem_token (hBufCtrlSem s)) \<and>
     (b = BufPendChange \<longrightarrow> sem_token (hBufChangeSem s))"

definition settled :: "buf_pc \<Rightarrow> NX_VIDDEC \<Rightarrow> bool" where
  "settled b s \<longleftrightarrow> eCurState s = OMX_StateLoaded \<and> stopped b s \<or>
     eCurState s \<in> {OMX_StateIdle, OMX_StateExecuting, OMX_StatePause} \<and> started b s"

text \<open>What holds at each place of the command thread.\<close>

fun cmd_ok :: "cmd_pc \<Rightarrow> buf_pc \<Rightarrow> NX_VIDDEC \<Rightarrow> bool" where
  "cmd_ok (CmdTrans p (TransAlloc i)) b s \<longleftrightarrow> eCurState s = OMX_StateLoaded \<and> stopped b s"
| "cmd_ok (CmdTrans p TransJoin) b s \<longleftrightarrow> eCurState s = OMX_StateIdle \<and> started b s \<and> joining b s"
| "cmd_ok (CmdTrans p (TransFree i)) b s \<longleftrightarrow> eCurState s = OMX_StateIdle \<and> stopped b s"
| "cmd_ok (CmdTrans p TransOpen) b s \<longleftrightarrow> eCurState s = OMX_StateExecuting \<and> started b s"
| "cmd_ok (CmdTrans p TransReturn) b s \<longleftrightarrow> eCurState s = OMX_StateExecuting \<and> started b s"
| "cmd_ok (CmdTrans p (TransDone e)) b s \<longleftrightarrow> settled b s"
| "cmd_ok CmdStart b s \<longleftrightarrow> settled b s"
| "cmd_ok (CmdPend p) b s \<longleftrightarrow> settled b s"
| "cmd_ok (CmdTest p) b s \<longleftrightarrow> settled b s"
| "cmd_ok (CmdProc p) b s \<longleftrightarrow> settled b s"
| "cmd_ok CmdDone b s \<longleftrightarrow> settled b s"

lemma ctl_up_ok:
  assumes "ctl_up s t"
  shows "stopped b s \<Longrightarrow> stopped b t" "started b s \<Longrightarrow> started b t" "joining b s \<Longrightarrow> joining b t" "settled b s \<Longrightarrow> settled b t"
proof -
  note u = assms[unfolded ctl_up_def]
  show st: "stopped b s \<Longrightarrow> stopped b t" using u by (auto simp: stopped_def sem_up_None)
  show sa: "started b s \<Longrightarrow> started b t" using u by (auto simp: started_def intro: sem_up_live)
  show "joining b s \<Longrightarrow> joining b t" using u by (auto simp: joining_def intro: sem_up_token)
  show "settled b s \<Longrightarrow> settled b t" using u st sa by (auto simp: settled_def)
qed

lemma ctl_up_state: "ctl_up s t \<Longrightarrow> eCurState t = eCurState s"
  by (simp add: ctl_up_def)

lemma ctl_up_cmd_ok: "ctl_up s t \<Longrightarrow> cmd_ok c b s \<Longrightarrow> cmd_ok c b t"
  by (induction c b s rule: cmd_ok.induct) (auto dest: ctl_up_ok ctl_up_state)

lemma kept_turn:
  assumes "io_inv s" and "buffer_turn lib libE s = Some (b, t)"
  shows "kept t = kept s \<and> (b = BufInner \<or> b = BufError)"
proof -
  obtain err s1 where s1: "(if \<not> bStartEoS s \<and> NX_GetQueueCnt (pInputPortQueue s) > 0 \<and> out_available s
      then NX_VidDec_Transform lib s else Some (0, s)) = Some (err, s1)"
    and t: "t = s1 \<or> out_available s1 \<and> processEOS libE s1 = Some t" "b = BufInner \<or> b = BufError"
    using assms(2) unfolding buffer_turn_def by (auto split: bind_splits if_splits)
  have k: "kept s1 = kept s \<and> io_inv s1"
  proof (cases "(err, s1) = (0, s)")
    case False
    with s1 have d: "decodeVideoFrame lib s = Some (err, s1)" by (auto simp: NX_VidDec_Transform_def split: if_splits)
    have "DecodeFrame s \<noteq> None" using d False by (cases "DecodeFrame s") (auto simp: decodeVideoFrame_def)
    then have "kept s1 = kept s" using decode_contract[OF _ d] assms(1) by (auto simp: io_inv_def frame_contract_def)
    then show ?thesis using io_step_decode[OF d] assms(1) by (simp add: io_step_def)
  qed (use assms in simp)
  from t(1) show ?thesis
  proof
    assume eos: "out_available s1 \<and> processEOS libE s1 = Some t"
    with k have "eos_ready s1" by (auto simp: eos_ready_def out_available_def io_inv_def)
    with eos have "kept t = kept s1" using out_step_processEOS by (auto simp: out_step1_def out_step_def)
    with k t(2) show ?thesis by simp
  qed (use k t(2) in simp)
qed

lemma buf_step_control:
  assumes "buf_step lib libE b s = Some (b', t)" and "io_inv s" and "started b s"
  shows "eCurState t = eCurState s \<and> started b' t \<and> (joining b s \<longrightarrow> joining b' t) \<and> b \<noteq> BufDone"
proof (cases "b = BufLocked")
  case True
  with assms(1) have turn: "buffer_turn lib libE s = Some (b', t)" by simp
  from kept_turn[OF assms(2) turn] ctl_kept[of t s] assms(3) True show ?thesis
    by (auto simp: ctl_def started_def joining_def)
next
  case False
  with assms(1,3) show ?thesis
    by (cases b) (auto simp: started_def joining_def SendEvent_def emit_def split: bind_splits if_splits
        dest: post_handle_up pend_live)
qed

text \<open>The commands that do not change the state.\<close>

lemma ctl_up_CommandProc:
  assumes "NX_VidDec_CommandProc c n dat s = Some (None, t)"
  shows "ctl_up s t"
proof (cases c)
  case OMX_CommandPortEnable
  with assms obtain s1 h where s1: "s1 = (if n = 0 then set_enabled 0 True s else if n = 1 then set_enabled 1 True s
      else if n = OMX_ALL then set_enabled 1 True (set_enabled 0 True s) else s)"
    and s: "post_handle (hBufCtrlSem s1) = Some h" "send_complete OMX_CommandPortEnable n dat (s1\<lparr>hBufCtrlSem := h\<rparr>) = Some t"
    by (auto simp: NX_VidDec_CommandProc_def proc_enable_def Let_def split: bind_splits)
  have "kept s1 = kept s" by (simp add: s1)
  note s = this s
  from kept_send_complete[OF s(3)] have "ctl t = ctl (s1\<lparr>hBufCtrlSem := h\<rparr>)" by (rule ctl_kept)
  with s(2) ctl_kept[OF s(1)] show ?thesis by (auto simp: ctl_up_def ctl_def sem_up_def)
qed (use assms in \<open>auto simp: NX_VidDec_CommandProc_def intro!: ctl_up_same ctl_kept
    dest: kept_proc_flush kept_proc_disable kept_SendEvent split: if_splits bind_splits\<close>)

lemma ctl_calls: "calls a b s t \<Longrightarrow> ctl t = ctl s"
  by (rule ctl_kept[OF calls_kept])

lemma sem_live_new: "sem_live (create_sem 0 1)" "sem_live (create_sem 0 (word_of_nat (VPUDEC_VID_NUM_PORT * 1024)))"
  by (simp_all add: sem_live_def create_sem_def NX_CreateSem_def)

lemma begins_ok:
  assumes "trans_begins cur new s pc t" and "cur = eCurState s" and "settled b s"
  shows "cmd_ok (CmdTrans p pc) b t"
  using assms
proof (cases rule: trans_begins.cases)
  case (to_join m c)
  with assms(2,3) show ?thesis
    by (auto simp: settled_def started_def joining_def dest: post_handle_up)
next
  case (to_open c)
  with assms(2,3) show ?thesis by (auto simp: settled_def started_def dest: post_handle_up)
next
  case (to_return m)
  with assms(2,3) show ?thesis by (auto simp: settled_def started_def dest: post_handle_up)
next
  case direct
  with assms(2,3) show ?thesis by (auto simp: settled_def started_def direct_edges_def)
qed (auto simp: settled_def)

lemma ctl_pend_alloc: "pend_alloc i (s :: NX_VIDDEC) = Some t \<Longrightarrow> ctl t = ctl s"
  by (auto simp: pend_alloc_def split: if_splits bind_splits)

lemma ok_by_ctl:
  assumes "ctl t = ctl s"
  shows "stopped b t = stopped b s" "started b t = started b s" "settled b t = settled b s"
  using assms by (simp_all add: ctl_def stopped_def started_def settled_def)

lemma settled_fields [simp]:
  "settled b (s\<lparr>cmdQueue := q\<rparr>) = settled b s" "settled b (free_cmd p s) = settled b s"
  "settled b (s\<lparr>hSemCmd := c\<rparr>) = settled b s" "settled b (s\<lparr>hSemCmdWait := c\<rparr>) = settled b s"
  by (rule ok_by_ctl, simp)+

lemma transition_ok:
  assumes "transition_step lib (b = BufDone) pc s = Some (pc', t, created)" and "cmd_ok (CmdTrans p pc) b s"
  shows "cmd_ok (CmdTrans p pc') (if created then BufStart else b) t"
proof (cases pc)
  case (TransAlloc i)
  show ?thesis
  proof (cases "i < nNumPort s")
    case True
    with assms TransAlloc have "pend_alloc i s = Some t" "pc' = TransAlloc (i + 1)" "\<not> created" by (auto split: bind_splits)
    moreover from this have c: "ctl t = ctl s" by (simp add: ctl_pend_alloc)
    ultimately show ?thesis using assms(2) TransAlloc ok_by_ctl(1)[OF c, of b] c by (simp add: ctl_def)
  next
    case False
    with assms TransAlloc show ?thesis using sem_live_new by (auto simp: settled_def started_def)
  qed
next
  case TransJoin
  with assms show ?thesis by (auto simp: stopped_def NX_DestroySem_def split: if_splits)
next
  case (TransFree i)
  show ?thesis
  proof (cases "i < nNumPort s")
    case True
    with assms TransFree obtain s1 where "pend_alloc i s = Some s1" "pc' = TransFree (i + 1)" "\<not> created"
      "t = (if eDir (pPort s1 i) = OMX_DirOutput then s1\<lparr>outUsableBuffers := 0\<rparr> else s1)" by (auto split: bind_splits)
    moreover from this ctl_pend_alloc[of i s s1] have c: "ctl t = ctl s" by simp
    ultimately show ?thesis using assms(2) TransFree ok_by_ctl(1)[OF c, of b] c by (simp add: ctl_def)
  next
    case False
    then have t: "t = (closeVideoCodec s)\<lparr>eCurState := OMX_StateLoaded, bStartEoS := False\<rparr>" "pc' = TransDone OMX_ErrorNone" "\<not> created"
      using assms(1) TransFree by auto
    have "stopped b (closeVideoCodec s)" using ok_by_ctl(1)[OF ctl_calls[OF calls_close]] assms(2) TransFree by simp
    then show ?thesis by (simp add: t settled_def stopped_def)
  qed
next
  case TransOpen
  with assms have "t = snd (openVideoCodec lib s)" "pc' = TransDone OMX_ErrorNone" "\<not> created" by auto
  then show ?thesis using assms(2) TransOpen ctl_calls[OF calls_open, of lib s] by (auto simp: settled_def started_def ctl_def)
next
  case TransReturn
  with assms obtain s1 s2 where s: "drain_in False (NX_GetQueueCnt (pInputPortQueue s)) s = Some s1" "give_outputs False s1 = Some s2"
    "t = s2\<lparr>eCurState := OMX_StateIdle\<rparr>" "pc' = TransDone OMX_ErrorNone" "\<not> created" by (auto split: bind_splits)
  have "ctl s2 = ctl s" using kept_drain_in[OF s(1)] kept_give_outputs[OF s(2)] ctl_kept by metis
  with assms(2) TransReturn s(3-5) show ?thesis by (auto simp: settled_def started_def ctl_def)
qed (use assms in simp)

lemma cmd_step_ok:
  assumes "cmd_step lib (b = BufDone) c s = Some (c', t, created)" and "cmd_ok c b s"
  shows "cmd_ok c' (if created then BufStart else b) t"
proof (cases c)
  case (CmdTest p)
  with assms show ?thesis by (auto simp: Let_def split: if_splits prod.splits)
next
  case (CmdProc p)
  with assms(1) obtain m where cm: "cmd_mem s p = Some m" by (cases "cmd_mem s p") auto
  with assms(1) CmdProc obtain r s1 where m: "NX_VidDec_CommandProc (eCmd m) (nParam1 m) (pCmdData m) s = Some (r, s1)"
    by (cases "NX_VidDec_CommandProc (eCmd m) (nParam1 m) (pCmdData m) s") auto
  from assms(1) CmdProc cm this have m': "\<not> created"
    "case r of None \<Rightarrow> c' = CmdPend p \<and> t = free_cmd p s1 | Some pc \<Rightarrow> c' = CmdTrans p pc \<and> t = s1"
    by (auto split: option.splits)
  note m = m m'
  show ?thesis
  proof (cases r)
    case None
    with m ctl_up_ok(4)[OF ctl_up_CommandProc, of "eCmd m" "nParam1 m" "pCmdData m" s s1 b] assms(2) CmdProc show ?thesis
      by simp
  next
    case (Some pc)
    with m(1) have "NX_VidDec_StateTransition (eCurState s) (to_state (nParam1 m)) s = Some (pc, s1)"
      by (auto simp: NX_VidDec_CommandProc_def split: OMX_COMMANDTYPE.splits if_splits bind_splits)
    from begins_ok[OF StateTransition_begins[OF this] HOL.refl, of b p] m Some assms(2) CmdProc show ?thesis by simp
  qed
next
  case (CmdTrans p pc)
  show ?thesis
  proof (cases "\<exists>e. pc = TransDone e")
    case True
    then obtain e where e: "pc = TransDone e" ..
    with assms(1) CmdTrans obtain m where cm: "cmd_mem s p = Some m" by (cases "cmd_mem s p") auto
    with assms(1) CmdTrans e obtain s1 where m: "send_complete OMX_CommandStateSet (nParam1 m) (pCmdData m) s = Some s1"
      by (cases "finish_state_set (nParam1 m) (pCmdData m) s") (auto simp: finish_state_set_def)
    from assms(1) CmdTrans e cm this have m': "c' = CmdPend p" "t = free_cmd p s1" "\<not> created"
      by (auto simp: finish_state_set_def)
    note m = m m'
    from ok_by_ctl(3)[OF ctl_kept[OF kept_send_complete[OF m(1)]], of b] assms(2) CmdTrans e m(2-4) show ?thesis by simp
  next
    case False
    with assms(1) CmdTrans obtain pc' where "transition_step lib (b = BufDone) pc s = Some (pc', t, created)" "c' = CmdTrans p pc'"
      by (cases pc) (auto simp del: transition_step.simps split: bind_splits)
    with transition_ok assms(2) CmdTrans show ?thesis by simp
  qed
qed (use assms in \<open>auto split: bind_splits\<close>)

definition sys_ok :: "dec_sys \<Rightarrow> bool" where
  "sys_ok S \<longleftrightarrow> account S \<and> cmd_ok (cpc S) (bpc S) (comp S)"

lemma buf_step_ok:
  assumes "buf_step lib libE b s = Some (b', t)" and "io_inv s" and "cmd_ok c b s"
  shows "cmd_ok c b' t"
proof -
  have "b \<noteq> BufNone \<and> b \<noteq> BufDone" using assms(1) by (cases b) auto
  then have st: "started b s" using assms(3) by (induction c b s rule: cmd_ok.induct) (auto simp: stopped_def settled_def)
  note k = buf_step_control[OF assms(1,2) st]
  show ?thesis using assms(3) k \<open>b \<noteq> BufNone \<and> b \<noteq> BufDone\<close>
    by (induction c b s rule: cmd_ok.induct) (auto simp: stopped_def settled_def)
qed

lemma sys_ok_step: "dec_step S T \<Longrightarrow> sys_ok S \<Longrightarrow> sys_ok T"
proof (induction rule: dec_step.induct)
  case (client c S lib e t)
  from account_step[OF dec_step.client[OF client(1,2)]] ctl_up_cmd_ok[OF ctl_up_client[OF client(2)]] client(3)
  show ?case by (simp add: sys_ok_def)
next
  case (buffer lib libE S pc t)
  from account_step[OF dec_step.buffer[OF buffer(1)]] buf_step_ok[OF buffer(1)] buffer(2)
  show ?case by (simp add: sys_ok_def account_def)
next
  case (command lib S pc t created)
  from account_step[OF dec_step.command[OF command(1)]] cmd_step_ok[OF command(1)] command(2)
  show ?case by (simp add: sys_ok_def)
qed

lemma sys_ok_reach: "dec_reach S0 S \<Longrightarrow> sys_ok S0 \<Longrightarrow> sys_ok S"
  by (induction rule: dec_reach.induct) (auto intro: sys_ok_step)

lemma created_sys_ok:
  assumes "NX_VideoDecoder_ComponentInit num maxn al acb h = (OMX_ErrorNone, Some s, n)"
  shows "sys_ok (created_sys s)"
proof -
  have "eCurState s = OMX_StateLoaded" "hBufCtrlSem s = None" "hBufChangeSem s = None"
    using component_init_result[OF assms] by (simp_all add: init_component_def zero_viddec_def)
  then show ?thesis using created_account[OF assms] by (simp add: sys_ok_def created_sys_def settled_def stopped_def)
qed

end
