(* ===== verification/VidDecRun.thy ===== *)
theory VidDecRun
  imports VidDecThread
begin

text \<open>
  Properties of the video decoder as a system: what holds in every state that a client, the two threads and
  the decoder library can reach from the creation of the component, and runs that show what can go wrong.
\<close>

section \<open>Runs\<close>

text \<open>A run of the system for a given order of the steps, with the same library throughout.\<close>

datatype turn = ByClient client_call | ByBuffer | ByCommand

fun sys_step :: "vpu_lib \<Rightarrow> turn \<Rightarrow> dec_sys \<Rightarrow> dec_sys option" where
  "sys_step lib (ByClient c) S =
     (if client_ok c (comp S) then do {
        (e, t) \<leftarrow> client_step lib c (comp S);
        Some (S\<lparr>comp := t, ins := ins S @ taken_in c e, outs := outs S @ taken_out c e\<rparr>) }
      else None)"
| "sys_step lib ByBuffer S = do {
     (pc, t) \<leftarrow> buf_step lib lib (bpc S) (comp S);
     Some (S\<lparr>comp := t, bpc := pc\<rparr>) }"
| "sys_step lib ByCommand S = do {
     (pc, t, created) \<leftarrow> cmd_step lib (bpc S = BufDone) (cpc S) (comp S);
     Some (S\<lparr>comp := t, cpc := pc, bpc := (if created then BufStart else bpc S)\<rparr>) }"

fun sys_run :: "vpu_lib \<Rightarrow> turn list \<Rightarrow> dec_sys \<Rightarrow> dec_sys option" where
  "sys_run lib [] S = Some S"
| "sys_run lib (x # xs) S = do { S \<leftarrow> sys_step lib x S; sys_run lib xs S }"

lemma sys_step_step: "sys_step lib x S = Some T \<Longrightarrow> dec_step S T"
  by (cases x) (auto intro: dec_step.intros split: if_splits bind_splits)

lemma sys_run_reach: "dec_reach S0 S \<Longrightarrow> sys_run lib xs S = Some T \<Longrightarrow> dec_reach S0 T"
  by (induction xs arbitrary: S) (auto dest!: sys_step_step split: bind_splits intro: dec_reach.step)

text \<open>A new component, and the definitions that a run unfolds.\<close>

definition new_viddec :: NX_VIDDEC where
  "new_viddec = init_component 0 (zero_viddec\<lparr>hComp := 1, nNumPort := 0,
      pCallbacks := \<lparr>cbEventHandler = NULL, cbEmptyBufferDone = NULL, cbFillBufferDone = NULL\<rparr>,
      eCurState := OMX_StateLoaded, eNewState := OMX_StateLoaded\<rparr>)"

lemma new_viddec_init: "NX_VideoDecoder_ComponentInit 0 1 True True 1 = (OMX_ErrorNone, Some new_viddec, 1)"
  by (simp add: NX_VideoDecoder_ComponentInit_def NX_BaseComponentInit_def new_viddec_def Let_def)

lemmas queue_run_simps = NX_InitQueue_def zero_queue_def NX_PushQueue_def NX_PopQueue_def NX_GetQueueCnt_def

lemmas sem_run_simps = create_sem_def NX_CreateSem_def NX_DestroySem_def post_handle_def NX_PostSem_def pend_handle_def
  NX_PendSem_enter_def

lemmas command_run_simps = NX_BaseSetCallbacks_def NX_BaseSendCommand_def NX_VidDec_CommandProc_def NX_VidDec_StateTransition_def
  pend_alloc_def to_state_def finish_state_set_def send_complete_def SendEvent_def emit_def free_cmd_def upd_port_def
  proc_disable_def FlushVideoInputPort_def FlushVideoOutputPort_def give_outputs_def set_enabled_def init_port_def
  NX_InitOMXPort_def

lemmas start_run_simps = created_sys_def new_viddec_def init_component_def zero_viddec_def Let_def

definition some_callbacks :: client_call where
  "some_callbacks = CallCallbacks \<lparr>cbEventHandler = 1, cbEmptyBufferDone = 1, cbFillBufferDone = 1\<rparr> 0"

text \<open>
  C1: No buffer is lost, duplicated or reordered: whatever the client, the two threads and the decoder library
  do from the creation of the component on, the input buffers that were given back, followed by those still
  queued, are exactly those that the client handed over, in that order; and the output buffers that were
  given back, with those that the component holds, are exactly those handed over.
\<close>

theorem buffers_are_conserved:
  assumes "NX_VideoDecoder_ComponentInit num maxn al acb h = (OMX_ErrorNone, Some s, n)" and "dec_reach (created_sys s) S"
  shows "ebd_ptrs (trace (comp S)) @ queue_list (pInputPortQueue (comp S)) = ins S \<and>
     mset (fbd_ptrs (trace (comp S))) + held_out (comp S) = mset (outs S)"
  using account_reach[OF assms(2)] created_account[OF assms(1)] by (simp add: account_def in_view_def out_view_def)

section \<open>The component's state\<close>

text \<open>The transitions of the specification between the states that the component uses, and those the code accepts.\<close>

definition legal_edges :: "(OMX_STATETYPE \<times> OMX_STATETYPE) set" where
  "legal_edges = {(OMX_StateLoaded, OMX_StateIdle), (OMX_StateIdle, OMX_StateLoaded), (OMX_StateIdle, OMX_StateExecuting),
     (OMX_StateIdle, OMX_StatePause), (OMX_StateExecuting, OMX_StateIdle), (OMX_StateExecuting, OMX_StatePause),
     (OMX_StatePause, OMX_StateIdle), (OMX_StatePause, OMX_StateExecuting)}"

definition accepted_edges :: "(OMX_STATETYPE \<times> OMX_STATETYPE) set" where
  "accepted_edges = legal_edges \<union> {(OMX_StateWaitForResources, OMX_StateLoaded), (OMX_StateWaitForResources, OMX_StateIdle)}"

lemma begins_state:
  assumes "trans_begins cur new s pc t" and "cur = eCurState s" and "cur \<noteq> OMX_StateWaitForResources"
  shows "eCurState t = eCurState s \<or> (eCurState s, eCurState t) \<in> legal_edges"
  using assms by (cases rule: trans_begins.cases) (auto simp: legal_edges_def direct_edges_def)

lemma transition_state:
  assumes "transition_step lib j pc s = Some (pc', t, created)" and "cmd_ok (CmdTrans p pc) b s"
  shows "eCurState t = eCurState s \<or> (eCurState s, eCurState t) \<in> legal_edges"
proof (cases pc)
  case (TransFree i)
  with assms show ?thesis using ctl_pend_alloc[of i s]
    by (auto simp: legal_edges_def ctl_def split: if_splits bind_splits)
next
  case TransOpen
  with assms(1) ctl_calls[OF calls_open, of lib s] show ?thesis by (auto simp: ctl_def)
next
  case TransReturn
  with assms show ?thesis by (auto simp: legal_edges_def split: bind_splits)
qed (use assms in \<open>auto simp: legal_edges_def ctl_def dest: ctl_pend_alloc split: if_splits bind_splits\<close>)

lemma cmd_step_state:
  assumes "cmd_step lib j c s = Some (c', t, created)" and "cmd_ok c b s"
  shows "eCurState t = eCurState s \<or> (eCurState s, eCurState t) \<in> legal_edges"
proof (cases c)
  case (CmdProc p)
  with assms(1) obtain m where cm: "cmd_mem s p = Some m" by (cases "cmd_mem s p") auto
  with assms(1) CmdProc obtain r s1 where m: "NX_VidDec_CommandProc (eCmd m) (nParam1 m) (pCmdData m) s = Some (r, s1)"
    by (cases "NX_VidDec_CommandProc (eCmd m) (nParam1 m) (pCmdData m) s") auto
  from assms(1) CmdProc cm m have t: "eCurState t = eCurState s1"
    by (auto simp: free_cmd_def split: option.splits)
  show ?thesis
  proof (cases r)
    case None
    with m t show ?thesis using ctl_up_state[OF ctl_up_CommandProc, of "eCmd m" "nParam1 m" "pCmdData m" s s1] by simp
  next
    case (Some pc)
    with m have "NX_VidDec_StateTransition (eCurState s) (to_state (nParam1 m)) s = Some (pc, s1)"
      by (auto simp: NX_VidDec_CommandProc_def split: OMX_COMMANDTYPE.splits if_splits bind_splits)
    moreover have "eCurState s \<noteq> OMX_StateWaitForResources" using assms(2) CmdProc by (auto simp: settled_def)
    ultimately show ?thesis using begins_state[OF StateTransition_begins] t by simp
  qed
next
  case (CmdTrans p pc)
  show ?thesis
  proof (cases "\<exists>e. pc = TransDone e")
    case True
    then obtain e where e: "pc = TransDone e" ..
    with assms(1) CmdTrans obtain m where cm: "cmd_mem s p = Some m" by (cases "cmd_mem s p") auto
    with assms(1) CmdTrans e obtain s1 where m: "send_complete OMX_CommandStateSet (nParam1 m) (pCmdData m) s = Some s1"
      by (cases "finish_state_set (nParam1 m) (pCmdData m) s") (auto simp: finish_state_set_def)
    from assms(1) CmdTrans e cm this have "eCurState t = eCurState s1" by (auto simp: finish_state_set_def free_cmd_def)
    then show ?thesis using ctl_kept[OF kept_send_complete[OF m]] by (simp add: ctl_def)
  next
    case False
    with assms(1) CmdTrans obtain pc' where "transition_step lib j pc s = Some (pc', t, created)"
      by (cases pc) (auto simp del: transition_step.simps split: bind_splits)
    with transition_state assms(2) CmdTrans show ?thesis by blast
  qed
qed (use assms(1) in \<open>auto simp: Let_def split: if_splits bind_splits prod.splits\<close>)

lemma buf_step_state:
  assumes "buf_step lib libE b s = Some (b', t)" and "io_inv s"
  shows "eCurState t = eCurState s"
proof (cases "b = BufLocked")
  case True
  with assms(1) have "buffer_turn lib libE s = Some (b', t)" by simp
  from kept_turn[OF assms(2) this] show ?thesis by (simp add: kept_def)
next
  case False
  with assms(1) show ?thesis by (cases b) (auto simp: SendEvent_def emit_def split: bind_splits if_splits)
qed

lemma cmd_ok_state:
  "cmd_ok c b s \<Longrightarrow> eCurState s \<in> {OMX_StateLoaded, OMX_StateIdle, OMX_StateExecuting, OMX_StatePause}"
  by (induction c b s rule: cmd_ok.induct) (auto simp: settled_def)

lemma reach_ok:
  assumes "NX_VideoDecoder_ComponentInit num maxn al acb h = (OMX_ErrorNone, Some s, n)" and "dec_reach (created_sys s) S"
  shows "cmd_ok (cpc S) (bpc S) (comp S)" "io_inv (comp S)"
  using sys_ok_reach[OF assms(2) created_sys_ok[OF assms(1)]] by (simp_all add: sys_ok_def account_def)

text \<open>
  C6: In every reachable state the component is Loaded, Idle, Executing or Pause, and every step of any thread
  either leaves the state alone or moves along a transition of the specification.
\<close>

theorem states_change_legally:
  assumes "NX_VideoDecoder_ComponentInit num maxn al acb h = (OMX_ErrorNone, Some s, n)" and "dec_reach (created_sys s) S"
  shows "eCurState (comp S) \<in> {OMX_StateLoaded, OMX_StateIdle, OMX_StateExecuting, OMX_StatePause} \<and>
    (\<forall>T. dec_step S T \<longrightarrow> eCurState (comp T) = eCurState (comp S) \<or> (eCurState (comp S), eCurState (comp T)) \<in> legal_edges)"
proof -
  note c = reach_ok[OF assms]
  from cmd_ok_state[OF c(1)] have "eCurState (comp S) \<in> {OMX_StateLoaded, OMX_StateIdle, OMX_StateExecuting, OMX_StatePause}" .
  moreover have "eCurState (comp T) = eCurState (comp S) \<or> (eCurState (comp S), eCurState (comp T)) \<in> legal_edges" if "dec_step S T" for T
    using that c
  proof (cases rule: dec_step.cases)
    case (client cl lib e t)
    with ctl_up_state[OF ctl_up_client[OF client(3)]] show ?thesis by simp
  next
    case (buffer lib libE pc t)
    with buf_step_state[OF buffer(2) c(2)] show ?thesis by simp
  next
    case (command lib pc t created)
    with cmd_step_state[OF command(2) c(1)] show ?thesis by simp
  qed
  ultimately show ?thesis by blast
qed

text \<open>A run to the point where the command thread waits for the end of the buffer thread.\<close>

lemma replicate_turns [simp]: "replicate (numeral k) (x :: turn) = x # replicate (pred_numeral k) x"
  by (simp add: numeral_eq_Suc)

definition join_turns :: "turn list" where
  "join_turns = [ByClient some_callbacks, ByClient (CallSend 100 OMX_CommandPortDisable OMX_ALL 0)] @
     replicate 3 ByCommand @ [ByClient (CallSend 101 OMX_CommandStateSet 2 0)] @ replicate 7 ByCommand @
     replicate 5 ByBuffer @ [ByClient (CallSend 102 OMX_CommandStateSet 1 0)] @ replicate 3 ByCommand"

lemma join_run:
  obtains S where "sys_run sample_lib join_turns (created_sys new_viddec) = Some S" "cpc S = CmdTrans 102 TransJoin"
    "bpc S = BufPendCtrl" "eCurState (comp S) = OMX_StateIdle" "cbEventHandler (pCallbacks (comp S)) \<noteq> NULL"
    "\<not> bStartEoS (comp S)" "NX_GetQueueCnt (pInputPortQueue (comp S)) = 0"
proof -
  have "\<exists>S. sys_run sample_lib join_turns (created_sys new_viddec) = Some S \<and> cpc S = CmdTrans 102 TransJoin \<and>
    bpc S = BufPendCtrl \<and> eCurState (comp S) = OMX_StateIdle \<and> cbEventHandler (pCallbacks (comp S)) \<noteq> NULL \<and>
    \<not> bStartEoS (comp S) \<and> NX_GetQueueCnt (pInputPortQueue (comp S)) = 0"
    by (simp add: join_turns_def some_callbacks_def start_run_simps sem_run_simps command_run_simps queue_run_simps)
  then show thesis using that by blast
qed

lemma join_reach: "sys_run sample_lib join_turns (created_sys new_viddec) = Some S \<Longrightarrow> dec_reach (created_sys new_viddec) S"
  by (rule sys_run_reach[OF dec_reach.start])

theorem states_change_legally_witness:
  "\<exists>S. dec_reach (created_sys new_viddec) S \<and> bpc S = BufPendCtrl \<and>
    (\<forall>T. dec_step S T \<longrightarrow> eCurState (comp T) = OMX_StateIdle \<or> (OMX_StateIdle, eCurState (comp T)) \<in> legal_edges)"
proof -
  obtain S where S: "sys_run sample_lib join_turns (created_sys new_viddec) = Some S" "bpc S = BufPendCtrl"
    "eCurState (comp S) = OMX_StateIdle" by (rule join_run)
  from states_change_legally[OF new_viddec_init join_reach[OF S(1)]] S join_reach[OF S(1)] show ?thesis by auto
qed

section \<open>The life of the buffer thread\<close>

text \<open>
  As long as the buffer thread runs, both of its semaphores exist and the component is not Loaded, so
  none of its waits and posts ever meets a missing or destroyed semaphore.
\<close>

theorem buffer_thread_has_semaphores:
  assumes "NX_VideoDecoder_ComponentInit num maxn al acb h = (OMX_ErrorNone, Some s, n)" and "dec_reach (created_sys s) S"
    and "bpc S \<noteq> BufNone" and "bpc S \<noteq> BufDone"
  shows "hBufCtrlSem (comp S) \<noteq> None \<and> hBufChangeSem (comp S) \<noteq> None \<and> eCurState (comp S) \<noteq> OMX_StateLoaded"
proof -
  have "started b s \<and> eCurState s \<noteq> OMX_StateLoaded" if "cmd_ok c b s" "b \<noteq> BufNone" "b \<noteq> BufDone" for c b s
    using that by (induction c b s rule: cmd_ok.induct) (auto simp: settled_def stopped_def)
  from this[OF reach_ok(1)[OF assms(1,2)] assms(3,4)] show ?thesis by (auto simp: started_def sem_live_def)
qed

theorem buffer_thread_has_semaphores_witness:
  "\<exists>S. dec_reach (created_sys new_viddec) S \<and> bpc S = BufPendCtrl \<and> hBufCtrlSem (comp S) \<noteq> None"
proof -
  obtain S where S: "sys_run sample_lib join_turns (created_sys new_viddec) = Some S" "bpc S = BufPendCtrl" by (rule join_run)
  from buffer_thread_has_semaphores[OF new_viddec_init join_reach[OF S(1)]] S join_reach[OF S(1)] show ?thesis by auto
qed

fun buf_run :: "vpu_lib \<Rightarrow> nat \<Rightarrow> buf_pc \<times> NX_VIDDEC \<Rightarrow> (buf_pc \<times> NX_VIDDEC) option" where
  "buf_run lib 0 x = Some x"
| "buf_run lib (Suc n) x = do { y \<leftarrow> buf_step lib lib (fst x) (snd x); buf_run lib n y }"

lemma exit_from_outer: "eCmdBufThread s = NX_THREAD_CMD_EXIT \<Longrightarrow> buf_run lib 1 (BufOuter, s) = Some (BufDone, s)"
  by simp

lemma exit_from_inner: "eCmdBufThread s = NX_THREAD_CMD_EXIT \<Longrightarrow> buf_run lib 2 (BufInner, s) = Some (BufDone, s)"
  by (simp add: numeral_2_eq_2)

lemma buf_run_Suc: "buf_step lib lib b s = Some (b', t) \<Longrightarrow> buf_run lib n (b', t) = Some x \<Longrightarrow> buf_run lib (n + 1) (b, s) = Some x"
  by simp

lemma exit_from_locked:
  assumes "eCmdBufThread s = NX_THREAD_CMD_EXIT" and "io_inv s" and "buffer_turn lib lib s \<noteq> None"
    and "cbEventHandler (pCallbacks s) \<noteq> NULL"
  shows "\<exists>n\<le>3. \<exists>t. buf_run lib n (BufLocked, s) = Some (BufDone, t)"
proof -
  obtain b t where t: "buffer_turn lib lib s = Some (b, t)" using assms(3) by auto
  note k = kept_turn[OF assms(2) t]
  have e: "eCmdBufThread t = NX_THREAD_CMD_EXIT" "pCallbacks t = pCallbacks s" using k assms(1) by (auto simp: kept_def)
  from k consider "b = BufInner" | "b = BufError" by blast
  then show ?thesis
  proof cases
    case 1
    with buf_run_Suc[OF _ exit_from_inner[OF e(1)], of lib BufLocked s] t show ?thesis by (intro exI[of _ 3]) simp
  next
    case 2
    with t e(2) assms(4) show ?thesis by (intro exI[of _ 2]) (auto simp: numeral_2_eq_2 SendEvent_def)
  qed
qed

lemma exit_from_anywhere:
  assumes "joining b s" and "started b s" and "io_inv s" and "buffer_turn lib lib s \<noteq> None"
    and "cbEventHandler (pCallbacks s) \<noteq> NULL"
  shows "\<exists>n\<le>4. \<exists>t. buf_run lib n (b, s) = Some (BufDone, t)"
proof -
  have e: "eCmdBufThread s = NX_THREAD_CMD_EXIT" using assms(1) by (simp add: joining_def)
  obtain hc hm where h: "post_handle (hBufCtrlSem s) = Some hc" "post_handle (hBufChangeSem s) = Some hm"
    using assms(2) post_live unfolding started_def by blast
  show ?thesis
  proof (cases b)
    case BufNone
    with assms(2) show ?thesis by (simp add: started_def)
  next
    case BufStart
    with e h show ?thesis by (intro exI[of _ 2]) (simp add: numeral_2_eq_2)
  next
    case BufOuter
    with exit_from_outer[OF e] show ?thesis by (intro exI[of _ 1]) auto
  next
    case BufPendCtrl
    with assms(1) obtain c where "pend_handle (hBufCtrlSem s) = Some c" by (auto simp: joining_def pend_token)
    with BufPendCtrl e show ?thesis by (intro exI[of _ 3]) (simp add: numeral_3_eq_3)
  next
    case BufInner
    with exit_from_inner[OF e] show ?thesis by (intro exI[of _ 2]) auto
  next
    case BufPendChange
    with assms(1) obtain c where "pend_handle (hBufChangeSem s) = Some c" by (auto simp: joining_def pend_token)
    with BufPendChange e show ?thesis by (intro exI[of _ 3]) (simp add: numeral_3_eq_3)
  next
    case BufWoken
    with e show ?thesis by (intro exI[of _ 2]) (simp add: numeral_2_eq_2)
  next
    case BufPorts
    show ?thesis
    proof (cases "bPortEnabled (pOutputPort s) \<and> bPortEnabled (pInputPort s)")
      case True
      obtain n t where n: "n \<le> 3" "buf_run lib n (BufLocked, s) = Some (BufDone, t)"
        using exit_from_locked[OF e assms(3-5)] by blast
      then have "buf_run lib (n + 1) (BufPorts, s) = Some (BufDone, t)" using True by (intro buf_run_Suc) auto
      with n(1) BufPorts show ?thesis by (intro exI[of _ "n + 1"]) auto
    next
      case False
      with BufPorts e h show ?thesis by (intro exI[of _ 2]) (auto simp: numeral_2_eq_2)
    qed
  next
    case BufLocked
    obtain n t where "n \<le> 3" "buf_run lib n (BufLocked, s) = Some (BufDone, t)"
      using exit_from_locked[OF e assms(3-5)] by blast
    with BufLocked show ?thesis by (intro exI[of _ n]) auto
  next
    case BufError
    with assms(5) show ?thesis by (intro exI[of _ 1]) (auto simp: SendEvent_def)
  next
    case BufDone
    then show ?thesis by (intro exI[of _ 0]) simp
  qed
qed

text \<open>
  C12: \<open>pthread_join\<close> in the transition from Idle to Loaded returns: wherever the buffer thread stands when the
  command thread reaches it, at most four steps of the buffer thread alone end it, none of its waits blocks,
  and then the command thread goes on and destroys the semaphores. The two hypotheses exclude that the
  frame the thread may be decoding runs into an invalid memory access, and that no callbacks are installed.
\<close>

theorem buffer_thread_exits:
  assumes "NX_VideoDecoder_ComponentInit num maxn al acb h = (OMX_ErrorNone, Some s, n)" and "dec_reach (created_sys s) S"
    and "cpc S = CmdTrans p TransJoin" and "buffer_turn lib lib (comp S) \<noteq> None"
    and "cbEventHandler (pCallbacks (comp S)) \<noteq> NULL"
  shows "\<exists>k\<le>4. \<exists>t. buf_run lib k (bpc S, comp S) = Some (BufDone, t) \<and>
    cmd_step lib True (cpc S) t = Some (CmdTrans p (TransFree 0), t\<lparr>hBufChangeSem := None, hBufCtrlSem := None\<rparr>, False)"
proof -
  from reach_ok[OF assms(1,2)] assms(3) have "joining (bpc S) (comp S)" "started (bpc S) (comp S)" "io_inv (comp S)" by simp_all
  from exit_from_anywhere[OF this assms(4,5)] assms(3) show ?thesis by (auto simp: NX_DestroySem_def)
qed

theorem buffer_thread_exits_witness:
  "\<exists>S k t. dec_reach (created_sys new_viddec) S \<and> buf_run sample_lib k (bpc S, comp S) = Some (BufDone, t) \<and>
     cpc S = CmdTrans 102 TransJoin"
proof -
  obtain S where S: "sys_run sample_lib join_turns (created_sys new_viddec) = Some S" "cpc S = CmdTrans 102 TransJoin"
    "cbEventHandler (pCallbacks (comp S)) \<noteq> NULL" "\<not> bStartEoS (comp S)" "NX_GetQueueCnt (pInputPortQueue (comp S)) = 0"
    by (rule join_run)
  have "buffer_turn sample_lib sample_lib (comp S) \<noteq> None" using S(4,5) by (simp add: buffer_turn_def)
  from buffer_thread_exits[OF new_viddec_init join_reach[OF S(1)] S(2) this S(3)] S(2) join_reach[OF S(1)] show ?thesis by blast
qed

section \<open>Transitions that do less than they should\<close>

text \<open>
  The table of the transitions: from any state, with the semaphores of the buffer thread where the
  component has left Loaded, a request is begun or carried out exactly when it is one of the accepted
  transitions, and every other request is refused and changes nothing.
\<close>

theorem state_transition_table:
  assumes "cur \<noteq> OMX_StateLoaded \<longrightarrow> hBufCtrlSem s \<noteq> None \<and> hBufChangeSem s \<noteq> None"
  shows "\<exists>pc t. NX_VidDec_StateTransition cur new s = Some (pc, t) \<and>
    (if (cur, new) \<in> accepted_edges then pc \<in> {TransAlloc 0, TransJoin, TransOpen, TransReturn, TransDone OMX_ErrorNone}
     else t = s \<and> (\<exists>e. pc = TransDone e \<and> e \<noteq> OMX_ErrorNone))"
proof (cases "cur = new \<or> OMX_StateInvalid = cur \<or> OMX_StateInvalid = new")
  case True
  then show ?thesis by (auto simp: NX_VidDec_StateTransition_def accepted_edges_def legal_edges_def)
next
  case False
  with assms show ?thesis
    by (cases cur; cases new)
      (auto simp: NX_VidDec_StateTransition_def accepted_edges_def legal_edges_def post_handle_def Let_def)
qed

theorem state_transition_table_witness:
  "\<exists>t e. NX_VidDec_StateTransition OMX_StateLoaded OMX_StateExecuting new_viddec = Some (TransDone e, t) \<and> t = new_viddec \<and>
     e \<noteq> OMX_ErrorNone"
  using state_transition_table[of OMX_StateLoaded new_viddec OMX_StateExecuting]
  by (auto simp: accepted_edges_def legal_edges_def)

text \<open>
  A refused request is reported as success: the code that the transition returns is not looked at, so
  the client receives \<open>OMX_EventCmdComplete\<close> with the state it asked for, while the component keeps the old
  one.
\<close>

theorem refused_transition_is_reported_complete:
  assumes "cmd_mem s p = Some m" and "eCmd m = OMX_CommandStateSet" and "eCurState s \<noteq> to_state (nParam1 m)"
    and "(eCurState s, to_state (nParam1 m)) \<notin> accepted_edges" and "callbacks_set s"
    and "eCurState s \<noteq> OMX_StateLoaded \<longrightarrow> hBufCtrlSem s \<noteq> None \<and> hBufChangeSem s \<noteq> None"
  shows "\<exists>e t. e \<noteq> OMX_ErrorNone \<and> cmd_step lib j (CmdProc p) s = Some (CmdTrans p (TransDone e), s, False) \<and>
    cmd_step lib j (CmdTrans p (TransDone e)) s = Some (CmdPend p, t, False) \<and> eCurState t = eCurState s \<and>
    trace t = trace s @ [EventHandler OMX_EventCmdComplete (omx_command_code OMX_CommandStateSet) (nParam1 m) (pCmdData m)]"
proof -
  obtain e where e: "NX_VidDec_StateTransition (eCurState s) (to_state (nParam1 m)) s = Some (TransDone e, s)" "e \<noteq> OMX_ErrorNone"
    using state_transition_table[OF assms(6), of "to_state (nParam1 m)"] assms(4) by auto
  then show ?thesis
    using assms by (intro exI[of _ e]) (auto simp: NX_VidDec_CommandProc_def finish_state_set_def send_complete_emits free_cmd_def emit_def)
qed

theorem refused_transition_is_reported_complete_witness:
  "\<exists>t. cmd_step sample_lib False (CmdTrans 5 (TransDone OMX_ErrorIncorrectStateTransition))
     (new_viddec\<lparr>cmd_mem := [5 \<mapsto> \<lparr>cmd_id = 0, eCmd = OMX_CommandStateSet, nParam1 = 3, pCmdData = 0\<rparr>],
        pCallbacks := \<lparr>cbEventHandler = 1, cbEmptyBufferDone = 1, cbFillBufferDone = 1\<rparr>\<rparr>) = Some (CmdPend 5, t, False) \<and>
     eCurState t = OMX_StateLoaded"
proof -
  let ?s = "new_viddec\<lparr>cmd_mem := [5 \<mapsto> \<lparr>cmd_id = 0, eCmd = OMX_CommandStateSet, nParam1 = 3, pCmdData = 0\<rparr>],
        pCallbacks := \<lparr>cbEventHandler = 1, cbEmptyBufferDone = 1, cbFillBufferDone = 1\<rparr>\<rparr>"
  have l: "eCurState ?s = OMX_StateLoaded" by (simp add: new_viddec_def init_component_def)
  have "\<exists>e t. e \<noteq> OMX_ErrorNone \<and> cmd_step sample_lib False (CmdProc 5) ?s = Some (CmdTrans 5 (TransDone e), ?s, False) \<and>
    cmd_step sample_lib False (CmdTrans 5 (TransDone e)) ?s = Some (CmdPend 5, t, False) \<and> eCurState t = eCurState ?s"
    using refused_transition_is_reported_complete[of ?s 5 "\<lparr>cmd_id = 0, eCmd = OMX_CommandStateSet, nParam1 = 3, pCmdData = 0\<rparr>" sample_lib False] l
    by (auto simp: to_state_def accepted_edges_def legal_edges_def callbacks_set_def)
  then show ?thesis using l by auto
qed

text \<open>
  The transitions into and out of Pause change nothing but the state: entering it from Executing does not
  stop the buffer thread, and leaving it for Executing starts neither the buffer thread nor the codec, also
  when the component came from Idle; leaving it for Idle gives no buffer back. The comment on the threads
  describes orders to the buffer thread and posts that the code does not have.
\<close>

theorem pause_transitions_only_change_state:
  "NX_VidDec_StateTransition OMX_StateIdle OMX_StatePause s = Some (TransDone OMX_ErrorNone, s\<lparr>eCurState := OMX_StatePause\<rparr>) \<and>
   NX_VidDec_StateTransition OMX_StateExecuting OMX_StatePause s = Some (TransDone OMX_ErrorNone, s\<lparr>eCurState := OMX_StatePause\<rparr>) \<and>
   NX_VidDec_StateTransition OMX_StatePause OMX_StateExecuting s = Some (TransDone OMX_ErrorNone, s\<lparr>eCurState := OMX_StateExecuting\<rparr>) \<and>
   NX_VidDec_StateTransition OMX_StatePause OMX_StateIdle s = Some (TransDone OMX_ErrorNone, s\<lparr>eCurState := OMX_StateIdle\<rparr>)"
  by (simp add: NX_VidDec_StateTransition_def)

text \<open>
  \<open>OMX_CommandPortEnable\<close> while the component is Loaded, where a client may legally send it, always runs
  into the assertion of \<open>NX_PostSem\<close>: the command posts the control semaphore of the buffer thread, which
  exists only outside Loaded.
\<close>

theorem port_enable_in_loaded_aborts:
  assumes "NX_VideoDecoder_ComponentInit num maxn al acb h = (OMX_ErrorNone, Some s, n)" and "dec_reach (created_sys s) S"
    and "eCurState (comp S) = OMX_StateLoaded" and "cpc S = CmdProc p" and "cmd_mem (comp S) p = Some m"
    and "eCmd m = OMX_CommandPortEnable"
  shows "cmd_step lib j (cpc S) (comp S) = None"
proof -
  from reach_ok(1)[OF assms(1,2)] assms(3,4) have "hBufCtrlSem (comp S) = None" by (auto simp: settled_def stopped_def)
  then have "hBufCtrlSem (set_enabled i x (comp S)) = None" "hBufCtrlSem (set_enabled k y (set_enabled i x (comp S))) = None" for i k x y
    by (simp_all add: set_enabled_def upd_port_def)
  with assms(4-6) \<open>hBufCtrlSem (comp S) = None\<close> show ?thesis
    by (simp add: NX_VidDec_CommandProc_def proc_enable_def Let_def)
qed

definition enable_turns :: "turn list" where
  "enable_turns = [ByClient some_callbacks, ByClient (CallSend 100 OMX_CommandPortEnable 1 0), ByCommand, ByCommand]"

theorem port_enable_in_loaded_aborts_witness:
  "\<exists>S. dec_reach (created_sys new_viddec) S \<and> cpc S = CmdProc 100 \<and> cmd_step sample_lib False (cpc S) (comp S) = None"
proof -
  have "\<exists>S. sys_run sample_lib enable_turns (created_sys new_viddec) = Some S \<and> cpc S = CmdProc 100 \<and>
    eCurState (comp S) = OMX_StateLoaded \<and> (\<exists>m. cmd_mem (comp S) 100 = Some m \<and> eCmd m = OMX_CommandPortEnable)"
    by (simp add: enable_turns_def some_callbacks_def start_run_simps sem_run_simps command_run_simps queue_run_simps)
  then obtain S m where S: "sys_run sample_lib enable_turns (created_sys new_viddec) = Some S" "cpc S = CmdProc 100"
    "eCurState (comp S) = OMX_StateLoaded" "cmd_mem (comp S) 100 = Some m" "eCmd m = OMX_CommandPortEnable" by blast
  have r: "dec_reach (created_sys new_viddec) S" by (rule sys_run_reach[OF dec_reach.start S(1)])
  from port_enable_in_loaded_aborts[OF new_viddec_init r S(3,2,4,5)] r S(2) show ?thesis by auto
qed

section \<open>Runs that go wrong\<close>

text \<open>
  The client of these runs: two input buffers and one output buffer, MPEG-2, in the mode that copies the
  pictures; \<open>hs\<close> are the headers of the two input buffers. The run ends in Executing, with the buffer thread
  waiting for work.
\<close>

definition port_def :: "OMX_U32 \<Rightarrow> OMX_U32 \<Rightarrow> OMX_PARAM_PORTDEFINITIONTYPE" where
  "port_def i n = OMX_PARAM_PORTDEFINITIONTYPE.truncate (zero_port\<lparr>nPortIndex := i, nBufferCountActual := n\<rparr>)"

definition two_inputs :: "OMX_BUFFERHEADERTYPE \<Rightarrow> OMX_BUFFERHEADERTYPE \<Rightarrow> turn list" where
  "two_inputs h1 h2 =
     [ByClient some_callbacks, ByClient (CallSet (ParamComponentRole ''video_decoder.mpeg2'')),
      ByClient (CallSet (ParamPortDefinition (port_def 0 2))), ByClient (CallSet (ParamPortDefinition (port_def 1 1))),
      ByClient (CallSend 101 OMX_CommandStateSet 2 0)] @ replicate 3 ByCommand @
     [ByClient (CallUse 7 0 0 4194304 70), ByClient (CallUse 8 0 0 4194304 80), ByClient (CallUse 11 1 0 4194304 110),
      ByClient (CallData 70 [1, 2, 3]), ByClient (CallData 80 [4, 5, 6]), ByClient (CallHeader 7 h1), ByClient (CallHeader 8 h2)] @
     replicate 4 ByCommand @ replicate 5 ByBuffer @
     [ByClient (CallSend 102 OMX_CommandStateSet 3 0)] @ replicate 5 ByCommand @ replicate 2 ByBuffer"

lemma find_slot_free [simp]:
  "0 < k \<Longrightarrow> 0 < n \<Longrightarrow> find_slot (\<lambda>q. q = 0) (replicate n 0) k = Some (Some 0)"
  "1 < k \<Longrightarrow> 1 < n \<Longrightarrow> p \<noteq> 0 \<Longrightarrow> find_slot (\<lambda>q. q = 0) ((replicate n 0)[0 := p]) k = Some (Some 1)"
proof -
  show "find_slot (\<lambda>q. q = 0) (replicate n 0) k = Some (Some 0)" if "0 < k" "0 < n"
    using that by (cases k; cases n) auto
  show "find_slot (\<lambda>q. q = 0) ((replicate n 0)[0 := p]) k = Some (Some 1)" if a: "1 < k" "1 < n" "p \<noteq> 0"
  proof -
    obtain k' n' where "k = Suc (Suc k')" "n = Suc (Suc n')" using a(1,2) by (metis less_imp_Suc_add add_Suc_right plus_1_eq_Suc)
    then show ?thesis using a(3) by simp
  qed
qed

lemma no_tag [simp]: "CodecTagToMp4Class 0 c = (c, 0)"
  by (simp add: CodecTagToMp4Class_def MKTAG_def)

lemma sem_bounds [simp]: "\<not> (16 :: OMX_U32) \<le> 1" "\<not> (2048 :: OMX_U32) \<le> 1"
  by (simp_all add: word_le_nat_alt)

lemmas client_run_simps = NX_VidDec_SetParameter_def SetParameter_Role_def set_input_codec_def SetParameter_PortDefinition_def
  NX_BaseSetParameter_def port_def_def zero_port_def OMX_PARAM_PORTDEFINITIONTYPE.truncate_def zero_video_def set_video_def
  NX_VidDec_UseBuffer_def port_of_def port_bufs_def set_port_buf_def new_hdr_def buffer_added_def mb_count_def set_out_size_def
  set_out_buffers_def yuv_size_def NX_VidDec_EmptyThisBuffer_def NX_VidDec_FillThisBuffer_def accepts_buffers_def

lemmas decode_run_simps = openVideoCodec_def InitVideoTimeStamp_def sample_lib_def buffer_turn_def out_available_def
  NX_VidDec_Transform_def decodeVideoFrame_def NX_DecodeMpeg2Frame_def decode_with_def decode_prologue_def mpeg_body_def zero_hdr_def
  has_flag_def PushVideoTimeStamp_def init_codec_def InitializeCodaVpu_def rd_block_def in_bytes_def in_data_def rd_def
  decode_exit_def upd_hdr_def call_EmptyBufferDone_def

lemmas all_run_simps = some_callbacks_def start_run_simps sem_run_simps command_run_simps queue_run_simps client_run_simps
  decode_run_simps

definition stall_turns :: "turn list" where
  "stall_turns = two_inputs (zero_hdr\<lparr>pBuffer := 70, nFilledLen := 3\<rparr>)
       (zero_hdr\<lparr>pBuffer := 80, nFilledLen := 3, nFlags := OMX_BUFFERFLAG_EOS\<rparr>) @
     [ByClient (CallEmpty 7), ByClient (CallEmpty 8)] @ replicate 10 ByBuffer @ [ByClient (CallFill 11)] @ replicate 5 ByBuffer"

lemma stall_run:
  obtains S where "sys_run sample_lib stall_turns (created_sys new_viddec) = Some S"
    "ins S = [7, 8]" "outs S = [11]" "queue_list (pInputPortQueue (comp S)) = [8]" "queue_list (pOutputPortQueue (comp S)) = [11]"
    "bpc S = BufPendChange" "cpc S = CmdPend 102" "hBufChangeSem (comp S) = Some \<lparr>nValue = 0, nMaxValue = 2048\<rparr>"
    "hSemCmd (comp S) = Some \<lparr>nValue = 0, nMaxValue = 128\<rparr>" "eCurState (comp S) = OMX_StateExecuting"
    "map_option nFlags (hdr_mem (comp S) 8) = Some OMX_BUFFERFLAG_EOS"
proof -
  have "\<exists>S. sys_run sample_lib stall_turns (created_sys new_viddec) = Some S \<and>
    ins S = [7, 8] \<and> outs S = [11] \<and> queue_list (pInputPortQueue (comp S)) = [8] \<and> queue_list (pOutputPortQueue (comp S)) = [11] \<and>
    bpc S = BufPendChange \<and> cpc S = CmdPend 102 \<and> hBufChangeSem (comp S) = Some \<lparr>nValue = 0, nMaxValue = 2048\<rparr> \<and>
    hSemCmd (comp S) = Some \<lparr>nValue = 0, nMaxValue = 128\<rparr> \<and> eCurState (comp S) = OMX_StateExecuting \<and>
    map_option nFlags (hdr_mem (comp S) 8) = Some OMX_BUFFERFLAG_EOS"
    by (simp add: stall_turns_def two_inputs_def all_run_simps queue_list_def)
  then show thesis using that by blast
qed

theorem buffers_are_conserved_witness:
  "\<exists>S. dec_reach (created_sys new_viddec) S \<and>
     ebd_ptrs (trace (comp S)) @ queue_list (pInputPortQueue (comp S)) = [7, 8] \<and>
     mset (fbd_ptrs (trace (comp S))) + held_out (comp S) = {#11#}"
proof -
  obtain S where S: "sys_run sample_lib stall_turns (created_sys new_viddec) = Some S" "ins S = [7, 8]" "outs S = [11]"
    by (rule stall_run)
  have r: "dec_reach (created_sys new_viddec) S" by (rule sys_run_reach[OF dec_reach.start S(1)])
  from buffers_are_conserved[OF new_viddec_init r] r S(2,3) show ?thesis by auto
qed


text \<open>The calls that open, initialise and close the codec.\<close>

fun codec_calls :: "omx_call list \<Rightarrow> omx_call list" where
  "codec_calls [] = []"
| "codec_calls (VpuOpen h # es) = VpuOpen h # codec_calls es"
| "codec_calls (VpuInit h bs # es) = VpuInit h bs # codec_calls es"
| "codec_calls (VpuClose h # es) = VpuClose h # codec_calls es"
| "codec_calls (_ # es) = codec_calls es"

definition reopen_turns :: "turn list" where
  "reopen_turns = two_inputs (zero_hdr\<lparr>pBuffer := 70, nFilledLen := 3\<rparr>) (zero_hdr\<lparr>pBuffer := 80, nFilledLen := 3\<rparr>) @
     [ByClient (CallEmpty 7), ByClient (CallFill 11)] @ replicate 5 ByBuffer @
     [ByClient (CallSend 103 OMX_CommandStateSet 2 0)] @ replicate 5 ByCommand @
     [ByClient (CallSend 104 OMX_CommandStateSet 3 0)] @ replicate 5 ByCommand"

text \<open>
  Going from Executing to Idle and back opens a second codec: the first one is never closed, and the
  component still counts as initialised, so the new codec is used without \<open>NX_VidDecInit\<close>.
\<close>

theorem codec_is_reopened_without_close:
  "\<exists>S. dec_reach (created_sys new_viddec) S \<and> eCurState (comp S) = OMX_StateExecuting \<and> cpc S = CmdPend 104 \<and>
     codec_calls (trace (comp S)) = [VpuOpen 9, VpuInit 9 [1, 2, 3], VpuOpen 9] \<and> bInitialized (comp S)"
proof -
  have "\<exists>S. sys_run sample_lib reopen_turns (created_sys new_viddec) = Some S \<and> eCurState (comp S) = OMX_StateExecuting \<and>
    cpc S = CmdPend 104 \<and> codec_calls (trace (comp S)) = [VpuOpen 9, VpuInit 9 [1, 2, 3], VpuOpen 9] \<and> bInitialized (comp S)"
    by (simp add: reopen_turns_def two_inputs_def all_run_simps call_FillBufferDone_def)
  then show ?thesis using sys_run_reach[OF dec_reach.start] by blast
qed

end
