(* ===== verification/ColorConv.thy ===== *)
theory ColorConv
  imports OmxIo
begin

text \<open>
  The colour space conversions of \<open>nxutil/csc.cpp\<close>: planar to planar and planar to semi-planar copies
  between buffers of different strides, and the portable conversion from ARGB to NV12. The two NEON
  routines are assembly and a parameter (\<open>csc_neon\<close>). A destination block is passed in and returned; an
  access outside a block is \<open>None\<close>.
\<close>

section \<open>Planar copies\<close>

text \<open>
  \<open>n\<close> rows of \<open>w\<close> bytes: the source pointer advances by \<open>ss\<close>, the destination pointer by \<open>ds\<close>.
\<close>

fun blit_rows :: "nat \<Rightarrow> nat \<Rightarrow> nat \<Rightarrow> nat \<Rightarrow> OMX_U8 list \<Rightarrow> nat \<Rightarrow> OMX_U8 list \<Rightarrow> nat \<Rightarrow> OMX_U8 list option" where
  "blit_rows 0 w ss ds src soff dst doff = Some dst"
| "blit_rows (Suc n) w ss ds src soff dst doff = do {
     bs \<leftarrow> rd src soff w;
     dst \<leftarrow> wr dst doff bs;
     blit_rows n w ss ds src (soff + ss) dst (doff + ds) }"

text \<open>
  The three sources are offsets in one block, as its only caller passes them. The code copies the chroma
  rows in turn, one of \<open>dstU\<close> and one of \<open>dstV\<close>; the planes are blocks of their own, so that plane after
  plane comes to the same.
\<close>

definition cscYV12ToYV12 ::
  "OMX_U8 list \<Rightarrow> nat \<Rightarrow> nat \<Rightarrow> nat \<Rightarrow> OMX_U8 list \<Rightarrow> OMX_U8 list \<Rightarrow> OMX_U8 list \<Rightarrow>
   OMX_U32 \<Rightarrow> OMX_U32 \<Rightarrow> OMX_U32 \<Rightarrow> OMX_U32 \<Rightarrow> OMX_U32 \<Rightarrow> (OMX_U8 list \<times> OMX_U8 list \<times> OMX_U8 list) option" where
  "cscYV12ToYV12 src srcY srcU srcV dstY dstU dstV srcStride dstStrideY dstStrideUV width height = do {
     dstY \<leftarrow> (if srcStride = dstStrideY then do {
                bs \<leftarrow> rd src srcY (unat (srcStride * height));
                wr dstY 0 bs }
              else blit_rows (unat height) (unat width) (unat srcStride) (unat dstStrideY) src srcY dstY 0);
     let height = height div 2;
     let width = width div 2;
     dstU \<leftarrow> blit_rows (unat height) (unat width) (unat (srcStride div 2)) (unat dstStrideUV) src srcU dstU 0;
     dstV \<leftarrow> blit_rows (unat height) (unat width) (unat (srcStride div 2)) (unat dstStrideUV) src srcV dstV 0;
     Some (dstY, dstU, dstV) }"

text \<open>One chroma row of the semi-planar format: Cr and Cb bytes alternate.\<close>

fun interleave_row :: "nat list \<Rightarrow> OMX_U8 list \<Rightarrow> nat \<Rightarrow> OMX_U8 list \<Rightarrow> nat \<Rightarrow> OMX_U8 list \<Rightarrow> nat \<Rightarrow> OMX_U8 list option" where
  "interleave_row [] cb cboff cr croff dst doff = Some dst"
| "interleave_row (j # js) cb cboff cr croff dst doff = do {
     r \<leftarrow> rd cr (croff + j) 1;
     dst \<leftarrow> wr dst (doff + 2 * j) r;
     b \<leftarrow> rd cb (cboff + j) 1;
     dst \<leftarrow> wr dst (doff + 2 * j + 1) b;
     interleave_row js cb cboff cr croff dst doff }"

fun interleave_rows :: "nat \<Rightarrow> nat \<Rightarrow> nat \<Rightarrow> nat \<Rightarrow> OMX_U8 list \<Rightarrow> OMX_U8 list \<Rightarrow> nat \<Rightarrow> OMX_U8 list \<Rightarrow> nat \<Rightarrow> OMX_U8 list option" where
  "interleave_rows 0 w ss ds cb cr soff dst doff = Some dst"
| "interleave_rows (Suc n) w ss ds cb cr soff dst doff = do {
     dst \<leftarrow> interleave_row [0..<w] cb soff cr soff dst doff;
     interleave_rows n w ss ds cb cr (soff + ss) dst (doff + ds) }"

definition cscYV12ToNV21 ::
  "OMX_U8 list \<Rightarrow> OMX_U8 list \<Rightarrow> OMX_U8 list \<Rightarrow> OMX_U8 list \<Rightarrow> OMX_U8 list \<Rightarrow>
   OMX_U32 \<Rightarrow> OMX_U32 \<Rightarrow> OMX_U32 \<Rightarrow> OMX_U32 \<Rightarrow> (OMX_U8 list \<times> OMX_U8 list) option" where
  "cscYV12ToNV21 srcY srcCb srcCr dstY dstCrCb srcStride dstStride width height = do {
     dstY \<leftarrow> blit_rows (unat height) (unat width) (unat srcStride) (unat dstStride) srcY 0 dstY 0;
     dstCrCb \<leftarrow> interleave_rows (unat (drop_bit 1 height)) (unat (drop_bit 1 width)) (unat (drop_bit 1 srcStride))
       (unat dstStride) srcCb srcCr 0 dstCrCb 0;
     Some (dstY, dstCrCb) }"

section \<open>From ARGB\<close>

text \<open>The conversion in assembly: destination planes, source, width and height.\<close>

type_synonym csc_neon = "OMX_U8 list \<Rightarrow> OMX_U8 list \<Rightarrow> OMX_U8 list \<Rightarrow> OMX_U32 \<Rightarrow> OMX_U32 \<Rightarrow> (OMX_U8 list \<times> OMX_U8 list) option"

definition cscARGBToNV21 ::
  "csc_neon \<Rightarrow> csc_neon \<Rightarrow> OMX_U8 list \<Rightarrow> OMX_U8 list \<Rightarrow> OMX_U8 list \<Rightarrow> OMX_U32 \<Rightarrow> OMX_U32 \<Rightarrow> OMX_U32 \<Rightarrow>
   (OMX_U8 list \<times> OMX_U8 list) option" where
  "cscARGBToNV21 nv12 nv21 src dstY dstCbCr srcWidth srcHeight cbFirst =
     (if cbFirst \<noteq> 0 then nv12 dstY dstCbCr src srcWidth srcHeight
      else nv21 dstY dstCbCr src srcWidth srcHeight)"

text \<open>\<open>iTmp\<close> and its clamp; \<open>>>\<close> of a negative number is an arithmetic shift.\<close>

definition clamp :: "int \<Rightarrow> OMX_U8" where
  "clamp i = (if i > 255 then 255 else if i < 0 then 0 else word_of_int i)"

definition rgb_luma :: "OMX_U8 \<Rightarrow> OMX_U8 \<Rightarrow> OMX_U8 \<Rightarrow> int" where
  "rgb_luma r g b = (66 * uint r + 129 * uint g + 25 * uint b + 128) div 256 + 16"

definition rgb_cb :: "OMX_U8 \<Rightarrow> OMX_U8 \<Rightarrow> OMX_U8 \<Rightarrow> int" where
  "rgb_cb r g b = (- 38 * uint r - 74 * uint g + 112 * uint b + 128) div 256 + 128"

definition rgb_cr :: "OMX_U8 \<Rightarrow> OMX_U8 \<Rightarrow> OMX_U8 \<Rightarrow> int" where
  "rgb_cr r g b = (112 * uint r - 94 * uint g - 18 * uint b + 128) div 256 + 128"

text \<open>The loop over the pixels \<open>(h, w)\<close> in order; both destination pointers and the source pointer advance.\<close>

fun argb_pixels :: "(nat \<times> nat) list \<Rightarrow> OMX_U8 list \<Rightarrow> nat \<Rightarrow> OMX_U8 list \<Rightarrow> nat \<Rightarrow> OMX_U8 list \<Rightarrow> nat \<Rightarrow>
    (OMX_U8 list \<times> OMX_U8 list) option" where
  "argb_pixels [] src soff dstY yoff dstC coff = Some (dstY, dstC)"
| "argb_pixels ((h, w) # ps) src soff dstY yoff dstC coff = do {
     px \<leftarrow> rd src soff 3;
     let r = px ! 0;
     let g = px ! 1;
     let b = px ! 2;
     dstY \<leftarrow> wr dstY yoff [clamp (rgb_luma r g b)];
     (if even h \<and> even w then do {
        dstC \<leftarrow> wr dstC coff [clamp (rgb_cb r g b)];
        dstC \<leftarrow> wr dstC (coff + 1) [clamp (rgb_cr r g b)];
        argb_pixels ps src (soff + 4) dstY (yoff + 1) dstC (coff + 2) }
      else argb_pixels ps src (soff + 4) dstY (yoff + 1) dstC coff) }"

definition csc_ARGB8888_to_NV12 ::
  "OMX_U8 list \<Rightarrow> OMX_U8 list \<Rightarrow> OMX_U8 list \<Rightarrow> nat \<Rightarrow> nat \<Rightarrow> (OMX_U8 list \<times> OMX_U8 list) option" where
  "csc_ARGB8888_to_NV12 dstY dstCbCr src Width Height =
     argb_pixels (List.product [0..<Height] [0..<Width]) src 0 dstY 0 dstCbCr 0"

section \<open>What the planar copy does\<close>

definition in_rows :: "nat \<Rightarrow> nat \<Rightarrow> nat \<Rightarrow> nat \<Rightarrow> bool" where
  "in_rows n w step i \<longleftrightarrow> (\<exists>r<n. r * step \<le> i \<and> i < r * step + w)"

definition rows_fit :: "nat \<Rightarrow> nat \<Rightarrow> nat \<Rightarrow> nat \<Rightarrow> OMX_U8 list \<Rightarrow> bool" where
  "rows_fit n w step off xs \<longleftrightarrow> (0 < n \<longrightarrow> off + (n - 1) * step + w \<le> length xs)"

lemma rows_fit_Suc:
  "rows_fit (Suc n) w step off xs \<Longrightarrow> off + w \<le> length xs \<and> rows_fit n w step (off + step) xs"
  by (cases n) (auto simp: rows_fit_def algebra_simps)

lemma rd_eq: "off + n \<le> length src \<Longrightarrow> rd src off n = Some (take n (drop off src))"
  by (simp add: rd_def)

lemma wr_eq: "off + length bs \<le> length dst \<Longrightarrow>
   wr dst off bs = Some (take off dst @ bs @ drop (off + length bs) dst)"
  by (simp add: wr_def)

lemma nth_patch:
  assumes "off + length bs \<le> length dst" "i < length dst"
  shows "(take off dst @ bs @ drop (off + length bs) dst) ! i =
     (if off \<le> i \<and> i < off + length bs then bs ! (i - off) else dst ! i)"
  using assms by (auto simp: nth_append min_def)

lemma blit_rows_spec:
  assumes "rows_fit n w ss soff src" and "rows_fit n w ds doff dst" and "w \<le> ds"
  shows "\<exists>t. blit_rows n w ss ds src soff dst doff = Some t \<and> length t = length dst \<and>
     (\<forall>r<n. \<forall>x<w. t ! (doff + r * ds + x) = src ! (soff + r * ss + x)) \<and>
     (\<forall>i<length dst. i < doff \<or> \<not> in_rows n w ds (i - doff) \<longrightarrow> t ! i = dst ! i)"
  using assms(1,2)
proof (induction n arbitrary: soff dst doff)
  case 0
  then show ?case by simp
next
  case (Suc n)
  have fit: "soff + w \<le> length src" "doff + w \<le> length dst"
    "rows_fit n w ss (soff + ss) src" "rows_fit n w ds (doff + ds) dst"
    using rows_fit_Suc[OF Suc.prems(1)] rows_fit_Suc[OF Suc.prems(2)] by auto
  let ?bs = "take w (drop soff src)"
  let ?d = "take doff dst @ ?bs @ drop (doff + w) dst"
  have lb: "length ?bs = w" using fit by simp
  have ld: "length ?d = length dst" using fit by simp
  have d: "?d ! i = (if doff \<le> i \<and> i < doff + w then src ! (soff + (i - doff)) else dst ! i)" if "i < length dst" for i
    using nth_patch[of doff ?bs dst i] fit that by (auto simp: lb)
  have "rows_fit n w ds (doff + ds) ?d" using fit(4) ld by (simp add: rows_fit_def)
  from Suc.IH[OF fit(3) this] obtain t where
    t: "blit_rows n w ss ds src (soff + ss) ?d (doff + ds) = Some t" "length t = length dst"
    "\<forall>r<n. \<forall>x<w. t ! (doff + ds + r * ds + x) = src ! (soff + ss + r * ss + x)"
    "\<forall>i<length dst. i < doff + ds \<or> \<not> in_rows n w ds (i - (doff + ds)) \<longrightarrow> t ! i = ?d ! i"
    using ld by auto
  have "blit_rows (Suc n) w ss ds src soff dst doff = Some t"
    using t(1) fit lb by (simp add: rd_eq wr_eq)
  moreover have "t ! (doff + r * ds + x) = src ! (soff + r * ss + x)" if "r < Suc n" "x < w" for r x
  proof (cases r)
    case 0
    then have "t ! (doff + x) = ?d ! (doff + x)" using t(4) fit that assms(3) by auto
    with 0 that d[of "doff + x"] fit show ?thesis by simp
  next
    case (Suc r')
    with t(3)[rule_format, of r' x] that show ?thesis by (simp add: algebra_simps)
  qed
  moreover have "t ! i = dst ! i" if i: "i < length dst" and o: "i < doff \<or> \<not> in_rows (Suc n) w ds (i - doff)" for i
  proof -
    have "i < doff + ds \<or> \<not> in_rows n w ds (i - (doff + ds))"
    proof (rule ccontr)
      assume "\<not> ?thesis"
      then obtain r where r: "r < n" "r * ds \<le> i - (doff + ds)" "i - (doff + ds) < r * ds + w" "doff + ds \<le> i"
        unfolding in_rows_def by (auto simp del: not_less simp: not_less[of i "doff + ds"])
      then have "Suc r < Suc n \<and> Suc r * ds \<le> i - doff \<and> i - doff < Suc r * ds + w" by auto
      with o r(4) show False unfolding in_rows_def by (metis add_lessD1 not_add_less1 le_add_diff_inverse not_less)
    qed
    with t(4) i have "t ! i = ?d ! i" by auto
    moreover have "\<not> (doff \<le> i \<and> i < doff + w)"
      using o assms(3) unfolding in_rows_def by (metis (no_types, lifting) add_0 less_diff_conv2 add.commute mult_0 zero_le zero_less_Suc not_less)
    ultimately show ?thesis using d[OF i] by simp
  qed
  ultimately show ?case using t(2) by blast
qed

text \<open>Room for a plane of \<open>n\<close> rows of \<open>w\<close> bytes, \<open>step\<close> bytes apart, from an offset on.\<close>

lemma csc_rows:
  assumes "rows_fit n w ss soff src" and "rows_fit n w ds 0 dst" and "w \<le> ds"
  obtains t where "blit_rows n w ss ds src soff dst 0 = Some t" "length t = length dst"
    "\<forall>r<n. \<forall>x<w. t ! (r * ds + x) = src ! (soff + r * ss + x)"
    "\<forall>i<length dst. \<not> in_rows n w ds i \<longrightarrow> t ! i = dst ! i"
  using blit_rows_spec[OF assms] by auto

lemma unat_mult_fits: "unat (a :: OMX_U32) * unat b < 2 ^ 32 \<Longrightarrow> unat (a * b) = unat a * unat b"
  by (simp add: unat_word_ariths)

lemma pixel_in_block: "y < h \<Longrightarrow> x < w \<Longrightarrow> w \<le> s \<Longrightarrow> y * s + x < s * (h :: nat)"
proof -
  assume a: "y < h" "x < w" "w \<le> s"
  then have "Suc y * s \<le> h * s" by (intro mult_right_mono) auto
  with a show ?thesis by (simp add: mult.commute)
qed

text \<open>The luma plane, in one block or row by row.\<close>

lemma csc_luma:
  fixes width height srcStride dstStrideY :: OMX_U32 and src dstY :: "OMX_U8 list"
  assumes "unat width \<le> unat srcStride" and "unat width \<le> unat dstStrideY"
    and "unat srcStride * unat height < 2 ^ 32"
    and "srcY + unat srcStride * unat height \<le> length src" and "unat dstStrideY * unat height \<le> length dstY"
  shows "\<exists>dy. (if srcStride = dstStrideY then do { bs \<leftarrow> rd src srcY (unat (srcStride * height)); wr dstY 0 bs }
       else blit_rows (unat height) (unat width) (unat srcStride) (unat dstStrideY) src srcY dstY 0) = Some dy \<and>
     length dy = length dstY \<and>
     (\<forall>y<unat height. \<forall>x<unat width. dy ! (y * unat dstStrideY + x) = src ! (srcY + y * unat srcStride + x)) \<and>
     (if srcStride = dstStrideY
      then (\<forall>i<unat srcStride * unat height. dy ! i = src ! (srcY + i)) \<and>
        (\<forall>i<length dstY. unat srcStride * unat height \<le> i \<longrightarrow> dy ! i = dstY ! i)
      else (\<forall>i<length dstY. \<not> in_rows (unat height) (unat width) (unat dstStrideY) i \<longrightarrow> dy ! i = dstY ! i))"
proof (cases "srcStride = dstStrideY")
  case True
  let ?n = "unat srcStride * unat height" and ?bs = "take (unat srcStride * unat height) (drop srcY src)"
  have c: "(if srcStride = dstStrideY then do { bs \<leftarrow> rd src srcY (unat (srcStride * height)); wr dstY 0 bs }
       else blit_rows (unat height) (unat width) (unat srcStride) (unat dstStrideY) src srcY dstY 0) = Some (?bs @ drop ?n dstY)"
    using True assms(4,5) unat_mult_fits[OF assms(3)] by (simp add: rd_eq wr_eq)
  have at: "(?bs @ drop ?n dstY) ! i = src ! (srcY + i)" if "i < ?n" for i
    using that assms(4) by (simp add: nth_append)
  have "(?bs @ drop ?n dstY) ! (y * unat dstStrideY + x) = src ! (srcY + y * unat srcStride + x)"
    if "y < unat height" "x < unat width" for y x
    using at[OF pixel_in_block[OF that assms(1)]] True by (simp add: add.assoc)
  moreover have "(?bs @ drop ?n dstY) ! i = dstY ! i" if "?n \<le> i" "i < length dstY" for i
    using that assms(4,5) True by (simp add: nth_append)
  moreover have "length (?bs @ drop ?n dstY) = length dstY" using assms(4,5) True by simp
  ultimately show ?thesis unfolding if_P[OF True] using c[unfolded if_P[OF True]] at by blast
next
  case False
  have fit: "rows_fit (unat height) (unat width) (unat srcStride) srcY src"
    "rows_fit (unat height) (unat width) (unat dstStrideY) 0 dstY"
    using assms(1,2,4,5) by (cases "unat height"; auto simp: rows_fit_def algebra_simps)+
  obtain t where "blit_rows (unat height) (unat width) (unat srcStride) (unat dstStrideY) src srcY dstY 0 = Some t"
    "length t = length dstY"
    "\<forall>r<unat height. \<forall>x<unat width. t ! (r * unat dstStrideY + x) = src ! (srcY + r * unat srcStride + x)"
    "\<forall>i<length dstY. \<not> in_rows (unat height) (unat width) (unat dstStrideY) i \<longrightarrow> t ! i = dstY ! i"
    using csc_rows[OF fit assms(2)] by metis
  with False show ?thesis by auto
qed

text \<open>
  C33: \<open>cscYV12ToYV12\<close> is a faithful copy between different strides: every pixel of the three planes arrives at
  its place in the destination, whichever of the two ways the luma plane is copied, and no access leaves a
  block, when the blocks have the room that the strides ask for. The bytes of the chroma planes outside the
  rows stay as they were, and so do those of the luma plane when the strides differ; with equal strides the
  luma plane is copied as one block, padding included, and only the bytes behind the last row stay.
\<close>

theorem csc_copies_every_pixel:
  assumes "unat width \<le> unat srcStride" and "unat width \<le> unat dstStrideY" and "unat width div 2 \<le> unat dstStrideUV"
    and "unat srcStride * unat height < 2 ^ 32"
    and "srcY + unat srcStride * unat height \<le> length src" and "unat dstStrideY * unat height \<le> length dstY"
    and "rows_fit (unat height div 2) (unat width div 2) (unat srcStride div 2) srcU src"
    and "rows_fit (unat height div 2) (unat width div 2) (unat srcStride div 2) srcV src"
    and "rows_fit (unat height div 2) (unat width div 2) (unat dstStrideUV) 0 dstU"
    and "rows_fit (unat height div 2) (unat width div 2) (unat dstStrideUV) 0 dstV"
  shows "\<exists>dy du dv. cscYV12ToYV12 src srcY srcU srcV dstY dstU dstV srcStride dstStrideY dstStrideUV width height =
       Some (dy, du, dv) \<and> length dy = length dstY \<and> length du = length dstU \<and> length dv = length dstV \<and>
     (\<forall>y<unat height. \<forall>x<unat width. dy ! (y * unat dstStrideY + x) = src ! (srcY + y * unat srcStride + x)) \<and>
     (\<forall>y<unat height div 2. \<forall>x<unat width div 2.
        du ! (y * unat dstStrideUV + x) = src ! (srcU + y * (unat srcStride div 2) + x) \<and>
        dv ! (y * unat dstStrideUV + x) = src ! (srcV + y * (unat srcStride div 2) + x)) \<and>
     (\<forall>i<length dstU. \<not> in_rows (unat height div 2) (unat width div 2) (unat dstStrideUV) i \<longrightarrow> du ! i = dstU ! i) \<and>
     (\<forall>i<length dstV. \<not> in_rows (unat height div 2) (unat width div 2) (unat dstStrideUV) i \<longrightarrow> dv ! i = dstV ! i) \<and>
     (if srcStride = dstStrideY
      then (\<forall>i<unat srcStride * unat height. dy ! i = src ! (srcY + i)) \<and>
        (\<forall>i<length dstY. unat srcStride * unat height \<le> i \<longrightarrow> dy ! i = dstY ! i)
      else (\<forall>i<length dstY. \<not> in_rows (unat height) (unat width) (unat dstStrideY) i \<longrightarrow> dy ! i = dstY ! i))"
proof -
  have half: "unat (w div 2) = unat w div 2" for w :: OMX_U32 by (simp add: unat_div)
  obtain du where du: "blit_rows (unat height div 2) (unat width div 2) (unat srcStride div 2) (unat dstStrideUV) src srcU dstU 0 = Some du"
    "length du = length dstU"
    "\<forall>y<unat height div 2. \<forall>x<unat width div 2. du ! (y * unat dstStrideUV + x) = src ! (srcU + y * (unat srcStride div 2) + x)"
    "\<forall>i<length dstU. \<not> in_rows (unat height div 2) (unat width div 2) (unat dstStrideUV) i \<longrightarrow> du ! i = dstU ! i"
    using csc_rows[OF assms(7,9,3)] by metis
  obtain dv where dv: "blit_rows (unat height div 2) (unat width div 2) (unat srcStride div 2) (unat dstStrideUV) src srcV dstV 0 = Some dv"
    "length dv = length dstV"
    "\<forall>y<unat height div 2. \<forall>x<unat width div 2. dv ! (y * unat dstStrideUV + x) = src ! (srcV + y * (unat srcStride div 2) + x)"
    "\<forall>i<length dstV. \<not> in_rows (unat height div 2) (unat width div 2) (unat dstStrideUV) i \<longrightarrow> dv ! i = dstV ! i"
    using csc_rows[OF assms(8,10,3)] by metis
  obtain dy where dy: "(if srcStride = dstStrideY then do { bs \<leftarrow> rd src srcY (unat (srcStride * height)); wr dstY 0 bs }
       else blit_rows (unat height) (unat width) (unat srcStride) (unat dstStrideY) src srcY dstY 0) = Some dy"
    "length dy = length dstY"
    "\<forall>y<unat height. \<forall>x<unat width. dy ! (y * unat dstStrideY + x) = src ! (srcY + y * unat srcStride + x)"
    "if srcStride = dstStrideY
      then (\<forall>i<unat srcStride * unat height. dy ! i = src ! (srcY + i)) \<and>
        (\<forall>i<length dstY. unat srcStride * unat height \<le> i \<longrightarrow> dy ! i = dstY ! i)
      else (\<forall>i<length dstY. \<not> in_rows (unat height) (unat width) (unat dstStrideY) i \<longrightarrow> dy ! i = dstY ! i)"
    using csc_luma[OF assms(1,2,4-6)] by blast
  show ?thesis
    unfolding cscYV12ToYV12_def Let_def half dy(1)
    using du dv dy(2-4) by simp
qed

theorem csc_copies_every_pixel_witness:
  "\<exists>dy du dv. cscYV12ToYV12 [1, 2, 3, 4, 5, 6] 0 4 5 [0, 0, 9, 0, 0, 9] [0, 7] [0, 8] 2 3 2 2 2 = Some (dy, du, dv) \<and>
     dy ! 4 = 4 \<and> dy ! 5 = 9 \<and> du ! 0 = 5 \<and> du ! 1 = 7 \<and> dv ! 0 = 6 \<and> dv ! 1 = 8"
proof -
  have "rows_fit 1 1 1 4 [1, 2, 3, 4, 5, 6 :: OMX_U8]" "rows_fit 1 1 1 5 [1, 2, 3, 4, 5, 6 :: OMX_U8]"
    "rows_fit 1 1 2 0 [0, 7 :: OMX_U8]" "rows_fit 1 1 2 0 [0, 8 :: OMX_U8]"
    by (simp_all add: rows_fit_def)
  then obtain dy du dv where
    d: "cscYV12ToYV12 [1, 2, 3, 4, 5, 6] 0 4 5 [0, 0, 9, 0, 0, 9] [0, 7] [0, 8] 2 3 2 2 2 = Some (dy, du, dv)"
    "\<forall>y<2. \<forall>x<2. dy ! (y * 3 + x) = [1, 2, 3, 4, 5, 6] ! (y * 2 + x)"
    "\<forall>y<1. \<forall>x<1. du ! (y * 2 + x) = [1, 2, 3, 4, 5, 6] ! (4 + y * 1 + x) \<and> dv ! (y * 2 + x) = [1, 2, 3, 4, 5, 6] ! (5 + y * 1 + x)"
    "\<forall>i<2. \<not> in_rows 1 1 2 i \<longrightarrow> du ! i = [0, 7] ! i" "\<forall>i<2. \<not> in_rows 1 1 2 i \<longrightarrow> dv ! i = [0, 8] ! i"
    "\<forall>i<6. \<not> in_rows 2 2 3 i \<longrightarrow> dy ! i = [0, 0, 9, 0, 0, 9] ! i"
    using csc_copies_every_pixel[of 2 2 3 2 2 0 "[1, 2, 3, 4, 5, 6]" "[0, 0, 9, 0, 0, 9]" 4 5 "[0, 7]" "[0, 8]"] by auto
  have "\<not> in_rows 1 1 2 1" by (simp add: in_rows_def)
  moreover have "\<not> in_rows 2 2 3 5" by (auto simp: in_rows_def numeral_2_eq_2 less_Suc_eq)
  ultimately show ?thesis
    using d(1) d(2)[rule_format, of 1 1] d(3)[rule_format, of 0 0] d(4)[rule_format, of 1] d(5)[rule_format, of 1]
      d(6)[rule_format, of 5] by simp
qed

section \<open>What the conversion from ARGB does\<close>

lemma uint_8_bound: "uint (w :: OMX_U8) < 256"
  using uint_bounded[of w] by simp

lemma luma_bounds: "16 \<le> rgb_luma r g b \<and> rgb_luma r g b \<le> 235"
proof -
  have b: "0 \<le> uint r" "uint r \<le> 255" "0 \<le> uint g" "uint g \<le> 255" "0 \<le> uint b" "uint b \<le> 255"
    using uint_8_bound[of r] uint_8_bound[of g] uint_8_bound[of b] by simp_all
  then have "0 \<le> 66 * uint r + 129 * uint g + 25 * uint b + 128" "66 * uint r + 129 * uint g + 25 * uint b + 128 < 56320"
    by linarith+
  then show ?thesis unfolding rgb_luma_def by linarith
qed

lemma chroma_bounds: "16 \<le> rgb_cb r g b \<and> rgb_cb r g b \<le> 240 \<and> 16 \<le> rgb_cr r g b \<and> rgb_cr r g b \<le> 240"
proof -
  have b: "0 \<le> uint r" "uint r \<le> 255" "0 \<le> uint g" "uint g \<le> 255" "0 \<le> uint b" "uint b \<le> 255"
    using uint_8_bound[of r] uint_8_bound[of g] uint_8_bound[of b] by simp_all
  then show ?thesis unfolding rgb_cb_def rgb_cr_def by linarith
qed

lemma clamp_id: "0 \<le> i \<Longrightarrow> i \<le> 255 \<Longrightarrow> uint (clamp i) = i"
  by (simp add: clamp_def uint_word_of_int)

text \<open>The pixels at which chroma is sampled, and the bytes that a list of pixels yields.\<close>

definition argb_at :: "OMX_U8 list \<Rightarrow> nat \<Rightarrow> OMX_U8 \<times> OMX_U8 \<times> OMX_U8" where
  "argb_at src off = (src ! off, src ! (off + 1), src ! (off + 2))"

fun luma_bytes :: "OMX_U8 list \<Rightarrow> nat \<Rightarrow> nat \<Rightarrow> OMX_U8 list" where
  "luma_bytes src off 0 = []"
| "luma_bytes src off (Suc n) = (case argb_at src off of (r, g, b) \<Rightarrow> clamp (rgb_luma r g b)) # luma_bytes src (off + 4) n"

fun chroma_bytes :: "(nat \<times> nat) list \<Rightarrow> OMX_U8 list \<Rightarrow> nat \<Rightarrow> OMX_U8 list" where
  "chroma_bytes [] src off = []"
| "chroma_bytes ((h, w) # ps) src off =
     (if even h \<and> even w then (case argb_at src off of (r, g, b) \<Rightarrow> [clamp (rgb_cb r g b), clamp (rgb_cr r g b)]) else [])
       @ chroma_bytes ps src (off + 4)"

lemma length_luma_bytes [simp]: "length (luma_bytes src off n) = n"
  by (induction src off n rule: luma_bytes.induct) auto

lemma wr_next: "i + 1 \<le> length d \<Longrightarrow> wr (xs @ d) (length xs) [b] = Some ((xs @ [b]) @ drop 1 d)"
  by (simp add: wr_def)

lemma rd_pixel:
  assumes "off + 3 \<le> length src"
  obtains px where "rd src off 3 = Some px" "argb_at src off = (px ! 0, px ! 1, px ! 2)"
proof
  show "rd src off 3 = Some (take 3 (drop off src))" using assms by (simp add: rd_def)
  show "argb_at src off = (take 3 (drop off src) ! 0, take 3 (drop off src) ! 1, take 3 (drop off src) ! 2)"
    using assms by (simp add: argb_at_def)
qed

lemma argb_pixels_spec:
  assumes "soff + 4 * length ps \<le> length src" and "length ps \<le> length y"
    and "length (chroma_bytes ps src soff) \<le> length c"
  shows "argb_pixels ps src soff (ys @ y) (length ys) (cs @ c) (length cs) =
     Some (ys @ luma_bytes src soff (length ps) @ drop (length ps) y,
           cs @ chroma_bytes ps src soff @ drop (length (chroma_bytes ps src soff)) c)"
  using assms
proof (induction ps arbitrary: soff ys y cs c)
  case Nil
  then show ?case by simp
next
  case (Cons p ps)
  obtain h w where p: "p = (h, w)" by (cases p)
  have "soff + 3 \<le> length src" using Cons.prems(1) by simp
  then obtain px where px: "rd src soff 3 = Some px" "argb_at src soff = (px ! 0, px ! 1, px ! 2)"
    by (rule rd_pixel)
  let ?l = "clamp (rgb_luma (px ! 0) (px ! 1) (px ! 2))"
  have y: "wr (ys @ y) (length ys) [?l] = Some ((ys @ [?l]) @ drop 1 y)"
    using Cons.prems(2) by (intro wr_next[of 0]) simp
  show ?case
  proof (cases "even h \<and> even w")
    case True
    let ?b = "clamp (rgb_cb (px ! 0) (px ! 1) (px ! 2))" and ?r = "clamp (rgb_cr (px ! 0) (px ! 1) (px ! 2))"
    have room: "2 \<le> length c" using Cons.prems(3) p True px(2) by simp
    then have c: "wr (cs @ c) (length cs) [?b] = Some ((cs @ [?b]) @ drop 1 c)"
      "wr ((cs @ [?b]) @ drop 1 c) (length (cs @ [?b])) [?r] = Some (((cs @ [?b]) @ [?r]) @ drop 1 (drop 1 c))"
      using wr_next[of 0 c cs ?b] wr_next[of 0 "drop 1 c" "cs @ [?b]" ?r] by auto
    have "argb_pixels ps src (soff + 4) ((ys @ [?l]) @ drop 1 y) (length (ys @ [?l]))
        ((cs @ [?b, ?r]) @ drop 2 c) (length (cs @ [?b, ?r])) =
      Some ((ys @ [?l]) @ luma_bytes src (soff + 4) (length ps) @ drop (length ps) (drop 1 y),
        (cs @ [?b, ?r]) @ chroma_bytes ps src (soff + 4) @ drop (length (chroma_bytes ps src (soff + 4))) (drop 2 c))"
      using Cons.prems p True px(2) by (intro Cons.IH) auto
    with p True px y c show ?thesis by (simp add: numeral_2_eq_2 Let_def)
  next
    case False
    have "argb_pixels ps src (soff + 4) ((ys @ [?l]) @ drop 1 y) (length (ys @ [?l])) (cs @ c) (length cs) =
      Some ((ys @ [?l]) @ luma_bytes src (soff + 4) (length ps) @ drop (length ps) (drop 1 y),
        cs @ chroma_bytes ps src (soff + 4) @ drop (length (chroma_bytes ps src (soff + 4))) c)"
      using Cons.prems p False by (intro Cons.IH) auto
    with p False px y show ?thesis by (auto simp: Let_def)
  qed
qed

lemma luma_bytes_nth: "i < n \<Longrightarrow> luma_bytes src off n ! i = (case argb_at src (off + 4 * i) of (r, g, b) \<Rightarrow> clamp (rgb_luma r g b))"
proof (induction src off n arbitrary: i rule: luma_bytes.induct)
  case (2 src off n)
  then show ?case by (cases i) (simp_all add: add.assoc)
qed simp

text \<open>The chroma bytes by their position: two for every second pixel of every second row.\<close>

definition chroma_pair :: "OMX_U8 list \<Rightarrow> nat \<Rightarrow> OMX_U8 list" where
  "chroma_pair src off = (case argb_at src off of (r, g, b) \<Rightarrow> [clamp (rgb_cb r g b), clamp (rgb_cr r g b)])"

lemma length_chroma_pair [simp]: "length (chroma_pair src off) = 2"
  by (simp add: chroma_pair_def split: prod.split)

lemma chroma_bytes_append: "chroma_bytes (ps @ qs) src off = chroma_bytes ps src off @ chroma_bytes qs src (off + 4 * length ps)"
  by (induction ps src off rule: chroma_bytes.induct) (auto simp: add.assoc)

lemma chroma_bytes_row:
  "chroma_bytes (map (Pair h) [0..<n]) src off =
     (if even h then concat (map (\<lambda>i. chroma_pair src (off + 8 * i)) [0..<Suc n div 2]) else [])"
proof (induction n)
  case (Suc n)
  show ?case
  proof (cases "even n")
    case True
    then obtain m where "n = 2 * m" by (rule evenE)
    with Suc show ?thesis by (simp add: chroma_bytes_append chroma_pair_def)
  next
    case False
    then have "Suc (Suc n) div 2 = Suc n div 2" by (auto elim!: oddE)
    with Suc False show ?thesis by (simp add: chroma_bytes_append)
  qed
qed simp

lemma chroma_bytes_product:
  "chroma_bytes (List.product [0..<h] [0..<n]) src 0 =
     concat (map (\<lambda>j. concat (map (\<lambda>i. chroma_pair src (8 * (j * n) + 8 * i)) [0..<Suc n div 2])) [0..<Suc h div 2])"
proof (induction h)
  case (Suc h)
  have split: "List.product [0..<Suc h] [0..<n] = List.product [0..<h] [0..<n] @ map (Pair h) [0..<n]"
    by (simp add: product_concat_map)
  have len: "length (List.product [0..<h] [0..<n]) = h * n" by simp
  show ?case
  proof (cases "even h")
    case True
    then obtain m where "h = 2 * m" by (rule evenE)
    then show ?thesis unfolding split chroma_bytes_append chroma_bytes_row len Suc by (simp add: mult.assoc)
  next
    case False
    then have e: "Suc (Suc h) div 2 = Suc h div 2" by (auto elim!: oddE)
    show ?thesis unfolding split chroma_bytes_append chroma_bytes_row len Suc e using False by simp
  qed
qed simp

lemma length_concat_uniform: "\<forall>j<n. length (f j) = m \<Longrightarrow> length (concat (map f [0..<n])) = n * m"
  by (induction n) auto

lemma nth_concat_uniform:
  "\<forall>j<n. length (f j) = m \<Longrightarrow> j < n \<Longrightarrow> i < m \<Longrightarrow> concat (map f [0..<n]) ! (j * m + i) = f j ! i"
proof (induction n)
  case (Suc n)
  have l: "length (concat (map f [0..<n])) = n * m" using Suc.prems(1) by (intro length_concat_uniform) simp
  show ?case
  proof (cases "j < n")
    case True
    then have "j * m + i < n * m" using Suc.prems(3) pixel_in_block[of j n i m m] by (simp add: mult.commute)
    with True Suc l show ?thesis by (simp add: nth_append)
  next
    case False
    with Suc.prems l show ?thesis by (simp add: less_Suc_eq nth_append)
  qed
qed simp

lemma length_chroma_bytes: "length (chroma_bytes (List.product [0..<h] [0..<n]) src 0) = Suc h div 2 * (Suc n div 2 * 2)"
  unfolding chroma_bytes_product by (intro length_concat_uniform allI impI) simp

lemma chroma_bytes_nth:
  assumes "j < Suc h div 2" and "i < Suc n div 2" and "k < 2"
  shows "chroma_bytes (List.product [0..<h] [0..<n]) src 0 ! (j * (Suc n div 2 * 2) + (i * 2 + k)) =
     chroma_pair src (8 * (j * n) + 8 * i) ! k"
proof -
  have "i * 2 + k < Suc n div 2 * 2" using assms(2,3) by linarith
  have "chroma_bytes (List.product [0..<h] [0..<n]) src 0 ! (j * (Suc n div 2 * 2) + (i * 2 + k)) =
      concat (map (\<lambda>i. chroma_pair src (8 * (j * n) + 8 * i)) [0..<Suc n div 2]) ! (i * 2 + k)"
    unfolding chroma_bytes_product
    by (rule nth_concat_uniform[OF _ assms(1) \<open>i * 2 + k < Suc n div 2 * 2\<close>]) (simp add: length_concat_uniform)
  also have "\<dots> = chroma_pair src (8 * (j * n) + 8 * i) ! k"
    by (rule nth_concat_uniform[OF _ assms(2,3)]) simp
  finally show ?thesis .
qed

text \<open>
  Equation (1) of ITU-R BT.601 for 8 bits, in units of 1/255000: luma
  \<open>16 + (65.481 R + 128.553 G + 24.966 B) / 255\<close> and the two colour differences around 128; a byte is near
  the real value when it is less than one away.
\<close>

definition near :: "int \<Rightarrow> int \<Rightarrow> int \<Rightarrow> bool" where
  "near v origin k \<longleftrightarrow> \<bar>255000 * (v - origin) - k\<bar> < 255000"

definition bt601 :: "int \<times> int \<times> int \<Rightarrow> OMX_U8 list \<Rightarrow> nat \<Rightarrow> int" where
  "bt601 m src off = (case m of (a, b, c) \<Rightarrow> a * uint (src ! off) + b * uint (src ! (off + 1)) + c * uint (src ! (off + 2)))"

lemma div_256: "256 * (a div 256) \<le> (a :: int) \<and> a < 256 * (a div 256) + 256"
  by linarith

lemma luma_byte:
  "uint (clamp (rgb_luma r g b)) = rgb_luma r g b" "16 \<le> uint (clamp (rgb_luma r g b))" "uint (clamp (rgb_luma r g b)) \<le> 235"
  using luma_bounds[of r g b] by (simp_all add: clamp_id)

lemma chroma_byte:
  "uint (clamp (rgb_cb r g b)) = rgb_cb r g b" "16 \<le> uint (clamp (rgb_cb r g b))" "uint (clamp (rgb_cb r g b)) \<le> 240"
  "uint (clamp (rgb_cr r g b)) = rgb_cr r g b" "16 \<le> uint (clamp (rgb_cr r g b))" "uint (clamp (rgb_cr r g b)) \<le> 240"
  using chroma_bounds[of r g b] by (simp_all add: clamp_id)

lemma rgb_bounds:
  "0 \<le> uint (r :: OMX_U8) \<and> uint r \<le> 255 \<and> 0 \<le> uint (g :: OMX_U8) \<and> uint g \<le> 255 \<and> 0 \<le> uint (b :: OMX_U8) \<and> uint b \<le> 255"
  using uint_8_bound[of r] uint_8_bound[of g] uint_8_bound[of b] by simp

lemma near_weighted:
  fixes r g b q :: int
  assumes "0 \<le> r \<and> r \<le> 255 \<and> 0 \<le> g \<and> g \<le> 255 \<and> 0 \<le> b \<and> b \<le> 255"
    and "256 * q \<le> x * r + y * g + z * b + 128 \<and> x * r + y * g + z * b + 128 < 256 * q + 256"
    and "(x, y, z, u, v, w) \<in> {(66, 129, 25, 65481, 128553, 24966), (- 38, - 74, 112, - 37797, - 74203, 112000),
      (112, - 94, - 18, 112000, - 93786, - 18214)}"
  shows "near (q + c) c (u * r + v * g + w * b)"
proof -
  have "255000 * q - (u * r + v * g + w * b) < 255000 \<and> - (255000 * q - (u * r + v * g + w * b)) < 255000"
    using assms(1,2,3) by (elim insertE emptyE; simp only: prod.inject; elim conjE; hypsubst; intro conjI; linarith)
  then show ?thesis by (simp add: near_def abs_less_iff)
qed

lemma luma_near: "near (rgb_luma r g b) 16 (65481 * uint r + 128553 * uint g + 24966 * uint b)"
  unfolding rgb_luma_def using near_weighted[of "uint r" "uint g" "uint b" _ 66 129 25, OF rgb_bounds div_256] by simp

lemma cb_near: "near (rgb_cb r g b) 128 (- 37797 * uint r - 74203 * uint g + 112000 * uint b)"
  unfolding rgb_cb_def using near_weighted[of "uint r" "uint g" "uint b" _ "- 38" "- 74" 112, OF rgb_bounds div_256] by simp

lemma cr_near: "near (rgb_cr r g b) 128 (112000 * uint r - 93786 * uint g - 18214 * uint b)"
  unfolding rgb_cr_def using near_weighted[of "uint r" "uint g" "uint b" _ 112 "- 94" "- 18", OF rgb_bounds div_256] by simp

lemma cb_byte:
  "uint (clamp (rgb_cb r g b)) = (- 38 * uint r + - 74 * uint g + 112 * uint b + 128) div 256 + 128 \<and>
   16 \<le> uint (clamp (rgb_cb r g b)) \<and> uint (clamp (rgb_cb r g b)) \<le> 240 \<and>
   near (uint (clamp (rgb_cb r g b))) 128 (- 37797 * uint r + - 74203 * uint g + 112000 * uint b)"
  using chroma_byte[of r g b] cb_near[of r g b] by (simp add: rgb_cb_def)

lemma cr_byte:
  "uint (clamp (rgb_cr r g b)) = (112 * uint r + - 94 * uint g + - 18 * uint b + 128) div 256 + 128 \<and>
   16 \<le> uint (clamp (rgb_cr r g b)) \<and> uint (clamp (rgb_cr r g b)) \<le> 240 \<and>
   near (uint (clamp (rgb_cr r g b))) 128 (112000 * uint r + - 93786 * uint g + - 18214 * uint b)"
  using chroma_byte[of r g b] cr_near[of r g b] by (simp add: rgb_cr_def)

text \<open>
  C37: The conversion from ARGB to NV12 writes one luma byte per pixel, in order, and a Cb and a Cr byte per
  second pixel of every second row, in order, and nothing behind them. Every luma byte is the weighted sum
  of its pixel with the weights 66, 129 and 25 in 256ths, lies between 16 and 235 and is less than one away
  from the luma of ITU-R BT.601; every Cb and Cr byte is the weighted sum with (-38, -74, 112) and
  (112, -94, -18), lies between 16 and 240 and is less than one away from the colour difference of BT.601:
  the clamps of the code never apply.
\<close>

theorem argb_to_nv12_in_video_range:
  assumes "4 * (H * W) \<le> length src" and "H * W \<le> length dstY"
    and "Suc H div 2 * (Suc W div 2 * 2) \<le> length dstC"
  shows "\<exists>dy cs. csc_ARGB8888_to_NV12 dstY dstC src W H =
       Some (dy @ drop (H * W) dstY, cs @ drop (length cs) dstC) \<and>
     length dy = H * W \<and> length cs = Suc H div 2 * (Suc W div 2 * 2) \<and>
     (\<forall>i<H * W. uint (dy ! i) = (bt601 (66, 129, 25) src (4 * i) + 128) div 256 + 16 \<and>
        16 \<le> uint (dy ! i) \<and> uint (dy ! i) \<le> 235 \<and> near (uint (dy ! i)) 16 (bt601 (65481, 128553, 24966) src (4 * i))) \<and>
     (\<forall>j<Suc H div 2. \<forall>i<Suc W div 2.
        let p = j * (Suc W div 2 * 2) + i * 2; off = 4 * (2 * j * W + 2 * i); cb = uint (cs ! p); cr = uint (cs ! (p + 1)) in
        cb = (bt601 (- 38, - 74, 112) src off + 128) div 256 + 128 \<and> 16 \<le> cb \<and> cb \<le> 240 \<and>
        near cb 128 (bt601 (- 37797, - 74203, 112000) src off) \<and>
        cr = (bt601 (112, - 94, - 18) src off + 128) div 256 + 128 \<and> 16 \<le> cr \<and> cr \<le> 240 \<and>
        near cr 128 (bt601 (112000, - 93786, - 18214) src off))"
proof -
  let ?ps = "List.product [0..<H] [0..<W]"
  let ?dy = "luma_bytes src 0 (H * W)" and ?cs = "chroma_bytes ?ps src 0"
  have "csc_ARGB8888_to_NV12 dstY dstC src W H = Some (?dy @ drop (H * W) dstY, ?cs @ drop (length ?cs) dstC)"
    using argb_pixels_spec[of 0 ?ps src dstY dstC "[]" "[]"] assms length_chroma_bytes[of H W src]
    by (simp add: csc_ARGB8888_to_NV12_def)
  moreover have "uint (?dy ! i) = (bt601 (66, 129, 25) src (4 * i) + 128) div 256 + 16 \<and>
      16 \<le> uint (?dy ! i) \<and> uint (?dy ! i) \<le> 235 \<and> near (uint (?dy ! i)) 16 (bt601 (65481, 128553, 24966) src (4 * i))"
    if "i < H * W" for i
  proof -
    have "?dy ! i = clamp (rgb_luma (src ! (4 * i)) (src ! (4 * i + 1)) (src ! (4 * i + 2)))"
      using luma_bytes_nth[OF that, of src 0] by (simp add: argb_at_def)
    then show ?thesis using luma_byte luma_near by (simp add: bt601_def rgb_luma_def)
  qed
  moreover have "let p = j * (Suc W div 2 * 2) + i * 2; off = 4 * (2 * j * W + 2 * i); cb = uint (?cs ! p); cr = uint (?cs ! (p + 1)) in
        cb = (bt601 (- 38, - 74, 112) src off + 128) div 256 + 128 \<and> 16 \<le> cb \<and> cb \<le> 240 \<and>
        near cb 128 (bt601 (- 37797, - 74203, 112000) src off) \<and>
        cr = (bt601 (112, - 94, - 18) src off + 128) div 256 + 128 \<and> 16 \<le> cr \<and> cr \<le> 240 \<and>
        near cr 128 (bt601 (112000, - 93786, - 18214) src off)"
    if "j < Suc H div 2" "i < Suc W div 2" for j i
  proof -
    define off where "off = 4 * (2 * j * W + 2 * i)"
    have o: "8 * (j * W) + 8 * i = off" by (simp add: off_def algebra_simps)
    have cs: "?cs ! (j * (Suc W div 2 * 2) + i * 2) = clamp (rgb_cb (src ! off) (src ! (off + 1)) (src ! (off + 2)))"
      "?cs ! (j * (Suc W div 2 * 2) + i * 2 + 1) = clamp (rgb_cr (src ! off) (src ! (off + 1)) (src ! (off + 2)))"
      using chroma_bytes_nth[OF that, of 0 src] chroma_bytes_nth[OF that, of 1 src]
      unfolding o by (simp_all add: chroma_pair_def argb_at_def)
    have bt: "bt601 (a, b, c) src off = a * uint (src ! off) + b * uint (src ! (off + 1)) + c * uint (src ! (off + 2))" for a b c
      by (simp add: bt601_def)
    show ?thesis unfolding Let_def off_def[symmetric] cs bt
      using cb_byte[of "src ! off" "src ! (off + 1)" "src ! (off + 2)"] cr_byte[of "src ! off" "src ! (off + 1)" "src ! (off + 2)"]
      by blast
  qed
  ultimately show ?thesis using length_luma_bytes[of src 0 "H * W"] length_chroma_bytes[of H W src] by blast
qed

theorem argb_to_nv12_in_video_range_witness:
  "\<exists>dy cs. csc_ARGB8888_to_NV12 [0, 0] [0, 0] [255, 0, 0, 0, 0, 0, 255, 0] 2 1 = Some (dy, cs) \<and>
     uint (dy ! 0) = 82 \<and> uint (dy ! 1) = 41 \<and> uint (cs ! 0) = 90 \<and> uint (cs ! 1) = 240"
proof -
  have s: "Suc 1 div 2 = 1" "Suc 2 div 2 = 1" by simp_all
  obtain dy cs where d: "csc_ARGB8888_to_NV12 [0, 0] [0, 0] [255, 0, 0, 0, 0, 0, 255, 0] 2 1 =
      Some (dy @ drop (1 * 2) [0, 0], cs @ drop (length cs) [0, 0])" "length dy = 1 * 2" "length cs = 1 * (1 * 2)"
    and l: "\<forall>i<1 * 2. uint (dy ! i) = (bt601 (66, 129, 25) [255, 0, 0, 0, 0, 0, 255, 0] (4 * i) + 128) div 256 + 16"
    and c: "\<forall>j<1. \<forall>i<1. uint (cs ! (j * (1 * 2) + i * 2)) =
        (bt601 (- 38, - 74, 112) [255, 0, 0, 0, 0, 0, 255, 0] (4 * (2 * j * 2 + 2 * i)) + 128) div 256 + 128 \<and>
      uint (cs ! (j * (1 * 2) + i * 2 + 1)) =
        (bt601 (112, - 94, - 18) [255, 0, 0, 0, 0, 0, 255, 0] (4 * (2 * j * 2 + 2 * i)) + 128) div 256 + 128"
    using argb_to_nv12_in_video_range[of 1 2 "[255, 0, 0, 0, 0, 0, 255, 0]" "[0, 0]" "[0, 0]", unfolded s Let_def] by fastforce
  show ?thesis
    using d l[rule_format, of 0] l[rule_format, of 1] c[rule_format, of 0 0] by (simp add: bt601_def)
qed

end
