(* ===== verification/VidEncState.thy ===== *)
theory VidEncState
  imports ColorConv
begin

text \<open>
  The state of the video encoder component (\<open>struct tNX_VIDENC_COMP_TYPE\<close> of \<open>NX_OMXVideoEncoder.h\<close>) and the
  parameters of its codecs. The encoder library (\<open>nx_video_api.h\<close>), gralloc, ion and the assembly routines of
  the colour conversion are the record \<open>enc_lib\<close>, an argument of the operations that use it.
\<close>

section \<open>The encoder library\<close>

datatype venc_codec = NX_AVC_ENC | NX_MP4_ENC

record NX_VID_ENC_INIT_PARAM =
  enc_width :: OMX_U32
  enc_height :: OMX_U32
  chromaInterleave :: OMX_U32
  gopSize :: OMX_U32
  enc_bitrate :: OMX_U32
  fpsNum :: OMX_U32
  fpsDen :: OMX_U32
  numIntraRefreshMbs :: OMX_U32
  searchRange :: OMX_U32
  rotAngle :: OMX_U32
  mirDirection :: OMX_U32
  enableRC :: OMX_U32
  RCAlgorithm :: OMX_U32
  disableSkip :: OMX_U32
  maximumQp :: OMX_U32
  initialQp :: OMX_U32
  RCDelay :: OMX_U32
  rcVbvSize :: OMX_U32
  gammaFactor :: OMX_U32

text \<open>A block of video memory: its description and what can be read at its three virtual addresses.\<close>

record NX_VID_MEMORY = NX_VID_MEMORY_INFO +
  luVirAddr :: "OMX_U8 list"
  cbVirAddr :: "OMX_U8 list"
  crVirAddr :: "OMX_U8 list"

record NX_VID_ENC_IN =
  pImage :: NX_VID_MEMORY_INFO
  enc_timeStamp :: int
  forcedIFrame :: int
  forcedSkipFrame :: int
  quantParam :: int

record NX_VID_ENC_OUT =
  frameType :: int
  outBuf :: "OMX_U8 list"
  bufSize :: int

text \<open>The members of a gralloc handle that the component reads.\<close>

record gralloc_buf =
  gb_size :: OMX_S32
  gb_width :: OMX_S32
  gb_height :: OMX_S32
  gb_stride :: OMX_S32
  gb_share_fd :: int

text \<open>
  The library at one call: what each function returns for its arguments, the constants of its headers, the
  handle that a pointer designates, the bytes that can be read where \<open>mmap\<close> maps a buffer, the contents of
  the local variable \<open>inputMem\<close> before it is written, and the bytes that \<open>malloc\<close> leaves in a new block.
  \<open>NX_VidEncGetSeqInfo\<close> returns the bytes that it writes to its buffer and the size that it stores, if it stores
  one; \<open>NX_VidEncEncodeFrame\<close> sees the memory that the conversion has written.
\<close>

record enc_lib =
  NX_VidEncOpen :: "venc_codec \<Rightarrow> ptr"
  NX_VidEncInit :: "ptr \<Rightarrow> NX_VID_ENC_INIT_PARAM \<Rightarrow> int"
  NX_VidEncGetSeqInfo :: "ptr \<Rightarrow> int \<times> OMX_U8 list \<times> int option"
  NX_VidEncEncodeFrame :: "ptr \<Rightarrow> NX_VID_ENC_IN \<Rightarrow> NX_VID_MEMORY option \<Rightarrow> int \<times> NX_VID_ENC_OUT"
  venc_VID_ERR_NONE :: int
  NX_VideoAllocateMemory :: "int \<Rightarrow> OMX_U32 \<Rightarrow> OMX_U32 \<Rightarrow> OMX_U32 \<Rightarrow> NX_VID_MEMORY option"
  gralloc_at :: "ptr \<Rightarrow> gralloc_buf option"
  enc_ion_open :: int
  enc_ion_get_phys :: "int \<Rightarrow> int \<Rightarrow> int \<times> OMX_U32"
  mmap :: "OMX_S32 \<Rightarrow> int \<Rightarrow> OMX_U8 list option"
  csc_ARGB8888_to_NV12_NEON :: csc_neon
  csc_ARGB8888_to_NV21_NEON :: csc_neon
  kMetadataBufferTypeCameraSource :: OMX_S32
  kMetadataBufferTypeGrallocSource :: OMX_S32
  stack_junk :: NX_VID_MEMORY_INFO
  block_junk :: "nat \<Rightarrow> OMX_U8"

section \<open>Codec parameters\<close>

text \<open>All members are 32 bits wide; truth values are the numbers 0 and 1.\<close>

record OMX_VIDEO_PARAM_MPEG4TYPE =
  mp4_nSize :: OMX_U32
  mp4_nVersion :: OMX_U32
  mp4_nPortIndex :: OMX_U32
  mp4_nSliceHeaderSpacing :: OMX_U32
  mp4_bSVH :: OMX_U32
  mp4_bGov :: OMX_U32
  mp4_nPFrames :: OMX_U32
  mp4_nBFrames :: OMX_U32
  mp4_nIDCVLCThreshold :: OMX_U32
  mp4_bACPred :: OMX_U32
  mp4_nMaxPacketSize :: OMX_U32
  mp4_nTimeIncRes :: OMX_U32
  mp4_eProfile :: OMX_U32
  mp4_eLevel :: OMX_U32
  mp4_nAllowedPictureTypes :: OMX_U32
  mp4_nHeaderExtension :: OMX_U32
  mp4_bReversibleVLC :: OMX_U32

record OMX_VIDEO_PARAM_AVCTYPE =
  avc_nSize :: OMX_U32
  avc_nVersion :: OMX_U32
  avc_nPortIndex :: OMX_U32
  avc_nSliceHeaderSpacing :: OMX_U32
  avc_nPFrames :: OMX_U32
  avc_nBFrames :: OMX_U32
  avc_bUseHadamard :: OMX_U32
  avc_nRefFrames :: OMX_U32
  avc_nRefIdx10ActiveMinus1 :: OMX_U32
  avc_nRefIdx11ActiveMinus1 :: OMX_U32
  avc_bEnableUEP :: OMX_U32
  avc_bEnableFMO :: OMX_U32
  avc_bEnableASO :: OMX_U32
  avc_bEnableRS :: OMX_U32
  avc_eProfile :: OMX_U32
  avc_eLevel :: OMX_U32
  avc_nAllowedPictureTypes :: OMX_U32
  avc_bFrameMBsOnly :: OMX_U32
  avc_bMBAFF :: OMX_U32
  avc_bEntropyCodingCABAC :: OMX_U32
  avc_bWeightedPPrediction :: OMX_U32
  avc_nWeightedBipredicitonMode :: OMX_U32
  avc_bconstIpred :: OMX_U32
  avc_bDirect8x8Inference :: OMX_U32
  avc_bDirectSpatialTemporal :: OMX_U32
  avc_nCabacInitIdc :: OMX_U32
  avc_eLoopFilterMode :: OMX_U32

text \<open>The memory images of the two structs, as words, and back.\<close>

definition mp4_words :: "OMX_VIDEO_PARAM_MPEG4TYPE \<Rightarrow> OMX_U32 list" where
  "mp4_words p = [mp4_nSize p, mp4_nVersion p, mp4_nPortIndex p, mp4_nSliceHeaderSpacing p, mp4_bSVH p, mp4_bGov p,
     mp4_nPFrames p, mp4_nBFrames p, mp4_nIDCVLCThreshold p, mp4_bACPred p, mp4_nMaxPacketSize p, mp4_nTimeIncRes p,
     mp4_eProfile p, mp4_eLevel p, mp4_nAllowedPictureTypes p, mp4_nHeaderExtension p, mp4_bReversibleVLC p]"

definition mp4_of_words :: "OMX_U32 list \<Rightarrow> OMX_VIDEO_PARAM_MPEG4TYPE" where
  "mp4_of_words w = \<lparr>mp4_nSize = w ! 0, mp4_nVersion = w ! 1, mp4_nPortIndex = w ! 2, mp4_nSliceHeaderSpacing = w ! 3,
     mp4_bSVH = w ! 4, mp4_bGov = w ! 5, mp4_nPFrames = w ! 6, mp4_nBFrames = w ! 7, mp4_nIDCVLCThreshold = w ! 8,
     mp4_bACPred = w ! 9, mp4_nMaxPacketSize = w ! 10, mp4_nTimeIncRes = w ! 11, mp4_eProfile = w ! 12,
     mp4_eLevel = w ! 13, mp4_nAllowedPictureTypes = w ! 14, mp4_nHeaderExtension = w ! 15, mp4_bReversibleVLC = w ! 16\<rparr>"

definition avc_words :: "OMX_VIDEO_PARAM_AVCTYPE \<Rightarrow> OMX_U32 list" where
  "avc_words p = [avc_nSize p, avc_nVersion p, avc_nPortIndex p, avc_nSliceHeaderSpacing p, avc_nPFrames p, avc_nBFrames p,
     avc_bUseHadamard p, avc_nRefFrames p, avc_nRefIdx10ActiveMinus1 p, avc_nRefIdx11ActiveMinus1 p, avc_bEnableUEP p,
     avc_bEnableFMO p, avc_bEnableASO p, avc_bEnableRS p, avc_eProfile p, avc_eLevel p, avc_nAllowedPictureTypes p,
     avc_bFrameMBsOnly p, avc_bMBAFF p, avc_bEntropyCodingCABAC p, avc_bWeightedPPrediction p,
     avc_nWeightedBipredicitonMode p, avc_bconstIpred p, avc_bDirect8x8Inference p, avc_bDirectSpatialTemporal p,
     avc_nCabacInitIdc p, avc_eLoopFilterMode p]"

definition avc_of_words :: "OMX_U32 list \<Rightarrow> OMX_VIDEO_PARAM_AVCTYPE" where
  "avc_of_words w = \<lparr>avc_nSize = w ! 0, avc_nVersion = w ! 1, avc_nPortIndex = w ! 2, avc_nSliceHeaderSpacing = w ! 3,
     avc_nPFrames = w ! 4, avc_nBFrames = w ! 5, avc_bUseHadamard = w ! 6, avc_nRefFrames = w ! 7,
     avc_nRefIdx10ActiveMinus1 = w ! 8, avc_nRefIdx11ActiveMinus1 = w ! 9, avc_bEnableUEP = w ! 10, avc_bEnableFMO = w ! 11,
     avc_bEnableASO = w ! 12, avc_bEnableRS = w ! 13, avc_eProfile = w ! 14, avc_eLevel = w ! 15,
     avc_nAllowedPictureTypes = w ! 16, avc_bFrameMBsOnly = w ! 17, avc_bMBAFF = w ! 18, avc_bEntropyCodingCABAC = w ! 19,
     avc_bWeightedPPrediction = w ! 20, avc_nWeightedBipredicitonMode = w ! 21, avc_bconstIpred = w ! 22,
     avc_bDirect8x8Inference = w ! 23, avc_bDirectSpatialTemporal = w ! 24, avc_nCabacInitIdc = w ! 25,
     avc_eLoopFilterMode = w ! 26\<rparr>"

definition SetDefaultMp4EncParam :: "OMX_U32 \<Rightarrow> OMX_VIDEO_PARAM_MPEG4TYPE" where
  "SetDefaultMp4EncParam portIndex = \<lparr>mp4_nSize = 68, mp4_nVersion = NX_OMXSetVersion, mp4_nPortIndex = portIndex,
     mp4_nSliceHeaderSpacing = 0, mp4_bSVH = 0, mp4_bGov = 1, mp4_nPFrames = 29, mp4_nBFrames = 0,
     mp4_nIDCVLCThreshold = 0, mp4_bACPred = 0, mp4_nMaxPacketSize = 262144, mp4_nTimeIncRes = 1000, mp4_eProfile = 0x01,
     mp4_eLevel = 0x08, mp4_nAllowedPictureTypes = 0x02, mp4_nHeaderExtension = 0, mp4_bReversibleVLC = 0\<rparr>"

definition SetDefaultAvcEncParam :: "OMX_U32 \<Rightarrow> OMX_VIDEO_PARAM_AVCTYPE" where
  "SetDefaultAvcEncParam portIndex = \<lparr>avc_nSize = 108, avc_nVersion = NX_OMXSetVersion, avc_nPortIndex = portIndex,
     avc_nSliceHeaderSpacing = 0, avc_nPFrames = 29, avc_nBFrames = 0, avc_bUseHadamard = 0, avc_nRefFrames = 1,
     avc_nRefIdx10ActiveMinus1 = 0, avc_nRefIdx11ActiveMinus1 = 0, avc_bEnableUEP = 0, avc_bEnableFMO = 0,
     avc_bEnableASO = 0, avc_bEnableRS = 0, avc_eProfile = 0x01, avc_eLevel = 0x1000, avc_nAllowedPictureTypes = 0x02,
     avc_bFrameMBsOnly = 0, avc_bMBAFF = 0, avc_bEntropyCodingCABAC = 0, avc_bWeightedPPrediction = 0,
     avc_nWeightedBipredicitonMode = 0, avc_bconstIpred = 1, avc_bDirect8x8Inference = 0, avc_bDirectSpatialTemporal = 0,
     avc_nCabacInitIdc = 0, avc_eLoopFilterMode = 0\<rparr>"

text \<open>The image of a struct determines it, and any image of its size is one of a struct.\<close>

lemma mp4_of_words_words [simp]: "mp4_of_words (mp4_words p) = p"
  by (simp add: mp4_of_words_def mp4_words_def)

lemma avc_of_words_words [simp]: "avc_of_words (avc_words p) = p"
  by (simp add: avc_of_words_def avc_words_def)

lemma length_words [simp]: "length (mp4_words p) = 17" "length (avc_words q) = 27"
  by (simp_all add: mp4_words_def avc_words_def)

section \<open>The component\<close>

abbreviation (input) VIDENC_MAX_BUF :: nat where "VIDENC_MAX_BUF \<equiv> 128"
abbreviation (input) VIDENC_NUM_PORT :: nat where "VIDENC_NUM_PORT \<equiv> 2"
abbreviation (input) VIDENC_INPORT_MIN_BUF_CNT :: OMX_U32 where "VIDENC_INPORT_MIN_BUF_CNT \<equiv> 6"
abbreviation (input) VIDENC_INPORT_MIN_BUF_SIZE :: OMX_U32 where "VIDENC_INPORT_MIN_BUF_SIZE \<equiv> 8355840"
abbreviation (input) VIDENC_OUTPORT_MIN_BUF_CNT :: OMX_U32 where "VIDENC_OUTPORT_MIN_BUF_CNT \<equiv> 8"
abbreviation (input) VIDENC_OUTPORT_MIN_BUF_SIZE :: OMX_U32 where "VIDENC_OUTPORT_MIN_BUF_SIZE \<equiv> 4194304"
abbreviation (input) VIDENC_DEF_FRAMERATE :: OMX_U32 where "VIDENC_DEF_FRAMERATE \<equiv> 30"
abbreviation (input) VIDENC_DEF_BITRATE :: OMX_U32 where "VIDENC_DEF_BITRATE \<equiv> 3145728"
abbreviation (input) OMX_COLOR_FormatAndroidOpaque :: OMX_U32 where "OMX_COLOR_FormatAndroidOpaque \<equiv> 0x7F000789"

text \<open>
  \<open>omxMp4EncParam\<close> and \<open>omxAVCEncParam\<close> lie one behind the other. \<open>pPictureBuf\<close> is never used; \<open>vpuCodecId\<close>
  is written, and never read: \<open>None\<close> is the 0 of \<open>NxMemset\<close>.
\<close>

record NX_VIDENC = NX_IO_COMP +
  inputFormat :: OMX_VIDEO_PARAM_PORTFORMATTYPE
  outputFormat :: OMX_VIDEO_PARAM_PORTFORMATTYPE
  bSendCodecSpecificInfo :: bool
  omxMp4EncParam :: OMX_VIDEO_PARAM_MPEG4TYPE
  omxAVCEncParam :: OMX_VIDEO_PARAM_AVCTYPE
  bUseNativeBuffer :: bool
  bMetaDataInBuffers :: bool
  encWidth :: OMX_U32
  encHeight :: OMX_U32
  encKeyInterval :: OMX_U32
  encFrameRate :: OMX_U32
  encBitRate :: OMX_U32
  encIntraRefreshMbs :: OMX_U32
  pPrevInputBuffer :: ptr
  pSeqBuf :: "OMX_U8 list"
  seqBufSize :: int
  bCodecSpecificInfo :: bool
  hCSCMem :: "NX_VID_MEMORY option"
  hVpuCodec :: ptr
  vpuCodecId :: "venc_codec option"

text \<open>The component after \<open>NxMemset\<close> to 0.\<close>

definition zero_videnc :: NX_VIDENC where
  "zero_videnc = \<lparr>hdr_mem = (\<lambda>_. None), byte_mem = (\<lambda>_. None), cmd_mem = (\<lambda>_. None), trace = [],
     comp_nVersion = 0, hComp = NULL, nNumPort = 0, compName = [], compRole = [], compUUID = replicate 128 0,
     pPort = (\<lambda>_. zero_port), pBufQueue = (\<lambda>_. zero_queue), eCurState = OMX_StateInvalid,
     eNewState = OMX_StateInvalid,
     pCallbacks = \<lparr>cbEventHandler = NULL, cbEmptyBufferDone = NULL, cbFillBufferDone = NULL\<rparr>,
     pCallbackData = NULL, eCmdThreadCmd = NX_THREAD_CMD_INVALID, hSemCmd = None, hSemCmdWait = None,
     cmdQueue = zero_queue, cmdId = 0,
     eCmdBufThread = NX_THREAD_CMD_INVALID, hBufAllocSem = None, hBufCtrlSem = None, hBufChangeSem = None,
     pInputBuffers = replicate VIDENC_MAX_BUF NULL, pOutputBuffers = replicate VIDENC_MAX_BUF NULL,
     inputFormat = zero_format, outputFormat = zero_format, bSendCodecSpecificInfo = False,
     omxMp4EncParam = mp4_of_words (replicate 17 0), omxAVCEncParam = avc_of_words (replicate 27 0),
     bUseNativeBuffer = False, bMetaDataInBuffers = False, encWidth = 0, encHeight = 0, encKeyInterval = 0,
     encFrameRate = 0, encBitRate = 0, encIntraRefreshMbs = 0, pPrevInputBuffer = NULL,
     pSeqBuf = replicate 1024 0, seqBufSize = 0, bCodecSpecificInfo = False, hCSCMem = None, hVpuCodec = NULL,
     vpuCodecId = None\<rparr>"

end
