(* ===== verification/VidEncParam.thy ===== *)
theory VidEncParam
  imports VidEncState
begin

text \<open>
  The parameters of the video encoder (\<open>NX_VidEncGetParameter\<close>, \<open>NX_VidEncSetParameter\<close> of
  \<open>NX_OMXVideoEncoder.c\<close>). The index and the struct it selects are one datatype.
\<close>

section \<open>Structs\<close>

record OMX_VIDEO_PARAM_BITRATETYPE =
  br_nPortIndex :: OMX_U32
  eControlRate :: OMX_U32
  nTargetBitrate :: OMX_U32

record OMX_VIDEO_PARAM_INTRAREFRESHTYPE =
  irf_nPortIndex :: OMX_U32
  eRefreshMode :: OMX_U32
  nAirMBs :: OMX_U32
  nAirRef :: OMX_U32
  nCirMBs :: OMX_U32

record OMX_VIDEO_PARAM_ERRORCORRECTIONTYPE =
  ec_nPortIndex :: OMX_U32
  bEnableHEC :: bool
  bEnableResync :: bool
  nResynchMarkerSpacing :: OMX_U32
  bEnableDataPartitioning :: bool
  bEnableRVLC :: bool

record OMX_CONFIG_FRAMERATETYPE =
  fr_nPortIndex :: OMX_U32
  xEncodeFramerate :: OMX_U32

datatype venc_param =
    EncPortFormat OMX_VIDEO_PARAM_PORTFORMATTYPE
  | EncMpeg4 OMX_VIDEO_PARAM_MPEG4TYPE
  | EncAvc OMX_VIDEO_PARAM_AVCTYPE
  | EncProfileLevel OMX_VIDEO_PARAM_PROFILELEVELTYPE
  | EncBitrate OMX_VIDEO_PARAM_BITRATETYPE
  | EncErrorCorrection OMX_VIDEO_PARAM_ERRORCORRECTIONTYPE
  | EncIntraRefresh OMX_VIDEO_PARAM_INTRAREFRESHTYPE
  | EncFramerate OMX_CONFIG_FRAMERATETYPE
  | EncComponentRole string
  | EncNativeBuffers OMX_U32 bool
  | EncStoreMetaData OMX_U32 bool
  | EncPortDefinition OMX_PARAM_PORTDEFINITIONTYPE
  | EncOther

abbreviation (input) OMX_Video_ControlRateVariable :: OMX_U32 where "OMX_Video_ControlRateVariable \<equiv> 1"
abbreviation (input) OMX_VIDEO_IntraRefreshCyclic :: OMX_U32 where "OMX_VIDEO_IntraRefreshCyclic \<equiv> 0"
abbreviation (input) OMX_VIDEO_IntraRefreshAdaptive :: OMX_U32 where "OMX_VIDEO_IntraRefreshAdaptive \<equiv> 1"
abbreviation (input) OMX_VIDEO_IntraRefreshBoth :: OMX_U32 where "OMX_VIDEO_IntraRefreshBoth \<equiv> 2"
abbreviation (input) OMX_VIDEO_AVCProfileBaseline :: OMX_U32 where "OMX_VIDEO_AVCProfileBaseline \<equiv> 1"

definition gstSuportedAVCLevels :: "OMX_U32 list" where
  "gstSuportedAVCLevels = [0x01, 0x02, 0x04, 0x08, 0x10, 0x20, 0x40, 0x80, 0x100, 0x200, 0x400, 0x800, 0x1000, 0x2000]"

section \<open>Reading\<close>

definition NX_VidEncGetParameter :: "venc_param \<Rightarrow> NX_VIDENC \<Rightarrow> (OMX_ERRORTYPE \<times> venc_param) option" where
  "NX_VidEncGetParameter par s =
     (case par of
        EncPortFormat f \<Rightarrow>
          (if fmt_nPortIndex f = 0 then
             (if fmt_nIndex f = 0 then Some (OMX_ErrorNone, EncPortFormat
                ((inputFormat s)\<lparr>fmt_eColorFormat := OMX_COLOR_FormatYUV420Planar, fmt_nIndex := fmt_nIndex f\<rparr>))
              else if fmt_nIndex f = 1 then Some (OMX_ErrorNone, EncPortFormat
                ((inputFormat s)\<lparr>fmt_eColorFormat := OMX_COLOR_FormatAndroidOpaque, fmt_nIndex := fmt_nIndex f\<rparr>))
              else Some (OMX_ErrorNoMore, par))
           else if fmt_nIndex f > 0 then Some (OMX_ErrorNoMore, par)
           else Some (OMX_ErrorNone, EncPortFormat ((outputFormat s)\<lparr>fmt_nIndex := fmt_nIndex f\<rparr>)))
      | EncMpeg4 p \<Rightarrow>
          (if mp4_nPortIndex p \<noteq> 1 then Some (OMX_ErrorBadPortIndex, par)
           else Some (OMX_ErrorNone, EncMpeg4 (omxMp4EncParam s)))
      | EncAvc p \<Rightarrow>
          (if avc_nPortIndex p \<noteq> 1 then Some (OMX_ErrorBadPortIndex, par)
           else Some (OMX_ErrorNone, EncAvc ((omxAVCEncParam s)\<lparr>avc_nPortIndex := 1\<rparr>)))
      | EncProfileLevel q \<Rightarrow>
          (if nProfileIndex q \<ge> 14 then Some (OMX_ErrorNoMore, par)
           else if pl_nPortIndex q > 1 then Some (OMX_ErrorBadPortIndex, par)
           else do {
             l \<leftarrow> arr gstSuportedAVCLevels (unat (nProfileIndex q));
             Some (OMX_ErrorNone, EncProfileLevel (q\<lparr>pl_eProfile := OMX_VIDEO_AVCProfileBaseline, pl_eLevel := l\<rparr>)) })
      | EncBitrate b \<Rightarrow> Some (OMX_ErrorNone, EncBitrate
          (b\<lparr>eControlRate := OMX_Video_ControlRateVariable, nTargetBitrate := encBitRate s, br_nPortIndex := 1\<rparr>))
      | EncErrorCorrection e \<Rightarrow> Some (OMX_ErrorNone, EncErrorCorrection
          (e\<lparr>ec_nPortIndex := 1, bEnableHEC := False, bEnableResync := False, nResynchMarkerSpacing := 0,
             bEnableDataPartitioning := False, bEnableRVLC := False\<rparr>))
      | EncPortDefinition d \<Rightarrow> (let (e, d) = NX_BaseGetParameter d s in Some (e, EncPortDefinition d))
      | _ \<Rightarrow> Some (OMX_ErrorUnsupportedIndex, par))"

section \<open>Writing\<close>

definition set_enc_codec :: "OMX_U32 \<Rightarrow> venc_codec \<Rightarrow> NX_VIDENC \<Rightarrow> NX_VIDENC" where
  "set_enc_codec coding codec s =
     s\<lparr>inputFormat := (inputFormat s)\<lparr>fmt_eCompressionFormat := OMX_VIDEO_CodingUnused,
         fmt_eColorFormat := OMX_COLOR_FormatYUV420Planar, fmt_nPortIndex := 0\<rparr>,
       outputFormat := (outputFormat s)\<lparr>fmt_eCompressionFormat := coding,
         fmt_eColorFormat := OMX_COLOR_FormatUnused, fmt_nPortIndex := 1\<rparr>,
       vpuCodecId := Some codec\<rparr>"

definition EncSetParameter_Role :: "string \<Rightarrow> NX_VIDENC \<Rightarrow> OMX_ERRORTYPE \<times> NX_VIDENC" where
  "EncSetParameter_Role role s =
     (if role = ''video_encoder.avc'' then
        (OMX_ErrorNone, (set_enc_codec OMX_VIDEO_CodingAVC NX_AVC_ENC s)\<lparr>compRole := role\<rparr>)
      else if role = ''video_encoder.mpeg4'' then
        (OMX_ErrorNone, (set_enc_codec OMX_VIDEO_CodingMPEG4 NX_MP4_ENC s)\<lparr>compRole := role\<rparr>)
      else (OMX_ErrorBadParameter, s))"

text \<open>The size of a frame that the output port announces; \<open>int32_t\<close> arithmetic, \<open>>>\<close> keeps the sign.\<close>

definition enc_frame_size :: "OMX_S32 \<Rightarrow> OMX_S32 \<Rightarrow> OMX_U32" where
  "enc_frame_size h_stride v_stride =
     h_stride * v_stride + ALIGN (signed_drop_bit 1 v_stride) 16 * ALIGN (signed_drop_bit 1 h_stride) 16 * 2"

definition set_framerate :: "OMX_CONFIG_FRAMERATETYPE \<Rightarrow> NX_VIDENC \<Rightarrow> OMX_ERRORTYPE \<times> NX_VIDENC" where
  "set_framerate f s =
     (if fr_nPortIndex f \<noteq> 1 then (OMX_ErrorBadPortIndex, s)
      else if xEncodeFramerate f = 0 then (OMX_ErrorNone, s\<lparr>encFrameRate := VIDENC_DEF_FRAMERATE\<rparr>)
      else (OMX_ErrorNone, s\<lparr>encFrameRate := xEncodeFramerate f\<rparr>))"

text \<open>
  \<open>memcpy\<close> of \<open>sizeof(OMX_VIDEO_PARAM_AVCTYPE)\<close> bytes onto \<open>omxMp4EncParam\<close>: the words that do not fit run on
  into \<open>omxAVCEncParam\<close>, which lies behind it.
\<close>

definition copy_avc_param :: "OMX_VIDEO_PARAM_AVCTYPE \<Rightarrow> NX_VIDENC \<Rightarrow> NX_VIDENC" where
  "copy_avc_param p s =
     (let w = avc_words p @ drop 27 (mp4_words (omxMp4EncParam s) @ avc_words (omxAVCEncParam s))
      in s\<lparr>omxMp4EncParam := mp4_of_words (take 17 w), omxAVCEncParam := avc_of_words (drop 17 w)\<rparr>)"

text \<open>
  The branch for the intra refresh ends without a \<open>break\<close>: it goes on with the branch for the frame rate and
  reads the same struct as an \<open>OMX_CONFIG_FRAMERATETYPE\<close>, whose last member is where \<open>eRefreshMode\<close> lies.
\<close>

definition set_intra_refresh :: "OMX_VIDEO_PARAM_INTRAREFRESHTYPE \<Rightarrow> NX_VIDENC \<Rightarrow> OMX_ERRORTYPE \<times> NX_VIDENC" where
  "set_intra_refresh p s =
     (if eRefreshMode p = OMX_VIDEO_IntraRefreshCyclic then
        set_framerate \<lparr>fr_nPortIndex = irf_nPortIndex p, xEncodeFramerate = eRefreshMode p\<rparr>
          (s\<lparr>encIntraRefreshMbs := nCirMBs p\<rparr>)
      else if eRefreshMode p = OMX_VIDEO_IntraRefreshAdaptive then (OMX_ErrorUnsupportedSetting, s)
      else if eRefreshMode p = OMX_VIDEO_IntraRefreshBoth then (OMX_ErrorUnsupportedSetting, s)
      else (OMX_ErrorBadParameter, s))"

definition NX_VidEncSetParameter :: "venc_param \<Rightarrow> NX_VIDENC \<Rightarrow> OMX_ERRORTYPE \<times> NX_VIDENC" where
  "NX_VidEncSetParameter par s =
     (case par of
        EncComponentRole role \<Rightarrow> EncSetParameter_Role role s
      | EncNativeBuffers port enable \<Rightarrow>
          (if port \<noteq> 1 then (OMX_ErrorBadPortIndex, s) else (OMX_ErrorNone, s\<lparr>bUseNativeBuffer := enable\<rparr>))
      | EncPortFormat f \<Rightarrow>
          (let s = (if fmt_nPortIndex f = 0 then s\<lparr>inputFormat := f\<rparr> else s\<lparr>outputFormat := f\<rparr>)
           in (OMX_ErrorNone, upd_port 1 (\<lambda>p. p\<lparr>nBufferSize := enc_frame_size (encWidth s) (encHeight s)\<rparr>) s))
      | EncMpeg4 p \<Rightarrow>
          (if mp4_nPortIndex p \<noteq> 1 then (OMX_ErrorBadPortIndex, s) else (OMX_ErrorNone, s\<lparr>omxMp4EncParam := p\<rparr>))
      | EncAvc p \<Rightarrow>
          (if avc_nPortIndex p \<noteq> 1 then (OMX_ErrorBadPortIndex, s) else (OMX_ErrorNone, copy_avc_param p s))
      | EncBitrate b \<Rightarrow>
          (if br_nPortIndex b \<noteq> 1 then (OMX_ErrorBadPortIndex, s)
           else if nTargetBitrate b = 0 then (OMX_ErrorNone, s\<lparr>encBitRate := VIDENC_DEF_BITRATE\<rparr>)
           else (OMX_ErrorNone, s\<lparr>encBitRate := nTargetBitrate b\<rparr>))
      | EncIntraRefresh p \<Rightarrow> set_intra_refresh p s
      | EncFramerate f \<Rightarrow> set_framerate f s
      | EncErrorCorrection e \<Rightarrow> (OMX_ErrorNone, s)
      | EncStoreMetaData port b \<Rightarrow> (OMX_ErrorNone, s\<lparr>bMetaDataInBuffers := b\<rparr>)
      | EncPortDefinition d \<Rightarrow> NX_BaseSetParameter d s
      | _ \<Rightarrow> (OMX_ErrorUnsupportedIndex, s))"

section \<open>Properties\<close>

text \<open>
  What a client sets, it reads back: the bit rate (0 selects the default), the MPEG-4 parameters and, on the
  output port, the format (its index has to be 0), whatever other parameters are set in between that are none
  of these.
\<close>

theorem enc_params_round_trip:
  assumes "br_nPortIndex b = 1" and "mp4_nPortIndex p = 1" and "fmt_nPortIndex f = 1" and "fmt_nIndex f = 0"
    and "e \<in> {EncErrorCorrection ec, EncStoreMetaData n m, EncNativeBuffers n m, EncFramerate fr, EncIntraRefresh irf}"
  defines "set_all \<equiv> \<lambda>s. snd (NX_VidEncSetParameter e (snd (NX_VidEncSetParameter (EncPortFormat f)
     (snd (NX_VidEncSetParameter (EncMpeg4 p) (snd (NX_VidEncSetParameter (EncBitrate b) s)))))))"
  shows "NX_VidEncGetParameter (EncBitrate b) (set_all s) = Some (OMX_ErrorNone, EncBitrate (b\<lparr>eControlRate := 1,
       nTargetBitrate := (if nTargetBitrate b = 0 then VIDENC_DEF_BITRATE else nTargetBitrate b)\<rparr>)) \<and>
     NX_VidEncGetParameter (EncMpeg4 p) (set_all s) = Some (OMX_ErrorNone, EncMpeg4 p) \<and>
     NX_VidEncGetParameter (EncPortFormat f) (set_all s) = Some (OMX_ErrorNone, EncPortFormat f)"
  using assms(1-5)
  by (auto simp: set_all_def NX_VidEncSetParameter_def NX_VidEncGetParameter_def set_intra_refresh_def set_framerate_def
      Let_def upd_port_def)

theorem enc_params_round_trip_witness:
  "NX_VidEncGetParameter (EncBitrate \<lparr>br_nPortIndex = 1, eControlRate = 0, nTargetBitrate = 5\<rparr>)
     (snd (NX_VidEncSetParameter (EncStoreMetaData 0 True) (snd (NX_VidEncSetParameter (EncPortFormat (zero_format\<lparr>fmt_nPortIndex := 1\<rparr>))
       (snd (NX_VidEncSetParameter (EncMpeg4 (SetDefaultMp4EncParam 1))
          (snd (NX_VidEncSetParameter (EncBitrate \<lparr>br_nPortIndex = 1, eControlRate = 0, nTargetBitrate = 5\<rparr>) zero_videnc))))))))
   = Some (OMX_ErrorNone, EncBitrate \<lparr>br_nPortIndex = 1, eControlRate = 1, nTargetBitrate = 5\<rparr>)"
  using enc_params_round_trip[of "\<lparr>br_nPortIndex = 1, eControlRate = 0, nTargetBitrate = 5\<rparr>" "SetDefaultMp4EncParam 1"
      "zero_format\<lparr>fmt_nPortIndex := 1\<rparr>" "EncStoreMetaData 0 True" _ 0 True _ _ zero_videnc]
  by (simp add: SetDefaultMp4EncParam_def zero_format_def)

text \<open>
  The AVC parameters do not come back: they are stored over the MPEG-4 parameters, every word of which is
  lost, and what the client reads are the words 17 to 26 that it wrote, followed by the last 17 words of what
  was there before.
\<close>

theorem avc_params_are_misplaced:
  assumes "avc_nPortIndex a = 1"
  shows "\<exists>t. NX_VidEncSetParameter (EncAvc a) s = (OMX_ErrorNone, t) \<and>
     mp4_words (omxMp4EncParam t) = take 17 (avc_words a) \<and>
     avc_words (omxAVCEncParam t) = drop 17 (avc_words a) @ drop 10 (avc_words (omxAVCEncParam s)) \<and>
     NX_VidEncGetParameter (EncAvc a) t = Some (OMX_ErrorNone, EncAvc
       ((avc_of_words (drop 17 (avc_words a) @ drop 10 (avc_words (omxAVCEncParam s))))\<lparr>avc_nPortIndex := 1\<rparr>))"
  using assms
  by (simp add: NX_VidEncSetParameter_def NX_VidEncGetParameter_def copy_avc_param_def Let_def)
    (simp add: mp4_words_def mp4_of_words_def avc_words_def avc_of_words_def)

theorem avc_params_are_misplaced_witness:
  "\<exists>t. NX_VidEncSetParameter (EncAvc ((SetDefaultAvcEncParam 1)\<lparr>avc_nPFrames := 7\<rparr>)) zero_videnc = (OMX_ErrorNone, t) \<and>
     avc_words (omxAVCEncParam t) =
       drop 17 (avc_words ((SetDefaultAvcEncParam 1)\<lparr>avc_nPFrames := 7\<rparr>)) @ drop 10 (avc_words (omxAVCEncParam zero_videnc))"
  using avc_params_are_misplaced[of "(SetDefaultAvcEncParam 1)\<lparr>avc_nPFrames := 7\<rparr>" zero_videnc]
  by (auto simp: SetDefaultAvcEncParam_def)

text \<open>
  Setting the intra refresh falls through into the branch for the frame rate: the cyclic mode, the only one
  that is supported, sets the frame rate of the encoder back to the default, whatever the client had asked
  for; on any other port than 1 the call reports an error although it has stored the number of macro blocks.
\<close>

theorem intra_refresh_resets_frame_rate:
  "NX_VidEncSetParameter (EncIntraRefresh p) s =
     (if eRefreshMode p = OMX_VIDEO_IntraRefreshCyclic then
        (if irf_nPortIndex p = 1
         then (OMX_ErrorNone, s\<lparr>encIntraRefreshMbs := nCirMBs p, encFrameRate := VIDENC_DEF_FRAMERATE\<rparr>)
         else (OMX_ErrorBadPortIndex, s\<lparr>encIntraRefreshMbs := nCirMBs p\<rparr>))
      else (if eRefreshMode p = OMX_VIDEO_IntraRefreshAdaptive \<or> eRefreshMode p = OMX_VIDEO_IntraRefreshBoth
            then OMX_ErrorUnsupportedSetting else OMX_ErrorBadParameter, s))"
  by (auto simp: NX_VidEncSetParameter_def set_intra_refresh_def set_framerate_def)

end
