(* ===== verification/VidEncBuf.thy ===== *)
theory VidEncBuf
  imports VidEncParam
begin

text \<open>
  The buffer entry points of the video encoder: \<open>NX_VidEncUseBuffer\<close>, \<open>NX_VidEncAllocateBuffer\<close>,
  \<open>NX_VidEncFreeBuffer\<close>, \<open>NX_VidEncEmptyThisBuffer\<close> and \<open>NX_VidEncFillThisBuffer\<close>, and the shape of the
  component that every operation keeps.
\<close>

section \<open>Registering buffers\<close>

text \<open>\<open>p\<close> is the header block that \<open>NxMalloc\<close> returns; the second result is \<open>*ppBufferHdr\<close> if written.\<close>

definition NX_VidEncUseBuffer ::
  "ptr \<Rightarrow> OMX_U32 \<Rightarrow> ptr \<Rightarrow> OMX_U32 \<Rightarrow> ptr \<Rightarrow> NX_VIDENC \<Rightarrow> (OMX_ERRORTYPE \<times> ptr option \<times> NX_VIDENC) option" where
  "NX_VidEncUseBuffer p port app sz buf s =
     (if unat port \<ge> nNumPort s then Some (OMX_ErrorBadPortIndex, None, s)
      else if OMX_StateLoaded \<noteq> eCurState s \<or> OMX_StateIdle \<noteq> eNewState s then
        Some (OMX_ErrorIncorrectStateTransition, None, s)
      else
        (let k = port_of port in
         if nBufferSize (pPort s k) > sz then Some (OMX_ErrorBadParameter, None, s)
         else do {
           slot \<leftarrow> find_slot (\<lambda>q. q = NULL) (port_bufs k s) (unat (nBufferCountActual (pPort s k)));
           case slot of
             None \<Rightarrow> Some (OMX_ErrorInsufficientResources, None, s)
           | Some i \<Rightarrow>
               (let s = set_port_buf k i p s in
                if p = NULL then Some (OMX_ErrorInsufficientResources, None, s)
                else do {
                  let s = s\<lparr>hdr_mem := (hdr_mem s)(p := Some (new_hdr k buf sz app s))\<rparr>;
                  s \<leftarrow> buffer_added NX_BUFHEADER_TYPE_USEBUFFER k s;
                  Some (OMX_ErrorNone, Some p, s) }) }))"

text \<open>\<open>p\<close> and \<open>pb\<close> are the header and the data block that \<open>NxMalloc\<close> returns.\<close>

definition NX_VidEncAllocateBuffer ::
  "enc_lib \<Rightarrow> ptr \<Rightarrow> ptr \<Rightarrow> OMX_U32 \<Rightarrow> ptr \<Rightarrow> OMX_U32 \<Rightarrow> NX_VIDENC \<Rightarrow> (OMX_ERRORTYPE \<times> ptr option \<times> NX_VIDENC) option" where
  "NX_VidEncAllocateBuffer lib p pb port app sz s =
     (if unat port \<ge> nNumPort s then Some (OMX_ErrorBadPortIndex, None, s)
      else if OMX_StateLoaded \<noteq> eCurState s \<or> OMX_StateIdle \<noteq> eNewState s then
        Some (OMX_ErrorIncorrectStateTransition, None, s)
      else
        (let k = port_of port in
         if nBufferSize (pPort s k) > sz then Some (OMX_ErrorBadParameter, None, s)
         else do {
           slot \<leftarrow> find_slot (\<lambda>q. q = NULL) (port_bufs k s) (unat (nBufferCountActual (pPort s k)));
           case slot of
             None \<Rightarrow> do {
               b0 \<leftarrow> arr (port_bufs k s) 0;
               Some (OMX_ErrorInsufficientResources, Some b0, upd_port k (\<lambda>q. q\<lparr>bPopulated := True\<rparr>) s) }
           | Some i \<Rightarrow>
               (let s = set_port_buf k i p s in
                if p = NULL then Some (OMX_ErrorInsufficientResources, None, s)
                else
                  (let s = s\<lparr>hdr_mem := (hdr_mem s)(p := Some (zero_hdr\<lparr>hdr_nSize := sizeof_hdr,
                             hdr_nVersion := NX_OMXSetVersion, pBuffer := pb\<rparr>))\<rparr>
                   in if pb = NULL then Some (OMX_ErrorInsufficientResources, None, s)
                   else do {
                     let s = s\<lparr>hdr_mem := (hdr_mem s)(p := Some (new_hdr k pb sz app s)),
                               byte_mem := (byte_mem s)(pb := Some (map (block_junk lib) [0..<unat sz]))\<rparr>;
                     s \<leftarrow> buffer_added NX_BUFHEADER_TYPE_ALLOCATED k s;
                     Some (OMX_ErrorNone, Some p, s) })) }))"

definition NX_VidEncFreeBuffer :: "OMX_U32 \<Rightarrow> ptr \<Rightarrow> NX_VIDENC \<Rightarrow> (OMX_ERRORTYPE \<times> NX_VIDENC) option" where
  "NX_VidEncFreeBuffer port b s =
     (if unat port \<ge> nNumPort s then Some (OMX_ErrorBadPortIndex, s)
      else if OMX_StateLoaded \<noteq> eNewState s then Some (OMX_ErrorIncorrectStateTransition, s)
      else
        (let k = port_of port in
         if b = NULL then Some (OMX_ErrorBadParameter, s)
         else do {
           slot \<leftarrow> find_slot (\<lambda>q. b = q) (port_bufs k s) (unat (nBufferCountActual (pPort s k)));
           case slot of
             None \<Rightarrow> Some (OMX_ErrorInsufficientResources, s)
           | Some i \<Rightarrow> do { s \<leftarrow> release_buffer b k i s; Some (OMX_ErrorNone, s) } }))"

section \<open>Queueing buffers\<close>

text \<open>Both calls are the same code on different queues; \<open>k\<close> is the index of the queue.\<close>

definition enc_queue_buffer :: "nat \<Rightarrow> ptr \<Rightarrow> NX_VIDENC \<Rightarrow> (OMX_ERRORTYPE \<times> NX_VIDENC) option" where
  "enc_queue_buffer k b s =
     (if \<not> accepts_buffers s then Some (OMX_ErrorIncorrectStateOperation, s)
      else
        (let (rc, q) = NX_PushQueue (pBufQueue s k) b in
         if 0 \<noteq> rc then Some (OMX_ErrorUndefined, s)
         else do {
           m \<leftarrow> post_handle (hBufChangeSem s);
           Some (OMX_ErrorNone, s\<lparr>pBufQueue := (pBufQueue s)(k := q), hBufChangeSem := m\<rparr>) }))"

definition NX_VidEncEmptyThisBuffer :: "ptr \<Rightarrow> NX_VIDENC \<Rightarrow> (OMX_ERRORTYPE \<times> NX_VIDENC) option" where
  "NX_VidEncEmptyThisBuffer b s = enc_queue_buffer 0 b s"

definition NX_VidEncFillThisBuffer :: "ptr \<Rightarrow> NX_VIDENC \<Rightarrow> (OMX_ERRORTYPE \<times> NX_VIDENC) option" where
  "NX_VidEncFillThisBuffer b s = enc_queue_buffer 1 b s"

section \<open>The shape of the component\<close>

text \<open>
  What the declarations of C fix and what the queues need: two ports, arrays of their length, queues that are
  ring buffers in use. \<open>pPrevInputBuffer\<close> belongs here because no operation ever sets it.
\<close>

definition enc_wf :: "NX_VIDENC \<Rightarrow> bool" where
  "enc_wf s \<longleftrightarrow> nNumPort s = VIDENC_NUM_PORT \<and> eDir (pPort s 0) = OMX_DirInput \<and> eDir (pPort s 1) = OMX_DirOutput \<and>
     length (pInputBuffers s) = VIDENC_MAX_BUF \<and> length (pOutputBuffers s) = VIDENC_MAX_BUF \<and>
     length (pSeqBuf s) = 1024 \<and> pPrevInputBuffer s = NULL \<and>
     buf_queue (pBufQueue s 0) \<and> buf_queue (pBufQueue s 1) \<and> queue_inv (cmdQueue s) \<and> bEnabled (cmdQueue s)"

text \<open>What the steps that do not concern the shape leave alone.\<close>

definition shape where
  "shape s = (nNumPort s, eDir (pPort s 0), eDir (pPort s 1), length (pInputBuffers s), length (pOutputBuffers s),
     length (pSeqBuf s), pPrevInputBuffer s, pBufQueue s, cmdQueue s)"

lemma enc_wf_shape: "shape t = shape s \<Longrightarrow> enc_wf t = enc_wf s"
  by (simp add: enc_wf_def shape_def)

lemma shape_upd [simp]:
  "shape (s\<lparr>hdr_mem := x1\<rparr>) = shape s" "shape (s\<lparr>byte_mem := x2\<rparr>) = shape s" "shape (s\<lparr>cmd_mem := x3\<rparr>) = shape s"
  "shape (s\<lparr>trace := x4\<rparr>) = shape s" "shape (s\<lparr>hBufAllocSem := x5\<rparr>) = shape s" "shape (s\<lparr>hBufCtrlSem := x6\<rparr>) = shape s"
  "shape (s\<lparr>hBufChangeSem := x7\<rparr>) = shape s" "shape (s\<lparr>hSemCmd := x8\<rparr>) = shape s" "shape (s\<lparr>hSemCmdWait := x9\<rparr>) = shape s"
  "shape (s\<lparr>eCurState := x10\<rparr>) = shape s" "shape (s\<lparr>eNewState := x11\<rparr>) = shape s" "shape (s\<lparr>eCmdBufThread := x12\<rparr>) = shape s"
  "shape (s\<lparr>hCSCMem := x13\<rparr>) = shape s" "shape (s\<lparr>hVpuCodec := x14\<rparr>) = shape s" "shape (s\<lparr>seqBufSize := x15\<rparr>) = shape s"
  "shape (s\<lparr>bCodecSpecificInfo := x16\<rparr>) = shape s" "shape (s\<lparr>bSendCodecSpecificInfo := x17\<rparr>) = shape s"
  "shape (s\<lparr>encWidth := x18\<rparr>) = shape s" "shape (s\<lparr>encHeight := x19\<rparr>) = shape s" "shape (s\<lparr>inputFormat := x20\<rparr>) = shape s"
  "shape (s\<lparr>outputFormat := x21\<rparr>) = shape s" "shape (s\<lparr>encFrameRate := x22\<rparr>) = shape s" "shape (s\<lparr>encBitRate := x23\<rparr>) = shape s"
  "shape (s\<lparr>encIntraRefreshMbs := x24\<rparr>) = shape s" "shape (s\<lparr>bUseNativeBuffer := x25\<rparr>) = shape s"
  "shape (s\<lparr>bMetaDataInBuffers := x26\<rparr>) = shape s" "shape (s\<lparr>vpuCodecId := x27\<rparr>) = shape s" "shape (s\<lparr>compRole := x28\<rparr>) = shape s"
  "shape (s\<lparr>omxMp4EncParam := x29\<rparr>) = shape s" "shape (s\<lparr>omxAVCEncParam := x30\<rparr>) = shape s" "shape (s\<lparr>cmdId := x31\<rparr>) = shape s"
  "shape (s\<lparr>pCallbacks := x32\<rparr>) = shape s" "shape (s\<lparr>pCallbackData := x33\<rparr>) = shape s" "shape (emit e s) = shape s"
  "shape (set_port_buf k i p s) = shape s"
  by (simp_all add: shape_def emit_def set_port_buf_def)

lemma shape_upd_port: "(\<And>p. eDir (f p) = eDir p) \<Longrightarrow> shape (upd_port k f s) = shape s"
  by (auto simp: shape_def upd_port_def)

lemma shape_dir [simp]:
  "shape (upd_port k (\<lambda>p. p\<lparr>nAllocatedBuf := f p\<rparr>) s) = shape s" "shape (upd_port k (\<lambda>p. p\<lparr>bPopulated := b\<rparr>) s) = shape s"
  "shape (upd_port k (\<lambda>p. p\<lparr>bPopulated := b, eBufferType := ty\<rparr>) s) = shape s" "shape (upd_port k (\<lambda>p. p\<lparr>nBufferSize := n\<rparr>) s) = shape s"
  by (simp_all add: shape_upd_port)

lemma shape_added: "buffer_added ty k s = Some t \<Longrightarrow> shape t = shape s"
  by (auto simp: buffer_added_def Let_def split: if_splits bind_splits)

lemma shape_release: "release_buffer b k i s = Some t \<Longrightarrow> shape t = shape s"
  by (auto simp: release_buffer_def Let_def split: if_splits bind_splits)

lemma shape_use: "NX_VidEncUseBuffer p port app sz buf s = Some (e, h, t) \<Longrightarrow> shape t = shape s"
  by (auto simp: NX_VidEncUseBuffer_def Let_def split: if_splits bind_splits option.splits dest!: shape_added)

lemma shape_allocate: "NX_VidEncAllocateBuffer lib p pb port app sz s = Some (e, h, t) \<Longrightarrow> shape t = shape s"
  by (auto simp: NX_VidEncAllocateBuffer_def Let_def split: if_splits bind_splits option.splits dest!: shape_added)

lemma shape_free: "NX_VidEncFreeBuffer port b s = Some (e, t) \<Longrightarrow> shape t = shape s"
  by (auto simp: NX_VidEncFreeBuffer_def Let_def split: if_splits bind_splits option.splits dest!: shape_release)

lemma enc_wf_queue_buffer:
  assumes "enc_queue_buffer k b s = Some (e, t)" and "enc_wf s" and "k < 2"
  shows "enc_wf t"
  using assms buf_queue_push[of "pBufQueue s k" b]
  by (auto simp: enc_queue_buffer_def enc_wf_def less_2_cases_iff split: if_splits bind_splits prod.splits)

lemma shape_base_set: "NX_BaseSetParameter d s = (e, t) \<Longrightarrow> shape t = shape s"
  by (auto simp: NX_BaseSetParameter_def Let_def shape_upd_port set_video_def set_image_def
      split: if_splits OMX_PORTDOMAINTYPE.splits)

lemma shape_set_parameter: "NX_VidEncSetParameter par s = (e, t) \<Longrightarrow> shape t = shape s"
  by (auto simp: NX_VidEncSetParameter_def EncSetParameter_Role_def set_enc_codec_def set_intra_refresh_def set_framerate_def
      copy_avc_param_def Let_def shape_base_set split: venc_param.splits if_splits)

end
