(* ===== verification/VidEncFrame.thy ===== *)
theory VidEncFrame
  imports VidEncBuf "HOL-Library.Sublist"
begin

text \<open>
  The codec of the video encoder: \<open>EncoderOpen\<close>, \<open>EncoderClose\<close> and \<open>EncodeFrame\<close>, and what one call of
  \<open>EncodeFrame\<close> does with the buffers it takes from the two queues.
\<close>

section \<open>Opening and closing the codec\<close>

definition zero_enc_param :: NX_VID_ENC_INIT_PARAM where
  "zero_enc_param = \<lparr>enc_width = 0, enc_height = 0, chromaInterleave = 0, gopSize = 0, enc_bitrate = 0, fpsNum = 0,
     fpsDen = 0, numIntraRefreshMbs = 0, searchRange = 0, rotAngle = 0, mirDirection = 0, enableRC = 0,
     RCAlgorithm = 0, disableSkip = 0, maximumQp = 0, initialQp = 0, RCDelay = 0, rcVbvSize = 0, gammaFactor = 0\<rparr>"

definition enc_init_param :: "NX_VIDENC \<Rightarrow> NX_VID_ENC_INIT_PARAM" where
  "enc_init_param s =
     (let rate = (if encBitRate s \<noteq> 0 then encBitRate s else 10485760) in
      zero_enc_param\<lparr>chromaInterleave := (if fmt_eColorFormat (inputFormat s) = OMX_COLOR_FormatAndroidOpaque then 1 else 0),
        enc_width := encWidth s, enc_height := encHeight s, gopSize := encKeyInterval s, enc_bitrate := rate,
        fpsNum := encFrameRate s, fpsDen := 1, numIntraRefreshMbs := encIntraRefreshMbs s, searchRange := 1,
        rotAngle := 0, mirDirection := 0, enableRC := (if rate \<noteq> 0 then 1 else 0), RCAlgorithm := 1,
        disableSkip := 0, maximumQp := 0, initialQp := (if rate \<noteq> 0 then 0 else 23), RCDelay := 0, rcVbvSize := 0,
        gammaFactor := 0\<rparr>)"

text \<open>The sequence information goes to \<open>pSeqBuf\<close>, an array of 1024 bytes: more is undefined.\<close>

definition EncoderOpen :: "enc_lib \<Rightarrow> NX_VIDENC \<Rightarrow> (int \<times> NX_VIDENC) option" where
  "EncoderOpen lib s =
     (let v = video (pPort s 0);
          s = s\<lparr>encWidth := nFrameWidth v, encHeight := nFrameHeight v\<rparr>;
          s = (if encWidth s = 0 \<or> encHeight s = 0 then s\<lparr>encWidth := 1280, encHeight := 720\<rparr> else s);
          h = NX_VidEncOpen lib NX_AVC_ENC;
          s = s\<lparr>hVpuCodec := h\<rparr>
      in if h = NULL then Some (-1, s)
      else
        (let s = emit (VencOpen h) s in
         if venc_VID_ERR_NONE lib \<noteq> NX_VidEncInit lib h (enc_init_param s) then Some (-1, s)
         else
           (let (rc, bs, sz) = NX_VidEncGetSeqInfo lib h in do {
              buf \<leftarrow> wr (pSeqBuf s) 0 bs;
              let s = s\<lparr>pSeqBuf := buf, seqBufSize := (case sz of None \<Rightarrow> seqBufSize s | Some n \<Rightarrow> n)\<rparr>;
              if venc_VID_ERR_NONE lib \<noteq> rc then Some (-1, s)
              else Some (0, if seqBufSize s > 0 then s\<lparr>bCodecSpecificInfo := True\<rparr> else s) })))"

definition EncoderClose :: "NX_VIDENC \<Rightarrow> NX_VIDENC" where
  "EncoderClose s =
     (let s = (if hVpuCodec s \<noteq> NULL then (emit (VencClose (hVpuCodec s)) s)\<lparr>hVpuCodec := NULL\<rparr> else s)
      in if hCSCMem s \<noteq> None then (emit VencFreeMemory s)\<lparr>hCSCMem := None\<rparr> else s)"

section \<open>The image\<close>

text \<open>
  The three branches that prepare \<open>inputMem\<close>: \<open>Inl rc\<close> when the call returns \<open>rc\<close> there. \<open>w\<close> is the second word
  of the buffer, a pointer to a gralloc handle.
\<close>

text \<open>The conversion buffer, allocated when it is first needed, for the dimensions of that moment.\<close>

definition need_csc_mem :: "enc_lib \<Rightarrow> OMX_U32 \<Rightarrow> NX_VIDENC \<Rightarrow> NX_VIDENC" where
  "need_csc_mem lib fourcc s =
     (if hCSCMem s = None
      then s\<lparr>hCSCMem := NX_VideoAllocateMemory lib 4096 (encWidth s) (encHeight s) fourcc\<rparr> else s)"

definition opaque_image :: "enc_lib \<Rightarrow> OMX_S32 \<Rightarrow> NX_VIDENC \<Rightarrow> ((int + NX_VID_MEMORY_INFO) \<times> NX_VIDENC) option" where
  "opaque_image lib w s =
     (if enc_ion_open lib < 0 then Some (Inl (enc_ion_open lib), s)
      else do {
        g \<leftarrow> gralloc_at lib (unat w);
        case mmap lib (gb_size g) (gb_share_fd g) of
          None \<Rightarrow> Some (Inl (-1), s)
        | Some inData \<Rightarrow>
            (let s = need_csc_mem lib FOURCC_NV12 s in
             case hCSCMem s of
               None \<Rightarrow> Some (Inr (stack_junk lib), s)
             | Some m \<Rightarrow> do {
                 (y, c) \<leftarrow> cscARGBToNV21 (csc_ARGB8888_to_NV12_NEON lib) (csc_ARGB8888_to_NV21_NEON lib) inData
                   (luVirAddr m) (cbVirAddr m) (encWidth s) (encHeight s) 1;
                 Some (Inr (zero_mem_info\<lparr>memoryMap := 0, fourCC := FOURCC_NV12, imgWidth := gb_width g,
                     imgHeight := gb_height g, luPhyAddr := luPhyAddr m, cbPhyAddr := cbPhyAddr m,
                     crPhyAddr := crPhyAddr m, luStride := gb_width g, cbStride := gb_width g, crStride := gb_width g\<rparr>),
                   s\<lparr>hCSCMem := Some (m\<lparr>luVirAddr := y, cbVirAddr := c\<rparr>)\<rparr>) }) })"

definition native_image :: "enc_lib \<Rightarrow> OMX_S32 \<Rightarrow> NX_VIDENC \<Rightarrow> ((int + NX_VID_MEMORY_INFO) \<times> NX_VIDENC) option" where
  "native_image lib w s =
     (if enc_ion_open lib < 0 then Some (Inl (enc_ion_open lib), s)
      else do {
        g \<leftarrow> gralloc_at lib (unat w);
        let (ret, lu) = enc_ion_get_phys lib (enc_ion_open lib) (gb_share_fd g);
        if ret \<noteq> 0 then Some (Inl ret, s)
        else
          (let vStride = ALIGN (gb_height g) 16;
               cb = lu + gb_stride g * vStride;
               half = signed_drop_bit 1 (gb_stride g)
           in Some (Inr ((stack_junk lib)\<lparr>luPhyAddr := lu, memoryMap := 0, fourCC := FOURCC_MVS0, imgWidth := encWidth s,
                imgHeight := encHeight s, cbPhyAddr := cb,
                crPhyAddr := cb + ALIGN half 16 * ALIGN (signed_drop_bit 1 vStride) 16, luStride := gb_stride g,
                cbStride := half, crStride := half\<rparr>), s)) })"

text \<open>The planes of the client's picture lie one behind the other in its buffer \<open>src\<close>.\<close>

definition yv12_image :: "enc_lib \<Rightarrow> OMX_U8 list \<Rightarrow> NX_VIDENC \<Rightarrow> ((int + NX_VID_MEMORY_INFO) \<times> NX_VIDENC) option" where
  "yv12_image lib src s =
     (let s = need_csc_mem lib FOURCC_MVS0 s in
      case hCSCMem s of
        None \<Rightarrow> Some (Inr (stack_junk lib), s)
      | Some m \<Rightarrow>
          (let srcU = unat (encWidth s * encHeight s);
               srcV = srcU + unat (encWidth s * encHeight s div 4)
           in do {
             (y, u, v) \<leftarrow> cscYV12ToYV12 src 0 srcU srcV (luVirAddr m) (cbVirAddr m) (crVirAddr m)
               (encWidth s) (luStride m) (cbStride m) (encWidth s) (encHeight s);
             let m = m\<lparr>luVirAddr := y, cbVirAddr := u, crVirAddr := v\<rparr>;
             Some (Inr (NX_VID_MEMORY_INFO.truncate m), s\<lparr>hCSCMem := Some m\<rparr>) }))"

text \<open>From the test of the format to the image; \<open>src\<close> is the client's buffer, read as words first.\<close>

definition input_image :: "enc_lib \<Rightarrow> OMX_U8 list \<Rightarrow> NX_VIDENC \<Rightarrow> ((int + NX_VID_MEMORY_INFO) \<times> NX_VIDENC) option" where
  "input_image lib src s = do {
     kind \<leftarrow> get_le32 src 0;
     if kind \<noteq> kMetadataBufferTypeCameraSource lib \<and> kind \<noteq> kMetadataBufferTypeGrallocSource lib \<and>
        fmt_eColorFormat (inputFormat s) \<noteq> OMX_COLOR_FormatAndroidOpaque \<and>
        fmt_eColorFormat (inputFormat s) \<noteq> OMX_COLOR_FormatYUV420Planar then Some (Inl (-1), s)
     else if fmt_eColorFormat (inputFormat s) = OMX_COLOR_FormatAndroidOpaque then do {
       w \<leftarrow> get_le32 src 4;
       opaque_image lib w s }
     else if bUseNativeBuffer s \<or> bMetaDataInBuffers s then do {
       w \<leftarrow> get_le32 src 4;
       native_image lib w s }
     else yv12_image lib src s }"

section \<open>The output\<close>

text \<open>\<open>memcpy\<close> to the data of the buffer at \<open>p\<close>; \<open>p\<close> is NULL when the pop before it failed.\<close>

definition fill_data :: "ptr \<Rightarrow> OMX_U8 list \<Rightarrow> NX_VIDENC \<Rightarrow> NX_VIDENC option" where
  "fill_data p bs s =
     (if p = NULL then None
      else do {
        h \<leftarrow> hdr_mem s p;
        dst \<leftarrow> byte_mem s (pBuffer h);
        dst \<leftarrow> wr dst 0 bs;
        Some (s\<lparr>byte_mem := (byte_mem s)(pBuffer h := Some dst)\<rparr>) })"

definition pop_out :: "ptr \<Rightarrow> NX_VIDENC \<Rightarrow> ptr \<times> NX_VIDENC" where
  "pop_out p s =
     (let (rc, e, q) = NX_PopQueue (pOutputPortQueue s)
      in (case e of None \<Rightarrow> p | Some x \<Rightarrow> x, s\<lparr>pBufQueue := (pBufQueue s)(1 := q)\<rparr>))"

definition upd_out :: "ptr \<Rightarrow> (OMX_BUFFERHEADERTYPE \<Rightarrow> OMX_BUFFERHEADERTYPE) \<Rightarrow> NX_VIDENC \<Rightarrow> NX_VIDENC option" where
  "upd_out p f s = (if p = NULL then None else upd_hdr p f s)"

text \<open>The branch for the end of the stream: both buffers go back at once.\<close>

definition encode_eos :: "ptr \<Rightarrow> NX_VIDENC \<Rightarrow> NX_VIDENC option" where
  "encode_eos pIn s = do {
     s \<leftarrow> upd_hdr pIn (\<lambda>h. h\<lparr>nFilledLen := 0\<rparr>) s;
     s \<leftarrow> call_EmptyBufferDone pIn s;
     let (pOut, s) = pop_out NULL s;
     hi \<leftarrow> hdr_mem s pIn;
     s \<leftarrow> upd_out pOut (\<lambda>h. h\<lparr>nOffset := 0, nTimeStamp := nTimeStamp hi, nFilledLen := 0, nFlags := nFlags hi\<rparr>) s;
     call_FillBufferDone pOut s }"

text \<open>
  The sequence header goes out once, in a buffer of its own, before the first frame; the frame then needs a
  second one. The second pop is not checked: if the queue is empty, \<open>pOutBuf\<close> keeps its value.
\<close>

definition send_codec_info :: "ptr \<Rightarrow> NX_VIDENC \<Rightarrow> (ptr \<times> NX_VIDENC) option" where
  "send_codec_info pOut s =
     (if \<not> bSendCodecSpecificInfo s \<and> seqBufSize s > 0 then do {
        s \<leftarrow> upd_out pOut (\<lambda>h. h\<lparr>nFlags := OMX_BUFFERFLAG_CODECCONFIG, nOffset := 0, nTimeStamp := 0\<rparr>) s;
        bs \<leftarrow> rd (pSeqBuf s) 0 (nat (seqBufSize s));
        s \<leftarrow> fill_data pOut bs s;
        s \<leftarrow> upd_out pOut (\<lambda>h. h\<lparr>nFilledLen := word_of_int (seqBufSize s)\<rparr>) s;
        let (pNext, s) = pop_out pOut s;
        s \<leftarrow> call_FillBufferDone pOut (s\<lparr>bSendCodecSpecificInfo := True\<rparr>);
        Some (pNext, s) }
      else Some (pOut, s))"

abbreviation (input) OMX_BUFFERFLAG_ENDOFFRAME :: OMX_U32 where "OMX_BUFFERFLAG_ENDOFFRAME \<equiv> 0x10"

text \<open>The end of a frame that was encoded to \<open>out\<close>.\<close>

definition deliver_frame :: "ptr \<Rightarrow> ptr \<Rightarrow> NX_VID_ENC_OUT \<Rightarrow> NX_VIDENC \<Rightarrow> NX_VIDENC option" where
  "deliver_frame pIn pOut out s = do {
     s \<leftarrow> upd_hdr pIn (\<lambda>h. h\<lparr>nFilledLen := 0\<rparr>) s;
     s \<leftarrow> call_EmptyBufferDone pIn s;
     s \<leftarrow> upd_out pOut (\<lambda>h. h\<lparr>nFlags := (if frameType out \<noteq> 0
             then OMX_BUFFERFLAG_ENDOFFRAME OR OMX_BUFFERFLAG_SYNCFRAME else OMX_BUFFERFLAG_ENDOFFRAME)\<rparr>) s;
     bs \<leftarrow> rd_block (Some (outBuf out)) (bufSize out);
     s \<leftarrow> fill_data pOut bs s;
     hi \<leftarrow> hdr_mem s pIn;
     s \<leftarrow> upd_out pOut (\<lambda>h. h\<lparr>nOffset := 0, nTimeStamp := nTimeStamp hi, nFilledLen := word_of_int (bufSize out)\<rparr>) s;
     call_FillBufferDone pOut s }"

definition encode_image :: "enc_lib \<Rightarrow> NX_VID_MEMORY_INFO \<Rightarrow> NX_VIDENC \<Rightarrow> int \<times> NX_VID_ENC_OUT" where
  "encode_image lib img s =
     NX_VidEncEncodeFrame lib (hVpuCodec s)
       \<lparr>pImage = img, enc_timeStamp = -1, forcedIFrame = 0, forcedSkipFrame = 0, quantParam = 0\<rparr> (hCSCMem s)"

text \<open>
  A return before the encoder has been called leaves the input buffer in no queue; one behind it leaves the
  output buffer there as well.
\<close>

definition EncodeFrame :: "enc_lib \<Rightarrow> NX_VIDENC \<Rightarrow> (int \<times> NX_VIDENC) option" where
  "EncodeFrame lib s =
     (let (rc, e, q) = NX_PopQueue (pInputPortQueue s); s = s\<lparr>pBufQueue := (pBufQueue s)(0 := q)\<rparr> in
      case e of
        None \<Rightarrow> Some (0, s)
      | Some pIn \<Rightarrow>
          (if pIn = NULL then Some (0, s)
           else do {
             h \<leftarrow> hdr_mem s pIn;
             if has_flag (nFlags h) OMX_BUFFERFLAG_EOS then do { s \<leftarrow> encode_eos pIn s; Some (0, s) }
             else do {
               src \<leftarrow> byte_mem s (pBuffer h);
               (r, s) \<leftarrow> input_image lib src s;
               case r of
                 Inl rc \<Rightarrow> Some (rc, s)
               | Inr img \<Rightarrow> do {
                   let (pOut, s) = pop_out NULL s;
                   (pOut, s) \<leftarrow> send_codec_info pOut s;
                   let (rc, out) = encode_image lib img s;
                   let s = emit (VencEncode (hVpuCodec s)) s;
                   if venc_VID_ERR_NONE lib \<noteq> rc then Some (-1, s)
                   else do { s \<leftarrow> deliver_frame pIn pOut out s; Some (0, s) } } } }))"

section \<open>What a call does with the buffers\<close>

text \<open>\<open>handed eb fb s t\<close>: between the two states exactly these buffers were given back, and the queues are as before.\<close>

definition handed :: "ptr list \<Rightarrow> ptr list \<Rightarrow> NX_VIDENC \<Rightarrow> NX_VIDENC \<Rightarrow> bool" where
  "handed eb fb s t \<longleftrightarrow> ebd_ptrs (trace t) = ebd_ptrs (trace s) @ eb \<and> fbd_ptrs (trace t) = fbd_ptrs (trace s) @ fb \<and>
     shape t = shape s \<and> bSendCodecSpecificInfo t = bSendCodecSpecificInfo s"

lemma handed_refl [simp]: "handed [] [] s s"
  by (simp add: handed_def)

lemma handed_trans: "handed a b s t \<Longrightarrow> handed c d t u \<Longrightarrow> handed (a @ c) (b @ d) s u"
  by (simp add: handed_def)

lemma handed_quiet: "handed [] [] s t \<Longrightarrow> handed a b t u \<Longrightarrow> handed a b s u"
  using handed_trans[of "[]" "[]" s t a b u] by simp

lemma handed_then_quiet: "handed a b s t \<Longrightarrow> handed [] [] t u \<Longrightarrow> handed a b s u"
  using handed_trans[of a b s t "[]" "[]" u] by simp

lemma handed_upd_hdr: "upd_hdr p f s = Some t \<Longrightarrow> handed [] [] s t"
  by (auto simp: upd_hdr_def handed_def split: bind_splits)

lemma handed_upd_out: "upd_out p f s = Some t \<Longrightarrow> handed [] [] s t"
  by (auto simp: upd_out_def handed_upd_hdr split: if_splits)

lemma handed_fill_data: "fill_data p bs s = Some t \<Longrightarrow> handed [] [] s t"
  by (auto simp: fill_data_def handed_def split: bind_splits if_splits)

lemma handed_EBD: "call_EmptyBufferDone p s = Some t \<Longrightarrow> handed [p] [] s t"
  by (auto simp: call_EmptyBufferDone_def handed_def emit_def split: bind_splits if_splits)

lemma handed_FBD: "call_FillBufferDone p s = Some t \<Longrightarrow> handed [] [p] s t"
  by (auto simp: call_FillBufferDone_def handed_def emit_def split: bind_splits if_splits)

lemma handed_csc_mem [simp]: "handed [] [] s (need_csc_mem lib c s)"
  by (simp add: need_csc_mem_def handed_def)

lemma handed_csc_upd [simp]: "handed a b s (t\<lparr>hCSCMem := m\<rparr>) = handed a b s t"
  by (simp add: handed_def)

lemma handed_image: "input_image lib src s = Some (r, t) \<Longrightarrow> handed [] [] s t"
  by (auto simp: input_image_def opaque_image_def native_image_def yv12_image_def Let_def
      split: if_splits bind_splits option.splits prod.splits)

lemma handed_deliver:
  assumes "deliver_frame pIn pOut out s = Some t"
  shows "handed [pIn] [pOut] s t \<and> pOut \<noteq> NULL"
proof -
  from assms obtain s1 s2 s3 s4 s5 f g bs where
    st: "upd_hdr pIn (\<lambda>h. h\<lparr>nFilledLen := 0\<rparr>) s = Some s1" "call_EmptyBufferDone pIn s1 = Some s2"
    "upd_out pOut f s2 = Some s3" "fill_data pOut bs s3 = Some s4" "upd_out pOut g s4 = Some s5"
    "call_FillBufferDone pOut s5 = Some t"
    unfolding deliver_frame_def by (auto split: bind_splits)
  have "handed [] [] s2 s5"
    using handed_quiet[OF handed_upd_out[OF st(3)] handed_quiet[OF handed_fill_data[OF st(4)] handed_upd_out[OF st(5)]]] .
  then have "handed [] [pOut] s2 t" using handed_FBD[OF st(6)] by (rule handed_quiet)
  from handed_trans[OF handed_quiet[OF handed_upd_hdr[OF st(1)] handed_EBD[OF st(2)]] this]
  show ?thesis using st(3) by (auto simp: upd_out_def split: if_splits)
qed

lemma pop_out_cases:
  assumes "pop_out p s = (p', t)" and "enc_wf s"
  obtains "out_list s = []" "p' = p" "t = s"
  | "out_list s = p' # out_list t" "in_list t = in_list s" "enc_wf t" "trace t = trace s"
      "bSendCodecSpecificInfo t = bSendCodecSpecificInfo s"
proof -
  obtain rc e q where pop: "NX_PopQueue (pOutputPortQueue s) = (rc, e, q)" by (metis prod_cases3)
  have w: "buf_queue (pOutputPortQueue s)" using assms(2) by (simp add: enc_wf_def)
  have t: "p' = (case e of None \<Rightarrow> p | Some x \<Rightarrow> x)" "t = s\<lparr>pBufQueue := (pBufQueue s)(1 := q)\<rparr>"
    using assms(1) pop by (auto simp: pop_out_def)
  have "enc_wf t" using t(2) assms(2) buf_queue_popped[OF pop w] by (simp add: enc_wf_def)
  then show ?thesis
    using pop w t that by (cases rule: buf_pop_cases[OF pop w]) (auto simp: fun_upd_idem)
qed

text \<open>
  The buffers that the component has been given: the input buffers that went back, followed by those that wait, in
  order, and the output buffers that went back or wait.
\<close>

definition enc_in_view :: "NX_VIDENC \<Rightarrow> ptr list" where
  "enc_in_view s = ebd_ptrs (trace s) @ in_list s"

definition enc_out_view :: "NX_VIDENC \<Rightarrow> ptr multiset" where
  "enc_out_view s = mset (fbd_ptrs (trace s)) + mset (out_list s)"

text \<open>
  \<open>tracked is os s t\<close>: the step takes in the input buffers \<open>is\<close> and the output buffers \<open>os\<close>. It may lose buffers,
  but it never changes the order of the input buffers nor gives one back twice; it gives back at most one output
  buffer once more than it had it, namely with the sequence header.
\<close>

definition tracked :: "ptr list \<Rightarrow> ptr list \<Rightarrow> NX_VIDENC \<Rightarrow> NX_VIDENC \<Rightarrow> bool" where
  "tracked is os s t \<longleftrightarrow> (enc_wf s \<longrightarrow> enc_wf t \<and> subseq (enc_in_view t) (enc_in_view s @ is) \<and>
     (bSendCodecSpecificInfo s \<longrightarrow> bSendCodecSpecificInfo t) \<and>
     (\<exists>D. enc_out_view t \<subseteq># enc_out_view s + mset os + D \<and>
        size D \<le> (if bSendCodecSpecificInfo t \<and> \<not> bSendCodecSpecificInfo s then 1 else 0)))"

lemma shape_queues: "shape t = shape s \<Longrightarrow> pBufQueue t = pBufQueue s"
  by (simp add: shape_def)

lemma tracked_handed: "handed [] [] s t \<Longrightarrow> tracked [] [] s t"
  using shape_queues[of t s] enc_wf_shape[of t s]
  by (simp add: tracked_def handed_def enc_in_view_def enc_out_view_def)

lemma tracked_trans:
  assumes "tracked a b s t" and "tracked c d t u"
  shows "tracked (a @ c) (b @ d) s u"
  unfolding tracked_def
proof
  assume w: "enc_wf s"
  with assms(1) obtain D1 where t: "enc_wf t" "subseq (enc_in_view t) (enc_in_view s @ a)"
    "bSendCodecSpecificInfo s \<longrightarrow> bSendCodecSpecificInfo t" "enc_out_view t \<subseteq># enc_out_view s + mset b + D1"
    "size D1 \<le> (if bSendCodecSpecificInfo t \<and> \<not> bSendCodecSpecificInfo s then 1 else 0)"
    unfolding tracked_def by blast
  with assms(2) obtain D2 where u: "enc_wf u" "subseq (enc_in_view u) (enc_in_view t @ c)"
    "bSendCodecSpecificInfo t \<longrightarrow> bSendCodecSpecificInfo u" "enc_out_view u \<subseteq># enc_out_view t + mset d + D2"
    "size D2 \<le> (if bSendCodecSpecificInfo u \<and> \<not> bSendCodecSpecificInfo t then 1 else 0)"
    unfolding tracked_def by blast
  have "subseq (enc_in_view u) ((enc_in_view s @ a) @ c)"
    using u(2) t(2) by (meson list_emb_append_mono subseq_order.order_refl subseq_order.order_trans)
  then have i: "subseq (enc_in_view u) (enc_in_view s @ a @ c)" by simp
  have "enc_out_view t + mset d + D2 \<subseteq># (enc_out_view s + mset b + D1) + mset d + D2"
    using t(4) by (intro mset_subset_eq_mono_add) auto
  from subset_mset.order_trans[OF u(4) this]
  have o: "enc_out_view u \<subseteq># enc_out_view s + mset (b @ d) + (D1 + D2)" by (simp add: ac_simps)
  have n: "size (D1 + D2) \<le> (if bSendCodecSpecificInfo u \<and> \<not> bSendCodecSpecificInfo s then 1 else 0)"
    using t(3,5) u(3,5)
    by (cases "bSendCodecSpecificInfo s"; cases "bSendCodecSpecificInfo t"; cases "bSendCodecSpecificInfo u") simp_all
  show "enc_wf u \<and> subseq (enc_in_view u) (enc_in_view s @ a @ c) \<and>
     (bSendCodecSpecificInfo s \<longrightarrow> bSendCodecSpecificInfo u) \<and>
     (\<exists>D. enc_out_view u \<subseteq># enc_out_view s + mset (b @ d) + D \<and>
        size D \<le> (if bSendCodecSpecificInfo u \<and> \<not> bSendCodecSpecificInfo s then 1 else 0))"
  proof (intro conjI exI[of _ "D1 + D2"])
    show "bSendCodecSpecificInfo s \<longrightarrow> bSendCodecSpecificInfo u" using t(3) u(3) by simp
  qed (fact u(1) i o n)+
qed

lemma tracked_two: "tracked [] [] s t \<Longrightarrow> tracked [] [] t u \<Longrightarrow> tracked [] [] s u"
  using tracked_trans[of "[]" "[]" s t "[]" "[]" u] by simp

lemma handed_wf: "handed a b s t \<Longrightarrow> enc_wf t = enc_wf s"
  using enc_wf_shape[of t s] by (simp add: handed_def)

lemma handed_views:
  assumes "handed a b s t"
  shows "in_list t = in_list s" "out_list t = out_list s" "bSendCodecSpecificInfo t = bSendCodecSpecificInfo s"
    "ebd_ptrs (trace t) = ebd_ptrs (trace s) @ a" "fbd_ptrs (trace t) = fbd_ptrs (trace s) @ b"
  using assms shape_queues[of t s] by (simp_all add: handed_def)

text \<open>
  The rest of the call once the input buffer is out of its queue: the input buffer goes back at most once, and
  the output buffers that go back were in the queue, one of them perhaps twice.
\<close>

definition rest_ok :: "ptr \<Rightarrow> NX_VIDENC \<Rightarrow> NX_VIDENC \<Rightarrow> bool" where
  "rest_ok p s t \<longleftrightarrow> enc_wf t \<and> in_list t = in_list s \<and>
     (ebd_ptrs (trace t) = ebd_ptrs (trace s) \<or> ebd_ptrs (trace t) = ebd_ptrs (trace s) @ [p]) \<and>
     (bSendCodecSpecificInfo s \<longrightarrow> bSendCodecSpecificInfo t) \<and>
     (\<exists>D. enc_out_view t \<subseteq># enc_out_view s + D \<and>
        size D \<le> (if bSendCodecSpecificInfo t \<and> \<not> bSendCodecSpecificInfo s then 1 else 0))"

lemma rest_ok_handed: "handed [] [] s s1 \<Longrightarrow> rest_ok p s1 t \<Longrightarrow> rest_ok p s t"
  using handed_views[of "[]" "[]" s s1] by (simp add: rest_ok_def enc_out_view_def)

lemma rest_ok_eos:
  assumes "encode_eos p s = Some t" and w: "enc_wf s"
  shows "rest_ok p s t"
proof -
  from assms obtain s1 s2 s3 s4 x f where st: "upd_hdr p (\<lambda>h. h\<lparr>nFilledLen := 0\<rparr>) s = Some s1"
    "call_EmptyBufferDone p s1 = Some s2" "pop_out NULL s2 = (x, s3)" "upd_out x f s3 = Some s4" "call_FillBufferDone x s4 = Some t"
    unfolding encode_eos_def by (auto split: bind_splits prod.splits)
  note h1 = handed_quiet[OF handed_upd_hdr[OF st(1)] handed_EBD[OF st(2)]]
  note h2 = handed_quiet[OF handed_upd_out[OF st(4)] handed_FBD[OF st(5)]]
  have "x \<noteq> NULL" using st(4) by (auto simp: upd_out_def split: if_splits)
  have "mset (out_list s2) = add_mset x (mset (out_list s3)) \<and> in_list s3 = in_list s2 \<and> enc_wf s3 \<and> trace s3 = trace s2 \<and>
    bSendCodecSpecificInfo s3 = bSendCodecSpecificInfo s2"
  proof (cases rule: pop_out_cases[OF st(3)])
    case 1
    show ?case using handed_wf[OF h1] w by simp
  qed (use \<open>x \<noteq> NULL\<close> in auto)
  then show ?thesis
    using handed_views[OF h1] handed_views[OF h2] handed_wf[OF h2] by (simp add: rest_ok_def enc_out_view_def)
qed

text \<open>The output buffers that the call holds when it calls the encoder.\<close>

lemma send_codec_info_cases:
  assumes "send_codec_info x s = Some (y, t)" and w: "enc_wf s"
  obtains "y = x" "t = s" "bSendCodecSpecificInfo s \<or> seqBufSize s \<le> 0"
  | "\<not> bSendCodecSpecificInfo s" "bSendCodecSpecificInfo t" "enc_wf t" "in_list t = in_list s" "x \<noteq> NULL"
      "ebd_ptrs (trace t) = ebd_ptrs (trace s)" "fbd_ptrs (trace t) = fbd_ptrs (trace s) @ [x]"
      "out_list s = [] \<and> y = x \<and> out_list t = [] \<or> out_list s = y # out_list t"
proof (cases "\<not> bSendCodecSpecificInfo s \<and> seqBufSize s > 0")
  case True
  with assms obtain s1 s2 s3 s4 bs f g where st: "upd_out x f s = Some s1" "fill_data x bs s1 = Some s2"
    "upd_out x g s2 = Some s3" "pop_out x s3 = (y, s4)" "call_FillBufferDone x (s4\<lparr>bSendCodecSpecificInfo := True\<rparr>) = Some t"
    unfolding send_codec_info_def by (auto split: bind_splits prod.splits)
  have "x \<noteq> NULL" using st(1) by (auto simp: upd_out_def split: if_splits)
  note h1 = handed_quiet[OF handed_upd_out[OF st(1)] handed_quiet[OF handed_fill_data[OF st(2)] handed_upd_out[OF st(3)]]]
  note h2 = handed_FBD[OF st(5)]
  have w3: "enc_wf s3" using w handed_wf[OF h1] by simp
  have "enc_wf (s4\<lparr>bSendCodecSpecificInfo := True\<rparr>) = enc_wf s4" by (rule enc_wf_shape) simp
  then have t: "enc_wf t = enc_wf s4" "bSendCodecSpecificInfo t" "in_list t = in_list s4" "out_list t = out_list s4"
    "ebd_ptrs (trace t) = ebd_ptrs (trace s4)" "fbd_ptrs (trace t) = fbd_ptrs (trace s4) @ [x]"
    using handed_views[OF h2] handed_wf[OF h2] by simp_all
  show thesis
    using pop_out_cases[OF st(4) w3]
  proof cases
    case 1
    with t w3 True \<open>x \<noteq> NULL\<close> handed_views[OF h1] show thesis by (intro that(2)) simp_all
  next
    case 2
    with t w3 True \<open>x \<noteq> NULL\<close> handed_views[OF h1] show thesis by (intro that(2)) simp_all
  qed
next
  case False
  with assms(1) that(1) show thesis by (auto simp: send_codec_info_def not_less split: if_splits)
qed

lemma rest_ok_encode:
  assumes st: "pop_out NULL s = (x, s1)" "send_codec_info x s1 = Some (y, s2)"
    and t: "t = emit (VencEncode v) s2 \<or> deliver_frame p y out (emit (VencEncode v) s2) = Some t" and w: "enc_wf s"
  shows "rest_ok p s t"
proof -
  have e: "handed [] [] s2 (emit (VencEncode v) s2)" by (simp add: handed_def emit_def)
  have t': "handed [] [] s2 t \<or> handed [p] [y] s2 t \<and> y \<noteq> NULL"
    using t e handed_deliver handed_quiet[OF e] by blast
  have s1: "out_list s = [] \<and> x = NULL \<and> s1 = s \<or> out_list s = x # out_list s1 \<and> in_list s1 = in_list s \<and> enc_wf s1 \<and>
      trace s1 = trace s \<and> bSendCodecSpecificInfo s1 = bSendCodecSpecificInfo s"
    using pop_out_cases[OF st(1) w] by metis
  then have w1: "enc_wf s1" using w by auto
  show ?thesis
  proof (cases rule: send_codec_info_cases[OF st(2) w1])
    case 1
    have "enc_out_view t \<subseteq># enc_out_view s" using s1 t'
    proof (elim disjE conjE)
      assume "handed [] [] s2 t" "out_list s = x # out_list s1" "trace s1 = trace s"
      then show ?thesis using 1 handed_views[of "[]" "[]" s2 t] by (simp add: enc_out_view_def)
    next
      assume "handed [p] [y] s2 t" "out_list s = x # out_list s1" "trace s1 = trace s"
      then show ?thesis using 1 handed_views[of "[p]" "[y]" s2 t] by (simp add: enc_out_view_def)
    next
      assume "handed [] [] s2 t" "s1 = s"
      then show ?thesis using 1 handed_views[of "[]" "[]" s2 t] by (simp add: enc_out_view_def)
    qed (use 1 in simp)
    moreover have "in_list s1 = in_list s" "ebd_ptrs (trace s1) = ebd_ptrs (trace s)"
      "bSendCodecSpecificInfo s1 = bSendCodecSpecificInfo s" using s1 by auto
    ultimately show ?thesis
      using t' 1 w1 handed_views[of _ _ s2 t] handed_wf[of _ _ s2 t] unfolding rest_ok_def
      by (intro conjI exI[of _ "{#}"]) auto
  next
    case 2
    then have o: "out_list s = x # out_list s1" using s1 by auto
    have s: "in_list s1 = in_list s" "trace s1 = trace s" using s1 by auto
    note v = handed_views[of _ _ s2 t] handed_wf[of _ _ s2 t]
    have t2: "bSendCodecSpecificInfo t" "enc_wf t" "in_list t = in_list s" "out_list t = out_list s2"
      using t' 2 s v by auto
    moreover have "ebd_ptrs (trace t) = ebd_ptrs (trace s) \<or> ebd_ptrs (trace t) = ebd_ptrs (trace s) @ [p]"
      using t' 2(6) s v(4) by auto
    moreover have "fbd_ptrs (trace t) = fbd_ptrs (trace s) @ [x] \<or> fbd_ptrs (trace t) = fbd_ptrs (trace s) @ [x, y]"
      using t' 2(7) s v(5) by auto
    then have "enc_out_view t \<subseteq># enc_out_view s + {#y#}"
      using 2(8) o t2(4) by (auto simp: enc_out_view_def)
    ultimately show ?thesis using s1 2(1) o unfolding rest_ok_def by (intro conjI exI[of _ "{#y#}"]) auto
  qed
qed

lemma tracked_encode_frame:
  assumes "EncodeFrame lib s = Some (rc, t)"
  shows "tracked [] [] s t"
  unfolding tracked_def
proof
  assume w: "enc_wf s"
  obtain r e q where pop: "NX_PopQueue (pInputPortQueue s) = (r, e, q)" by (metis prod_cases3)
  have wq: "buf_queue (pInputPortQueue s)" using w by (simp add: enc_wf_def)
  let ?s = "s\<lparr>pBufQueue := (pBufQueue s)(0 := q)\<rparr>"
  have ws: "enc_wf ?s" using w buf_queue_popped[OF pop wq] by (simp add: enc_wf_def)
  show "enc_wf t \<and> subseq (enc_in_view t) (enc_in_view s @ []) \<and> (bSendCodecSpecificInfo s \<longrightarrow> bSendCodecSpecificInfo t) \<and>
     (\<exists>D. enc_out_view t \<subseteq># enc_out_view s + mset [] + D \<and>
        size D \<le> (if bSendCodecSpecificInfo t \<and> \<not> bSendCodecSpecificInfo s then 1 else 0))"
  proof (cases rule: buf_pop_cases[OF pop wq])
    case 1
    with assms pop have "t = s" by (simp add: EncodeFrame_def fun_upd_idem)
    with w show ?thesis by simp
  next
    case (2 p)
    have "rest_ok p ?s t"
    proof (cases "p = NULL")
      case True
      with assms pop 2 ws show ?thesis by (auto simp: EncodeFrame_def rest_ok_def)
    next
      case False
      with assms pop 2 obtain h where h: "hdr_mem s p = Some h" by (auto simp: EncodeFrame_def Let_def split: bind_splits)
      show ?thesis
      proof (cases "has_flag (nFlags h) OMX_BUFFERFLAG_EOS")
        case True
        with assms pop 2 h False have "encode_eos p ?s = Some t" by (auto simp: EncodeFrame_def Let_def split: bind_splits)
        then show ?thesis using ws by (rule rest_ok_eos)
      next
        case ne: False
        with assms pop 2 h False obtain src im s1 where im: "input_image lib src ?s = Some (im, s1)"
          and r: "(case im of Inl rc \<Rightarrow> Some (rc, s1)
               | Inr img \<Rightarrow> do {
                   let (pOut, s) = pop_out NULL s1;
                   (pOut, s) \<leftarrow> send_codec_info pOut s;
                   let (rc, out) = encode_image lib img s;
                   let s = emit (VencEncode (hVpuCodec s)) s;
                   if venc_VID_ERR_NONE lib \<noteq> rc then Some (-1, s)
                   else do { s \<leftarrow> deliver_frame p pOut out s; Some (0, s) } }) = Some (rc, t)"
          by (auto simp: EncodeFrame_def Let_def split: bind_splits)
        note h1 = handed_image[OF im]
        have w1: "enc_wf s1" using handed_wf[OF h1] ws by simp
        have "rest_ok p s1 t"
        proof (cases im)
          case (Inl a)
          with r w1 show ?thesis by (auto simp: rest_ok_def)
        next
          case (Inr img)
          obtain x s2 where x: "pop_out NULL s1 = (x, s2)" by fastforce
          with r Inr obtain y s3 where y: "send_codec_info x s2 = Some (y, s3)" by (auto simp: Let_def split: bind_splits)
          from r Inr x y have "t = emit (VencEncode (hVpuCodec s3)) s3 \<or>
              (\<exists>out. deliver_frame p y out (emit (VencEncode (hVpuCodec s3)) s3) = Some t)"
            by (auto simp: Let_def split: bind_splits prod.splits if_splits)
          with rest_ok_encode[OF x y _ w1] show ?thesis by blast
        qed
        then show ?thesis by (rule rest_ok_handed[OF h1])
      qed
    qed
    moreover have "in_list s = p # in_list ?s" "out_list ?s = out_list s" using 2(1) by simp_all
    moreover have "subseq (es @ qs) (es @ p # qs)" for es qs :: "ptr list"
      by (rule list_emb_append_mono) auto
    with calculation have "subseq (enc_in_view t) (enc_in_view s)"
      by (auto simp: rest_ok_def enc_in_view_def)
    ultimately show ?thesis by (auto simp: rest_ok_def enc_out_view_def)
  qed
qed

section \<open>Frames\<close>

text \<open>
  The part of the call before the output queue is looked at, when it prepares an image: the input buffer, the image
  and the state.
\<close>

definition take_input :: "enc_lib \<Rightarrow> NX_VIDENC \<Rightarrow> (ptr \<times> NX_VID_MEMORY_INFO \<times> NX_VIDENC) option" where
  "take_input lib s =
     (let (rc, e, q) = NX_PopQueue (pInputPortQueue s) in do {
        p \<leftarrow> e;
        h \<leftarrow> hdr_mem s p;
        if p = NULL \<or> has_flag (nFlags h) OMX_BUFFERFLAG_EOS then None
        else do {
          src \<leftarrow> byte_mem s (pBuffer h);
          (r, s) \<leftarrow> input_image lib src (s\<lparr>pBufQueue := (pBufQueue s)(0 := q)\<rparr>);
          case r of Inl rc \<Rightarrow> None | Inr img \<Rightarrow> Some (p, img, s) } })"

lemma csc_mem_keeps: "(need_csc_mem lib c s)\<lparr>hCSCMem := x\<rparr> = s\<lparr>hCSCMem := x\<rparr>"
  by (simp add: need_csc_mem_def)

lemma image_keeps_upto: "input_image lib src s = Some (r, t) \<Longrightarrow> t\<lparr>hCSCMem := x\<rparr> = s\<lparr>hCSCMem := x\<rparr>"
  by (auto simp: input_image_def opaque_image_def native_image_def yv12_image_def Let_def csc_mem_keeps
      split: if_splits bind_splits option.splits prod.splits)

lemma image_keeps:
  assumes "input_image lib src s = Some (r, t)"
  shows "\<exists>m. t = s\<lparr>hCSCMem := m\<rparr>"
proof
  have "t\<lparr>hCSCMem := hCSCMem t\<rparr> = s\<lparr>hCSCMem := hCSCMem t\<rparr>" using assms by (rule image_keeps_upto)
  then show "t = s\<lparr>hCSCMem := hCSCMem t\<rparr>" by simp
qed

lemma take_input_spec:
  assumes "take_input lib s = Some (p, img, s1)" and "enc_wf s"
  obtains q m h where "in_list s = p # queue_list q" "buf_queue q" "s1 = s\<lparr>pBufQueue := (pBufQueue s)(0 := q), hCSCMem := m\<rparr>"
    "hdr_mem s p = Some h"
    "EncodeFrame lib s = do {
       let (pOut, s) = pop_out NULL s1;
       (pOut, s) \<leftarrow> send_codec_info pOut s;
       let (rc, out) = encode_image lib img s;
       let s = emit (VencEncode (hVpuCodec s)) s;
       if venc_VID_ERR_NONE lib \<noteq> rc then Some (-1, s)
       else do { s \<leftarrow> deliver_frame p pOut out s; Some (0, s) } }"
proof -
  obtain rc e q where pop: "NX_PopQueue (pInputPortQueue s) = (rc, e, q)" by (metis prod_cases3)
  have wq: "buf_queue (pInputPortQueue s)" using assms(2) by (simp add: enc_wf_def)
  from assms(1) pop obtain h src where st: "e = Some p" "hdr_mem s p = Some h" "p \<noteq> NULL" "\<not> has_flag (nFlags h) OMX_BUFFERFLAG_EOS"
    "byte_mem s (pBuffer h) = Some src" "input_image lib src (s\<lparr>pBufQueue := (pBufQueue s)(0 := q)\<rparr>) = Some (Inr img, s1)"
    by (auto simp: take_input_def split: bind_splits if_splits sum.splits)
  obtain m where "s1 = s\<lparr>pBufQueue := (pBufQueue s)(0 := q), hCSCMem := m\<rparr>" using image_keeps[OF st(6)] by auto
  moreover have "in_list s = p # queue_list q" using st(1) buf_pop_cases[OF pop wq] by auto
  moreover have "buf_queue q" using buf_queue_popped[OF pop wq] .
  ultimately show thesis using that st pop by (auto simp: EncodeFrame_def Let_def)
qed

lemma pop_out_front:
  assumes "out_list s = x # xs" and "buf_queue (pOutputPortQueue s)"
  obtains q where "pop_out p s = (x, s\<lparr>pBufQueue := (pBufQueue s)(1 := q)\<rparr>)" "queue_list q = xs" "buf_queue q"
proof -
  obtain rc e q where pop: "NX_PopQueue (pOutputPortQueue s) = (rc, e, q)" by (metis prod_cases3)
  show thesis
  proof (cases rule: buf_pop_cases[OF pop assms(2)])
    case (2 y)
    with assms(1) pop that[of q] buf_queue_popped[OF pop assms(2)] show thesis by (simp add: pop_out_def)
  qed (use assms(1) in simp)
qed

text \<open>
  C14: A frame that the encoder accepts, once the sequence header is out (or when there is none): the input
  buffer at the head of its queue is given back empty, and the output buffer at the head of the other one is
  handed over with the encoded bytes, their number, the timestamp of the input and the flags; both queues lose
  their head and nothing else is called. The frame that takes the sequence header along is another matter
  (lemma \<open>sequence_header_takes_a_buffer\<close>).
\<close>

theorem encode_frame_delivers:
  assumes "enc_wf s" and "take_input lib s = Some (p, img, s1)" and "out_list s = x # xs" and "x \<noteq> NULL" and "x \<noteq> p"
    and "bSendCodecSpecificInfo s \<or> seqBufSize s \<le> 0"
    and "encode_image lib img s1 = (venc_VID_ERR_NONE lib, out)"
    and "hdr_mem s p = Some hi" and "hdr_mem s x = Some ho" and "byte_mem s (pBuffer ho) = Some dst"
    and "0 \<le> bufSize out" and "nat (bufSize out) \<le> length (outBuf out)" and "nat (bufSize out) \<le> length dst"
    and "cbEmptyBufferDone (pCallbacks s) \<noteq> NULL" and "cbFillBufferDone (pCallbacks s) \<noteq> NULL"
  shows "\<exists>t. EncodeFrame lib s = Some (0, t) \<and> in_list s = p # in_list t \<and> out_list t = xs \<and>
     trace t = trace s @ [VencEncode (hVpuCodec s), EmptyBufferDone p (hi\<lparr>nFilledLen := 0\<rparr>),
       FillBufferDone x (ho\<lparr>nFlags := (if frameType out \<noteq> 0 then 0x30 else 0x10), nOffset := 0,
         nTimeStamp := nTimeStamp hi, nFilledLen := word_of_int (bufSize out)\<rparr>)] \<and>
     byte_mem t (pBuffer ho) = Some (take (nat (bufSize out)) (outBuf out) @ drop (nat (bufSize out)) dst)"
proof -
  obtain q m h where t: "in_list s = p # queue_list q" "buf_queue q" "s1 = s\<lparr>pBufQueue := (pBufQueue s)(0 := q), hCSCMem := m\<rparr>"
    "hdr_mem s p = Some h"
    and ef: "EncodeFrame lib s = do {
       let (pOut, s) = pop_out NULL s1;
       (pOut, s) \<leftarrow> send_codec_info pOut s;
       let (rc, out) = encode_image lib img s;
       let s = emit (VencEncode (hVpuCodec s)) s;
       if venc_VID_ERR_NONE lib \<noteq> rc then Some (-1, s)
       else do { s \<leftarrow> deliver_frame p pOut out s; Some (0, s) } }"
    by (rule take_input_spec[OF assms(2,1)])
  have "out_list s1 = x # xs" "buf_queue (pOutputPortQueue s1)" using assms(1,3) t(3) by (simp_all add: enc_wf_def)
  then obtain q2 where q2: "pop_out NULL s1 = (x, s1\<lparr>pBufQueue := (pBufQueue s1)(1 := q2)\<rparr>)" "queue_list q2 = xs"
    by (rule pop_out_front)
  let ?s2 = "s1\<lparr>pBufQueue := (pBufQueue s1)(1 := q2)\<rparr>"
  have sc: "send_codec_info x ?s2 = Some (x, ?s2)" using assms(6) t(3) by (auto simp: send_codec_info_def)
  have en: "encode_image lib img ?s2 = (venc_VID_ERR_NONE lib, out)" using assms(7) by (simp add: encode_image_def)
  have "EncodeFrame lib s = do { s \<leftarrow> deliver_frame p x out (emit (VencEncode (hVpuCodec ?s2)) ?s2); Some (0, s) }"
    using ef q2(1) sc en by simp
  moreover have "rd_block (Some (outBuf out)) (bufSize out) = Some (take (nat (bufSize out)) (outBuf out))"
    using assms(11,12) by (simp add: rd_block_def rd_def)
  ultimately show ?thesis
    using assms(3-5,8-10,13-15) t q2(2) assms(12)
    by (simp add: deliver_frame_def upd_hdr_def upd_out_def fill_data_def call_EmptyBufferDone_def call_FillBufferDone_def
        emit_def wr_def)
qed

text \<open>A component with one buffer in each queue, and a library that accepts every frame.\<close>

definition sample_lib :: enc_lib where
  "sample_lib = \<lparr>NX_VidEncOpen = (\<lambda>_. 9), NX_VidEncInit = (\<lambda>_ _. 0), NX_VidEncGetSeqInfo = (\<lambda>_. (0, [7, 8], Some 2)),
     NX_VidEncEncodeFrame = (\<lambda>_ _ _. (0, \<lparr>frameType = 1, outBuf = [1, 2, 3], bufSize = 3\<rparr>)), venc_VID_ERR_NONE = 0,
     NX_VideoAllocateMemory = (\<lambda>_ _ _ _. None),
     gralloc_at = [16 \<mapsto> \<lparr>gb_size = 24, gb_width = 4, gb_height = 4, gb_stride = 4, gb_share_fd = 5\<rparr>], enc_ion_open = 3,
     enc_ion_get_phys = (\<lambda>_ _. (0, 0x1000)), mmap = (\<lambda>_ _. None), csc_ARGB8888_to_NV12_NEON = (\<lambda>y c _ _ _. Some (y, c)),
     csc_ARGB8888_to_NV21_NEON = (\<lambda>y c _ _ _. Some (y, c)), kMetadataBufferTypeCameraSource = 0,
     kMetadataBufferTypeGrallocSource = 1, stack_junk = zero_mem_info, block_junk = (\<lambda>_. 0)\<rparr>"

definition sample_comp :: NX_VIDENC where
  "sample_comp = zero_videnc\<lparr>nNumPort := 2, pPort := (\<lambda>_. zero_port)(1 := zero_port\<lparr>eDir := OMX_DirOutput\<rparr>),
     pBufQueue := (\<lambda>_. zero_queue)(0 := one_queue 5, 1 := one_queue 6), bMetaDataInBuffers := True,
     cmdQueue := snd (NX_InitQueue 0 NX_MAX_QUEUE_ELEMENT), hVpuCodec := 9,
     hdr_mem := [5 \<mapsto> zero_hdr\<lparr>pBuffer := 50, nTimeStamp := 33, nFilledLen := 8\<rparr>, 6 \<mapsto> zero_hdr\<lparr>pBuffer := 60\<rparr>],
     byte_mem := [50 \<mapsto> [1, 0, 0, 0, 16, 0, 0, 0], 60 \<mapsto> [0, 0, 0, 0]],
     pCallbacks := \<lparr>cbEventHandler = 1, cbEmptyBufferDone = 1, cbFillBufferDone = 1\<rparr>\<rparr>"

lemma sample_wf: "enc_wf sample_comp"
  using one_queue(1)[of 5] one_queue(1)[of 6] init_queue_inv[of 0 NX_MAX_QUEUE_ELEMENT]
  by (simp add: enc_wf_def sample_comp_def zero_videnc_def zero_port_def) (simp add: NX_InitQueue_def)

lemma sample_lists: "in_list sample_comp = [5]" "out_list sample_comp = [6]"
  by (simp_all add: sample_comp_def one_queue(2))

lemmas sample_simps = sample_comp_def zero_videnc_def sample_lib_def zero_hdr_def zero_format_def has_flag_def

lemma sample_input_any:
  obtains img s1 where "take_input (sample_lib\<lparr>NX_VidEncEncodeFrame := f\<rparr>) sample_comp = Some (5, img, s1)"
proof -
  obtain q where q: "NX_PopQueue (one_queue 5) = (0, Some 5, q)" using one_queue(3) by blast
  have k: "get_le32 [1, 0, 0, 0, 16, 0, 0, 0] 0 = Some 1" "get_le32 [1, 0, 0, 0, 16, 0, 0, 0] 4 = Some 16"
    by (simp_all add: get_le32_def push_bit_eq_mult)
  have "\<exists>img s1. take_input (sample_lib\<lparr>NX_VidEncEncodeFrame := f\<rparr>) sample_comp = Some (5, img, s1)"
    using q k by (simp add: take_input_def sample_simps input_image_def native_image_def Let_def)
  then show thesis using that by blast
qed

lemma sample_input:
  obtains img s1 where "take_input sample_lib sample_comp = Some (5, img, s1)"
  using sample_input_any[of "NX_VidEncEncodeFrame sample_lib"] by auto

theorem encode_frame_delivers_witness:
  "\<exists>t. EncodeFrame sample_lib sample_comp = Some (0, t) \<and> in_list t = [] \<and> byte_mem t 60 = Some [1, 2, 3, 0] \<and>
     ebd_ptrs (trace t) = [5] \<and> fbd_ptrs (trace t) = [6]"
proof -
  obtain img s1 where i: "take_input sample_lib sample_comp = Some (5, img, s1)" by (rule sample_input)
  let ?out = "\<lparr>frameType = 1, outBuf = [1, 2, 3], bufSize = 3\<rparr>"
  have e: "encode_image sample_lib img s1 = (venc_VID_ERR_NONE sample_lib, ?out)"
    by (simp add: encode_image_def sample_lib_def)
  show ?thesis
    using encode_frame_delivers[OF sample_wf i sample_lists(2) _ _ _ e, of "zero_hdr\<lparr>pBuffer := 50, nTimeStamp := 33, nFilledLen := 8\<rparr>"
        "zero_hdr\<lparr>pBuffer := 60\<rparr>" "[0, 0, 0, 0]"] sample_lists(1)
    by (auto simp: sample_simps)
qed

text \<open>
  The first frame also sends the sequence header, in a buffer of its own. With two output buffers in the queue
  the header goes out in the first and the frame in the second. With a single one the failing pop goes
  unnoticed: the same buffer is handed over twice, first as the header and then, while the client has it,
  filled with the frame.
\<close>

theorem sequence_header_takes_a_buffer:
  assumes "enc_wf s" and "take_input lib s = Some (p, img, s1)" and "out_list s = x # xs"
    and "\<not> bSendCodecSpecificInfo s" and "0 < seqBufSize s" and "EncodeFrame lib s = Some (0, t)"
  shows "bSendCodecSpecificInfo t \<and>
     (case xs of
        [] \<Rightarrow> fbd_ptrs (trace t) = fbd_ptrs (trace s) @ [x, x] \<and> out_list t = []
      | y # ys \<Rightarrow> fbd_ptrs (trace t) = fbd_ptrs (trace s) @ [x, y] \<and> out_list t = ys)"
proof -
  obtain q m h where t: "in_list s = p # queue_list q" "buf_queue q" "s1 = s\<lparr>pBufQueue := (pBufQueue s)(0 := q), hCSCMem := m\<rparr>"
    "hdr_mem s p = Some h"
    and ef: "EncodeFrame lib s = do {
       let (pOut, s) = pop_out NULL s1;
       (pOut, s) \<leftarrow> send_codec_info pOut s;
       let (rc, out) = encode_image lib img s;
       let s = emit (VencEncode (hVpuCodec s)) s;
       if venc_VID_ERR_NONE lib \<noteq> rc then Some (-1, s)
       else do { s \<leftarrow> deliver_frame p pOut out s; Some (0, s) } }"
    by (rule take_input_spec[OF assms(2,1)])
  have "out_list s1 = x # xs" "buf_queue (pOutputPortQueue s1)" using assms(1,3) t(3) by (simp_all add: enc_wf_def)
  then obtain q2 where q2: "pop_out NULL s1 = (x, s1\<lparr>pBufQueue := (pBufQueue s1)(1 := q2)\<rparr>)" "queue_list q2 = xs" "buf_queue q2"
    by (rule pop_out_front)
  let ?s2 = "s1\<lparr>pBufQueue := (pBufQueue s1)(1 := q2)\<rparr>"
  have w2: "enc_wf ?s2" using assms(1) t(2,3) q2(3) by (simp add: enc_wf_def)
  obtain y s3 where sc: "send_codec_info x ?s2 = Some (y, s3)"
    using assms(6) ef q2(1) by (auto simp: Let_def split: bind_splits)
  obtain out where d: "deliver_frame p y out (emit (VencEncode (hVpuCodec s3)) s3) = Some t"
    using assms(6) ef q2(1) sc by (auto simp: Let_def split: bind_splits prod.splits if_splits)
  have v: "handed [p] [y] (emit (VencEncode (hVpuCodec s3)) s3) t" using handed_deliver[OF d] by simp
  have "bSendCodecSpecificInfo s3 \<and> fbd_ptrs (trace s3) = fbd_ptrs (trace s) @ [x] \<and>
      (xs = [] \<and> y = x \<and> out_list s3 = [] \<or> xs = y # out_list s3)"
  proof (cases rule: send_codec_info_cases[OF sc w2])
    case 1
    with assms(4,5) t(3) show ?thesis by simp
  next
    case 2
    with t(3) q2(2) show ?thesis by simp
  qed
  with handed_views[OF v] show ?thesis by (auto simp: emit_def)
qed

definition fresh_comp :: NX_VIDENC where
  "fresh_comp = sample_comp\<lparr>pSeqBuf := 7 # 8 # replicate 1022 0, seqBufSize := 2\<rparr>"

lemma fresh_wf: "enc_wf fresh_comp"
  using sample_wf by (simp add: enc_wf_def fresh_comp_def)

text \<open>The first frame of \<open>fresh_comp\<close>, whose output queue holds one buffer.\<close>

lemma fresh_run: "\<exists>img s1 t. take_input sample_lib fresh_comp = Some (5, img, s1) \<and> EncodeFrame sample_lib fresh_comp = Some (0, t)"
proof -
  obtain q where q: "NX_PopQueue (one_queue 5) = (0, Some 5, q)" using one_queue(3) by blast
  obtain r where r: "NX_PopQueue (one_queue 6) = (0, Some 6, r)" "queue_list r = []" using one_queue(3) by blast
  have "NX_PopQueue r = (-1, None, r)"
    using buf_queue_popped[OF r(1) one_queue(1)] r(2) nxq.pop_fail[of r] by (simp add: buf_queue_def)
  moreover have "get_le32 [1, 0, 0, 0, 16, 0, 0, 0] 0 = Some 1" "get_le32 [1, 0, 0, 0, 16, 0, 0, 0] 4 = Some 16"
    by (simp_all add: get_le32_def push_bit_eq_mult)
  moreover have "rd (7 # 8 # replicate 1022 0) 0 2 = Some [7, 8 :: OMX_U8]" by (simp add: rd_def)
  ultimately show ?thesis
    using q r(1) by (simp add: take_input_def EncodeFrame_def fresh_comp_def sample_simps input_image_def native_image_def
        pop_out_def send_codec_info_def upd_out_def upd_hdr_def fill_data_def wr_def rd_block_def rd_def call_FillBufferDone_def
        encode_image_def deliver_frame_def call_EmptyBufferDone_def emit_def Let_def)
qed

theorem sequence_header_takes_a_buffer_witness:
  "\<exists>t. EncodeFrame sample_lib fresh_comp = Some (0, t) \<and> fbd_ptrs (trace t) = [6, 6]"
proof -
  obtain img s1 t where r: "take_input sample_lib fresh_comp = Some (5, img, s1)" "EncodeFrame sample_lib fresh_comp = Some (0, t)"
    using fresh_run by blast
  have "out_list fresh_comp = [6]" using sample_lists(2) by (simp add: fresh_comp_def)
  with sequence_header_takes_a_buffer[OF fresh_wf r(1) _ _ _ r(2)] r(2) show ?thesis
    by (auto simp: fresh_comp_def sample_simps)
qed

text \<open>An encoder that refuses an image, with no sequence header to send.\<close>

lemma failing_encoder:
  assumes "enc_wf s" and "in_list s = p # ps" and "take_input lib s = Some (p, img, s1)"
    and "bSendCodecSpecificInfo s \<or> seqBufSize s \<le> 0" and "fst (encode_image lib img s1) \<noteq> venc_VID_ERR_NONE lib"
  shows "\<exists>t. EncodeFrame lib s = Some (-1, t) \<and> trace t = trace s @ [VencEncode (hVpuCodec s)] \<and> in_list t = ps \<and>
     out_list t = tl (out_list s)"
proof -
  obtain q m h where t: "in_list s = p # queue_list q" "buf_queue q" "s1 = s\<lparr>pBufQueue := (pBufQueue s)(0 := q), hCSCMem := m\<rparr>"
    "hdr_mem s p = Some h"
    and ef: "EncodeFrame lib s = do {
       let (pOut, s) = pop_out NULL s1;
       (pOut, s) \<leftarrow> send_codec_info pOut s;
       let (rc, out) = encode_image lib img s;
       let s = emit (VencEncode (hVpuCodec s)) s;
       if venc_VID_ERR_NONE lib \<noteq> rc then Some (-1, s)
       else do { s \<leftarrow> deliver_frame p pOut out s; Some (0, s) } }"
    by (rule take_input_spec[OF assms(3,1)])
  have w1: "enc_wf s1" using assms(1) t(2,3) by (simp add: enc_wf_def)
  obtain x s2 where pop: "pop_out NULL s1 = (x, s2)" by (metis surj_pair)
  obtain qs where s2: "s2 = s1\<lparr>pBufQueue := qs\<rparr>" using pop by (auto simp: pop_out_def split: prod.splits)
  have s1: "in_list s1 = ps" "out_list s1 = out_list s" using t(1,3) assms(2) by simp_all
  have l: "in_list s2 = ps \<and> out_list s2 = tl (out_list s)"
    by (cases rule: pop_out_cases[OF pop w1]) (use s1 in simp_all)
  have sc: "send_codec_info x s2 = Some (x, s2)" using s2 assms(4) t(3) by (auto simp: send_codec_info_def)
  obtain rc out where e: "encode_image lib img s1 = (rc, out)" by fastforce
  then have e2: "encode_image lib img s2 = (rc, out)" using s2 by (simp add: encode_image_def)
  have "EncodeFrame lib s = Some (-1, emit (VencEncode (hVpuCodec s2)) s2)"
    using ef pop sc e e2 assms(5) by simp
  then show ?thesis using l t(3) unfolding s2 by (simp add: emit_def)
qed

text \<open>The call returns without the input buffer, which is in no queue and was not given back.\<close>

definition loses_input :: "enc_lib \<Rightarrow> NX_VIDENC \<Rightarrow> ptr list \<Rightarrow> int \<Rightarrow> bool" where
  "loses_input lib s ps ret \<longleftrightarrow>
     (\<exists>t. EncodeFrame lib s = Some (ret, t) \<and> trace t = trace s \<and> in_list t = ps \<and> out_list t = out_list s)"

lemma loses_input_image:
  assumes "enc_wf s" and "in_list s = p # ps" and "p \<noteq> NULL" and "hdr_mem s p = Some h" and "\<not> has_flag (nFlags h) OMX_BUFFERFLAG_EOS"
    and "byte_mem s (pBuffer h) = Some src"
    and "\<And>q. input_image lib src (s\<lparr>pBufQueue := (pBufQueue s)(0 := q)\<rparr>) = Some (Inl ret, s\<lparr>pBufQueue := (pBufQueue s)(0 := q)\<rparr>)"
  shows "loses_input lib s ps ret"
proof -
  obtain rc e q where pop: "NX_PopQueue (pInputPortQueue s) = (rc, e, q)" by (metis prod_cases3)
  have wq: "buf_queue (pInputPortQueue s)" using assms(1) by (simp add: enc_wf_def)
  have "e = Some p" "queue_list q = ps" using buf_pop_cases[OF pop wq] assms(2) by auto
  with pop assms(3-7) show ?thesis by (simp add: loses_input_def EncodeFrame_def Let_def)
qed



text \<open>
  \<open>EncoderOpen\<close> takes the dimensions of the input port, or 1280 x 720 when one of them is 0, opens an AVC
  encoder whatever role the client has chosen, and succeeds exactly when the library opens and initialises it
  and returns the sequence information; when it fails after the encoder was opened, it leaves it open.
\<close>

theorem encoder_open_spec:
  assumes "EncoderOpen lib s = Some (rc, t)"
  defines "h \<equiv> NX_VidEncOpen lib NX_AVC_ENC" and "v \<equiv> video (pPort s 0)"
  shows "(encWidth t, encHeight t) = (if nFrameWidth v = 0 \<or> nFrameHeight v = 0 then (1280, 720) else (nFrameWidth v, nFrameHeight v)) \<and>
     hVpuCodec t = h \<and> trace t = trace s @ (if h = NULL then [] else [VencOpen h]) \<and>
     rc = (if h \<noteq> NULL \<and> NX_VidEncInit lib h (enc_init_param t) = venc_VID_ERR_NONE lib \<and>
              fst (NX_VidEncGetSeqInfo lib h) = venc_VID_ERR_NONE lib then 0 else -1) \<and>
     (rc = 0 \<and> 0 < seqBufSize t \<longrightarrow> bCodecSpecificInfo t)"
proof -
  let ?s0 = "s\<lparr>encWidth := nFrameWidth v, encHeight := nFrameHeight v\<rparr>"
  let ?s = "(if encWidth ?s0 = 0 \<or> encHeight ?s0 = 0 then ?s0\<lparr>encWidth := 1280, encHeight := 720\<rparr> else ?s0)\<lparr>hVpuCodec := h\<rparr>"
  have o: "EncoderOpen lib s = (if h = NULL then Some (-1, ?s)
      else
        (let s = emit (VencOpen h) ?s in
         if venc_VID_ERR_NONE lib \<noteq> NX_VidEncInit lib h (enc_init_param s) then Some (-1, s)
         else
           (let (rc, bs, sz) = NX_VidEncGetSeqInfo lib h in do {
              buf \<leftarrow> wr (pSeqBuf s) 0 bs;
              let s = s\<lparr>pSeqBuf := buf, seqBufSize := (case sz of None \<Rightarrow> seqBufSize s | Some n \<Rightarrow> n)\<rparr>;
              if venc_VID_ERR_NONE lib \<noteq> rc then Some (-1, s)
              else Some (0, if seqBufSize s > 0 then s\<lparr>bCodecSpecificInfo := True\<rparr> else s) })))"
    unfolding EncoderOpen_def h_def v_def Let_def by (rule HOL.refl)
  have p: "enc_init_param (u\<lparr>bCodecSpecificInfo := b\<rparr>) = enc_init_param u"
    "enc_init_param (u\<lparr>pSeqBuf := q, seqBufSize := n\<rparr>) = enc_init_param u" for u b q n
    by (simp_all add: enc_init_param_def)
  show ?thesis
  proof (cases "h = NULL")
    case True
    with assms(1) o show ?thesis by auto
  next
    case False
    obtain r bs sz where g: "NX_VidEncGetSeqInfo lib h = (r, bs, sz)" by (metis prod_cases3)
    define u where "u = emit (VencOpen h) ?s"
    have u: "hVpuCodec u = h" "trace u = trace s @ [VencOpen h]" "(encWidth u, encHeight u) =
        (if nFrameWidth v = 0 \<or> nFrameHeight v = 0 then (1280, 720) else (nFrameWidth v, nFrameHeight v))"
      by (auto simp: u_def emit_def)
    have o2: "EncoderOpen lib s = (if venc_VID_ERR_NONE lib \<noteq> NX_VidEncInit lib h (enc_init_param u) then Some (-1, u)
       else do {
         buf \<leftarrow> wr (pSeqBuf u) 0 bs;
         let s = u\<lparr>pSeqBuf := buf, seqBufSize := (case sz of None \<Rightarrow> seqBufSize u | Some n \<Rightarrow> n)\<rparr>;
         if venc_VID_ERR_NONE lib \<noteq> r then Some (-1, s)
         else Some (0, if seqBufSize s > 0 then s\<lparr>bCodecSpecificInfo := True\<rparr> else s) })"
      unfolding o u_def using False by (simp only: g Let_def if_False prod.case)
    show ?thesis
    proof (cases "venc_VID_ERR_NONE lib = NX_VidEncInit lib h (enc_init_param u)")
      case init: True
      define n where "n = (case sz of None \<Rightarrow> seqBufSize u | Some n \<Rightarrow> n)"
      obtain buf where "wr (pSeqBuf u) 0 bs = Some buf"
        using assms(1) o2 init by (cases "wr (pSeqBuf u) 0 bs") simp_all
      with assms(1) o2 init have "Some (rc, t) = (let w = u\<lparr>pSeqBuf := buf, seqBufSize := n\<rparr> in
          if venc_VID_ERR_NONE lib \<noteq> r then Some (-1, w) else Some (0, if n > 0 then w\<lparr>bCodecSpecificInfo := True\<rparr> else w))"
        unfolding n_def[symmetric] by (cases "0 < n"; cases "venc_VID_ERR_NONE lib = r") (simp_all add: Let_def)
      then show ?thesis
        using u False g p init by (cases "venc_VID_ERR_NONE lib = r"; cases "0 < n") (simp_all add: Let_def)
    next
      case False
      with assms(1) o2 have "rc = -1" "t = u" by simp_all
      with u False \<open>h \<noteq> NULL\<close> show ?thesis by simp
    qed
  qed
qed

theorem encoder_open_spec_witness:
  "\<exists>t. EncoderOpen sample_lib sample_comp = Some (0, t) \<and> encWidth t = 1280 \<and> hVpuCodec t = 9"
proof -
  have "\<exists>t. EncoderOpen sample_lib sample_comp = Some (0, t)"
    by (simp add: EncoderOpen_def sample_simps zero_port_def zero_video_def wr_def emit_def Let_def)
  then obtain t where t: "EncoderOpen sample_lib sample_comp = Some (0, t)" ..
  from encoder_open_spec[OF t] t show ?thesis by (simp add: sample_simps zero_port_def zero_video_def)
qed

lemma shape_open: "EncoderOpen lib s = Some (rc, t) \<Longrightarrow> shape t = shape s"
  by (auto simp: EncoderOpen_def Let_def wr_def shape_def emit_def split: if_splits bind_splits prod.splits)

lemma handed_open: "EncoderOpen lib s = Some (rc, t) \<Longrightarrow> handed [] [] s t"
  using shape_open[of lib s rc t]
  by (auto simp: handed_def EncoderOpen_def Let_def emit_def split: if_splits bind_splits prod.splits)

lemma handed_close: "handed [] [] s (EncoderClose s)"
  by (simp add: EncoderClose_def Let_def handed_def emit_def)

end
