(* ===== verification/OmxDrain.thy ===== *)
theory OmxDrain
  imports OmxIo
begin

text \<open>
  The loops that give the buffers of a queue back to the client when a component leaves Executing; the components
  with two ports and a buffer thread have the same ones.
\<close>

section \<open>The loops\<close>

text \<open>The callback for the buffers of a queue.\<close>

definition give_back :: "OMX_DIRTYPE \<Rightarrow> ptr \<Rightarrow> 'a NX_BASE_COMPNENT_scheme \<Rightarrow> 'a NX_BASE_COMPNENT_scheme option" where
  "give_back d p s = (case d of OMX_DirInput \<Rightarrow> call_EmptyBufferDone p s | OMX_DirOutput \<Rightarrow> call_FillBufferDone p s)"

text \<open>
  The loop ends with the first pop that fails. It has no bound of its own, so that the value \<open>None\<close> also stands
  for a loop that never ends.
\<close>

partial_function (option) drain_queue :: "nat \<Rightarrow> OMX_DIRTYPE \<Rightarrow> 'a NX_BASE_COMPNENT_scheme \<Rightarrow> 'a NX_BASE_COMPNENT_scheme option" where
  "drain_queue k d s =
     (let (rc, e, q) = NX_PopQueue (pBufQueue s k) in
      case e of
        None \<Rightarrow> Some s
      | Some p \<Rightarrow> do {
          s \<leftarrow> give_back d p (s\<lparr>pBufQueue := (pBufQueue s)(k := q)\<rparr>);
          drain_queue k d s })"

text \<open>All ports, in their order.\<close>

fun drain_ports :: "nat list \<Rightarrow> 'a NX_BASE_COMPNENT_scheme \<Rightarrow> 'a NX_BASE_COMPNENT_scheme option" where
  "drain_ports [] s = Some s"
| "drain_ports (i # is) s = do { s \<leftarrow> drain_queue i (eDir (pPort s i)) s; drain_ports is s }"

section \<open>The loops end\<close>

text \<open>What a callback needs: a client that has set it, and the headers of the buffers it is to hand over.\<close>

definition can_give :: "OMX_DIRTYPE \<Rightarrow> ptr list \<Rightarrow> 'a NX_BASE_COMPNENT_scheme \<Rightarrow> bool" where
  "can_give d ps s \<longleftrightarrow> cbEmptyBufferDone (pCallbacks s) \<noteq> NULL \<and> cbFillBufferDone (pCallbacks s) \<noteq> NULL \<and>
     (\<forall>p\<in>set ps. hdr_mem s p \<noteq> None)"

definition give_event :: "OMX_DIRTYPE \<Rightarrow> 'a NX_BASE_COMPNENT_scheme \<Rightarrow> ptr \<Rightarrow> omx_call" where
  "give_event d s p = (case d of OMX_DirInput \<Rightarrow> EmptyBufferDone p (the (hdr_mem s p)) | OMX_DirOutput \<Rightarrow> FillBufferDone p (the (hdr_mem s p)))"

lemma give_event_frame [simp]:
  "give_event d (s\<lparr>pBufQueue := x\<rparr>) = give_event d s" "give_event d (s\<lparr>trace := y\<rparr>) = give_event d s"
  by (cases d; simp add: give_event_def fun_eq_iff)+

lemma give_back_spec:
  assumes "can_give d (p # ps) s"
  shows "give_back d p s = Some (emit (give_event d s p) s)"
  using assms by (auto simp: can_give_def give_back_def give_event_def call_EmptyBufferDone_def call_FillBufferDone_def
      split: OMX_DIRTYPE.splits)

text \<open>The state after a queue has been emptied.\<close>

definition emptied :: "nat \<Rightarrow> OMX_DIRTYPE \<Rightarrow> 'a NX_BASE_COMPNENT_scheme \<Rightarrow> 'a NX_BASE_COMPNENT_scheme \<Rightarrow> bool" where
  "emptied k d s t \<longleftrightarrow> (\<exists>q. t = s\<lparr>pBufQueue := (pBufQueue s)(k := q),
       trace := trace s @ map (give_event d s) (queue_list (pBufQueue s k))\<rparr> \<and> buf_queue q \<and> queue_list q = [])"

lemma emptied_step:
  assumes "NX_PopQueue (pBufQueue s k) = (rc, Some p, q)" and "queue_list (pBufQueue s k) = p # queue_list q"
    and "emptied k d (emit (give_event d s p) (s\<lparr>pBufQueue := (pBufQueue s)(k := q)\<rparr>)) t"
  shows "emptied k d s t"
  using assms by (auto simp: emptied_def emit_def)

text \<open>One round of either loop.\<close>

lemma give_next:
  assumes "buf_queue (pBufQueue s k)" and "can_give d (queue_list (pBufQueue s k)) s" and "Suc n = length (queue_list (pBufQueue s k))"
  obtains rc x t where "NX_PopQueue (pBufQueue s k) = (rc, Some x, pBufQueue t k)"
    "give_back d x (s\<lparr>pBufQueue := (pBufQueue s)(k := pBufQueue t k)\<rparr>) = Some t"
    "n = length (queue_list (pBufQueue t k))" "buf_queue (pBufQueue t k)" "can_give d (queue_list (pBufQueue t k)) t"
    "\<And>u. emptied k d t u \<Longrightarrow> emptied k d s u"
proof -
  obtain rc e q where pop: "NX_PopQueue (pBufQueue s k) = (rc, e, q)" by (metis prod_cases3)
  obtain x where x: "e = Some x" "queue_list (pBufQueue s k) = x # queue_list q"
    using buf_pop_cases[OF pop assms(1)] assms(3) by (metis length_queue_list list.size(3) nat.distinct(1))
  let ?s = "s\<lparr>pBufQueue := (pBufQueue s)(k := q)\<rparr>"
  show thesis
  proof (rule that[of rc x "emit (give_event d s x) ?s"])
    show "give_back d x (s\<lparr>pBufQueue := (pBufQueue s)(k := pBufQueue (emit (give_event d s x) ?s) k)\<rparr>) = Some (emit (give_event d s x) ?s)"
      using give_back_spec[of d x "queue_list q" ?s] assms(2) x(2) by (simp add: can_give_def emit_def)
    show "emptied k d s u" if "emptied k d (emit (give_event d s x) ?s) u" for u
      using emptied_step[OF _ x(2) that] pop x(1) by simp
  qed (use pop x assms buf_queue_popped[OF pop assms(1)] in \<open>simp_all add: emit_def can_give_def\<close>)
qed

lemma emptied_self: "queue_list (pBufQueue s k) = [] \<Longrightarrow> buf_queue (pBufQueue s k) \<Longrightarrow> emptied k d s s"
  unfolding emptied_def by (intro exI[of _ "pBufQueue s k"]) simp

lemma drain_queue_empties:
  assumes "buf_queue (pBufQueue s k)" and "can_give d (queue_list (pBufQueue s k)) s"
  shows "\<exists>t. drain_queue k d s = Some t \<and> emptied k d s t"
  using assms
proof (induction "length (queue_list (pBufQueue s k))" arbitrary: s)
  case 0
  then have e: "queue_list (pBufQueue s k) = []" by (metis length_0_conv)
  with 0 have "NX_PopQueue (pBufQueue s k) = (-1, None, pBufQueue s k)"
    using nxq.pop_fail[of "pBufQueue s k"] by (simp add: buf_queue_def)
  then have "drain_queue k d s = Some s" by (subst drain_queue.simps) simp
  with 0(2) e emptied_self[of s k d] show ?case by simp
next
  case (Suc n)
  obtain rc x t where t: "NX_PopQueue (pBufQueue s k) = (rc, Some x, pBufQueue t k)"
    "give_back d x (s\<lparr>pBufQueue := (pBufQueue s)(k := pBufQueue t k)\<rparr>) = Some t"
    "n = length (queue_list (pBufQueue t k))" "buf_queue (pBufQueue t k)" "can_give d (queue_list (pBufQueue t k)) t"
    "\<And>u. emptied k d t u \<Longrightarrow> emptied k d s u"
    by (rule give_next[OF Suc.prems Suc.hyps(2)]) (rule that, assumption+)
  from Suc.hyps(1)[OF t(3-5)] t(6) obtain u where "drain_queue k d t = Some u" "emptied k d s u" by blast
  moreover from this t(1,2) have "drain_queue k d s = Some u" by (subst drain_queue.simps) simp
  ultimately show ?case by blast
qed

text \<open>Both queues, the input queue first.\<close>

lemma drain_ports_empties:
  assumes "buf_queue (pBufQueue s 0)" "buf_queue (pBufQueue s 1)" and "can_give OMX_DirInput (in_list s @ out_list s) s"
    and "eDir (pPort s 0) = OMX_DirInput" "eDir (pPort s 1) = OMX_DirOutput"
  shows "\<exists>u t. drain_ports [0, 1] s = Some t \<and> emptied 0 OMX_DirInput s u \<and> emptied 1 OMX_DirOutput u t"
proof -
  have "can_give OMX_DirInput (in_list s) s" using assms(3) by (simp add: can_give_def)
  then obtain u where u: "drain_queue 0 OMX_DirInput s = Some u" "emptied 0 OMX_DirInput s u"
    using drain_queue_empties[OF assms(1)] by blast
  have "buf_queue (pBufQueue u 1)" "can_give OMX_DirOutput (queue_list (pBufQueue u 1)) u" "pPort u = pPort s"
    using u(2) assms(2,3) by (auto simp: emptied_def can_give_def)
  moreover from this obtain t where "drain_queue 1 OMX_DirOutput u = Some t" "emptied 1 OMX_DirOutput u t"
    using drain_queue_empties[of u 1 OMX_DirOutput] by blast
  ultimately show ?thesis using u assms(4,5) by auto
qed

section \<open>What the loops do to a component\<close>

text \<open>What every callback leaves alone, the loops leave alone.\<close>

lemma drain_queue_keeps:
  assumes "\<And>d x k q s t. give_back d x (s\<lparr>pBufQueue := (pBufQueue s)(k := q)\<rparr>) = Some t \<Longrightarrow> f t = f s"
    and "drain_queue k d s = Some t"
  shows "f t = f s"
proof (rule drain_queue.raw_induct[where P = "\<lambda>k d s t. f t = f s", OF _ assms(2)])
  fix g :: "nat \<Rightarrow> OMX_DIRTYPE \<Rightarrow> 'a NX_BASE_COMPNENT_scheme \<Rightarrow> 'a NX_BASE_COMPNENT_scheme option" and k d s t
  assume ih: "\<And>k d s t. g k d s = Some t \<Longrightarrow> f t = f s"
    and body: "(let (rc, e, q) = NX_PopQueue (pBufQueue s k) in
      case e of None \<Rightarrow> Some s
      | Some p \<Rightarrow> do { s \<leftarrow> give_back d p (s\<lparr>pBufQueue := (pBufQueue s)(k := q)\<rparr>); g k d s }) = Some t"
  then show "f t = f s"
    by (auto split: prod.splits bind_splits option.splits dest!: assms(1))
qed

lemma drain_ports_keeps:
  assumes "\<And>d x k q s t. give_back d x (s\<lparr>pBufQueue := (pBufQueue s)(k := q)\<rparr>) = Some t \<Longrightarrow> f t = f s"
  shows "drain_ports is s = Some t \<Longrightarrow> f t = f s"
proof -
  have "f t = f s" if "drain_queue k d s = Some t" for k d s t
    using that by (rule drain_queue_keeps[where f = f, rotated]) (rule assms)
  then show "drain_ports is s = Some t \<Longrightarrow> f t = f s"
    by (induction "is" arbitrary: s) (auto split: bind_splits)
qed

text \<open>
  A relation \<open>R\<close> between the states of a component before and after giving buffers back, which each component states
  in its own way; it need hold only if the component is well formed before (\<open>W\<close>). If it holds for one buffer, it
  holds for the loops.
\<close>

locale gives_back =
  fixes W :: "'a NX_BASE_COMPNENT_scheme \<Rightarrow> bool"
    and R :: "'a NX_BASE_COMPNENT_scheme \<Rightarrow> 'a NX_BASE_COMPNENT_scheme \<Rightarrow> bool"
  assumes stays: "R s s"
    and joins: "R s t \<Longrightarrow> R t u \<Longrightarrow> R s u"
    and if_wf: "(W s \<Longrightarrow> R s t) \<Longrightarrow> R s t"
    and dirs: "W s \<Longrightarrow> k < 2 \<Longrightarrow> eDir (pPort s k) = port_dir k"
    and gives: "NX_PopQueue (pBufQueue s k) = (rc, Some x, q) \<Longrightarrow> k < 2 \<Longrightarrow>
      give_back (port_dir k) x (s\<lparr>pBufQueue := (pBufQueue s)(k := q)\<rparr>) = Some t \<Longrightarrow> R s t"
begin

lemma drained:
  assumes "drain_queue k d s = Some t" and "k < 2" and "d = port_dir k"
  shows "R s t"
proof -
  have "k < 2 \<and> d = port_dir k \<longrightarrow> R s t"
  proof (rule drain_queue.raw_induct[where P = "\<lambda>k d s t. k < 2 \<and> d = port_dir k \<longrightarrow> R s t", OF _ assms(1)], rule impI)
    fix f :: "nat \<Rightarrow> OMX_DIRTYPE \<Rightarrow> 'a NX_BASE_COMPNENT_scheme \<Rightarrow> 'a NX_BASE_COMPNENT_scheme option" and k d s t
    assume ih: "\<And>k d s t. f k d s = Some t \<Longrightarrow> k < 2 \<and> d = port_dir k \<longrightarrow> R s t"
      and body: "(let (rc, e, q) = NX_PopQueue (pBufQueue s k) in
        case e of None \<Rightarrow> Some s
        | Some p \<Rightarrow> do { s \<leftarrow> give_back d p (s\<lparr>pBufQueue := (pBufQueue s)(k := q)\<rparr>); f k d s }) = Some t"
      and k: "k < 2 \<and> d = port_dir k"
    obtain rc e q where pop: "NX_PopQueue (pBufQueue s k) = (rc, e, q)" by (metis prod_cases3)
    show "R s t"
    proof (cases e)
      case None
      with body pop show ?thesis by (simp add: stays)
    next
      case (Some x)
      with body pop obtain u where u: "give_back d x (s\<lparr>pBufQueue := (pBufQueue s)(k := q)\<rparr>) = Some u" "f k d u = Some t"
        by (auto split: bind_splits)
      have "R s u" using gives[of s k rc x q u] pop Some u(1) k by simp
      with ih[OF u(2)] k show ?thesis by (blast intro: joins)
    qed
  qed
  with assms(2,3) show ?thesis by simp
qed

lemma drained_ports: "drain_ports is s = Some t \<Longrightarrow> set is \<subseteq> {0, 1} \<Longrightarrow> R s t"
proof (induction "is" arbitrary: s)
  case Nil
  then show ?case by (simp add: stays)
next
  case (Cons i "is")
  then obtain u where u: "drain_queue i (eDir (pPort s i)) s = Some u" "drain_ports is u = Some t"
    by (auto split: bind_splits)
  show ?case
  proof (rule if_wf)
    assume "W s"
    moreover have "i < 2" using Cons.prems(2) by auto
    ultimately have "R s u" by (intro drained[OF u(1)] dirs)
    with Cons.IH[OF u(2)] Cons.prems(2) show "R s t" by (auto intro: joins)
  qed
qed

end

end
