(* ===== verification/VidEncCmd.thy ===== *)
theory VidEncCmd
  imports VidEncFrame OmxDrain
begin

text \<open>
  The commands of the video encoder (\<open>NX_OMXVideoEncoder.c\<close>): the loops that give buffers back,
  \<open>NX_VidEncStateTransition\<close>, \<open>NX_VidEncCommandProc\<close>, and the creation and destruction of the component. As
  in \<open>VidDecCmd\<close>, a transition is a first part and steps between the points at which the command thread
  blocks.
\<close>

section \<open>Giving buffers back\<close>

text \<open>
  The loops of a flush: they test the number of buffers, but not the result of the pop; \<open>p\<close> is the local variable
  \<open>pBuf\<close>, which a failing pop leaves alone. They have no bound, so that the
  value \<open>None\<close> also stands for a loop that never ends. The loops of the state transition are in \<open>OmxDrain\<close>.
\<close>

partial_function (option) flush_queue :: "nat \<Rightarrow> OMX_DIRTYPE \<Rightarrow> ptr \<Rightarrow> NX_VIDENC \<Rightarrow> (ptr \<times> NX_VIDENC) option" where
  "flush_queue k d p s =
     (if NX_GetQueueCnt (pBufQueue s k) > 0 then
        (let (rc, e, q) = NX_PopQueue (pBufQueue s k);
             p = (case e of None \<Rightarrow> p | Some x \<Rightarrow> x)
         in do {
           s \<leftarrow> give_back d p (s\<lparr>pBufQueue := (pBufQueue s)(k := q)\<rparr>);
           flush_queue k d p s })
      else Some (p, s))"

text \<open>The branch for \<open>OMX_CommandFlush\<close>: both ports, whatever port the command names.\<close>

definition enc_flush :: "NX_VIDENC \<Rightarrow> NX_VIDENC option" where
  "enc_flush s = do {
     (p, s) \<leftarrow> flush_queue 0 OMX_DirInput NULL s;
     (p, s) \<leftarrow> flush_queue 1 OMX_DirOutput p s;
     Some s }"

text \<open>Returning the buffers in the transition from Executing to Idle.\<close>

definition return_buffers :: "NX_VIDENC \<Rightarrow> NX_VIDENC option" where
  "return_buffers s = do {
     s \<leftarrow> (if pPrevInputBuffer s \<noteq> NULL then call_EmptyBufferDone (pPrevInputBuffer s) s else Some s);
     drain_ports [0..<nNumPort s] s }"

section \<open>State transitions\<close>

text \<open>
  Where the command thread stands inside \<open>NX_VidEncStateTransition\<close>: returned with a code; from Loaded to
  Idle, at the allocation semaphore for port \<open>i\<close> and then before the encoder is opened; from Idle to Loaded,
  before the order to exit, at \<open>pthread_join\<close> and at the allocation semaphore for port \<open>i\<close>; from Executing to
  Idle, before the buffers are returned under the mutex. The wait for the buffer thread is in \<open>VidEncThread\<close>.
\<close>

datatype enc_trans =
    EncDone OMX_ERRORTYPE
  | EncAlloc nat
  | EncOpenCodec
  | EncExit
  | EncJoin
  | EncFree nat
  | EncReturn

definition NX_VidEncStateTransition ::
  "OMX_STATETYPE \<Rightarrow> OMX_STATETYPE \<Rightarrow> NX_VIDENC \<Rightarrow> (enc_trans \<times> NX_VIDENC \<times> thread_effect) option" where
  "NX_VidEncStateTransition cur new s =
     (if cur = new then Some (EncDone OMX_ErrorSameState, s, Quiet)
      else if OMX_StateInvalid = cur \<or> OMX_StateInvalid = new then Some (EncDone OMX_ErrorInvalidState, s, Quiet)
      else case cur of
        OMX_StateLoaded \<Rightarrow>
          (case new of
             OMX_StateIdle \<Rightarrow> Some (EncAlloc 0, s, Quiet)
           | _ \<Rightarrow> Some (EncDone OMX_ErrorIncorrectStateTransition, s, Quiet))
      | OMX_StateIdle \<Rightarrow>
          (case new of
             OMX_StateLoaded \<Rightarrow> Some (EncExit, EncoderClose s, Quiet)
           | OMX_StateExecuting \<Rightarrow> do {
               c \<leftarrow> post_handle (hBufCtrlSem s);
               Some (EncDone OMX_ErrorNone,
                 s\<lparr>eCmdBufThread := NX_THREAD_CMD_RUN, hBufCtrlSem := c, eCurState := new\<rparr>, PostsCtrl) }
           | OMX_StatePause \<Rightarrow> Some (EncDone OMX_ErrorNone, s\<lparr>eCurState := new\<rparr>, Quiet)
           | _ \<Rightarrow> Some (EncDone OMX_ErrorIncorrectStateTransition, s, Quiet))
      | OMX_StateExecuting \<Rightarrow>
          (case new of
             OMX_StateIdle \<Rightarrow> do {
               m \<leftarrow> post_handle (hBufChangeSem s);
               Some (EncReturn, s\<lparr>eCmdBufThread := NX_THREAD_CMD_PAUSE, hBufChangeSem := m\<rparr>, Quiet) }
           | OMX_StatePause \<Rightarrow> Some (EncDone OMX_ErrorNone, s\<lparr>eCurState := new\<rparr>, Quiet)
           | _ \<Rightarrow> Some (EncDone OMX_ErrorIncorrectStateTransition, s, Quiet))
      | OMX_StatePause \<Rightarrow>
          (if new = OMX_StateIdle \<or> new = OMX_StateExecuting then Some (EncDone OMX_ErrorNone, s\<lparr>eCurState := new\<rparr>, Quiet)
           else Some (EncDone OMX_ErrorIncorrectStateTransition, s, Quiet))
      | OMX_StateWaitForResources \<Rightarrow>
          (if new = OMX_StateLoaded \<or> new = OMX_StateIdle then Some (EncDone OMX_ErrorNone, s\<lparr>eCurState := new\<rparr>, Quiet)
           else Some (EncDone OMX_ErrorIncorrectStateTransition, s, Quiet))
      | _ \<Rightarrow> Some (EncDone OMX_ErrorUndefined, s, Quiet))"

text \<open>The transitions that only set the state.\<close>

definition enc_direct :: "(OMX_STATETYPE \<times> OMX_STATETYPE) set" where
  "enc_direct = {(OMX_StateIdle, OMX_StatePause), (OMX_StateExecuting, OMX_StatePause), (OMX_StatePause, OMX_StateIdle),
     (OMX_StatePause, OMX_StateExecuting), (OMX_StateWaitForResources, OMX_StateLoaded),
     (OMX_StateWaitForResources, OMX_StateIdle)}"

definition enc_staged :: "(OMX_STATETYPE \<times> OMX_STATETYPE) set" where
  "enc_staged = {(OMX_StateLoaded, OMX_StateIdle), (OMX_StateIdle, OMX_StateLoaded), (OMX_StateIdle, OMX_StateExecuting),
     (OMX_StateExecuting, OMX_StateIdle)}"

lemma enc_refused_rows:
  "(OMX_StateLoaded, new) \<notin> enc_staged \<Longrightarrow> \<exists>e. e \<noteq> OMX_ErrorNone \<and> NX_VidEncStateTransition OMX_StateLoaded new s = Some (EncDone e, s, Quiet)"
  "(OMX_StateIdle, new) \<notin> enc_staged \<union> enc_direct \<Longrightarrow> \<exists>e. e \<noteq> OMX_ErrorNone \<and> NX_VidEncStateTransition OMX_StateIdle new s = Some (EncDone e, s, Quiet)"
  "(OMX_StateExecuting, new) \<notin> enc_staged \<union> enc_direct \<Longrightarrow>
     \<exists>e. e \<noteq> OMX_ErrorNone \<and> NX_VidEncStateTransition OMX_StateExecuting new s = Some (EncDone e, s, Quiet)"
  "(OMX_StatePause, new) \<notin> enc_direct \<Longrightarrow> \<exists>e. e \<noteq> OMX_ErrorNone \<and> NX_VidEncStateTransition OMX_StatePause new s = Some (EncDone e, s, Quiet)"
  "(OMX_StateWaitForResources, new) \<notin> enc_direct \<Longrightarrow>
     \<exists>e. e \<noteq> OMX_ErrorNone \<and> NX_VidEncStateTransition OMX_StateWaitForResources new s = Some (EncDone e, s, Quiet)"
  "\<exists>e. e \<noteq> OMX_ErrorNone \<and> NX_VidEncStateTransition OMX_StateInvalid new s = Some (EncDone e, s, Quiet)"
  "\<exists>e. e \<noteq> OMX_ErrorNone \<and> NX_VidEncStateTransition (OMX_StateOther n) new s = Some (EncDone e, s, Quiet)"
  by (cases new; simp add: NX_VidEncStateTransition_def enc_staged_def enc_direct_def)+

lemma enc_transition_refused:
  "(cur, new) \<notin> enc_staged \<union> enc_direct \<Longrightarrow> \<exists>e. e \<noteq> OMX_ErrorNone \<and> NX_VidEncStateTransition cur new s = Some (EncDone e, s, Quiet)"
  by (cases cur) (simp_all add: enc_refused_rows)

lemma enc_transition_direct:
  "(cur, new) \<in> enc_direct \<Longrightarrow> NX_VidEncStateTransition cur new s = Some (EncDone OMX_ErrorNone, s\<lparr>eCurState := new\<rparr>, Quiet)"
  by (auto simp: enc_direct_def NX_VidEncStateTransition_def)

lemma enc_transition_cases:
  assumes "NX_VidEncStateTransition cur new s = Some (pc, t, f)"
  obtains (refused) e where "pc = EncDone e" "e \<noteq> OMX_ErrorNone" "t = s" "f = Quiet"
  | (begins) "cur = OMX_StateLoaded" "new = OMX_StateIdle" "pc = EncAlloc 0" "t = s" "f = Quiet"
  | (unload) "cur = OMX_StateIdle" "new = OMX_StateLoaded" "pc = EncExit" "t = EncoderClose s" "f = Quiet"
  | (run) c where "cur = OMX_StateIdle" "new = OMX_StateExecuting" "post_handle (hBufCtrlSem s) = Some c" "pc = EncDone OMX_ErrorNone"
      "t = s\<lparr>eCmdBufThread := NX_THREAD_CMD_RUN, hBufCtrlSem := c, eCurState := OMX_StateExecuting\<rparr>" "f = PostsCtrl"
  | (stop) m where "cur = OMX_StateExecuting" "new = OMX_StateIdle" "post_handle (hBufChangeSem s) = Some m" "pc = EncReturn"
      "t = s\<lparr>eCmdBufThread := NX_THREAD_CMD_PAUSE, hBufChangeSem := m\<rparr>" "f = Quiet"
  | (direct) "(cur, new) \<in> enc_direct" "pc = EncDone OMX_ErrorNone" "t = s\<lparr>eCurState := new\<rparr>" "f = Quiet"
proof -
  consider "(cur, new) \<in> enc_direct" | "(cur, new) \<in> enc_staged" | "(cur, new) \<notin> enc_staged \<union> enc_direct" by blast
  then show ?thesis
  proof cases
    case 1
    with assms enc_transition_direct[of cur new s] that(6) show ?thesis by simp
  next
    case 2
    then consider "cur = OMX_StateLoaded" "new = OMX_StateIdle" | "cur = OMX_StateIdle" "new = OMX_StateLoaded"
      | "cur = OMX_StateIdle" "new = OMX_StateExecuting" | "cur = OMX_StateExecuting" "new = OMX_StateIdle"
      by (auto simp: enc_staged_def)
    then show ?thesis
    proof cases
      case 1
      with assms that(2) show ?thesis by (simp add: NX_VidEncStateTransition_def)
    next
      case 2
      with assms that(3) show ?thesis by (simp add: NX_VidEncStateTransition_def)
    next
      case 3
      with assms obtain c where "post_handle (hBufCtrlSem s) = Some c" "pc = EncDone OMX_ErrorNone" "f = PostsCtrl"
        "t = s\<lparr>eCmdBufThread := NX_THREAD_CMD_RUN, hBufCtrlSem := c, eCurState := OMX_StateExecuting\<rparr>"
        by (auto simp: NX_VidEncStateTransition_def split: bind_splits)
      with 3 that(4) show ?thesis by simp
    next
      case 4
      with assms obtain m where "post_handle (hBufChangeSem s) = Some m" "pc = EncReturn" "f = Quiet"
        "t = s\<lparr>eCmdBufThread := NX_THREAD_CMD_PAUSE, hBufChangeSem := m\<rparr>"
        by (auto simp: NX_VidEncStateTransition_def split: bind_splits)
      with 4 that(5) show ?thesis by simp
    qed
  next
    case 3
    with assms enc_transition_refused[of cur new s] that(1) show ?thesis by auto
  qed
qed

text \<open>One step of a transition; \<open>joined\<close>: the buffer thread has ended.\<close>

fun enc_transition_step :: "enc_lib \<Rightarrow> bool \<Rightarrow> enc_trans \<Rightarrow> NX_VIDENC \<Rightarrow> (enc_trans \<times> NX_VIDENC \<times> thread_effect) option" where
  "enc_transition_step lib joined (EncAlloc i) s =
     (if i < nNumPort s then do { s \<leftarrow> pend_alloc i s; Some (EncAlloc (i + 1), s, Quiet) }
      else Some (EncOpenCodec, s, Quiet))"
| "enc_transition_step lib joined EncOpenCodec s = do {
     (rc, s) \<leftarrow> EncoderOpen lib s;
     if rc \<noteq> 0 then Some (EncDone OMX_ErrorUndefined, s, Quiet)
     else Some (EncDone OMX_ErrorNone,
       s\<lparr>eCmdBufThread := NX_THREAD_CMD_PAUSE, hBufCtrlSem := create_sem 0 1,
         hBufChangeSem := create_sem 0 (word_of_nat (VIDENC_NUM_PORT * 1024))\<rparr>, CreatesThread) }"
| "enc_transition_step lib joined EncExit s = do {
     m \<leftarrow> post_handle (hBufChangeSem s);
     c \<leftarrow> post_handle (hBufCtrlSem s);
     Some (EncJoin, s\<lparr>eCmdBufThread := NX_THREAD_CMD_EXIT, hBufChangeSem := m, hBufCtrlSem := c\<rparr>, PostsCtrl) }"
| "enc_transition_step lib joined EncJoin s =
     (if joined then
        Some (EncFree 0, s\<lparr>hBufChangeSem := NX_DestroySem (hBufChangeSem s), hBufCtrlSem := NX_DestroySem (hBufCtrlSem s)\<rparr>, Quiet)
      else None)"
| "enc_transition_step lib joined (EncFree i) s =
     (if i < nNumPort s then do { s \<leftarrow> pend_alloc i s; Some (EncFree (i + 1), s, Quiet) }
      else Some (EncDone OMX_ErrorNone, s\<lparr>eCurState := OMX_StateLoaded\<rparr>, Quiet))"
| "enc_transition_step lib joined EncReturn s = do {
     s \<leftarrow> return_buffers s;
     Some (EncDone OMX_ErrorNone, s\<lparr>eCurState := OMX_StateIdle\<rparr>, Quiet) }"
| "enc_transition_step lib joined (EncDone e) s = None"

section \<open>Commands\<close>

definition NX_VidEncCommandProc ::
  "OMX_COMMANDTYPE \<Rightarrow> OMX_U32 \<Rightarrow> ptr \<Rightarrow> NX_VIDENC \<Rightarrow> (enc_trans cmd_next \<times> NX_VIDENC \<times> thread_effect) option" where
  "NX_VidEncCommandProc Cmd n dat s =
     (case Cmd of
        OMX_CommandStateSet \<Rightarrow>
          (if eCurState s = to_state n then do {
             s \<leftarrow> SendEvent OMX_EventError (omx_error_code OMX_ErrorSameState) 0 dat s;
             Some (Returned, s, Quiet) }
           else do {
             (pc, s, f) \<leftarrow> NX_VidEncStateTransition (eCurState s) (to_state n) s;
             Some (InTransition pc, s, f) })
      | OMX_CommandFlush \<Rightarrow> do {
          s \<leftarrow> enc_flush s;
          s \<leftarrow> send_complete OMX_CommandFlush n dat s;
          Some (Returned, s, Quiet) }
      | OMX_CommandPortDisable \<Rightarrow>
          (if OMX_ALL \<noteq> n \<or> 2 \<ge> n then do {
             s \<leftarrow> SendEvent OMX_EventError (omx_error_code OMX_ErrorBadPortIndex) 0 dat s;
             Some (Returned, s, Quiet) }
           else Some (AtCtrl, s, Quiet))
      | OMX_CommandPortEnable \<Rightarrow> Some (AtCtrl, s, Quiet)
      | OMX_CommandMarkBuffer \<Rightarrow> Some (AtCtrl, s, Quiet)
      | _ \<Rightarrow> do {
          s \<leftarrow> SendEvent OMX_EventCmdComplete 0 0 dat s;
          Some (Returned, s, Quiet) })"

text \<open>The end of a port command, behind the pend: the event names neither the command nor the port.\<close>

definition finish_port_command :: "ptr \<Rightarrow> NX_VIDENC \<Rightarrow> NX_VIDENC option" where
  "finish_port_command dat s = do {
     c \<leftarrow> post_handle (hBufCtrlSem s);
     SendEvent OMX_EventCmdComplete 0 0 dat (s\<lparr>hBufCtrlSem := c\<rparr>) }"

text \<open>The end of \<open>OMX_CommandStateSet\<close>: the code of the transition is not looked at.\<close>

definition enc_finish_state_set :: "OMX_U32 \<Rightarrow> ptr \<Rightarrow> NX_VIDENC \<Rightarrow> NX_VIDENC option" where
  "enc_finish_state_set n dat s = send_complete OMX_CommandStateSet n dat s"

section \<open>Creation and destruction\<close>

text \<open>The members that \<open>ComponentInit\<close> sets once the base is initialised.\<close>

definition init_encoder :: "NX_VIDENC \<Rightarrow> NX_VIDENC" where
  "init_encoder s =
     s\<lparr>comp_nVersion := NX_OMXSetVersion, nNumPort := VIDENC_NUM_PORT,
       pPort := (pPort s)(0 := init_port 0 OMX_DirInput VIDENC_INPORT_MIN_BUF_CNT VIDENC_INPORT_MIN_BUF_SIZE,
                          1 := init_port 1 OMX_DirOutput VIDENC_OUTPORT_MIN_BUF_CNT VIDENC_OUTPORT_MIN_BUF_SIZE),
       pBufQueue := (pBufQueue s)(0 := snd (NX_InitQueue 0 VIDENC_MAX_BUF), 1 := snd (NX_InitQueue 0 VIDENC_MAX_BUF)),
       cmdQueue := snd (NX_InitQueue 0 NX_MAX_QUEUE_ELEMENT),
       hSemCmd := create_sem 0 (word_of_nat NX_MAX_QUEUE_ELEMENT), hSemCmdWait := create_sem 0 1,
       eCmdThreadCmd := NX_THREAD_CMD_RUN, compName := ''OMX.NX.VIDEO_ENCODER'', compRole := ''video_encoder'',
       hBufAllocSem := create_sem 0 16, bUseNativeBuffer := False, bMetaDataInBuffers := False,
       bCodecSpecificInfo := False, hVpuCodec := NULL, encWidth := 1024, encHeight := 768,
       encKeyInterval := VIDENC_DEF_FRAMERATE, encFrameRate := VIDENC_DEF_FRAMERATE, encBitRate := VIDENC_DEF_BITRATE,
       bSendCodecSpecificInfo := False, hCSCMem := None, encIntraRefreshMbs := 0,
       omxMp4EncParam := SetDefaultMp4EncParam 1, omxAVCEncParam := SetDefaultAvcEncParam 1, pPrevInputBuffer := NULL\<rparr>"

text \<open>
  \<open>num\<close> is \<open>gstNumInstance\<close>, at most 2; \<open>alloc\<close> and \<open>alloc_cb\<close> say whether the blocks for the component and for
  its callbacks are allocated; the semaphores, queues and ports are created, and the command thread has
  started when the call returns.
\<close>

definition NX_VidEncComponentInit :: "nat \<Rightarrow> bool \<Rightarrow> bool \<Rightarrow> ptr \<Rightarrow> OMX_ERRORTYPE \<times> NX_VIDENC option \<times> nat" where
  "NX_VidEncComponentInit num alloc alloc_cb hComponent =
     (if num \<ge> 2 then (OMX_ErrorInsufficientResources, None, num)
      else if \<not> alloc then (OMX_ErrorInsufficientResources, None, num)
      else
        (let (e, s) = NX_BaseComponentInit alloc_cb hComponent zero_videnc in
         if e \<noteq> OMX_ErrorNone then (e, None, num) else (OMX_ErrorNone, Some (init_encoder s), num + 1)))"

text \<open>\<open>ComponentDeInit\<close> up to \<open>pthread_join\<close>, and its rest: the blocks that are not freed remain.\<close>

definition enc_deinit_start :: "NX_VIDENC \<Rightarrow> NX_VIDENC option" where
  "enc_deinit_start s = do {
     let s = s\<lparr>eCmdThreadCmd := NX_THREAD_CMD_EXIT\<rparr>;
     w \<leftarrow> post_handle (hSemCmdWait s);
     c \<leftarrow> post_handle (hSemCmd s);
     Some (s\<lparr>hSemCmdWait := w, hSemCmd := c\<rparr>) }"

definition enc_deinit_finish :: "nat \<Rightarrow> NX_VIDENC \<Rightarrow> OMX_ERRORTYPE \<times> NX_VIDENC \<times> nat" where
  "enc_deinit_finish num s =
     (let s = s\<lparr>cmdQueue := NX_DeinitQueue (cmdQueue s), hSemCmdWait := NX_DestroySem (hSemCmdWait s),
                hSemCmd := NX_DestroySem (hSemCmd s),
                pBufQueue := (pBufQueue s)(0 := NX_DeinitQueue (pBufQueue s 0), 1 := NX_DeinitQueue (pBufQueue s 1)),
                hBufAllocSem := NX_DestroySem (hBufAllocSem s), compName := [], compRole := []\<rparr>
      in (OMX_ErrorNone, if hCSCMem s \<noteq> None then (emit VencFreeMemory s)\<lparr>hCSCMem := None\<rparr> else s, num - 1))"

section \<open>The loops end\<close>

lemma flush_queue_empties:
  assumes "buf_queue (pBufQueue s k)" and "can_give d (queue_list (pBufQueue s k)) s"
  shows "\<exists>p' t. flush_queue k d p s = Some (p', t) \<and> emptied k d s t"
  using assms
proof (induction "length (queue_list (pBufQueue s k))" arbitrary: s p)
  case 0
  then have e: "queue_list (pBufQueue s k) = []" by (metis length_0_conv)
  then have "curElements (pBufQueue s k) = 0" by (metis length_queue_list list.size(3))
  then have "flush_queue k d p s = Some (p, s)" by (subst flush_queue.simps) (simp add: NX_GetQueueCnt_def)
  with 0(2) e emptied_self[of s k d] show ?case by simp
next
  case (Suc n)
  obtain rc x t where t: "NX_PopQueue (pBufQueue s k) = (rc, Some x, pBufQueue t k)"
    "give_back d x (s\<lparr>pBufQueue := (pBufQueue s)(k := pBufQueue t k)\<rparr>) = Some t"
    "n = length (queue_list (pBufQueue t k))" "buf_queue (pBufQueue t k)" "can_give d (queue_list (pBufQueue t k)) t"
    "\<And>u. emptied k d t u \<Longrightarrow> emptied k d s u"
    by (rule give_next[OF Suc.prems Suc.hyps(2)]) (rule that, assumption+)
  from Suc.hyps(1)[OF t(3-5), of x] t(6) obtain p' u where "flush_queue k d x t = Some (p', u)" "emptied k d s u" by blast
  moreover from this t(1,2) Suc.hyps(2) have "flush_queue k d p s = Some (p', u)"
    by (subst flush_queue.simps) (simp add: NX_GetQueueCnt_def)
  ultimately show ?case by blast
qed

text \<open>
  C25: The loops that give the buffers back have no bound of their own, but they end: on a well-formed component,
  with the client's callbacks set and a header for every buffer that waits, a flush and the return of the
  buffers in a state transition both come to their end; then both queues are empty and every buffer was
  given back exactly once, the input buffers first, each in the order of its queue.
\<close>

theorem enc_flush_ends:
  assumes "enc_wf s" and "can_give OMX_DirInput (in_list s @ out_list s) s"
    and "calls = map (\<lambda>p. EmptyBufferDone p (the (hdr_mem s p))) (in_list s) @ map (\<lambda>p. FillBufferDone p (the (hdr_mem s p))) (out_list s)"
  shows "(\<exists>t. enc_flush s = Some t \<and> in_list t = [] \<and> out_list t = [] \<and> trace t = trace s @ calls) \<and>
     (\<exists>t. return_buffers s = Some t \<and> in_list t = [] \<and> out_list t = [] \<and> trace t = trace s @ calls)"
proof -
  have q: "buf_queue (pBufQueue s 0)" "buf_queue (pBufQueue s (Suc 0))" using assms(1) by (simp_all add: enc_wf_def)
  have g: "can_give OMX_DirInput (in_list s) s" using assms(2) by (simp add: can_give_def)
  have second: "buf_queue (pBufQueue u (Suc 0))" "can_give OMX_DirOutput (queue_list (pBufQueue u (Suc 0))) u" "out_list u = out_list s"
    "hdr_mem u = hdr_mem s" "trace u = trace s @ map (\<lambda>p. EmptyBufferDone p (the (hdr_mem s p))) (in_list s)" "in_list u = []"
    "eDir (pPort u (Suc 0)) = eDir (pPort s (Suc 0))"
    if "emptied 0 OMX_DirInput s u" for u
    using that q(2) assms(2) by (auto simp: emptied_def can_give_def give_event_def)
  have last: "in_list t = [] \<and> out_list t = [] \<and> trace t = trace s @ calls"
    if "emptied 0 OMX_DirInput s u" "emptied (Suc 0) OMX_DirOutput u t" for u t
    using that(2) second[OF that(1)] assms(3) by (auto simp: emptied_def give_event_def)
  obtain p u where u: "flush_queue 0 OMX_DirInput NULL s = Some (p, u)" "emptied 0 OMX_DirInput s u"
    using flush_queue_empties[OF q(1) g] by blast
  obtain p' t where t: "flush_queue (Suc 0) OMX_DirOutput p u = Some (p', t)" "emptied (Suc 0) OMX_DirOutput u t"
    using flush_queue_empties[OF second(1,2)[OF u(2)]] by blast
  obtain v where v: "drain_queue 0 OMX_DirInput s = Some v" "emptied 0 OMX_DirInput s v"
    using drain_queue_empties[OF q(1) g] by blast
  obtain w where w: "drain_queue (Suc 0) OMX_DirOutput v = Some w" "emptied (Suc 0) OMX_DirOutput v w"
    using drain_queue_empties[OF second(1,2)[OF v(2)]] by blast
  have "enc_flush s = Some t" using u(1) t(1) by (simp add: enc_flush_def)
  moreover have "return_buffers s = Some w"
    using assms(1) v(1) w(1) second(7)[OF v(2)] by (simp add: return_buffers_def enc_wf_def upt_conv_Cons numeral_2_eq_2)
  ultimately show ?thesis using last[OF u(2) t(2)] last[OF v(2) w(2)] by blast
qed

theorem enc_flush_ends_witness:
  "\<exists>t. enc_flush sample_comp = Some t \<and> ebd_ptrs (trace t) = [5] \<and> fbd_ptrs (trace t) = [6] \<and> in_list t = []"
proof -
  have "can_give OMX_DirInput (in_list sample_comp @ out_list sample_comp) sample_comp"
    using sample_lists by (simp add: can_give_def) (simp add: sample_simps)
  from conjunct1[OF enc_flush_ends[OF sample_wf this HOL.refl]] obtain t where
    "enc_flush sample_comp = Some t" "in_list t = []"
    "trace t = trace sample_comp @ map (\<lambda>p. EmptyBufferDone p (the (hdr_mem sample_comp p))) [5]
       @ map (\<lambda>p. FillBufferDone p (the (hdr_mem sample_comp p))) [6]"
    unfolding sample_lists by blast
  moreover have "trace sample_comp = []" by (simp add: sample_simps)
  ultimately show ?thesis by simp
qed

section \<open>No buffer is given back twice\<close>

lemma tracked_if_wf: "(enc_wf s \<Longrightarrow> tracked is os s t) \<Longrightarrow> tracked is os s t"
  by (auto simp: tracked_def)

lemma tracked_give:
  assumes pop: "NX_PopQueue (pBufQueue s k) = (rc, Some x, q)" and k: "k < 2"
    and g: "give_back (port_dir k) x (s\<lparr>pBufQueue := (pBufQueue s)(k := q)\<rparr>) = Some t"
  shows "tracked [] [] s t"
proof (rule tracked_if_wf)
  assume w: "enc_wf s"
  have wq: "buf_queue (pBufQueue s k)" using w k by (auto simp: enc_wf_def less_2_cases_iff)
  have l: "queue_list (pBufQueue s k) = x # queue_list q" using buf_pop_cases[OF pop wq] by auto
  let ?s = "s\<lparr>pBufQueue := (pBufQueue s)(k := q)\<rparr>"
  have ws: "enc_wf ?s" using w k buf_queue_popped[OF pop wq] by (auto simp: enc_wf_def less_2_cases_iff)
  consider "k = 0" "handed [x] [] ?s t" | "k = Suc 0" "handed [] [x] ?s t"
    using k g by (auto simp: less_2_cases_iff port_dir_def give_back_def handed_EBD handed_FBD)
  then show "tracked [] [] s t"
  proof cases
    case 1
    with l ws handed_views[OF 1(2)] handed_wf[OF 1(2)] show ?thesis
      by (auto simp: tracked_def enc_in_view_def enc_out_view_def intro!: exI[of _ "{#}"])
  next
    case 2
    with l ws handed_views[OF 2(2)] handed_wf[OF 2(2)] show ?thesis
      by (auto simp: tracked_def enc_in_view_def enc_out_view_def intro!: exI[of _ "{#}"])
  qed
qed

lemma tracked_flush_queue:
  assumes "flush_queue k d p s = Some y" and "k < 2" and "d = port_dir k"
  shows "tracked [] [] s (snd y)"
proof -
  have "k < 2 \<and> d = port_dir k \<longrightarrow> tracked [] [] s (snd y)"
  proof (rule flush_queue.raw_induct[where P = "\<lambda>k d p s y. k < 2 \<and> d = port_dir k \<longrightarrow> tracked [] [] s (snd y)", OF _ assms(1)],
      rule impI, rule tracked_if_wf)
    fix f :: "nat \<Rightarrow> OMX_DIRTYPE \<Rightarrow> ptr \<Rightarrow> NX_VIDENC \<Rightarrow> (ptr \<times> NX_VIDENC) option" and k d p s y
    assume ih: "\<And>k d p s y. f k d p s = Some y \<Longrightarrow> k < 2 \<and> d = port_dir k \<longrightarrow> tracked [] [] s (snd y)"
      and body: "(if NX_GetQueueCnt (pBufQueue s k) > 0 then
        (let (rc, e, q) = NX_PopQueue (pBufQueue s k);
             p = (case e of None \<Rightarrow> p | Some x \<Rightarrow> x)
         in do { s \<leftarrow> give_back d p (s\<lparr>pBufQueue := (pBufQueue s)(k := q)\<rparr>); f k d p s })
        else Some (p, s)) = Some y"
      and k: "k < 2 \<and> d = port_dir k" and w: "enc_wf s"
    have wq: "buf_queue (pBufQueue s k)" using w k by (auto simp: enc_wf_def less_2_cases_iff)
    obtain rc e q where pop: "NX_PopQueue (pBufQueue s k) = (rc, e, q)" by (metis prod_cases3)
    show "tracked [] [] s (snd y)"
    proof (cases rule: buf_pop_cases[OF pop wq])
      case 1
      then have "curElements (pBufQueue s k) = 0" by (metis length_queue_list list.size(3))
      with body have "y = (p, s)" by (simp add: NX_GetQueueCnt_def)
      then show ?thesis by (simp add: tracked_handed)
    next
      case (2 x)
      then have "0 < curElements (pBufQueue s k)" by (metis length_queue_list length_greater_0_conv list.distinct(1))
      with body pop 2 obtain u where u: "give_back d x (s\<lparr>pBufQueue := (pBufQueue s)(k := q)\<rparr>) = Some u" "f k d x u = Some y"
        by (auto simp: NX_GetQueueCnt_def split: bind_splits)
      have "tracked [] [] s u" using tracked_give[of s k rc x q u] pop 2(2) u(1) k by simp
      with ih[OF u(2)] k show ?thesis by (blast intro: tracked_two)
    qed
  qed
  with assms(2,3) show ?thesis by simp
qed

interpretation enc_gives: gives_back enc_wf "tracked [] []"
  by unfold_locales (auto simp: tracked_handed enc_wf_def port_dir_def less_2_cases_iff intro: tracked_two tracked_if_wf dest: tracked_give)

lemma tracked_enc_flush:
  assumes "enc_flush s = Some t"
  shows "tracked [] [] s t"
proof -
  obtain p u y where "flush_queue 0 OMX_DirInput NULL s = Some (p, u)" "flush_queue (Suc 0) OMX_DirOutput p u = Some y" "t = snd y"
    using assms by (auto simp: enc_flush_def split: bind_splits)
  then show ?thesis
    using tracked_flush_queue[of 0 OMX_DirInput NULL s "(p, u)"] tracked_flush_queue[of "Suc 0" OMX_DirOutput p u y]
    by (auto simp: port_dir_def intro: tracked_two)
qed

lemma tracked_return:
  assumes "return_buffers s = Some t"
  shows "tracked [] [] s t"
proof (rule tracked_if_wf)
  assume w: "enc_wf s"
  then have "drain_ports [0..<nNumPort s] s = Some t" using assms by (simp add: return_buffers_def enc_wf_def)
  with w show "tracked [] [] s t" by (intro enc_gives.drained_ports) (auto simp: enc_wf_def)
qed

lemma handed_pend_alloc: "pend_alloc i (s :: NX_VIDENC) = Some t \<Longrightarrow> handed [] [] s t"
  by (auto simp: pend_alloc_def handed_def split: if_splits bind_splits)

lemma handed_event: "SendEvent e a b d (s :: NX_VIDENC) = Some t \<Longrightarrow> handed [] [] s t"
  by (auto simp: SendEvent_def handed_def emit_def split: if_splits)

lemma handed_upd [simp]:
  "handed a b s (t\<lparr>eCurState := x1\<rparr>) = handed a b s t" "handed a b s (t\<lparr>eCmdBufThread := x2\<rparr>) = handed a b s t"
  "handed a b s (t\<lparr>hBufCtrlSem := x3\<rparr>) = handed a b s t" "handed a b s (t\<lparr>hBufChangeSem := x4\<rparr>) = handed a b s t"
  "handed a b s (t\<lparr>hSemCmd := x5\<rparr>) = handed a b s t" "handed a b s (t\<lparr>hSemCmdWait := x6\<rparr>) = handed a b s t"
  "handed a b s (t\<lparr>hdr_mem := x7\<rparr>) = handed a b s t" "handed a b s (t\<lparr>byte_mem := x8\<rparr>) = handed a b s t"
  "handed a b s (t\<lparr>cmd_mem := x9\<rparr>) = handed a b s t"
  by (simp_all add: handed_def)

lemma handed_transition:
  assumes "NX_VidEncStateTransition cur new s = Some (pc, t, f)"
  shows "handed [] [] s t"
  by (rule enc_transition_cases[OF assms]) (simp_all add: handed_close)

lemma tracked_transition_step:
  assumes "enc_transition_step lib j pc s = Some (pc', t, f)"
  shows "tracked [] [] s t"
proof (cases pc)
  case EncOpenCodec
  then obtain rc u where u: "EncoderOpen lib s = Some (rc, u)" "handed [] [] u t"
    using assms by (auto split: bind_splits if_splits)
  from handed_quiet[OF handed_open[OF u(1)] u(2)] show ?thesis by (rule tracked_handed)
next
  case EncReturn
  with assms obtain u where u: "return_buffers s = Some u" "t = u\<lparr>eCurState := OMX_StateIdle\<rparr>" by (auto split: bind_splits)
  then have "handed [] [] u t" by simp
  with tracked_return[OF u(1)] show ?thesis by (blast intro: tracked_two tracked_handed)
next
  case (EncAlloc i)
  with assms show ?thesis by (auto intro: tracked_handed handed_pend_alloc split: if_splits bind_splits)
next
  case (EncFree i)
  with assms show ?thesis by (auto intro: tracked_handed handed_pend_alloc split: if_splits bind_splits)
qed (use assms in \<open>auto intro: tracked_handed split: if_splits bind_splits\<close>)

lemma tracked_command:
  assumes "NX_VidEncCommandProc c n dat s = Some (r, t, f)"
  shows "tracked [] [] s t"
proof (cases c)
  case OMX_CommandStateSet
  with assms show ?thesis
    by (auto simp: NX_VidEncCommandProc_def split: if_splits bind_splits intro: tracked_handed handed_transition handed_event)
next
  case OMX_CommandFlush
  with assms obtain u where u: "enc_flush s = Some u" "send_complete OMX_CommandFlush n dat u = Some t"
    by (auto simp: NX_VidEncCommandProc_def split: bind_splits)
  then have "handed [] [] u t" by (auto simp: send_complete_def intro: handed_event)
  with tracked_enc_flush[OF u(1)] show ?thesis by (blast intro: tracked_two tracked_handed)
qed (use assms in \<open>auto simp: NX_VidEncCommandProc_def split: if_splits bind_splits intro: tracked_handed handed_event\<close>)

end
