(* ===== verification/VidEncThread.thy ===== *)
theory VidEncThread
  imports VidEncCmd
begin

text \<open>
  The video encoder as a concurrent system: the buffer thread (\<open>NX_VidEncBufferMgmtThread\<close>), the command
  thread (\<open>NX_VidEncCommandThread\<close>) and a client that calls the entry points, in any interleaving. A step
  of a thread is the code between two accesses to what the threads share outside the mutex; the critical
  sections under \<open>hBufMutex\<close> are one step each. Both threads pend on \<open>hBufCtrlSem\<close>, so that this semaphore is
  modelled with its waiting threads, as in \<open>OmxSem\<close>; spurious wakeups are left out.
\<close>

section \<open>The buffer thread\<close>

text \<open>
  Where the buffer thread stands: not created; before the first post; at the test of the outer loop; at
  \<open>NX_PendSem( hBufCtrlSem )\<close>, asleep there, and woken; at the test of the inner loop; at
  \<open>NX_PendSem( hBufChangeSem )\<close>; at the test behind it; before the mutex; ended.
\<close>

datatype enc_buf_pc =
    EBufNone | EBufStart | EBufOuter | EBufPendCtrl | EBufWaitCtrl | EBufWokenCtrl
  | EBufInner | EBufPendChange | EBufWoken | EBufLocked | EBufDone

definition NX_VidEncTransform :: "enc_lib \<Rightarrow> NX_VIDENC \<Rightarrow> (int \<times> NX_VIDENC) option" where
  "NX_VidEncTransform lib s = EncodeFrame lib s"

text \<open>The critical section: at most one frame; only a negative result is reported.\<close>

definition enc_turn :: "enc_lib \<Rightarrow> NX_VIDENC \<Rightarrow> NX_VIDENC option" where
  "enc_turn lib s =
     (if NX_GetQueueCnt (pInputPortQueue s) > 0 \<and> NX_GetQueueCnt (pOutputPortQueue s) > 0 then do {
        (rc, s) \<leftarrow> NX_VidEncTransform lib s;
        if rc < 0 then SendEvent OMX_EventError 0 0 NULL s else Some s }
      else Some s)"

fun enc_buf_step :: "enc_lib \<Rightarrow> enc_buf_pc \<Rightarrow> NX_VIDENC \<Rightarrow> (enc_buf_pc \<times> NX_VIDENC) option" where
  "enc_buf_step lib EBufStart s = do { c \<leftarrow> post_handle (hBufCtrlSem s); Some (EBufOuter, s\<lparr>hBufCtrlSem := c\<rparr>) }"
| "enc_buf_step lib EBufOuter s = Some (if NX_THREAD_CMD_EXIT \<noteq> eCmdBufThread s then EBufPendCtrl else EBufDone, s)"
| "enc_buf_step lib EBufPendCtrl s = ctrl_enter EBufWaitCtrl EBufInner s"
| "enc_buf_step lib EBufWokenCtrl s = ctrl_resume EBufInner s"
| "enc_buf_step lib EBufInner s = Some (if NX_THREAD_CMD_RUN = eCmdBufThread s then EBufPendChange else EBufOuter, s)"
| "enc_buf_step lib EBufPendChange s = do { m \<leftarrow> pend_handle (hBufChangeSem s); Some (EBufWoken, s\<lparr>hBufChangeSem := m\<rparr>) }"
| "enc_buf_step lib EBufWoken s = Some (if NX_THREAD_CMD_RUN \<noteq> eCmdBufThread s then EBufOuter else EBufLocked, s)"
| "enc_buf_step lib EBufLocked s = do { s \<leftarrow> enc_turn lib s; Some (EBufInner, s) }"
| "enc_buf_step lib EBufNone s = None"
| "enc_buf_step lib EBufWaitCtrl s = None"
| "enc_buf_step lib EBufDone s = None"

text \<open>Whether the step posts \<open>hBufCtrlSem\<close>.\<close>

definition buf_posts :: "enc_buf_pc \<Rightarrow> thread_effect" where
  "buf_posts b = (if b = EBufStart then PostsCtrl else Quiet)"

section \<open>The command thread\<close>

text \<open>
  Where the command thread stands; \<open>p\<close> is the local variable \<open>pCmd\<close>, which keeps its value when a pop fails.
\<close>

datatype enc_cmd_pc =
    ECmdStart | ECmdPend ptr | ECmdTest ptr | ECmdProc ptr | ECmdTrans ptr enc_trans
  | ECmdCtrl ptr ctrl_reason | ECmdWait ptr ctrl_reason | ECmdWoken ptr ctrl_reason | ECmdHas ptr ctrl_reason
  | ECmdDone

definition next_pc :: "ptr \<Rightarrow> enc_trans cmd_next \<Rightarrow> enc_cmd_pc" where
  "next_pc p r = (case r of Returned \<Rightarrow> ECmdPend p | InTransition pc \<Rightarrow> ECmdTrans p pc | AtCtrl \<Rightarrow> ECmdCtrl p ForCommand)"

fun enc_cmd_step :: "enc_lib \<Rightarrow> bool \<Rightarrow> enc_cmd_pc \<Rightarrow> NX_VIDENC \<Rightarrow> (enc_cmd_pc \<times> NX_VIDENC \<times> thread_effect) option" where
  "enc_cmd_step lib joined ECmdStart s = do { w \<leftarrow> post_handle (hSemCmdWait s); Some (ECmdPend NULL, s\<lparr>hSemCmdWait := w\<rparr>, Quiet) }"
| "enc_cmd_step lib joined (ECmdPend p) s = do { c \<leftarrow> pend_handle (hSemCmd s); Some (ECmdTest p, s\<lparr>hSemCmd := c\<rparr>, Quiet) }"
| "enc_cmd_step lib joined (ECmdTest p) s =
     (if NX_THREAD_CMD_RUN \<noteq> eCmdThreadCmd s \<and> 0 = NX_GetQueueCnt (cmdQueue s) then Some (ECmdDone, s, Quiet)
      else
        (let (rc, e, q) = NX_PopQueue (cmdQueue s); s = s\<lparr>cmdQueue := q\<rparr>;
             p = (case e of None \<Rightarrow> p | Some x \<Rightarrow> x)
         in Some (if p \<noteq> NULL then ECmdProc p else ECmdPend p, s, Quiet)))"
| "enc_cmd_step lib joined (ECmdProc p) s = do {
     m \<leftarrow> cmd_mem s p;
     (r, s, f) \<leftarrow> NX_VidEncCommandProc (eCmd m) (nParam1 m) (pCmdData m) s;
     Some (next_pc p r, if r = Returned then free_cmd p s else s, f) }"
| "enc_cmd_step lib joined (ECmdTrans p pc) s =
     (case pc of
        EncDone e \<Rightarrow> do {
          m \<leftarrow> cmd_mem s p;
          s \<leftarrow> enc_finish_state_set (nParam1 m) (pCmdData m) s;
          Some (ECmdPend p, free_cmd p s, Quiet) }
      | _ \<Rightarrow> do {
          (pc', s, f) \<leftarrow> enc_transition_step lib joined pc s;
          Some (if f = CreatesThread then ECmdCtrl p ForThread else ECmdTrans p pc', s, f) })"
| "enc_cmd_step lib joined (ECmdCtrl p r) s = do {
     (pc, s) \<leftarrow> ctrl_enter (ECmdWait p r) (ECmdHas p r) s;
     Some (pc, s, Quiet) }"
| "enc_cmd_step lib joined (ECmdWoken p r) s = do {
     (pc, s) \<leftarrow> ctrl_resume (ECmdHas p r) s;
     Some (pc, s, Quiet) }"
| "enc_cmd_step lib joined (ECmdHas p ForThread) s =
     Some (ECmdTrans p (EncDone OMX_ErrorNone), s\<lparr>eCurState := OMX_StateIdle\<rparr>, Quiet)"
| "enc_cmd_step lib joined (ECmdHas p ForCommand) s = do {
     m \<leftarrow> cmd_mem s p;
     s \<leftarrow> finish_port_command (pCmdData m) s;
     Some (ECmdPend p, free_cmd p s, PostsCtrl) }"
| "enc_cmd_step lib joined (ECmdWait p r) s = None"
| "enc_cmd_step lib joined ECmdDone s = None"

section \<open>The client\<close>

text \<open>
  The calls of the client, with the blocks that the calls allocate; the last two are its writes to the memory
  that it shares with the component.
\<close>

datatype enc_call =
    EncEmpty ptr
  | EncFill ptr
  | EncSend ptr OMX_COMMANDTYPE OMX_U32 ptr
  | EncUse ptr OMX_U32 ptr OMX_U32 ptr
  | EncAllocate ptr ptr OMX_U32 ptr OMX_U32
  | EncFreeBuffer OMX_U32 ptr
  | EncSet venc_param
  | EncCallbacks OMX_CALLBACKTYPE ptr
  | EncHeader ptr OMX_BUFFERHEADERTYPE
  | EncData ptr "OMX_U8 list"

fun enc_client_step :: "enc_lib \<Rightarrow> enc_call \<Rightarrow> NX_VIDENC \<Rightarrow> (OMX_ERRORTYPE \<times> NX_VIDENC) option" where
  "enc_client_step lib (EncEmpty b) s = NX_VidEncEmptyThisBuffer b s"
| "enc_client_step lib (EncFill b) s = NX_VidEncFillThisBuffer b s"
| "enc_client_step lib (EncSend p c n dat) s = NX_BaseSendCommand p c n dat s"
| "enc_client_step lib (EncUse p port app sz buf) s = map_option (\<lambda>(e, h, s). (e, s)) (NX_VidEncUseBuffer p port app sz buf s)"
| "enc_client_step lib (EncAllocate p pb port app sz) s =
     map_option (\<lambda>(e, h, s). (e, s)) (NX_VidEncAllocateBuffer lib p pb port app sz s)"
| "enc_client_step lib (EncFreeBuffer port b) s = NX_VidEncFreeBuffer port b s"
| "enc_client_step lib (EncSet par) s = Some (NX_VidEncSetParameter par s)"
| "enc_client_step lib (EncCallbacks cb dat) s = Some (NX_BaseSetCallbacks cb dat s)"
| "enc_client_step lib (EncHeader b h) s = Some (OMX_ErrorNone, s\<lparr>hdr_mem := (hdr_mem s)(b := Some h)\<rparr>)"
| "enc_client_step lib (EncData p bs) s = Some (OMX_ErrorNone, s\<lparr>byte_mem := (byte_mem s)(p := Some bs)\<rparr>)"

text \<open>The buffers that a call hands to the component.\<close>

fun enc_taken_in :: "enc_call \<Rightarrow> OMX_ERRORTYPE \<Rightarrow> ptr list" where
  "enc_taken_in (EncEmpty b) e = (if e = OMX_ErrorNone then [b] else [])"
| "enc_taken_in _ e = []"

fun enc_taken_out :: "enc_call \<Rightarrow> OMX_ERRORTYPE \<Rightarrow> ptr list" where
  "enc_taken_out (EncFill b) e = (if e = OMX_ErrorNone then [b] else [])"
| "enc_taken_out _ e = []"

section \<open>The system\<close>

text \<open>
  The component, where the two threads stand, and, for the statements below, the buffers that the client has
  handed over so far, in the order of the calls.
\<close>

record enc_sys =
  ecomp :: NX_VIDENC
  ebpc :: enc_buf_pc
  ecpc :: enc_cmd_pc
  eins :: "ptr list"
  eouts :: "ptr list"

text \<open>
  Where the threads stand after a step with the effect \<open>f\<close>: a post of \<open>hBufCtrlSem\<close>, even one that fails with an
  overflow, wakes one of the threads that sleep there.
\<close>

fun buf_wakes :: "enc_buf_pc \<Rightarrow> enc_buf_pc option" where
  "buf_wakes EBufWaitCtrl = Some EBufWokenCtrl"
| "buf_wakes _ = None"

fun cmd_wakes :: "enc_cmd_pc \<Rightarrow> enc_cmd_pc option" where
  "cmd_wakes (ECmdWait p r) = Some (ECmdWoken p r)"
| "cmd_wakes _ = None"

inductive ctrl_signal :: "thread_effect \<Rightarrow> enc_buf_pc \<Rightarrow> enc_cmd_pc \<Rightarrow> enc_buf_pc \<Rightarrow> enc_cmd_pc \<Rightarrow> bool" where
  quiet: "f \<noteq> PostsCtrl \<Longrightarrow> ctrl_signal f b c b c"
| nobody: "buf_wakes b = None \<Longrightarrow> cmd_wakes c = None \<Longrightarrow> ctrl_signal f b c b c"
| buffer: "buf_wakes b = Some b' \<Longrightarrow> ctrl_signal PostsCtrl b c b' c"
| command: "cmd_wakes c = Some c' \<Longrightarrow> ctrl_signal PostsCtrl b c b c'"

code_pred ctrl_signal .

text \<open>The library may answer differently at every step.\<close>

inductive enc_step :: "enc_sys \<Rightarrow> enc_sys \<Rightarrow> bool" where
  client: "enc_client_step lib k (ecomp S) = Some (e, t) \<Longrightarrow>
     enc_step S (S\<lparr>ecomp := t, eins := eins S @ enc_taken_in k e, eouts := eouts S @ enc_taken_out k e\<rparr>)"
| buffer: "enc_buf_step lib (ebpc S) (ecomp S) = Some (b, t) \<Longrightarrow> ctrl_signal (buf_posts (ebpc S)) b (ecpc S) b' c' \<Longrightarrow>
     enc_step S (S\<lparr>ecomp := t, ebpc := b', ecpc := c'\<rparr>)"
| command: "enc_cmd_step lib (ebpc S = EBufDone) (ecpc S) (ecomp S) = Some (c, t, f) \<Longrightarrow>
     ctrl_signal f (if f = CreatesThread then EBufStart else ebpc S) c b' c' \<Longrightarrow>
     enc_step S (S\<lparr>ecomp := t, ebpc := b', ecpc := c'\<rparr>)"

inductive enc_reach :: "enc_sys \<Rightarrow> enc_sys \<Rightarrow> bool" for S0 where
  start: "enc_reach S0 S0"
| step: "enc_reach S0 S \<Longrightarrow> enc_step S T \<Longrightarrow> enc_reach S0 T"

text \<open>
  A component when \<open>ComponentInit\<close> returns: the command thread has made its first post, which
  \<open>NX_PendSem( hSemCmdWait )\<close> took, and stands at its semaphore.
\<close>

definition created_enc :: "NX_VIDENC \<Rightarrow> enc_sys" where
  "created_enc s = \<lparr>ecomp = s, ebpc = EBufNone, ecpc = ECmdPend NULL, eins = [], eouts = []\<rparr>"

section \<open>Invariants of the system\<close>

text \<open>A property of the system that every step keeps; what holds of the threads is shown by instances of it.\<close>

locale enc_stable =
  fixes I :: "enc_sys \<Rightarrow> bool"
  assumes keeps: "enc_step S T \<Longrightarrow> I S \<Longrightarrow> I T"
begin

lemma always: "enc_reach S0 S \<Longrightarrow> I S0 \<Longrightarrow> I S"
  by (induction rule: enc_reach.induct) (auto intro: keeps)

end

section \<open>The buffers\<close>

text \<open>The queue of commands is not one of the queues of buffers.\<close>

lemma tracked_cmd_queue:
  assumes "queue_inv (cmdQueue s) \<and> bEnabled (cmdQueue s) \<Longrightarrow> queue_inv q \<and> bEnabled q"
  shows "tracked [] [] s (s\<lparr>cmdQueue := q\<rparr>)"
  using assms by (auto simp: tracked_def enc_wf_def enc_in_view_def enc_out_view_def intro!: exI[of _ "{#}"])

lemma tracked_then_handed: "tracked is os s t \<Longrightarrow> handed [] [] t u \<Longrightarrow> tracked is os s u"
  using tracked_trans[OF _ tracked_handed, of "is" os s t u] by simp

lemma handed_then_tracked: "handed [] [] s t \<Longrightarrow> tracked is os t u \<Longrightarrow> tracked is os s u"
  using tracked_trans[OF tracked_handed, of s t "is" os u] by simp

lemma tracked_send:
  assumes "NX_BaseSendCommand p c n dat s = Some (e, t)"
  shows "tracked [] [] s t"
proof -
  define u1 where "u1 = s\<lparr>cmd_mem := (cmd_mem s)(p := Some \<lparr>cmd_id = cmdId s, eCmd = c, nParam1 = n, pCmdData = dat\<rparr>), cmdId := cmdId s + 1\<rparr>"
  define u where "u = (if OMX_CommandStateSet = c then u1\<lparr>eNewState := to_state n\<rparr> else u1)"
  have u: "handed [] [] s u" by (simp add: u_def u1_def handed_def)
  obtain h where t: "t = (u\<lparr>cmdQueue := snd (NX_PushQueue (cmdQueue u) p)\<rparr>)\<lparr>hSemCmd := h\<rparr>"
    using assms unfolding NX_BaseSendCommand_def Let_def u1_def[symmetric] u_def[symmetric]
    by (auto split: if_splits bind_splits)
  have "tracked [] [] u (u\<lparr>cmdQueue := snd (NX_PushQueue (cmdQueue u) p)\<rparr>)"
    by (rule tracked_cmd_queue) (simp add: push_inv nxq.ready_push)
  with u have "tracked [] [] s (u\<lparr>cmdQueue := snd (NX_PushQueue (cmdQueue u) p)\<rparr>)" by (rule handed_then_tracked)
  then show ?thesis unfolding t by (rule tracked_then_handed) simp
qed

lemma tracked_queue_buffer:
  assumes "enc_queue_buffer k b s = Some (e, t)" and "k < 2"
  shows "tracked (if k = 0 \<and> e = OMX_ErrorNone then [b] else []) (if k \<noteq> 0 \<and> e = OMX_ErrorNone then [b] else []) s t"
proof (rule tracked_if_wf)
  assume w: "enc_wf s"
  then have q: "buf_queue (pBufQueue s k)" using assms(2) by (auto simp: enc_wf_def less_2_cases_iff)
  have wt: "enc_wf t" using enc_wf_queue_buffer[OF assms(1) w assms(2)] .
  obtain rc q' where push: "NX_PushQueue (pBufQueue s k) b = (rc, q')" by (metis surj_pair)
  consider "e \<noteq> OMX_ErrorNone" "t = s" | m where "e = OMX_ErrorNone" "rc = 0"
      "t = s\<lparr>pBufQueue := (pBufQueue s)(k := q'), hBufChangeSem := m\<rparr>"
  proof (cases "accepts_buffers s \<and> rc = 0")
    case True
    with assms(1) push that(2) show ?thesis by (auto simp: enc_queue_buffer_def split: bind_splits)
  next
    case False
    with assms(1) push that(1) show ?thesis by (auto simp: enc_queue_buffer_def split: if_splits)
  qed
  then show "tracked (if k = 0 \<and> e = OMX_ErrorNone then [b] else []) (if k \<noteq> 0 \<and> e = OMX_ErrorNone then [b] else []) s t"
  proof cases
    case 1
    then show ?thesis by (simp add: tracked_handed)
  next
    case (2 m)
    have "queue_list q' = queue_list (pBufQueue s k) @ [b]"
    proof (cases "curElements (pBufQueue s k) < maxElement (pBufQueue s k) \<and> bEnabled (pBufQueue s k)")
      case True
      with push_list[of "pBufQueue s k" b] q push show ?thesis by (simp add: buf_queue_def)
    next
      case False
      with push_full[of "pBufQueue s k" b] push 2(2) show ?thesis by auto
    qed
    with 2 wt assms(2) show ?thesis
      by (auto simp: tracked_def enc_in_view_def enc_out_view_def less_2_cases_iff intro!: exI[of _ "{#}"])
  qed
qed

definition told where
  "told s = (trace s, bSendCodecSpecificInfo (s :: NX_VIDENC))"

lemma told_upd [simp]:
  "told (s\<lparr>hdr_mem := x1\<rparr>) = told s" "told (s\<lparr>byte_mem := x2\<rparr>) = told s" "told (s\<lparr>hBufAllocSem := x3\<rparr>) = told s"
  "told (upd_port k f s) = told s" "told (set_port_buf k i p s) = told s"
  by (simp_all add: told_def upd_port_def set_port_buf_def)

lemma told_added: "buffer_added ty k s = Some t \<Longrightarrow> told t = told s"
  by (auto simp: buffer_added_def Let_def split: if_splits bind_splits)

lemma told_release: "release_buffer b k i s = Some t \<Longrightarrow> told t = told s"
  by (auto simp: release_buffer_def Let_def split: if_splits bind_splits)

lemma told_use: "NX_VidEncUseBuffer p port app sz buf s = Some (e, h, t) \<Longrightarrow> told t = told s"
  by (auto simp: NX_VidEncUseBuffer_def Let_def split: if_splits bind_splits option.splits dest!: told_added)

lemma told_allocate: "NX_VidEncAllocateBuffer lib p pb port app sz s = Some (e, h, t) \<Longrightarrow> told t = told s"
  by (auto simp: NX_VidEncAllocateBuffer_def Let_def split: if_splits bind_splits option.splits dest!: told_added)

lemma told_free: "NX_VidEncFreeBuffer port b s = Some (e, t) \<Longrightarrow> told t = told s"
  by (auto simp: NX_VidEncFreeBuffer_def Let_def split: if_splits bind_splits option.splits dest!: told_release)

lemma told_base_set: "NX_BaseSetParameter d s = (e, t) \<Longrightarrow> told t = told s"
  by (auto simp: NX_BaseSetParameter_def Let_def split: if_splits OMX_PORTDOMAINTYPE.splits)

lemma told_params [simp]:
  "told (s\<lparr>inputFormat := x1\<rparr>) = told s" "told (s\<lparr>outputFormat := x2\<rparr>) = told s" "told (s\<lparr>encFrameRate := x3\<rparr>) = told s"
  "told (s\<lparr>encBitRate := x4\<rparr>) = told s" "told (s\<lparr>encIntraRefreshMbs := x5\<rparr>) = told s" "told (s\<lparr>bUseNativeBuffer := x6\<rparr>) = told s"
  "told (s\<lparr>bMetaDataInBuffers := x7\<rparr>) = told s" "told (s\<lparr>vpuCodecId := x8\<rparr>) = told s" "told (s\<lparr>compRole := x9\<rparr>) = told s"
  "told (s\<lparr>omxMp4EncParam := x10\<rparr>) = told s" "told (s\<lparr>omxAVCEncParam := x11\<rparr>) = told s" "told (s\<lparr>encWidth := x12\<rparr>) = told s"
  "told (s\<lparr>encHeight := x13\<rparr>) = told s"
  by (simp_all add: told_def)

lemma told_set_parameter: "NX_VidEncSetParameter par s = (e, t) \<Longrightarrow> told t = told s"
  by (auto simp: NX_VidEncSetParameter_def EncSetParameter_Role_def set_enc_codec_def set_intra_refresh_def
      set_framerate_def copy_avc_param_def Let_def told_base_set split: venc_param.splits if_splits)

lemma handed_told: "told t = told s \<Longrightarrow> shape t = shape s \<Longrightarrow> handed [] [] s t"
  by (simp add: handed_def told_def)

lemmas handed_calls = handed_told[OF told_use shape_use] handed_told[OF told_allocate shape_allocate]
  handed_told[OF told_free shape_free] handed_told[OF told_set_parameter shape_set_parameter]

lemma tracked_client:
  assumes "enc_client_step lib k s = Some (e, t)"
  shows "tracked (enc_taken_in k e) (enc_taken_out k e) s t"
proof (cases k)
  case (EncEmpty b)
  with assms tracked_queue_buffer[of 0 b s e t] show ?thesis by (simp add: NX_VidEncEmptyThisBuffer_def)
next
  case (EncFill b)
  with assms tracked_queue_buffer[of 1 b s e t] show ?thesis by (simp add: NX_VidEncFillThisBuffer_def)
next
  case (EncSend p c n dat)
  with assms show ?thesis by (simp add: tracked_send)
next
  case (EncUse p port app sz buf)
  with assms show ?thesis by (auto intro: tracked_handed handed_calls(1))
next
  case (EncAllocate p pb port app sz)
  with assms show ?thesis by (auto intro: tracked_handed handed_calls(2))
next
  case (EncFreeBuffer port b)
  with assms show ?thesis by (auto intro: tracked_handed handed_calls(3))
next
  case (EncSet par)
  with assms show ?thesis by (auto intro: tracked_handed handed_calls(4))
next
  case (EncCallbacks cb dat)
  with assms have "handed [] [] s t" by (auto simp: NX_BaseSetCallbacks_def handed_def)
  with EncCallbacks show ?thesis by (simp add: tracked_handed)
qed (use assms in \<open>auto intro: tracked_handed\<close>)

lemma tracked_turn:
  assumes "enc_turn lib s = Some t"
  shows "tracked [] [] s t"
proof (cases "t = s")
  case False
  then obtain rc u where u: "EncodeFrame lib s = Some (rc, u)" "t = u \<or> SendEvent OMX_EventError 0 0 NULL u = Some t"
    using assms by (auto simp: enc_turn_def NX_VidEncTransform_def split: if_splits bind_splits)
  then have "handed [] [] u t" using handed_event by auto
  with tracked_encode_frame[OF u(1)] show ?thesis by (rule tracked_then_handed)
qed (simp add: tracked_handed)

lemma tracked_buf_step:
  assumes "enc_buf_step lib b s = Some (b', t)"
  shows "tracked [] [] s t"
proof (cases "b = EBufLocked")
  case True
  with assms show ?thesis by (auto intro: tracked_turn split: bind_splits)
next
  case False
  with assms have "handed [] [] s t"
    by (cases b) (auto simp: ctrl_enter_def ctrl_resume_def split: bind_splits option.splits)
  then show ?thesis by (rule tracked_handed)
qed

lemma handed_free_cmd [simp]: "handed a b s (free_cmd p t) = handed a b s t"
  by (simp add: free_cmd_def)

lemma handed_port_command:
  assumes "finish_port_command dat s = Some t"
  shows "handed [] [] s t"
proof -
  obtain h where "SendEvent OMX_EventCmdComplete 0 0 dat (s\<lparr>hBufCtrlSem := h\<rparr>) = Some t"
    using assms by (auto simp: finish_port_command_def split: bind_splits)
  from handed_quiet[OF _ handed_event[OF this]] show ?thesis by simp
qed

lemma tracked_cmd_step:
  assumes "enc_cmd_step lib j c s = Some (c', t, f)"
  shows "tracked [] [] s t"
proof (cases c)
  case (ECmdTest p)
  obtain rc e q where q: "NX_PopQueue (cmdQueue s) = (rc, e, q)" by (metis prod_cases3)
  with assms ECmdTest have "t = s \<or> t = s\<lparr>cmdQueue := q\<rparr>" by (auto simp: Let_def split: if_splits)
  moreover have "tracked [] [] s (s\<lparr>cmdQueue := q\<rparr>)"
    using pop_inv[of "cmdQueue s"] nxq.ready_pop[of "cmdQueue s"] q by (intro tracked_cmd_queue) simp
  ultimately show ?thesis by (auto intro: tracked_handed)
next
  case (ECmdProc p)
  with assms obtain m where m: "cmd_mem s p = Some m" by (cases "cmd_mem s p") auto
  with assms ECmdProc obtain r u where "NX_VidEncCommandProc (eCmd m) (nParam1 m) (pCmdData m) s = Some (r, u, f)"
    "t = (if r = Returned then free_cmd p u else u)"
    by (cases "NX_VidEncCommandProc (eCmd m) (nParam1 m) (pCmdData m) s") auto
  then show ?thesis using tracked_then_handed[OF tracked_command, of _ _ _ s r u f t] by auto
next
  case (ECmdTrans p pc)
  show ?thesis
  proof (cases "\<exists>e. pc = EncDone e")
    case True
    with assms ECmdTrans show ?thesis
      by (auto simp: enc_finish_state_set_def send_complete_def split: bind_splits dest!: handed_event intro!: tracked_handed)
  next
    case False
    with assms ECmdTrans obtain pc' where "enc_transition_step lib j pc s = Some (pc', t, f)"
      by (cases pc) (auto simp del: enc_transition_step.simps split: bind_splits)
    then show ?thesis by (rule tracked_transition_step)
  qed
next
  case (ECmdHas p r)
  with assms show ?thesis by (cases r) (auto split: bind_splits dest!: handed_port_command intro!: tracked_handed)
next
  case (ECmdCtrl p r)
  with assms show ?thesis by (auto simp: ctrl_enter_def split: bind_splits option.splits intro: tracked_handed)
next
  case (ECmdWoken p r)
  with assms show ?thesis by (auto simp: ctrl_resume_def split: bind_splits option.splits intro: tracked_handed)
qed (use assms in \<open>auto intro: tracked_handed split: bind_splits\<close>)

text \<open>The account of the buffers that the client has handed over.\<close>

definition enc_account :: "enc_sys \<Rightarrow> bool" where
  "enc_account S \<longleftrightarrow> enc_wf (ecomp S) \<and> subseq (enc_in_view (ecomp S)) (eins S) \<and>
     (\<exists>D. enc_out_view (ecomp S) \<subseteq># mset (eouts S) + D \<and> size D \<le> (if bSendCodecSpecificInfo (ecomp S) then 1 else 0))"

lemma account_tracked:
  assumes "enc_account S" and "tracked is os (ecomp S) t" and "T = S\<lparr>ecomp := t, ebpc := b, ecpc := c, eins := eins S @ is, eouts := eouts S @ os\<rparr>"
  shows "enc_account T"
proof -
  let ?s = "ecomp S"
  obtain D where w: "enc_wf ?s" "subseq (enc_in_view ?s) (eins S)" and D: "enc_out_view ?s \<subseteq># mset (eouts S) + D"
    "size D \<le> (if bSendCodecSpecificInfo ?s then 1 else 0)"
    using assms(1) by (auto simp: enc_account_def)
  obtain E where t: "enc_wf t" "subseq (enc_in_view t) (enc_in_view ?s @ is)"
    "bSendCodecSpecificInfo ?s \<longrightarrow> bSendCodecSpecificInfo t" and E: "enc_out_view t \<subseteq># enc_out_view ?s + mset os + E"
    "size E \<le> (if bSendCodecSpecificInfo t \<and> \<not> bSendCodecSpecificInfo ?s then 1 else 0)"
    using assms(2) w(1) unfolding tracked_def by blast
  have "subseq (enc_in_view t) (eins S @ is)"
    using t(2) list_emb_append_mono[OF w(2), of "is" "is"] by (meson subseq_order.order_trans subseq_order.order_refl)
  moreover have "enc_out_view t \<subseteq># mset (eouts S @ os) + (D + E)"
  proof -
    have "enc_out_view ?s + mset os + E \<subseteq># (mset (eouts S) + D) + mset os + E"
      using D(1) by (intro subset_mset.add_mono) simp_all
    with E(1) show ?thesis by (auto simp: ac_simps intro: subset_mset.order_trans)
  qed
  moreover have "size (D + E) \<le> (if bSendCodecSpecificInfo t then 1 else 0)"
    using D(2) E(2) t(3) by (auto split: if_splits)
  ultimately show ?thesis using t(1) assms(3) by (auto simp: enc_account_def)
qed

lemma enc_account_step: "enc_step S T \<Longrightarrow> enc_account S \<Longrightarrow> enc_account T"
proof (induction rule: enc_step.induct)
  case (client lib k S e t)
  from account_tracked[OF client(2) tracked_client[OF client(1)], where b = "ebpc S" and c = "ecpc S"] show ?case by simp
next
  case (buffer lib S b t b' c')
  from account_tracked[OF buffer(3) tracked_buf_step[OF buffer(1)], where b = b' and c = c'] show ?case by simp
next
  case (command lib S c t f b' c')
  from account_tracked[OF command(3) tracked_cmd_step[OF command(1)], where b = b' and c = c'] show ?case by simp
qed

interpretation enc_accounts: enc_stable enc_account
  by unfold_locales (rule enc_account_step)

end
