(* ===== verification/VidEncCtl.thy ===== *)
theory VidEncCtl
  imports VidEncThread
begin

text \<open>
  Control in the running video encoder (\<open>NX_OMXVideoEncoder.c\<close>): what the operations leave alone of the members
  on which the threads synchronise, and the invariant that relates the state of the component, the place of
  the command thread and the existence of the buffer thread.
\<close>

section \<open>Control\<close>

text \<open>What the threads synchronise on; of \<open>hBufChangeSem\<close> only whether it exists.\<close>

definition ectl where
  "ectl s = (eCurState s, eCmdBufThread s, hBufCtrlSem s, hBufChangeSem (s :: NX_VIDENC) = None)"

lemma ectl_upd [simp]:
  "ectl (s\<lparr>hdr_mem := x1\<rparr>) = ectl s" "ectl (s\<lparr>byte_mem := x2\<rparr>) = ectl s" "ectl (s\<lparr>hBufAllocSem := x3\<rparr>) = ectl s"
  "ectl (upd_port k f s) = ectl s" "ectl (set_port_buf k i p s) = ectl s" "ectl (emit e s) = ectl s" "ectl (free_cmd p s) = ectl s"
  "ectl (s\<lparr>inputFormat := x5\<rparr>) = ectl s" "ectl (s\<lparr>outputFormat := x6\<rparr>) = ectl s" "ectl (s\<lparr>encFrameRate := x7\<rparr>) = ectl s"
  "ectl (s\<lparr>encBitRate := x8\<rparr>) = ectl s" "ectl (s\<lparr>encIntraRefreshMbs := x9\<rparr>) = ectl s" "ectl (s\<lparr>bUseNativeBuffer := x10\<rparr>) = ectl s"
  "ectl (s\<lparr>bMetaDataInBuffers := x11\<rparr>) = ectl s" "ectl (s\<lparr>vpuCodecId := x12\<rparr>) = ectl s" "ectl (s\<lparr>compRole := x13\<rparr>) = ectl s"
  "ectl (s\<lparr>omxMp4EncParam := x14\<rparr>) = ectl s" "ectl (s\<lparr>omxAVCEncParam := x15\<rparr>) = ectl s" "ectl (s\<lparr>encWidth := x16\<rparr>) = ectl s"
  "ectl (s\<lparr>encHeight := x17\<rparr>) = ectl s" "ectl (s\<lparr>pBufQueue := x18\<rparr>) = ectl s" "ectl (s\<lparr>hCSCMem := x19\<rparr>) = ectl s"
  "ectl (s\<lparr>bSendCodecSpecificInfo := x20\<rparr>) = ectl s" "ectl (s\<lparr>cmdQueue := x21\<rparr>) = ectl s" "ectl (s\<lparr>hSemCmd := x22\<rparr>) = ectl s"
  "ectl (s\<lparr>hSemCmdWait := x23\<rparr>) = ectl s" "ectl (s\<lparr>cmd_mem := x24\<rparr>) = ectl s" "ectl (s\<lparr>cmdId := x25\<rparr>) = ectl s"
  "ectl (s\<lparr>eNewState := x26\<rparr>) = ectl s" "ectl (s\<lparr>pCallbacks := x27\<rparr>) = ectl s" "ectl (s\<lparr>pCallbackData := x28\<rparr>) = ectl s"
  "ectl (s\<lparr>hVpuCodec := x29\<rparr>) = ectl s" "ectl (s\<lparr>seqBufSize := x30\<rparr>) = ectl s" "ectl (s\<lparr>pSeqBuf := x31\<rparr>) = ectl s"
  "ectl (s\<lparr>bCodecSpecificInfo := x32\<rparr>) = ectl s"
  by (simp_all add: ectl_def upd_port_def set_port_buf_def emit_def free_cmd_def)

lemma ectl_hdr: "upd_hdr p f s = Some t \<Longrightarrow> ectl t = ectl s"
  by (auto simp: upd_hdr_def split: bind_splits)

lemma ectl_event: "SendEvent e a b d s = Some t \<Longrightarrow> ectl t = ectl s"
  by (auto simp: SendEvent_def split: if_splits)

lemma ectl_EBD: "call_EmptyBufferDone p s = Some t \<Longrightarrow> ectl t = ectl s"
  by (auto simp: call_EmptyBufferDone_def split: bind_splits if_splits)

lemma ectl_FBD: "call_FillBufferDone p s = Some t \<Longrightarrow> ectl t = ectl s"
  by (auto simp: call_FillBufferDone_def split: bind_splits if_splits)

lemma ectl_upd_out: "upd_out p f s = Some t \<Longrightarrow> ectl t = ectl s"
  by (auto simp: upd_out_def ectl_hdr split: if_splits)

lemma ectl_fill: "fill_data p bs s = Some t \<Longrightarrow> ectl t = ectl s"
  by (auto simp: fill_data_def split: bind_splits if_splits)

lemma ectl_pop_out: "pop_out p s = (q, t) \<Longrightarrow> ectl t = ectl s"
  by (auto simp: pop_out_def split: prod.splits)

lemmas ectl_dests = ectl_hdr ectl_event ectl_EBD ectl_FBD ectl_upd_out ectl_fill ectl_pop_out

lemma ectl_csc [simp]: "ectl (need_csc_mem lib c s) = ectl s"
  by (simp add: need_csc_mem_def)

lemma ectl_image: "input_image lib src s = Some (r, t) \<Longrightarrow> ectl t = ectl s"
  by (auto simp: input_image_def opaque_image_def native_image_def yv12_image_def Let_def
      split: if_splits bind_splits option.splits prod.splits)

lemma ectl_eos: "encode_eos p s = Some t \<Longrightarrow> ectl t = ectl s"
  by (auto simp: encode_eos_def Let_def split: bind_splits prod.splits dest!: ectl_dests)

lemma ectl_deliver: "deliver_frame p q out s = Some t \<Longrightarrow> ectl t = ectl s"
  by (auto simp: deliver_frame_def Let_def split: bind_splits dest!: ectl_dests)

lemma ectl_codec_info: "send_codec_info p s = Some (q, t) \<Longrightarrow> ectl t = ectl s"
  by (auto simp: send_codec_info_def Let_def split: bind_splits prod.splits if_splits dest!: ectl_dests)

lemma ectl_encode: "EncodeFrame lib s = Some (rc, t) \<Longrightarrow> ectl t = ectl s"
  by (auto simp: EncodeFrame_def Let_def split: bind_splits prod.splits if_splits option.splits sum.splits
      dest!: ectl_eos ectl_image ectl_codec_info ectl_deliver ectl_pop_out)

lemma ectl_turn: "enc_turn lib s = Some t \<Longrightarrow> ectl t = ectl s"
  by (auto simp: enc_turn_def NX_VidEncTransform_def split: bind_splits if_splits dest!: ectl_encode ectl_event)

lemma ectl_give: "give_back d p s = Some t \<Longrightarrow> ectl t = ectl s"
  by (auto simp: give_back_def split: OMX_DIRTYPE.splits dest: ectl_EBD ectl_FBD)

lemma ectl_flush_queue: 
  assumes "flush_queue k d p s = Some y"
  shows "ectl (snd y) = ectl s"
proof (rule flush_queue.raw_induct[where P = "\<lambda>k d p s y. ectl (snd y) = ectl s", OF _ assms])
  fix f :: "nat \<Rightarrow> OMX_DIRTYPE \<Rightarrow> ptr \<Rightarrow> NX_VIDENC \<Rightarrow> (ptr \<times> NX_VIDENC) option" and k d p s y
  assume ih: "\<And>k d p s y. f k d p s = Some y \<Longrightarrow> ectl (snd y) = ectl s"
    and body: "(if NX_GetQueueCnt (pBufQueue s k) > 0 then
      (let (rc, e, q) = NX_PopQueue (pBufQueue s k);
           p = (case e of None \<Rightarrow> p | Some x \<Rightarrow> x)
       in do { s \<leftarrow> give_back d p (s\<lparr>pBufQueue := (pBufQueue s)(k := q)\<rparr>); f k d p s })
      else Some (p, s)) = Some y"
  then show "ectl (snd y) = ectl s"
    by (auto simp: Let_def split: if_splits prod.splits bind_splits dest!: ectl_give)
qed

lemma ectl_flush: "enc_flush s = Some t \<Longrightarrow> ectl t = ectl s"
  by (auto simp: enc_flush_def split: bind_splits dest!: ectl_flush_queue)

lemma ectl_drain_ports: "drain_ports is s = Some t \<Longrightarrow> ectl t = ectl s"
  by (rule drain_ports_keeps) (auto dest: ectl_give)

lemma ectl_return: "return_buffers s = Some t \<Longrightarrow> ectl t = ectl s"
  by (auto simp: return_buffers_def split: bind_splits if_splits dest!: ectl_drain_ports ectl_EBD)

lemma ectl_pend_alloc: "pend_alloc i s = Some t \<Longrightarrow> ectl t = ectl s"
  by (auto simp: pend_alloc_def split: bind_splits if_splits)

lemma ectl_open: "EncoderOpen lib s = Some (rc, t) \<Longrightarrow> ectl t = ectl s"
  by (auto simp: EncoderOpen_def Let_def split: if_splits bind_splits prod.splits)

lemma ectl_close [simp]: "ectl (EncoderClose s) = ectl s"
  by (simp add: EncoderClose_def Let_def)

subsection \<open>The calls of the client\<close>

lemma post_handle_exists: "post_handle h = Some h' \<Longrightarrow> h \<noteq> None \<and> h' \<noteq> None"
  by (auto simp: post_handle_def split: option.splits)

lemma pend_handle_exists: "pend_handle h = Some h' \<Longrightarrow> h \<noteq> None \<and> h' \<noteq> None"
  by (auto simp: pend_handle_def split: option.splits)

lemma ectl_queue_buffer: "enc_queue_buffer k b s = Some (e, t) \<Longrightarrow> ectl t = ectl s"
  by (auto simp: enc_queue_buffer_def ectl_def split: if_splits bind_splits prod.splits dest: post_handle_exists)

lemma ectl_added: "buffer_added ty k s = Some t \<Longrightarrow> ectl t = ectl s"
  by (auto simp: buffer_added_def Let_def split: if_splits bind_splits)

lemma ectl_release: "release_buffer b k i s = Some t \<Longrightarrow> ectl t = ectl s"
  by (auto simp: release_buffer_def Let_def split: if_splits bind_splits)

lemma ectl_base_set: "NX_BaseSetParameter d s = (e, t) \<Longrightarrow> ectl t = ectl s"
  by (auto simp: NX_BaseSetParameter_def Let_def split: if_splits OMX_PORTDOMAINTYPE.splits)

lemma ectl_set_parameter: "NX_VidEncSetParameter par s = (e, t) \<Longrightarrow> ectl t = ectl s"
  by (auto simp: NX_VidEncSetParameter_def EncSetParameter_Role_def set_enc_codec_def set_intra_refresh_def
      set_framerate_def copy_avc_param_def Let_def ectl_base_set split: venc_param.splits if_splits)

lemma ectl_use: "NX_VidEncUseBuffer p port app sz buf s = Some (e, h, t) \<Longrightarrow> ectl t = ectl s"
  by (auto simp: NX_VidEncUseBuffer_def Let_def split: if_splits bind_splits option.splits dest!: ectl_added)

lemma ectl_allocate: "NX_VidEncAllocateBuffer lib p pb port app sz s = Some (e, h, t) \<Longrightarrow> ectl t = ectl s"
  by (auto simp: NX_VidEncAllocateBuffer_def Let_def split: if_splits bind_splits option.splits dest!: ectl_added)

lemma ectl_free: "NX_VidEncFreeBuffer port b s = Some (e, t) \<Longrightarrow> ectl t = ectl s"
  by (auto simp: NX_VidEncFreeBuffer_def Let_def split: if_splits bind_splits option.splits dest!: ectl_release)

lemma ectl_send: "NX_BaseSendCommand p c n dat s = Some (e, t) \<Longrightarrow> ectl t = ectl s"
  by (auto simp: NX_BaseSendCommand_def Let_def ectl_def split: if_splits bind_splits)

lemma ectl_client: "enc_client_step lib k s = Some (e, t) \<Longrightarrow> ectl t = ectl s"
  by (cases k) (auto simp: NX_VidEncEmptyThisBuffer_def NX_VidEncFillThisBuffer_def NX_BaseSetCallbacks_def
      dest: ectl_queue_buffer ectl_use ectl_allocate ectl_free ectl_send ectl_set_parameter)

section \<open>States and threads\<close>

definition enc_stopped :: "enc_buf_pc \<Rightarrow> NX_VIDENC \<Rightarrow> bool" where
  "enc_stopped b s \<longleftrightarrow> hBufCtrlSem s = None \<and> hBufChangeSem s = None \<and> (b = EBufNone \<or> b = EBufDone)"

definition enc_started :: "enc_buf_pc \<Rightarrow> NX_VIDENC \<Rightarrow> bool" where
  "enc_started b s \<longleftrightarrow> hBufCtrlSem s \<noteq> None \<and> hBufChangeSem s \<noteq> None \<and> eCmdBufThread s \<noteq> NX_THREAD_CMD_EXIT \<and>
     b \<noteq> EBufNone \<and> b \<noteq> EBufDone"

definition enc_ending :: "enc_buf_pc \<Rightarrow> NX_VIDENC \<Rightarrow> bool" where
  "enc_ending b s \<longleftrightarrow> hBufCtrlSem s \<noteq> None \<and> hBufChangeSem s \<noteq> None \<and> b \<noteq> EBufNone"

definition enc_settled :: "enc_buf_pc \<Rightarrow> NX_VIDENC \<Rightarrow> bool" where
  "enc_settled b s \<longleftrightarrow> eCurState s = OMX_StateLoaded \<and> enc_stopped b s \<or>
     eCurState s \<in> {OMX_StateIdle, OMX_StateExecuting, OMX_StatePause} \<and> enc_started b s"

text \<open>What holds at each place of the command thread.\<close>

definition reason_ok :: "ctrl_reason \<Rightarrow> enc_buf_pc \<Rightarrow> NX_VIDENC \<Rightarrow> bool" where
  "reason_ok r b s \<longleftrightarrow> (case r of ForThread \<Rightarrow> eCurState s = OMX_StateLoaded \<and> enc_started b s | ForCommand \<Rightarrow> enc_settled b s)"

definition trans_ok :: "enc_trans \<Rightarrow> enc_buf_pc \<Rightarrow> NX_VIDENC \<Rightarrow> bool" where
  "trans_ok pc b s \<longleftrightarrow>
     (case pc of
        EncAlloc i \<Rightarrow> eCurState s = OMX_StateLoaded \<and> enc_stopped b s
      | EncOpenCodec \<Rightarrow> eCurState s = OMX_StateLoaded \<and> enc_stopped b s
      | EncExit \<Rightarrow> eCurState s = OMX_StateIdle \<and> enc_started b s
      | EncJoin \<Rightarrow> eCurState s = OMX_StateIdle \<and> enc_ending b s
      | EncFree i \<Rightarrow> eCurState s = OMX_StateIdle \<and> enc_stopped b s
      | EncReturn \<Rightarrow> eCurState s = OMX_StateExecuting \<and> enc_started b s
      | EncDone e \<Rightarrow> enc_settled b s)"

definition enc_cmd_ok :: "enc_cmd_pc \<Rightarrow> enc_buf_pc \<Rightarrow> NX_VIDENC \<Rightarrow> bool" where
  "enc_cmd_ok c b s \<longleftrightarrow>
     (case c of
        ECmdTrans p pc \<Rightarrow> trans_ok pc b s
      | ECmdCtrl p r \<Rightarrow> reason_ok r b s
      | ECmdWait p r \<Rightarrow> reason_ok r b s
      | ECmdWoken p r \<Rightarrow> reason_ok r b s
      | ECmdHas p r \<Rightarrow> reason_ok r b s
      | _ \<Rightarrow> enc_settled b s)"

lemmas enc_ok_defs = enc_cmd_ok_def trans_ok_def reason_ok_def enc_settled_def
lemmas enc_ok_splits = enc_cmd_pc.splits enc_trans.splits ctrl_reason.splits

lemma state_same: "ectl t = ectl s \<Longrightarrow> eCurState t = eCurState s"
  by (simp add: ectl_def)

lemma thread_same:
  assumes "ectl t = ectl s"
  shows "enc_stopped b t = enc_stopped b s" "enc_started b t = enc_started b s"
    "enc_ending b t = enc_ending b s" "enc_settled b t = enc_settled b s"
  using assms by (auto simp: ectl_def enc_stopped_def enc_started_def enc_ending_def enc_settled_def)

lemma enc_cmd_ok_same: "ectl t = ectl s \<Longrightarrow> enc_cmd_ok c b s \<Longrightarrow> enc_cmd_ok c b t"
  using thread_same[of t s b] state_same[of t s] by (auto simp: enc_cmd_ok_def trans_ok_def reason_ok_def split: enc_ok_splits)

text \<open>A step of the buffer thread.\<close>

lemma enc_buf_step_live:
  assumes "enc_buf_step lib b s = Some (b', t)"
  shows "b \<noteq> EBufNone \<and> b \<noteq> EBufDone \<and> b \<noteq> EBufWaitCtrl \<and> b' \<noteq> EBufNone \<and> b' \<noteq> EBufStart \<and>
     (b' = EBufDone \<longrightarrow> eCmdBufThread s = NX_THREAD_CMD_EXIT)"
  using assms by (cases b) (auto simp: ctrl_enter_def ctrl_resume_def split: bind_splits option.splits if_splits)

lemma enc_buf_step_ctl:
  assumes "enc_buf_step lib b s = Some (b', t)"
  shows "eCurState t = eCurState s \<and> eCmdBufThread t = eCmdBufThread s \<and> (hBufCtrlSem t = None) = (hBufCtrlSem s = None) \<and>
     (hBufChangeSem t = None) = (hBufChangeSem s = None)"
proof (cases "b = EBufLocked")
  case True
  with assms have "ectl t = ectl s" by (auto dest: ectl_turn split: bind_splits)
  then show ?thesis by (simp add: ectl_def)
next
  case False
  with assms show ?thesis
    by (cases b) (auto simp: ctrl_enter_def ctrl_resume_def split: bind_splits option.splits if_splits
        dest: post_handle_exists pend_handle_exists)
qed

lemma enc_buf_step_ok:
  assumes "enc_buf_step lib b s = Some (b', t)" and "enc_cmd_ok c b s"
  shows "enc_cmd_ok c b' t"
proof -
  note l = enc_buf_step_live[OF assms(1)] and k = enc_buf_step_ctl[OF assms(1)]
  have "\<not> enc_stopped b s" using l by (auto simp: enc_stopped_def)
  moreover have "enc_started b s \<Longrightarrow> enc_started b' t" using l k by (auto simp: enc_started_def)
  moreover have "enc_ending b s \<Longrightarrow> enc_ending b' t" using l k by (auto simp: enc_ending_def)
  ultimately show ?thesis using assms(2) k by (auto simp: enc_ok_defs split: enc_ok_splits)
qed

text \<open>Waking a thread changes nothing of this.\<close>

lemma enc_signal_ok:
  assumes "ctrl_signal f b c b' c'" and "enc_cmd_ok c b s"
  shows "enc_cmd_ok c' b' s"
  using assms
proof (cases rule: ctrl_signal.cases)
  case buffer
  then have "b = EBufWaitCtrl" "b' = EBufWokenCtrl" by (cases b; simp)+
  with buffer assms(2) show ?thesis
    by (auto simp: enc_ok_defs enc_stopped_def enc_started_def enc_ending_def split: enc_ok_splits)
next
  case command
  then obtain p r where "c = ECmdWait p r" "c' = ECmdWoken p r" by (cases c) auto
  with command assms(2) show ?thesis by (simp add: enc_cmd_ok_def)
qed simp_all

text \<open>A step of the command thread.\<close>

lemma enc_begins_ok:
  assumes "NX_VidEncStateTransition (eCurState s) new s = Some (pc, t, f)" and "enc_settled b s"
  shows "trans_ok pc b t \<and> f \<noteq> CreatesThread"
  using assms
proof (cases rule: enc_transition_cases)
  case unload
  with assms(2) thread_same[of "EncoderClose s" s b] state_same[of "EncoderClose s" s] show ?thesis by (auto simp: trans_ok_def enc_settled_def)
next
  case (run c)
  with assms(2) show ?thesis by (auto simp: trans_ok_def enc_settled_def enc_started_def dest: post_handle_exists)
next
  case (stop m)
  with assms(2) show ?thesis by (auto simp: trans_ok_def enc_settled_def enc_started_def dest: post_handle_exists)
next
  case direct
  with assms(2) show ?thesis by (auto simp: trans_ok_def enc_settled_def enc_started_def enc_direct_def)
qed (auto simp: trans_ok_def enc_settled_def)

lemma enc_transition_ok:
  assumes "enc_transition_step lib (b = EBufDone) pc s = Some (pc', t, f)" and "trans_ok pc b s"
  shows "if f = CreatesThread then reason_ok ForThread EBufStart t else trans_ok pc' b t"
proof (cases pc)
  case (EncAlloc i)
  with assms show ?thesis using thread_same[OF ectl_pend_alloc[of i s t], of b] state_same[OF ectl_pend_alloc[of i s t]]
    by (auto simp: trans_ok_def split: if_splits bind_splits)
next
  case EncOpenCodec
  with assms obtain rc u where u: "EncoderOpen lib s = Some (rc, u)" by (cases "EncoderOpen lib s") auto
  with assms EncOpenCodec thread_same[OF ectl_open[OF u], of b] state_same[OF ectl_open[OF u]] show ?thesis
    by (auto simp: trans_ok_def reason_ok_def enc_settled_def enc_started_def create_sem_def NX_CreateSem_def split: if_splits)
next
  case EncExit
  with assms show ?thesis
    by (auto simp: trans_ok_def enc_started_def enc_ending_def split: bind_splits dest!: post_handle_exists)
next
  case EncJoin
  with assms show ?thesis by (auto simp: trans_ok_def enc_stopped_def NX_DestroySem_def split: if_splits)
next
  case (EncFree i)
  with assms show ?thesis using thread_same[OF ectl_pend_alloc[of i s t], of b] state_same[OF ectl_pend_alloc[of i s t]]
    by (auto simp: trans_ok_def enc_settled_def enc_stopped_def split: if_splits bind_splits)
next
  case EncReturn
  with assms obtain u where u: "return_buffers s = Some u" by (cases "return_buffers s") auto
  with assms EncReturn thread_same[OF ectl_return[OF u], of b] state_same[OF ectl_return[OF u]] show ?thesis
    by (auto simp: trans_ok_def enc_settled_def enc_started_def)
qed (use assms in simp)

lemma enc_command_ok:
  assumes "NX_VidEncCommandProc c n dat s = Some (r, t, f)" and "enc_settled b s"
  shows "enc_cmd_ok (next_pc p r) b t \<and> f \<noteq> CreatesThread"
proof (cases c)
  case OMX_CommandStateSet
  show ?thesis
  proof (cases "eCurState s = to_state n")
    case True
    with assms OMX_CommandStateSet obtain "r = Returned" "f = Quiet" "ectl t = ectl s"
      by (auto simp: NX_VidEncCommandProc_def split: bind_splits dest: ectl_event)
    with assms(2) thread_same(4)[of t s b] show ?thesis by (simp add: next_pc_def enc_cmd_ok_def)
  next
    case False
    with assms(1) OMX_CommandStateSet obtain pc where "NX_VidEncStateTransition (eCurState s) (to_state n) s = Some (pc, t, f)"
      "r = InTransition pc" by (auto simp: NX_VidEncCommandProc_def split: bind_splits)
    with enc_begins_ok assms(2) show ?thesis by (simp add: next_pc_def enc_cmd_ok_def)
  qed
next
  case OMX_CommandFlush
  with assms(1) obtain u where u: "enc_flush s = Some u" "send_complete OMX_CommandFlush n dat u = Some t" "r = Returned" "f = Quiet"
    by (auto simp: NX_VidEncCommandProc_def split: bind_splits)
  from ectl_event[OF u(2)[unfolded send_complete_def]] ectl_flush[OF u(1)] have "ectl t = ectl s" by simp
  with assms(2) u(3,4) thread_same(4)[of t s b] show ?thesis by (simp add: next_pc_def enc_cmd_ok_def)
next
  case OMX_CommandPortDisable
  with assms(1) have "f = Quiet" "ectl t = ectl s" "r = Returned \<or> r = AtCtrl"
    by (auto simp: NX_VidEncCommandProc_def split: bind_splits if_splits dest: ectl_event)
  with assms(2) thread_same(4)[of t s b] show ?thesis by (auto simp: next_pc_def enc_cmd_ok_def reason_ok_def)
next
  case (OMX_CommandOther x)
  with assms(1) have "f = Quiet" "ectl t = ectl s" "r = Returned"
    by (auto simp: NX_VidEncCommandProc_def split: bind_splits dest: ectl_event)
  with assms(2) thread_same(4)[of t s b] show ?thesis by (simp add: next_pc_def enc_cmd_ok_def)
qed (use assms in \<open>simp_all add: NX_VidEncCommandProc_def next_pc_def enc_cmd_ok_def reason_ok_def\<close>)

lemma finish_port_ctl:
  assumes "finish_port_command dat s = Some t"
  shows "eCurState t = eCurState s \<and> eCmdBufThread t = eCmdBufThread s \<and> hBufCtrlSem s \<noteq> None \<and> hBufCtrlSem t \<noteq> None \<and>
     hBufChangeSem t = hBufChangeSem s"
  using assms by (auto simp: finish_port_command_def SendEvent_def emit_def split: bind_splits if_splits dest: post_handle_exists)

lemma enc_cmd_step_ok:
  assumes "enc_cmd_step lib (b = EBufDone) c s = Some (c', t, f)" and "enc_cmd_ok c b s"
  shows "enc_cmd_ok c' (if f = CreatesThread then EBufStart else b) t"
proof (cases c)
  case (ECmdTest p)
  obtain rc e q where q: "NX_PopQueue (cmdQueue s) = (rc, e, q)" by (metis prod_cases3)
  with assms(1) ECmdTest have "ectl t = ectl s" "f = Quiet" "enc_cmd_ok c' b t = enc_settled b t"
    by (auto simp: Let_def enc_cmd_ok_def split: if_splits)
  with assms(2) ECmdTest thread_same(4)[of t s b] show ?thesis by (simp add: enc_cmd_ok_def)
next
  case (ECmdProc p)
  with assms obtain m where m: "cmd_mem s p = Some m" by (cases "cmd_mem s p") auto
  with assms(1) ECmdProc obtain r u where r: "NX_VidEncCommandProc (eCmd m) (nParam1 m) (pCmdData m) s = Some (r, u, f)"
    "t = (if r = Returned then free_cmd p u else u)" "c' = next_pc p r"
    by (cases "NX_VidEncCommandProc (eCmd m) (nParam1 m) (pCmdData m) s") auto
  from assms(2) ECmdProc have "enc_settled b s" by (simp add: enc_cmd_ok_def)
  from enc_command_ok[OF r(1) this, of p] enc_cmd_ok_same[of t u] r(2,3) show ?thesis by simp
next
  case (ECmdTrans p pc)
  show ?thesis
  proof (cases "\<exists>e. pc = EncDone e")
    case True
    with assms(1) ECmdTrans have "ectl t = ectl s" "f = Quiet" "c' = ECmdPend p"
      by (auto simp: enc_finish_state_set_def send_complete_def split: bind_splits dest: ectl_event)
    with assms(2) ECmdTrans True thread_same(4)[of t s b] show ?thesis by (auto simp: enc_cmd_ok_def trans_ok_def)
  next
    case False
    with assms(1) ECmdTrans obtain pc' where "enc_transition_step lib (b = EBufDone) pc s = Some (pc', t, f)"
      "c' = (if f = CreatesThread then ECmdCtrl p ForThread else ECmdTrans p pc')"
      by (cases pc) (auto simp del: enc_transition_step.simps split: bind_splits)
    with enc_transition_ok[of lib b pc s pc' t f] assms(2) ECmdTrans show ?thesis by (auto simp: enc_cmd_ok_def)
  qed
next
  case (ECmdHas p r)
  with assms show ?thesis
    by (cases r) (auto simp: enc_cmd_ok_def trans_ok_def reason_ok_def enc_settled_def enc_started_def enc_stopped_def free_cmd_def
        split: bind_splits dest!: finish_port_ctl)
next
  case (ECmdCtrl p r)
  with assms show ?thesis
    by (auto simp: ctrl_enter_def enc_cmd_ok_def reason_ok_def enc_settled_def enc_started_def enc_stopped_def
        split: bind_splits option.splits ctrl_reason.splits)
next
  case (ECmdWoken p r)
  with assms show ?thesis
    by (auto simp: ctrl_resume_def enc_cmd_ok_def reason_ok_def enc_settled_def enc_started_def enc_stopped_def
        split: bind_splits option.splits ctrl_reason.splits)
next
  case ECmdStart
  with assms have "ectl t = ectl s" "f = Quiet" "c' = ECmdPend NULL" by (auto split: bind_splits)
  with assms(2) ECmdStart thread_same(4)[of t s b] show ?thesis by (simp add: enc_cmd_ok_def)
next
  case (ECmdPend p)
  with assms have "ectl t = ectl s" "f = Quiet" "c' = ECmdTest p" by (auto split: bind_splits)
  with assms(2) ECmdPend thread_same(4)[of t s b] show ?thesis by (simp add: enc_cmd_ok_def)
qed (use assms in simp_all)

definition enc_ok :: "enc_sys \<Rightarrow> bool" where
  "enc_ok S \<longleftrightarrow> enc_cmd_ok (ecpc S) (ebpc S) (ecomp S)"

interpretation enc_oks: enc_stable enc_ok
proof unfold_locales
  show "enc_step S T \<Longrightarrow> enc_ok S \<Longrightarrow> enc_ok T" for S T
  proof (induction rule: enc_step.induct)
    case (client lib k S e t)
    then show ?case using enc_cmd_ok_same[OF ectl_client] by (simp add: enc_ok_def)
  next
    case (buffer lib S b t b' c')
    then show ?case using enc_signal_ok[OF buffer(2) enc_buf_step_ok] by (simp add: enc_ok_def)
  next
    case (command lib S c t f b' c')
    then show ?case using enc_signal_ok[OF command(2) enc_cmd_step_ok] by (simp add: enc_ok_def)
  qed
qed

end
