(* ===== verification/VidEncRun.thy ===== *)
theory VidEncRun
  imports VidEncCtl
begin

text \<open>
  What holds of every run of the video encoder (\<open>NX_OMXVideoEncoder.c\<close>): the type of the component, the account of
  the buffers, the legal transitions, and what goes wrong at the control semaphore, on which both threads
  pend, and in Pause.
\<close>

section \<open>A new component\<close>

lemma enc_init_result:
  assumes "NX_VidEncComponentInit num al acb h = (OMX_ErrorNone, Some s, n)"
  shows "num < 2 \<and> al \<and> acb \<and> n = num + 1 \<and>
    s = init_encoder (zero_videnc\<lparr>hComp := h, nNumPort := 0,
      pCallbacks := \<lparr>cbEventHandler = NULL, cbEmptyBufferDone = NULL, cbFillBufferDone = NULL\<rparr>,
      eCurState := OMX_StateLoaded, eNewState := OMX_StateLoaded\<rparr>)"
  using assms by (auto simp: NX_VidEncComponentInit_def NX_BaseComponentInit_def Let_def split: if_splits)

lemma new_encoder:
  assumes "NX_VidEncComponentInit num al acb h = (OMX_ErrorNone, Some s, n)"
  shows "enc_account (created_enc s)" "enc_ok (created_enc s)"
proof -
  define z where "z = zero_videnc\<lparr>hComp := h, nNumPort := 0,
      pCallbacks := \<lparr>cbEventHandler = NULL, cbEmptyBufferDone = NULL, cbFillBufferDone = NULL\<rparr>,
      eCurState := OMX_StateLoaded, eNewState := OMX_StateLoaded\<rparr>"
  have s: "s = init_encoder z" using enc_init_result[OF assms] by (simp add: z_def)
  have z: "trace z = []" "length (pInputBuffers z) = VIDENC_MAX_BUF" "length (pOutputBuffers z) = VIDENC_MAX_BUF"
    "length (pSeqBuf z) = 1024" "eCurState z = OMX_StateLoaded" "hBufCtrlSem z = None" "hBufChangeSem z = None"
    by (simp_all add: z_def zero_videnc_def)
  then have "enc_wf s" using new_queue by (simp add: s enc_wf_def init_encoder_def init_port_def NX_InitOMXPort_def)
  moreover have "enc_in_view s = []" "enc_out_view s = {#}"
    using z new_queue by (simp_all add: s enc_in_view_def enc_out_view_def init_encoder_def)
  ultimately show "enc_account (created_enc s)"
    by (auto simp: enc_account_def created_enc_def intro!: exI[of _ "{#}"])
  show "enc_ok (created_enc s)"
    using z by (simp add: s enc_ok_def created_enc_def enc_cmd_ok_def enc_settled_def enc_stopped_def init_encoder_def)
qed

text \<open>A new component exists, and a client has handed nothing over.\<close>

definition new_enc :: NX_VIDENC where
  "new_enc = the (fst (snd (NX_VidEncComponentInit 0 True True 1)))"

lemma new_enc: "NX_VidEncComponentInit 0 True True 1 = (OMX_ErrorNone, Some new_enc, 1)"
  by (simp add: new_enc_def NX_VidEncComponentInit_def NX_BaseComponentInit_def Let_def)

section \<open>Runs\<close>

text \<open>
  A run for a given order of the steps, with the same library throughout. When a post finds both threads asleep,
  it wakes the buffer thread.
\<close>

datatype enc_turn_of = EncClient enc_call | EncBuffer | EncCommand

definition wakes_one :: "thread_effect \<Rightarrow> enc_buf_pc \<Rightarrow> enc_cmd_pc \<Rightarrow> enc_buf_pc \<times> enc_cmd_pc" where
  "wakes_one f b c =
     (if f \<noteq> PostsCtrl then (b, c)
      else case buf_wakes b of
        Some b' \<Rightarrow> (b', c)
      | None \<Rightarrow> (case cmd_wakes c of Some c' \<Rightarrow> (b, c') | None \<Rightarrow> (b, c)))"

lemma wakes_one_signal: "wakes_one f b c = (b', c') \<Longrightarrow> ctrl_signal f b c b' c'"
  by (auto simp: wakes_one_def intro: ctrl_signal.intros split: if_splits option.splits)

fun enc_sys_step :: "enc_lib \<Rightarrow> enc_turn_of \<Rightarrow> enc_sys \<Rightarrow> enc_sys option" where
  "enc_sys_step lib (EncClient k) S = do {
     (e, t) \<leftarrow> enc_client_step lib k (ecomp S);
     Some (S\<lparr>ecomp := t, eins := eins S @ enc_taken_in k e, eouts := eouts S @ enc_taken_out k e\<rparr>) }"
| "enc_sys_step lib EncBuffer S = do {
     (b, t) \<leftarrow> enc_buf_step lib (ebpc S) (ecomp S);
     let (b', c') = wakes_one (buf_posts (ebpc S)) b (ecpc S);
     Some (S\<lparr>ecomp := t, ebpc := b', ecpc := c'\<rparr>) }"
| "enc_sys_step lib EncCommand S = do {
     (c, t, f) \<leftarrow> enc_cmd_step lib (ebpc S = EBufDone) (ecpc S) (ecomp S);
     let (b', c') = wakes_one f (if f = CreatesThread then EBufStart else ebpc S) c;
     Some (S\<lparr>ecomp := t, ebpc := b', ecpc := c'\<rparr>) }"

fun enc_run :: "enc_lib \<Rightarrow> enc_turn_of list \<Rightarrow> enc_sys \<Rightarrow> enc_sys option" where
  "enc_run lib [] S = Some S"
| "enc_run lib (x # xs) S = do { S \<leftarrow> enc_sys_step lib x S; enc_run lib xs S }"

lemma enc_sys_step_step:
  assumes "enc_sys_step lib x S = Some T"
  shows "enc_step S T"
proof (cases x)
  case (EncClient k)
  with assms show ?thesis by (auto intro: enc_step.client split: bind_splits)
next
  case EncBuffer
  with assms obtain b t where b: "enc_buf_step lib (ebpc S) (ecomp S) = Some (b, t)"
    by (cases "enc_buf_step lib (ebpc S) (ecomp S)") auto
  obtain b' c' where w: "wakes_one (buf_posts (ebpc S)) b (ecpc S) = (b', c')" by (metis surj_pair)
  from enc_step.buffer[OF b wakes_one_signal[OF w]] assms EncBuffer b w show ?thesis by simp
next
  case EncCommand
  with assms obtain c t f where c: "enc_cmd_step lib (ebpc S = EBufDone) (ecpc S) (ecomp S) = Some (c, t, f)"
    by (cases "enc_cmd_step lib (ebpc S = EBufDone) (ecpc S) (ecomp S)") auto
  obtain b' c' where w: "wakes_one f (if f = CreatesThread then EBufStart else ebpc S) c = (b', c')" by (metis surj_pair)
  from enc_step.command[OF c wakes_one_signal[OF w]] assms EncCommand c w show ?thesis by simp
qed

lemma enc_run_reach: "enc_reach S0 S \<Longrightarrow> enc_run lib xs S = Some T \<Longrightarrow> enc_reach S0 T"
  by (induction xs arbitrary: S) (auto dest!: enc_sys_step_step split: bind_splits intro: enc_reach.step)

lemma enc_run_append: "enc_run lib (xs @ ys) S = Option.bind (enc_run lib xs S) (enc_run lib ys)"
  by (induction xs arbitrary: S) (auto split: bind_splits)

text \<open>
  The client of these runs: one buffer on each port, meta data in the input buffers. \<open>load_turns\<close> ends before
  the encoder is opened.
\<close>

definition one_buffer :: "OMX_U32 \<Rightarrow> OMX_PARAM_PORTDEFINITIONTYPE" where
  "one_buffer i = OMX_PARAM_PORTDEFINITIONTYPE.truncate (zero_port\<lparr>nPortIndex := i, nBufferCountActual := 1\<rparr>)"

definition load_turns :: "enc_turn_of list" where
  "load_turns =
     [EncClient (EncCallbacks \<lparr>cbEventHandler = 1, cbEmptyBufferDone = 1, cbFillBufferDone = 1\<rparr> 0),
      EncClient (EncSet (EncPortDefinition (one_buffer 0))), EncClient (EncSet (EncPortDefinition (one_buffer 1))),
      EncClient (EncSet (EncStoreMetaData 0 True)), EncClient (EncSend 101 OMX_CommandStateSet 2 0)] @
     [EncCommand, EncCommand, EncCommand] @
     [EncClient (EncUse 5 0 0 8355840 50), EncClient (EncUse 6 1 0 4194304 60), EncClient (EncData 50 [1, 0, 0, 0, 16, 0, 0, 0]),
      EncClient (EncData 60 [0, 0, 0, 0])] @
     [EncCommand, EncCommand, EncCommand]"

lemmas enc_queue_simps = NX_InitQueue_def zero_queue_def NX_PushQueue_def NX_PopQueue_def NX_GetQueueCnt_def

lemmas enc_sem_simps = create_sem_def NX_CreateSem_def NX_DestroySem_def post_handle_def NX_PostSem_def pend_handle_def
  NX_PendSem_enter_def NX_PendSem_resume_def ctrl_enter_def ctrl_resume_def buf_posts_def wakes_one_def

lemmas enc_cmd_simps = NX_BaseSetCallbacks_def NX_BaseSendCommand_def NX_VidEncCommandProc_def NX_VidEncStateTransition_def
  pend_alloc_def to_state_def enc_finish_state_set_def send_complete_def SendEvent_def emit_def free_cmd_def upd_port_def
  next_pc_def

lemmas enc_client_simps = NX_VidEncSetParameter_def NX_BaseSetParameter_def one_buffer_def zero_port_def
  OMX_PARAM_PORTDEFINITIONTYPE.truncate_def zero_video_def set_video_def NX_VidEncUseBuffer_def port_of_def port_bufs_def
  set_port_buf_def new_hdr_def buffer_added_def

lemma new_enc_eq: "new_enc = init_encoder (zero_videnc\<lparr>hComp := 1, nNumPort := 0,
      pCallbacks := \<lparr>cbEventHandler = NULL, cbEmptyBufferDone = NULL, cbFillBufferDone = NULL\<rparr>,
      eCurState := OMX_StateLoaded, eNewState := OMX_StateLoaded\<rparr>)"
  using enc_init_result[OF new_enc] by simp

lemmas enc_start_simps = created_enc_def new_enc_eq init_encoder_def init_port_def NX_InitOMXPort_def zero_videnc_def Let_def

lemma first_slot [simp]: "0 < k \<Longrightarrow> 0 < n \<Longrightarrow> find_slot (\<lambda>q. q = 0) (replicate n 0) k = Some (Some 0)"
  by (cases k; cases n) auto

lemma enc_sem_bounds [simp]: "\<not> (16 :: OMX_U32) \<le> 1" "\<not> (2048 :: OMX_U32) \<le> 1"
  by (simp_all add: word_le_nat_alt)

lemmas enc_run_simps = enc_start_simps enc_queue_simps enc_sem_simps enc_cmd_simps enc_client_simps

lemma load_run:
  "\<exists>S u. enc_run sample_lib load_turns (created_enc new_enc) = Some S \<and> ecpc S = ECmdTrans 101 EncOpenCodec \<and>
     EncoderOpen sample_lib (ecomp S) = Some (0, u)"
  by (simp add: load_turns_def enc_run_simps EncoderOpen_def sample_lib_def wr_def)

text \<open>The start that ends in Idle, with the buffer thread asleep at the control semaphore.\<close>

definition idle_turns :: "enc_turn_of list" where
  "idle_turns = load_turns @ [EncCommand, EncCommand, EncBuffer, EncCommand, EncCommand, EncCommand, EncBuffer, EncBuffer]"

text \<open>The start in which the buffer thread takes its own token and the command thread then goes to sleep.\<close>

definition sleep_turns :: "enc_turn_of list" where
  "sleep_turns = load_turns @ [EncCommand, EncBuffer, EncBuffer, EncBuffer, EncCommand]"

definition port_turns :: "enc_turn_of list" where
  "port_turns = idle_turns @ [EncClient (EncSend 102 OMX_CommandPortEnable 0 0), EncCommand, EncCommand]"

text \<open>One frame in Executing, with the sequence header.\<close>

definition encode_turns :: "enc_turn_of list" where
  "encode_turns = idle_turns @ [EncClient (EncSend 102 OMX_CommandStateSet 3 0), EncCommand, EncCommand, EncCommand, EncCommand,
     EncBuffer, EncBuffer, EncClient (EncHeader 7 (zero_hdr\<lparr>pBuffer := 70\<rparr>)), EncClient (EncData 70 [0, 0, 0, 0]),
     EncClient (EncHeader 5 (zero_hdr\<lparr>pBuffer := 50\<rparr>)),
     EncClient (EncFill 6), EncClient (EncFill 7), EncClient (EncEmpty 5), EncBuffer, EncBuffer, EncBuffer, EncBuffer]"

lemma sleep_run:
  "\<exists>S. enc_run sample_lib sleep_turns (created_enc new_enc) = Some S \<and> ecpc S = ECmdWait 101 ForThread \<and>
     ebpc S = EBufInner \<and> eCurState (ecomp S) = OMX_StateLoaded"
  by (simp add: sleep_turns_def load_turns_def enc_run_simps EncoderOpen_def sample_lib_def wr_def)

lemma port_run:
  "\<exists>S. enc_run sample_lib port_turns (created_enc new_enc) = Some S \<and> ecpc S = ECmdProc 102 \<and>
     cmd_mem (ecomp S) 102 = Some \<lparr>cmd_id = 1, eCmd = OMX_CommandPortEnable, nParam1 = 0, pCmdData = 0\<rparr> \<and>
     cbEventHandler (pCallbacks (ecomp S)) = 1 \<and> ebpc S = EBufWaitCtrl \<and> eCurState (ecomp S) = OMX_StateIdle \<and>
     hBufCtrlSem (ecomp S) = Some \<lparr>nValue = 0, nMaxValue = 1\<rparr>"
  by (simp add: port_turns_def idle_turns_def load_turns_def enc_run_simps EncoderOpen_def sample_lib_def wr_def)

lemma encode_run:
  "\<exists>S. enc_run sample_lib encode_turns (created_enc new_enc) = Some S \<and> eins S = [5] \<and> eouts S = [6, 7] \<and>
     ebd_ptrs (trace (ecomp S)) = [5] \<and> fbd_ptrs (trace (ecomp S)) = [6, 7] \<and> bSendCodecSpecificInfo (ecomp S) \<and>
     eCurState (ecomp S) = OMX_StateExecuting"
proof -
  have "get_le32 [1, 0, 0, 0, 16, 0, 0, 0] 0 = Some 1" "get_le32 [1, 0, 0, 0, 16, 0, 0, 0] 4 = Some 16"
    by (simp_all add: get_le32_def push_bit_eq_mult)
  moreover have "rd (7 # 8 # replicate 1022 0) 0 2 = Some [7, 8 :: OMX_U8]" by (simp add: rd_def)
  ultimately show ?thesis
    by (simp add: encode_turns_def idle_turns_def load_turns_def enc_run_simps EncoderOpen_def sample_lib_def wr_def
      NX_VidEncEmptyThisBuffer_def NX_VidEncFillThisBuffer_def enc_queue_buffer_def accepts_buffers_def
      enc_turn_def NX_VidEncTransform_def EncodeFrame_def input_image_def native_image_def zero_hdr_def zero_format_def has_flag_def
      pop_out_def send_codec_info_def upd_out_def upd_hdr_def fill_data_def rd_block_def rd_def call_FillBufferDone_def
      encode_image_def deliver_frame_def call_EmptyBufferDone_def)
qed

section \<open>Properties of every run\<close>

text \<open>
  C18: Whatever the client calls and however the threads interleave, the component keeps its type: two ports, the
  input and the output port at their places, arrays of their declared lengths, and two queues of buffers and
  one of commands that are ring buffers in use, within their capacity.
\<close>

theorem enc_component_well_formed:
  assumes "NX_VidEncComponentInit num al acb h = (OMX_ErrorNone, Some s, n)" and "enc_reach (created_enc s) S"
  shows "enc_wf (ecomp S) \<and> length (in_list (ecomp S)) \<le> VIDENC_MAX_BUF \<and> length (out_list (ecomp S)) \<le> VIDENC_MAX_BUF"
proof -
  have "enc_wf (ecomp S)" using enc_accounts.always[OF assms(2) new_encoder(1)[OF assms(1)]] by (simp add: enc_account_def)
  moreover have "length (queue_list q) \<le> VIDENC_MAX_BUF" if "buf_queue q" for q
    using that unfolding buf_queue_def queue_inv_def length_queue_list by auto
  ultimately show ?thesis by (simp add: enc_wf_def)
qed

theorem enc_component_well_formed_witness:
  "\<exists>S. enc_reach (created_enc new_enc) S \<and> eCurState (ecomp S) = OMX_StateExecuting \<and> enc_wf (ecomp S)"
proof -
  obtain S where S: "enc_run sample_lib encode_turns (created_enc new_enc) = Some S" "eCurState (ecomp S) = OMX_StateExecuting"
    using encode_run by blast
  have r: "enc_reach (created_enc new_enc) S" by (rule enc_run_reach[OF enc_reach.start S(1)])
  from enc_component_well_formed[OF new_enc r] r S(2) show ?thesis by blast
qed

text \<open>
  C4: Input buffers keep their order and none goes back twice: those that went back to the client, followed by those
  that wait, are a subsequence of those that the client handed over. Of the output buffers the component gives
  back what it was handed, except for at most one buffer more, and that only with the sequence header. It may
  lose buffers, so the relations are no equalities.
\<close>

theorem enc_buffers_tracked:
  assumes "NX_VidEncComponentInit num al acb h = (OMX_ErrorNone, Some s, n)" and "enc_reach (created_enc s) S"
  shows "subseq (ebd_ptrs (trace (ecomp S)) @ in_list (ecomp S)) (eins S) \<and>
    (\<exists>D. mset (fbd_ptrs (trace (ecomp S)) @ out_list (ecomp S)) \<subseteq># mset (eouts S) + D \<and>
       size D \<le> (if bSendCodecSpecificInfo (ecomp S) then 1 else 0))"
  using enc_accounts.always[OF assms(2) new_encoder(1)[OF assms(1)]]
  by (simp add: enc_account_def enc_in_view_def enc_out_view_def)

theorem enc_buffers_tracked_witness:
  "\<exists>S. enc_reach (created_enc new_enc) S \<and> ebd_ptrs (trace (ecomp S)) = [5] \<and> fbd_ptrs (trace (ecomp S)) = [6, 7] \<and>
     subseq ([5] @ in_list (ecomp S)) [5] \<and> (\<exists>D. mset ([6, 7] @ out_list (ecomp S)) \<subseteq># mset [6, 7] + D \<and> size D \<le> 1)"
proof -
  obtain S where S: "enc_run sample_lib encode_turns (created_enc new_enc) = Some S" "eins S = [5]" "eouts S = [6, 7]"
    "ebd_ptrs (trace (ecomp S)) = [5]" "fbd_ptrs (trace (ecomp S)) = [6, 7]" "bSendCodecSpecificInfo (ecomp S)"
    using encode_run by blast
  have r: "enc_reach (created_enc new_enc) S" by (rule enc_run_reach[OF enc_reach.start S(1)])
  from enc_buffers_tracked[OF new_enc r] r S(2-6) show ?thesis by auto
qed

text \<open>The transitions that the component can make.\<close>

definition enc_edges :: "(OMX_STATETYPE \<times> OMX_STATETYPE) set" where
  "enc_edges = {(OMX_StateLoaded, OMX_StateIdle), (OMX_StateIdle, OMX_StateLoaded), (OMX_StateIdle, OMX_StateExecuting),
     (OMX_StateExecuting, OMX_StateIdle), (OMX_StateIdle, OMX_StatePause), (OMX_StatePause, OMX_StateIdle),
     (OMX_StateExecuting, OMX_StatePause), (OMX_StatePause, OMX_StateExecuting)}"

lemma enc_transition_edge:
  assumes "enc_transition_step lib j pc s = Some (pc', t, f)" and "trans_ok pc b s"
  shows "eCurState t = eCurState s \<or> (eCurState s, eCurState t) \<in> enc_edges"
proof (cases pc)
  case (EncAlloc i)
  with assms(1) show ?thesis by (auto split: if_splits bind_splits dest: state_same[OF ectl_pend_alloc])
next
  case EncOpenCodec
  with assms(1) obtain rc u where u: "EncoderOpen lib s = Some (rc, u)" "eCurState t = eCurState u"
    by (cases "EncoderOpen lib s") (auto split: if_splits)
  with state_same[OF ectl_open[OF u(1)]] show ?thesis by simp
next
  case EncReturn
  with assms(1) obtain u where "return_buffers s = Some u" "eCurState t = OMX_StateIdle"
    by (cases "return_buffers s") auto
  with assms(2) EncReturn show ?thesis by (simp add: trans_ok_def enc_edges_def)
next
  case (EncFree i)
  with assms show ?thesis by (auto simp: trans_ok_def enc_edges_def split: if_splits bind_splits dest: state_same[OF ectl_pend_alloc])
qed (use assms(1) in \<open>auto split: if_splits bind_splits\<close>)

lemma enc_command_edge:
  assumes "NX_VidEncCommandProc c n dat s = Some (r, t, f)" and "enc_settled b s"
  shows "eCurState t = eCurState s \<or> (eCurState s, eCurState t) \<in> enc_edges"
proof (cases "ectl t = ectl s")
  case False
  have c: "c = OMX_CommandStateSet" and ne: "eCurState s \<noteq> to_state n"
  proof -
    show "c = OMX_CommandStateSet"
    proof (rule ccontr)
      assume "c \<noteq> OMX_CommandStateSet"
      with assms(1) have "ectl t = ectl s"
        by (cases c) (auto simp: NX_VidEncCommandProc_def send_complete_def split: bind_splits if_splits dest!: ectl_event ectl_flush)
      with False show False ..
    qed
    with assms(1) False show "eCurState s \<noteq> to_state n"
      by (auto simp: NX_VidEncCommandProc_def split: bind_splits if_splits dest: ectl_event)
  qed
  with assms(1) obtain pc where "NX_VidEncStateTransition (eCurState s) (to_state n) s = Some (pc, t, f)"
    by (auto simp: NX_VidEncCommandProc_def split: bind_splits)
  then show ?thesis
  proof (cases rule: enc_transition_cases)
    case direct
    with assms(2) show ?thesis by (auto simp: enc_direct_def enc_edges_def enc_settled_def)
  next
    case unload
    with state_same[of "EncoderClose s" s] show ?thesis by (simp add: enc_edges_def)
  next
    case (stop m)
    then show ?thesis by simp
  next
    case (run c)
    then show ?thesis by (simp add: enc_edges_def)
  qed simp_all
qed (use state_same in blast)

lemma enc_cmd_step_edge:
  assumes "enc_cmd_step lib (b = EBufDone) c s = Some (c', t, f)" and "enc_cmd_ok c b s"
  shows "eCurState t = eCurState s \<or> (eCurState s, eCurState t) \<in> enc_edges"
proof (cases c)
  case (ECmdTest p)
  obtain rc e q where q: "NX_PopQueue (cmdQueue s) = (rc, e, q)" by (metis prod_cases3)
  with assms(1) ECmdTest show ?thesis by (auto simp: Let_def split: if_splits)
next
  case (ECmdProc p)
  with assms(1) obtain m where m: "cmd_mem s p = Some m" by (cases "cmd_mem s p") auto
  with assms(1) ECmdProc obtain r u where r: "NX_VidEncCommandProc (eCmd m) (nParam1 m) (pCmdData m) s = Some (r, u, f)"
    "t = (if r = Returned then free_cmd p u else u)"
    by (cases "NX_VidEncCommandProc (eCmd m) (nParam1 m) (pCmdData m) s") auto
  from enc_command_edge[OF r(1), of b] assms(2) ECmdProc r(2) show ?thesis by (auto simp: enc_cmd_ok_def free_cmd_def)
next
  case (ECmdTrans p pc)
  show ?thesis
  proof (cases "\<exists>e. pc = EncDone e")
    case True
    with assms(1) ECmdTrans have "ectl t = ectl s"
      by (auto simp: enc_finish_state_set_def send_complete_def split: bind_splits dest: ectl_event)
    then show ?thesis using state_same by blast
  next
    case False
    with assms(1) ECmdTrans obtain pc' where "enc_transition_step lib (b = EBufDone) pc s = Some (pc', t, f)"
      by (cases pc) (auto simp del: enc_transition_step.simps split: bind_splits)
    with enc_transition_edge[of lib "b = EBufDone" pc s pc' t f b] assms(2) ECmdTrans show ?thesis by (simp add: enc_cmd_ok_def)
  qed
next
  case (ECmdHas p r)
  with assms show ?thesis
    by (cases r) (auto simp: enc_cmd_ok_def reason_ok_def enc_edges_def free_cmd_def split: bind_splits dest!: finish_port_ctl)
qed (use assms(1) in \<open>auto simp: ctrl_enter_def ctrl_resume_def split: bind_splits option.splits\<close>)

lemma signal_start: "ctrl_signal f b c EBufStart c' \<Longrightarrow> b = EBufStart"
  by (erule ctrl_signal.cases) (auto elim: buf_wakes.elims)

text \<open>The buffer thread is started only where the command thread creates it.\<close>

lemma creates_where:
  assumes "enc_cmd_step lib j c s = Some (c', t, CreatesThread)" and "enc_cmd_ok c b s"
  shows "\<exists>p. c = ECmdTrans p EncOpenCodec"
proof (cases c)
  case (ECmdTest p)
  with assms(1) show ?thesis by (auto simp: Let_def split: prod.splits if_splits)
next
  case (ECmdProc p)
  with assms(1) obtain m where m: "cmd_mem s p = Some m" by (cases "cmd_mem s p") auto
  with assms(1) ECmdProc obtain r u where r: "NX_VidEncCommandProc (eCmd m) (nParam1 m) (pCmdData m) s = Some (r, u, CreatesThread)"
    by (cases "NX_VidEncCommandProc (eCmd m) (nParam1 m) (pCmdData m) s") auto
  with enc_command_ok[OF r(1), of b] assms(2) ECmdProc show ?thesis by (simp add: enc_cmd_ok_def)
next
  case (ECmdTrans p pc)
  show ?thesis
  proof (cases pc)
    case EncJoin
    with assms(1) ECmdTrans show ?thesis by (simp split: if_splits)
  qed (use assms(1) ECmdTrans in \<open>auto split: bind_splits if_splits\<close>)
next
  case (ECmdHas p r)
  with assms(1) show ?thesis by (cases r) (auto split: bind_splits)
qed (use assms(1) in \<open>auto split: bind_splits\<close>)

lemma enc_start_only:
  assumes "enc_step S T" and "ebpc T = EBufStart" and "ebpc S \<noteq> EBufStart" and "enc_ok S"
  shows "ebpc S = EBufNone \<or> ebpc S = EBufDone"
  using assms(1)
proof cases
  case (buffer lib b t b' c')
  then have "b = EBufStart" using assms(2) signal_start by auto
  with enc_buf_step_live[OF buffer(2)] show ?thesis by simp
next
  case (command lib c t f b' c')
  have "f = CreatesThread" using command(1,3) assms(2,3) signal_start[of f "if f = CreatesThread then EBufStart else ebpc S" c c']
    by (auto split: if_splits)
  with command(2) creates_where[of lib _ "ecpc S" "ecomp S" c t "ebpc S"] assms(4) obtain p where "ecpc S = ECmdTrans p EncOpenCodec"
    by (auto simp: enc_ok_def)
  with assms(4) show ?thesis by (simp add: enc_ok_def enc_cmd_ok_def trans_ok_def enc_stopped_def)
qed (use assms in simp)

text \<open>
  C7: The component is always Loaded, Idle, Executing or in Pause, and every step of every thread that changes the
  state makes one of the eight legal transitions between these. Between two commands the buffer thread
  exists exactly when the component is not Loaded; a command never starts a second one.
\<close>

theorem enc_states_change_legally:
  assumes "NX_VidEncComponentInit num al acb h = (OMX_ErrorNone, Some s, n)" and "enc_reach (created_enc s) S" and "enc_step S T"
  shows "eCurState (ecomp S) \<in> {OMX_StateLoaded, OMX_StateIdle, OMX_StateExecuting, OMX_StatePause} \<and>
    (eCurState (ecomp T) = eCurState (ecomp S) \<or> (eCurState (ecomp S), eCurState (ecomp T)) \<in> enc_edges) \<and>
    (ecpc S = ECmdPend p \<longrightarrow> (ebpc S \<notin> {EBufNone, EBufDone}) = (eCurState (ecomp S) \<noteq> OMX_StateLoaded)) \<and>
    (ebpc T = EBufStart \<and> ebpc S \<noteq> EBufStart \<longrightarrow> ebpc S \<in> {EBufNone, EBufDone})"
proof -
  have ok: "enc_cmd_ok (ecpc S) (ebpc S) (ecomp S)"
    using enc_oks.always[OF assms(2) new_encoder(2)[OF assms(1)]] by (simp add: enc_ok_def)
  have "eCurState (ecomp T) = eCurState (ecomp S) \<or> (eCurState (ecomp S), eCurState (ecomp T)) \<in> enc_edges"
    using assms(3)
  proof cases
    case (client lib k e t)
    then show ?thesis using state_same[OF ectl_client[OF client(2)]] by simp
  next
    case (buffer lib b t b' c')
    then show ?thesis using enc_buf_step_ctl[OF buffer(2)] by simp
  next
    case (command lib c t f b' c')
    then show ?thesis using enc_cmd_step_edge[OF command(2) ok] by simp
  qed
  moreover have "ebpc S \<in> {EBufNone, EBufDone}" if "ebpc T = EBufStart" "ebpc S \<noteq> EBufStart"
    using enc_start_only[OF assms(3)] that ok by (auto simp: enc_ok_def)
  ultimately show ?thesis
    using ok by (auto simp: enc_cmd_ok_def trans_ok_def reason_ok_def enc_settled_def enc_started_def enc_stopped_def
      split: enc_cmd_pc.splits enc_trans.splits ctrl_reason.splits)
qed

text \<open>A step of the new component: the client posts a command.\<close>

theorem enc_states_change_legally_witness:
  "\<exists>T. enc_step (created_enc new_enc) T \<and> eCurState (ecomp T) = OMX_StateLoaded"
proof -
  note s = enc_init_result[OF new_enc, THEN conjunct2, THEN conjunct2, THEN conjunct2, THEN conjunct2]
  have "eCurState new_enc = OMX_StateLoaded" "hSemCmd new_enc \<noteq> None"
    by (subst s, simp add: init_encoder_def create_sem_def NX_CreateSem_def)+
  then obtain t where t: "NX_BaseSendCommand 100 OMX_CommandFlush 0 NULL new_enc = Some (OMX_ErrorNone, t)"
    by (auto simp: NX_BaseSendCommand_def post_handle_def)
  let ?T = "(created_enc new_enc)\<lparr>ecomp := t, eins := [] @ [], eouts := [] @ []\<rparr>"
  have st: "enc_step (created_enc new_enc) ?T"
    using enc_step.client[of undefined "EncSend 100 OMX_CommandFlush 0 NULL" "created_enc new_enc" OMX_ErrorNone t] t
    by (simp add: created_enc_def)
  from enc_states_change_legally[OF new_enc enc_reach.start st, of 0] state_same[OF ectl_send[OF t]]
    \<open>eCurState new_enc = OMX_StateLoaded\<close> have "eCurState (ecomp ?T) = OMX_StateLoaded" by simp
  with st show ?thesis by blast
qed

section \<open>The control semaphore\<close>

text \<open>The command thread sleeps at the semaphore, and the buffer thread has made the one post that it makes.\<close>

definition enc_parked :: "enc_cmd_pc \<Rightarrow> OMX_STATETYPE \<Rightarrow> enc_sys \<Rightarrow> bool" where
  "enc_parked c st S \<longleftrightarrow> ecpc S = c \<and> cmd_wakes c \<noteq> None \<and> ebpc S \<noteq> EBufStart \<and> eCurState (ecomp S) = st"

lemma parked_quiet: "ctrl_signal Quiet b c b' c' \<Longrightarrow> b' = b \<and> c' = c"
  by (erule ctrl_signal.cases) auto

interpretation parked: enc_stable "enc_parked c st"
proof unfold_locales
  show "enc_step S T \<Longrightarrow> enc_parked c st S \<Longrightarrow> enc_parked c st T" for S T
  proof (induction rule: enc_step.induct)
    case (client lib k S e t)
    then show ?case using state_same[OF ectl_client] by (simp add: enc_parked_def)
  next
    case (buffer lib S b t b' c')
    then have "buf_posts (ebpc S) = Quiet" by (simp add: enc_parked_def buf_posts_def)
    with buffer parked_quiet[of b "ecpc S" b' c'] enc_buf_step_live[OF buffer(1)] enc_buf_step_ctl[OF buffer(1)]
    show ?case by (simp add: enc_parked_def)
  next
    case (command lib S c1 t f b' c')
    then obtain p r where "ecpc S = ECmdWait p r" by (auto simp: enc_parked_def elim: cmd_wakes.elims)
    with command(1) show ?case by simp
  qed
qed

text \<open>
  C10: Once the buffer thread has made its first post, a command thread that sleeps at \<open>hBufCtrlSem\<close> sleeps for
  ever: every other post of this semaphore is its own. No call of the client and no step of the buffer thread
  wakes it, the state never changes again, and no further command is ever executed.
\<close>

theorem enc_control_wait_is_forever:
  assumes "ecpc S = ECmdWait p r" and "ebpc S \<noteq> EBufStart" and "enc_reach S T"
  shows "ecpc T = ECmdWait p r \<and> eCurState (ecomp T) = eCurState (ecomp S) \<and>
    enc_cmd_step lib joined (ecpc T) (ecomp T) = None"
  using parked.always[OF assms(3), of "ECmdWait p r" "eCurState (ecomp S)"] assms(1,2) by (simp add: enc_parked_def)

text \<open>After the start of \<open>sleep_turns\<close>: the client asks for Loaded, and the buffer thread makes a turn.\<close>

definition after_sleep :: "enc_turn_of list" where
  "after_sleep = [EncClient (EncSend 102 OMX_CommandStateSet 1 0), EncBuffer, EncBuffer, EncBuffer]"

lemma after_sleep_run:
  "\<exists>S T. enc_run sample_lib sleep_turns (created_enc new_enc) = Some S \<and> ecpc S = ECmdWait 101 ForThread \<and> ebpc S = EBufInner \<and>
     eCurState (ecomp S) = OMX_StateLoaded \<and> enc_run sample_lib after_sleep S = Some T \<and> ebpc T = EBufWaitCtrl \<and>
     NX_GetQueueCnt (cmdQueue (ecomp T)) = 1"
  by (simp add: sleep_turns_def after_sleep_def load_turns_def enc_run_simps EncoderOpen_def sample_lib_def wr_def)

theorem enc_control_wait_is_forever_witness:
  "\<exists>S T. enc_reach (created_enc new_enc) S \<and> enc_reach S T \<and> ebpc S = EBufInner \<and> ebpc T = EBufWaitCtrl \<and>
     NX_GetQueueCnt (cmdQueue (ecomp T)) = 1 \<and> ecpc T = ECmdWait 101 ForThread \<and> eCurState (ecomp T) = OMX_StateLoaded \<and>
     enc_cmd_step sample_lib False (ecpc T) (ecomp T) = None"
proof -
  obtain S T where S: "enc_run sample_lib sleep_turns (created_enc new_enc) = Some S" "ecpc S = ECmdWait 101 ForThread"
    "ebpc S = EBufInner" "eCurState (ecomp S) = OMX_StateLoaded" and T: "enc_run sample_lib after_sleep S = Some T"
    "ebpc T = EBufWaitCtrl" "NX_GetQueueCnt (cmdQueue (ecomp T)) = 1"
    using after_sleep_run by blast
  have "ebpc S \<noteq> EBufStart" using S(3) by simp
  from enc_control_wait_is_forever[OF S(2) this enc_run_reach[OF enc_reach.start T(1)], of sample_lib False]
  show ?thesis using enc_run_reach[OF enc_reach.start S(1)] enc_run_reach[OF enc_reach.start T(1)] S(3,4) T(2,3) by auto
qed

subsection \<open>The start of the buffer thread\<close>

text \<open>A step of either thread that posts nothing, or whose post wakes nobody.\<close>

lemma buffer_step:
  assumes "enc_reach S0 S" and "enc_buf_step lib (ebpc S) (ecomp S) = Some (b, t)"
    and "ctrl_signal (buf_posts (ebpc S)) b (ecpc S) b' c'"
  shows "enc_reach S0 (S\<lparr>ecomp := t, ebpc := b', ecpc := c'\<rparr>)"
  using enc_reach.step[OF assms(1) enc_step.buffer[OF assms(2,3)]] .

lemma command_step:
  assumes "enc_reach S0 S" and "enc_cmd_step lib (ebpc S = EBufDone) (ecpc S) (ecomp S) = Some (c, t, f)"
    and "ctrl_signal f (if f = CreatesThread then EBufStart else ebpc S) c b' c'"
  shows "enc_reach S0 (S\<lparr>ecomp := t, ebpc := b', ecpc := c'\<rparr>)"
  using enc_reach.step[OF assms(1) enc_step.command[OF assms(2,3)]] .

text \<open>The system when the buffer thread has just been created.\<close>

definition enc_born :: "ptr \<Rightarrow> NX_VIDENC \<Rightarrow> enc_sys \<Rightarrow> enc_sys" where
  "enc_born p u S = S\<lparr>ecomp := u\<lparr>eCmdBufThread := NX_THREAD_CMD_PAUSE, hBufCtrlSem := create_sem 0 1,
     hBufChangeSem := create_sem 0 (word_of_nat (VIDENC_NUM_PORT * 1024))\<rparr>, ebpc := EBufStart, ecpc := ECmdCtrl p ForThread\<rparr>"

lemma enc_born_reached:
  assumes "ecpc S = ECmdTrans p EncOpenCodec" and "EncoderOpen lib (ecomp S) = Some (0, u)"
  shows "enc_reach S (enc_born p u S)"
  unfolding enc_born_def
  by (rule command_step[OF enc_reach.start, where lib = lib and f = CreatesThread]) (use assms in \<open>auto intro: ctrl_signal.quiet\<close>)

lemmas ctrl_run = ctrl_enter_def ctrl_resume_def NX_PendSem_enter_def NX_PendSem_resume_def post_handle_def NX_PostSem_def
  create_sem_def NX_CreateSem_def buf_posts_def

text \<open>The component with a value of the control semaphore.\<close>

definition ctrl_at :: "OMX_U32 \<Rightarrow> ptr \<Rightarrow> NX_VIDENC \<Rightarrow> enc_sys \<Rightarrow> enc_buf_pc \<Rightarrow> enc_cmd_pc \<Rightarrow> enc_sys" where
  "ctrl_at v p u S b c = (enc_born p u S)\<lparr>ecomp := (ecomp (enc_born p u S))\<lparr>hBufCtrlSem := Some \<lparr>nValue = v, nMaxValue = 1\<rparr>\<rparr>,
     ebpc := b, ecpc := c\<rparr>"

lemma ctrl_at_born: "enc_born p u S = ctrl_at 0 p u S EBufStart (ECmdCtrl p ForThread)"
  by (simp add: ctrl_at_def enc_born_def create_sem_def NX_CreateSem_def)

text \<open>The steps of the two threads between the creation of the buffer thread and the end of the transition.\<close>

lemma start_steps:
  assumes r: "enc_reach S0 (ctrl_at v p u S b c)"
  shows post_alone: "b = EBufStart \<Longrightarrow> v = 0 \<Longrightarrow> cmd_wakes c = None \<Longrightarrow> enc_reach S0 (ctrl_at 1 p u S EBufOuter c)"
    and post_wakes: "b = EBufStart \<Longrightarrow> v = 0 \<Longrightarrow> c = ECmdWait p k \<Longrightarrow> enc_reach S0 (ctrl_at 1 p u S EBufOuter (ECmdWoken p k))"
    and outer: "b = EBufOuter \<Longrightarrow> enc_reach S0 (ctrl_at v p u S EBufPendCtrl c)"
    and take_token: "b = EBufPendCtrl \<Longrightarrow> v = 1 \<Longrightarrow> enc_reach S0 (ctrl_at 0 p u S EBufInner c)"
    and sleeps: "b = EBufPendCtrl \<Longrightarrow> v = 0 \<Longrightarrow> enc_reach S0 (ctrl_at 0 p u S EBufWaitCtrl c)"
    and inner: "b = EBufInner \<Longrightarrow> enc_reach S0 (ctrl_at v p u S EBufOuter c)"
    and cmd_sleeps: "c = ECmdCtrl p k \<Longrightarrow> v = 0 \<Longrightarrow> enc_reach S0 (ctrl_at 0 p u S b (ECmdWait p k))"
    and cmd_resumes: "c = ECmdWoken p k \<Longrightarrow> enc_reach S0 (ctrl_at (v - 1) p u S b (ECmdHas p k))"
proof -
  note q = ctrl_signal.quiet[of Quiet]
  show "b = EBufStart \<Longrightarrow> v = 0 \<Longrightarrow> cmd_wakes c = None \<Longrightarrow> enc_reach S0 (ctrl_at 1 p u S EBufOuter c)"
    using buffer_step[OF r, of undefined EBufOuter _ EBufOuter c] ctrl_signal.nobody[of EBufOuter c PostsCtrl]
    by (simp add: ctrl_at_def enc_born_def ctrl_run)
  show "b = EBufStart \<Longrightarrow> v = 0 \<Longrightarrow> c = ECmdWait p k \<Longrightarrow> enc_reach S0 (ctrl_at 1 p u S EBufOuter (ECmdWoken p k))"
    using buffer_step[OF r, of undefined EBufOuter _ EBufOuter "ECmdWoken p k"]
      ctrl_signal.command[of "ECmdWait p k" "ECmdWoken p k" EBufOuter]
    by (simp add: ctrl_at_def enc_born_def ctrl_run)
  show "b = EBufOuter \<Longrightarrow> enc_reach S0 (ctrl_at v p u S EBufPendCtrl c)"
    using buffer_step[OF r, of undefined EBufPendCtrl _ EBufPendCtrl c] q
    by (simp add: ctrl_at_def enc_born_def ctrl_run)
  show "b = EBufPendCtrl \<Longrightarrow> v = 1 \<Longrightarrow> enc_reach S0 (ctrl_at 0 p u S EBufInner c)"
    using buffer_step[OF r, of undefined EBufInner _ EBufInner c] q
    by (simp add: ctrl_at_def enc_born_def ctrl_run)
  show "b = EBufPendCtrl \<Longrightarrow> v = 0 \<Longrightarrow> enc_reach S0 (ctrl_at 0 p u S EBufWaitCtrl c)"
    using buffer_step[OF r, of undefined EBufWaitCtrl _ EBufWaitCtrl c] q
    by (simp add: ctrl_at_def enc_born_def ctrl_run)
  show "b = EBufInner \<Longrightarrow> enc_reach S0 (ctrl_at v p u S EBufOuter c)"
    using buffer_step[OF r, of undefined EBufOuter _ EBufOuter c] q
    by (simp add: ctrl_at_def enc_born_def ctrl_run)
  show "c = ECmdCtrl p k \<Longrightarrow> v = 0 \<Longrightarrow> enc_reach S0 (ctrl_at 0 p u S b (ECmdWait p k))"
    using command_step[OF r, of undefined "ECmdWait p k" _ Quiet b "ECmdWait p k"] q
    by (simp add: ctrl_at_def enc_born_def ctrl_run)
  show "c = ECmdWoken p k \<Longrightarrow> enc_reach S0 (ctrl_at (v - 1) p u S b (ECmdHas p k))"
    using command_step[OF r, of undefined "ECmdHas p k" _ Quiet b "ECmdHas p k"] q
    by (simp add: ctrl_at_def enc_born_def ctrl_run)
qed

lemma start_done:
  assumes "enc_reach S0 (ctrl_at v p u S b (ECmdHas p ForThread))"
  shows "\<exists>T. enc_reach S0 T \<and> ecpc T = ECmdTrans p (EncDone OMX_ErrorNone) \<and> eCurState (ecomp T) = OMX_StateIdle \<and>
    hBufCtrlSem (ecomp T) = Some \<lparr>nValue = v, nMaxValue = 1\<rparr> \<and> ebpc T = b"
  using command_step[OF assms, of undefined "ECmdTrans p (EncDone OMX_ErrorNone)" _ Quiet b "ECmdTrans p (EncDone OMX_ErrorNone)"]
    ctrl_signal.quiet[of Quiet]
  by (intro exI conjI) (auto simp: ctrl_at_def enc_born_def)

text \<open>
  C9: Both threads pend on \<open>hBufCtrlSem\<close> when the encoder starts, and the outcome is a matter of their order. When
  the command thread sleeps first and is quick to take its token, the transition ends in Idle with the
  semaphore at 0. When the buffer thread takes the token that it has just posted, the command thread never
  learns that it runs, and the component never becomes Idle. When the command thread has been woken but the
  buffer thread is quicker, the transition ends with the semaphore at \<open>0xFFFFFFFF\<close>: its next four thousand
  million pends succeed at once.
\<close>

theorem enc_start_has_three_ends:
  assumes "ecpc S = ECmdTrans p EncOpenCodec" and "EncoderOpen lib (ecomp S) = Some (0, u)"
  shows "(\<exists>T. enc_reach S T \<and> ecpc T = ECmdTrans p (EncDone OMX_ErrorNone) \<and> eCurState (ecomp T) = OMX_StateIdle \<and>
        ebpc T = EBufWaitCtrl \<and> hBufCtrlSem (ecomp T) = Some \<lparr>nValue = 0, nMaxValue = 1\<rparr>) \<and>
    (\<exists>T. enc_reach S T \<and> (\<forall>U. enc_reach T U \<longrightarrow> ecpc U = ECmdWait p ForThread \<and> eCurState (ecomp U) = eCurState (ecomp S))) \<and>
    (\<exists>T. enc_reach S T \<and> ecpc T = ECmdTrans p (EncDone OMX_ErrorNone) \<and> eCurState (ecomp T) = OMX_StateIdle \<and>
        hBufCtrlSem (ecomp T) = Some \<lparr>nValue = 0xFFFFFFFF, nMaxValue = 1\<rparr>)"
proof (intro conjI)
  have born: "enc_reach S (ctrl_at 0 p u S EBufStart (ECmdCtrl p ForThread))"
    using enc_born_reached[OF assms] by (simp add: ctrl_at_born)
  note woken = outer[OF post_wakes[OF cmd_sleeps[OF born]], simplified]
  have "enc_reach S (ctrl_at 0 p u S EBufWaitCtrl (ECmdHas p ForThread))"
    using sleeps[OF cmd_resumes[OF woken]] by simp
  from start_done[OF this] show "\<exists>T. enc_reach S T \<and> ecpc T = ECmdTrans p (EncDone OMX_ErrorNone) \<and>
      eCurState (ecomp T) = OMX_StateIdle \<and> ebpc T = EBufWaitCtrl \<and> hBufCtrlSem (ecomp T) = Some \<lparr>nValue = 0, nMaxValue = 1\<rparr>"
    by blast
  have "enc_reach S (ctrl_at (-1) p u S EBufInner (ECmdHas p ForThread))"
    using cmd_resumes[OF take_token[OF woken]] by simp
  from start_done[OF this] show "\<exists>T. enc_reach S T \<and> ecpc T = ECmdTrans p (EncDone OMX_ErrorNone) \<and>
      eCurState (ecomp T) = OMX_StateIdle \<and> hBufCtrlSem (ecomp T) = Some \<lparr>nValue = 0xFFFFFFFF, nMaxValue = 1\<rparr>"
    by auto
  have "enc_reach S (ctrl_at 0 p u S EBufInner (ECmdCtrl p ForThread))"
    using take_token[OF outer[OF post_alone[OF born]]] by simp
  from cmd_sleeps[OF this] have T: "enc_reach S (ctrl_at 0 p u S EBufInner (ECmdWait p ForThread))" by simp
  have st: "eCurState (ecomp (ctrl_at 0 p u S EBufInner (ECmdWait p ForThread))) = eCurState (ecomp S)"
    using state_same[OF ectl_open[OF assms(2)]] by (simp add: ctrl_at_def enc_born_def)
  have "enc_parked (ECmdWait p ForThread) (eCurState (ecomp S)) (ctrl_at 0 p u S EBufInner (ECmdWait p ForThread))"
    using st by (simp add: enc_parked_def) (simp add: ctrl_at_def)
  then have "\<forall>U. enc_reach (ctrl_at 0 p u S EBufInner (ECmdWait p ForThread)) U \<longrightarrow>
      ecpc U = ECmdWait p ForThread \<and> eCurState (ecomp U) = eCurState (ecomp S)"
    using parked.always by (auto simp: enc_parked_def)
  with T show "\<exists>T. enc_reach S T \<and> (\<forall>U. enc_reach T U \<longrightarrow> ecpc U = ECmdWait p ForThread \<and> eCurState (ecomp U) = eCurState (ecomp S))"
    by blast
qed

theorem enc_start_has_three_ends_witness:
  "\<exists>S T U. enc_reach (created_enc new_enc) S \<and> ecpc S = ECmdTrans 101 EncOpenCodec \<and>
     enc_reach S T \<and> hBufCtrlSem (ecomp T) = Some \<lparr>nValue = 0xFFFFFFFF, nMaxValue = 1\<rparr> \<and>
     enc_reach S U \<and> ecpc U = ECmdWait 101 ForThread"
proof -
  obtain S u where S: "enc_run sample_lib load_turns (created_enc new_enc) = Some S" "ecpc S = ECmdTrans 101 EncOpenCodec"
    "EncoderOpen sample_lib (ecomp S) = Some (0, u)"
    using load_run by blast
  have "enc_reach (created_enc new_enc) S" by (rule enc_run_reach[OF enc_reach.start S(1)])
  moreover note ends = enc_start_has_three_ends[OF S(2,3)]
  moreover from ends obtain U where "enc_reach S U" "ecpc U = ECmdWait 101 ForThread" using enc_reach.start by blast
  ultimately show ?thesis using S(2) by blast
qed

subsection \<open>Port commands\<close>

text \<open>The command thread finds a value at the semaphore, takes it, posts it back and reports completion.\<close>

lemma port_command_with_token:
  assumes "enc_reach S0 (S\<lparr>ecomp := s, ebpc := b, ecpc := ECmdCtrl p ForCommand\<rparr>)" and "cmd_mem s p = Some m"
    and "hBufCtrlSem s = Some c" and "nValue c \<noteq> 0" and "cbEventHandler (pCallbacks s) \<noteq> NULL"
  shows "\<exists>T. enc_reach S0 T \<and> ecpc T = ECmdPend p \<and> pPort (ecomp T) = pPort s \<and> eCurState (ecomp T) = eCurState s \<and>
     trace (ecomp T) = trace s @ [EventHandler OMX_EventCmdComplete 0 0 (pCmdData m)]"
proof -
  let ?c = "c\<lparr>nValue := nValue c - 1\<rparr>"
  have "ctrl_enter (ECmdWait p ForCommand) (ECmdHas p ForCommand) s = Some (ECmdHas p ForCommand, s\<lparr>hBufCtrlSem := Some ?c\<rparr>)"
    using assms(3,4) by (simp add: ctrl_enter_def NX_PendSem_enter_def)
  with command_step[OF assms(1), of undefined "ECmdHas p ForCommand" _ Quiet b "ECmdHas p ForCommand"]
  have r: "enc_reach S0 (S\<lparr>ecomp := s\<lparr>hBufCtrlSem := Some ?c\<rparr>, ebpc := b, ecpc := ECmdHas p ForCommand\<rparr>)"
    using ctrl_signal.quiet[of Quiet] by simp
  obtain h where h: "post_handle (Some ?c) = Some h" by (auto simp: post_handle_def)
  let ?t = "free_cmd p (emit (EventHandler OMX_EventCmdComplete 0 0 (pCmdData m)) (s\<lparr>hBufCtrlSem := h\<rparr>))"
  have st: "enc_cmd_step undefined (b = EBufDone) (ECmdHas p ForCommand) (s\<lparr>hBufCtrlSem := Some ?c\<rparr>) = Some (ECmdPend p, ?t, PostsCtrl)"
    using assms(2,5) h by (simp add: finish_port_command_def SendEvent_def)
  obtain b' where w: "ctrl_signal PostsCtrl b (ECmdPend p) b' (ECmdPend p)"
    using ctrl_signal.nobody[of b "ECmdPend p" PostsCtrl] ctrl_signal.buffer[of b _ "ECmdPend p"] by (cases "buf_wakes b") auto
  from command_step[OF r, of undefined "ECmdPend p" ?t PostsCtrl b' "ECmdPend p"] st w
  have "enc_reach S0 (S\<lparr>ecomp := ?t, ebpc := b', ecpc := ECmdPend p\<rparr>)" by simp
  then show ?thesis by (intro exI conjI) (auto simp: free_cmd_def emit_def)
qed

text \<open>
  C30: No command on ports changes a port. To disable a single port is refused with \<open>OMX_ErrorBadPortIndex\<close>, for
  the test wants \<open>OMX_ALL\<close>. To disable all ports, to enable a port or to mark a buffer leads to
  \<open>NX_PendSem( hBufCtrlSem )\<close>: in Loaded there is no such semaphore, and the call has no defined result; when
  the value is 0, as it is after the regular start, the command thread sleeps for ever; and when the value is not 0
  (a token, or \<open>0xFFFFFFFF\<close> after the third end of C9), the command is reported as complete and nothing was done.
\<close>

theorem enc_port_commands_change_no_port:
  assumes "ecpc S = ECmdProc p" and "cmd_mem (ecomp S) p = Some m"
    and "eCmd m \<in> {OMX_CommandPortDisable, OMX_CommandPortEnable, OMX_CommandMarkBuffer}"
    and "cbEventHandler (pCallbacks (ecomp S)) \<noteq> NULL" and "ebpc S \<noteq> EBufStart"
  defines "refused \<equiv> eCmd m = OMX_CommandPortDisable \<and> nParam1 m \<noteq> OMX_ALL"
  shows "(refused \<longrightarrow> (\<exists>T. enc_step S T \<and> ecpc T = ECmdPend p \<and> pPort (ecomp T) = pPort (ecomp S) \<and>
        trace (ecomp T) = trace (ecomp S) @
          [EventHandler OMX_EventError (omx_error_code OMX_ErrorBadPortIndex) 0 (pCmdData m)])) \<and>
    (\<not> refused \<and> hBufCtrlSem (ecomp S) = None \<longrightarrow> (\<exists>T. enc_step S T \<and>
        (\<forall>lib j. enc_cmd_step lib j (ecpc T) (ecomp T) = None))) \<and>
    (\<not> refused \<and> (\<exists>c. hBufCtrlSem (ecomp S) = Some c \<and> nValue c = 0) \<longrightarrow> (\<exists>T. enc_reach S T \<and>
        (\<forall>U. enc_reach T U \<longrightarrow> ecpc U = ECmdWait p ForCommand \<and> eCurState (ecomp U) = eCurState (ecomp S)))) \<and>
    (\<not> refused \<and> (\<exists>c. hBufCtrlSem (ecomp S) = Some c \<and> nValue c \<noteq> 0) \<longrightarrow> (\<exists>T. enc_reach S T \<and>
        ecpc T = ECmdPend p \<and> pPort (ecomp T) = pPort (ecomp S) \<and> eCurState (ecomp T) = eCurState (ecomp S) \<and>
        trace (ecomp T) = trace (ecomp S) @ [EventHandler OMX_EventCmdComplete 0 0 (pCmdData m)]))"
proof (intro conjI impI)
  let ?s = "ecomp S"
  assume r: refused
  let ?t = "free_cmd p (emit (EventHandler OMX_EventError (omx_error_code OMX_ErrorBadPortIndex) 0 (pCmdData m)) ?s)"
  have "enc_cmd_step undefined (ebpc S = EBufDone) (ecpc S) ?s = Some (ECmdPend p, ?t, Quiet)"
    using assms(1-4) r by (simp add: NX_VidEncCommandProc_def SendEvent_def next_pc_def refused_def)
  from enc_step.command[OF this ctrl_signal.quiet]
  have "enc_step S (S\<lparr>ecomp := ?t, ebpc := ebpc S, ecpc := ECmdPend p\<rparr>)" by simp
  then show "\<exists>T. enc_step S T \<and> ecpc T = ECmdPend p \<and> pPort (ecomp T) = pPort ?s \<and> trace (ecomp T) = trace ?s @
        [EventHandler OMX_EventError (omx_error_code OMX_ErrorBadPortIndex) 0 (pCmdData m)]"
    by (intro exI[of _ "S\<lparr>ecomp := ?t, ebpc := ebpc S, ecpc := ECmdPend p\<rparr>"]) (simp add: free_cmd_def emit_def)
next
  let ?T = "S\<lparr>ecomp := ecomp S, ebpc := ebpc S, ecpc := ECmdCtrl p ForCommand\<rparr>"
  have st: "enc_step S ?T" if "\<not> refused"
  proof (rule enc_step.command[where f = Quiet])
    show "enc_cmd_step undefined (ebpc S = EBufDone) (ecpc S) (ecomp S) = Some (ECmdCtrl p ForCommand, ecomp S, Quiet)"
      using assms(1-3) that by (auto simp: NX_VidEncCommandProc_def next_pc_def refused_def)
  qed (simp add: ctrl_signal.quiet)
  {
    assume "\<not> refused \<and> hBufCtrlSem (ecomp S) = None"
    with st show "\<exists>T. enc_step S T \<and> (\<forall>lib j. enc_cmd_step lib j (ecpc T) (ecomp T) = None)"
      by (intro exI[of _ ?T]) (simp add: ctrl_enter_def)
  next
    assume a: "\<not> refused \<and> (\<exists>c. hBufCtrlSem (ecomp S) = Some c \<and> nValue c = 0)"
    then have "enc_cmd_step undefined (ebpc ?T = EBufDone) (ecpc ?T) (ecomp ?T) = Some (ECmdWait p ForCommand, ecomp S, Quiet)"
      by (auto simp: ctrl_enter_def NX_PendSem_enter_def)
    from command_step[OF enc_reach.step[OF enc_reach.start st] this ctrl_signal.quiet] a
    have W: "enc_reach S (S\<lparr>ecpc := ECmdWait p ForCommand\<rparr>)" by simp
    have "enc_parked (ECmdWait p ForCommand) (eCurState (ecomp S)) (S\<lparr>ecpc := ECmdWait p ForCommand\<rparr>)"
      using assms(5) by (simp add: enc_parked_def)
    with W parked.always show "\<exists>T. enc_reach S T \<and>
        (\<forall>U. enc_reach T U \<longrightarrow> ecpc U = ECmdWait p ForCommand \<and> eCurState (ecomp U) = eCurState (ecomp S))"
      by (intro exI[of _ "S\<lparr>ecpc := ECmdWait p ForCommand\<rparr>"]) (auto simp: enc_parked_def)
  next
    assume a: "\<not> refused \<and> (\<exists>c. hBufCtrlSem (ecomp S) = Some c \<and> nValue c \<noteq> 0)"
    with st have r: "enc_reach S ?T" by (blast intro: enc_reach.step[OF enc_reach.start])
    show "\<exists>T. enc_reach S T \<and> ecpc T = ECmdPend p \<and> pPort (ecomp T) = pPort (ecomp S) \<and>
        eCurState (ecomp T) = eCurState (ecomp S) \<and>
        trace (ecomp T) = trace (ecomp S) @ [EventHandler OMX_EventCmdComplete 0 0 (pCmdData m)]"
      using port_command_with_token[OF r assms(2) _ _ assms(4)] a by blast
  }
qed

theorem enc_port_commands_change_no_port_witness:
  "\<exists>S T. enc_reach (created_enc new_enc) S \<and> ecpc S = ECmdProc 102 \<and> eCurState (ecomp S) = OMX_StateIdle \<and> enc_reach S T \<and>
     (\<forall>U. enc_reach T U \<longrightarrow> ecpc U = ECmdWait 102 ForCommand \<and> eCurState (ecomp U) = OMX_StateIdle)"
proof -
  let ?m = "\<lparr>cmd_id = 1, eCmd = OMX_CommandPortEnable, nParam1 = 0, pCmdData = 0\<rparr>"
  obtain S where S: "enc_run sample_lib port_turns (created_enc new_enc) = Some S" "ecpc S = ECmdProc 102"
    "cmd_mem (ecomp S) 102 = Some ?m" "cbEventHandler (pCallbacks (ecomp S)) = 1" "ebpc S = EBufWaitCtrl"
    "eCurState (ecomp S) = OMX_StateIdle" "hBufCtrlSem (ecomp S) = Some \<lparr>nValue = 0, nMaxValue = 1\<rparr>"
    using port_run by blast
  have "enc_reach (created_enc new_enc) S" by (rule enc_run_reach[OF enc_reach.start S(1)])
  moreover have "\<exists>T. enc_reach S T \<and>
      (\<forall>U. enc_reach T U \<longrightarrow> ecpc U = ECmdWait 102 ForCommand \<and> eCurState (ecomp U) = OMX_StateIdle)"
    using enc_port_commands_change_no_port[OF S(2,3)] S(4-7) by simp
  ultimately show ?thesis using S(2,6) by blast
qed

section \<open>Pause\<close>

text \<open>The operations of the buffer thread do not look at the state of the component.\<close>

abbreviation (input) renamed :: "OMX_STATETYPE \<Rightarrow> NX_VIDENC \<Rightarrow> NX_VIDENC" where
  "renamed st s \<equiv> s\<lparr>eCurState := st\<rparr>"

lemma map_bind: "map_option g (Option.bind x f) = Option.bind x (\<lambda>y. map_option g (f y))"
  "Option.bind (map_option h x) k = Option.bind x (\<lambda>y. k (h y))"
  by (cases x; simp)+

lemma map_if: "map_option g (if c then x else y) = (if c then map_option g x else map_option g y)"
  by simp

lemma map_case_prod: "map_option g (case z of (a, b) \<Rightarrow> f a b) = (case z of (a, b) \<Rightarrow> map_option g (f a b))"
  by (cases z) simp

lemma rename_upd:
  "(renamed st s)\<lparr>hdr_mem := x1\<rparr> = renamed st (s\<lparr>hdr_mem := x1\<rparr>)" "(renamed st s)\<lparr>byte_mem := x2\<rparr> = renamed st (s\<lparr>byte_mem := x2\<rparr>)"
  "(renamed st s)\<lparr>trace := x3\<rparr> = renamed st (s\<lparr>trace := x3\<rparr>)" "(renamed st s)\<lparr>pBufQueue := x4\<rparr> = renamed st (s\<lparr>pBufQueue := x4\<rparr>)"
  "(renamed st s)\<lparr>bSendCodecSpecificInfo := x5\<rparr> = renamed st (s\<lparr>bSendCodecSpecificInfo := x5\<rparr>)"
  "(renamed st s)\<lparr>hCSCMem := x6\<rparr> = renamed st (s\<lparr>hCSCMem := x6\<rparr>)"
  "(renamed st s)\<lparr>hBufCtrlSem := x7\<rparr> = renamed st (s\<lparr>hBufCtrlSem := x7\<rparr>)"
  "(renamed st s)\<lparr>hBufChangeSem := x8\<rparr> = renamed st (s\<lparr>hBufChangeSem := x8\<rparr>)" "emit e (renamed st s) = renamed st (emit e s)"
  by (simp_all add: emit_def)

lemma map_case_option: "map_option g (case x of None \<Rightarrow> a | Some y \<Rightarrow> f y) = (case x of None \<Rightarrow> map_option g a | Some y \<Rightarrow> map_option g (f y))"
  by (cases x) simp_all

lemma map_case_sum: "map_option g (case x of Inl a \<Rightarrow> f a | Inr b \<Rightarrow> h b) = (case x of Inl a \<Rightarrow> map_option g (f a) | Inr b \<Rightarrow> map_option g (h b))"
  by (cases x) simp_all

lemmas rename_rules = map_bind map_if map_case_prod map_case_option map_case_sum rename_upd split_beta Let_def

lemma rename_hdr: "upd_hdr p f (renamed st s) = map_option (renamed st) (upd_hdr p f s)"
  by (simp add: upd_hdr_def rename_rules)

lemma rename_event: "SendEvent e a b d (renamed st s) = map_option (renamed st) (SendEvent e a b d s)"
  by (simp add: SendEvent_def rename_rules)

lemma rename_EBD: "call_EmptyBufferDone p (renamed st s) = map_option (renamed st) (call_EmptyBufferDone p s)"
  by (simp add: call_EmptyBufferDone_def rename_rules)

lemma rename_FBD: "call_FillBufferDone p (renamed st s) = map_option (renamed st) (call_FillBufferDone p s)"
  by (simp add: call_FillBufferDone_def rename_rules)

lemma rename_upd_out: "upd_out p f (renamed st s) = map_option (renamed st) (upd_out p f s)"
  by (simp add: upd_out_def rename_hdr)

lemma rename_fill: "fill_data p bs (renamed st s) = map_option (renamed st) (fill_data p bs s)"
  by (simp add: fill_data_def rename_rules)

lemma rename_pop_out: "pop_out p (renamed st s) = map_prod id (renamed st) (pop_out p s)"
  by (simp add: pop_out_def rename_rules)

lemmas rename_parts = rename_hdr rename_event rename_EBD rename_FBD rename_upd_out rename_fill rename_pop_out

lemma rename_eos: "encode_eos p (renamed st s) = map_option (renamed st) (encode_eos p s)"
  by (simp add: encode_eos_def rename_parts rename_rules)

lemma rename_deliver: "deliver_frame p q out (renamed st s) = map_option (renamed st) (deliver_frame p q out s)"
  by (simp add: deliver_frame_def rename_parts rename_rules)

lemma rename_csc: "need_csc_mem lib c (renamed st s) = renamed st (need_csc_mem lib c s)"
  by (simp add: need_csc_mem_def rename_upd)

lemma rename_codec_info: "send_codec_info p (renamed st s) = map_option (map_prod id (renamed st)) (send_codec_info p s)"
  by (simp add: send_codec_info_def rename_parts rename_rules)

lemma rename_opaque: "opaque_image lib w (renamed st s) = map_option (map_prod id (renamed st)) (opaque_image lib w s)"
  by (cases "gralloc_at lib (unat w)")
    (simp_all add: opaque_image_def map_bind map_case_prod rename_upd rename_csc Let_def split: option.splits)

lemma rename_native: "native_image lib w (renamed st s) = map_option (map_prod id (renamed st)) (native_image lib w s)"
  by (cases "gralloc_at lib (unat w)") (simp_all add: native_image_def Let_def split_beta)

lemma rename_yv12: "yv12_image lib src (renamed st s) = map_option (map_prod id (renamed st)) (yv12_image lib src s)"
  by (simp add: yv12_image_def map_bind map_case_prod rename_upd rename_csc Let_def split: option.splits)

lemma rename_image: "input_image lib src (renamed st s) = map_option (map_prod id (renamed st)) (input_image lib src s)"
  by (cases "get_le32 src 0"; cases "get_le32 src 4")
    (simp_all add: input_image_def rename_opaque rename_native rename_yv12)

text \<open>\<open>EncodeFrame\<close> behind the header of the input buffer.\<close>

lemma rename_encode: "EncodeFrame lib (renamed st s) = map_option (map_prod id (renamed st)) (EncodeFrame lib s)"
proof -
  have e: "encode_image lib i (renamed st u) = encode_image lib i u" for i u by (simp add: encode_image_def)
  obtain rc x q where pop: "NX_PopQueue (pInputPortQueue s) = (rc, x, q)" by (metis prod_cases3)
  let ?u = "s\<lparr>pBufQueue := (pBufQueue s)(0 := q)\<rparr>"
  show ?thesis
  proof (cases x)
    case None
    with pop show ?thesis by (simp add: EncodeFrame_def rename_upd Let_def)
  next
    case (Some p)
    show ?thesis
    proof (cases "p = NULL \<or> hdr_mem s p = None")
      case True
      with pop Some show ?thesis by (auto simp: EncodeFrame_def rename_upd Let_def)
    next
      case False
      then obtain h where h: "hdr_mem s p = Some h" "p \<noteq> NULL" by auto
      show ?thesis
      proof (cases "has_flag (nFlags h) OMX_BUFFERFLAG_EOS \<or> byte_mem s (pBuffer h) = None")
        case True
        with pop Some h show ?thesis by (auto simp: EncodeFrame_def rename_upd rename_eos map_bind Let_def)
      next
        case False
        then obtain src where src: "byte_mem s (pBuffer h) = Some src" "\<not> has_flag (nFlags h) OMX_BUFFERFLAG_EOS" by auto
        show ?thesis
        proof (cases "input_image lib src ?u")
          case None
          with pop Some h src show ?thesis by (simp add: EncodeFrame_def rename_upd rename_image Let_def)
        next
          case im: (Some y)
          obtain r v where y: "y = (r, v)" by (metis surj_pair)
          show ?thesis
          proof (cases r)
            case (Inl rc')
            with pop Some h src im y show ?thesis by (simp add: EncodeFrame_def rename_upd rename_image Let_def)
          next
            case (Inr img)
            with pop Some h src im y show ?thesis
              by (cases "send_codec_info (fst (pop_out NULL v)) (snd (pop_out NULL v))")
                (simp_all add: EncodeFrame_def rename_upd rename_image rename_pop_out rename_codec_info e rename_deliver
                  map_bind map_if map_case_prod split_beta Let_def)
          qed
        qed
      qed
    qed
  qed
qed

lemma rename_turn: "enc_turn lib (renamed st s) = map_option (renamed st) (enc_turn lib s)"
  by (cases "EncodeFrame lib s") (simp_all add: enc_turn_def NX_VidEncTransform_def rename_encode split_beta rename_event)

lemma rename_buf_step: "enc_buf_step lib b (renamed st s) = map_option (map_prod id (renamed st)) (enc_buf_step lib b s)"
  by (cases b; cases "hBufCtrlSem s")
    (simp_all add: rename_turn ctrl_enter_def ctrl_resume_def map_bind map_if rename_upd NX_PendSem_enter_def)

text \<open>
  C29: A transition to or from Pause changes the name of the state and nothing else: it gives the buffer thread no
  order and posts no semaphore, and the buffer thread does not look at the state. So the encoder goes on
  encoding in Pause when it was Executing before; and from Idle through Pause to Executing it never begins.
\<close>

theorem enc_pause_changes_only_the_name:
  assumes "(eCurState s, new) \<in> {(OMX_StateIdle, OMX_StatePause), (OMX_StateExecuting, OMX_StatePause),
      (OMX_StatePause, OMX_StateExecuting), (OMX_StatePause, OMX_StateIdle)}" and "to_state n = new"
  shows "NX_VidEncCommandProc OMX_CommandStateSet n dat s =
      Some (InTransition (EncDone OMX_ErrorNone), s\<lparr>eCurState := new\<rparr>, Quiet) \<and>
    enc_buf_step lib b (s\<lparr>eCurState := new\<rparr>) = map_option (map_prod id (\<lambda>t. t\<lparr>eCurState := new\<rparr>)) (enc_buf_step lib b s)"
proof
  have "(eCurState s, new) \<in> enc_direct" "eCurState s \<noteq> to_state n" using assms by (auto simp: enc_direct_def)
  then show "NX_VidEncCommandProc OMX_CommandStateSet n dat s =
      Some (InTransition (EncDone OMX_ErrorNone), s\<lparr>eCurState := new\<rparr>, Quiet)"
    using enc_transition_direct[of "eCurState s" new s] assms(2) by (simp add: NX_VidEncCommandProc_def)
qed (rule rename_buf_step)

theorem enc_pause_changes_only_the_name_witness:
  "enc_buf_step sample_lib EBufInner ((sample_comp\<lparr>eCurState := OMX_StateExecuting, eCmdBufThread := NX_THREAD_CMD_RUN\<rparr>)
     \<lparr>eCurState := OMX_StatePause\<rparr>) =
   Some (EBufPendChange, sample_comp\<lparr>eCurState := OMX_StatePause, eCmdBufThread := NX_THREAD_CMD_RUN\<rparr>)"
  using enc_pause_changes_only_the_name[of "sample_comp\<lparr>eCurState := OMX_StateExecuting, eCmdBufThread := NX_THREAD_CMD_RUN\<rparr>"
      OMX_StatePause 4 NULL sample_lib EBufInner] by (simp add: to_state_def)

end
