(* ===== verification/AudDecState.thy ===== *)
theory AudDecState
  imports OmxIo "HOL-Library.Signed_Division"
begin

text \<open>
  The state of the audio decoder component (\<open>struct NX_FFDEC_AUDIO_COMP_TYPE\<close> of \<open>NX_OMXAudioDecoderFFMpeg.h\<close>)
  and the parameters of its codings. FFmpeg (libavcodec, libavutil and libswresample), which the sources only
  call, is the record \<open>av_lib\<close>, an argument of the operations that use it.
\<close>

section \<open>Codings\<close>

text \<open>
  The members of the structs are 32 bits wide, but for three of \<open>OMX_AUDIO_PARAM_WMATYPE\<close>; the structs for AC3,
  DTS and FLAC are the same.
\<close>

record OMX_AUDIO_PARAM_AC3TYPE =
  ac3_nSize :: OMX_U32
  ac3_nVersion :: OMX_U32
  ac3_nPortIndex :: OMX_U32
  ac3_nChannels :: OMX_U32
  ac3_nBitRate :: OMX_U32
  ac3_nSampleRate :: OMX_U32

type_synonym OMX_AUDIO_PARAM_DTSTYPE = OMX_AUDIO_PARAM_AC3TYPE
type_synonym OMX_AUDIO_PARAM_FLACTYPE = OMX_AUDIO_PARAM_AC3TYPE

record OMX_AUDIO_PARAM_MP3TYPE =
  mp3_nSize :: OMX_U32
  mp3_nVersion :: OMX_U32
  mp3_nPortIndex :: OMX_U32
  mp3_nChannels :: OMX_U32
  mp3_nBitRate :: OMX_U32
  mp3_nSampleRate :: OMX_U32
  mp3_nAudioBandWidth :: OMX_U32
  mp3_eChannelMode :: OMX_U32
  mp3_eFormat :: OMX_U32

record OMX_AUDIO_PARAM_RATYPE =
  ra_nSize :: OMX_U32
  ra_nVersion :: OMX_U32
  ra_nPortIndex :: OMX_U32
  ra_nChannels :: OMX_U32
  ra_nSamplingRate :: OMX_U32
  ra_nBitsPerFrame :: OMX_U32
  ra_nSamplePerFrame :: OMX_U32
  ra_nCouplingQuantBits :: OMX_U32
  ra_nCouplingStartRegion :: OMX_U32
  ra_nNumRegions :: OMX_U32
  ra_eFormat :: OMX_U32

text \<open>\<open>wma_pad\<close> are the two bytes behind \<open>nChannels\<close>, which \<open>memcpy\<close> copies too.\<close>

record OMX_AUDIO_PARAM_WMATYPE =
  wma_nSize :: OMX_U32
  wma_nVersion :: OMX_U32
  wma_nPortIndex :: OMX_U32
  wma_nChannels :: "16 word"
  wma_pad :: "16 word"
  wma_nBitRate :: OMX_U32
  wma_eFormat :: OMX_U32
  wma_eProfile :: OMX_U32
  wma_nSamplingRate :: OMX_U32
  wma_nBlockAlign :: "16 word"
  wma_nEncodeOptions :: "16 word"
  wma_nSuperBlockAlign :: OMX_U32

record OMX_AUDIO_PARAM_PCMMODETYPE =
  pcm_nSize :: OMX_U32
  pcm_nVersion :: OMX_U32
  pcm_nPortIndex :: OMX_U32
  pcm_nChannels :: OMX_U32
  pcm_eNumData :: OMX_U32
  pcm_eEndian :: OMX_U32
  pcm_bInterleaved :: bool
  pcm_nBitPerSample :: OMX_U32
  pcm_nSamplingRate :: OMX_U32
  pcm_ePCMMode :: OMX_U32
  pcm_eChannelMapping :: "OMX_U32 list"

abbreviation (input) OMX_AUDIO_CodingUnused :: OMX_U32 where "OMX_AUDIO_CodingUnused \<equiv> 0"
abbreviation (input) OMX_AUDIO_CodingPCM :: OMX_U32 where "OMX_AUDIO_CodingPCM \<equiv> 2"
abbreviation (input) OMX_AUDIO_CodingMP3 :: OMX_U32 where "OMX_AUDIO_CodingMP3 \<equiv> 22"
abbreviation (input) OMX_AUDIO_CodingWMA :: OMX_U32 where "OMX_AUDIO_CodingWMA \<equiv> 25"
abbreviation (input) OMX_AUDIO_CodingRA :: OMX_U32 where "OMX_AUDIO_CodingRA \<equiv> 26"
abbreviation (input) OMX_AUDIO_CodingAC3 :: OMX_U32 where "OMX_AUDIO_CodingAC3 \<equiv> 0x7F000000"
abbreviation (input) OMX_AUDIO_CodingDTS :: OMX_U32 where "OMX_AUDIO_CodingDTS \<equiv> 0x7F000001"
abbreviation (input) OMX_AUDIO_CodingFLAC :: OMX_U32 where "OMX_AUDIO_CodingFLAC \<equiv> 0x7F000002"

text \<open>
  The union \<open>inPortType\<close>: its memory as words, as long as its longest member. \<open>put_union\<close> is the \<open>memcpy\<close> of
  a struct into it; a member is read back as its words.
\<close>

abbreviation (input) IN_PORT_WORDS :: nat where "IN_PORT_WORDS \<equiv> 11"

definition put_union :: "OMX_U32 list \<Rightarrow> OMX_U32 list \<Rightarrow> OMX_U32 list" where
  "put_union w u = w @ drop (length w) u"

definition lo16 :: "OMX_U32 \<Rightarrow> 16 word" where "lo16 w = ucast w"
definition hi16 :: "OMX_U32 \<Rightarrow> 16 word" where "hi16 w = ucast (drop_bit 16 w)"
definition of_halves :: "16 word \<Rightarrow> 16 word \<Rightarrow> OMX_U32" where "of_halves a b = ucast a OR push_bit 16 (ucast b)"

definition ac3_words :: "OMX_AUDIO_PARAM_AC3TYPE \<Rightarrow> OMX_U32 list" where
  "ac3_words p = [ac3_nSize p, ac3_nVersion p, ac3_nPortIndex p, ac3_nChannels p, ac3_nBitRate p, ac3_nSampleRate p]"

definition ac3_of_words :: "OMX_U32 list \<Rightarrow> OMX_AUDIO_PARAM_AC3TYPE" where
  "ac3_of_words w = \<lparr>ac3_nSize = w ! 0, ac3_nVersion = w ! 1, ac3_nPortIndex = w ! 2, ac3_nChannels = w ! 3,
     ac3_nBitRate = w ! 4, ac3_nSampleRate = w ! 5\<rparr>"

definition mp3_words :: "OMX_AUDIO_PARAM_MP3TYPE \<Rightarrow> OMX_U32 list" where
  "mp3_words p = [mp3_nSize p, mp3_nVersion p, mp3_nPortIndex p, mp3_nChannels p, mp3_nBitRate p, mp3_nSampleRate p,
     mp3_nAudioBandWidth p, mp3_eChannelMode p, mp3_eFormat p]"

definition mp3_of_words :: "OMX_U32 list \<Rightarrow> OMX_AUDIO_PARAM_MP3TYPE" where
  "mp3_of_words w = \<lparr>mp3_nSize = w ! 0, mp3_nVersion = w ! 1, mp3_nPortIndex = w ! 2, mp3_nChannels = w ! 3,
     mp3_nBitRate = w ! 4, mp3_nSampleRate = w ! 5, mp3_nAudioBandWidth = w ! 6, mp3_eChannelMode = w ! 7, mp3_eFormat = w ! 8\<rparr>"

definition ra_words :: "OMX_AUDIO_PARAM_RATYPE \<Rightarrow> OMX_U32 list" where
  "ra_words p = [ra_nSize p, ra_nVersion p, ra_nPortIndex p, ra_nChannels p, ra_nSamplingRate p, ra_nBitsPerFrame p,
     ra_nSamplePerFrame p, ra_nCouplingQuantBits p, ra_nCouplingStartRegion p, ra_nNumRegions p, ra_eFormat p]"

definition ra_of_words :: "OMX_U32 list \<Rightarrow> OMX_AUDIO_PARAM_RATYPE" where
  "ra_of_words w = \<lparr>ra_nSize = w ! 0, ra_nVersion = w ! 1, ra_nPortIndex = w ! 2, ra_nChannels = w ! 3,
     ra_nSamplingRate = w ! 4, ra_nBitsPerFrame = w ! 5, ra_nSamplePerFrame = w ! 6, ra_nCouplingQuantBits = w ! 7,
     ra_nCouplingStartRegion = w ! 8, ra_nNumRegions = w ! 9, ra_eFormat = w ! 10\<rparr>"

definition wma_words :: "OMX_AUDIO_PARAM_WMATYPE \<Rightarrow> OMX_U32 list" where
  "wma_words p = [wma_nSize p, wma_nVersion p, wma_nPortIndex p, of_halves (wma_nChannels p) (wma_pad p), wma_nBitRate p,
     wma_eFormat p, wma_eProfile p, wma_nSamplingRate p, of_halves (wma_nBlockAlign p) (wma_nEncodeOptions p),
     wma_nSuperBlockAlign p]"

definition wma_of_words :: "OMX_U32 list \<Rightarrow> OMX_AUDIO_PARAM_WMATYPE" where
  "wma_of_words w = \<lparr>wma_nSize = w ! 0, wma_nVersion = w ! 1, wma_nPortIndex = w ! 2, wma_nChannels = lo16 (w ! 3),
     wma_pad = hi16 (w ! 3), wma_nBitRate = w ! 4, wma_eFormat = w ! 5, wma_eProfile = w ! 6, wma_nSamplingRate = w ! 7,
     wma_nBlockAlign = lo16 (w ! 8), wma_nEncodeOptions = hi16 (w ! 8), wma_nSuperBlockAlign = w ! 9\<rparr>"

text \<open>The image of a struct determines it, also when more words follow.\<close>

lemma halves [simp]: "lo16 (of_halves a b) = a" "hi16 (of_halves a b) = b"
proof -
  show "lo16 (of_halves a b) = a"
    by (rule bit_word_eqI) (auto simp: lo16_def of_halves_def bit_simps)
  show "hi16 (of_halves a b) = b"
    by (rule bit_word_eqI) (auto simp: hi16_def of_halves_def bit_simps dest: bit_imp_le_length)
qed

lemma struct_of_words [simp]:
  "ac3_of_words (ac3_words a @ w) = a" "mp3_of_words (mp3_words m @ w) = m" "ra_of_words (ra_words r @ w) = r"
  "wma_of_words (wma_words x @ w) = x"
  by (simp_all add: ac3_of_words_def ac3_words_def mp3_of_words_def mp3_words_def ra_of_words_def ra_words_def
      wma_of_words_def wma_words_def)

lemma struct_words_length [simp]:
  "length (ac3_words a) = 6" "length (mp3_words m) = 9" "length (ra_words r) = 11" "length (wma_words x) = 10"
  by (simp_all add: ac3_words_def mp3_words_def ra_words_def wma_words_def)

section \<open>FFmpeg\<close>

datatype AVCodecID =
    CODEC_ID_NONE | CODEC_ID_PCM_S16LE | CODEC_ID_AC3 | CODEC_ID_DTS | CODEC_ID_FLAC | CODEC_ID_COOK
  | CODEC_ID_WMAV2 | CODEC_ID_WMAPRO | CODEC_ID_WMALOSSLESS | CODEC_ID_MP3

datatype av_channel_layout = AV_CH_LAYOUT_MONO | AV_CH_LAYOUT_STEREO | AV_CH_LAYOUT_5POINT1

text \<open>
  The members of a codec context that the component reads or writes; \<open>priv_data\<close> stands for the state of the
  codec, of which the component sees nothing. \<open>extradata\<close> is what the pointer designates when it is set.
\<close>

record AVCodecContext =
  codec_id :: AVCodecID
  workaround_bugs :: int
  lowres :: int
  idct_algo :: int
  skip_frame :: int
  skip_idct :: int
  skip_loop_filter :: int
  error_concealment :: int
  av_flags :: OMX_U32
  av_channels :: int
  av_sample_rate :: int
  request_channels :: int
  block_align :: int
  av_bit_rate :: int
  av_extradata :: "OMX_U8 list option"
  av_extradata_size :: int
  sample_fmt :: int
  priv_data :: nat

record AVFrame =
  nb_samples :: int
  frame_data :: "OMX_U8 list list"

text \<open>What \<open>AudioConvert\<close> sets in a resampler context.\<close>

record swr_options =
  in_channel_layout :: av_channel_layout
  in_sample_rate :: int
  in_sample_fmt :: int
  out_channel_layout :: av_channel_layout
  out_sample_rate :: int
  out_sample_fmt :: int

text \<open>
  The library at one call: what each function returns for its arguments. \<open>avcodec_alloc_context3\<close> returns the
  address of a new context, \<open>NULL\<close> for a failure, which the component does not test, and its contents;
  \<open>avcodec_alloc_frame\<close> and \<open>swr_alloc\<close> say whether the allocation succeeds; \<open>avcodec_decode_audio4\<close> sees the
  bytes of the packet and its size and returns the bytes it has used, or a negative error, the frame it has
  completed, if any, and the context; \<open>swr_convert\<close> returns the number of samples per channel and the bytes
  that it writes. \<open>av_rescale_rnd\<close> is called with \<open>AV_ROUND_UP\<close>, \<open>av_samples_get_buffer_size\<close> with the
  alignment 1.
\<close>

record av_lib =
  avcodec_find_decoder :: "AVCodecID \<Rightarrow> ptr"
  codec_capabilities :: "ptr \<Rightarrow> OMX_U32"
  CODEC_CAP_DR1 :: OMX_U32
  CODEC_FLAG_EMU_EDGE :: OMX_U32
  AVDISCARD_DEFAULT :: int
  avcodec_alloc_context3 :: "ptr \<Rightarrow> ptr \<times> AVCodecContext"
  avcodec_open2 :: "AVCodecContext \<Rightarrow> ptr \<Rightarrow> int \<times> AVCodecContext"
  avcodec_flush_buffers :: "AVCodecContext \<Rightarrow> AVCodecContext"
  avcodec_alloc_frame :: bool
  avcodec_decode_audio4 :: "AVCodecContext \<Rightarrow> OMX_U8 list \<Rightarrow> int \<Rightarrow> int \<times> AVFrame option \<times> AVCodecContext"
  av_samples_get_buffer_size :: "int \<Rightarrow> int \<Rightarrow> int \<Rightarrow> int"
  AV_SAMPLE_FMT_S16 :: int
  swr_alloc :: bool
  swr_init :: "swr_options \<Rightarrow> int"
  swr_get_delay :: "swr_options \<Rightarrow> int \<Rightarrow> int"
  av_rescale_rnd :: "int \<Rightarrow> int \<Rightarrow> int \<Rightarrow> int"
  av_get_channel_layout_nb_channels :: "av_channel_layout \<Rightarrow> int"
  swr_convert :: "swr_options \<Rightarrow> int \<Rightarrow> OMX_U8 list list \<Rightarrow> int \<Rightarrow> int \<times> OMX_U8 list"
  aud_block_junk :: "nat \<Rightarrow> OMX_U8"

section \<open>The component\<close>

abbreviation (input) FFDEC_AUD_NUM_PORT :: nat where "FFDEC_AUD_NUM_PORT \<equiv> 2"
abbreviation (input) FFDEC_AUD_INPORT_MIN_BUF_CNT :: OMX_U32 where "FFDEC_AUD_INPORT_MIN_BUF_CNT \<equiv> 8"
abbreviation (input) FFDEC_AUD_INPORT_MIN_BUF_SIZE :: OMX_U32 where "FFDEC_AUD_INPORT_MIN_BUF_SIZE \<equiv> 32768"
abbreviation (input) FFDEC_AUD_OUTPORT_MIN_BUF_CNT :: OMX_U32 where "FFDEC_AUD_OUTPORT_MIN_BUF_CNT \<equiv> 8"
abbreviation (input) FFDEC_AUD_OUTPORT_MIN_BUF_SIZE :: OMX_U32 where "FFDEC_AUD_OUTPORT_MIN_BUF_SIZE \<equiv> 1048576"

text \<open>\<open>ctx_mem\<close> are the codec contexts that the library has allocated and not yet freed.\<close>

record NX_AUDDEC = NX_IO_COMP +
  ctx_mem :: "ptr \<Rightarrow> AVCodecContext option"
  inPortType :: "OMX_U32 list"
  inCodingType :: OMX_U32
  outPortType :: OMX_AUDIO_PARAM_PCMMODETYPE
  bAudFlush :: bool
  nPrevTimeStamp :: OMX_TICKS
  nSampleCount :: OMX_U32
  hAudioCodec :: ptr
  avctx :: ptr
  pAudExtraData :: "OMX_U8 list option"
  nAudExtraDataSize :: int

definition zero_pcm :: OMX_AUDIO_PARAM_PCMMODETYPE where
  "zero_pcm = \<lparr>pcm_nSize = 0, pcm_nVersion = 0, pcm_nPortIndex = 0, pcm_nChannels = 0, pcm_eNumData = 0, pcm_eEndian = 0,
     pcm_bInterleaved = False, pcm_nBitPerSample = 0, pcm_nSamplingRate = 0, pcm_ePCMMode = 0,
     pcm_eChannelMapping = replicate 16 0\<rparr>"

text \<open>The component after \<open>NxMemset\<close> to 0.\<close>

definition zero_auddec :: NX_AUDDEC where
  "zero_auddec = \<lparr>hdr_mem = (\<lambda>_. None), byte_mem = (\<lambda>_. None), cmd_mem = (\<lambda>_. None), trace = [],
     comp_nVersion = 0, hComp = NULL, nNumPort = 0, compName = [], compRole = [], compUUID = replicate 128 0,
     pPort = (\<lambda>_. zero_port), pBufQueue = (\<lambda>_. zero_queue), eCurState = OMX_StateInvalid,
     eNewState = OMX_StateInvalid,
     pCallbacks = \<lparr>cbEventHandler = NULL, cbEmptyBufferDone = NULL, cbFillBufferDone = NULL\<rparr>,
     pCallbackData = NULL, eCmdThreadCmd = NX_THREAD_CMD_INVALID, hSemCmd = None, hSemCmdWait = None,
     cmdQueue = zero_queue, cmdId = 0,
     eCmdBufThread = NX_THREAD_CMD_INVALID, hBufAllocSem = None, hBufCtrlSem = None, hBufChangeSem = None,
     pInputBuffers = replicate NX_OMX_MAX_BUF NULL, pOutputBuffers = replicate NX_OMX_MAX_BUF NULL,
     ctx_mem = (\<lambda>_. None), inPortType = replicate IN_PORT_WORDS 0, inCodingType = OMX_AUDIO_CodingUnused,
     outPortType = zero_pcm, bAudFlush = False, nPrevTimeStamp = 0, nSampleCount = 0, hAudioCodec = NULL, avctx = NULL,
     pAudExtraData = None, nAudExtraDataSize = 0\<rparr>"

end
