(* ===== verification/AudDecParam.thy ===== *)
theory AudDecParam
  imports AudDecState
begin

text \<open>
  The parameters of the audio decoder (\<open>NX_FFAudDec_GetParameter\<close>, \<open>NX_FFAudDec_SetParameter\<close> of
  \<open>NX_OMXAudioDecoderFFMpeg.c\<close>). The index and the struct it selects are one datatype.
\<close>

datatype aud_param =
    AudRole string
  | AudPortFormat
  | AudPcm OMX_AUDIO_PARAM_PCMMODETYPE
  | AudAc3 OMX_AUDIO_PARAM_AC3TYPE
  | AudDts OMX_AUDIO_PARAM_DTSTYPE
  | AudFlac OMX_AUDIO_PARAM_FLACTYPE
  | AudRa OMX_AUDIO_PARAM_RATYPE
  | AudWma OMX_AUDIO_PARAM_WMATYPE
  | AudMp3 OMX_AUDIO_PARAM_MP3TYPE
  | AudExtradata "OMX_U8 list"
  | AudPortDefinition OMX_PARAM_PORTDEFINITIONTYPE
  | AudOther

section \<open>Reading\<close>

text \<open>
  Every coding is read from the one union, whatever was stored there last.
\<close>

definition NX_FFAudDec_GetParameter :: "aud_param \<Rightarrow> NX_AUDDEC \<Rightarrow> OMX_ERRORTYPE \<times> aud_param" where
  "NX_FFAudDec_GetParameter par s =
     (case par of
        AudRole r \<Rightarrow> (OMX_ErrorNone, AudRole (compRole s))
      | AudPcm p \<Rightarrow>
          (if pcm_nPortIndex p \<noteq> 1 then (OMX_ErrorBadPortIndex, par) else (OMX_ErrorNone, AudPcm (outPortType s)))
      | AudAc3 p \<Rightarrow>
          (if ac3_nPortIndex p \<noteq> 0 then (OMX_ErrorBadPortIndex, par) else (OMX_ErrorNone, AudAc3 (ac3_of_words (inPortType s))))
      | AudDts p \<Rightarrow>
          (if ac3_nPortIndex p \<noteq> 0 then (OMX_ErrorBadPortIndex, par) else (OMX_ErrorNone, AudDts (ac3_of_words (inPortType s))))
      | AudFlac p \<Rightarrow>
          (if ac3_nPortIndex p \<noteq> 0 then (OMX_ErrorBadPortIndex, par) else (OMX_ErrorNone, AudFlac (ac3_of_words (inPortType s))))
      | AudRa p \<Rightarrow>
          (if ra_nPortIndex p \<noteq> 0 then (OMX_ErrorBadPortIndex, par) else (OMX_ErrorNone, AudRa (ra_of_words (inPortType s))))
      | AudWma p \<Rightarrow>
          (if wma_nPortIndex p \<noteq> 0 then (OMX_ErrorBadPortIndex, par) else (OMX_ErrorNone, AudWma (wma_of_words (inPortType s))))
      | AudMp3 p \<Rightarrow>
          (if mp3_nPortIndex p \<noteq> 0 then (OMX_ErrorBadPortIndex, par) else (OMX_ErrorNone, AudMp3 (mp3_of_words (inPortType s))))
      | AudPortDefinition d \<Rightarrow> (let (e, d) = NX_BaseGetParameter d s in (e, AudPortDefinition d))
      | _ \<Rightarrow> (OMX_ErrorUnsupportedIndex, par))"

section \<open>Writing\<close>

text \<open>The coding that a role selects.\<close>

definition role_coding :: "string \<Rightarrow> OMX_U32 option" where
  "role_coding role =
     (if role = ''audio_decoder.ac3'' then Some OMX_AUDIO_CodingAC3
      else if role = ''audio_decoder.dts'' then Some OMX_AUDIO_CodingDTS
      else if role = ''audio_decoder.mp2'' then Some OMX_AUDIO_CodingMP3
      else if role = ''audio_decoder.mpeg'' \<or> role = ''audio_decoder.mp3'' then Some OMX_AUDIO_CodingMP3
      else if role = ''audio_decoder.flac'' then Some OMX_AUDIO_CodingFLAC
      else if role = ''audio_decoder.ra'' then Some OMX_AUDIO_CodingRA
      else if role = ''audio_decoder.wma'' \<or> role = ''audio_decoder.x-ms-wma'' then Some OMX_AUDIO_CodingWMA
      else None)"

definition AudSetParameter_Role :: "string \<Rightarrow> NX_AUDDEC \<Rightarrow> OMX_ERRORTYPE \<times> NX_AUDDEC" where
  "AudSetParameter_Role role s =
     (case role_coding role of
        Some c \<Rightarrow> (OMX_ErrorNone, s\<lparr>compRole := role, inCodingType := c\<rparr>)
      | None \<Rightarrow> (OMX_ErrorBadParameter, s))"

text \<open>The struct of a coding, on the input port only, and what it says of the output.\<close>

definition set_coding :: "OMX_U32 \<Rightarrow> OMX_U32 list \<Rightarrow> OMX_U32 \<Rightarrow> OMX_U32 \<Rightarrow> NX_AUDDEC \<Rightarrow> OMX_ERRORTYPE \<times> NX_AUDDEC" where
  "set_coding port w channels rate s =
     (if port \<noteq> 0 then (OMX_ErrorBadPortIndex, s)
      else (OMX_ErrorNone, s\<lparr>inPortType := put_union w (inPortType s),
              outPortType := (outPortType s)\<lparr>pcm_nChannels := (if 2 > channels then channels else 2), pcm_nSamplingRate := rate\<rparr>\<rparr>))"

text \<open>The extra data: a 32-bit size, then the bytes; the old block is freed and replaced.\<close>

definition AudSetParameter_Extradata :: "OMX_U8 list \<Rightarrow> NX_AUDDEC \<Rightarrow> (OMX_ERRORTYPE \<times> NX_AUDDEC) option" where
  "AudSetParameter_Extradata p s = do {
     size \<leftarrow> get_le32 p 0;
     bs \<leftarrow> (if sint size < 0 then None else rd p 4 (nat (sint size)));
     Some (OMX_ErrorNone, s\<lparr>pAudExtraData := Some bs, nAudExtraDataSize := sint size\<rparr>) }"

definition NX_FFAudDec_SetParameter :: "aud_param \<Rightarrow> NX_AUDDEC \<Rightarrow> (OMX_ERRORTYPE \<times> NX_AUDDEC) option" where
  "NX_FFAudDec_SetParameter par s =
     (case par of
        AudRole role \<Rightarrow> Some (AudSetParameter_Role role s)
      | AudPortFormat \<Rightarrow> Some (OMX_ErrorNone, s)
      | AudAc3 p \<Rightarrow> Some (set_coding (ac3_nPortIndex p) (ac3_words p) (ac3_nChannels p) (ac3_nSampleRate p) s)
      | AudDts p \<Rightarrow> Some (set_coding (ac3_nPortIndex p) (ac3_words p) (ac3_nChannels p) (ac3_nSampleRate p) s)
      | AudFlac p \<Rightarrow> Some (set_coding (ac3_nPortIndex p) (ac3_words p) (ac3_nChannels p) (ac3_nSampleRate p) s)
      | AudRa p \<Rightarrow> Some (set_coding (ra_nPortIndex p) (ra_words p) (ra_nChannels p) (ra_nSamplingRate p) s)
      | AudWma p \<Rightarrow> Some (set_coding (wma_nPortIndex p) (wma_words p) (ucast (wma_nChannels p)) (wma_nSamplingRate p) s)
      | AudMp3 p \<Rightarrow> Some (set_coding (mp3_nPortIndex p) (mp3_words p) (mp3_nChannels p) (mp3_nSampleRate p) s)
      | AudExtradata p \<Rightarrow> AudSetParameter_Extradata p s
      | AudPortDefinition d \<Rightarrow> Some (NX_BaseSetParameter d s)
      | _ \<Rightarrow> Some (OMX_ErrorUnsupportedIndex, s))"

section \<open>Properties\<close>

text \<open>The struct of a coding, as the datatype of the parameters has it.\<close>

definition coding_port :: "aud_param \<Rightarrow> OMX_U32 option" where
  "coding_port par = (case par of AudAc3 p \<Rightarrow> Some (ac3_nPortIndex p) | AudDts p \<Rightarrow> Some (ac3_nPortIndex p)
     | AudFlac p \<Rightarrow> Some (ac3_nPortIndex p) | AudRa p \<Rightarrow> Some (ra_nPortIndex p) | AudWma p \<Rightarrow> Some (wma_nPortIndex p)
     | AudMp3 p \<Rightarrow> Some (mp3_nPortIndex p) | _ \<Rightarrow> None)"

definition coding_channels :: "aud_param \<Rightarrow> OMX_U32" where
  "coding_channels par = (case par of AudAc3 p \<Rightarrow> ac3_nChannels p | AudDts p \<Rightarrow> ac3_nChannels p
     | AudFlac p \<Rightarrow> ac3_nChannels p | AudRa p \<Rightarrow> ra_nChannels p | AudWma p \<Rightarrow> ucast (wma_nChannels p)
     | AudMp3 p \<Rightarrow> mp3_nChannels p | _ \<Rightarrow> 0)"

definition coding_rate :: "aud_param \<Rightarrow> OMX_U32" where
  "coding_rate par = (case par of AudAc3 p \<Rightarrow> ac3_nSampleRate p | AudDts p \<Rightarrow> ac3_nSampleRate p
     | AudFlac p \<Rightarrow> ac3_nSampleRate p | AudRa p \<Rightarrow> ra_nSamplingRate p | AudWma p \<Rightarrow> wma_nSamplingRate p
     | AudMp3 p \<Rightarrow> mp3_nSampleRate p | _ \<Rightarrow> 0)"

text \<open>
  C36: The parameters of a coding that a client sets on the input port are what it reads back, all of the struct,
  whatever was in the union before; and the output port then announces at most two channels, and the rate of
  the input. Neither depends on the role, nor does any of this select the coding: the codec is chosen by the
  role alone.
\<close>

theorem audio_params_round_trip:
  assumes "coding_port par = Some 0" and "NX_FFAudDec_SetParameter par s = Some (e, t)" and "pcm_nPortIndex q = 1"
  shows "e = OMX_ErrorNone \<and> NX_FFAudDec_GetParameter par t = (OMX_ErrorNone, par) \<and>
     NX_FFAudDec_GetParameter (AudPcm q) t = (OMX_ErrorNone, AudPcm ((outPortType s)
        \<lparr>pcm_nChannels := min 2 (coding_channels par), pcm_nSamplingRate := coding_rate par\<rparr>)) \<and>
     inCodingType t = inCodingType s \<and> compRole t = compRole s"
  using assms
  by (cases par) (auto simp: coding_port_def coding_channels_def coding_rate_def NX_FFAudDec_SetParameter_def
      NX_FFAudDec_GetParameter_def set_coding_def put_union_def min_def not_less)

theorem audio_params_round_trip_witness:
  "\<exists>t. NX_FFAudDec_SetParameter (AudAc3 \<lparr>ac3_nSize = 24, ac3_nVersion = 1, ac3_nPortIndex = 0, ac3_nChannels = 6,
       ac3_nBitRate = 448000, ac3_nSampleRate = 48000\<rparr>) zero_auddec = Some (OMX_ErrorNone, t) \<and>
     NX_FFAudDec_GetParameter (AudPcm (zero_pcm\<lparr>pcm_nPortIndex := 1\<rparr>)) t =
       (OMX_ErrorNone, AudPcm (zero_pcm\<lparr>pcm_nChannels := 2, pcm_nSamplingRate := 48000\<rparr>))"
proof -
  let ?p = "AudAc3 \<lparr>ac3_nSize = 24, ac3_nVersion = 1, ac3_nPortIndex = 0, ac3_nChannels = 6,
       ac3_nBitRate = 448000, ac3_nSampleRate = 48000\<rparr>"
  obtain e t where t: "NX_FFAudDec_SetParameter ?p zero_auddec = Some (e, t)"
    by (simp add: NX_FFAudDec_SetParameter_def set_coding_def)
  have "coding_port ?p = Some 0" by (simp add: coding_port_def)
  from audio_params_round_trip[OF this t, of "zero_pcm\<lparr>pcm_nPortIndex := 1\<rparr>"] t show ?thesis
    by (auto simp: zero_pcm_def zero_auddec_def coding_channels_def coding_rate_def min_def)
qed

text \<open>The union is shared: the parameters of another coding are lost when one is set.\<close>

theorem codings_share_a_union:
  assumes "mp3_nPortIndex m = 0" and "ac3_nPortIndex a = 0"
  shows "NX_FFAudDec_SetParameter (AudMp3 m) s = Some (OMX_ErrorNone, t) \<Longrightarrow>
     NX_FFAudDec_GetParameter (AudAc3 a) t = (OMX_ErrorNone, AudAc3 \<lparr>ac3_nSize = mp3_nSize m, ac3_nVersion = mp3_nVersion m,
       ac3_nPortIndex = 0, ac3_nChannels = mp3_nChannels m, ac3_nBitRate = mp3_nBitRate m, ac3_nSampleRate = mp3_nSampleRate m\<rparr>)"
  using assms by (auto simp: NX_FFAudDec_SetParameter_def NX_FFAudDec_GetParameter_def set_coding_def put_union_def
      mp3_words_def ac3_of_words_def)

end
