(* ===== verification/AudDecBuf.thy ===== *)
theory AudDecBuf
  imports AudDecParam
begin

text \<open>
  The buffer entry points of the audio decoder: \<open>NX_FFAudDec_UseBuffer\<close>, \<open>NX_FFAudDec_AllocateBuffer\<close>,
  \<open>NX_FFAudDec_FreeBuffer\<close>, \<open>NX_FFAudDec_EmptyThisBuffer\<close> and \<open>NX_FFAudDec_FillThisBuffer\<close>, and what they leave
  alone.
\<close>

section \<open>Registering buffers\<close>

text \<open>\<open>p\<close> is the header block that \<open>NxMalloc\<close> returns; the second result is \<open>*ppBufferHdr\<close> if written.\<close>

definition NX_FFAudDec_UseBuffer ::
  "ptr \<Rightarrow> OMX_U32 \<Rightarrow> ptr \<Rightarrow> OMX_U32 \<Rightarrow> ptr \<Rightarrow> NX_AUDDEC \<Rightarrow> (OMX_ERRORTYPE \<times> ptr option \<times> NX_AUDDEC) option" where
  "NX_FFAudDec_UseBuffer p port app sz buf s =
     (if unat port \<ge> nNumPort s then Some (OMX_ErrorBadPortIndex, None, s)
      else if OMX_StateLoaded \<noteq> eCurState s \<or> OMX_StateIdle \<noteq> eNewState s then
        Some (OMX_ErrorIncorrectStateTransition, None, s)
      else
        (let k = port_of port in
         if nBufferSize (pPort s k) > sz then Some (OMX_ErrorBadParameter, None, s)
         else do {
           slot \<leftarrow> find_slot (\<lambda>q. q = NULL) (port_bufs k s) (unat (nBufferCountActual (pPort s k)));
           case slot of
             None \<Rightarrow> Some (OMX_ErrorInsufficientResources, None, s)
           | Some i \<Rightarrow>
               (let s = set_port_buf k i p s in
                if p = NULL then Some (OMX_ErrorInsufficientResources, None, s)
                else do {
                  let s = s\<lparr>hdr_mem := (hdr_mem s)(p := Some (new_hdr k buf sz app s))\<rparr>;
                  s \<leftarrow> buffer_added NX_BUFHEADER_TYPE_USEBUFFER k s;
                  Some (OMX_ErrorNone, Some p, s) }) }))"

text \<open>\<open>p\<close> and \<open>pb\<close> are the header and the data block that \<open>NxMalloc\<close> returns.\<close>

definition NX_FFAudDec_AllocateBuffer ::
  "av_lib \<Rightarrow> ptr \<Rightarrow> ptr \<Rightarrow> OMX_U32 \<Rightarrow> ptr \<Rightarrow> OMX_U32 \<Rightarrow> NX_AUDDEC \<Rightarrow> (OMX_ERRORTYPE \<times> ptr option \<times> NX_AUDDEC) option" where
  "NX_FFAudDec_AllocateBuffer lib p pb port app sz s =
     (if unat port \<ge> nNumPort s then Some (OMX_ErrorBadPortIndex, None, s)
      else if OMX_StateLoaded \<noteq> eCurState s \<or> OMX_StateIdle \<noteq> eNewState s then
        Some (OMX_ErrorIncorrectStateTransition, None, s)
      else
        (let k = port_of port in
         if nBufferSize (pPort s k) > sz then Some (OMX_ErrorBadParameter, None, s)
         else do {
           slot \<leftarrow> find_slot (\<lambda>q. q = NULL) (port_bufs k s) (unat (nBufferCountActual (pPort s k)));
           case slot of
             None \<Rightarrow> do {
               b0 \<leftarrow> arr (port_bufs k s) 0;
               Some (OMX_ErrorInsufficientResources, Some b0, upd_port k (\<lambda>q. q\<lparr>bPopulated := True\<rparr>) s) }
           | Some i \<Rightarrow>
               (let s = set_port_buf k i p s in
                if p = NULL then Some (OMX_ErrorInsufficientResources, None, s)
                else
                  (let s = s\<lparr>hdr_mem := (hdr_mem s)(p := Some (zero_hdr\<lparr>hdr_nSize := sizeof_hdr,
                             hdr_nVersion := NX_OMXSetVersion, pBuffer := pb\<rparr>))\<rparr>
                   in if pb = NULL then Some (OMX_ErrorInsufficientResources, None, s)
                   else do {
                     let s = s\<lparr>hdr_mem := (hdr_mem s)(p := Some (new_hdr k pb sz app s)),
                               byte_mem := (byte_mem s)(pb := Some (map (aud_block_junk lib) [0..<unat sz]))\<rparr>;
                     s \<leftarrow> buffer_added NX_BUFHEADER_TYPE_ALLOCATED k s;
                     Some (OMX_ErrorNone, Some p, s) })) }))"

definition NX_FFAudDec_FreeBuffer :: "OMX_U32 \<Rightarrow> ptr \<Rightarrow> NX_AUDDEC \<Rightarrow> (OMX_ERRORTYPE \<times> NX_AUDDEC) option" where
  "NX_FFAudDec_FreeBuffer port b s =
     (if unat port \<ge> nNumPort s then Some (OMX_ErrorBadPortIndex, s)
      else if OMX_StateLoaded \<noteq> eNewState s then Some (OMX_ErrorIncorrectStateTransition, s)
      else
        (let k = port_of port in
         if b = NULL then Some (OMX_ErrorBadParameter, s)
         else do {
           slot \<leftarrow> find_slot (\<lambda>q. b = q) (port_bufs k s) (unat (nBufferCountActual (pPort s k)));
           case slot of
             None \<Rightarrow> Some (OMX_ErrorInsufficientResources, s)
           | Some i \<Rightarrow> do { s \<leftarrow> release_buffer b k i s; Some (OMX_ErrorNone, s) } }))"

section \<open>Queueing buffers\<close>

text \<open>Both calls are the same code on different queues; \<open>k\<close> is the index of the queue.\<close>

definition aud_queue_buffer :: "nat \<Rightarrow> ptr \<Rightarrow> NX_AUDDEC \<Rightarrow> (OMX_ERRORTYPE \<times> NX_AUDDEC) option" where
  "aud_queue_buffer k b s =
     (if \<not> accepts_buffers s then Some (OMX_ErrorIncorrectStateOperation, s)
      else
        (let (rc, q) = NX_PushQueue (pBufQueue s k) b in
         if 0 \<noteq> rc then Some (OMX_ErrorUndefined, s)
         else do {
           m \<leftarrow> post_handle (hBufChangeSem s);
           Some (OMX_ErrorNone, s\<lparr>pBufQueue := (pBufQueue s)(k := q), hBufChangeSem := m\<rparr>) }))"

definition NX_FFAudDec_EmptyThisBuffer :: "ptr \<Rightarrow> NX_AUDDEC \<Rightarrow> (OMX_ERRORTYPE \<times> NX_AUDDEC) option" where
  "NX_FFAudDec_EmptyThisBuffer b s = aud_queue_buffer 0 b s"

definition NX_FFAudDec_FillThisBuffer :: "ptr \<Rightarrow> NX_AUDDEC \<Rightarrow> (OMX_ERRORTYPE \<times> NX_AUDDEC) option" where
  "NX_FFAudDec_FillThisBuffer b s = aud_queue_buffer 1 b s"

section \<open>The shape of the component\<close>

text \<open>
  What the declarations of C fix and what the queues need: two ports, arrays and a union of their length, queues
  that are ring buffers in use.
\<close>

definition aud_wf :: "NX_AUDDEC \<Rightarrow> bool" where
  "aud_wf s \<longleftrightarrow> nNumPort s = FFDEC_AUD_NUM_PORT \<and> eDir (pPort s 0) = OMX_DirInput \<and> eDir (pPort s 1) = OMX_DirOutput \<and>
     length (pInputBuffers s) = NX_OMX_MAX_BUF \<and> length (pOutputBuffers s) = NX_OMX_MAX_BUF \<and>
     length (inPortType s) = IN_PORT_WORDS \<and>
     buf_queue (pBufQueue s 0) \<and> buf_queue (pBufQueue s 1) \<and> queue_inv (cmdQueue s) \<and> bEnabled (cmdQueue s)"

text \<open>
  What the steps leave alone that do not concern the shape, and the control of the threads: the state, the order to
  the buffer thread, and whether there are semaphores.
\<close>

definition ashape where
  "ashape s = (nNumPort s, eDir (pPort s 0), eDir (pPort s 1), length (pInputBuffers s), length (pOutputBuffers s),
     length (inPortType s), pBufQueue s, cmdQueue s)"

definition actl where
  "actl s = (eCurState s, eCmdBufThread s, hBufCtrlSem s = None, hBufChangeSem s = None)"

text \<open>
  \<open>gave eb fb s t\<close>: between the two states exactly these buffers were given back; shape and control are as before.
\<close>

definition gave :: "ptr list \<Rightarrow> ptr list \<Rightarrow> NX_AUDDEC \<Rightarrow> NX_AUDDEC \<Rightarrow> bool" where
  "gave eb fb s t \<longleftrightarrow> ashape t = ashape s \<and> actl t = actl s \<and> ebd_ptrs (trace t) = ebd_ptrs (trace s) @ eb \<and>
     fbd_ptrs (trace t) = fbd_ptrs (trace s) @ fb"

abbreviation quiet_step :: "NX_AUDDEC \<Rightarrow> NX_AUDDEC \<Rightarrow> bool" where "quiet_step \<equiv> gave [] []"

lemma quiet_refl [simp]: "quiet_step s s"
  by (simp add: gave_def)

lemma gave_trans: "gave a b s t \<Longrightarrow> gave c d t u \<Longrightarrow> gave (a @ c) (b @ d) s u"
  by (simp add: gave_def)

lemma quiet_gave: "quiet_step s t \<Longrightarrow> gave a b t u \<Longrightarrow> gave a b s u"
  by (simp add: gave_def)

lemma gave_quiet: "gave a b s t \<Longrightarrow> quiet_step t u \<Longrightarrow> gave a b s u"
  by (simp add: gave_def)

lemma aud_wf_shape: "ashape t = ashape s \<Longrightarrow> aud_wf t = aud_wf s"
  by (simp add: aud_wf_def ashape_def)

text \<open>Fields that are neither shape nor control.\<close>

lemma gave_upd [simp]:
  "gave a b s (t\<lparr>hdr_mem := x1\<rparr>) = gave a b s t" "gave a b s (t\<lparr>byte_mem := x2\<rparr>) = gave a b s t"
  "gave a b s (t\<lparr>cmd_mem := x3\<rparr>) = gave a b s t" "gave a b s (t\<lparr>hBufAllocSem := x4\<rparr>) = gave a b s t"
  "gave a b s (t\<lparr>hSemCmd := x5\<rparr>) = gave a b s t" "gave a b s (t\<lparr>hSemCmdWait := x6\<rparr>) = gave a b s t"
  "gave a b s (t\<lparr>eNewState := x7\<rparr>) = gave a b s t" "gave a b s (t\<lparr>ctx_mem := x8\<rparr>) = gave a b s t"
  "gave a b s (t\<lparr>inCodingType := x9\<rparr>) = gave a b s t" "gave a b s (t\<lparr>outPortType := x10\<rparr>) = gave a b s t"
  "gave a b s (t\<lparr>bAudFlush := x11\<rparr>) = gave a b s t" "gave a b s (t\<lparr>nPrevTimeStamp := x12\<rparr>) = gave a b s t"
  "gave a b s (t\<lparr>nSampleCount := x13\<rparr>) = gave a b s t" "gave a b s (t\<lparr>hAudioCodec := x14\<rparr>) = gave a b s t"
  "gave a b s (t\<lparr>avctx := x15\<rparr>) = gave a b s t" "gave a b s (t\<lparr>pAudExtraData := x16\<rparr>) = gave a b s t"
  "gave a b s (t\<lparr>nAudExtraDataSize := x17\<rparr>) = gave a b s t" "gave a b s (t\<lparr>compRole := x18\<rparr>) = gave a b s t"
  "gave a b s (t\<lparr>cmdId := x19\<rparr>) = gave a b s t" "gave a b s (t\<lparr>pCallbacks := x20\<rparr>) = gave a b s t"
  "gave a b s (t\<lparr>pCallbackData := x21\<rparr>) = gave a b s t" "gave a b s (set_port_buf k i p t) = gave a b s t"
  "gave a b s (free_cmd p t) = gave a b s t" "gave a b s (t\<lparr>eCmdThreadCmd := x22\<rparr>) = gave a b s t"
  by (simp_all add: gave_def ashape_def actl_def set_port_buf_def free_cmd_def)

lemma gave_emit [simp]:
  "ebd_ptrs [ev] = [] \<Longrightarrow> fbd_ptrs [ev] = [] \<Longrightarrow> gave a b s (emit ev t) = gave a b s t"
  by (simp add: gave_def ashape_def actl_def emit_def)

lemma gave_upd_port: "(\<And>p. eDir (f p) = eDir p) \<Longrightarrow> gave a b s (upd_port k f t) = gave a b s t"
  by (auto simp: gave_def ashape_def actl_def upd_port_def)

lemma gave_dir [simp]:
  "gave a b s (upd_port k (\<lambda>p. p\<lparr>nAllocatedBuf := f p\<rparr>) t) = gave a b s t"
  "gave a b s (upd_port k (\<lambda>p. p\<lparr>bPopulated := pop\<rparr>) t) = gave a b s t"
  "gave a b s (upd_port k (\<lambda>p. p\<lparr>bPopulated := pop, eBufferType := ty\<rparr>) t) = gave a b s t"
  by (simp_all add: gave_upd_port)

lemma quiet_added: "buffer_added ty k t = Some u \<Longrightarrow> gave a b s t \<Longrightarrow> gave a b s u"
  by (auto simp: buffer_added_def Let_def split: if_splits bind_splits)

lemma quiet_release: "release_buffer b k i s = Some t \<Longrightarrow> quiet_step s t"
  by (auto simp: release_buffer_def Let_def split: if_splits bind_splits)

lemma quiet_use: "NX_FFAudDec_UseBuffer p port app sz buf s = Some (e, h, t) \<Longrightarrow> quiet_step s t"
  by (auto simp: NX_FFAudDec_UseBuffer_def Let_def split: if_splits bind_splits option.splits dest!: quiet_added)

lemma quiet_allocate: "NX_FFAudDec_AllocateBuffer lib p pb port app sz s = Some (e, h, t) \<Longrightarrow> quiet_step s t"
  by (auto simp: NX_FFAudDec_AllocateBuffer_def Let_def split: if_splits bind_splits option.splits dest!: quiet_added)

lemma quiet_free: "NX_FFAudDec_FreeBuffer port b s = Some (e, t) \<Longrightarrow> quiet_step s t"
  by (auto simp: NX_FFAudDec_FreeBuffer_def Let_def split: if_splits bind_splits option.splits dest!: quiet_release)

lemma quiet_base_set: "NX_BaseSetParameter d s = (e, t) \<Longrightarrow> quiet_step s t"
  by (auto simp: NX_BaseSetParameter_def Let_def gave_upd_port set_video_def set_image_def
      split: if_splits OMX_PORTDOMAINTYPE.splits)

text \<open>The union keeps its length: no struct is longer.\<close>

lemma quiet_set_parameter:
  assumes "NX_FFAudDec_SetParameter par s = Some (e, t)" and "length (inPortType s) = IN_PORT_WORDS"
  shows "quiet_step s t"
proof -
  have "quiet_step s u" if "set_coding port w ch rate s = (e, u)" "length w \<le> IN_PORT_WORDS" for port w ch rate u
    using that assms(2) by (auto simp: set_coding_def gave_def ashape_def actl_def put_union_def split: if_splits)
  with assms(1) show ?thesis
    by (cases par) (auto simp: NX_FFAudDec_SetParameter_def AudSetParameter_Role_def AudSetParameter_Extradata_def
        quiet_base_set split: option.splits bind_splits)
qed

end
