(* ===== verification/AudDecFrame.thy ===== *)
theory AudDecFrame
  imports AudDecBuf "HOL-Library.Sublist"
begin

text \<open>
  The codec of the audio decoder: \<open>openAudioCodec\<close>, \<open>closeAudioCodec\<close>, \<open>AudioConvert\<close> and \<open>decodeAudioFrame\<close> of
  \<open>NX_OMXAudioDecoderFFMpeg.c\<close>.
\<close>

section \<open>The codec context\<close>

text \<open>What \<open>avctx\<close> designates: nothing when it is NULL, or when the context has been freed.\<close>

definition ctx_at :: "NX_AUDDEC \<Rightarrow> AVCodecContext option" where
  "ctx_at s = (if avctx s = NULL then None else ctx_mem s (avctx s))"

definition set_ctx :: "AVCodecContext \<Rightarrow> NX_AUDDEC \<Rightarrow> NX_AUDDEC" where
  "set_ctx c s = s\<lparr>ctx_mem := (ctx_mem s)(avctx s := Some c)\<rparr>"

lemma ctx_at_set [simp]: "avctx s \<noteq> NULL \<Longrightarrow> ctx_at (set_ctx c s) = Some c"
  by (simp add: ctx_at_def set_ctx_def)

section \<open>Opening and closing\<close>

text \<open>
  The codec for the coding, and number of channels, sample rate, block alignment and bit rate, as \<open>int\<close>s; the case
  labels of the \<open>switch\<close> are codings, but for the first, which is the value of FFmpeg's \<open>CODEC_ID_PCM_S16LE\<close>.
\<close>

definition audio_codec :: "NX_AUDDEC \<Rightarrow> (AVCodecID \<times> int \<times> int \<times> int \<times> int) option" where
  "audio_codec s =
     (let coding = inCodingType s; flac = ac3_of_words (inPortType s); ra = ra_of_words (inPortType s);
          wma = wma_of_words (inPortType s); mp3 = mp3_of_words (inPortType s) in
      if coding = 0x10000 then Some (CODEC_ID_PCM_S16LE, sint (ac3_nChannels flac), sint (ac3_nSampleRate flac), 0, 0)
      else if coding = OMX_AUDIO_CodingAC3 then Some (CODEC_ID_AC3, sint (ac3_nChannels flac), sint (ac3_nSampleRate flac), 0, 0)
      else if coding = OMX_AUDIO_CodingDTS then Some (CODEC_ID_DTS, sint (ac3_nChannels flac), sint (ac3_nSampleRate flac), 0, 0)
      else if coding = OMX_AUDIO_CodingFLAC then Some (CODEC_ID_FLAC, sint (ac3_nChannels flac), sint (ac3_nSampleRate flac), 0, 0)
      else if coding = OMX_AUDIO_CodingRA then
        Some (CODEC_ID_COOK, sint (ra_nChannels ra), sint (ra_nSamplingRate ra), uint (ra_nBitsPerFrame ra div 8), 0)
      else if coding = OMX_AUDIO_CodingWMA then
        Some (if wma_eFormat wma = 1 then CODEC_ID_WMAV2 else if wma_eFormat wma = 2 then CODEC_ID_WMAPRO
              else if wma_eFormat wma = 3 then CODEC_ID_WMALOSSLESS else CODEC_ID_NONE,
              uint (wma_nChannels wma), sint (wma_nSamplingRate wma), uint (wma_nBlockAlign wma), sint (wma_nBitRate wma))
      else if coding = OMX_AUDIO_CodingMP3 then
        Some (CODEC_ID_MP3, sint (mp3_nChannels mp3), sint (mp3_nSampleRate mp3), 0, sint (mp3_nBitRate mp3))
      else None)"

text \<open>
  What is stored in the context before it is opened. \<open>lowres\<close> is 0, so that it never exceeds \<open>max_lowres\<close>, which
  is unsigned, and never sets a flag.
\<close>

definition config_ctx ::
  "av_lib \<Rightarrow> ptr \<Rightarrow> AVCodecID \<times> int \<times> int \<times> int \<times> int \<Rightarrow> NX_AUDDEC \<Rightarrow> AVCodecContext \<Rightarrow> AVCodecContext" where
  "config_ctx lib h par s c =
     (case par of (codecId, channels, sampleRate, blockAlign, bitRate) \<Rightarrow>
        (let c = c\<lparr>codec_id := codecId, workaround_bugs := 1, lowres := 0, idct_algo := 0,
               skip_frame := AVDISCARD_DEFAULT lib, skip_idct := AVDISCARD_DEFAULT lib,
               skip_loop_filter := AVDISCARD_DEFAULT lib, error_concealment := 3,
               av_flags := (if codec_capabilities lib h AND CODEC_CAP_DR1 lib \<noteq> 0
                            then av_flags c OR CODEC_FLAG_EMU_EDGE lib else av_flags c),
               av_channels := channels, av_sample_rate := sampleRate,
               request_channels := (if 2 > channels then channels else 2), block_align := blockAlign,
               av_bit_rate := bitRate\<rparr>
         in case pAudExtraData s of
              None \<Rightarrow> c
            | Some bs \<Rightarrow> c\<lparr>av_extradata := Some bs, av_extradata_size := nAudExtraDataSize s\<rparr>))"

definition openAudioCodec :: "av_lib \<Rightarrow> NX_AUDDEC \<Rightarrow> (int \<times> NX_AUDDEC) option" where
  "openAudioCodec lib s =
     (case audio_codec s of
        None \<Rightarrow> Some (-1, s)
      | Some par \<Rightarrow>
          (let h = avcodec_find_decoder lib (fst par); s = s\<lparr>hAudioCodec := h\<rparr> in
           if h = NULL then Some (-1, s)
           else
             (let (p, c) = avcodec_alloc_context3 lib h in
              if p = NULL then None
              else
                (let s = s\<lparr>avctx := p\<rparr>; (rc, c) = avcodec_open2 lib (config_ctx lib h par s c) h
                 in Some (if rc < 0 then -1 else 0, set_ctx c s)))))"

text \<open>The context is freed, and \<open>avctx\<close> keeps its address.\<close>

definition closeAudioCodec :: "NX_AUDDEC \<Rightarrow> NX_AUDDEC option" where
  "closeAudioCodec s =
     (if avctx s \<noteq> NULL then
        (let s = (if pAudExtraData s \<noteq> None then s\<lparr>pAudExtraData := None\<rparr> else s) in do {
           _ \<leftarrow> ctx_mem s (avctx s);
           Some (s\<lparr>ctx_mem := (ctx_mem s)(avctx s := None)\<rparr>) })
      else Some s)"

section \<open>Converting a frame\<close>

definition swr_config :: "av_lib \<Rightarrow> int \<Rightarrow> int \<Rightarrow> int \<Rightarrow> swr_options" where
  "swr_config lib channels fmt rate =
     (let layout = (if 2 < channels then AV_CH_LAYOUT_5POINT1 else if 2 > channels then AV_CH_LAYOUT_MONO else AV_CH_LAYOUT_STEREO)
      in \<lparr>in_channel_layout = layout, in_sample_rate = rate, in_sample_fmt = fmt,
          out_channel_layout = (if 2 > channels then layout else AV_CH_LAYOUT_STEREO), out_sample_rate = rate,
          out_sample_fmt = AV_SAMPLE_FMT_S16 lib\<rparr>)"

text \<open>Bytes written to the block at \<open>p\<close>, \<open>off\<close> bytes behind its start.\<close>

definition write_out :: "ptr \<Rightarrow> int \<Rightarrow> OMX_U8 list \<Rightarrow> NX_AUDDEC \<Rightarrow> NX_AUDDEC option" where
  "write_out p off bs s =
     (if bs = [] then Some s
      else if off < 0 then None
      else do {
        dst \<leftarrow> byte_mem s p;
        dst \<leftarrow> wr dst (nat off) bs;
        Some (s\<lparr>byte_mem := (byte_mem s)(p := Some dst)\<rparr>) })"

text \<open>
  The second result is \<open>*out_linesize\<close>: the caller passes the variable that holds \<open>in_linesize\<close>, which keeps its
  value when the call fails. The context of the resampler is not freed when \<open>swr_init\<close> fails.
\<close>

definition AudioConvert ::
  "av_lib \<Rightarrow> int \<Rightarrow> int \<Rightarrow> int \<Rightarrow> int \<Rightarrow> int \<Rightarrow> OMX_U8 list list \<Rightarrow> ptr \<Rightarrow> int \<Rightarrow> NX_AUDDEC \<Rightarrow> (int \<times> int \<times> NX_AUDDEC) option" where
  "AudioConvert lib src_channels src_nb_samples src_sample_fmt src_sample_rate in_linesize in_buf out off s =
     (if \<not> swr_alloc lib then Some (-1, in_linesize, s)
      else
        (let s = emit SwrAlloc s; swr_ctx = swr_config lib src_channels src_sample_fmt src_sample_rate in
         if swr_init lib swr_ctx < 0 then Some (-1, in_linesize, s)
         else
           (let dst_nb_samples = av_rescale_rnd lib (swr_get_delay lib swr_ctx src_sample_rate + src_nb_samples)
                  src_sample_rate src_sample_rate;
                (dst_nb_samples, bs) = swr_convert lib swr_ctx dst_nb_samples in_buf src_nb_samples
            in do {
              s \<leftarrow> write_out out off bs s;
              Some (0, av_samples_get_buffer_size lib
                         (av_get_channel_layout_nb_channels lib (out_channel_layout swr_ctx)) dst_nb_samples
                         (AV_SAMPLE_FMT_S16 lib), emit SwrFree s) })))"

section \<open>Decoding a packet\<close>

text \<open>The bytes that a packet designates: \<open>n\<close> bytes, \<open>off\<close> bytes behind the start of a block.\<close>

definition packet :: "OMX_U8 list option \<Rightarrow> nat \<Rightarrow> int \<Rightarrow> OMX_U8 list option" where
  "packet b off n = (if n \<le> 0 then Some [] else case b of None \<Rightarrow> None | Some bs \<Rightarrow> rd bs off (nat n))"

text \<open>The size of a decoded frame in the format of the codec.\<close>

definition frame_size :: "av_lib \<Rightarrow> AVCodecContext \<Rightarrow> AVFrame option \<Rightarrow> int" where
  "frame_size lib c f =
     (case f of None \<Rightarrow> 0 | Some f \<Rightarrow> av_samples_get_buffer_size lib (av_channels c) (nb_samples f) (sample_fmt c))"

text \<open>
  The loop over the packet. \<open>off\<close> is how far \<open>inData\<close> has moved, \<open>written\<close> is \<open>writtenSize\<close> and how far
  \<open>outData\<close> has moved. The results are the last \<open>outSize\<close> and \<open>writtenSize\<close>. The result of \<open>AudioConvert\<close>
  is ignored. A decoder that uses no bytes is called again for the same ones: the value \<open>None\<close> stands for a loop
  that never ends, too.
\<close>

partial_function (option) decode_loop ::
  "av_lib \<Rightarrow> ptr \<Rightarrow> ptr \<Rightarrow> nat \<Rightarrow> int \<Rightarrow> int \<Rightarrow> NX_AUDDEC \<Rightarrow> (int \<times> int \<times> NX_AUDDEC) option" where
  "decode_loop lib src out off inSize written s = do {
     c \<leftarrow> ctx_at s;
     pkt \<leftarrow> packet (byte_mem s src) off inSize;
     let (usedByte, frame, c) = avcodec_decode_audio4 lib c pkt inSize;
     let s = set_ctx c s;
     let outSize = frame_size lib c frame;
     if usedByte < 0 then Some (outSize, written, s)
     else do {
       (outSize, s) \<leftarrow> (case frame of
           Some f \<Rightarrow>
             (if outSize > 0 then
                map_option snd (AudioConvert lib (av_channels c) (nb_samples f) (sample_fmt c) (av_sample_rate c) outSize
                  (frame_data f) out written s)
              else Some (outSize, s))
         | None \<Rightarrow> Some (outSize, s));
       let inSize = inSize - usedByte;
       let written = written + outSize;
       if inSize > 0 then decode_loop lib src out (off + nat usedByte) inSize written s
       else Some (outSize, written, s) } }"

text \<open>The time stamp of the output: samples since the last new time stamp count at the rate of the codec.\<close>

definition stamp_out :: "ptr \<Rightarrow> ptr \<Rightarrow> NX_AUDDEC \<Rightarrow> NX_AUDDEC option" where
  "stamp_out pIn pOut s = do {
     hi \<leftarrow> hdr_mem s pIn;
     if nPrevTimeStamp s \<noteq> nTimeStamp hi then do {
       s \<leftarrow> upd_hdr pOut (\<lambda>h. h\<lparr>nTimeStamp := nTimeStamp hi\<rparr>) s;
       Some (s\<lparr>nPrevTimeStamp := nTimeStamp hi, nSampleCount := 0\<rparr>) }
     else do {
       c \<leftarrow> ctx_at s;
       if av_sample_rate c = 0 then None
       else upd_hdr pOut (\<lambda>h. h\<lparr>nTimeStamp := nTimeStamp hi +
              word_of_int ((1000000 * uint (nSampleCount s)) sdiv av_sample_rate c)\<rparr>) s } }"

definition finish_audio :: "ptr \<Rightarrow> ptr \<Rightarrow> int \<Rightarrow> int \<Rightarrow> NX_AUDDEC \<Rightarrow> NX_AUDDEC option" where
  "finish_audio pIn pOut outSize written s = do {
     s \<leftarrow> upd_hdr pOut (\<lambda>h. h\<lparr>nFilledLen := word_of_int written\<rparr>) s;
     hi \<leftarrow> hdr_mem s pIn;
     s \<leftarrow> upd_hdr pOut (\<lambda>h. h\<lparr>nFlags := nFlags hi\<rparr>) s;
     s \<leftarrow> stamp_out pIn pOut s;
     let s = s\<lparr>nSampleCount := nSampleCount s + word_of_int (outSize sdiv 4)\<rparr>;
     s \<leftarrow> call_EmptyBufferDone pIn s;
     call_FillBufferDone pOut s }"

text \<open>The branch for a flush before the packet.\<close>

definition flush_codec :: "av_lib \<Rightarrow> NX_AUDDEC \<Rightarrow> NX_AUDDEC option" where
  "flush_codec lib s =
     (if bAudFlush s then do {
        s \<leftarrow> (if avctx s \<noteq> NULL then do {
                c \<leftarrow> ctx_at s;
                Some (emit (AvFlush (avctx s)) (set_ctx (avcodec_flush_buffers lib c) s)) }
              else Some s);
        Some (s\<lparr>bAudFlush := False, nPrevTimeStamp := -1, nSampleCount := 0\<rparr>) }
      else Some s)"

definition pop_buf :: "nat \<Rightarrow> NX_AUDDEC \<Rightarrow> ptr \<times> NX_AUDDEC" where
  "pop_buf k s =
     (let (rc, e, q) = NX_PopQueue (pBufQueue s k)
      in (case e of None \<Rightarrow> NULL | Some p \<Rightarrow> p, s\<lparr>pBufQueue := (pBufQueue s)(k := q)\<rparr>))"

text \<open>
  The output buffer is taken out of its queue first. When no frame can be allocated, both buffers are in no queue
  any more and have not been given back.
\<close>

definition decodeAudioFrame :: "av_lib \<Rightarrow> NX_AUDDEC \<Rightarrow> (int \<times> NX_AUDDEC) option" where
  "decodeAudioFrame lib s = do {
     s \<leftarrow> flush_codec lib s;
     let (pOut, s) = pop_buf 1 s;
     if pOut = NULL then Some (-1, s)
     else
       (let (pIn, s) = pop_buf 0 s in
        if pIn = NULL then do {
          s \<leftarrow> upd_hdr pOut (\<lambda>h. h\<lparr>nFilledLen := 0\<rparr>) s;
          s \<leftarrow> call_FillBufferDone pOut s;
          Some (0, s) }
        else do {
          hi \<leftarrow> hdr_mem s pIn;
          ho \<leftarrow> hdr_mem s pOut;
          if \<not> avcodec_alloc_frame lib then Some (-1, s)
          else do {
            (outSize, written, s) \<leftarrow> decode_loop lib (pBuffer hi) (pBuffer ho) 0 (sint (nFilledLen hi)) 0 s;
            s \<leftarrow> finish_audio pIn pOut outSize written s;
            Some (0, s) } }) }"

section \<open>What a call does with the buffers\<close>

lemma quiet_set_ctx [simp]: "gave a b s (set_ctx c t) = gave a b s t"
  by (simp add: set_ctx_def)

lemma quiet_open: "openAudioCodec lib s = Some (rc, t) \<Longrightarrow> quiet_step s t"
  by (auto simp: openAudioCodec_def Let_def split: option.splits if_splits prod.splits)

lemma quiet_close: "closeAudioCodec s = Some t \<Longrightarrow> quiet_step s t"
  by (auto simp: closeAudioCodec_def Let_def split: if_splits bind_splits)

lemma quiet_flush_codec: "flush_codec lib s = Some t \<Longrightarrow> quiet_step s t"
  by (auto simp: flush_codec_def split: if_splits bind_splits)

lemma quiet_write_out: "write_out p off bs t = Some u \<Longrightarrow> gave a b s t \<Longrightarrow> gave a b s u"
  by (auto simp: write_out_def split: if_splits bind_splits)

lemma quiet_write_alloc: "write_out p off bs (emit SwrAlloc s) = Some u \<Longrightarrow> quiet_step s u"
  using quiet_write_out[of p off bs "emit SwrAlloc s" u "[]" "[]" s] by simp

lemma quiet_convert: "AudioConvert lib ch nb fmt rate lz inb out off s = Some (rc, n, t) \<Longrightarrow> quiet_step s t"
  by (auto simp: AudioConvert_def Let_def split: if_splits bind_splits prod.splits dest!: quiet_write_alloc)

lemma gave_upd_hdr: "upd_hdr p f t = Some u \<Longrightarrow> gave a b s t \<Longrightarrow> gave a b s u"
  by (auto simp: upd_hdr_def split: bind_splits)

lemma gave_EBD: "call_EmptyBufferDone p s = Some t \<Longrightarrow> gave [p] [] s t"
  by (auto simp: call_EmptyBufferDone_def gave_def ashape_def actl_def emit_def split: bind_splits if_splits)

lemma gave_FBD: "call_FillBufferDone p s = Some t \<Longrightarrow> gave [] [p] s t"
  by (auto simp: call_FillBufferDone_def gave_def ashape_def actl_def emit_def split: bind_splits if_splits)

lemma quiet_stamp: "stamp_out i p s = Some t \<Longrightarrow> quiet_step s t"
  by (auto simp: stamp_out_def split: if_splits bind_splits dest!: gave_upd_hdr[where a = "[]" and b = "[]" and s = s])

lemma gave_finish:
  assumes "finish_audio pIn pOut n w s = Some t"
  shows "gave [pIn] [pOut] s t"
proof -
  from assms obtain s1 s2 s3 s4 f where st: "upd_hdr pOut (\<lambda>h. h\<lparr>nFilledLen := word_of_int w\<rparr>) s = Some s1"
    "upd_hdr pOut f s1 = Some s2" "stamp_out pIn pOut s2 = Some s3"
    "call_EmptyBufferDone pIn (s3\<lparr>nSampleCount := nSampleCount s3 + word_of_int (n sdiv 4)\<rparr>) = Some s4"
    "call_FillBufferDone pOut s4 = Some t"
    unfolding finish_audio_def by (auto split: bind_splits)
  have "quiet_step s s2" using gave_upd_hdr[OF st(2) gave_upd_hdr[OF st(1)]] by simp
  from quiet_gave[OF this quiet_stamp[OF st(3)]] have "quiet_step s (s3\<lparr>nSampleCount := nSampleCount s3 + word_of_int (n sdiv 4)\<rparr>)"
    by simp
  from gave_trans[OF quiet_gave[OF this gave_EBD[OF st(4)]] gave_FBD[OF st(5)]] show ?thesis by simp
qed

lemma quiet_decode_loop:
  assumes "decode_loop lib src out off n w s = Some y"
  shows "quiet_step s (snd (snd y))"
proof (rule decode_loop.raw_induct[where P = "\<lambda>lib src out off n w s y. quiet_step s (snd (snd y))", OF _ assms])
  fix f :: "av_lib \<Rightarrow> ptr \<Rightarrow> ptr \<Rightarrow> nat \<Rightarrow> int \<Rightarrow> int \<Rightarrow> NX_AUDDEC \<Rightarrow> (int \<times> int \<times> NX_AUDDEC) option" and lib src out off n w s y
  assume ih: "\<And>lib src out off n w s y. f lib src out off n w s = Some y \<Longrightarrow> quiet_step s (snd (snd y))"
    and body: "do {
     c \<leftarrow> ctx_at s;
     pkt \<leftarrow> packet (byte_mem s src) off n;
     let (usedByte, frame, c) = avcodec_decode_audio4 lib c pkt n;
     let s = set_ctx c s;
     let outSize = frame_size lib c frame;
     if usedByte < 0 then Some (outSize, w, s)
     else do {
       (outSize, s) \<leftarrow> (case frame of
           Some f \<Rightarrow>
             (if outSize > 0 then
                map_option snd (AudioConvert lib (av_channels c) (nb_samples f) (sample_fmt c) (av_sample_rate c) outSize
                  (frame_data f) out w s)
              else Some (outSize, s))
         | None \<Rightarrow> Some (outSize, s));
       let inSize = n - usedByte;
       let written = w + outSize;
       if inSize > 0 then f lib src out (off + nat usedByte) inSize written s
       else Some (outSize, written, s) } } = Some y"
  obtain c pkt where c: "ctx_at s = Some c" "packet (byte_mem s src) off n = Some pkt" using body by (auto split: bind_splits)
  obtain u fr c' where d: "avcodec_decode_audio4 lib c pkt n = (u, fr, c')" by (metis prod_cases3)
  show "quiet_step s (snd (snd y))"
  proof (cases "u < 0")
    case True
    with body c d show ?thesis by (auto simp: Let_def)
  next
    case False
    with body c d obtain m t where conv: "(case fr of
           Some f \<Rightarrow>
             (if frame_size lib c' fr > 0 then
                map_option snd (AudioConvert lib (av_channels c') (nb_samples f) (sample_fmt c') (av_sample_rate c') (frame_size lib c' fr)
                  (frame_data f) out w (set_ctx c' s))
              else Some (frame_size lib c' fr, set_ctx c' s))
         | None \<Rightarrow> Some (frame_size lib c' fr, set_ctx c' s)) = Some (m, t)"
      and rest: "(if n - u > 0 then f lib src out (off + nat u) (n - u) (w + m) t else Some (m, w + m, t)) = Some y"
      by (auto simp: Let_def split: bind_splits)
    have "quiet_step (set_ctx c' s) t"
      using conv by (auto split: option.splits if_splits intro: quiet_convert)
    moreover have "quiet_step s (set_ctx c' s)" by simp
    ultimately have "quiet_step s t" by (rule quiet_gave[rotated])
    note q = this
    from rest consider "y = (m, w + m, t)" | "f lib src out (off + nat u) (n - u) (w + m) t = Some y"
      by (cases "n - u > 0") simp_all
    then show ?thesis
    proof cases
      case 1
      with q show ?thesis by simp
    next
      case 2
      from quiet_gave[OF q ih[OF 2]] show ?thesis .
    qed
  qed
qed

text \<open>
  The buffers that the component has been given: the input buffers that went back, followed by those that wait, in
  order, and the output buffers that went back or wait.
\<close>

definition aud_in_view :: "NX_AUDDEC \<Rightarrow> ptr list" where
  "aud_in_view s = ebd_ptrs (trace s) @ in_list s"

definition aud_out_view :: "NX_AUDDEC \<Rightarrow> ptr multiset" where
  "aud_out_view s = mset (fbd_ptrs (trace s)) + mset (out_list s)"

text \<open>
  \<open>flows ok is os s t\<close>: the step takes in the input buffers \<open>is\<close> and the output buffers \<open>os\<close>. It gives nothing back
  that it was not given, and no input buffer out of order; if \<open>ok\<close>, and no buffer is \<open>NULL\<close>, it loses none.
\<close>

definition flows :: "bool \<Rightarrow> ptr list \<Rightarrow> ptr list \<Rightarrow> NX_AUDDEC \<Rightarrow> NX_AUDDEC \<Rightarrow> bool" where
  "flows ok is os s t \<longleftrightarrow> (aud_wf s \<longrightarrow> aud_wf t \<and> subseq (aud_in_view t) (aud_in_view s @ is) \<and>
     aud_out_view t \<subseteq># aud_out_view s + mset os \<and>
     (ok \<and> NULL \<notin> set (aud_in_view s @ is) \<and> NULL \<notin># aud_out_view s + mset os \<longrightarrow>
        aud_in_view t = aud_in_view s @ is \<and> aud_out_view t = aud_out_view s + mset os))"

lemma flows_if_wf: "(aud_wf s \<Longrightarrow> flows ok is os s t) \<Longrightarrow> flows ok is os s t"
  by (auto simp: flows_def)

lemma ashape_queues: "ashape t = ashape s \<Longrightarrow> pBufQueue t = pBufQueue s"
  by (simp add: ashape_def)

lemma quiet_views:
  assumes "gave a b s t"
  shows "aud_wf t = aud_wf s" "in_list t = in_list s" "out_list t = out_list s"
    "ebd_ptrs (trace t) = ebd_ptrs (trace s) @ a" "fbd_ptrs (trace t) = fbd_ptrs (trace s) @ b"
  using assms ashape_queues[of t s] aud_wf_shape[of t s] by (simp_all add: gave_def)

lemma flows_quiet: "quiet_step s t \<Longrightarrow> flows ok [] [] s t"
  using quiet_views[of "[]" "[]" s t] by (simp add: flows_def aud_in_view_def aud_out_view_def)

lemma flows_trans:
  assumes "flows ok a b s t" and "flows ok c d t u"
  shows "flows ok (a @ c) (b @ d) s u"
  unfolding flows_def
proof
  assume w: "aud_wf s"
  with assms(1) have t: "aud_wf t" "subseq (aud_in_view t) (aud_in_view s @ a)" "aud_out_view t \<subseteq># aud_out_view s + mset b"
    "ok \<and> NULL \<notin> set (aud_in_view s @ a) \<and> NULL \<notin># aud_out_view s + mset b \<longrightarrow>
       aud_in_view t = aud_in_view s @ a \<and> aud_out_view t = aud_out_view s + mset b"
    unfolding flows_def by blast+
  with assms(2) have u: "aud_wf u" "subseq (aud_in_view u) (aud_in_view t @ c)" "aud_out_view u \<subseteq># aud_out_view t + mset d"
    "ok \<and> NULL \<notin> set (aud_in_view t @ c) \<and> NULL \<notin># aud_out_view t + mset d \<longrightarrow>
       aud_in_view u = aud_in_view t @ c \<and> aud_out_view u = aud_out_view t + mset d"
    unfolding flows_def by blast+
  have "subseq (aud_in_view u) ((aud_in_view s @ a) @ c)"
    using u(2) t(2) by (meson list_emb_append_mono subseq_order.order_refl subseq_order.order_trans)
  moreover have "aud_out_view u \<subseteq># (aud_out_view s + mset b) + mset d"
    using u(3) t(3) by (meson subset_mset.add_right_mono subset_mset.order_trans)
  ultimately show "aud_wf u \<and> subseq (aud_in_view u) (aud_in_view s @ a @ c) \<and>
     aud_out_view u \<subseteq># aud_out_view s + mset (b @ d) \<and>
     (ok \<and> NULL \<notin> set (aud_in_view s @ a @ c) \<and> NULL \<notin># aud_out_view s + mset (b @ d) \<longrightarrow>
        aud_in_view u = aud_in_view s @ a @ c \<and> aud_out_view u = aud_out_view s + mset (b @ d))"
    using u(1) t(4) u(4) by (auto simp: ac_simps)
qed

lemma flows_two: "flows ok [] [] s t \<Longrightarrow> flows ok [] [] t u \<Longrightarrow> flows ok [] [] s u"
  using flows_trans[of ok "[]" "[]" s t "[]" "[]" u] by simp

lemma flows_then_quiet: "flows ok is os s t \<Longrightarrow> quiet_step t u \<Longrightarrow> flows ok is os s u"
  using flows_trans[OF _ flows_quiet, of ok "is" os s t u] by simp

lemma quiet_then_flows: "quiet_step s t \<Longrightarrow> flows ok is os t u \<Longrightarrow> flows ok is os s u"
  using flows_trans[OF flows_quiet, of s t ok "is" os u] by simp

text \<open>Taking a buffer out of a queue.\<close>

lemma pop_buf_cases:
  assumes "pop_buf k s = (p, t)" and "aud_wf s" and "k < 2"
  obtains "queue_list (pBufQueue s k) = []" "p = NULL" "t = s"
  | q where "queue_list (pBufQueue s k) = p # queue_list q" "t = s\<lparr>pBufQueue := (pBufQueue s)(k := q)\<rparr>" "aud_wf t" "buf_queue q"
proof -
  obtain rc e q where pop: "NX_PopQueue (pBufQueue s k) = (rc, e, q)" by (metis prod_cases3)
  have w: "buf_queue (pBufQueue s k)" using assms(2,3) by (auto simp: aud_wf_def less_2_cases_iff)
  have t: "p = (case e of None \<Rightarrow> NULL | Some x \<Rightarrow> x)" "t = s\<lparr>pBufQueue := (pBufQueue s)(k := q)\<rparr>"
    using assms(1) pop by (auto simp: pop_buf_def)
  have q: "buf_queue q" using buf_queue_popped[OF pop w] .
  then have "aud_wf t" using t(2) assms(2,3) by (auto simp: aud_wf_def less_2_cases_iff)
  show ?thesis
    using buf_pop_cases[OF pop w]
  proof cases
    case 1
    with t that(1) show ?thesis by simp
  next
    case (2 x)
    with t q \<open>aud_wf t\<close> that(2)[of q] show ?thesis by simp
  qed
qed

lemma pop_buf_frame:
  assumes "pop_buf k s = (p, t)"
  shows "trace t = trace s" "actl t = actl s" "hdr_mem t = hdr_mem s" "\<And>j. j \<noteq> k \<Longrightarrow> pBufQueue t j = pBufQueue s j"
  using assms by (auto simp: pop_buf_def actl_def split: prod.splits)

lemma subseq_skip [simp]: "subseq (xs @ ys) (xs @ y # ys)"
  by (rule list_emb_append_mono[OF subseq_order.order_refl list_emb_Cons[OF subseq_order.order_refl]])

text \<open>
  From \<open>s\<close> to \<open>t\<close> the heads of the queues went: \<open>lost\<close>, or \<open>given\<close> back.
\<close>

lemma flows_lost_out:
  assumes "out_list s = p # out_list t" and "in_list t = in_list s" and "trace t = trace s" and "aud_wf t" and "\<not> ok \<or> p = NULL"
  shows "flows ok [] [] s t"
  using assms by (auto simp: flows_def aud_in_view_def aud_out_view_def)

lemma flows_lost_both:
  assumes "in_list s = p # in_list t" and "out_list s = q # out_list t" and "trace t = trace s" and "aud_wf t" and "\<not> ok"
  shows "flows ok [] [] s t"
  using assms by (simp add: flows_def aud_in_view_def aud_out_view_def)

lemma flows_lost_in_given_out:
  assumes "in_list s = in_list t \<or> in_list s = NULL # in_list t" and "out_list s = q # out_list t" and "ebd_ptrs (trace t) = ebd_ptrs (trace s)"
    and "fbd_ptrs (trace t) = fbd_ptrs (trace s) @ [q]" and "aud_wf t"
  shows "flows ok [] [] s t"
  using assms by (elim disjE) (simp_all add: flows_def aud_in_view_def aud_out_view_def)

lemma flows_given_both:
  assumes "in_list s = p # in_list t" and "out_list s = q # out_list t" and "ebd_ptrs (trace t) = ebd_ptrs (trace s) @ [p]"
    and "fbd_ptrs (trace t) = fbd_ptrs (trace s) @ [q]" and "aud_wf t"
  shows "flows ok [] [] s t"
  using assms by (simp add: flows_def aud_in_view_def aud_out_view_def)

text \<open>A call of \<open>decodeAudioFrame\<close> loses buffers only when no frame can be allocated, or with a buffer \<open>NULL\<close>.\<close>

lemma flows_decode:
  assumes "decodeAudioFrame lib s = Some (rc, t)"
  shows "flows (avcodec_alloc_frame lib) [] [] s t"
proof -
  from assms obtain s0 where s0: "flush_codec lib s = Some s0" by (auto simp: decodeAudioFrame_def split: bind_splits)
  obtain pOut s1 where p1: "pop_buf 1 s0 = (pOut, s1)" by fastforce
  have k: "1 < (2::nat)" "0 < (2::nat)" by simp_all
  have "flows (avcodec_alloc_frame lib) [] [] s0 t"
  proof (rule flows_if_wf)
    assume w: "aud_wf s0"
    show "flows (avcodec_alloc_frame lib) [] [] s0 t"
    proof (cases "pOut = NULL")
      case True
      with assms s0 p1 have t: "t = s1" by (auto simp: decodeAudioFrame_def)
      show ?thesis
        using pop_buf_cases[OF p1 w k(1)]
      proof cases
        case 1
        with t show ?thesis by (simp add: flows_quiet)
      next
        case (2 q)
        with t True show ?thesis by (intro flows_lost_out[of s0 NULL]) simp_all
      qed
    next
      case out: False
      obtain q1 where q1: "out_list s0 = pOut # queue_list q1" "s1 = s0\<lparr>pBufQueue := (pBufQueue s0)(1 := q1)\<rparr>" "aud_wf s1"
        using pop_buf_cases[OF p1 w k(1)] out by auto
      obtain pIn s2 where p2: "pop_buf 0 s1 = (pIn, s2)" by fastforce
      show ?thesis
      proof (cases "pIn = NULL")
        case True
        with assms s0 p1 p2 out obtain s3 where "upd_hdr pOut (\<lambda>h. h\<lparr>nFilledLen := 0\<rparr>) s2 = Some s3"
          "call_FillBufferDone pOut s3 = Some t"
          by (auto simp: decodeAudioFrame_def split: bind_splits)
        then have "gave [] [pOut] s2 t" using quiet_gave[OF gave_upd_hdr gave_FBD] by simp
        note v = quiet_views[OF this]
        show ?thesis
          using pop_buf_cases[OF p2 q1(3) k(2)]
        proof cases
          case 1
          with v q1 show ?thesis by (intro flows_lost_in_given_out[of s0 t pOut]) simp_all
        next
          case (2 q)
          with v q1 True show ?thesis by (intro flows_lost_in_given_out[of s0 t pOut]) simp_all
        qed
      next
        case inp: False
        obtain q2 where q2: "in_list s1 = pIn # queue_list q2" "s2 = s1\<lparr>pBufQueue := (pBufQueue s1)(0 := q2)\<rparr>" "aud_wf s2"
          using pop_buf_cases[OF p2 q1(3) k(2)] inp by auto
        have l: "in_list s0 = pIn # in_list s2" "out_list s0 = pOut # out_list s2" "trace s2 = trace s0"
          using q1 q2 by auto
        consider "\<not> avcodec_alloc_frame lib" "t = s2" | "avcodec_alloc_frame lib" "gave [pIn] [pOut] s2 t"
        proof (cases "avcodec_alloc_frame lib")
          case True
          with assms s0 p1 p2 out inp obtain hi where hi: "hdr_mem s2 pIn = Some hi" by (cases "hdr_mem s2 pIn") (simp_all add: decodeAudioFrame_def)
          with True assms s0 p1 p2 out inp obtain ho where ho: "hdr_mem s2 pOut = Some ho" by (cases "hdr_mem s2 pOut") (simp_all add: decodeAudioFrame_def)
          from True assms s0 p1 p2 out inp hi ho obtain y where
            "decode_loop lib (pBuffer hi) (pBuffer ho) 0 (sint (nFilledLen hi)) 0 s2 = Some y"
            "finish_audio pIn pOut (fst y) (fst (snd y)) (snd (snd y)) = Some t"
            by (cases "decode_loop lib (pBuffer hi) (pBuffer ho) 0 (sint (nFilledLen hi)) 0 s2")
              (auto simp: decodeAudioFrame_def split: bind_splits)
          then have "gave [pIn] [pOut] s2 t" using quiet_gave[OF quiet_decode_loop gave_finish] by blast
          with True that(2) show ?thesis by blast
        next
          case False
          with assms s0 p1 p2 out inp that(1) show ?thesis by (auto simp: decodeAudioFrame_def split: bind_splits)
        qed
        then show ?thesis
        proof cases
          case 1
          with l q2(3) show ?thesis by (intro flows_lost_both[of s0 pIn t pOut]) simp_all
        next
          case 2
          note v = quiet_views[OF 2(2)]
          from v l q2(3) show ?thesis by (intro flows_given_both[of s0 pIn t pOut]) simp_all
        qed
      qed
    qed
  qed
  with quiet_flush_codec[OF s0] show ?thesis by (rule quiet_then_flows)
qed

end
