(* ===== verification/AudDecPacket.thy ===== *)
theory AudDecPacket
  imports AudDecFrame
begin

text \<open>
  What \<open>decodeAudioFrame\<close> computes (\<open>NX_OMXAudioDecoderFFMpeg.c\<close>): a reference for the decoding of a packet, on
  lists and without memory, which the loop over the packet implements, its termination, the time stamps, and
  the life of the codec context.
\<close>

section \<open>A reference for the packet\<close>

text \<open>What becomes of a decoded frame: the size that is counted, and the bytes that are written.\<close>

definition converted :: "av_lib \<Rightarrow> AVCodecContext \<Rightarrow> AVFrame option \<Rightarrow> int \<times> OMX_U8 list" where
  "converted lib c fr =
     (case fr of
        None \<Rightarrow> (0, [])
      | Some f \<Rightarrow>
          (let n = frame_size lib c fr; opt = swr_config lib (av_channels c) (sample_fmt c) (av_sample_rate c); rate = av_sample_rate c in
           if n \<le> 0 \<or> \<not> swr_alloc lib \<or> swr_init lib opt < 0 then (n, [])
           else
             (let (m, bs) = swr_convert lib opt (av_rescale_rnd lib (swr_get_delay lib opt rate + nb_samples f) rate rate)
                    (frame_data f) (nb_samples f)
              in (av_samples_get_buffer_size lib (av_get_channel_layout_nb_channels lib (out_channel_layout opt)) m
                    (AV_SAMPLE_FMT_S16 lib), bs))))"

text \<open>
  \<open>decodes lib c d us n c'\<close>: the codec in the state \<open>c\<close> takes the packet \<open>d\<close> in several calls, each with what the
  calls before it have left, which yield the units \<open>us\<close>; \<open>n\<close> is the size that the last call counts, and \<open>c'\<close>
  the state after it.
\<close>

inductive decodes :: "av_lib \<Rightarrow> AVCodecContext \<Rightarrow> OMX_U8 list \<Rightarrow> (int \<times> OMX_U8 list) list \<Rightarrow> int \<Rightarrow> AVCodecContext \<Rightarrow> bool"
  for lib where
  broken: "avcodec_decode_audio4 lib c d (int (length d)) = (u, fr, c') \<Longrightarrow> u < 0 \<Longrightarrow> decodes lib c d [] (frame_size lib c' fr) c'"
| final: "avcodec_decode_audio4 lib c d (int (length d)) = (u, fr, c') \<Longrightarrow> 0 \<le> u \<Longrightarrow> int (length d) \<le> u \<Longrightarrow>
     decodes lib c d [converted lib c' fr] (fst (converted lib c' fr)) c'"
| further: "avcodec_decode_audio4 lib c d (int (length d)) = (u, fr, c') \<Longrightarrow> 0 \<le> u \<Longrightarrow> u < int (length d) \<Longrightarrow>
     decodes lib c' (drop (nat u) d) us n c'' \<Longrightarrow> decodes lib c d (converted lib c' fr # us) n c''"

text \<open>The conversion wrote what it counted, and all of it has room.\<close>

definition fits :: "(int \<times> OMX_U8 list) list \<Rightarrow> nat \<Rightarrow> bool" where
  "fits us room \<longleftrightarrow> (\<forall>x\<in>set us. fst x = int (length (snd x))) \<and> length (concat (map snd us)) \<le> room"

lemma fits_Cons: "fits (x # us) room \<Longrightarrow> fst x = int (length (snd x)) \<and> length (snd x) \<le> room \<and> fits us (room - length (snd x))"
  by (auto simp: fits_def)

text \<open>The state after a part of the packet: the codec, the output block, and the calls of the resampler.\<close>

definition decoded :: "AVCodecContext \<Rightarrow> ptr \<Rightarrow> OMX_U8 list \<Rightarrow> omx_call list \<Rightarrow> NX_AUDDEC \<Rightarrow> NX_AUDDEC" where
  "decoded c out dst es s = s\<lparr>ctx_mem := (ctx_mem s)(avctx s := Some c), byte_mem := (byte_mem s)(out := Some dst), trace := trace s @ es\<rparr>"

lemma decoded_twice: "decoded c' out dst' es' (decoded c out dst es s) = decoded c' out dst' (es @ es') s"
  by (simp add: decoded_def)

lemma decoded_frame [simp]:
  "avctx (decoded c out dst es s) = avctx s" "hdr_mem (decoded c out dst es s) = hdr_mem s"
  "pBufQueue (decoded c out dst es s) = pBufQueue s" "pCallbacks (decoded c out dst es s) = pCallbacks s"
  "nPrevTimeStamp (decoded c out dst es s) = nPrevTimeStamp s" "nSampleCount (decoded c out dst es s) = nSampleCount s"
  "trace (decoded c out dst es s) = trace s @ es" "byte_mem (decoded c out dst es s) = (byte_mem s)(out := Some dst)"
  by (simp_all add: decoded_def)

lemma ctx_at_decoded [simp]: "avctx s \<noteq> NULL \<Longrightarrow> ctx_at (decoded c out dst es s) = Some c"
  by (simp add: ctx_at_def decoded_def)

text \<open>One conversion, in the body of the loop.\<close>

definition convert_step :: "av_lib \<Rightarrow> AVCodecContext \<Rightarrow> AVFrame option \<Rightarrow> ptr \<Rightarrow> int \<Rightarrow> NX_AUDDEC \<Rightarrow> (int \<times> NX_AUDDEC) option" where
  "convert_step lib c fr out w s =
     (case fr of
        Some f \<Rightarrow>
          (if frame_size lib c fr > 0 then
             map_option snd (AudioConvert lib (av_channels c) (nb_samples f) (sample_fmt c) (av_sample_rate c) (frame_size lib c fr)
               (frame_data f) out w s)
           else Some (frame_size lib c fr, s))
      | None \<Rightarrow> Some (frame_size lib c fr, s))"

lemma decode_loop_body:
  assumes "ctx_at s = Some c" and "packet (byte_mem s src) off n = Some pkt" and "avcodec_decode_audio4 lib c pkt n = (u, fr, c')"
  shows "decode_loop lib src out off n w s =
     (if u < 0 then Some (frame_size lib c' fr, w, set_ctx c' s)
      else do {
        (m, t) \<leftarrow> convert_step lib c' fr out w (set_ctx c' s);
        if n - u > 0 then decode_loop lib src out (off + nat u) (n - u) (w + m) t else Some (m, w + m, t) })"
  using assms by (subst decode_loop.simps) (simp add: convert_step_def Let_def)

lemma wr_at: "w + length bs \<le> length dst \<Longrightarrow> wr dst w bs = Some (take w dst @ bs @ drop (w + length bs) dst)"
  by (simp add: wr_def)

text \<open>A conversion that fits writes its unit behind what was written.\<close>

lemma convert_step_fits:
  assumes "fst (converted lib c fr) = int (length (snd (converted lib c fr)))" and "w + length (snd (converted lib c fr)) \<le> length dst"
    and "byte_mem s out = Some dst" and "bs = snd (converted lib c fr)" and "avctx s \<noteq> NULL"
  shows "\<exists>es. convert_step lib c fr out (int w) (set_ctx c s) =
      Some (int (length bs), decoded c out (take w dst @ bs @ drop (w + length bs) dst) es s) \<and> set es \<subseteq> {SwrAlloc, SwrFree}"
proof -
  have same: "set_ctx c s = decoded c out dst [] s" using assms(3) by (simp add: set_ctx_def decoded_def fun_upd_idem)
  have none: "\<exists>es. convert_step lib c fr out (int w) (set_ctx c s) =
      Some (int (length bs), decoded c out (take w dst @ bs @ drop (w + length bs) dst) es s) \<and> set es \<subseteq> {SwrAlloc, SwrFree}"
    if "convert_step lib c fr out (int w) (set_ctx c s) = Some (fst (converted lib c fr), u)" "bs = []" "u = decoded c out dst es s" "set es \<subseteq> {SwrAlloc, SwrFree}" for u es
    using that assms(1,4) by (intro exI[of _ es]) simp
  show ?thesis
  proof (cases fr)
    case None
    with none[of _ "[]"] assms(4) same show ?thesis by (simp add: converted_def convert_step_def frame_size_def)
  next
    case (Some f)
    define n where "n = frame_size lib c fr"
    define opt where "opt = swr_config lib (av_channels c) (sample_fmt c) (av_sample_rate c)"
    show ?thesis
    proof (cases "n \<le> 0 \<or> \<not> swr_alloc lib \<or> swr_init lib opt < 0")
      case True
      then have cv: "converted lib c fr = (n, [])" by (simp add: converted_def Some n_def opt_def)
      with assms(1) have "n = 0" by simp
      then have "convert_step lib c fr out (int w) (set_ctx c s) = Some (0, set_ctx c s)"
        by (simp add: convert_step_def Some n_def)
      with none[of _ "[]"] assms(4) cv same \<open>n = 0\<close> show ?thesis by simp
    next
      case False
      obtain m x where sw: "swr_convert lib opt (av_rescale_rnd lib (swr_get_delay lib opt (av_sample_rate c) + nb_samples f)
          (av_sample_rate c) (av_sample_rate c)) (frame_data f) (nb_samples f) = (m, x)" by fastforce
      define k where "k = av_samples_get_buffer_size lib (av_get_channel_layout_nb_channels lib (out_channel_layout opt)) m (AV_SAMPLE_FMT_S16 lib)"
      have cv: "converted lib c fr = (k, x)"
        using False sw by (simp add: converted_def Some n_def[unfolded Some] opt_def k_def)
      with assms have x: "bs = x" "k = int (length x)" "w + length x \<le> length dst" by simp_all
      let ?d = "take w dst @ x @ drop (w + length x) dst"
      have "write_out out (int w) x (emit SwrAlloc (set_ctx c s)) = Some (decoded c out ?d [SwrAlloc] s)"
      proof (cases "x = []")
        case True
        then show ?thesis using assms(3) by (simp add: write_out_def emit_def same) (simp add: decoded_def)
      next
        case False
        with assms(3) x(3) show ?thesis by (simp add: write_out_def wr_at emit_def set_ctx_def decoded_def)
      qed
      then have "convert_step lib c fr out (int w) (set_ctx c s) = Some (k, emit SwrFree (decoded c out ?d [SwrAlloc] s))"
        using False sw by (simp add: convert_step_def Some n_def[unfolded Some] AudioConvert_def opt_def[symmetric] k_def)
      moreover have "emit SwrFree (decoded c out ?d [SwrAlloc] s) = decoded c out ?d [SwrAlloc, SwrFree] s"
        by (simp add: decoded_def emit_def)
      ultimately show ?thesis using x by (intro exI[of _ "[SwrAlloc, SwrFree]"]) simp
    qed
  qed
qed

text \<open>The packet lies in its block.\<close>

definition lies_at :: "OMX_U8 list \<Rightarrow> nat \<Rightarrow> OMX_U8 list option \<Rightarrow> bool" where
  "lies_at d off b \<longleftrightarrow> packet b off (int (length d)) = Some d"

lemma lies_at_drop:
  assumes "lies_at d off b" and "k < length d"
  shows "lies_at (drop k d) (off + k) b"
proof -
  from assms obtain bs where b: "b = Some bs" "off + length d \<le> length bs" "take (length d) (drop off bs) = d"
    by (auto simp: lies_at_def packet_def rd_def split: if_splits option.splits)
  have "drop k d = take (length d - k) (drop (off + k) bs)" by (subst b(3)[symmetric]) (simp add: drop_take ac_simps)
  moreover have "int (length d) - int k = int (length d - k)" using assms(2) by simp
  ultimately show ?thesis using b(1,2) assms(2) by (simp add: lies_at_def packet_def rd_def del: of_nat_diff)
qed

text \<open>The loop implements the reference.\<close>

lemma decode_loop_refines:
  assumes "decodes lib c d us n c'" and "ctx_at s = Some c" and "lies_at d off (byte_mem s src)" and "src \<noteq> out"
    and "byte_mem s out = Some dst" and "w \<le> length dst" and "fits us (length dst - w)" and "bs = concat (map snd us)"
  shows "\<exists>es. decode_loop lib src out off (int (length d)) (int w) s =
      Some (n, int (w + length bs), decoded c' out (take w dst @ bs @ drop (w + length bs) dst) es s) \<and> set es \<subseteq> {SwrAlloc, SwrFree}"
  using assms
proof (induction arbitrary: s off dst w bs rule: decodes.induct)
  case (broken c d u fr c')
  have "set_ctx c' s = decoded c' out dst [] s" using broken.prems(4) by (simp add: set_ctx_def decoded_def fun_upd_idem)
  with broken show ?case
    by (subst decode_loop_body[of s c src off "int (length d)" d lib u fr c']) (auto simp: lies_at_def intro!: exI[of _ "[]"])
next
  case (final c d u fr c')
  let ?x = "snd (converted lib c' fr)"
  have av: "avctx s \<noteq> NULL" using final.prems(1) by (auto simp: ctx_at_def split: if_splits)
  have f: "fst (converted lib c' fr) = int (length ?x)" "w + length ?x \<le> length dst" using fits_Cons[OF final.prems(6)] final.prems(5) by auto
  obtain es where es: "convert_step lib c' fr out (int w) (set_ctx c' s) =
      Some (int (length ?x), decoded c' out (take w dst @ ?x @ drop (w + length ?x) dst) es s)" "set es \<subseteq> {SwrAlloc, SwrFree}"
    using convert_step_fits[OF f final.prems(4) HOL.refl av] by blast
  from final es f show ?case
    by (subst decode_loop_body[of s c src off "int (length d)" d lib u fr c']) (auto simp: lies_at_def)
next
  case (further c d u fr c' us n c'')
  let ?x = "snd (converted lib c' fr)"
  have av: "avctx s \<noteq> NULL" using further.prems(1) by (auto simp: ctx_at_def split: if_splits)
  have f: "fst (converted lib c' fr) = int (length ?x)" "w + length ?x \<le> length dst" "fits us (length dst - w - length ?x)"
    using fits_Cons[OF further.prems(6)] further.prems(5) by auto
  let ?d = "take w dst @ ?x @ drop (w + length ?x) dst"
  obtain es where es: "convert_step lib c' fr out (int w) (set_ctx c' s) = Some (int (length ?x), decoded c' out ?d es s)"
    "set es \<subseteq> {SwrAlloc, SwrFree}"
    using convert_step_fits[OF f(1,2) further.prems(4) HOL.refl av] by blast
  let ?s = "decoded c' out ?d es s" and ?w = "w + length ?x" and ?b = "concat (map snd us)"
  have k: "nat u < length d" "int (length (drop (nat u) d)) = int (length d) - u" using further.hyps(2,3) by auto
  have "\<exists>es. decode_loop lib src out (off + nat u) (int (length (drop (nat u) d))) (int ?w) ?s =
      Some (n, int (?w + length ?b), decoded c'' out (take ?w ?d @ ?b @ drop (?w + length ?b) ?d) es ?s) \<and> set es \<subseteq> {SwrAlloc, SwrFree}"
  proof (rule further.IH)
    show "lies_at (drop (nat u) d) (off + nat u) (byte_mem ?s src)"
      using lies_at_drop[OF further.prems(2) k(1)] further.prems(3) by simp
    have "length ?d = length dst" using f(2) by simp
    with f(2,3) show "?w \<le> length ?d" "fits us (length ?d - ?w)" by simp_all
  qed (simp_all add: av further.prems(3))
  then obtain es' where es': "decode_loop lib src out (off + nat u) (int (length d) - u) (int ?w) ?s =
      Some (n, int (?w + length ?b), decoded c'' out (take ?w ?d @ ?b @ drop (?w + length ?b) ?d) es' ?s)" "set es' \<subseteq> {SwrAlloc, SwrFree}"
    unfolding k(2) by blast
  have "take ?w ?d @ ?b @ drop (?w + length ?b) ?d = take w dst @ bs @ drop (w + length bs) dst"
    using f(2) further.prems(5,7) by (simp add: drop_append ac_simps)
  with es es' further k show ?case
    by (subst decode_loop_body[of s c src off "int (length d)" d lib u fr c'])
      (auto simp: lies_at_def decoded_twice intro!: exI[of _ "es @ es'"])
qed

section \<open>A sample\<close>

text \<open>
  A codec that uses two bytes per call and makes four of them, and a component with one buffer in each queue.
\<close>

definition sample_ctx :: AVCodecContext where
  "sample_ctx = \<lparr>codec_id = CODEC_ID_AC3, workaround_bugs = 1, lowres = 0, idct_algo = 0, skip_frame = 0, skip_idct = 0,
     skip_loop_filter = 0, error_concealment = 3, av_flags = 0, av_channels = 2, av_sample_rate = 48000, request_channels = 2,
     block_align = 0, av_bit_rate = 0, av_extradata = None, av_extradata_size = 0, sample_fmt = 1, priv_data = 0\<rparr>"

definition sample_av :: av_lib where
  "sample_av = \<lparr>avcodec_find_decoder = (\<lambda>_. 3), codec_capabilities = (\<lambda>_. 0), CODEC_CAP_DR1 = 2, CODEC_FLAG_EMU_EDGE = 4,
     AVDISCARD_DEFAULT = 0, avcodec_alloc_context3 = (\<lambda>_. (7, sample_ctx)), avcodec_open2 = (\<lambda>c _. (0, c)),
     avcodec_flush_buffers = (\<lambda>c. c), avcodec_alloc_frame = True,
     avcodec_decode_audio4 = (\<lambda>c _ _. (2, Some \<lparr>nb_samples = 1, frame_data = []\<rparr>, c)),
     av_samples_get_buffer_size = (\<lambda>_ _ _. 4), AV_SAMPLE_FMT_S16 = 1, swr_alloc = True, swr_init = (\<lambda>_. 0),
     swr_get_delay = (\<lambda>_ _. 0), av_rescale_rnd = (\<lambda>a _ _. a), av_get_channel_layout_nb_channels = (\<lambda>_. 2),
     swr_convert = (\<lambda>_ _ _ _. (1, [1, 2, 3, 4])), aud_block_junk = (\<lambda>_. 0)\<rparr>"

definition sample_aud :: NX_AUDDEC where
  "sample_aud = zero_auddec\<lparr>nNumPort := 2, pPort := (\<lambda>_. zero_port)(1 := zero_port\<lparr>eDir := OMX_DirOutput\<rparr>),
     pBufQueue := (\<lambda>_. zero_queue)(0 := one_queue 5, 1 := one_queue 6), cmdQueue := snd (NX_InitQueue 0 NX_MAX_QUEUE_ELEMENT),
     hdr_mem := [5 \<mapsto> zero_hdr\<lparr>pBuffer := 50, nTimeStamp := 33, nFilledLen := 4\<rparr>, 6 \<mapsto> zero_hdr\<lparr>pBuffer := 60\<rparr>],
     byte_mem := [50 \<mapsto> [9, 9, 9, 9, 0], 60 \<mapsto> replicate 12 0], ctx_mem := [7 \<mapsto> sample_ctx], avctx := 7,
     pCallbacks := \<lparr>cbEventHandler = 1, cbEmptyBufferDone = 1, cbFillBufferDone = 1\<rparr>\<rparr>"

lemma sample_aud_wf: "aud_wf sample_aud"
  using one_queue(1)[of 5] one_queue(1)[of 6] init_queue_inv[of 0 NX_MAX_QUEUE_ELEMENT]
  by (simp add: aud_wf_def sample_aud_def zero_auddec_def zero_port_def) (simp add: NX_InitQueue_def)

lemma sample_aud_lists: "in_list sample_aud = [5]" "out_list sample_aud = [6]"
  by (simp_all add: sample_aud_def one_queue(2))

lemmas sample_aud_simps = sample_aud_def zero_auddec_def sample_av_def zero_hdr_def

lemma sample_converted: "converted sample_av c (Some f) = (4, [1, 2, 3, 4])"
  by (simp add: converted_def frame_size_def sample_av_def)

lemma sample_decodes:
  "decodes sample_av c d us n c' \<Longrightarrow> \<exists>k. us = replicate k (4, [1, 2, 3, 4]) \<and> 2 * k \<le> length d + 2"
proof (induction rule: decodes.induct)
  case (further c d u fr c' us n c'')
  then obtain k where "us = replicate k (4, [1, 2, 3, 4])" "2 * k \<le> length (drop (nat u) d) + 2" by blast
  with further(1-3) show ?case
    by (intro exI[of _ "Suc k"]) (auto simp: sample_av_def sample_converted[unfolded sample_av_def])
qed (auto simp: sample_av_def sample_converted[unfolded sample_av_def] intro: exI[of _ 0] exI[of _ 1])

lemma sample_fits: "decodes sample_av c d us n c' \<Longrightarrow> 2 * length d + 4 \<le> room \<Longrightarrow> fits us room"
  using sample_decodes[of c d us n c'] by (auto simp: fits_def map_replicate_const length_concat sum_list_replicate)

lemma sample_packet: "decodes sample_av c [9, 9, 9, 9] [(4, [1, 2, 3, 4]), (4, [1, 2, 3, 4])] 4 c"
proof -
  let ?f = "Some \<lparr>nb_samples = 1, frame_data = []\<rparr>"
  have d: "avcodec_decode_audio4 sample_av c x n = (2, ?f, c)" for x n by (simp add: sample_av_def)
  have "decodes sample_av c [9, 9] [(4, [1, 2, 3, 4])] 4 c"
    using decodes.final[of sample_av c "[9, 9]" 2 ?f c] d by (simp add: sample_converted)
  then show ?thesis using decodes.further[of sample_av c "[9, 9, 9, 9]" 2 ?f c "[(4, [1, 2, 3, 4])]" 4 c] d by (simp add: sample_converted)
qed

section \<open>A call\<close>

text \<open>The output header behind a packet; \<open>cnt\<close> are the samples since the last new time stamp.\<close>

definition sample_base :: "NX_AUDDEC \<Rightarrow> OMX_TICKS \<Rightarrow> OMX_U32" where
  "sample_base s ts = (if nPrevTimeStamp s \<noteq> ts then 0 else nSampleCount s)"

definition out_header :: "nat \<Rightarrow> OMX_U32 \<Rightarrow> int \<Rightarrow> OMX_BUFFERHEADERTYPE \<Rightarrow> OMX_BUFFERHEADERTYPE \<Rightarrow> OMX_BUFFERHEADERTYPE" where
  "out_header len cnt rate hi ho = ho\<lparr>nFilledLen := word_of_nat len, nFlags := nFlags hi,
     nTimeStamp := nTimeStamp hi + word_of_int ((1000000 * uint cnt) sdiv rate)\<rparr>"

lemma stamp_out_spec:
  assumes "hdr_mem s p = Some hi" and "hdr_mem s q = Some ho" and "ctx_at s = Some c" and "av_sample_rate c \<noteq> 0"
  shows "stamp_out p q s = Some (s\<lparr>hdr_mem := (hdr_mem s)(q := Some (ho\<lparr>nTimeStamp := nTimeStamp hi +
       word_of_int ((1000000 * uint (sample_base s (nTimeStamp hi))) sdiv av_sample_rate c)\<rparr>)),
     nPrevTimeStamp := nTimeStamp hi, nSampleCount := sample_base s (nTimeStamp hi)\<rparr>)"
  using assms by (cases "nPrevTimeStamp s = nTimeStamp hi") (simp_all add: stamp_out_def upd_hdr_def sample_base_def)

lemma finish_audio_spec:
  fixes len :: nat
  assumes "hdr_mem s p = Some hi" and "hdr_mem s q = Some ho" and "p \<noteq> q" and "ctx_at s = Some c" and "av_sample_rate c \<noteq> 0"
    and "cbEmptyBufferDone (pCallbacks s) \<noteq> NULL" and "cbFillBufferDone (pCallbacks s) \<noteq> NULL"
  defines "cnt \<equiv> sample_base s (nTimeStamp hi)"
  defines "h \<equiv> out_header len cnt (av_sample_rate c) hi ho"
  shows "finish_audio p q n (int len) s = Some (s\<lparr>hdr_mem := (hdr_mem s)(q := Some h), nPrevTimeStamp := nTimeStamp hi,
     nSampleCount := cnt + word_of_int (n sdiv 4), trace := trace s @ [EmptyBufferDone p hi, FillBufferDone q h]\<rparr>)"
proof -
  let ?h = "ho\<lparr>nFilledLen := word_of_nat len, nFlags := nFlags hi\<rparr>" and ?s = "s\<lparr>hdr_mem := (hdr_mem s)(q := Some (ho\<lparr>nFilledLen := word_of_nat len, nFlags := nFlags hi\<rparr>))\<rparr>"
  have "stamp_out p q ?s = Some (?s\<lparr>hdr_mem := (hdr_mem ?s)(q := Some (?h\<lparr>nTimeStamp := nTimeStamp hi +
       word_of_int ((1000000 * uint (sample_base ?s (nTimeStamp hi))) sdiv av_sample_rate c)\<rparr>)),
     nPrevTimeStamp := nTimeStamp hi, nSampleCount := sample_base ?s (nTimeStamp hi)\<rparr>)"
    using assms by (intro stamp_out_spec) (auto simp: ctx_at_def split: if_splits)
  moreover have "sample_base ?s (nTimeStamp hi) = cnt" by (simp add: cnt_def sample_base_def)
  ultimately show ?thesis
    using assms(1-3,6,7) by (simp add: finish_audio_def upd_hdr_def call_EmptyBufferDone_def call_FillBufferDone_def emit_def
        h_def out_header_def)
qed

lemma pop_buf_front:
  assumes "aud_wf s" and "k < 2" and "queue_list (pBufQueue s k) = p # ps"
  obtains q where "pop_buf k s = (p, s\<lparr>pBufQueue := (pBufQueue s)(k := q)\<rparr>)" "queue_list q = ps"
    "aud_wf (s\<lparr>pBufQueue := (pBufQueue s)(k := q)\<rparr>)"
proof -
  obtain x t where pop: "pop_buf k s = (x, t)" by fastforce
  show thesis
    using pop_buf_cases[OF pop assms(1,2)]
  proof cases
    case 1
    with assms(3) show ?thesis by simp
  next
    case (2 q)
    with assms(3) pop that[of q] show ?thesis by simp
  qed
qed

text \<open>
  C15: A packet is decoded: the input buffer at the head of its queue holds the packet, which the codec takes in one or
  several calls. The output buffer at the head of the other queue then holds the converted frames one behind the
  other and nothing else of it is written; its header says how many bytes these are, has the flags of the input,
  and the time stamp of the input, to which the duration of the samples is added that were counted since the last
  new time stamp, where a packet counts only those of its last call. The input buffer goes back first, then the
  output buffer, each once; the codec keeps its new state.
\<close>

theorem audio_packet_is_decoded:
  assumes "aud_wf s" and "in_list s = p # ps" and "out_list s = q # qs" and "p \<noteq> NULL" and "q \<noteq> NULL" and "p \<noteq> q"
    and "\<not> bAudFlush s" and "avcodec_alloc_frame lib"
    and "hdr_mem s p = Some hi" and "hdr_mem s q = Some ho" and "pBuffer hi \<noteq> pBuffer ho"
    and "byte_mem s (pBuffer hi) = Some (d @ junk)" and "sint (nFilledLen hi) = int (length d)"
    and "byte_mem s (pBuffer ho) = Some dst" and "ctx_at s = Some c"
    and "decodes lib c d us n c'" and "fits us (length dst)" and "av_sample_rate c' \<noteq> 0"
    and "cbEmptyBufferDone (pCallbacks s) \<noteq> NULL" and "cbFillBufferDone (pCallbacks s) \<noteq> NULL"
  defines "bs \<equiv> concat (map snd us)"
  defines "cnt \<equiv> sample_base s (nTimeStamp hi)"
  shows "\<exists>t es. decodeAudioFrame lib s = Some (0, t) \<and> in_list t = ps \<and> out_list t = qs \<and>
     byte_mem t = (byte_mem s)(pBuffer ho := Some (bs @ drop (length bs) dst)) \<and>
     trace t = trace s @ es @ [EmptyBufferDone p hi, FillBufferDone q (out_header (length bs) cnt (av_sample_rate c') hi ho)] \<and>
     set es \<subseteq> {SwrAlloc, SwrFree} \<and> ctx_at t = Some c' \<and>
     nPrevTimeStamp t = nTimeStamp hi \<and> nSampleCount t = cnt + word_of_int (n sdiv 4)"
proof -
  have l: "queue_list (pBufQueue s 1) = q # qs" using assms(3) by simp
  obtain q1 where q1: "pop_buf 1 s = (q, s\<lparr>pBufQueue := (pBufQueue s)(1 := q1)\<rparr>)" "queue_list q1 = qs"
    "aud_wf (s\<lparr>pBufQueue := (pBufQueue s)(1 := q1)\<rparr>)"
    by (rule pop_buf_front[OF assms(1) _ l]) simp_all
  let ?s1 = "s\<lparr>pBufQueue := (pBufQueue s)(1 := q1)\<rparr>"
  have l1: "queue_list (pBufQueue ?s1 0) = p # ps" using assms(2) by simp
  obtain q0 where q0: "pop_buf 0 ?s1 = (p, ?s1\<lparr>pBufQueue := (pBufQueue ?s1)(0 := q0)\<rparr>)" "queue_list q0 = ps"
    by (rule pop_buf_front[OF q1(3) _ l1]) simp_all
  define s2 where "s2 = ?s1\<lparr>pBufQueue := (pBufQueue ?s1)(0 := q0)\<rparr>"
  have s2: "hdr_mem s2 = hdr_mem s" "byte_mem s2 = byte_mem s" "ctx_at s2 = ctx_at s" "trace s2 = trace s" "avctx s2 = avctx s"
    "pCallbacks s2 = pCallbacks s" "nPrevTimeStamp s2 = nPrevTimeStamp s" "nSampleCount s2 = nSampleCount s" "in_list s2 = ps" "out_list s2 = qs"
    using q0(2) q1(2) by (simp_all add: s2_def ctx_at_def)
  have av: "avctx s \<noteq> NULL" using assms(15) by (auto simp: ctx_at_def split: if_splits)
  have "lies_at d 0 (byte_mem s2 (pBuffer hi))" using assms(12) by (simp add: s2 lies_at_def packet_def rd_def)
  from decode_loop_refines[OF assms(16) _ this assms(11), of dst 0 bs] obtain es where
    es: "decode_loop lib (pBuffer hi) (pBuffer ho) 0 (int (length d)) 0 s2 =
      Some (n, int (length bs), decoded c' (pBuffer ho) (bs @ drop (length bs) dst) es s2)" "set es \<subseteq> {SwrAlloc, SwrFree}"
    using assms(14,15,17) by (auto simp: s2 bs_def)
  let ?s3 = "decoded c' (pBuffer ho) (bs @ drop (length bs) dst) es s2"
  have b: "sample_base ?s3 (nTimeStamp hi) = cnt" by (simp add: sample_base_def cnt_def s2)
  have "finish_audio p q n (int (length bs)) ?s3 = Some (?s3\<lparr>hdr_mem := (hdr_mem ?s3)(q := Some (out_header (length bs) cnt (av_sample_rate c') hi ho)),
     nPrevTimeStamp := nTimeStamp hi, nSampleCount := cnt + word_of_int (n sdiv 4),
     trace := trace ?s3 @ [EmptyBufferDone p hi, FillBufferDone q (out_header (length bs) cnt (av_sample_rate c') hi ho)]\<rparr>)"
    (is "_ = Some ?t")
    using finish_audio_spec[of ?s3 p hi q ho c' n "length bs"] assms(6,9,10,18-20) av by (simp add: s2 b)
  moreover have "s\<lparr>pBufQueue := (pBufQueue s)(Suc 0 := q1, 0 := q0)\<rparr> = s2" by (simp add: s2_def)
  ultimately have "decodeAudioFrame lib s = Some (0, ?t)"
    using assms(4,5,7-10,13) q1(1) q0(1) es(1) by (simp add: decodeAudioFrame_def flush_codec_def s2)
  moreover have "ctx_at ?t = ctx_at ?s3" by (simp add: ctx_at_def)
  ultimately show ?thesis using es(2) av by (intro exI[of _ ?t] exI[of _ es]) (simp add: s2)
qed

theorem audio_packet_is_decoded_witness:
  "\<exists>t. decodeAudioFrame sample_av sample_aud = Some (0, t) \<and> byte_mem t 60 = Some [1, 2, 3, 4, 1, 2, 3, 4, 0, 0, 0, 0] \<and>
     ebd_ptrs (trace t) = [5] \<and> fbd_ptrs (trace t) = [6]"
proof -
  let ?hi = "zero_hdr\<lparr>pBuffer := 50, nTimeStamp := 33, nFilledLen := 4\<rparr>" and ?ho = "zero_hdr\<lparr>pBuffer := 60\<rparr>"
  and ?us = "[(4, [1, 2, 3, 4]), (4, [1, 2, 3, 4])] :: (int \<times> OMX_U8 list) list"
  have replicate_4: "replicate 4 (0 :: OMX_U8) = [0, 0, 0, 0]" by (simp add: eval_nat_numeral)
  have "fits ?us (length (replicate 12 (0 :: OMX_U8)))" by (simp add: fits_def)
  note packet = audio_packet_is_decoded[OF sample_aud_wf sample_aud_lists _ _ _ _ _ _ _ _ _ _ _ _ sample_packet this, of ?hi ?ho "[0]"]
  have "ctx_at sample_aud = Some sample_ctx" "hdr_mem sample_aud 5 = Some ?hi" "hdr_mem sample_aud 6 = Some ?ho"
    "byte_mem sample_aud 50 = Some [9, 9, 9, 9, 0]" "byte_mem sample_aud 60 = Some (replicate 12 0)" "\<not> bAudFlush sample_aud"
    "avcodec_alloc_frame sample_av" "av_sample_rate sample_ctx = 48000" "trace sample_aud = []"
    "cbEmptyBufferDone (pCallbacks sample_aud) = 1" "cbFillBufferDone (pCallbacks sample_aud) = 1"
    by (simp_all add: sample_aud_simps sample_ctx_def ctx_at_def)
  then have "\<exists>t es h. decodeAudioFrame sample_av sample_aud = Some (0, t) \<and>
      byte_mem t = (byte_mem sample_aud)(60 := Some [1, 2, 3, 4, 1, 2, 3, 4, 0, 0, 0, 0]) \<and>
      trace t = es @ [EmptyBufferDone 5 ?hi, FillBufferDone 6 h] \<and> set es \<subseteq> {SwrAlloc, SwrFree}"
    using packet[of sample_ctx] by (auto simp: replicate_4)
  then obtain t es h where t: "decodeAudioFrame sample_av sample_aud = Some (0, t)"
    "byte_mem t = (byte_mem sample_aud)(60 := Some [1, 2, 3, 4, 1, 2, 3, 4, 0, 0, 0, 0])"
    "trace t = es @ [EmptyBufferDone 5 ?hi, FillBufferDone 6 h]" "set es \<subseteq> {SwrAlloc, SwrFree}"
    by blast
  have "ebd_ptrs es = []" "fbd_ptrs es = []" using t(4) by (induction es) auto
  with t show ?thesis by simp
qed

section \<open>Termination\<close>

lemma decodes_exists:
  assumes "\<And>c d. d \<noteq> [] \<Longrightarrow> fst (avcodec_decode_audio4 lib c d (int (length d))) \<noteq> 0"
  shows "\<exists>us n c'. decodes lib c d us n c'"
proof (induction "length d" arbitrary: c d rule: less_induct)
  case less
  obtain u fr c' where dec: "avcodec_decode_audio4 lib c d (int (length d)) = (u, fr, c')" by (metis prod_cases3)
  have "u = 0 \<Longrightarrow> d = []" using assms[of d c] dec by auto
  then consider "u < 0" | "0 \<le> u" "int (length d) \<le> u" | "0 < u" "u < int (length d)" by force
  then show ?case
  proof cases
    case 3
    then have "length (drop (nat u) d) < length d" by simp
    from less.hyps[OF this, of c'] obtain us n c'' where "decodes lib c' (drop (nat u) d) us n c''" by blast
    from decodes.further[OF dec _ 3(2) this] 3(1) show ?thesis by auto
  qed (use decodes.broken[OF dec] decodes.final[OF dec] in blast)+
qed

text \<open>A codec that stays where it is: the loop comes back to the same state.\<close>

lemma decode_loop_stuck:
  assumes "decode_loop lib src out off n w s = Some y" and "avcodec_decode_audio4 lib c d n = (0, None, c)"
    and "ctx_at s = Some c" and "packet (byte_mem s src) off n = Some d" and "0 < n"
  shows False
proof -
  have "avcodec_decode_audio4 lib c d n = (0, None, c) \<and> ctx_at s = Some c \<and> packet (byte_mem s src) off n = Some d \<and> 0 < n \<longrightarrow> False"
  proof (rule decode_loop.raw_induct[where P = "\<lambda>lib src out off n w s y. avcodec_decode_audio4 lib c d n = (0, None, c) \<and>
        ctx_at s = Some c \<and> packet (byte_mem s src) off n = Some d \<and> 0 < n \<longrightarrow> False", OF _ assms(1)], rule impI, elim conjE)
    fix f :: "av_lib \<Rightarrow> ptr \<Rightarrow> ptr \<Rightarrow> nat \<Rightarrow> int \<Rightarrow> int \<Rightarrow> NX_AUDDEC \<Rightarrow> (int \<times> int \<times> NX_AUDDEC) option" and lib src out off n w s y
    assume ih: "\<And>lib src out off n w s y. f lib src out off n w s = Some y \<Longrightarrow> avcodec_decode_audio4 lib c d n = (0, None, c) \<and>
        ctx_at s = Some c \<and> packet (byte_mem s src) off n = Some d \<and> 0 < n \<longrightarrow> False"
      and body: "do {
     c \<leftarrow> ctx_at s;
     pkt \<leftarrow> packet (byte_mem s src) off n;
     let (usedByte, frame, c) = avcodec_decode_audio4 lib c pkt n;
     let s = set_ctx c s;
     let outSize = frame_size lib c frame;
     if usedByte < 0 then Some (outSize, w, s)
     else do {
       (outSize, s) \<leftarrow> (case frame of
           Some f \<Rightarrow>
             (if outSize > 0 then
                map_option snd (AudioConvert lib (av_channels c) (nb_samples f) (sample_fmt c) (av_sample_rate c) outSize
                  (frame_data f) out w s)
              else Some (outSize, s))
         | None \<Rightarrow> Some (outSize, s));
       let inSize = n - usedByte;
       let written = w + outSize;
       if inSize > 0 then f lib src out (off + nat usedByte) inSize written s
       else Some (outSize, written, s) } } = Some y"
      and a: "avcodec_decode_audio4 lib c d n = (0, None, c)" "ctx_at s = Some c" "packet (byte_mem s src) off n = Some d" "0 < n"
    have "f lib src out off n w (set_ctx c s) = Some y" using body a by (simp add: frame_size_def)
    moreover have "avctx s \<noteq> NULL" using a(2) by (auto simp: ctx_at_def split: if_splits)
    then have "ctx_at (set_ctx c s) = Some c" "packet (byte_mem (set_ctx c s) src) off n = Some d" using a(3) by (simp_all add: set_ctx_def ctx_at_def)
    ultimately show False using ih a(1,4) by blast
  qed
  with assms(2-5) show ?thesis by blast
qed

text \<open>
  C16: The loop over a packet ends if the codec, called for at least one byte, always uses some of them or reports an
  error, and it then computes what the reference says, provided that the frames have room. It does not end for a
  codec that uses no bytes and stays as it is: the loop has no guard against that.
\<close>

theorem audio_loop_ends:
  assumes "ctx_at s = Some c" and "lies_at d off (byte_mem s src)" and "src \<noteq> out" and "byte_mem s out = Some dst"
    and "\<And>us n c'. decodes lib c d us n c' \<Longrightarrow> fits us (length dst)"
  shows "((\<forall>c d. d \<noteq> [] \<longrightarrow> fst (avcodec_decode_audio4 lib c d (int (length d))) \<noteq> 0) \<longrightarrow>
       (\<exists>us n c' es. decodes lib c d us n c' \<and> decode_loop lib src out off (int (length d)) 0 s =
          Some (n, int (length (concat (map snd us))),
            decoded c' out (concat (map snd us) @ drop (length (concat (map snd us))) dst) es s))) \<and>
     (d \<noteq> [] \<and> avcodec_decode_audio4 lib c d (int (length d)) = (0, None, c) \<longrightarrow>
       decode_loop lib src out off (int (length d)) 0 s = None)"
proof (intro conjI impI)
  assume "\<forall>c d. d \<noteq> [] \<longrightarrow> fst (avcodec_decode_audio4 lib c d (int (length d))) \<noteq> 0"
  then obtain us n c' where r: "decodes lib c d us n c'" using decodes_exists[of lib c d] by blast
  have "fits us (length dst - 0)" using assms(5)[OF r] by simp
  from decode_loop_refines[OF r assms(1-4) _ this HOL.refl] r
  show "\<exists>us n c' es. decodes lib c d us n c' \<and> decode_loop lib src out off (int (length d)) 0 s =
      Some (n, int (length (concat (map snd us))),
        decoded c' out (concat (map snd us) @ drop (length (concat (map snd us))) dst) es s)"
    by fastforce
next
  assume a: "d \<noteq> [] \<and> avcodec_decode_audio4 lib c d (int (length d)) = (0, None, c)"
  show "decode_loop lib src out off (int (length d)) 0 s = None"
  proof (cases "decode_loop lib src out off (int (length d)) 0 s")
    case (Some y)
    from decode_loop_stuck[OF this _ assms(1)] a assms(2) show ?thesis by (auto simp: lies_at_def)
  qed
qed

theorem audio_loop_ends_witness:
  "\<exists>(us :: (int \<times> OMX_U8 list) list) n c' es. decode_loop sample_av 50 60 0 4 0 sample_aud = Some (n, int (length (concat (map snd us))),
      decoded c' 60 (concat (map snd us) @ drop (length (concat (map snd us))) (replicate 12 0)) es sample_aud)"
proof -
  have "ctx_at sample_aud = Some sample_ctx" "lies_at [9, 9, 9, 9] 0 (byte_mem sample_aud 50)" "byte_mem sample_aud 60 = Some (replicate 12 0)"
    by (simp_all add: sample_aud_simps ctx_at_def lies_at_def packet_def rd_def)
  note ends = audio_loop_ends[OF this(1,2) _ this(3), of sample_av]
  have "\<exists>us n c' es. decodes sample_av sample_ctx [9, 9, 9, 9] us n c' \<and>
     decode_loop sample_av 50 60 0 (int (length [9, 9, 9, 9 :: OMX_U8])) 0 sample_aud =
          Some (n, int (length (concat (map snd us))),
            decoded c' 60 (concat (map snd us) @ drop (length (concat (map snd us))) (replicate 12 0)) es sample_aud)"
  proof (rule mp[OF conjunct1[OF ends]])
    show "\<forall>c d. d \<noteq> [] \<longrightarrow> fst (avcodec_decode_audio4 sample_av c d (int (length d))) \<noteq> 0" by (simp add: sample_av_def)
  qed (auto intro: sample_fits)
  moreover have four: "int (length [9, 9, 9, 9 :: OMX_U8]) = 4" by simp
  ultimately show ?thesis unfolding four by blast
qed

section \<open>The life of the codec context\<close>

text \<open>
  C35: Closing the codec frees its context but keeps the pointer. When the next opening fails before a new context is
  allocated, as it does for a coding that is not set or that the library cannot decode, the pointer still leads to
  the freed context, and the result is ignored: the next packet is decoded with it, and the next closing frees it
  again. Neither has a defined result.
\<close>

theorem stale_codec_context:
  assumes "ctx_at s = Some c" and "closeAudioCodec s = Some t"
    and "audio_codec t = None \<or> (\<exists>par. audio_codec t = Some par \<and> avcodec_find_decoder lib (fst par) = NULL)"
  shows "\<exists>u. openAudioCodec lib t = Some (-1, u) \<and> avctx u = avctx s \<and> avctx u \<noteq> NULL \<and> closeAudioCodec u = None \<and>
     (\<forall>lib src out off n w. decode_loop lib src out off n w u = None)"
proof -
  have av: "avctx s \<noteq> NULL" using assms(1) by (auto simp: ctx_at_def split: if_splits)
  with assms(2) have t: "avctx t = avctx s" "ctx_mem t (avctx s) = None"
    by (auto simp: closeAudioCodec_def Let_def split: bind_splits if_splits)
  obtain u where u: "openAudioCodec lib t = Some (-1, u)" "avctx u = avctx t" "ctx_mem u = ctx_mem t"
    using assms(3) by (auto simp: openAudioCodec_def Let_def)
  with t av have "closeAudioCodec u = None" "ctx_at u = None" by (simp_all add: closeAudioCodec_def ctx_at_def Let_def)
  moreover from this(2) have "decode_loop lib src out off n w u = None" for lib src out off n w
    by (subst decode_loop.simps) simp
  ultimately show ?thesis using u t av by auto
qed

theorem stale_codec_context_witness:
  "\<exists>t u. closeAudioCodec sample_aud = Some t \<and> openAudioCodec sample_av t = Some (-1, u) \<and> closeAudioCodec u = None"
proof -
  have c: "ctx_at sample_aud = Some sample_ctx" by (simp add: sample_aud_simps ctx_at_def)
  obtain t where t: "closeAudioCodec sample_aud = Some t" "audio_codec t = None"
    by (simp add: closeAudioCodec_def sample_aud_simps audio_codec_def Let_def)
  from stale_codec_context[OF c t(1), of sample_av] t show ?thesis by blast
qed

text \<open>
  The coding, the numbers of channels and samples, the alignment and the bit rate that the struct of a coding
  configures, for a role that fits it.
\<close>

definition configured :: "string \<Rightarrow> aud_param \<Rightarrow> (AVCodecID \<times> int \<times> int \<times> int \<times> int) option" where
  "configured role par =
     (case par of
        AudAc3 p \<Rightarrow> (if role = ''audio_decoder.ac3'' then Some (CODEC_ID_AC3, sint (ac3_nChannels p), sint (ac3_nSampleRate p), 0, 0) else None)
      | AudDts p \<Rightarrow> (if role = ''audio_decoder.dts'' then Some (CODEC_ID_DTS, sint (ac3_nChannels p), sint (ac3_nSampleRate p), 0, 0) else None)
      | AudFlac p \<Rightarrow> (if role = ''audio_decoder.flac'' then Some (CODEC_ID_FLAC, sint (ac3_nChannels p), sint (ac3_nSampleRate p), 0, 0) else None)
      | AudRa p \<Rightarrow> (if role = ''audio_decoder.ra''
          then Some (CODEC_ID_COOK, sint (ra_nChannels p), sint (ra_nSamplingRate p), uint (ra_nBitsPerFrame p div 8), 0) else None)
      | AudWma p \<Rightarrow> (if role \<in> {''audio_decoder.wma'', ''audio_decoder.x-ms-wma''}
          then Some (if wma_eFormat p = 1 then CODEC_ID_WMAV2 else if wma_eFormat p = 2 then CODEC_ID_WMAPRO
              else if wma_eFormat p = 3 then CODEC_ID_WMALOSSLESS else CODEC_ID_NONE,
              uint (wma_nChannels p), sint (wma_nSamplingRate p), uint (wma_nBlockAlign p), sint (wma_nBitRate p)) else None)
      | AudMp3 p \<Rightarrow> (if role \<in> {''audio_decoder.mp2'', ''audio_decoder.mpeg'', ''audio_decoder.mp3''}
          then Some (CODEC_ID_MP3, sint (mp3_nChannels p), sint (mp3_nSampleRate p), 0, sint (mp3_nBitRate p)) else None)
      | _ \<Rightarrow> None)"

definition coding_words :: "aud_param \<Rightarrow> OMX_U32 list" where
  "coding_words par = (case par of AudAc3 p \<Rightarrow> ac3_words p | AudDts p \<Rightarrow> ac3_words p | AudFlac p \<Rightarrow> ac3_words p
     | AudRa p \<Rightarrow> ra_words p | AudWma p \<Rightarrow> wma_words p | AudMp3 p \<Rightarrow> mp3_words p | _ \<Rightarrow> [])"

lemma config_ctx_fields:
  "let c = config_ctx lib h (cid, channels, rate, align, bits) s c0 in
     codec_id c = cid \<and> av_channels c = channels \<and> av_sample_rate c = rate \<and> block_align c = align \<and> av_bit_rate c = bits \<and>
     request_channels c = min 2 channels \<and> workaround_bugs c = 1 \<and> lowres c = 0 \<and> idct_algo c = 0 \<and> error_concealment c = 3 \<and>
     skip_frame c = AVDISCARD_DEFAULT lib \<and> skip_idct c = AVDISCARD_DEFAULT lib \<and> skip_loop_filter c = AVDISCARD_DEFAULT lib \<and>
     sample_fmt c = sample_fmt c0 \<and> priv_data c = priv_data c0 \<and>
     av_flags c = (if codec_capabilities lib h AND CODEC_CAP_DR1 lib \<noteq> 0
       then av_flags c0 OR CODEC_FLAG_EMU_EDGE lib else av_flags c0) \<and>
     av_extradata c = (case pAudExtraData s of None \<Rightarrow> av_extradata c0 | Some bs \<Rightarrow> Some bs) \<and>
     av_extradata_size c = (case pAudExtraData s of None \<Rightarrow> av_extradata_size c0 | Some bs \<Rightarrow> nAudExtraDataSize s)"
  by (cases "pAudExtraData s") (auto simp: config_ctx_def Let_def min_def)

lemma set_role_result:
  assumes "NX_FFAudDec_SetParameter (AudRole role) s = Some (e, t)" and "role_coding role = Some c"
  shows "e = OMX_ErrorNone \<and> t = s\<lparr>compRole := role, inCodingType := c\<rparr>"
  using assms by (simp add: NX_FFAudDec_SetParameter_def AudSetParameter_Role_def)

lemma set_coding_result:
  assumes "NX_FFAudDec_SetParameter par s = Some (e, t)" and "coding_port par = Some 0"
  shows "e = OMX_ErrorNone \<and> (\<exists>pcm. t = s\<lparr>inPortType := put_union (coding_words par) (inPortType s), outPortType := pcm\<rparr>)"
  using assms by (cases par) (auto simp: coding_port_def NX_FFAudDec_SetParameter_def set_coding_def coding_words_def)

lemma configured_codec:
  assumes "configured role par = Some cfg"
  obtains c where "role_coding role = Some c"
    "\<And>s u. inCodingType s = c \<Longrightarrow> inPortType s = put_union (coding_words par) u \<Longrightarrow> audio_codec s = Some cfg"
proof (cases par)
  case (AudAc3 p)
  with assms that[of OMX_AUDIO_CodingAC3] show ?thesis
    by (simp add: configured_def role_coding_def coding_words_def audio_codec_def put_union_def split: if_splits)
next
  case (AudDts p)
  with assms that[of OMX_AUDIO_CodingDTS] show ?thesis
    by (simp add: configured_def role_coding_def coding_words_def audio_codec_def put_union_def split: if_splits)
next
  case (AudFlac p)
  with assms that[of OMX_AUDIO_CodingFLAC] show ?thesis
    by (simp add: configured_def role_coding_def coding_words_def audio_codec_def put_union_def split: if_splits)
next
  case (AudRa p)
  with assms that[of OMX_AUDIO_CodingRA] show ?thesis
    by (simp add: configured_def role_coding_def coding_words_def audio_codec_def put_union_def split: if_splits)
next
  case (AudWma p)
  then have "role = ''audio_decoder.wma'' \<or> role = ''audio_decoder.x-ms-wma''" using assms by (simp add: configured_def split: if_splits)
  then have "role_coding role = Some OMX_AUDIO_CodingWMA" by (elim disjE) (simp_all add: role_coding_def)
  with AudWma assms that[of OMX_AUDIO_CodingWMA] show ?thesis
    by (simp add: configured_def coding_words_def audio_codec_def put_union_def split del: if_split split: if_split_asm)
next
  case (AudMp3 p)
  then have "role = ''audio_decoder.mp2'' \<or> role = ''audio_decoder.mpeg'' \<or> role = ''audio_decoder.mp3''"
    using assms by (simp add: configured_def split: if_splits)
  then have "role_coding role = Some OMX_AUDIO_CodingMP3" by (elim disjE) (simp_all add: role_coding_def)
  with AudMp3 assms that[of OMX_AUDIO_CodingMP3] show ?thesis
    by (simp add: configured_def coding_words_def audio_codec_def put_union_def split: if_splits)
qed (use assms in \<open>simp_all add: configured_def\<close>)

text \<open>
  C17: A client that sets a role and the parameters of the coding that belongs to it, in either order, gets the codec
  of the library for that coding: \<open>avcodec_open2\<close> is called with a context that has the channels, the sample
  rate, the alignment and the bit rate of the parameters, at most two channels asked for, the extra data if
  there are any, the settings that the code makes for every codec, and for the rest what the allocation put
  there. \<open>openAudioCodec\<close> succeeds exactly when \<open>avcodec_open2\<close> does, and keeps the context it left.
\<close>

theorem role_and_parameters_select_codec:
  assumes "configured role par = Some (cid, channels, rate, align, bits)" and "coding_port par = Some 0"
    and "(x, y) = (AudRole role, par) \<or> (x, y) = (par, AudRole role)"
    and "NX_FFAudDec_SetParameter x s = Some (e1, s1)" and "NX_FFAudDec_SetParameter y s1 = Some (e2, s2)"
    and "avcodec_find_decoder lib cid = h" and "h \<noteq> NULL" and "avcodec_alloc_context3 lib h = (p, c0)" and "p \<noteq> NULL"
  shows "e1 = OMX_ErrorNone \<and> e2 = OMX_ErrorNone \<and>
    (\<exists>c rc c1 t. avcodec_open2 lib c h = (rc, c1) \<and>
       openAudioCodec lib s2 = Some (if rc < 0 then -1 else 0, t) \<and> ctx_at t = Some c1 \<and> hAudioCodec t = h \<and>
       codec_id c = cid \<and> av_channels c = channels \<and> av_sample_rate c = rate \<and> block_align c = align \<and>
       av_bit_rate c = bits \<and> request_channels c = min 2 channels \<and>
       (case pAudExtraData s of
          None \<Rightarrow> av_extradata c = av_extradata c0 \<and> av_extradata_size c = av_extradata_size c0
        | Some bs \<Rightarrow> av_extradata c = Some bs \<and> av_extradata_size c = nAudExtraDataSize s) \<and>
       workaround_bugs c = 1 \<and> lowres c = 0 \<and> idct_algo c = 0 \<and> error_concealment c = 3 \<and>
       skip_frame c = AVDISCARD_DEFAULT lib \<and> skip_idct c = AVDISCARD_DEFAULT lib \<and>
       skip_loop_filter c = AVDISCARD_DEFAULT lib \<and> sample_fmt c = sample_fmt c0 \<and> priv_data c = priv_data c0 \<and>
       av_flags c = (if codec_capabilities lib h AND CODEC_CAP_DR1 lib \<noteq> 0
         then av_flags c0 OR CODEC_FLAG_EMU_EDGE lib else av_flags c0))"
proof -
  obtain c where c: "role_coding role = Some c"
    "\<And>s u. inCodingType s = c \<Longrightarrow> inPortType s = put_union (coding_words par) u \<Longrightarrow> audio_codec s = Some (cid, channels, rate, align, bits)"
    by (rule configured_codec[OF assms(1)]) (rule that, assumption+)
  have s2: "e1 = OMX_ErrorNone \<and> e2 = OMX_ErrorNone \<and> audio_codec s2 = Some (cid, channels, rate, align, bits) \<and> pAudExtraData s2 = pAudExtraData s \<and>
      nAudExtraDataSize s2 = nAudExtraDataSize s"
    using assms(3)
  proof
    assume "(x, y) = (AudRole role, par)"
    with assms(4,5) set_role_result[OF _ c(1), of s e1 s1] set_coding_result[OF _ assms(2), of s1 e2 s2] c(2)[of s2 "inPortType s1"]
    show ?thesis by auto
  next
    assume "(x, y) = (par, AudRole role)"
    with assms(4,5) set_role_result[OF _ c(1), of s1 e2 s2] set_coding_result[OF _ assms(2), of s e1 s1] c(2)[of s2 "inPortType s"]
    show ?thesis by auto
  qed
  let ?c = "config_ctx lib h (cid, channels, rate, align, bits) (s2\<lparr>hAudioCodec := h, avctx := p\<rparr>) c0"
  obtain rc c1 where o: "avcodec_open2 lib ?c h = (rc, c1)" by (metis surj_pair)
  have "\<exists>t. openAudioCodec lib s2 = Some (if rc < 0 then -1 else 0, t) \<and> ctx_at t = Some c1 \<and> hAudioCodec t = h"
    using assms(6-9) s2 o by (simp add: openAudioCodec_def Let_def) (simp add: ctx_at_def set_ctx_def)
  then obtain t where "openAudioCodec lib s2 = Some (if rc < 0 then -1 else 0, t)" "ctx_at t = Some c1" "hAudioCodec t = h"
    by blast
  note t = this
  show ?thesis
    apply (intro conjI, simp add: s2, simp add: s2)
    apply (rule exI[of _ ?c], rule exI[of _ rc], rule exI[of _ c1], rule exI[of _ t])
    using s2 o t config_ctx_fields[of lib h cid channels rate align bits "s2\<lparr>hAudioCodec := h, avctx := p\<rparr>" c0, unfolded Let_def]
    by (cases "pAudExtraData s") simp_all
qed

theorem role_and_parameters_select_codec_witness:
  "\<exists>s2 t c. NX_FFAudDec_SetParameter (AudMp3 \<lparr>mp3_nSize = 36, mp3_nVersion = 1, mp3_nPortIndex = 0, mp3_nChannels = 2,
        mp3_nBitRate = 128000, mp3_nSampleRate = 44100, mp3_nAudioBandWidth = 0, mp3_eChannelMode = 0, mp3_eFormat = 0\<rparr>)
      (sample_aud\<lparr>compRole := ''audio_decoder.mp3'', inCodingType := 22\<rparr>) = Some (OMX_ErrorNone, s2) \<and>
    openAudioCodec sample_av s2 = Some (0, t) \<and> ctx_at t = Some c \<and> codec_id c = CODEC_ID_MP3 \<and> av_channels c = 2 \<and>
    av_sample_rate c = 44100 \<and> av_bit_rate c = 128000"
proof -
  let ?p = "AudMp3 \<lparr>mp3_nSize = 36, mp3_nVersion = 1, mp3_nPortIndex = 0, mp3_nChannels = 2,
        mp3_nBitRate = 128000, mp3_nSampleRate = 44100, mp3_nAudioBandWidth = 0, mp3_eChannelMode = 0, mp3_eFormat = 0\<rparr>"
  let ?r = "''audio_decoder.mp3''"
  have r: "NX_FFAudDec_SetParameter (AudRole ?r) sample_aud = Some (OMX_ErrorNone, sample_aud\<lparr>compRole := ?r, inCodingType := 22\<rparr>)"
    by (simp add: NX_FFAudDec_SetParameter_def AudSetParameter_Role_def role_coding_def)
  obtain s2 where p: "NX_FFAudDec_SetParameter ?p (sample_aud\<lparr>compRole := ?r, inCodingType := 22\<rparr>) = Some (OMX_ErrorNone, s2)"
    by (simp add: NX_FFAudDec_SetParameter_def set_coding_def)
  have "configured ?r ?p = Some (CODEC_ID_MP3, 2, 44100, 0, 128000)" "coding_port ?p = Some 0" by (simp_all add: configured_def coding_port_def)
  moreover have "avcodec_find_decoder sample_av CODEC_ID_MP3 = 3" "(3 :: ptr) \<noteq> NULL"
    "avcodec_alloc_context3 sample_av 3 = (7, sample_ctx)" "(7 :: ptr) \<noteq> NULL"
    by (simp_all add: sample_av_def)
  ultimately obtain c rc c1 t where "avcodec_open2 sample_av c 3 = (rc, c1)"
    "openAudioCodec sample_av s2 = Some (if rc < 0 then -1 else 0, t)" "ctx_at t = Some c1"
    "codec_id c = CODEC_ID_MP3" "av_channels c = 2" "av_sample_rate c = 44100" "av_bit_rate c = 128000"
    using role_and_parameters_select_codec[OF _ _ disjI1[OF HOL.refl] r p] by blast
  moreover from this have "rc = 0" "c1 = c" by (simp_all add: sample_av_def)
  ultimately show ?thesis using p by auto
qed

end
