(* ===== verification/AudDecCmd.thy ===== *)
theory AudDecCmd
  imports AudDecPacket OmxDrain
begin

text \<open>
  The commands of the audio decoder (\<open>NX_OMXAudioDecoderFFMpeg.c\<close>): the flush, \<open>NX_FFAudDec_StateTransition\<close>,
  \<open>NX_FFAudDec_CommandProc\<close>, and the creation and destruction of the component. A transition is a first part and
  steps between the points at which the command thread blocks.
\<close>

section \<open>Flushing\<close>

text \<open>
  The loops of a flush: they test the number of buffers, but not the result of the pop; \<open>p\<close> is the local variable
  \<open>pBuf\<close>. The length of the data is cleared before the buffer goes back. The loops have no bound, so that the
  value \<open>None\<close> also stands for a loop that never ends.
\<close>

partial_function (option) aud_flush_queue :: "nat \<Rightarrow> OMX_DIRTYPE \<Rightarrow> ptr \<Rightarrow> NX_AUDDEC \<Rightarrow> (ptr \<times> NX_AUDDEC) option" where
  "aud_flush_queue k d p s =
     (if NX_GetQueueCnt (pBufQueue s k) > 0 then
        (let (rc, e, q) = NX_PopQueue (pBufQueue s k);
             p = (case e of None \<Rightarrow> p | Some x \<Rightarrow> x)
         in do {
           s \<leftarrow> upd_hdr p (\<lambda>h. h\<lparr>nFilledLen := 0\<rparr>) (s\<lparr>pBufQueue := (pBufQueue s)(k := q)\<rparr>);
           s \<leftarrow> give_back d p s;
           aud_flush_queue k d p s })
      else Some (p, s))"

text \<open>The branch for \<open>OMX_CommandFlush\<close>; the codec is flushed with the next packet.\<close>

definition aud_flush :: "NX_AUDDEC \<Rightarrow> NX_AUDDEC option" where
  "aud_flush s = do {
     (p, s) \<leftarrow> aud_flush_queue 0 OMX_DirInput NULL s;
     (p, s) \<leftarrow> aud_flush_queue 1 OMX_DirOutput p s;
     Some (s\<lparr>bAudFlush := True\<rparr>) }"

section \<open>State transitions\<close>

text \<open>
  Where the command thread stands inside \<open>NX_FFAudDec_StateTransition\<close>: returned with a code; from Loaded to Idle, at
  the allocation semaphore for port \<open>i\<close>, the last time before the buffer thread is created; from Idle to Loaded,
  before the order to exit, at \<open>pthread_join\<close> and at the allocation semaphore for port \<open>i\<close>, the last time before the
  codec is closed; from Executing to Idle, before the buffers are returned under the mutex.
\<close>

datatype aud_trans =
    AudDone OMX_ERRORTYPE
  | AudAlloc nat
  | AudExit
  | AudJoin
  | AudFree nat
  | AudReturn

text \<open>A target that no \<open>case\<close> names falls to \<open>default\<close>: success, and the state stays.\<close>

definition NX_FFAudDec_StateTransition ::
  "OMX_STATETYPE \<Rightarrow> OMX_STATETYPE \<Rightarrow> NX_AUDDEC \<Rightarrow> (aud_trans \<times> NX_AUDDEC \<times> thread_effect) option" where
  "NX_FFAudDec_StateTransition cur new s =
     (if cur = new then Some (AudDone OMX_ErrorSameState, s, Quiet)
      else if OMX_StateInvalid = cur \<or> OMX_StateInvalid = new then Some (AudDone OMX_ErrorInvalidState, s, Quiet)
      else case cur of
        OMX_StateLoaded \<Rightarrow>
          (case new of
             OMX_StateIdle \<Rightarrow> Some (AudAlloc 0, s, Quiet)
           | OMX_StateOther n \<Rightarrow> Some (AudDone OMX_ErrorNone, s, Quiet)
           | _ \<Rightarrow> Some (AudDone OMX_ErrorIncorrectStateTransition, s, Quiet))
      | OMX_StateIdle \<Rightarrow>
          (case new of
             OMX_StateLoaded \<Rightarrow> Some (AudExit, s, Quiet)
           | OMX_StateExecuting \<Rightarrow> do {
               c \<leftarrow> post_handle (hBufCtrlSem s);
               Some (AudDone OMX_ErrorNone,
                 s\<lparr>eCmdBufThread := NX_THREAD_CMD_RUN, hBufCtrlSem := c, eCurState := new\<rparr>, PostsCtrl) }
           | OMX_StatePause \<Rightarrow> Some (AudDone OMX_ErrorNone, s\<lparr>eCurState := new\<rparr>, Quiet)
           | OMX_StateOther n \<Rightarrow> Some (AudDone OMX_ErrorNone, s, Quiet)
           | _ \<Rightarrow> Some (AudDone OMX_ErrorIncorrectStateTransition, s, Quiet))
      | OMX_StateExecuting \<Rightarrow>
          (case new of
             OMX_StateIdle \<Rightarrow> do {
               m \<leftarrow> post_handle (hBufChangeSem s);
               Some (AudReturn, s\<lparr>eCmdBufThread := NX_THREAD_CMD_PAUSE, hBufChangeSem := m\<rparr>, Quiet) }
           | OMX_StatePause \<Rightarrow> Some (AudDone OMX_ErrorNone, s\<lparr>eCurState := new\<rparr>, Quiet)
           | OMX_StateOther n \<Rightarrow> Some (AudDone OMX_ErrorNone, s, Quiet)
           | _ \<Rightarrow> Some (AudDone OMX_ErrorIncorrectStateTransition, s, Quiet))
      | OMX_StatePause \<Rightarrow>
          (case new of
             OMX_StateIdle \<Rightarrow> Some (AudDone OMX_ErrorNone, s\<lparr>eCurState := new\<rparr>, Quiet)
           | OMX_StateExecuting \<Rightarrow> Some (AudDone OMX_ErrorNone, s\<lparr>eCurState := new\<rparr>, Quiet)
           | OMX_StateOther n \<Rightarrow> Some (AudDone OMX_ErrorNone, s, Quiet)
           | _ \<Rightarrow> Some (AudDone OMX_ErrorIncorrectStateTransition, s, Quiet))
      | OMX_StateWaitForResources \<Rightarrow>
          (case new of
             OMX_StateLoaded \<Rightarrow> Some (AudDone OMX_ErrorNone, s\<lparr>eCurState := new\<rparr>, Quiet)
           | OMX_StateIdle \<Rightarrow> Some (AudDone OMX_ErrorNone, s\<lparr>eCurState := new\<rparr>, Quiet)
           | OMX_StateOther n \<Rightarrow> Some (AudDone OMX_ErrorNone, s, Quiet)
           | _ \<Rightarrow> Some (AudDone OMX_ErrorIncorrectStateTransition, s, Quiet))
      | _ \<Rightarrow> Some (AudDone OMX_ErrorUndefined, s, Quiet))"

text \<open>The transitions that only set the state, and those that take more than that.\<close>

definition aud_direct :: "(OMX_STATETYPE \<times> OMX_STATETYPE) set" where
  "aud_direct = {(OMX_StateIdle, OMX_StatePause), (OMX_StateExecuting, OMX_StatePause), (OMX_StatePause, OMX_StateIdle),
     (OMX_StatePause, OMX_StateExecuting), (OMX_StateWaitForResources, OMX_StateLoaded),
     (OMX_StateWaitForResources, OMX_StateIdle)}"

definition aud_staged :: "(OMX_STATETYPE \<times> OMX_STATETYPE) set" where
  "aud_staged = {(OMX_StateLoaded, OMX_StateIdle), (OMX_StateIdle, OMX_StateLoaded), (OMX_StateIdle, OMX_StateExecuting),
     (OMX_StateExecuting, OMX_StateIdle)}"

lemma aud_refused_rows:
  "(OMX_StateLoaded, new) \<notin> aud_staged \<Longrightarrow> \<exists>e. NX_FFAudDec_StateTransition OMX_StateLoaded new s = Some (AudDone e, s, Quiet)"
  "(OMX_StateIdle, new) \<notin> aud_staged \<union> aud_direct \<Longrightarrow> \<exists>e. NX_FFAudDec_StateTransition OMX_StateIdle new s = Some (AudDone e, s, Quiet)"
  "(OMX_StateExecuting, new) \<notin> aud_staged \<union> aud_direct \<Longrightarrow>
     \<exists>e. NX_FFAudDec_StateTransition OMX_StateExecuting new s = Some (AudDone e, s, Quiet)"
  "(OMX_StatePause, new) \<notin> aud_direct \<Longrightarrow> \<exists>e. NX_FFAudDec_StateTransition OMX_StatePause new s = Some (AudDone e, s, Quiet)"
  "(OMX_StateWaitForResources, new) \<notin> aud_direct \<Longrightarrow>
     \<exists>e. NX_FFAudDec_StateTransition OMX_StateWaitForResources new s = Some (AudDone e, s, Quiet)"
  "\<exists>e. NX_FFAudDec_StateTransition OMX_StateInvalid new s = Some (AudDone e, s, Quiet)"
  "\<exists>e. NX_FFAudDec_StateTransition (OMX_StateOther n) new s = Some (AudDone e, s, Quiet)"
  by (cases new; simp add: NX_FFAudDec_StateTransition_def aud_staged_def aud_direct_def)+

lemma aud_transition_refused:
  "(cur, new) \<notin> aud_staged \<union> aud_direct \<Longrightarrow> \<exists>e. NX_FFAudDec_StateTransition cur new s = Some (AudDone e, s, Quiet)"
  by (cases cur) (simp_all add: aud_refused_rows)

lemma aud_transition_direct:
  "(cur, new) \<in> aud_direct \<Longrightarrow> NX_FFAudDec_StateTransition cur new s = Some (AudDone OMX_ErrorNone, s\<lparr>eCurState := new\<rparr>, Quiet)"
  by (auto simp: aud_direct_def NX_FFAudDec_StateTransition_def)

lemma aud_transition_cases:
  assumes "NX_FFAudDec_StateTransition cur new s = Some (pc, t, f)"
  obtains (refused) e where "pc = AudDone e" "t = s" "f = Quiet"
  | (begins) "cur = OMX_StateLoaded" "new = OMX_StateIdle" "pc = AudAlloc 0" "t = s" "f = Quiet"
  | (unload) "cur = OMX_StateIdle" "new = OMX_StateLoaded" "pc = AudExit" "t = s" "f = Quiet"
  | (run) c where "cur = OMX_StateIdle" "new = OMX_StateExecuting" "post_handle (hBufCtrlSem s) = Some c" "pc = AudDone OMX_ErrorNone"
      "t = s\<lparr>eCmdBufThread := NX_THREAD_CMD_RUN, hBufCtrlSem := c, eCurState := OMX_StateExecuting\<rparr>" "f = PostsCtrl"
  | (stop) m where "cur = OMX_StateExecuting" "new = OMX_StateIdle" "post_handle (hBufChangeSem s) = Some m" "pc = AudReturn"
      "t = s\<lparr>eCmdBufThread := NX_THREAD_CMD_PAUSE, hBufChangeSem := m\<rparr>" "f = Quiet"
  | (direct) "(cur, new) \<in> aud_direct" "pc = AudDone OMX_ErrorNone" "t = s\<lparr>eCurState := new\<rparr>" "f = Quiet"
proof -
  consider "(cur, new) \<in> aud_direct" | "cur = OMX_StateLoaded" "new = OMX_StateIdle" | "cur = OMX_StateIdle" "new = OMX_StateLoaded"
    | "cur = OMX_StateIdle" "new = OMX_StateExecuting" | "cur = OMX_StateExecuting" "new = OMX_StateIdle"
    | "(cur, new) \<notin> aud_staged \<union> aud_direct"
    by (auto simp: aud_staged_def)
  then show ?thesis
  proof cases
    case 1
    with assms aud_transition_direct[of cur new s] that(6) show ?thesis by simp
  next
    case 2
    with assms that(2) show ?thesis by (simp add: NX_FFAudDec_StateTransition_def)
  next
    case 3
    with assms that(3) show ?thesis by (simp add: NX_FFAudDec_StateTransition_def)
  next
    case 4
    with assms obtain c where "post_handle (hBufCtrlSem s) = Some c" "pc = AudDone OMX_ErrorNone" "f = PostsCtrl"
      "t = s\<lparr>eCmdBufThread := NX_THREAD_CMD_RUN, hBufCtrlSem := c, eCurState := OMX_StateExecuting\<rparr>"
      by (auto simp: NX_FFAudDec_StateTransition_def split: bind_splits)
    with 4 that(4) show ?thesis by simp
  next
    case 5
    with assms obtain m where "post_handle (hBufChangeSem s) = Some m" "pc = AudReturn" "f = Quiet"
      "t = s\<lparr>eCmdBufThread := NX_THREAD_CMD_PAUSE, hBufChangeSem := m\<rparr>"
      by (auto simp: NX_FFAudDec_StateTransition_def split: bind_splits)
    with 5 that(5) show ?thesis by simp
  next
    case 6
    with assms aud_transition_refused[of cur new s] that(1) show ?thesis by auto
  qed
qed

text \<open>
  One step of a transition; \<open>joined\<close>: the buffer thread has ended. Behind the creation of the thread the transition
  waits at \<open>hBufCtrlSem\<close> for its first post, and goes on with \<open>aud_start_done\<close>.
\<close>

fun aud_transition_step :: "bool \<Rightarrow> aud_trans \<Rightarrow> NX_AUDDEC \<Rightarrow> (aud_trans \<times> NX_AUDDEC \<times> thread_effect) option" where
  "aud_transition_step joined (AudAlloc i) s =
     (if i < nNumPort s then do { s \<leftarrow> pend_alloc i s; Some (AudAlloc (i + 1), s, Quiet) }
      else Some (AudAlloc i,
        s\<lparr>eCmdBufThread := NX_THREAD_CMD_PAUSE, hBufCtrlSem := create_sem 0 1,
          hBufChangeSem := create_sem 0 (word_of_nat (FFDEC_AUD_NUM_PORT * 1024))\<rparr>, CreatesThread))"
| "aud_transition_step joined AudExit s = do {
     m \<leftarrow> post_handle (hBufChangeSem s);
     c \<leftarrow> post_handle (hBufCtrlSem s);
     Some (AudJoin, s\<lparr>eCmdBufThread := NX_THREAD_CMD_EXIT, hBufChangeSem := m, hBufCtrlSem := c\<rparr>, PostsCtrl) }"
| "aud_transition_step joined AudJoin s =
     (if joined then
        Some (AudFree 0, s\<lparr>hBufChangeSem := NX_DestroySem (hBufChangeSem s), hBufCtrlSem := NX_DestroySem (hBufCtrlSem s)\<rparr>, Quiet)
      else None)"
| "aud_transition_step joined (AudFree i) s =
     (if i < nNumPort s then do { s \<leftarrow> pend_alloc i s; Some (AudFree (i + 1), s, Quiet) }
      else do {
        s \<leftarrow> closeAudioCodec s;
        Some (AudDone OMX_ErrorNone, s\<lparr>eCurState := OMX_StateLoaded\<rparr>, Quiet) })"
| "aud_transition_step joined AudReturn s = do {
     s \<leftarrow> drain_ports [0..<nNumPort s] s;
     Some (AudDone OMX_ErrorNone, s\<lparr>eCurState := OMX_StateIdle\<rparr>, Quiet) }"
| "aud_transition_step joined (AudDone e) s = None"

text \<open>The rest of the transition from Loaded to Idle: what \<open>openAudioCodec\<close> returns is not looked at.\<close>

definition aud_start_done :: "av_lib \<Rightarrow> NX_AUDDEC \<Rightarrow> NX_AUDDEC option" where
  "aud_start_done lib s = do {
     (rc, s) \<leftarrow> openAudioCodec lib s;
     Some (s\<lparr>eCurState := OMX_StateIdle\<rparr>) }"

section \<open>Commands\<close>

definition NX_FFAudDec_CommandProc ::
  "OMX_COMMANDTYPE \<Rightarrow> OMX_U32 \<Rightarrow> ptr \<Rightarrow> NX_AUDDEC \<Rightarrow> (aud_trans cmd_next \<times> NX_AUDDEC \<times> thread_effect) option" where
  "NX_FFAudDec_CommandProc Cmd n dat s =
     (case Cmd of
        OMX_CommandStateSet \<Rightarrow>
          (if eCurState s = to_state n then do {
             s \<leftarrow> SendEvent OMX_EventError (omx_error_code OMX_ErrorSameState) 0 dat s;
             Some (Returned, s, Quiet) }
           else do {
             (pc, s, f) \<leftarrow> NX_FFAudDec_StateTransition (eCurState s) (to_state n) s;
             Some (InTransition pc, s, f) })
      | OMX_CommandFlush \<Rightarrow> do {
          s \<leftarrow> aud_flush s;
          s \<leftarrow> send_complete OMX_CommandFlush n dat s;
          Some (Returned, s, Quiet) }
      | OMX_CommandPortDisable \<Rightarrow>
          (if OMX_ALL \<noteq> n \<or> word_of_nat FFDEC_AUD_NUM_PORT \<ge> n then do {
             s \<leftarrow> SendEvent OMX_EventError (omx_error_code OMX_ErrorBadPortIndex) 0 dat s;
             Some (Returned, s, Quiet) }
           else Some (AtCtrl, s, Quiet))
      | OMX_CommandPortEnable \<Rightarrow> Some (AtCtrl, s, Quiet)
      | OMX_CommandMarkBuffer \<Rightarrow> Some (AtCtrl, s, Quiet)
      | _ \<Rightarrow> do {
          s \<leftarrow> SendEvent OMX_EventCmdComplete 0 0 dat s;
          Some (Returned, s, Quiet) })"

text \<open>
  A port command behind the pend. Disabling clears \<open>bEnabled\<close> of the input port unless the command is for all ports,
  which is the only case that gets here; enabling clears it always. The event names neither command nor port.
\<close>

definition aud_port_command :: "OMX_COMMANDTYPE \<Rightarrow> OMX_U32 \<Rightarrow> ptr \<Rightarrow> NX_AUDDEC \<Rightarrow> NX_AUDDEC option" where
  "aud_port_command Cmd n dat s = do {
     let s = (if Cmd = OMX_CommandPortDisable \<and> OMX_ALL \<noteq> n \<or> Cmd = OMX_CommandPortEnable
              then upd_port 0 (\<lambda>p. p\<lparr>bPortEnabled := False\<rparr>) s else s);
     c \<leftarrow> post_handle (hBufCtrlSem s);
     SendEvent OMX_EventCmdComplete 0 0 dat (s\<lparr>hBufCtrlSem := c\<rparr>) }"

text \<open>The end of \<open>OMX_CommandStateSet\<close>: the code of the transition is not looked at.\<close>

definition aud_finish_state_set :: "OMX_U32 \<Rightarrow> ptr \<Rightarrow> NX_AUDDEC \<Rightarrow> NX_AUDDEC option" where
  "aud_finish_state_set n dat s = send_complete OMX_CommandStateSet n dat s"

section \<open>Creation and destruction\<close>

abbreviation (input) OMX_NumericalDataSigned :: OMX_U32 where "OMX_NumericalDataSigned \<equiv> 0"
abbreviation (input) OMX_EndianLittle :: OMX_U32 where "OMX_EndianLittle \<equiv> 1"
abbreviation (input) OMX_AUDIO_PCMModeLinear :: OMX_U32 where "OMX_AUDIO_PCMModeLinear \<equiv> 0"

text \<open>A port: the version is set and then cleared again.\<close>

definition aud_init_port :: "nat \<Rightarrow> OMX_DIRTYPE \<Rightarrow> OMX_U32 \<Rightarrow> OMX_U32 \<Rightarrow> NX_BASEPORTTYPE" where
  "aud_init_port i dir cnt sz =
     (NX_InitOMXPort (word_of_nat i) dir True OMX_PortDomainAudio (zero_port\<lparr>nVersion := NX_OMXSetVersion\<rparr>))
       \<lparr>nBufferCountActual := cnt, nBufferCountMin := cnt, nBufferSize := sz\<rparr>"

text \<open>The members that \<open>ComponentInit\<close> sets once the base is initialised.\<close>

definition init_auddec :: "NX_AUDDEC \<Rightarrow> NX_AUDDEC" where
  "init_auddec s =
     (let outp = aud_init_port 1 OMX_DirOutput FFDEC_AUD_OUTPORT_MIN_BUF_CNT FFDEC_AUD_OUTPORT_MIN_BUF_SIZE in
      s\<lparr>comp_nVersion := NX_OMXSetVersion, nNumPort := FFDEC_AUD_NUM_PORT,
        pPort := (pPort s)(0 := aud_init_port 0 OMX_DirInput FFDEC_AUD_INPORT_MIN_BUF_CNT FFDEC_AUD_INPORT_MIN_BUF_SIZE,
                           1 := outp\<lparr>audio := (audio outp)\<lparr>aud_eEncoding := OMX_AUDIO_CodingPCM\<rparr>\<rparr>),
        pBufQueue := (pBufQueue s)(0 := snd (NX_InitQueue 0 NX_OMX_MAX_BUF), 1 := snd (NX_InitQueue 0 NX_OMX_MAX_BUF)),
        outPortType := (outPortType s)\<lparr>pcm_nVersion := NX_OMXSetVersion, pcm_nPortIndex := 1, pcm_nChannels := 2,
          pcm_eNumData := OMX_NumericalDataSigned, pcm_eEndian := OMX_EndianLittle, pcm_bInterleaved := True, pcm_nBitPerSample := 16, pcm_ePCMMode := OMX_AUDIO_PCMModeLinear\<rparr>,
        cmdQueue := snd (NX_InitQueue 0 NX_MAX_QUEUE_ELEMENT),
        hSemCmd := create_sem 0 (word_of_nat NX_MAX_QUEUE_ELEMENT), hSemCmdWait := create_sem 0 1,
        eCmdThreadCmd := NX_THREAD_CMD_RUN, compName := ''OMX.NX.AUDIO_DECODER.FFMPEG'', compRole := ''audio_decoder.ac3'',
        hBufAllocSem := create_sem 0 256, hAudioCodec := NULL, avctx := NULL\<rparr>)"

text \<open>
  \<open>num\<close> is \<open>gstNumInstance\<close>, at most 1; \<open>alloc\<close> and \<open>alloc_cb\<close> say whether the blocks for the component and for its
  callbacks are allocated; the command thread has started when the call returns.
\<close>

definition NX_FFMpegAudioDecoder_ComponentInit :: "nat \<Rightarrow> bool \<Rightarrow> bool \<Rightarrow> ptr \<Rightarrow> OMX_ERRORTYPE \<times> NX_AUDDEC option \<times> nat" where
  "NX_FFMpegAudioDecoder_ComponentInit num alloc alloc_cb hComponent =
     (if num \<ge> 1 then (OMX_ErrorInsufficientResources, None, num)
      else if \<not> alloc then (OMX_ErrorInsufficientResources, None, num)
      else
        (let (e, s) = NX_BaseComponentInit alloc_cb hComponent zero_auddec in
         if e \<noteq> OMX_ErrorNone then (e, None, num) else (OMX_ErrorNone, Some (init_auddec s), num + 1)))"

text \<open>\<open>ComponentDeInit\<close> up to \<open>pthread_join\<close>, and its rest.\<close>

definition aud_deinit_start :: "NX_AUDDEC \<Rightarrow> NX_AUDDEC option" where
  "aud_deinit_start s = do {
     let s = s\<lparr>eCmdThreadCmd := NX_THREAD_CMD_EXIT\<rparr>;
     w \<leftarrow> post_handle (hSemCmdWait s);
     c \<leftarrow> post_handle (hSemCmd s);
     Some (s\<lparr>hSemCmdWait := w, hSemCmd := c\<rparr>) }"

definition aud_deinit_finish :: "nat \<Rightarrow> NX_AUDDEC \<Rightarrow> OMX_ERRORTYPE \<times> NX_AUDDEC \<times> nat" where
  "aud_deinit_finish num s =
     (OMX_ErrorNone,
      s\<lparr>cmdQueue := NX_DeinitQueue (cmdQueue s), hSemCmdWait := NX_DestroySem (hSemCmdWait s),
        hSemCmd := NX_DestroySem (hSemCmd s),
        pBufQueue := (pBufQueue s)(0 := NX_DeinitQueue (pBufQueue s 0), 1 := NX_DeinitQueue (pBufQueue s 1)),
        hBufAllocSem := NX_DestroySem (hBufAllocSem s), pAudExtraData := None, compName := [], compRole := []\<rparr>,
      num - 1)"

section \<open>A flush ends\<close>

text \<open>The headers without data, and what the callbacks report.\<close>

definition no_data :: "ptr list \<Rightarrow> (ptr \<Rightarrow> OMX_BUFFERHEADERTYPE option) \<Rightarrow> ptr \<Rightarrow> OMX_BUFFERHEADERTYPE option" where
  "no_data ps m p = (if p \<in> set ps then map_option (\<lambda>h. h\<lparr>nFilledLen := 0\<rparr>) (m p) else m p)"

definition flush_event :: "OMX_DIRTYPE \<Rightarrow> NX_AUDDEC \<Rightarrow> ptr \<Rightarrow> omx_call" where
  "flush_event d s p = (let h = (the (hdr_mem s p))\<lparr>nFilledLen := 0\<rparr> in
     case d of OMX_DirInput \<Rightarrow> EmptyBufferDone p h | OMX_DirOutput \<Rightarrow> FillBufferDone p h)"

definition flushed :: "nat \<Rightarrow> OMX_DIRTYPE \<Rightarrow> NX_AUDDEC \<Rightarrow> NX_AUDDEC \<Rightarrow> bool" where
  "flushed k d s t \<longleftrightarrow> (\<exists>q. t = s\<lparr>hdr_mem := no_data (queue_list (pBufQueue s k)) (hdr_mem s), pBufQueue := (pBufQueue s)(k := q),
       trace := trace s @ map (flush_event d s) (queue_list (pBufQueue s k))\<rparr> \<and> buf_queue q \<and> queue_list q = [])"

lemma no_data_Nil [simp]: "no_data [] m = m"
  by (simp add: no_data_def fun_eq_iff)

lemma no_data_Cons: "m p = Some h \<Longrightarrow> no_data ps (m(p \<mapsto> h\<lparr>nFilledLen := 0\<rparr>)) = no_data (p # ps) m"
  by (auto simp: no_data_def fun_eq_iff)

lemma flush_event_again: "hdr_mem s p = Some h \<Longrightarrow> hdr_mem t = (hdr_mem s)(p \<mapsto> h\<lparr>nFilledLen := 0\<rparr>) \<Longrightarrow> flush_event d t = flush_event d s"
  by (rule ext) (simp add: flush_event_def)

lemma flushed_self: "queue_list (pBufQueue s k) = [] \<Longrightarrow> buf_queue (pBufQueue s k) \<Longrightarrow> flushed k d s s"
  unfolding flushed_def by (intro exI[of _ "pBufQueue s k"]) simp

text \<open>One round of the loop.\<close>

lemma flush_next:
  assumes "buf_queue (pBufQueue s k)" and "can_give d (queue_list (pBufQueue s k)) s" and "queue_list (pBufQueue s k) = x # ps"
  obtains rc q v t where "NX_PopQueue (pBufQueue s k) = (rc, Some x, q)"
    "upd_hdr x (\<lambda>h. h\<lparr>nFilledLen := 0\<rparr>) (s\<lparr>pBufQueue := (pBufQueue s)(k := q)\<rparr>) = Some v" "give_back d x v = Some t"
    "buf_queue (pBufQueue t k)" "queue_list (pBufQueue t k) = ps" "can_give d ps t" "\<And>u. flushed k d t u \<Longrightarrow> flushed k d s u"
proof -
  obtain rc e q where pop: "NX_PopQueue (pBufQueue s k) = (rc, e, q)" by (metis prod_cases3)
  have q: "e = Some x" "queue_list q = ps" "buf_queue q"
    using buf_pop_cases[OF pop assms(1)] buf_queue_popped[OF pop assms(1)] assms(3) by auto
  obtain h where h: "hdr_mem s x = Some h" using assms(2,3) by (auto simp: can_give_def)
  define v where "v = s\<lparr>pBufQueue := (pBufQueue s)(k := q), hdr_mem := (hdr_mem s)(x \<mapsto> h\<lparr>nFilledLen := 0\<rparr>)\<rparr>"
  define t where "t = emit (flush_event d s x) v"
  have ev: "give_event d v x = flush_event d s x" by (simp add: v_def give_event_def flush_event_def h split: OMX_DIRTYPE.splits)
  show thesis
  proof (rule that[of rc q v t])
    show "NX_PopQueue (pBufQueue s k) = (rc, Some x, q)" using pop q(1) by simp
    show "upd_hdr x (\<lambda>h. h\<lparr>nFilledLen := 0\<rparr>) (s\<lparr>pBufQueue := (pBufQueue s)(k := q)\<rparr>) = Some v" by (simp add: upd_hdr_def h v_def)
    have "can_give d (x # ps) v" using assms(2,3) by (simp add: can_give_def v_def)
    from give_back_spec[OF this] show "give_back d x v = Some t" by (simp add: t_def ev)
    show "can_give d ps t" using assms(2,3) by (simp add: can_give_def v_def t_def emit_def)
    have m: "flush_event d t = flush_event d s" by (rule flush_event_again[OF h]) (simp add: t_def v_def emit_def)
    show "flushed k d s u" if "flushed k d t u" for u
      using that q(2) assms(3) unfolding flushed_def m by (auto simp: t_def v_def emit_def no_data_Cons[of "hdr_mem s", OF h])
  qed (use q in \<open>simp_all add: t_def v_def emit_def\<close>)
qed

lemma aud_flush_queue_ends:
  assumes "buf_queue (pBufQueue s k)" and "can_give d (queue_list (pBufQueue s k)) s"
  shows "\<exists>p' t. aud_flush_queue k d p s = Some (p', t) \<and> flushed k d s t"
  using assms
proof (induction "queue_list (pBufQueue s k)" arbitrary: s p)
  case Nil
  then have "curElements (pBufQueue s k) = 0" by (metis length_queue_list list.size(3))
  then have "aud_flush_queue k d p s = Some (p, s)" by (subst aud_flush_queue.simps) (simp add: NX_GetQueueCnt_def)
  with Nil flushed_self[of s k d] show ?case by simp
next
  case (Cons x ps)
  obtain rc q v t where t: "NX_PopQueue (pBufQueue s k) = (rc, Some x, q)"
    "upd_hdr x (\<lambda>h. h\<lparr>nFilledLen := 0\<rparr>) (s\<lparr>pBufQueue := (pBufQueue s)(k := q)\<rparr>) = Some v" "give_back d x v = Some t"
    "buf_queue (pBufQueue t k)" "queue_list (pBufQueue t k) = ps" "can_give d ps t" "\<And>u. flushed k d t u \<Longrightarrow> flushed k d s u"
    by (rule flush_next[OF Cons.prems Cons.hyps(2)[symmetric]]) (rule that, assumption+)
  from Cons.hyps(1)[OF t(5)[symmetric] t(4), of x] t(5-7) obtain p' u where
    "aud_flush_queue k d x t = Some (p', u)" "flushed k d s u" by auto
  moreover have "0 < curElements (pBufQueue s k)" using Cons.hyps(2) by (metis length_queue_list length_greater_0_conv list.distinct(1))
  ultimately show ?case using t(1-3) by (subst aud_flush_queue.simps) (simp add: NX_GetQueueCnt_def)
qed

text \<open>
  C26: A flush of the audio decoder ends: on a well-formed component, with the client's callbacks set and a header for
  every buffer that waits, both queues are empty then and every buffer was given back exactly once, without data,
  the input buffers first, each in the order of its queue; the codec is flushed with the next packet. The return
  of the buffers in a state transition ends as well; there the headers keep what they say.
\<close>

theorem aud_flush_ends:
  assumes "aud_wf s" and "can_give OMX_DirInput (in_list s @ out_list s) s"
  shows "(\<exists>t. aud_flush s = Some t \<and> in_list t = [] \<and> out_list t = [] \<and> bAudFlush t \<and>
       trace t = trace s @ map (flush_event OMX_DirInput s) (in_list s) @ map (flush_event OMX_DirOutput s) (out_list s)) \<and>
     (\<exists>t. drain_ports [0..<nNumPort s] s = Some t \<and> in_list t = [] \<and> out_list t = [] \<and>
       trace t = trace s @ map (\<lambda>p. EmptyBufferDone p (the (hdr_mem s p))) (in_list s) @ map (\<lambda>p. FillBufferDone p (the (hdr_mem s p))) (out_list s))"
proof
  have w: "buf_queue (pBufQueue s 0)" "buf_queue (pBufQueue s (Suc 0))" "eDir (pPort s 0) = OMX_DirInput"
    "eDir (pPort s (Suc 0)) = OMX_DirOutput" "nNumPort s = 2" using assms(1) by (simp_all add: aud_wf_def)
  have g: "can_give OMX_DirInput (in_list s) s" using assms(2) by (simp add: can_give_def)
  obtain p u where u: "aud_flush_queue 0 OMX_DirInput NULL s = Some (p, u)" "flushed 0 OMX_DirInput s u"
    using aud_flush_queue_ends[OF w(1) g] by blast
  have u': "buf_queue (pBufQueue u (Suc 0))" "can_give OMX_DirOutput (queue_list (pBufQueue u (Suc 0))) u" "out_list u = out_list s"
    "hdr_mem u = no_data (in_list s) (hdr_mem s)" "trace u = trace s @ map (flush_event OMX_DirInput s) (in_list s)" "in_list u = []"
    using u(2) w(2) assms(2) by (auto simp: flushed_def can_give_def no_data_def)
  have ev: "flush_event OMX_DirOutput u x = flush_event OMX_DirOutput s x" if "x \<in> set (out_list s)" for x
  proof -
    from that assms(2) obtain h where "hdr_mem s x = Some h" by (auto simp: can_give_def)
    then show ?thesis by (simp add: flush_event_def u'(4) no_data_def)
  qed
  obtain p' t where t: "aud_flush_queue (Suc 0) OMX_DirOutput p u = Some (p', t)" "flushed (Suc 0) OMX_DirOutput u t"
    using aud_flush_queue_ends[OF u'(1,2)] by blast
  have "aud_flush s = Some (t\<lparr>bAudFlush := True\<rparr>)" using u(1) t(1) by (simp add: aud_flush_def)
  moreover have "in_list t = [] \<and> out_list t = [] \<and>
      trace t = trace s @ map (flush_event OMX_DirInput s) (in_list s) @ map (flush_event OMX_DirOutput s) (out_list s)"
    using t(2) u'(3,5,6) ev by (auto simp: flushed_def)
  ultimately show "\<exists>t. aud_flush s = Some t \<and> in_list t = [] \<and> out_list t = [] \<and> bAudFlush t \<and>
       trace t = trace s @ map (flush_event OMX_DirInput s) (in_list s) @ map (flush_event OMX_DirOutput s) (out_list s)"
    by (intro exI[of _ "t\<lparr>bAudFlush := True\<rparr>"]) simp
  obtain u t where d: "drain_ports [0, 1] s = Some t" "emptied 0 OMX_DirInput s u" "emptied 1 OMX_DirOutput u t"
    using drain_ports_empties[of s] w assms(2) by auto
  from d(2) have e: "out_list u = out_list s" "hdr_mem u = hdr_mem s" "in_list u = []"
    "trace u = trace s @ map (\<lambda>p. EmptyBufferDone p (the (hdr_mem s p))) (in_list s)"
    by (auto simp: emptied_def give_event_def)
  from d(3) e have "in_list t = []" "out_list t = []"
    "trace t = trace s @ map (\<lambda>p. EmptyBufferDone p (the (hdr_mem s p))) (in_list s) @ map (\<lambda>p. FillBufferDone p (the (hdr_mem s p))) (out_list s)"
    by (auto simp: emptied_def give_event_def)
  with d(1) w(5) show "\<exists>t. drain_ports [0..<nNumPort s] s = Some t \<and> in_list t = [] \<and> out_list t = [] \<and>
       trace t = trace s @ map (\<lambda>p. EmptyBufferDone p (the (hdr_mem s p))) (in_list s) @ map (\<lambda>p. FillBufferDone p (the (hdr_mem s p))) (out_list s)"
    by (simp add: upt_conv_Cons numeral_2_eq_2)
qed

theorem aud_flush_ends_witness:
  "\<exists>t. aud_flush sample_aud = Some t \<and> ebd_ptrs (trace t) = [5] \<and> fbd_ptrs (trace t) = [6] \<and> in_list t = []"
proof -
  have "can_give OMX_DirInput (in_list sample_aud @ out_list sample_aud) sample_aud"
    using sample_aud_lists by (simp add: can_give_def) (simp add: sample_aud_simps)
  from conjunct1[OF aud_flush_ends[OF sample_aud_wf this]] obtain t where "aud_flush sample_aud = Some t" "in_list t = []"
    "trace t = trace sample_aud @ map (flush_event OMX_DirInput sample_aud) [5] @ map (flush_event OMX_DirOutput sample_aud) [6]"
    unfolding sample_aud_lists by blast
  moreover have "trace sample_aud = []" by (simp add: sample_aud_simps)
  ultimately show ?thesis by (simp add: flush_event_def Let_def)
qed

section \<open>What the commands do to the buffers\<close>

lemma gave_SendEvent: "SendEvent e a b c s = Some t \<Longrightarrow> quiet_step s t"
  by (auto simp: SendEvent_def gave_def ashape_def actl_def emit_def split: if_splits)

lemma flows_hdr: "flows ok is os (s\<lparr>hdr_mem := x\<rparr>) t \<Longrightarrow> flows ok is os s t"
  by (rule quiet_then_flows) simp_all

text \<open>One buffer, from its queue to the client.\<close>

lemma flows_give:
  assumes pop: "NX_PopQueue (pBufQueue s k) = (rc, Some x, q)" and k: "k < 2"
    and v: "quiet_step (s\<lparr>pBufQueue := (pBufQueue s)(k := q)\<rparr>) v" and g: "give_back (port_dir k) x v = Some t"
  shows "flows ok [] [] s t"
proof (rule flows_if_wf)
  assume w: "aud_wf s"
  have wq: "buf_queue (pBufQueue s k)" using w k by (auto simp: aud_wf_def less_2_cases_iff)
  have l: "queue_list (pBufQueue s k) = x # queue_list q" using buf_pop_cases[OF pop wq] by auto
  let ?s = "s\<lparr>pBufQueue := (pBufQueue s)(k := q)\<rparr>"
  have ws: "aud_wf ?s" using w k buf_queue_popped[OF pop wq] by (auto simp: aud_wf_def less_2_cases_iff)
  consider "k = 0" "gave [x] [] ?s t" | "k = Suc 0" "gave [] [x] ?s t"
    using k g quiet_gave[OF v gave_EBD] quiet_gave[OF v gave_FBD] by (auto simp: less_2_cases_iff port_dir_def give_back_def)
  then show "flows ok [] [] s t"
  proof cases
    case 1
    note t = quiet_views[OF 1(2)]
    from t ws l 1(1) show ?thesis by (simp add: flows_def aud_in_view_def aud_out_view_def)
  next
    case 2
    note t = quiet_views[OF 2(2)]
    from t ws l 2(1) show ?thesis by (simp add: flows_def aud_in_view_def aud_out_view_def)
  qed
qed

lemma flows_flush_queue:
  assumes "aud_flush_queue k d p s = Some y" and "k < 2" and "d = port_dir k"
  shows "flows ok [] [] s (snd y)"
proof -
  have "k < 2 \<and> d = port_dir k \<longrightarrow> flows ok [] [] s (snd y)"
  proof (rule aud_flush_queue.raw_induct[where P = "\<lambda>k d p s y. k < 2 \<and> d = port_dir k \<longrightarrow> flows ok [] [] s (snd y)", OF _ assms(1)],
      rule impI, rule flows_if_wf)
    fix f :: "nat \<Rightarrow> OMX_DIRTYPE \<Rightarrow> ptr \<Rightarrow> NX_AUDDEC \<Rightarrow> (ptr \<times> NX_AUDDEC) option" and k d p s y
    assume ih: "\<And>k d p s y. f k d p s = Some y \<Longrightarrow> k < 2 \<and> d = port_dir k \<longrightarrow> flows ok [] [] s (snd y)"
      and body: "(if NX_GetQueueCnt (pBufQueue s k) > 0 then
        (let (rc, e, q) = NX_PopQueue (pBufQueue s k);
             p = (case e of None \<Rightarrow> p | Some x \<Rightarrow> x)
         in do {
           s \<leftarrow> upd_hdr p (\<lambda>h. h\<lparr>nFilledLen := 0\<rparr>) (s\<lparr>pBufQueue := (pBufQueue s)(k := q)\<rparr>);
           s \<leftarrow> give_back d p s;
           f k d p s })
      else Some (p, s)) = Some y"
      and kd: "k < 2 \<and> d = port_dir k" and w: "aud_wf s"
    show "flows ok [] [] s (snd y)"
    proof (cases "NX_GetQueueCnt (pBufQueue s k) > 0")
      case True
      obtain rc e q where pop: "NX_PopQueue (pBufQueue s k) = (rc, e, q)" by (metis prod_cases3)
      have "buf_queue (pBufQueue s k)" using w kd by (auto simp: aud_wf_def less_2_cases_iff)
      moreover have "queue_list (pBufQueue s k) \<noteq> []" using True length_queue_list[of "pBufQueue s k"] by (metis NX_GetQueueCnt_def less_numeral_extra(3) list.size(3))
      ultimately obtain x where e: "e = Some x" using buf_pop_cases[OF pop] by metis
      from True body pop e obtain v t where v: "upd_hdr x (\<lambda>h. h\<lparr>nFilledLen := 0\<rparr>) (s\<lparr>pBufQueue := (pBufQueue s)(k := q)\<rparr>) = Some v"
        and t: "give_back d x v = Some t" and r: "f k d x t = Some y"
        by (auto split: bind_splits)
      have "quiet_step (s\<lparr>pBufQueue := (pBufQueue s)(k := q)\<rparr>) v" by (rule gave_upd_hdr[OF v quiet_refl])
      with flows_give[of s k rc x q v t] pop e kd t have "flows ok [] [] s t" by simp
      with ih[OF r] kd show ?thesis by (blast intro: flows_two)
    qed (use body in \<open>auto intro: flows_quiet\<close>)
  qed
  with assms(2,3) show ?thesis by blast
qed

lemma flows_flush:
  assumes "aud_flush s = Some t"
  shows "flows ok [] [] s t"
proof -
  from assms obtain p u p' v where u: "aud_flush_queue 0 OMX_DirInput NULL s = Some (p, u)"
    "aud_flush_queue 1 OMX_DirOutput p u = Some (p', v)" "t = v\<lparr>bAudFlush := True\<rparr>"
    by (auto simp: aud_flush_def split: bind_splits)
  have "flows ok [] [] s u" "flows ok [] [] u v"
    using flows_flush_queue[OF u(1)] flows_flush_queue[OF u(2)] by (simp_all add: port_dir_def)
  then have "flows ok [] [] s v" by (rule flows_two)
  with u(3) show ?thesis by (auto intro: flows_then_quiet)
qed

interpretation aud_gives: gives_back aud_wf "flows ok [] []" for ok
proof unfold_locales
  show "flows ok [] [] s t" if "NX_PopQueue (pBufQueue s k) = (rc, Some x, q)" "k < 2"
    "give_back (port_dir k) x (s\<lparr>pBufQueue := (pBufQueue s)(k := q)\<rparr>) = Some t" for s k rc x q t
    using flows_give[OF that(1,2) quiet_refl that(3)] .
qed (auto simp: flows_quiet aud_wf_def port_dir_def less_2_cases_iff intro: flows_two flows_if_wf)

lemma flows_return:
  assumes "drain_ports [0..<nNumPort s] s = Some t"
  shows "flows ok [] [] s t"
proof (rule flows_if_wf)
  assume "aud_wf s"
  with assms show "flows ok [] [] s t" by (intro aud_gives.drained_ports) (auto simp: aud_wf_def)
qed

text \<open>Changes of the control do not touch the buffers.\<close>

lemma flows_ctl [simp]:
  "flows ok is os s (t\<lparr>eCurState := x1\<rparr>) = flows ok is os s t" "flows ok is os s (t\<lparr>eCmdBufThread := x2\<rparr>) = flows ok is os s t"
  "flows ok is os s (t\<lparr>hBufCtrlSem := x3\<rparr>) = flows ok is os s t" "flows ok is os s (t\<lparr>hBufChangeSem := x4\<rparr>) = flows ok is os s t"
  "flows ok is os s (t\<lparr>hSemCmd := x5\<rparr>) = flows ok is os s t" "flows ok is os s (t\<lparr>hSemCmdWait := x6\<rparr>) = flows ok is os s t"
  "flows ok is os s (free_cmd p t) = flows ok is os s t"
  by (simp_all add: flows_def aud_wf_def aud_in_view_def aud_out_view_def free_cmd_def)

lemma flows_refl [simp]: "flows ok [] [] s s"
  by (simp add: flows_quiet)

lemma flows_transition:
  assumes "NX_FFAudDec_StateTransition cur new s = Some (pc, t, f)"
  shows "flows ok [] [] s t"
  by (rule aud_transition_cases[OF assms]) simp_all

lemma quiet_pend_alloc: "pend_alloc i (s :: NX_AUDDEC) = Some t \<Longrightarrow> quiet_step s t"
  by (auto simp: pend_alloc_def split: if_splits bind_splits)

lemma flows_transition_step:
  assumes "aud_transition_step j pc s = Some (pc', t, f)"
  shows "flows ok [] [] s t"
proof (cases pc)
  case (AudFree i)
  show ?thesis
  proof (cases "i < nNumPort s")
    case True
    with assms AudFree have "pend_alloc i s = Some t" by (auto split: bind_splits)
    then show ?thesis by (intro flows_quiet quiet_pend_alloc)
  next
    case False
    with assms AudFree obtain u where "closeAudioCodec s = Some u" "t = u\<lparr>eCurState := OMX_StateLoaded\<rparr>" by (auto split: bind_splits)
    then show ?thesis by (simp add: flows_quiet quiet_close)
  qed
next
  case AudReturn
  with assms obtain u where "drain_ports [0..<nNumPort s] s = Some u" "t = u\<lparr>eCurState := OMX_StateIdle\<rparr>" by (auto split: bind_splits)
  then show ?thesis by (simp add: flows_return)
next
  case (AudAlloc i)
  with assms show ?thesis by (auto split: if_splits bind_splits intro: flows_quiet quiet_pend_alloc)
qed (use assms in \<open>auto split: if_splits bind_splits\<close>)

lemma flows_command:
  assumes "NX_FFAudDec_CommandProc c n dat s = Some (r, t, f)"
  shows "flows ok [] [] s t"
  using assms by (auto simp: NX_FFAudDec_CommandProc_def send_complete_def split: OMX_COMMANDTYPE.splits if_splits bind_splits
      dest: gave_SendEvent flows_flush[of _ _ ok] flows_transition[of _ _ _ _ _ _ ok] intro: flows_quiet flows_then_quiet)

lemma flows_port_command:
  assumes "aud_port_command c n dat s = Some t"
  shows "flows ok [] [] s t"
proof -
  obtain h u where u: "SendEvent OMX_EventCmdComplete 0 0 dat (u\<lparr>hBufCtrlSem := h\<rparr>) = Some t" "quiet_step s u"
    using assms by (auto simp: aud_port_command_def Let_def gave_upd_port split: if_splits bind_splits)
  have "flows ok [] [] s (u\<lparr>hBufCtrlSem := h\<rparr>)" using u(2) by (simp add: flows_quiet)
  then show ?thesis using gave_SendEvent[OF u(1)] by (rule flows_then_quiet)
qed

end
