(* ===== verification/AudDecThread.thy ===== *)
theory AudDecThread
  imports AudDecCmd
begin

text \<open>
  The audio decoder as a concurrent system: the buffer thread (\<open>NX_FFAudDec_BufferMgmtThread\<close>), the command thread
  (\<open>NX_FFAudDec_CommandThread\<close>) and a client that calls the entry points, in any interleaving. A step of a thread is
  the code between two accesses to what the threads share outside the mutex; the critical sections under \<open>hBufMutex\<close>
  are one step each. Both threads pend on \<open>hBufCtrlSem\<close>, which is modelled with its waiting threads, as in
  \<open>OmxSem\<close>; spurious wakeups are left out.
\<close>

section \<open>The buffer thread\<close>

text \<open>
  Where the buffer thread stands: not created; before the first post; at the test of the outer loop; at
  \<open>NX_PendSem( hBufCtrlSem )\<close>, asleep there, and woken; at the test of the inner loop; at
  \<open>NX_PendSem( hBufChangeSem )\<close>; at the test behind it; at the test of each queue, which is made without the mutex;
  before the mutex; ended.
\<close>

datatype aud_buf_pc =
    ABufNone | ABufStart | ABufOuter | ABufPendCtrl | ABufWaitCtrl | ABufWokenCtrl
  | ABufInner | ABufPendChange | ABufWoken | ABufCountIn | ABufCountOut | ABufLocked | ABufDone

text \<open>The result of \<open>decodeAudioFrame\<close> is not looked at.\<close>

definition NX_FFAudDec_Transform :: "av_lib \<Rightarrow> NX_AUDDEC \<Rightarrow> NX_AUDDEC option" where
  "NX_FFAudDec_Transform lib s = map_option snd (decodeAudioFrame lib s)"

fun aud_buf_step :: "av_lib \<Rightarrow> aud_buf_pc \<Rightarrow> NX_AUDDEC \<Rightarrow> (aud_buf_pc \<times> NX_AUDDEC) option" where
  "aud_buf_step lib ABufStart s = do { c \<leftarrow> post_handle (hBufCtrlSem s); Some (ABufOuter, s\<lparr>hBufCtrlSem := c\<rparr>) }"
| "aud_buf_step lib ABufOuter s = Some (if NX_THREAD_CMD_EXIT \<noteq> eCmdBufThread s then ABufPendCtrl else ABufDone, s)"
| "aud_buf_step lib ABufPendCtrl s = ctrl_enter ABufWaitCtrl ABufInner s"
| "aud_buf_step lib ABufWokenCtrl s = ctrl_resume ABufInner s"
| "aud_buf_step lib ABufInner s = Some (if NX_THREAD_CMD_RUN = eCmdBufThread s then ABufPendChange else ABufOuter, s)"
| "aud_buf_step lib ABufPendChange s = do { m \<leftarrow> pend_handle (hBufChangeSem s); Some (ABufWoken, s\<lparr>hBufChangeSem := m\<rparr>) }"
| "aud_buf_step lib ABufWoken s = Some (if NX_THREAD_CMD_RUN \<noteq> eCmdBufThread s then ABufOuter else ABufCountIn, s)"
| "aud_buf_step lib ABufCountIn s = Some (if NX_GetQueueCnt (pInputPortQueue s) > 0 then ABufCountOut else ABufInner, s)"
| "aud_buf_step lib ABufCountOut s = Some (if NX_GetQueueCnt (pOutputPortQueue s) > 0 then ABufLocked else ABufInner, s)"
| "aud_buf_step lib ABufLocked s = do { s \<leftarrow> NX_FFAudDec_Transform lib s; Some (ABufInner, s) }"
| "aud_buf_step lib ABufNone s = None"
| "aud_buf_step lib ABufWaitCtrl s = None"
| "aud_buf_step lib ABufDone s = None"

text \<open>Whether the step posts \<open>hBufCtrlSem\<close>.\<close>

definition aud_buf_posts :: "aud_buf_pc \<Rightarrow> thread_effect" where
  "aud_buf_posts b = (if b = ABufStart then PostsCtrl else Quiet)"

section \<open>The command thread\<close>

text \<open>Where the command thread stands; \<open>p\<close> is the local variable \<open>pCmd\<close>, which keeps its value when a pop fails.\<close>

datatype aud_cmd_pc =
    ACmdStart | ACmdPend ptr | ACmdTest ptr | ACmdProc ptr | ACmdTrans ptr aud_trans
  | ACmdCtrl ptr ctrl_reason | ACmdWait ptr ctrl_reason | ACmdWoken ptr ctrl_reason | ACmdHas ptr ctrl_reason
  | ACmdDone

definition aud_next_pc :: "ptr \<Rightarrow> aud_trans cmd_next \<Rightarrow> aud_cmd_pc" where
  "aud_next_pc p r = (case r of Returned \<Rightarrow> ACmdPend p | InTransition pc \<Rightarrow> ACmdTrans p pc | AtCtrl \<Rightarrow> ACmdCtrl p ForCommand)"

fun aud_cmd_step :: "av_lib \<Rightarrow> bool \<Rightarrow> aud_cmd_pc \<Rightarrow> NX_AUDDEC \<Rightarrow> (aud_cmd_pc \<times> NX_AUDDEC \<times> thread_effect) option" where
  "aud_cmd_step lib joined ACmdStart s = do { w \<leftarrow> post_handle (hSemCmdWait s); Some (ACmdPend NULL, s\<lparr>hSemCmdWait := w\<rparr>, Quiet) }"
| "aud_cmd_step lib joined (ACmdPend p) s = do { c \<leftarrow> pend_handle (hSemCmd s); Some (ACmdTest p, s\<lparr>hSemCmd := c\<rparr>, Quiet) }"
| "aud_cmd_step lib joined (ACmdTest p) s =
     (if NX_THREAD_CMD_RUN \<noteq> eCmdThreadCmd s \<and> 0 = NX_GetQueueCnt (cmdQueue s) then Some (ACmdDone, s, Quiet)
      else
        (let (rc, e, q) = NX_PopQueue (cmdQueue s); s = s\<lparr>cmdQueue := q\<rparr>;
             p = (case e of None \<Rightarrow> p | Some x \<Rightarrow> x)
         in Some (if p \<noteq> NULL then ACmdProc p else ACmdPend p, s, Quiet)))"
| "aud_cmd_step lib joined (ACmdProc p) s = do {
     m \<leftarrow> cmd_mem s p;
     (r, s, f) \<leftarrow> NX_FFAudDec_CommandProc (eCmd m) (nParam1 m) (pCmdData m) s;
     Some (aud_next_pc p r, if r = Returned then free_cmd p s else s, f) }"
| "aud_cmd_step lib joined (ACmdTrans p pc) s =
     (case pc of
        AudDone e \<Rightarrow> do {
          m \<leftarrow> cmd_mem s p;
          s \<leftarrow> aud_finish_state_set (nParam1 m) (pCmdData m) s;
          Some (ACmdPend p, free_cmd p s, Quiet) }
      | _ \<Rightarrow> do {
          (pc', s, f) \<leftarrow> aud_transition_step joined pc s;
          Some (if f = CreatesThread then ACmdCtrl p ForThread else ACmdTrans p pc', s, f) })"
| "aud_cmd_step lib joined (ACmdCtrl p r) s = do {
     (pc, s) \<leftarrow> ctrl_enter (ACmdWait p r) (ACmdHas p r) s;
     Some (pc, s, Quiet) }"
| "aud_cmd_step lib joined (ACmdWoken p r) s = do {
     (pc, s) \<leftarrow> ctrl_resume (ACmdHas p r) s;
     Some (pc, s, Quiet) }"
| "aud_cmd_step lib joined (ACmdHas p ForThread) s = do {
     s \<leftarrow> aud_start_done lib s;
     Some (ACmdTrans p (AudDone OMX_ErrorNone), s, Quiet) }"
| "aud_cmd_step lib joined (ACmdHas p ForCommand) s = do {
     m \<leftarrow> cmd_mem s p;
     s \<leftarrow> aud_port_command (eCmd m) (nParam1 m) (pCmdData m) s;
     Some (ACmdPend p, free_cmd p s, PostsCtrl) }"
| "aud_cmd_step lib joined (ACmdWait p r) s = None"
| "aud_cmd_step lib joined ACmdDone s = None"

section \<open>The client\<close>

text \<open>
  The calls of the client, with the blocks that the calls allocate; the last two are its writes to the memory that it
  shares with the component.
\<close>

datatype aud_call =
    AudEmpty ptr
  | AudFill ptr
  | AudSend ptr OMX_COMMANDTYPE OMX_U32 ptr
  | AudUse ptr OMX_U32 ptr OMX_U32 ptr
  | AudAllocate ptr ptr OMX_U32 ptr OMX_U32
  | AudFreeBuffer OMX_U32 ptr
  | AudSet aud_param
  | AudCallbacks OMX_CALLBACKTYPE ptr
  | AudHeader ptr OMX_BUFFERHEADERTYPE
  | AudData ptr "OMX_U8 list"

fun aud_client_step :: "av_lib \<Rightarrow> aud_call \<Rightarrow> NX_AUDDEC \<Rightarrow> (OMX_ERRORTYPE \<times> NX_AUDDEC) option" where
  "aud_client_step lib (AudEmpty b) s = NX_FFAudDec_EmptyThisBuffer b s"
| "aud_client_step lib (AudFill b) s = NX_FFAudDec_FillThisBuffer b s"
| "aud_client_step lib (AudSend p c n dat) s = NX_BaseSendCommand p c n dat s"
| "aud_client_step lib (AudUse p port app sz buf) s = map_option (\<lambda>(e, h, s). (e, s)) (NX_FFAudDec_UseBuffer p port app sz buf s)"
| "aud_client_step lib (AudAllocate p pb port app sz) s =
     map_option (\<lambda>(e, h, s). (e, s)) (NX_FFAudDec_AllocateBuffer lib p pb port app sz s)"
| "aud_client_step lib (AudFreeBuffer port b) s = NX_FFAudDec_FreeBuffer port b s"
| "aud_client_step lib (AudSet par) s = NX_FFAudDec_SetParameter par s"
| "aud_client_step lib (AudCallbacks cb dat) s = Some (NX_BaseSetCallbacks cb dat s)"
| "aud_client_step lib (AudHeader b h) s = Some (OMX_ErrorNone, s\<lparr>hdr_mem := (hdr_mem s)(b := Some h)\<rparr>)"
| "aud_client_step lib (AudData p bs) s = Some (OMX_ErrorNone, s\<lparr>byte_mem := (byte_mem s)(p := Some bs)\<rparr>)"

text \<open>The buffers that a call hands to the component.\<close>

fun aud_taken_in :: "aud_call \<Rightarrow> OMX_ERRORTYPE \<Rightarrow> ptr list" where
  "aud_taken_in (AudEmpty b) e = (if e = OMX_ErrorNone then [b] else [])"
| "aud_taken_in _ e = []"

fun aud_taken_out :: "aud_call \<Rightarrow> OMX_ERRORTYPE \<Rightarrow> ptr list" where
  "aud_taken_out (AudFill b) e = (if e = OMX_ErrorNone then [b] else [])"
| "aud_taken_out _ e = []"

section \<open>The system\<close>

text \<open>
  The component, where the two threads stand, and, for the statements below, the buffers that the client has handed
  over so far, in the order of the calls.
\<close>

record aud_sys =
  acomp :: NX_AUDDEC
  abpc :: aud_buf_pc
  acpc :: aud_cmd_pc
  ains :: "ptr list"
  aouts :: "ptr list"

text \<open>
  Where the threads stand after a step with the effect \<open>f\<close>: a post of \<open>hBufCtrlSem\<close>, even one that fails with an
  overflow, wakes one of the threads that sleep there.
\<close>

inductive aud_signal :: "thread_effect \<Rightarrow> aud_buf_pc \<Rightarrow> aud_cmd_pc \<Rightarrow> aud_buf_pc \<Rightarrow> aud_cmd_pc \<Rightarrow> bool" where
  quiet: "f \<noteq> PostsCtrl \<Longrightarrow> aud_signal f b c b c"
| nobody: "b \<noteq> ABufWaitCtrl \<Longrightarrow> \<forall>p r. c \<noteq> ACmdWait p r \<Longrightarrow> aud_signal f b c b c"
| buffer: "aud_signal PostsCtrl ABufWaitCtrl c ABufWokenCtrl c"
| command: "aud_signal PostsCtrl b (ACmdWait p r) b (ACmdWoken p r)"

inductive_simps aud_signal_quiet [simp]: "aud_signal Quiet b c b' c'"

text \<open>The library may answer differently at every step, but is one of \<open>L\<close>.\<close>

inductive aud_step :: "av_lib set \<Rightarrow> aud_sys \<Rightarrow> aud_sys \<Rightarrow> bool" for L where
  client: "lib \<in> L \<Longrightarrow> aud_client_step lib k (acomp S) = Some (e, t) \<Longrightarrow>
     aud_step L S (S\<lparr>acomp := t, ains := ains S @ aud_taken_in k e, aouts := aouts S @ aud_taken_out k e\<rparr>)"
| buffer: "lib \<in> L \<Longrightarrow> aud_buf_step lib (abpc S) (acomp S) = Some (b, t) \<Longrightarrow>
     aud_signal (aud_buf_posts (abpc S)) b (acpc S) b' c' \<Longrightarrow>
     aud_step L S (S\<lparr>acomp := t, abpc := b', acpc := c'\<rparr>)"
| command: "lib \<in> L \<Longrightarrow> aud_cmd_step lib (abpc S = ABufDone) (acpc S) (acomp S) = Some (c, t, f) \<Longrightarrow>
     aud_signal f (if f = CreatesThread then ABufStart else abpc S) c b' c' \<Longrightarrow>
     aud_step L S (S\<lparr>acomp := t, abpc := b', acpc := c'\<rparr>)"

inductive aud_reach :: "av_lib set \<Rightarrow> aud_sys \<Rightarrow> aud_sys \<Rightarrow> bool" for L S0 where
  start: "aud_reach L S0 S0"
| step: "aud_reach L S0 S \<Longrightarrow> aud_step L S T \<Longrightarrow> aud_reach L S0 T"

text \<open>
  A component when \<open>ComponentInit\<close> returns: the command thread has made its first post, which
  \<open>NX_PendSem( hSemCmdWait )\<close> took, and stands at its semaphore.
\<close>

definition created_aud :: "NX_AUDDEC \<Rightarrow> aud_sys" where
  "created_aud s = \<lparr>acomp = s, abpc = ABufNone, acpc = ACmdPend NULL, ains = [], aouts = []\<rparr>"

section \<open>Invariants of the system\<close>

locale aud_stable =
  fixes L :: "av_lib set" and I :: "aud_sys \<Rightarrow> bool"
  assumes keeps: "aud_step L S T \<Longrightarrow> I S \<Longrightarrow> I T"
begin

lemma always: "aud_reach L S0 S \<Longrightarrow> I S0 \<Longrightarrow> I S"
  by (induction rule: aud_reach.induct) (auto intro: keeps)

end

section \<open>The buffers\<close>

lemma flows_mono: "flows ok is os s t \<Longrightarrow> (ok' \<Longrightarrow> ok) \<Longrightarrow> flows ok' is os s t"
  by (auto simp: flows_def)

lemma flows_cmd_queue:
  assumes "queue_inv (cmdQueue s) \<and> bEnabled (cmdQueue s) \<Longrightarrow> queue_inv q \<and> bEnabled q"
  shows "flows ok [] [] s (s\<lparr>cmdQueue := q\<rparr>)"
  using assms by (auto simp: flows_def aud_wf_def aud_in_view_def aud_out_view_def)

lemma flows_send:
  assumes "NX_BaseSendCommand p c n dat s = Some (e, t)"
  shows "flows ok [] [] s t"
proof -
  define u1 where "u1 = s\<lparr>cmd_mem := (cmd_mem s)(p := Some \<lparr>cmd_id = cmdId s, eCmd = c, nParam1 = n, pCmdData = dat\<rparr>), cmdId := cmdId s + 1\<rparr>"
  define u where "u = (if OMX_CommandStateSet = c then u1\<lparr>eNewState := to_state n\<rparr> else u1)"
  have u: "quiet_step s u" by (simp add: u_def u1_def)
  obtain h where t: "t = (u\<lparr>cmdQueue := snd (NX_PushQueue (cmdQueue u) p)\<rparr>)\<lparr>hSemCmd := h\<rparr>"
    using assms unfolding NX_BaseSendCommand_def Let_def u1_def[symmetric] u_def[symmetric]
    by (auto split: if_splits bind_splits)
  have "flows ok [] [] u (u\<lparr>cmdQueue := snd (NX_PushQueue (cmdQueue u) p)\<rparr>)"
    by (rule flows_cmd_queue) (simp add: push_inv nxq.ready_push)
  with u have "flows ok [] [] s (u\<lparr>cmdQueue := snd (NX_PushQueue (cmdQueue u) p)\<rparr>)" by (rule quiet_then_flows)
  then show ?thesis by (simp add: t)
qed

lemma flows_queue_buffer:
  assumes "aud_queue_buffer k b s = Some (e, t)" and "k < 2"
  shows "flows ok (if k = 0 \<and> e = OMX_ErrorNone then [b] else []) (if k \<noteq> 0 \<and> e = OMX_ErrorNone then [b] else []) s t"
proof (rule flows_if_wf)
  assume w: "aud_wf s"
  then have q: "buf_queue (pBufQueue s k)" using assms(2) by (auto simp: aud_wf_def less_2_cases_iff)
  obtain rc q' where push: "NX_PushQueue (pBufQueue s k) b = (rc, q')" by (metis surj_pair)
  consider "e \<noteq> OMX_ErrorNone" "t = s" | m where "e = OMX_ErrorNone" "rc = 0"
      "t = s\<lparr>pBufQueue := (pBufQueue s)(k := q'), hBufChangeSem := m\<rparr>"
  proof (cases "accepts_buffers s \<and> rc = 0")
    case True
    with assms(1) push that(2) show ?thesis by (auto simp: aud_queue_buffer_def split: bind_splits)
  next
    case False
    with assms(1) push that(1) show ?thesis by (auto simp: aud_queue_buffer_def split: if_splits)
  qed
  then show "flows ok (if k = 0 \<and> e = OMX_ErrorNone then [b] else []) (if k \<noteq> 0 \<and> e = OMX_ErrorNone then [b] else []) s t"
  proof cases
    case 1
    then show ?thesis by simp
  next
    case (2 m)
    have "queue_list q' = queue_list (pBufQueue s k) @ [b]"
    proof (cases "curElements (pBufQueue s k) < maxElement (pBufQueue s k) \<and> bEnabled (pBufQueue s k)")
      case True
      with push_list[of "pBufQueue s k" b] q push show ?thesis by (simp add: buf_queue_def)
    next
      case False
      with push_full[of "pBufQueue s k" b] push 2(2) show ?thesis by auto
    qed
    moreover have "buf_queue q'" using buf_queue_push[OF q, of b] push by simp
    ultimately show ?thesis
      using 2 w assms(2) by (auto simp: flows_def aud_wf_def aud_in_view_def aud_out_view_def less_2_cases_iff)
  qed
qed

lemma flows_set_parameter:
  assumes "NX_FFAudDec_SetParameter par s = Some (e, t)"
  shows "flows ok [] [] s t"
proof (rule flows_if_wf)
  assume "aud_wf s"
  with quiet_set_parameter[OF assms] show "flows ok [] [] s t" by (simp add: aud_wf_def flows_quiet)
qed

lemma flows_client:
  assumes "aud_client_step lib k s = Some (e, t)"
  shows "flows ok (aud_taken_in k e) (aud_taken_out k e) s t"
proof (cases k)
  case (AudEmpty b)
  with assms flows_queue_buffer[of 0 b s e t ok] show ?thesis by (simp add: NX_FFAudDec_EmptyThisBuffer_def)
next
  case (AudFill b)
  with assms flows_queue_buffer[of 1 b s e t ok] show ?thesis by (simp add: NX_FFAudDec_FillThisBuffer_def)
next
  case (AudSend p c n dat)
  with assms show ?thesis by (simp add: flows_send)
next
  case (AudUse p port app sz buf)
  with assms show ?thesis by (auto intro: flows_quiet quiet_use)
next
  case (AudAllocate p pb port app sz)
  with assms show ?thesis by (auto intro: flows_quiet quiet_allocate)
next
  case (AudFreeBuffer port b)
  with assms show ?thesis by (auto intro: flows_quiet quiet_free)
next
  case (AudSet par)
  with assms show ?thesis by (simp add: flows_set_parameter)
next
  case (AudCallbacks cb dat)
  with assms show ?thesis by (auto simp: NX_BaseSetCallbacks_def intro!: flows_quiet)
qed (use assms in \<open>auto intro!: flows_quiet\<close>)

lemma flows_buf_step:
  assumes "aud_buf_step lib b s = Some (b', t)"
  shows "flows (avcodec_alloc_frame lib) [] [] s t"
proof (cases "b = ABufLocked")
  case True
  with assms obtain rc where "decodeAudioFrame lib s = Some (rc, t)" by (auto simp: NX_FFAudDec_Transform_def split: bind_splits)
  then show ?thesis by (rule flows_decode)
next
  case False
  with assms show ?thesis
    by (cases b) (auto simp: ctrl_enter_def ctrl_resume_def split: bind_splits option.splits)
qed

lemma flows_start_done: "aud_start_done lib s = Some t \<Longrightarrow> flows ok [] [] s t"
  by (auto simp: aud_start_done_def flows_quiet quiet_open split: bind_splits)

lemma flows_cmd_step:
  assumes "aud_cmd_step lib j c s = Some (c', t, f)"
  shows "flows ok [] [] s t"
proof (cases c)
  case (ACmdTest p)
  obtain rc e q where q: "NX_PopQueue (cmdQueue s) = (rc, e, q)" by (metis prod_cases3)
  with assms ACmdTest have "t = s \<or> t = s\<lparr>cmdQueue := q\<rparr>" by (auto simp: Let_def split: if_splits)
  moreover have "flows ok [] [] s (s\<lparr>cmdQueue := q\<rparr>)"
    using pop_inv[of "cmdQueue s"] nxq.ready_pop[of "cmdQueue s"] q by (intro flows_cmd_queue) simp
  ultimately show ?thesis by auto
next
  case (ACmdProc p)
  with assms obtain m where m: "cmd_mem s p = Some m" by (cases "cmd_mem s p") auto
  with assms ACmdProc obtain r u where "NX_FFAudDec_CommandProc (eCmd m) (nParam1 m) (pCmdData m) s = Some (r, u, f)"
    "t = (if r = Returned then free_cmd p u else u)"
    by (cases "NX_FFAudDec_CommandProc (eCmd m) (nParam1 m) (pCmdData m) s") auto
  then show ?thesis using flows_command[of "eCmd m" "nParam1 m" "pCmdData m" s r u f ok] by simp
next
  case (ACmdTrans p pc)
  show ?thesis
  proof (cases "\<exists>e. pc = AudDone e")
    case True
    with assms ACmdTrans have "\<exists>u. quiet_step s u \<and> t = free_cmd p u"
      by (auto simp: aud_finish_state_set_def send_complete_def split: bind_splits intro: gave_SendEvent)
    then show ?thesis by (auto simp: flows_quiet)
  next
    case False
    with assms ACmdTrans obtain pc' where "aud_transition_step j pc s = Some (pc', t, f)"
      by (cases pc) (auto simp del: aud_transition_step.simps split: bind_splits)
    then show ?thesis by (rule flows_transition_step)
  qed
next
  case (ACmdHas p r)
  with assms show ?thesis by (cases r) (auto split: bind_splits intro: flows_port_command flows_start_done)
qed (use assms in \<open>auto simp: ctrl_enter_def ctrl_resume_def split: bind_splits option.splits\<close>)

text \<open>The account: \<open>S0\<close> is the component when it was created.\<close>

definition aud_account :: "bool \<Rightarrow> NX_AUDDEC \<Rightarrow> aud_sys \<Rightarrow> bool" where
  "aud_account ok s0 S \<longleftrightarrow> flows ok (ains S) (aouts S) s0 (acomp S)"

interpretation aud_accounts: aud_stable L "aud_account (\<forall>lib\<in>L. avcodec_alloc_frame lib) s0" for L s0
proof unfold_locales
  let ?ok = "\<forall>lib\<in>L. avcodec_alloc_frame lib"
  show "aud_step L S T \<Longrightarrow> aud_account ?ok s0 S \<Longrightarrow> aud_account ?ok s0 T" for S T
  proof (induction rule: aud_step.induct)
    case (client lib k S e t)
    then show ?case using flows_trans[OF _ flows_client[OF client(2)]] by (simp add: aud_account_def)
  next
    case (buffer lib S b t b' c')
    have "flows ?ok [] [] (acomp S) t" by (rule flows_mono[OF flows_buf_step[OF buffer(2)]]) (use buffer(1) in simp)
    with buffer(4) flows_trans[of ?ok "ains S" "aouts S" s0 "acomp S" "[]" "[]" t] show ?case by (simp add: aud_account_def)
  next
    case (command lib S c t f b' c')
    then show ?case using flows_trans[OF _ flows_cmd_step[OF command(2)], of ?ok "ains S" "aouts S" s0] by (simp add: aud_account_def)
  qed
qed

end
