(* ===== verification/AudDecRun.thy ===== *)
theory AudDecRun
  imports AudDecThread
begin

text \<open>
  What holds of every run of the audio decoder (\<open>NX_OMXAudioDecoderFFMpeg.c\<close>): the account of the buffers, the
  invariant that relates the state of the component, the place of the command thread and the existence of the
  buffer thread, the legal transitions, and what goes wrong at the control semaphore and with the default role.
\<close>

section \<open>Control\<close>

lemma actl_quiet: "gave a b s t \<Longrightarrow> actl t = actl s"
  by (simp add: gave_def)

lemma actl_queue [simp]: "actl (s\<lparr>pBufQueue := x\<rparr>) = actl s" "actl (s\<lparr>cmdQueue := y\<rparr>) = actl s"
  by (simp_all add: actl_def)

lemma actl_give: "give_back d p (s :: NX_AUDDEC) = Some t \<Longrightarrow> actl t = actl s"
  by (auto simp: give_back_def split: OMX_DIRTYPE.splits dest: actl_quiet[OF gave_EBD] actl_quiet[OF gave_FBD])

lemma actl_hdr: "upd_hdr p f (s :: NX_AUDDEC) = Some t \<Longrightarrow> actl t = actl s"
  by (rule actl_quiet[OF gave_upd_hdr[OF _ quiet_refl]])

lemma actl_flush_queue:
  assumes "aud_flush_queue k d p s = Some y"
  shows "actl (snd y) = actl s"
proof (rule aud_flush_queue.raw_induct[where P = "\<lambda>k d p s y. actl (snd y) = actl s", OF _ assms])
  fix f :: "nat \<Rightarrow> OMX_DIRTYPE \<Rightarrow> ptr \<Rightarrow> NX_AUDDEC \<Rightarrow> (ptr \<times> NX_AUDDEC) option" and k d p s y
  assume ih: "\<And>k d p s y. f k d p s = Some y \<Longrightarrow> actl (snd y) = actl s"
    and body: "(if NX_GetQueueCnt (pBufQueue s k) > 0 then
      (let (rc, e, q) = NX_PopQueue (pBufQueue s k);
           p = (case e of None \<Rightarrow> p | Some x \<Rightarrow> x)
       in do {
         s \<leftarrow> upd_hdr p (\<lambda>h. h\<lparr>nFilledLen := 0\<rparr>) (s\<lparr>pBufQueue := (pBufQueue s)(k := q)\<rparr>);
         s \<leftarrow> give_back d p s;
         f k d p s })
      else Some (p, s)) = Some y"
  then show "actl (snd y) = actl s"
    by (auto simp: Let_def split: if_splits prod.splits bind_splits dest!: actl_give actl_hdr)
qed

lemma actl_flush: "aud_flush s = Some t \<Longrightarrow> actl t = actl s"
  by (auto simp: aud_flush_def actl_def split: bind_splits dest!: actl_flush_queue)

lemma actl_return: "drain_ports is (s :: NX_AUDDEC) = Some t \<Longrightarrow> actl t = actl s"
  by (rule drain_ports_keeps) (auto dest: actl_give)

lemma actl_decode:
  assumes "decodeAudioFrame lib s = Some (rc, t)"
  shows "actl t = actl s"
proof -
  from assms obtain s0 where s0: "flush_codec lib s = Some s0" by (auto simp: decodeAudioFrame_def split: bind_splits)
  obtain p s1 where p: "pop_buf 1 s0 = (p, s1)" by fastforce
  obtain q s2 where q: "pop_buf 0 s1 = (q, s2)" by fastforce
  have c: "actl s1 = actl s" "actl s2 = actl s"
    using actl_quiet[OF quiet_flush_codec[OF s0]] pop_buf_frame(2)[OF p] pop_buf_frame(2)[OF q] by simp_all
  consider "p = NULL" | "p \<noteq> NULL" "q = NULL" | "p \<noteq> NULL" "q \<noteq> NULL" "\<not> avcodec_alloc_frame lib"
    | "p \<noteq> NULL" "q \<noteq> NULL" "avcodec_alloc_frame lib" by blast
  then show ?thesis
  proof cases
    case 2
    with assms s0 p q obtain s3 where "upd_hdr p (\<lambda>h. h\<lparr>nFilledLen := 0\<rparr>) s2 = Some s3" "call_FillBufferDone p s3 = Some t"
      by (auto simp: decodeAudioFrame_def split: bind_splits)
    with c actl_hdr[of p _ s2 s3] actl_quiet[OF gave_FBD[of p s3 t]] show ?thesis by simp
  next
    case 4
    with assms s0 p q obtain hi where hi: "hdr_mem s2 q = Some hi" by (cases "hdr_mem s2 q") (simp_all add: decodeAudioFrame_def)
    with 4 assms s0 p q obtain ho where ho: "hdr_mem s2 p = Some ho" by (cases "hdr_mem s2 p") (simp_all add: decodeAudioFrame_def)
    from 4 assms s0 p q hi ho obtain y where "decode_loop lib (pBuffer hi) (pBuffer ho) 0 (sint (nFilledLen hi)) 0 s2 = Some y"
      "finish_audio q p (fst y) (fst (snd y)) (snd (snd y)) = Some t"
      by (cases "decode_loop lib (pBuffer hi) (pBuffer ho) 0 (sint (nFilledLen hi)) 0 s2")
        (auto simp: decodeAudioFrame_def split: bind_splits)
    with c actl_quiet[OF quiet_decode_loop] actl_quiet[OF gave_finish] show ?thesis by metis
  qed (use assms s0 p q c in \<open>auto simp: decodeAudioFrame_def split: bind_splits\<close>)
qed

lemma post_handle_some: "post_handle h = Some h' \<Longrightarrow> h \<noteq> None \<and> h' \<noteq> None"
  by (auto simp: post_handle_def split: option.splits)

lemma pend_handle_some: "pend_handle h = Some h' \<Longrightarrow> h \<noteq> None \<and> h' \<noteq> None"
  by (auto simp: pend_handle_def split: option.splits)

lemma actl_queue_buffer: "aud_queue_buffer k b s = Some (e, t) \<Longrightarrow> actl t = actl s"
  by (auto simp: aud_queue_buffer_def actl_def split: if_splits bind_splits prod.splits dest: post_handle_some)

lemma actl_send: "NX_BaseSendCommand p c n dat s = Some (e, t) \<Longrightarrow> actl t = actl s"
  by (auto simp: NX_BaseSendCommand_def Let_def actl_def split: if_splits bind_splits)

lemma actl_set_parameter:
  assumes "NX_FFAudDec_SetParameter par s = Some (e, t)"
  shows "actl t = actl s"
proof -
  have "actl u = actl s" if "set_coding port w ch rate s = (e, u)" for port w ch rate u
    using that by (auto simp: set_coding_def actl_def split: if_splits)
  with assms show ?thesis
    by (cases par) (auto simp: NX_FFAudDec_SetParameter_def AudSetParameter_Role_def AudSetParameter_Extradata_def actl_def
        split: option.splits bind_splits dest: actl_quiet[OF quiet_base_set, unfolded actl_def])
qed

lemma actl_client:
  assumes "aud_client_step lib k s = Some (e, t)"
  shows "actl t = actl s"
proof (cases k)
  case (AudUse p port app sz buf)
  with assms show ?thesis by (auto intro: actl_quiet[OF quiet_use])
next
  case (AudAllocate p pb port app sz)
  with assms show ?thesis by (auto intro: actl_quiet[OF quiet_allocate])
next
  case (AudFreeBuffer port b)
  with assms show ?thesis by (auto intro: actl_quiet[OF quiet_free])
qed (use assms in \<open>auto simp: NX_FFAudDec_EmptyThisBuffer_def NX_FFAudDec_FillThisBuffer_def NX_BaseSetCallbacks_def actl_def
    dest: actl_queue_buffer[unfolded actl_def] actl_send[unfolded actl_def] actl_set_parameter[unfolded actl_def]\<close>)

section \<open>States and threads\<close>

definition aud_stopped :: "aud_buf_pc \<Rightarrow> NX_AUDDEC \<Rightarrow> bool" where
  "aud_stopped b s \<longleftrightarrow> hBufCtrlSem s = None \<and> hBufChangeSem s = None \<and> (b = ABufNone \<or> b = ABufDone)"

definition aud_started :: "aud_buf_pc \<Rightarrow> NX_AUDDEC \<Rightarrow> bool" where
  "aud_started b s \<longleftrightarrow> hBufCtrlSem s \<noteq> None \<and> hBufChangeSem s \<noteq> None \<and> eCmdBufThread s \<noteq> NX_THREAD_CMD_EXIT \<and>
     b \<noteq> ABufNone \<and> b \<noteq> ABufDone"

definition aud_ending :: "aud_buf_pc \<Rightarrow> NX_AUDDEC \<Rightarrow> bool" where
  "aud_ending b s \<longleftrightarrow> hBufCtrlSem s \<noteq> None \<and> hBufChangeSem s \<noteq> None \<and> b \<noteq> ABufNone"

definition aud_settled :: "aud_buf_pc \<Rightarrow> NX_AUDDEC \<Rightarrow> bool" where
  "aud_settled b s \<longleftrightarrow> eCurState s = OMX_StateLoaded \<and> aud_stopped b s \<or>
     eCurState s \<in> {OMX_StateIdle, OMX_StateExecuting, OMX_StatePause} \<and> aud_started b s"

text \<open>What holds at each place of the command thread.\<close>

definition aud_reason_ok :: "ctrl_reason \<Rightarrow> aud_buf_pc \<Rightarrow> NX_AUDDEC \<Rightarrow> bool" where
  "aud_reason_ok r b s \<longleftrightarrow> (case r of ForThread \<Rightarrow> eCurState s = OMX_StateLoaded \<and> aud_started b s | ForCommand \<Rightarrow> aud_settled b s)"

definition aud_trans_ok :: "aud_trans \<Rightarrow> aud_buf_pc \<Rightarrow> NX_AUDDEC \<Rightarrow> bool" where
  "aud_trans_ok pc b s \<longleftrightarrow>
     (case pc of
        AudAlloc i \<Rightarrow> eCurState s = OMX_StateLoaded \<and> aud_stopped b s
      | AudExit \<Rightarrow> eCurState s = OMX_StateIdle \<and> aud_started b s
      | AudJoin \<Rightarrow> eCurState s = OMX_StateIdle \<and> aud_ending b s
      | AudFree i \<Rightarrow> eCurState s = OMX_StateIdle \<and> aud_stopped b s
      | AudReturn \<Rightarrow> eCurState s = OMX_StateExecuting \<and> aud_started b s
      | AudDone e \<Rightarrow> aud_settled b s)"

definition aud_cmd_ok :: "aud_cmd_pc \<Rightarrow> aud_buf_pc \<Rightarrow> NX_AUDDEC \<Rightarrow> bool" where
  "aud_cmd_ok c b s \<longleftrightarrow>
     (case c of
        ACmdTrans p pc \<Rightarrow> aud_trans_ok pc b s
      | ACmdCtrl p r \<Rightarrow> aud_reason_ok r b s
      | ACmdWait p r \<Rightarrow> aud_reason_ok r b s
      | ACmdWoken p r \<Rightarrow> aud_reason_ok r b s
      | ACmdHas p r \<Rightarrow> aud_reason_ok r b s
      | _ \<Rightarrow> aud_settled b s)"

lemmas aud_ok_defs = aud_cmd_ok_def aud_trans_ok_def aud_reason_ok_def aud_settled_def
lemmas aud_ok_splits = aud_cmd_pc.splits aud_trans.splits ctrl_reason.splits

lemma aud_same:
  assumes "actl t = actl s"
  shows "eCurState t = eCurState s" "aud_stopped b t = aud_stopped b s" "aud_started b t = aud_started b s"
    "aud_ending b t = aud_ending b s" "aud_settled b t = aud_settled b s"
  using assms by (auto simp: actl_def aud_stopped_def aud_started_def aud_ending_def aud_settled_def)

lemma aud_cmd_ok_same: "actl t = actl s \<Longrightarrow> aud_cmd_ok c b s \<Longrightarrow> aud_cmd_ok c b t"
  using aud_same(1)[of t s] aud_same(2-5)[of t s b] by (auto simp: aud_cmd_ok_def aud_trans_ok_def aud_reason_ok_def split: aud_ok_splits)

text \<open>A step of the buffer thread.\<close>

lemma aud_buf_step_live:
  assumes "aud_buf_step lib b s = Some (b', t)"
  shows "b \<noteq> ABufNone \<and> b \<noteq> ABufDone \<and> b \<noteq> ABufWaitCtrl \<and> b' \<noteq> ABufNone \<and> b' \<noteq> ABufStart \<and>
     (b' = ABufDone \<longrightarrow> eCmdBufThread s = NX_THREAD_CMD_EXIT)"
  using assms by (cases b) (auto simp: ctrl_enter_def ctrl_resume_def split: bind_splits option.splits if_splits)

lemma aud_buf_step_ctl:
  assumes "aud_buf_step lib b s = Some (b', t)"
  shows "actl t = actl s"
proof (cases "b = ABufLocked")
  case True
  with assms show ?thesis by (auto simp: NX_FFAudDec_Transform_def dest: actl_decode split: bind_splits)
next
  case False
  with assms show ?thesis
    by (cases b) (auto simp: actl_def ctrl_enter_def ctrl_resume_def split: bind_splits option.splits if_splits
        dest: post_handle_some pend_handle_some)
qed

lemma aud_buf_step_ok:
  assumes "aud_buf_step lib b s = Some (b', t)" and "aud_cmd_ok c b s"
  shows "aud_cmd_ok c b' t"
proof -
  note l = aud_buf_step_live[OF assms(1)] and k = aud_buf_step_ctl[OF assms(1)]
  have "\<not> aud_stopped b s" using l by (auto simp: aud_stopped_def)
  moreover have "aud_started b s \<Longrightarrow> aud_started b' t" using l k by (auto simp: aud_started_def actl_def)
  moreover have "aud_ending b s \<Longrightarrow> aud_ending b' t" using l k by (auto simp: aud_ending_def actl_def)
  ultimately show ?thesis using assms(2) aud_same(1)[OF k] by (auto simp: aud_ok_defs split: aud_ok_splits)
qed

lemma aud_signal_ok:
  assumes "aud_signal f b c b' c'" and "aud_cmd_ok c b s"
  shows "aud_cmd_ok c' b' s"
  using assms
proof (cases rule: aud_signal.cases)
  case buffer
  with assms(2) show ?thesis
    by (auto simp: aud_ok_defs aud_stopped_def aud_started_def aud_ending_def split: aud_ok_splits)
next
  case (command p r)
  with assms(2) show ?thesis by (simp add: aud_cmd_ok_def)
qed simp_all

text \<open>A step of the command thread.\<close>

lemma aud_begins_ok:
  assumes "NX_FFAudDec_StateTransition (eCurState s) new s = Some (pc, t, f)" and "aud_settled b s"
  shows "aud_trans_ok pc b t \<and> f \<noteq> CreatesThread"
  using assms
proof (cases rule: aud_transition_cases)
  case (run c)
  with assms(2) show ?thesis by (auto simp: aud_trans_ok_def aud_settled_def aud_started_def dest: post_handle_some)
next
  case (stop m)
  with assms(2) show ?thesis by (auto simp: aud_trans_ok_def aud_settled_def aud_started_def dest: post_handle_some)
next
  case direct
  with assms(2) show ?thesis by (auto simp: aud_trans_ok_def aud_settled_def aud_started_def aud_direct_def)
qed (auto simp: aud_trans_ok_def aud_settled_def)

lemma actl_pend_alloc: "pend_alloc i (s :: NX_AUDDEC) = Some t \<Longrightarrow> actl t = actl s"
  by (rule actl_quiet[OF quiet_pend_alloc])

lemma aud_transition_ok:
  assumes "aud_transition_step (b = ABufDone) pc s = Some (pc', t, f)" and "aud_trans_ok pc b s"
  shows "if f = CreatesThread then aud_reason_ok ForThread ABufStart t else aud_trans_ok pc' b t"
proof (cases pc)
  case (AudAlloc i)
  show ?thesis
  proof (cases "i < nNumPort s")
    case True
    with assms AudAlloc have "pend_alloc i s = Some t" "pc' = AudAlloc (i + 1)" "f = Quiet" by (auto split: bind_splits)
    with assms(2) AudAlloc aud_same[OF actl_pend_alloc[of i s t]] show ?thesis by (simp add: aud_trans_ok_def)
  next
    case False
    with assms AudAlloc show ?thesis
      by (auto simp: aud_trans_ok_def aud_reason_ok_def aud_started_def create_sem_def NX_CreateSem_def)
  qed
next
  case AudExit
  with assms show ?thesis
    by (auto simp: aud_trans_ok_def aud_started_def aud_ending_def split: bind_splits dest!: post_handle_some)
next
  case AudJoin
  with assms show ?thesis by (auto simp: aud_trans_ok_def aud_stopped_def NX_DestroySem_def split: if_splits)
next
  case (AudFree i)
  show ?thesis
  proof (cases "i < nNumPort s")
    case True
    with assms AudFree have "pend_alloc i s = Some t" "pc' = AudFree (i + 1)" "f = Quiet" by (auto split: bind_splits)
    with assms(2) AudFree aud_same[OF actl_pend_alloc[of i s t]] show ?thesis by (simp add: aud_trans_ok_def)
  next
    case False
    with assms AudFree obtain u where "closeAudioCodec s = Some u" "t = u\<lparr>eCurState := OMX_StateLoaded\<rparr>" "pc' = AudDone OMX_ErrorNone" "f = Quiet"
      by (auto split: bind_splits)
    with assms(2) AudFree aud_same(2)[OF actl_quiet[OF quiet_close[of s u]], of b] show ?thesis
      by (auto simp: aud_trans_ok_def aud_settled_def aud_stopped_def)
  qed
next
  case AudReturn
  with assms obtain u where u: "drain_ports [0..<nNumPort s] s = Some u" "t = u\<lparr>eCurState := OMX_StateIdle\<rparr>" "f = Quiet"
    "pc' = AudDone OMX_ErrorNone" by (auto split: bind_splits)
  with assms AudReturn aud_same(3)[OF actl_return[OF u(1)], of b] show ?thesis
    by (auto simp: aud_trans_ok_def aud_settled_def aud_started_def)
qed (use assms in simp)

text \<open>Except for the transitions, a command does not touch the control.\<close>

lemma aud_command_ctl:
  assumes "NX_FFAudDec_CommandProc c n dat s = Some (r, t, f)"
  obtains "actl t = actl s" "f = Quiet" "r = Returned \<or> r = AtCtrl"
  | pc where "NX_FFAudDec_StateTransition (eCurState s) (to_state n) s = Some (pc, t, f)" "r = InTransition pc"
proof (cases "c = OMX_CommandStateSet \<and> eCurState s \<noteq> to_state n")
  case True
  with assms that(2) show ?thesis by (auto simp: NX_FFAudDec_CommandProc_def split: bind_splits)
next
  case False
  with assms have "actl t = actl s \<and> f = Quiet \<and> (r = Returned \<or> r = AtCtrl)"
    by (cases c) (auto simp: NX_FFAudDec_CommandProc_def send_complete_def split: bind_splits if_splits
        dest!: actl_quiet[OF gave_SendEvent] actl_flush)
  with that(1) show ?thesis by blast
qed

lemma aud_command_ok:
  assumes "NX_FFAudDec_CommandProc c n dat s = Some (r, t, f)" and "aud_settled b s"
  shows "aud_cmd_ok (aud_next_pc p r) b t \<and> f \<noteq> CreatesThread"
  using assms(1)
proof (cases rule: aud_command_ctl)
  case 1
  with assms(2) aud_same(5)[OF 1(1), of b] show ?thesis by (auto simp: aud_next_pc_def aud_cmd_ok_def aud_reason_ok_def)
next
  case (2 pc)
  with aud_begins_ok[OF 2(1) assms(2)] show ?thesis by (simp add: aud_next_pc_def aud_cmd_ok_def)
qed

lemma aud_port_ctl:
  assumes "aud_port_command c n dat s = Some t"
  shows "actl t = actl s"
proof -
  obtain h h' u where u: "SendEvent OMX_EventCmdComplete 0 0 dat (u\<lparr>hBufCtrlSem := h\<rparr>) = Some t" "quiet_step s u"
    "post_handle (hBufCtrlSem u) = Some h"
    using assms by (auto simp: aud_port_command_def Let_def gave_upd_port split: if_splits bind_splits)
  from actl_quiet[OF gave_SendEvent[OF u(1)]] actl_quiet[OF u(2)] post_handle_some[OF u(3)] show ?thesis by (auto simp: actl_def)
qed

lemma aud_start_ctl:
  assumes "aud_start_done lib s = Some t"
  shows "\<exists>u. actl u = actl s \<and> t = u\<lparr>eCurState := OMX_StateIdle\<rparr>"
  using assms by (auto simp: aud_start_done_def split: bind_splits intro: actl_quiet[OF quiet_open])

lemma aud_cmd_step_ok:
  assumes "aud_cmd_step lib (b = ABufDone) c s = Some (c', t, f)" and "aud_cmd_ok c b s"
  shows "aud_cmd_ok c' (if f = CreatesThread then ABufStart else b) t"
proof (cases c)
  case (ACmdTest p)
  obtain rc e q where q: "NX_PopQueue (cmdQueue s) = (rc, e, q)" by (metis prod_cases3)
  with assms(1) ACmdTest have "actl t = actl s" "f = Quiet" "aud_cmd_ok c' b t = aud_settled b t"
    by (auto simp: Let_def aud_cmd_ok_def split: if_splits)
  with assms(2) ACmdTest aud_same(5)[of t s b] show ?thesis by (simp add: aud_cmd_ok_def)
next
  case (ACmdProc p)
  with assms obtain m where m: "cmd_mem s p = Some m" by (cases "cmd_mem s p") auto
  with assms(1) ACmdProc obtain r u where r: "NX_FFAudDec_CommandProc (eCmd m) (nParam1 m) (pCmdData m) s = Some (r, u, f)"
    "t = (if r = Returned then free_cmd p u else u)" "c' = aud_next_pc p r"
    by (cases "NX_FFAudDec_CommandProc (eCmd m) (nParam1 m) (pCmdData m) s") auto
  have "actl (free_cmd p u) = actl u" by (simp add: actl_def free_cmd_def)
  moreover from assms(2) ACmdProc have "aud_settled b s" by (simp add: aud_cmd_ok_def)
  ultimately show ?thesis using aud_command_ok[OF r(1), of b p] aud_cmd_ok_same[of t u] r(2,3) by simp
next
  case (ACmdTrans p pc)
  show ?thesis
  proof (cases "\<exists>e. pc = AudDone e")
    case True
    with assms(1) ACmdTrans have "\<exists>u. actl u = actl s \<and> t = free_cmd p u" "f = Quiet" "c' = ACmdPend p"
      by (auto simp: aud_finish_state_set_def send_complete_def split: bind_splits intro: actl_quiet[OF gave_SendEvent])
    with assms(2) ACmdTrans True aud_same(5)[of t s b] show ?thesis by (auto simp: aud_cmd_ok_def aud_trans_ok_def actl_def free_cmd_def)
  next
    case False
    with assms(1) ACmdTrans obtain pc' where "aud_transition_step (b = ABufDone) pc s = Some (pc', t, f)"
      "c' = (if f = CreatesThread then ACmdCtrl p ForThread else ACmdTrans p pc')"
      by (cases pc) (auto simp del: aud_transition_step.simps split: bind_splits)
    with aud_transition_ok[of b pc s pc' t f] assms(2) ACmdTrans show ?thesis by (auto simp: aud_cmd_ok_def)
  qed
next
  case (ACmdHas p r)
  show ?thesis
  proof (cases r)
    case ForThread
    with ACmdHas assms(1) obtain u where u: "actl u = actl s" "t = u\<lparr>eCurState := OMX_StateIdle\<rparr>" "f = Quiet" "c' = ACmdTrans p (AudDone OMX_ErrorNone)"
      by (auto split: bind_splits dest: aud_start_ctl)
    with ForThread ACmdHas assms(2) aud_same(3)[OF u(1), of b] show ?thesis
      by (simp add: aud_cmd_ok_def aud_trans_ok_def aud_reason_ok_def aud_settled_def aud_started_def)
  next
    case ForCommand
    with ACmdHas assms(1) have u: "\<exists>u. actl u = actl s \<and> t = free_cmd p u" "f = PostsCtrl" "c' = ACmdPend p"
      by (auto split: bind_splits intro: aud_port_ctl)
    from u(1) have "actl t = actl s" by (auto simp: actl_def free_cmd_def)
    with u(2,3) ForCommand ACmdHas assms(2) aud_same(5)[of t s b] show ?thesis by (simp add: aud_cmd_ok_def aud_reason_ok_def)
  qed
next
  case (ACmdCtrl p r)
  with assms(1) have "actl t = actl s" "f = Quiet" "c' = ACmdWait p r \<or> c' = ACmdHas p r"
    by (auto simp: ctrl_enter_def actl_def split: bind_splits option.splits)
  with assms(2) ACmdCtrl aud_cmd_ok_same[of t s c b] show ?thesis by (auto simp: aud_cmd_ok_def)
next
  case (ACmdWoken p r)
  with assms(1) have "actl t = actl s" "f = Quiet" "c' = ACmdHas p r"
    by (auto simp: ctrl_resume_def actl_def split: bind_splits)
  with assms(2) ACmdWoken aud_cmd_ok_same[of t s c b] show ?thesis by (auto simp: aud_cmd_ok_def)
next
  case ACmdStart
  with assms have "actl t = actl s" "f = Quiet" "c' = ACmdPend NULL" by (auto simp: actl_def split: bind_splits)
  with assms(2) ACmdStart aud_same(5)[of t s b] show ?thesis by (simp add: aud_cmd_ok_def)
next
  case (ACmdPend p)
  with assms have "actl t = actl s" "f = Quiet" "c' = ACmdTest p" by (auto simp: actl_def split: bind_splits)
  with assms(2) ACmdPend aud_same(5)[of t s b] show ?thesis by (simp add: aud_cmd_ok_def)
qed (use assms in simp_all)

definition aud_ok :: "aud_sys \<Rightarrow> bool" where
  "aud_ok S \<longleftrightarrow> aud_cmd_ok (acpc S) (abpc S) (acomp S)"

interpretation aud_oks: aud_stable L aud_ok for L
proof unfold_locales
  show "aud_step L S T \<Longrightarrow> aud_ok S \<Longrightarrow> aud_ok T" for S T
  proof (induction rule: aud_step.induct)
    case (client lib k S e t)
    then show ?case using aud_cmd_ok_same[OF actl_client] by (simp add: aud_ok_def)
  next
    case (buffer lib S b t b' c')
    then show ?case using aud_signal_ok[OF buffer(3) aud_buf_step_ok] by (simp add: aud_ok_def)
  next
    case (command lib S c t f b' c')
    then show ?case using aud_signal_ok[OF command(3) aud_cmd_step_ok] by (simp add: aud_ok_def)
  qed
qed

section \<open>A new component\<close>

lemma aud_init_result:
  assumes "NX_FFMpegAudioDecoder_ComponentInit num al acb h = (OMX_ErrorNone, Some s, n)"
  shows "s = init_auddec (zero_auddec\<lparr>hComp := h, nNumPort := 0,
      pCallbacks := \<lparr>cbEventHandler = NULL, cbEmptyBufferDone = NULL, cbFillBufferDone = NULL\<rparr>,
      eCurState := OMX_StateLoaded, eNewState := OMX_StateLoaded\<rparr>)"
  using assms by (auto simp: NX_FFMpegAudioDecoder_ComponentInit_def NX_BaseComponentInit_def Let_def split: if_splits)

lemma new_auddec_views:
  assumes "NX_FFMpegAudioDecoder_ComponentInit num al acb h = (OMX_ErrorNone, Some s, n)"
  shows "aud_wf s" "aud_in_view s = []" "aud_out_view s = {#}" "aud_ok (created_aud s)"
proof -
  define z where "z = zero_auddec\<lparr>hComp := h, nNumPort := 0,
      pCallbacks := \<lparr>cbEventHandler = NULL, cbEmptyBufferDone = NULL, cbFillBufferDone = NULL\<rparr>,
      eCurState := OMX_StateLoaded, eNewState := OMX_StateLoaded\<rparr>"
  have s: "s = init_auddec z" using aud_init_result[OF assms] by (simp add: z_def)
  have z: "trace z = []" "length (pInputBuffers z) = NX_OMX_MAX_BUF" "length (pOutputBuffers z) = NX_OMX_MAX_BUF"
    "length (inPortType z) = IN_PORT_WORDS" "eCurState z = OMX_StateLoaded" "hBufCtrlSem z = None" "hBufChangeSem z = None"
    by (simp_all add: z_def zero_auddec_def)
  show "aud_wf s" using z(2-4) new_queue by (simp add: s aud_wf_def init_auddec_def Let_def aud_init_port_def NX_InitOMXPort_def)
  show "aud_in_view s = []" "aud_out_view s = {#}"
    using z(1) new_queue by (simp_all add: s aud_in_view_def aud_out_view_def init_auddec_def Let_def)
  show "aud_ok (created_aud s)"
    using z(5-7) by (simp add: s aud_ok_def created_aud_def aud_cmd_ok_def aud_settled_def aud_stopped_def init_auddec_def Let_def)
qed

definition new_aud :: NX_AUDDEC where
  "new_aud = the (fst (snd (NX_FFMpegAudioDecoder_ComponentInit 0 True True 1)))"

lemma new_aud: "NX_FFMpegAudioDecoder_ComponentInit 0 True True 1 = (OMX_ErrorNone, Some new_aud, 1)"
  by (simp add: new_aud_def NX_FFMpegAudioDecoder_ComponentInit_def NX_BaseComponentInit_def Let_def)

section \<open>Properties of every run\<close>

text \<open>
  C5: Whatever the client, the two threads and the library do from the creation of the audio decoder on: the input
  buffers that went back to the client, followed by those that wait, are a subsequence of those that it handed over,
  and the output buffers that went back or wait are among those handed over; no buffer is invented, given back twice,
  or (input) out of order. If the library always allocates a frame and no buffer is \<open>NULL\<close>, these are equalities:
  none is lost.
\<close>

theorem aud_buffers_conserved:
  assumes "NX_FFMpegAudioDecoder_ComponentInit num al acb h = (OMX_ErrorNone, Some s, n)" and "aud_reach L (created_aud s) S"
  shows "subseq (ebd_ptrs (trace (acomp S)) @ in_list (acomp S)) (ains S) \<and>
    mset (fbd_ptrs (trace (acomp S)) @ out_list (acomp S)) \<subseteq># mset (aouts S) \<and>
    ((\<forall>lib\<in>L. avcodec_alloc_frame lib) \<and> NULL \<notin> set (ains S @ aouts S) \<longrightarrow>
      ebd_ptrs (trace (acomp S)) @ in_list (acomp S) = ains S \<and>
      mset (fbd_ptrs (trace (acomp S)) @ out_list (acomp S)) = mset (aouts S))"
proof -
  note s = new_auddec_views[OF assms(1)]
  have "aud_account (\<forall>lib\<in>L. avcodec_alloc_frame lib) s (created_aud s)"
    by (simp add: aud_account_def created_aud_def)
  from aud_accounts.always[OF assms(2) this] s(1-3) show ?thesis
    by (auto simp: aud_account_def flows_def aud_in_view_def aud_out_view_def)
qed

text \<open>A component to which a client hands one buffer in vain.\<close>

theorem aud_buffers_conserved_witness:
  "\<exists>T. aud_reach {sample_av} (created_aud new_aud) T \<and> T \<noteq> created_aud new_aud \<and> ebd_ptrs (trace (acomp T)) @ in_list (acomp T) = ains T"
proof -
  let ?T = "(created_aud new_aud)\<lparr>acomp := new_aud\<lparr>byte_mem := (byte_mem new_aud)(1 := Some [7])\<rparr>, ains := [] @ [], aouts := [] @ []\<rparr>"
  have "aud_step {sample_av} (created_aud new_aud) ?T"
    using aud_step.client[of sample_av "{sample_av}" "AudData 1 [7]" "created_aud new_aud"] by (simp add: created_aud_def)
  then have r: "aud_reach {sample_av} (created_aud new_aud) ?T" by (rule aud_reach.step[OF aud_reach.start])
  have "byte_mem (acomp ?T) 1 \<noteq> byte_mem new_aud 1"
    by (subst (2) aud_init_result[OF new_aud]) (simp add: init_auddec_def zero_auddec_def Let_def)
  then have "byte_mem (acomp ?T) 1 \<noteq> byte_mem (acomp (created_aud new_aud)) 1" by (simp add: created_aud_def)
  then have "?T \<noteq> created_aud new_aud" by (rule contrapos_nn) (rule arg_cong[where f = "\<lambda>S. byte_mem (acomp S) 1"])
  moreover have "ebd_ptrs (trace (acomp ?T)) @ in_list (acomp ?T) = ains ?T"
    using aud_buffers_conserved[OF new_aud r] by (simp add: sample_av_def created_aud_def)
  ultimately show ?thesis using r by blast
qed

text \<open>The transitions that the component can make.\<close>

definition aud_edges :: "(OMX_STATETYPE \<times> OMX_STATETYPE) set" where
  "aud_edges = {(OMX_StateLoaded, OMX_StateIdle), (OMX_StateIdle, OMX_StateLoaded), (OMX_StateIdle, OMX_StateExecuting),
     (OMX_StateExecuting, OMX_StateIdle), (OMX_StateIdle, OMX_StatePause), (OMX_StatePause, OMX_StateIdle),
     (OMX_StateExecuting, OMX_StatePause), (OMX_StatePause, OMX_StateExecuting)}"

lemma aud_transition_edge:
  assumes "aud_transition_step j pc s = Some (pc', t, f)" and "aud_trans_ok pc b s"
  shows "eCurState t = eCurState s \<or> (eCurState s, eCurState t) \<in> aud_edges"
proof (cases pc)
  case (AudAlloc i)
  with assms(1) show ?thesis by (auto split: if_splits bind_splits dest: aud_same(1)[OF actl_pend_alloc])
next
  case (AudFree i)
  with assms show ?thesis
    by (auto simp: aud_trans_ok_def aud_edges_def split: if_splits bind_splits dest: aud_same(1)[OF actl_pend_alloc])
next
  case AudReturn
  with assms show ?thesis by (auto simp: aud_trans_ok_def aud_edges_def split: bind_splits)
qed (use assms(1) in \<open>auto split: if_splits bind_splits\<close>)

lemma aud_cmd_step_edge:
  assumes "aud_cmd_step lib (b = ABufDone) c s = Some (c', t, f)" and "aud_cmd_ok c b s"
  shows "eCurState t = eCurState s \<or> (eCurState s, eCurState t) \<in> aud_edges"
proof (cases c)
  case (ACmdTest p)
  with assms(1) show ?thesis by (auto simp: Let_def split: if_splits prod.splits)
next
  case (ACmdProc p)
  with assms(1) obtain m where m: "cmd_mem s p = Some m" by (cases "cmd_mem s p") auto
  with assms(1) ACmdProc obtain r u where r: "NX_FFAudDec_CommandProc (eCmd m) (nParam1 m) (pCmdData m) s = Some (r, u, f)"
    "t = (if r = Returned then free_cmd p u else u)"
    by (cases "NX_FFAudDec_CommandProc (eCmd m) (nParam1 m) (pCmdData m) s") auto
  have t: "eCurState t = eCurState u" using r(2) by (simp add: free_cmd_def)
  have st: "aud_settled b s" using assms(2) ACmdProc by (simp add: aud_cmd_ok_def)
  from r(1) show ?thesis
  proof (cases rule: aud_command_ctl)
    case 1
    with t aud_same(1)[OF 1(1)] show ?thesis by simp
  next
    case (2 pc)
    from 2(1) show ?thesis
      by (cases rule: aud_transition_cases) (use t st in \<open>auto simp: aud_direct_def aud_edges_def aud_settled_def\<close>)
  qed
next
  case (ACmdTrans p pc)
  show ?thesis
  proof (cases "\<exists>e. pc = AudDone e")
    case True
    with assms(1) ACmdTrans have "\<exists>u. actl u = actl s \<and> t = free_cmd p u"
      by (auto simp: aud_finish_state_set_def send_complete_def split: bind_splits intro: actl_quiet[OF gave_SendEvent])
    then show ?thesis by (auto simp: actl_def free_cmd_def)
  next
    case False
    with assms(1) ACmdTrans obtain pc' where "aud_transition_step (b = ABufDone) pc s = Some (pc', t, f)"
      by (cases pc) (auto simp del: aud_transition_step.simps split: bind_splits)
    with aud_transition_edge[of "b = ABufDone" pc s pc' t f b] assms(2) ACmdTrans show ?thesis by (simp add: aud_cmd_ok_def)
  qed
next
  case (ACmdHas p r)
  show ?thesis
  proof (cases r)
    case ForThread
    with ACmdHas assms show ?thesis
      by (auto simp: aud_cmd_ok_def aud_reason_ok_def aud_edges_def split: bind_splits dest!: aud_start_ctl)
  next
    case ForCommand
    with ACmdHas assms(1) have "\<exists>u. actl u = actl s \<and> t = free_cmd p u" by (auto split: bind_splits intro: aud_port_ctl)
    then show ?thesis by (auto simp: actl_def free_cmd_def)
  qed
qed (use assms(1) in \<open>auto simp: ctrl_enter_def ctrl_resume_def split: bind_splits option.splits\<close>)

text \<open>
  C8: The audio decoder is always Loaded, Idle, Executing or in Pause, and every step of every thread that changes the
  state makes one of the eight legal transitions between these. Between two commands the buffer thread exists
  exactly when the component is not Loaded.
\<close>

theorem aud_states_change_legally:
  assumes "NX_FFMpegAudioDecoder_ComponentInit num al acb h = (OMX_ErrorNone, Some s, n)" and "aud_reach L (created_aud s) S" and "aud_step L S T"
  shows "eCurState (acomp S) \<in> {OMX_StateLoaded, OMX_StateIdle, OMX_StateExecuting, OMX_StatePause} \<and>
    (eCurState (acomp T) = eCurState (acomp S) \<or> (eCurState (acomp S), eCurState (acomp T)) \<in> aud_edges) \<and>
    (acpc S = ACmdPend p \<longrightarrow> (abpc S \<notin> {ABufNone, ABufDone}) = (eCurState (acomp S) \<noteq> OMX_StateLoaded))"
proof -
  have ok: "aud_cmd_ok (acpc S) (abpc S) (acomp S)"
    using aud_oks.always[OF assms(2) new_auddec_views(4)[OF assms(1)]] by (simp add: aud_ok_def)
  have "eCurState (acomp T) = eCurState (acomp S) \<or> (eCurState (acomp S), eCurState (acomp T)) \<in> aud_edges"
    using assms(3)
  proof cases
    case (client lib k e t)
    then show ?thesis using aud_same(1)[OF actl_client[OF client(3)]] by simp
  next
    case (buffer lib b t b' c')
    then show ?thesis using aud_same(1)[OF aud_buf_step_ctl[OF buffer(3)]] by simp
  next
    case (command lib c t f b' c')
    then show ?thesis using aud_cmd_step_edge[OF command(3) ok] by simp
  qed
  then show ?thesis
    using ok by (auto simp: aud_cmd_ok_def aud_trans_ok_def aud_reason_ok_def aud_settled_def aud_started_def aud_stopped_def
      split: aud_ok_splits)
qed

text \<open>A step of the new component: the client posts a command.\<close>

theorem aud_states_change_legally_witness:
  "\<exists>T. aud_step {sample_av} (created_aud new_aud) T \<and> eCurState (acomp T) = OMX_StateLoaded"
proof -
  have "eCurState new_aud = OMX_StateLoaded" "hSemCmd new_aud \<noteq> None"
    by (subst aud_init_result[OF new_aud], simp add: init_auddec_def create_sem_def NX_CreateSem_def Let_def)+
  then obtain t where t: "NX_BaseSendCommand 100 OMX_CommandFlush 0 NULL new_aud = Some (OMX_ErrorNone, t)"
    by (auto simp: NX_BaseSendCommand_def post_handle_def)
  let ?T = "(created_aud new_aud)\<lparr>acomp := t, ains := [] @ [], aouts := [] @ []\<rparr>"
  have st: "aud_step {sample_av} (created_aud new_aud) ?T"
    using aud_step.client[of sample_av "{sample_av}" "AudSend 100 OMX_CommandFlush 0 NULL" "created_aud new_aud" OMX_ErrorNone t] t
    by (simp add: created_aud_def)
  from aud_states_change_legally[OF new_aud aud_reach.start st, of 0] aud_same(1)[OF actl_send[OF t]]
    \<open>eCurState new_aud = OMX_StateLoaded\<close> have "eCurState (acomp ?T) = OMX_StateLoaded" by simp
  with st show ?thesis by blast
qed

section \<open>The default role\<close>

text \<open>
  A new component has the role for AC3 but no coding: opened without any parameter, it becomes Idle all the same, with
  no codec, and the first packet then has no defined result.
\<close>

lemma default_role_is_not_opened:
  assumes "NX_FFMpegAudioDecoder_ComponentInit num al acb h = (OMX_ErrorNone, Some s, n)"
  shows "compRole s = ''audio_decoder.ac3'' \<and> inCodingType s = 0 \<and> (\<exists>u. openAudioCodec lib s = Some (-1, u) \<and>
     aud_start_done lib s = Some (u\<lparr>eCurState := OMX_StateIdle\<rparr>) \<and> (\<forall>lib src out off m w. decode_loop lib src out off m w u = None))"
proof -
  have s: "compRole s = ''audio_decoder.ac3''" "inCodingType s = 0" "avctx s = NULL"
    by (subst aud_init_result[OF assms], simp add: init_auddec_def zero_auddec_def Let_def)+
  have "audio_codec s = None" using s(2) by (simp add: audio_codec_def)
  then obtain u where u: "openAudioCodec lib s = Some (-1, u)" "avctx u = NULL"
    using s(3) by (auto simp: openAudioCodec_def Let_def)
  then have "ctx_at u = None" by (simp add: ctx_at_def)
  then have "decode_loop lib src out off m w u = None" for lib src out off m w by (subst decode_loop.simps) simp
  with s u show ?thesis by (simp add: aud_start_done_def)
qed

end
