(* ===== verification/AudioRoute.thy ===== *)
theory AudioRoute
  imports OmxPrelude
begin

text \<open>
  \<open>audio/audio_route.c\<close>, first part: the mixer controls of a sound card with their old, new and reset
  values, the named paths of settings, and the operations on both.

  A pointer to an array of integers that a control owns is an \<open>int_ptr\<close>: not initialised, NULL, or a block. The
  arrays of paths and settings grow by \<open>realloc\<close>; a list holds the elements that are in use, \<open>path_block\<close> and
  \<open>set_block\<close> the number of elements there is room for, and a write behind them is \<open>None\<close>. (The sizes cannot
  reach \<open>2 ^ 32\<close>: an element has at least 12 bytes.) A C \<open>int\<close> is an integer here, as the code only copies and
  compares them. tinyalsa and the allocator are the parameter \<open>mixer_lib\<close>; the calls that set a control are
  appended to \<open>writes\<close>. An index of \<open>mixer_get_ctl\<close> stands for the pointer that it returns.
\<close>

section \<open>tinyalsa and the allocator\<close>

datatype mixer_ctl_type = MIXER_CTL_TYPE_BOOL | MIXER_CTL_TYPE_INT | MIXER_CTL_TYPE_ENUM
  | MIXER_CTL_TYPE_BYTE | MIXER_CTL_TYPE_IEC958 | MIXER_CTL_TYPE_INT64 | MIXER_CTL_TYPE_UNKNOWN

text \<open>
  The results of tinyalsa for the mixer of the card, \<open>ctl_get_array\<close> being \<open>None\<close> when the call fails; whether
  the \<open>k\<close>th allocation succeeds, and what an uninitialised block then holds.
\<close>

record mixer_lib =
  get_num_ctls :: nat
  get_ctl_by_name :: "string option \<Rightarrow> nat option"
  ctl_get_type :: "nat \<Rightarrow> mixer_ctl_type"
  ctl_get_num_values :: "nat \<Rightarrow> nat"
  ctl_get_enums :: "nat \<Rightarrow> string list"
  ctl_get_value :: "nat \<Rightarrow> int"
  ctl_get_array :: "nat \<Rightarrow> (nat \<Rightarrow> int) option"
  malloc_ok :: "nat \<Rightarrow> bool"
  malloc_junk :: "nat \<Rightarrow> nat \<Rightarrow> int"

datatype mixer_write = Set_value nat nat int | Set_array nat "int list"

section \<open>Structs\<close>

datatype int_ptr = Wild | Null | Block "int list"

record mixer_state =
  ms_ctl :: nat
  ms_num_values :: nat
  old_value :: int_ptr
  new_value :: int_ptr
  reset_value :: int_ptr

record mixer_setting =
  ctl_index :: nat
  set_num_values :: nat
  set_value :: "int list"

record mixer_path =
  path_name :: "string option"
  set_size :: nat
  set_block :: nat
  setting :: "mixer_setting list"

record audio_route =
  mixer_states :: "mixer_state list"
  mixer_path_size :: nat
  path_block :: nat
  mixer_paths :: "mixer_path list"
  allocs :: nat
  writes :: "mixer_write list"

definition INITIAL_MIXER_PATH_SIZE :: nat where
  "INITIAL_MIXER_PATH_SIZE = 8"

section \<open>Memory\<close>

fun deref :: "int_ptr \<Rightarrow> int list option" where
  "deref (Block xs) = Some xs"
| "deref _ = None"

text \<open>\<open>memcpy\<close> of \<open>n\<close> integers, and \<open>malloc\<close> of \<open>n\<close> integers.\<close>

definition copy_ints :: "nat \<Rightarrow> int_ptr \<Rightarrow> int_ptr \<Rightarrow> int_ptr option" where
  "copy_ints n dst src = do {
     d \<leftarrow> deref dst;
     s \<leftarrow> deref src;
     if n \<le> length d \<and> n \<le> length s then Some (Block (take n s @ drop n d)) else None }"

definition next_alloc :: "audio_route \<Rightarrow> audio_route" where
  "next_alloc r = r\<lparr>allocs := Suc (allocs r)\<rparr>"

definition malloc_ints :: "mixer_lib \<Rightarrow> nat \<Rightarrow> audio_route \<Rightarrow> int_ptr \<times> audio_route" where
  "malloc_ints e n r = (if malloc_ok e (allocs r) then Block (map (malloc_junk e (allocs r)) [0..<n]) else Null,
     next_alloc r)"

text \<open>\<open>a[i] = v\<close> on a list of integers.\<close>

definition put :: "nat \<Rightarrow> int \<Rightarrow> int list \<Rightarrow> int list option" where
  "put i v xs = (if i < length xs then Some (xs[i := v]) else None)"

definition index_to_ctl :: "audio_route \<Rightarrow> nat \<Rightarrow> nat option" where
  "index_to_ctl r i = (if i < length (mixer_states r) then Some (ms_ctl (mixer_states r ! i)) else None)"

section \<open>Paths\<close>

fun find_path :: "mixer_path list \<Rightarrow> string \<Rightarrow> nat \<Rightarrow> nat option option" where
  "find_path [] name i = Some None"
| "find_path (p # ps) name i = do {
     s \<leftarrow> path_name p;
     if s = name then Some (Some i) else find_path ps name (Suc i) }"

definition path_get_by_name :: "audio_route \<Rightarrow> string \<Rightarrow> nat option option" where
  "path_get_by_name r name = find_path (mixer_paths r) name 0"

text \<open>Room for one more path; the size is doubled before \<open>realloc\<close> is asked.\<close>

definition grow_paths :: "mixer_lib \<Rightarrow> audio_route \<Rightarrow> bool \<times> audio_route" where
  "grow_paths e r = (if mixer_path_size r \<le> length (mixer_paths r)
     then let z = (if mixer_path_size r = 0 then INITIAL_MIXER_PATH_SIZE else 2 * mixer_path_size r);
              r' = (next_alloc r)\<lparr>mixer_path_size := z\<rparr>
          in if malloc_ok e (allocs r) then (True, r'\<lparr>path_block := z\<rparr>) else (False, r')
     else (True, r))"

definition path_create :: "mixer_lib \<Rightarrow> string \<Rightarrow> audio_route \<Rightarrow> (nat option \<times> audio_route) option" where
  "path_create e name r = do {
     f \<leftarrow> path_get_by_name r name;
     if f \<noteq> None then Some (None, r)
     else case grow_paths e r of
       (False, r) \<Rightarrow> Some (None, r)
     | (True, r) \<Rightarrow>
         if path_block r \<le> length (mixer_paths r) then None
         else let s = (if malloc_ok e (allocs r) then Some name else None);
                  p = \<lparr>path_name = s, set_size = 0, set_block = 0, setting = []\<rparr>
              in Some (Some (length (mixer_paths r)), (next_alloc r)\<lparr>mixer_paths := mixer_paths r @ [p]\<rparr>) }"

fun find_setting :: "mixer_setting list \<Rightarrow> nat \<Rightarrow> nat \<Rightarrow> nat option" where
  "find_setting [] c i = None"
| "find_setting (s # ss) c i = (if ctl_index s = c then Some i else find_setting ss c (Suc i))"

definition find_ctl_index_in_path :: "mixer_path \<Rightarrow> nat \<Rightarrow> nat option" where
  "find_ctl_index_in_path p c = find_setting (setting p) c 0"

text \<open>
  The path \<open>i\<close> of the route. \<open>alloc_path_setting\<close> returns the index of the new setting; the element itself is
  appended by its callers, who fill in all its fields.
\<close>

definition path_at :: "audio_route \<Rightarrow> nat \<Rightarrow> mixer_path option" where
  "path_at r i = (if i < length (mixer_paths r) then Some (mixer_paths r ! i) else None)"

definition set_path :: "nat \<Rightarrow> mixer_path \<Rightarrow> audio_route \<Rightarrow> audio_route" where
  "set_path i p r = r\<lparr>mixer_paths := (mixer_paths r)[i := p]\<rparr>"

definition alloc_path_setting :: "mixer_lib \<Rightarrow> nat \<Rightarrow> audio_route \<Rightarrow> (nat option \<times> audio_route) option" where
  "alloc_path_setting e i r = do {
     p \<leftarrow> path_at r i;
     if set_size p \<le> length (setting p)
     then let z = (if set_size p = 0 then INITIAL_MIXER_PATH_SIZE else 2 * set_size p)
          in if malloc_ok e (allocs r)
             then Some (Some (length (setting p)), set_path i (p\<lparr>set_size := z, set_block := z\<rparr>) (next_alloc r))
             else Some (None, set_path i (p\<lparr>set_size := z\<rparr>) (next_alloc r))
     else Some (Some (length (setting p)), r) }"

text \<open>The new element behind the settings of path \<open>i\<close>.\<close>

definition append_setting :: "nat \<Rightarrow> mixer_setting \<Rightarrow> audio_route \<Rightarrow> audio_route option" where
  "append_setting i s r = do {
     p \<leftarrow> path_at r i;
     if length (setting p) < set_block p then Some (set_path i (p\<lparr>setting := setting p @ [s]\<rparr>) r) else None }"

text \<open>The result is whether the call succeeds (0) or not (-1).\<close>

definition path_add_setting :: "mixer_lib \<Rightarrow> nat \<Rightarrow> mixer_setting \<Rightarrow> audio_route \<Rightarrow> (bool \<times> audio_route) option" where
  "path_add_setting e i s r = do {
     p \<leftarrow> path_at r i;
     if find_ctl_index_in_path p (ctl_index s) \<noteq> None
     then do { c \<leftarrow> index_to_ctl r (ctl_index s); Some (False, r) }
     else do {
       (k, r) \<leftarrow> alloc_path_setting e i r;
       if k = None then Some (False, r)
       else let (v, r) = malloc_ints e (set_num_values s) r in do {
         v \<leftarrow> copy_ints (set_num_values s) v (Block (set_value s));
         v \<leftarrow> deref v;
         r \<leftarrow> append_setting i (s\<lparr>set_value := v\<rparr>) r;
         Some (True, r) } } }"

text \<open>
  The fields of \<open>struct mixer_value\<close> are the arguments \<open>c\<close>, \<open>j\<close> and \<open>v\<close>; the path is \<open>None\<close> for a NULL pointer, which
  is only looked at when the index is in range.
\<close>

definition store_value :: "nat \<Rightarrow> nat \<Rightarrow> nat \<Rightarrow> int \<Rightarrow> int \<Rightarrow> audio_route \<Rightarrow> audio_route option" where
  "store_value i k n j v r = do {
     p \<leftarrow> path_at r i;
     if length (setting p) \<le> k then None else
     let s = setting p ! k in do {
       vs \<leftarrow> (if j = -1 then (if n \<le> length (set_value s) then Some (replicate n v @ drop n (set_value s)) else None)
              else if j < 0 then None
              else put (nat j) v (set_value s));
       Some (set_path i (p\<lparr>setting := (setting p)[k := s\<lparr>set_value := vs\<rparr>]\<rparr>) r) } }"

definition path_add_value :: "mixer_lib \<Rightarrow> nat option \<Rightarrow> nat \<Rightarrow> int \<Rightarrow> int \<Rightarrow> audio_route
    \<Rightarrow> (bool \<times> audio_route) option" where
  "path_add_value e path c j v r = do {
     ctl \<leftarrow> index_to_ctl r c;
     let n = ctl_get_num_values e ctl;
     if int n \<le> j then Some (False, r)
     else do {
       i \<leftarrow> path;
       p \<leftarrow> path_at r i;
       case find_ctl_index_in_path p c of
         Some k \<Rightarrow> do { r \<leftarrow> store_value i k n j v r; Some (True, r) }
       | None \<Rightarrow> do {
           (k, r) \<leftarrow> alloc_path_setting e i r;
           case k of
             None \<Rightarrow> Some (False, r)
           | Some k \<Rightarrow> let (b, r) = malloc_ints e n r in do {
               b \<leftarrow> deref b;
               b \<leftarrow> put 0 v b;
               r \<leftarrow> append_setting i \<lparr>ctl_index = c, set_num_values = n, set_value = b\<rparr> r;
               r \<leftarrow> store_value i k n j v r;
               Some (True, r) } } } }"

text \<open>
  The settings of another path are added until one fails. The list is that of the other path when the loop
  starts: adding to path \<open>i\<close> does not change it unless both are the same path, and then the first addition fails
  because the control is already there.
\<close>

fun add_settings :: "mixer_lib \<Rightarrow> nat \<Rightarrow> mixer_setting list \<Rightarrow> audio_route \<Rightarrow> (bool \<times> audio_route) option" where
  "add_settings e i [] r = Some (True, r)"
| "add_settings e i (s # ss) r = do {
     (ok, r) \<leftarrow> path_add_setting e i s r;
     if ok then add_settings e i ss r else Some (False, r) }"

definition path_add_path :: "mixer_lib \<Rightarrow> nat option \<Rightarrow> nat option \<Rightarrow> audio_route \<Rightarrow> (bool \<times> audio_route) option" where
  "path_add_path e path sub r = do {
     j \<leftarrow> sub;
     q \<leftarrow> path_at r j;
     if setting q = [] then Some (True, r) else do { i \<leftarrow> path; add_settings e i (setting q) r } }"

text \<open>\<open>path_apply\<close> and \<open>path_reset\<close> change \<open>new_value\<close> of the controls of a path.\<close>

fun apply_settings :: "mixer_setting list \<Rightarrow> mixer_state list \<Rightarrow> mixer_state list option" where
  "apply_settings [] ms = Some ms"
| "apply_settings (s # ss) ms = (if length ms \<le> ctl_index s then None else
     let m = ms ! ctl_index s in do {
       w \<leftarrow> copy_ints (set_num_values s) (new_value m) (Block (set_value s));
       apply_settings ss (ms[ctl_index s := m\<lparr>new_value := w\<rparr>]) })"

fun reset_settings :: "mixer_setting list \<Rightarrow> mixer_state list \<Rightarrow> mixer_state list option" where
  "reset_settings [] ms = Some ms"
| "reset_settings (s # ss) ms = (if length ms \<le> ctl_index s then None else
     let m = ms ! ctl_index s in do {
       w \<leftarrow> copy_ints (ms_num_values m) (new_value m) (reset_value m);
       reset_settings ss (ms[ctl_index s := m\<lparr>new_value := w\<rparr>]) })"

definition path_apply :: "mixer_path \<Rightarrow> audio_route \<Rightarrow> audio_route option" where
  "path_apply p r = do { ms \<leftarrow> apply_settings (setting p) (mixer_states r); Some (r\<lparr>mixer_states := ms\<rparr>) }"

definition path_reset :: "mixer_path \<Rightarrow> audio_route \<Rightarrow> audio_route option" where
  "path_reset p r = do { ms \<leftarrow> reset_settings (setting p) (mixer_states r); Some (r\<lparr>mixer_states := ms\<rparr>) }"

section \<open>The state of the mixer\<close>

definition supported :: "mixer_ctl_type \<Rightarrow> bool" where
  "supported t \<longleftrightarrow> t = MIXER_CTL_TYPE_BOOL \<or> t = MIXER_CTL_TYPE_INT \<or> t = MIXER_CTL_TYPE_ENUM"

definition alloc_state :: "mixer_lib \<Rightarrow> nat \<Rightarrow> audio_route \<Rightarrow> audio_route option" where
  "alloc_state e i r = (
     let n = ctl_get_num_values e i;
         m = \<lparr>ms_ctl = i, ms_num_values = n, old_value = Wild, new_value = Wild, reset_value = Wild\<rparr>
     in if \<not> supported (ctl_get_type e i) then Some (r\<lparr>mixer_states := mixer_states r @ [m]\<rparr>)
     else let (o1, r) = malloc_ints e n r; (w, r) = malloc_ints e n r; (z, r) = malloc_ints e n r in do {
       xs \<leftarrow> deref o1;
       xs \<leftarrow> (if ctl_get_type e i = MIXER_CTL_TYPE_ENUM then put 0 (ctl_get_value e i) xs
              else Some (case ctl_get_array e i of None \<Rightarrow> xs | Some f \<Rightarrow> map f [0..<n]));
       w \<leftarrow> copy_ints n w (Block xs);
       Some (r\<lparr>mixer_states := mixer_states r @ [m\<lparr>old_value := Block xs, new_value := w, reset_value := z\<rparr>]\<rparr>) })"

fun alloc_states :: "mixer_lib \<Rightarrow> nat list \<Rightarrow> audio_route \<Rightarrow> audio_route option" where
  "alloc_states e [] r = Some r"
| "alloc_states e (i # is) r = do { r \<leftarrow> alloc_state e i r; alloc_states e is r }"

definition alloc_mixer_state :: "mixer_lib \<Rightarrow> audio_route \<Rightarrow> (bool \<times> audio_route) option" where
  "alloc_mixer_state e r = (if malloc_ok e (allocs r)
     then do { r \<leftarrow> alloc_states e [0..<get_num_ctls e] ((next_alloc r)\<lparr>mixer_states := []\<rparr>); Some (True, r) }
     else Some (False, next_alloc r))"

text \<open>\<open>free\<close> of a pointer that was never set is undefined.\<close>

definition free_mixer_state :: "audio_route \<Rightarrow> audio_route option" where
  "free_mixer_state r = (if \<forall>m\<in>set (mixer_states r). old_value m \<noteq> Wild \<and> new_value m \<noteq> Wild \<and> reset_value m \<noteq> Wild
     then Some (r\<lparr>mixer_states := []\<rparr>) else None)"

text \<open>One turn of the loop of \<open>audio_route_update_mixer\<close>, and the loop.\<close>

definition update_ctl :: "mixer_lib \<Rightarrow> mixer_state \<Rightarrow> (mixer_state \<times> mixer_write list) option" where
  "update_ctl e m = (let n = ms_num_values m; t = ctl_get_type e (ms_ctl m) in
     if \<not> supported t then Some (m, [])
     else do {
       xs \<leftarrow> deref (old_value m);
       ys \<leftarrow> deref (new_value m);
       if length xs < n \<or> length ys < n then None
       else if \<exists>j<n. xs ! j \<noteq> ys ! j
       then do {
         o2 \<leftarrow> copy_ints n (old_value m) (new_value m);
         Some (m\<lparr>old_value := o2\<rparr>,
           [if t = MIXER_CTL_TYPE_ENUM then Set_value (ms_ctl m) 0 (ys ! 0) else Set_array (ms_ctl m) (take n ys)]) }
       else Some (m, []) })"

fun update_states :: "mixer_lib \<Rightarrow> mixer_state list \<Rightarrow> (mixer_state list \<times> mixer_write list) option" where
  "update_states e [] = Some ([], [])"
| "update_states e (m # ms) = do {
     (m, w) \<leftarrow> update_ctl e m;
     (ms, ws) \<leftarrow> update_states e ms;
     Some (m # ms, w @ ws) }"

definition audio_route_update_mixer :: "mixer_lib \<Rightarrow> audio_route \<Rightarrow> audio_route option" where
  "audio_route_update_mixer e r = do {
     (ms, ws) \<leftarrow> update_states e (mixer_states r);
     Some (r\<lparr>mixer_states := ms, writes := writes r @ ws\<rparr>) }"

fun save_states :: "mixer_state list \<Rightarrow> mixer_state list option" where
  "save_states [] = Some []"
| "save_states (m # ms) = do {
     z \<leftarrow> copy_ints (ms_num_values m) (reset_value m) (new_value m);
     ms \<leftarrow> save_states ms;
     Some (m\<lparr>reset_value := z\<rparr> # ms) }"

fun load_states :: "mixer_state list \<Rightarrow> mixer_state list option" where
  "load_states [] = Some []"
| "load_states (m # ms) = do {
     w \<leftarrow> copy_ints (ms_num_values m) (new_value m) (reset_value m);
     ms \<leftarrow> load_states ms;
     Some (m\<lparr>new_value := w\<rparr> # ms) }"

definition save_mixer_state :: "audio_route \<Rightarrow> audio_route option" where
  "save_mixer_state r = do { ms \<leftarrow> save_states (mixer_states r); Some (r\<lparr>mixer_states := ms\<rparr>) }"

definition audio_route_reset :: "audio_route \<Rightarrow> audio_route option" where
  "audio_route_reset r = do { ms \<leftarrow> load_states (mixer_states r); Some (r\<lparr>mixer_states := ms\<rparr>) }"

text \<open>The entry points by name; the route is \<open>None\<close> for a NULL pointer, and the result -1 or 0.\<close>

definition on_path :: "(mixer_path \<Rightarrow> audio_route \<Rightarrow> audio_route option) \<Rightarrow> string \<Rightarrow> audio_route option
    \<Rightarrow> (int \<times> audio_route option) option" where
  "on_path f name ar = (case ar of None \<Rightarrow> Some (-1, None)
     | Some r \<Rightarrow> do {
         i \<leftarrow> path_get_by_name r name;
         case i of None \<Rightarrow> Some (-1, Some r)
         | Some i \<Rightarrow> do { p \<leftarrow> path_at r i; r \<leftarrow> f p r; Some (0, Some r) } })"

definition audio_route_apply_path :: "string \<Rightarrow> audio_route option \<Rightarrow> (int \<times> audio_route option) option" where
  "audio_route_apply_path = on_path path_apply"

definition audio_route_reset_path :: "string \<Rightarrow> audio_route option \<Rightarrow> (int \<times> audio_route option) option" where
  "audio_route_reset_path = on_path path_reset"

section \<open>Well-formed routes\<close>

text \<open>
  What the code relies on: every control has three blocks as long as its number of values, every setting belongs
  to a control and has all its values, a path has at most one setting for a control, names are set and unique, and
  there is room for what is in use. \<open>card_ok\<close>: every control of the card has a type that the code supports and at
  least one value. \<open>memory_ok\<close>: allocations succeed.
\<close>

definition card_ok :: "mixer_lib \<Rightarrow> bool" where
  "card_ok e \<longleftrightarrow> (\<forall>i<get_num_ctls e. supported (ctl_get_type e i) \<and> 0 < ctl_get_num_values e i)"

definition memory_ok :: "mixer_lib \<Rightarrow> bool" where
  "memory_ok e \<longleftrightarrow> (\<forall>k. malloc_ok e k)"

fun ints :: "int_ptr \<Rightarrow> int list" where
  "ints (Block xs) = xs"
| "ints _ = []"

definition holds :: "nat \<Rightarrow> int_ptr \<Rightarrow> bool" where
  "holds n p \<longleftrightarrow> p = Block (ints p) \<and> length (ints p) = n"

definition wf_state :: "mixer_lib \<Rightarrow> nat \<Rightarrow> mixer_state \<Rightarrow> bool" where
  "wf_state e i m \<longleftrightarrow> ms_ctl m = i \<and> ms_num_values m = ctl_get_num_values e i
     \<and> holds (ctl_get_num_values e i) (old_value m) \<and> holds (ctl_get_num_values e i) (new_value m)
     \<and> holds (ctl_get_num_values e i) (reset_value m)"

definition wf_states :: "mixer_lib \<Rightarrow> mixer_state list \<Rightarrow> bool" where
  "wf_states e ms \<longleftrightarrow> length ms = get_num_ctls e \<and> (\<forall>i<length ms. wf_state e i (ms ! i))"

definition wf_setting :: "mixer_lib \<Rightarrow> mixer_setting \<Rightarrow> bool" where
  "wf_setting e s \<longleftrightarrow> ctl_index s < get_num_ctls e \<and> set_num_values s = ctl_get_num_values e (ctl_index s)
     \<and> length (set_value s) = set_num_values s"

definition wf_path :: "mixer_lib \<Rightarrow> mixer_path \<Rightarrow> bool" where
  "wf_path e p \<longleftrightarrow> path_name p \<noteq> None \<and> set_size p = set_block p \<and> length (setting p) \<le> set_block p
     \<and> distinct (map ctl_index (setting p)) \<and> (\<forall>s\<in>set (setting p). wf_setting e s)"

definition wf_route :: "mixer_lib \<Rightarrow> audio_route \<Rightarrow> bool" where
  "wf_route e r \<longleftrightarrow> wf_states e (mixer_states r) \<and> mixer_path_size r = path_block r
     \<and> length (mixer_paths r) \<le> path_block r \<and> distinct (map path_name (mixer_paths r))
     \<and> (\<forall>p\<in>set (mixer_paths r). wf_path e p)"

lemmas wf_defs = wf_state_def wf_states_def wf_setting_def wf_path_def wf_route_def

lemma holds_Block [simp]: "holds n (Block xs) \<longleftrightarrow> length xs = n"
  by (simp add: holds_def)

lemma holdsE:
  assumes "holds n p"
  obtains xs where "p = Block xs" "length xs = n"
  using assms unfolding holds_def by blast

lemma copy_ints_holds [simp]: "holds n d \<Longrightarrow> holds n s \<Longrightarrow> copy_ints n d s = Some s"
  by (elim holdsE) (simp add: copy_ints_def)

lemma holds_malloc: "memory_ok e \<Longrightarrow> malloc_ints e n r = (Block (map (malloc_junk e (allocs r)) [0..<n]), next_alloc r)"
  by (simp add: malloc_ints_def memory_ok_def)

lemma next_alloc_fields [simp]:
  "mixer_states (next_alloc r) = mixer_states r" "mixer_paths (next_alloc r) = mixer_paths r"
  "path_block (next_alloc r) = path_block r" "mixer_path_size (next_alloc r) = mixer_path_size r"
  "writes (next_alloc r) = writes r"
  by (simp_all add: next_alloc_def)

lemma set_path_fields [simp]:
  "mixer_states (set_path i p r) = mixer_states r" "mixer_paths (set_path i p r) = (mixer_paths r)[i := p]"
  "path_block (set_path i p r) = path_block r" "mixer_path_size (set_path i p r) = mixer_path_size r"
  "writes (set_path i p r) = writes r" "allocs (set_path i p r) = allocs r"
  by (simp_all add: set_path_def)

lemma wf_route_path: "wf_route e r \<Longrightarrow> i < length (mixer_paths r) \<Longrightarrow> wf_path e (mixer_paths r ! i)"
  by (simp add: wf_route_def)

lemma wf_route_setting: "wf_route e r \<Longrightarrow> i < length (mixer_paths r) \<Longrightarrow> k < length (setting (mixer_paths r ! i))
    \<Longrightarrow> wf_setting e (setting (mixer_paths r ! i) ! k)"
  using wf_route_path[of e r i] by (simp add: wf_path_def)

lemma wf_route_state: "wf_route e r \<Longrightarrow> c < get_num_ctls e
    \<Longrightarrow> c < length (mixer_states r) \<and> wf_state e c (mixer_states r ! c)"
  by (simp add: wf_route_def wf_states_def)

text \<open>Replacing a path by one with the same name.\<close>

lemma wf_set_path:
  assumes "wf_route e r" "i < length (mixer_paths r)" "path_name p = path_name (mixer_paths r ! i)" "wf_path e p"
  shows "wf_route e (set_path i p r)"
proof -
  have "map path_name ((mixer_paths r)[i := p]) = map path_name (mixer_paths r)"
    using assms(2,3) by (simp add: map_update) (metis length_map list_update_id nth_map)
  then show ?thesis using assms set_update_subset_insert[of "mixer_paths r" i p] unfolding wf_route_def by auto
qed

lemma wf_next_alloc [simp]: "wf_route e (next_alloc r) = wf_route e r"
  by (simp add: wf_route_def)

section \<open>Finding paths and settings\<close>

lemma find_path_named:
  assumes "\<forall>p\<in>set ps. path_name p \<noteq> None"
  shows "\<exists>f. find_path ps name i = Some f"
  using assms by (induction ps arbitrary: i) auto

lemma find_path_None: "find_path ps name i = Some None \<Longrightarrow> Some name \<notin> path_name ` set ps"
  by (induction ps arbitrary: i) (auto split: bind_splits if_splits)

lemma find_path_Some:
  "find_path ps name i = Some (Some k) \<Longrightarrow> i \<le> k \<and> k - i < length ps \<and> path_name (ps ! (k - i)) = Some name"
proof (induction ps arbitrary: i)
  case (Cons p ps)
  show ?case
  proof (cases "path_name p = Some name")
    case False
    with Cons.prems have "find_path ps name (Suc i) = Some (Some k)" by (auto split: bind_splits if_splits)
    from Cons.IH[OF this] show ?thesis by (auto simp: nth_Cons Suc_diff_Suc split: nat.splits) (metis Suc_diff_Suc Suc_le_lessD diff_Suc_Suc nth_Cons_Suc)+
  qed (use Cons.prems in auto)
qed simp

lemma find_path_hit:
  assumes "k < length ps" "path_name (ps ! k) = Some name" "distinct (map path_name ps)" "\<forall>p\<in>set ps. path_name p \<noteq> None"
  shows "find_path ps name i = Some (Some (i + k))"
  using assms
proof (induction ps arbitrary: i k)
  case (Cons p ps)
  show ?case
  proof (cases k)
    case (Suc j)
    then have "path_name p \<noteq> Some name" using Cons.prems by (auto simp: image_iff) (metis nth_mem)
    then show ?thesis using Cons Suc by fastforce
  qed (use Cons.prems in simp)
qed simp

lemma path_get_by_name_total: "wf_route e r \<Longrightarrow> \<exists>f. path_get_by_name r name = Some f"
  unfolding path_get_by_name_def wf_route_def wf_path_def by (rule find_path_named) blast

lemma path_get_by_name_Some: "path_get_by_name r name = Some (Some k) \<Longrightarrow>
    k < length (mixer_paths r) \<and> path_name (mixer_paths r ! k) = Some name"
  unfolding path_get_by_name_def by (drule find_path_Some) simp

lemma path_get_by_name_hit:
  "wf_route e r \<Longrightarrow> k < length (mixer_paths r) \<Longrightarrow> path_name (mixer_paths r ! k) = Some name
     \<Longrightarrow> path_get_by_name r name = Some (Some k)"
  unfolding path_get_by_name_def wf_route_def wf_path_def using find_path_hit[of k "mixer_paths r" name 0] by auto

lemma path_get_by_name_None:
  "wf_route e r \<Longrightarrow> Some name \<notin> path_name ` set (mixer_paths r) \<Longrightarrow> path_get_by_name r name = Some None"
  using path_get_by_name_total[of e r name] path_get_by_name_Some[of r name]
  by (metis image_eqI nth_mem option.exhaust)

lemma find_setting_None: "find_setting ss c i = None \<longleftrightarrow> c \<notin> ctl_index ` set ss"
  by (induction ss arbitrary: i) auto

lemma find_setting_Some: "find_setting ss c i = Some k \<Longrightarrow> i \<le> k \<and> k - i < length ss \<and> ctl_index (ss ! (k - i)) = c"
proof (induction ss arbitrary: i)
  case (Cons s ss)
  show ?case
  proof (cases "ctl_index s = c")
    case False
    with Cons.prems have "find_setting ss c (Suc i) = Some k" by simp
    from Cons.IH[OF this] show ?thesis by (metis Suc_diff_Suc Suc_le_lessD Suc_mono le_Suc_eq length_Cons nat_le_linear nth_Cons_Suc not_less_eq_eq)
  qed (use Cons.prems in auto)
qed simp

section \<open>Adding paths and settings\<close>

definition empty_path :: "string \<Rightarrow> mixer_path" where
  "empty_path name = \<lparr>path_name = Some name, set_size = 0, set_block = 0, setting = []\<rparr>"

lemma empty_path_fields [simp]: "path_name (empty_path n) = Some n" "setting (empty_path n) = []"
  by (simp_all add: empty_path_def)

lemma wf_empty_path [simp]: "wf_path e (empty_path n)"
  by (simp add: empty_path_def wf_path_def)

lemma grow_paths_ok:
  assumes "memory_ok e" "wf_route e r"
  shows "\<exists>r'. grow_paths e r = (True, r') \<and> wf_route e r' \<and> mixer_states r' = mixer_states r \<and> writes r' = writes r
    \<and> mixer_paths r' = mixer_paths r \<and> length (mixer_paths r') < path_block r'"
  using assms by (auto simp: grow_paths_def wf_route_def memory_ok_def Let_def INITIAL_MIXER_PATH_SIZE_def)

text \<open>A new name creates an empty path at the end; a known name changes nothing.\<close>

lemma path_create_new:
  assumes m: "memory_ok e" and wf: "wf_route e r" and new: "Some name \<notin> path_name ` set (mixer_paths r)"
  shows "\<exists>r'. path_create e name r = Some (Some (length (mixer_paths r)), r') \<and> wf_route e r'
    \<and> mixer_paths r' = mixer_paths r @ [empty_path name] \<and> mixer_states r' = mixer_states r \<and> writes r' = writes r"
proof -
  obtain r1 where r1: "grow_paths e r = (True, r1)" "wf_route e r1" "mixer_states r1 = mixer_states r"
      "writes r1 = writes r" "mixer_paths r1 = mixer_paths r" "length (mixer_paths r1) < path_block r1"
    using grow_paths_ok[OF m wf] by blast
  let ?r = "(next_alloc r1)\<lparr>mixer_paths := mixer_paths r1 @ [empty_path name]\<rparr>"
  have "path_create e name r = Some (Some (length (mixer_paths r)), ?r)"
    using r1 m path_get_by_name_None[OF wf new] by (simp add: path_create_def memory_ok_def empty_path_def)
  moreover have "wf_route e ?r" using r1(2,5,6) new by (simp add: wf_route_def)
  ultimately show ?thesis using r1 by simp
qed

lemma path_create_known:
  assumes "wf_route e r" "Some name \<in> path_name ` set (mixer_paths r)"
  shows "path_create e name r = Some (None, r)"
proof -
  obtain k where "k < length (mixer_paths r)" "path_name (mixer_paths r ! k) = Some name"
    using assms(2) by (metis imageE in_set_conv_nth)
  then show ?thesis using path_get_by_name_hit[OF assms(1)] by (simp add: path_create_def)
qed

text \<open>The effect of a successful addition on path \<open>i\<close>.\<close>

definition add_to_path :: "nat \<Rightarrow> mixer_setting \<Rightarrow> audio_route \<Rightarrow> audio_route \<Rightarrow> bool" where
  "add_to_path i s r r' \<longleftrightarrow> length (mixer_paths r') = length (mixer_paths r)
     \<and> (\<forall>j<length (mixer_paths r). j \<noteq> i \<longrightarrow> mixer_paths r' ! j = mixer_paths r ! j)
     \<and> path_name (mixer_paths r' ! i) = path_name (mixer_paths r ! i)
     \<and> setting (mixer_paths r' ! i) = setting (mixer_paths r ! i) @ [s]
     \<and> mixer_states r' = mixer_states r \<and> writes r' = writes r"

lemma alloc_path_setting_ok:
  assumes m: "memory_ok e" and wf: "wf_route e r" and i: "i < length (mixer_paths r)"
  shows "\<exists>r' p'. alloc_path_setting e i r = Some (Some (length (setting (mixer_paths r ! i))), r')
    \<and> mixer_paths r' = (mixer_paths r)[i := p'] \<and> setting p' = setting (mixer_paths r ! i)
    \<and> path_name p' = path_name (mixer_paths r ! i) \<and> wf_path e p'
    \<and> length (setting p') < set_block p' \<and> wf_route e r'
    \<and> mixer_states r' = mixer_states r \<and> writes r' = writes r"
proof -
  let ?p = "mixer_paths r ! i"
  have p: "wf_path e ?p" using wf i by (simp add: wf_route_def)
  show ?thesis
  proof (cases "set_size ?p \<le> length (setting ?p)")
    case True
    let ?z = "if set_size ?p = 0 then INITIAL_MIXER_PATH_SIZE else 2 * set_size ?p"
    let ?p' = "?p\<lparr>set_size := ?z, set_block := ?z\<rparr>"
    have "wf_path e ?p'" "length (setting ?p') < ?z"
      using p True by (auto simp: wf_path_def INITIAL_MIXER_PATH_SIZE_def)
    moreover have "wf_route e (set_path i ?p' (next_alloc r))"
      using wf i \<open>wf_path e ?p'\<close> by (intro wf_set_path) simp_all
    ultimately show ?thesis using True i m
      by (intro exI[of _ "set_path i ?p' (next_alloc r)"] exI[of _ ?p'])
         (simp add: alloc_path_setting_def path_at_def memory_ok_def Let_def)
  next
    case False
    then show ?thesis using p i wf
      by (intro exI[of _ r] exI[of _ ?p]) (simp add: alloc_path_setting_def path_at_def wf_path_def)
  qed
qed

lemma append_setting_ok:
  assumes "wf_route e r" "i < length (mixer_paths r)" "length (setting (mixer_paths r ! i)) < set_block (mixer_paths r ! i)"
    "wf_setting e s" "ctl_index s \<notin> ctl_index ` set (setting (mixer_paths r ! i))"
  shows "\<exists>r'. append_setting i s r = Some r' \<and> wf_route e r' \<and> add_to_path i s r r'"
proof -
  let ?p = "mixer_paths r ! i"
  have "wf_path e (?p\<lparr>setting := setting ?p @ [s]\<rparr>)"
    using assms by (auto simp: wf_path_def wf_route_def)
  with assms show ?thesis
    by (simp add: append_setting_def path_at_def add_to_path_def wf_set_path)
qed

lemma add_to_path_after_alloc:
  assumes "add_to_path i s r1 r2" "mixer_paths r1 = (mixer_paths r)[i := p']" "setting p' = setting (mixer_paths r ! i)"
    "path_name p' = path_name (mixer_paths r ! i)" "i < length (mixer_paths r)"
    "mixer_states r1 = mixer_states r" "writes r1 = writes r"
  shows "add_to_path i s r r2"
  using assms by (simp add: add_to_path_def)

text \<open>Adding a setting that the path does not have appends it; one that it has is refused.\<close>

lemma path_add_setting_new:
  assumes m: "memory_ok e" and wf: "wf_route e r" and i: "i < length (mixer_paths r)" and s: "wf_setting e s"
    and new: "ctl_index s \<notin> ctl_index ` set (setting (mixer_paths r ! i))"
  shows "\<exists>r'. path_add_setting e i s r = Some (True, r') \<and> wf_route e r' \<and> add_to_path i s r r'"
proof -
  obtain r1 p' where a: "alloc_path_setting e i r = Some (Some (length (setting (mixer_paths r ! i))), r1)"
      "mixer_paths r1 = (mixer_paths r)[i := p']" "setting p' = setting (mixer_paths r ! i)"
      "path_name p' = path_name (mixer_paths r ! i)" "wf_path e p'" "length (setting p') < set_block p'" "wf_route e r1"
      "mixer_states r1 = mixer_states r" "writes r1 = writes r"
    using alloc_path_setting_ok[OF m wf i] by blast
  obtain r2 where r2: "append_setting i s (next_alloc r1) = Some r2" "wf_route e r2" "add_to_path i s (next_alloc r1) r2"
    using append_setting_ok[of e "next_alloc r1" i s] a i s new by auto
  have "add_to_path i s r r2"
    by (rule add_to_path_after_alloc[OF r2(3), of r p']) (use a i in simp_all)
  moreover have "s\<lparr>set_value := set_value s\<rparr> = s" by simp
  ultimately show ?thesis using a(1) r2 i s new m
    by (simp add: path_add_setting_def path_at_def find_ctl_index_in_path_def find_setting_None[THEN iffD2]
        holds_malloc wf_setting_def)
qed

lemma path_add_setting_known:
  assumes wf: "wf_route e r" and i: "i < length (mixer_paths r)" and s: "wf_setting e s"
    and old: "ctl_index s \<in> ctl_index ` set (setting (mixer_paths r ! i))"
  shows "path_add_setting e i s r = Some (False, r)"
proof -
  obtain k where "find_setting (setting (mixer_paths r ! i)) (ctl_index s) 0 = Some k"
    using old find_setting_None by (metis option.exhaust)
  moreover have "ctl_index s < length (mixer_states r)" using wf s by (simp add: wf_defs)
  ultimately show ?thesis using i
    by (simp add: path_add_setting_def path_at_def find_ctl_index_in_path_def index_to_ctl_def)
qed

text \<open>The values of a setting after one value, or with the index -1 all of them, has been stored.\<close>

definition value_at :: "nat \<Rightarrow> int \<Rightarrow> int \<Rightarrow> int list \<Rightarrow> int list" where
  "value_at n j v xs = (if j = -1 then replicate n v else xs[nat j := v])"

lemma length_value_at [simp]: "length xs = n \<Longrightarrow> length (value_at n j v xs) = n"
  by (simp add: value_at_def)

lemma store_value_ok:
  assumes wf: "wf_route e r" and i: "i < length (mixer_paths r)" and k: "k < length (setting (mixer_paths r ! i))"
    and n: "n = set_num_values (setting (mixer_paths r ! i) ! k)" and j: "-1 \<le> j" "j < int n"
  shows "\<exists>r'. store_value i k n j v r = Some r' \<and> wf_route e r'
    \<and> r' = set_path i ((mixer_paths r ! i)\<lparr>setting := (setting (mixer_paths r ! i))[k := (setting (mixer_paths r ! i) ! k)
        \<lparr>set_value := value_at n j v (set_value (setting (mixer_paths r ! i) ! k))\<rparr>]\<rparr>) r"
proof -
  let ?p = "mixer_paths r ! i" let ?s = "setting ?p ! k"
  let ?s' = "?s\<lparr>set_value := value_at n j v (set_value ?s)\<rparr>"
  have p: "wf_path e ?p" using wf i by (simp add: wf_route_def)
  have s: "wf_setting e ?s" using wf_route_setting[OF wf i k] .
  have len: "length (set_value ?s) = n" using s n by (simp add: wf_setting_def)
  have s': "wf_setting e ?s'" using s len n by (simp add: wf_setting_def)
  have "map ctl_index ((setting ?p)[k := ?s']) = map ctl_index (setting ?p)"
    by (simp add: map_update) (metis k length_map list_update_id nth_map)
  then have "wf_path e (?p\<lparr>setting := (setting ?p)[k := ?s']\<rparr>)"
    using p s' set_update_subset_insert[of "setting ?p" k ?s'] by (auto simp: wf_path_def)
  then have "wf_route e (set_path i (?p\<lparr>setting := (setting ?p)[k := ?s']\<rparr>) r)"
    using wf i by (intro wf_set_path) simp_all
  moreover have "store_value i k n j v r = Some (set_path i (?p\<lparr>setting := (setting ?p)[k := ?s']\<rparr>) r)"
    using i k j len by (auto simp: store_value_def path_at_def Let_def put_def value_at_def)
  ultimately show ?thesis by simp
qed

lemma path_add_value_old:
  assumes wf: "wf_route e r" and i: "i < length (mixer_paths r)"
    and k: "find_ctl_index_in_path (mixer_paths r ! i) c = Some k" and j: "-1 \<le> j" "j < int (ctl_get_num_values e c)"
  shows "\<exists>r'. path_add_value e (Some i) c j v r = Some (True, r') \<and> wf_route e r'
    \<and> r' = set_path i ((mixer_paths r ! i)\<lparr>setting := (setting (mixer_paths r ! i))[k := (setting (mixer_paths r ! i) ! k)
        \<lparr>set_value := value_at (ctl_get_num_values e c) j v (set_value (setting (mixer_paths r ! i) ! k))\<rparr>]\<rparr>) r"
proof -
  let ?p = "mixer_paths r ! i"
  have kk: "k < length (setting ?p)" "ctl_index (setting ?p ! k) = c"
    using k find_setting_Some[of "setting ?p" c 0 k] by (simp_all add: find_ctl_index_in_path_def)
  have s: "wf_setting e (setting ?p ! k)" using wf_route_setting[OF wf i kk(1)] .
  then have n: "set_num_values (setting ?p ! k) = ctl_get_num_values e c" and "c < get_num_ctls e"
    using kk by (simp_all add: wf_setting_def)
  then have c: "c < length (mixer_states r)" "ms_ctl (mixer_states r ! c) = c"
    using wf_route_state[OF wf] by (simp_all add: wf_state_def)
  obtain r' where "store_value i k (ctl_get_num_values e c) j v r = Some r'" "wf_route e r'"
      "r' = set_path i (?p\<lparr>setting := (setting ?p)[k := (setting ?p ! k)
        \<lparr>set_value := value_at (ctl_get_num_values e c) j v (set_value (setting ?p ! k))\<rparr>]\<rparr>) r"
    using store_value_ok[OF wf i kk(1) n[symmetric] j(1)] j(2) n by metis
  then show ?thesis using i k j c by (simp add: path_add_value_def index_to_ctl_def path_at_def Let_def)
qed

lemma path_add_value_new:
  assumes m: "memory_ok e" and wf: "wf_route e r" and i: "i < length (mixer_paths r)"
    and c: "c < get_num_ctls e" "c \<notin> ctl_index ` set (setting (mixer_paths r ! i))"
    and n: "0 < ctl_get_num_values e c" and j: "-1 \<le> j" "j < int (ctl_get_num_values e c)"
  shows "\<exists>r' junk. path_add_value e (Some i) c j v r = Some (True, r') \<and> wf_route e r' \<and> length junk = ctl_get_num_values e c
    \<and> add_to_path i \<lparr>ctl_index = c, set_num_values = ctl_get_num_values e c,
        set_value = value_at (ctl_get_num_values e c) j v (junk[0 := v])\<rparr> r r'"
proof -
  let ?n = "ctl_get_num_values e c" and ?l = "length (setting (mixer_paths r ! i))"
  obtain r1 p' where a: "alloc_path_setting e i r = Some (Some ?l, r1)"
      "mixer_paths r1 = (mixer_paths r)[i := p']" "setting p' = setting (mixer_paths r ! i)"
      "path_name p' = path_name (mixer_paths r ! i)" "wf_path e p'" "length (setting p') < set_block p'" "wf_route e r1"
      "mixer_states r1 = mixer_states r" "writes r1 = writes r"
    using alloc_path_setting_ok[OF m wf i] by blast
  define junk where "junk = map (malloc_junk e (allocs r1)) [0..<?n]"
  let ?s = "\<lparr>ctl_index = c, set_num_values = ?n, set_value = junk[0 := v]\<rparr>"
  have "wf_setting e ?s" using c by (simp add: wf_setting_def junk_def)
  then obtain r2 where r2: "append_setting i ?s (next_alloc r1) = Some r2" "wf_route e r2" "add_to_path i ?s (next_alloc r1) r2"
    using append_setting_ok[of e "next_alloc r1" i ?s] a i c by auto
  have ap: "add_to_path i ?s r r2"
    by (rule add_to_path_after_alloc[OF r2(3), of r p']) (use a i in simp_all)
  have i2: "i < length (mixer_paths r2)" and last: "setting (mixer_paths r2 ! i) ! ?l = ?s"
      "?l < length (setting (mixer_paths r2 ! i))"
    using ap i by (simp_all add: add_to_path_def nth_append)
  obtain r3 where r3: "store_value i ?l ?n j v r2 = Some r3" "wf_route e r3"
      "r3 = set_path i ((mixer_paths r2 ! i)\<lparr>setting := (setting (mixer_paths r2 ! i))[?l := ?s
        \<lparr>set_value := value_at ?n j v (set_value ?s)\<rparr>]\<rparr>) r2"
    using store_value_ok[OF r2(2) i2 last(2), of ?n j v] j last(1) by auto
  have "find_ctl_index_in_path (mixer_paths r ! i) c = None"
    using c by (simp add: find_ctl_index_in_path_def find_setting_None)
  moreover have "ms_ctl (mixer_states r ! c) = c" "c < length (mixer_states r)" using wf_route_state[OF wf c(1)] by (simp_all add: wf_state_def)
  ultimately have "path_add_value e (Some i) c j v r = Some (True, r3)"
    using j i a(1) r2(1) r3(1) m n
    by (simp add: path_add_value_def index_to_ctl_def path_at_def Let_def holds_malloc put_def junk_def)
  moreover have "add_to_path i (?s\<lparr>set_value := value_at ?n j v (set_value ?s)\<rparr>) r r3"
    using ap r3(3) i i2 by (simp add: add_to_path_def)
  ultimately show ?thesis using r3(2) by (intro exI[of _ r3] exI[of _ junk]) (simp add: junk_def)
qed

text \<open>An index from the number of values on is refused; one below -1 is a write before the array.\<close>

lemma path_add_value_refused:
  "wf_route e r \<Longrightarrow> c < get_num_ctls e \<Longrightarrow> int (ctl_get_num_values e c) \<le> j \<Longrightarrow> path_add_value e path c j v r = Some (False, r)"
  by (simp add: path_add_value_def index_to_ctl_def wf_defs Let_def)

lemma path_add_value_negative:
  assumes "memory_ok e" "j < -1"
  shows "path_add_value e path c j v r = None"
proof (cases "path_add_value e path c j v r")
  case (Some x)
  then show ?thesis using assms
    by (auto simp: path_add_value_def alloc_path_setting_def store_value_def memory_ok_def Let_def split: bind_splits option.splits if_splits prod.splits)
qed

end
