(* ===== verification/AudioMixer.thy ===== *)
theory AudioMixer
  imports AudioRoute
begin

text \<open>
  What the operations of \<open>audio_route.c\<close> on the mixer do, in closed form for a well-formed route; the hardware as
  the effect of the calls that set controls; and any sequence of operations.
\<close>

section \<open>Closed forms\<close>

definition olds :: "audio_route \<Rightarrow> nat \<Rightarrow> int list" where
  "olds r c = ints (old_value (mixer_states r ! c))"

definition news :: "audio_route \<Rightarrow> nat \<Rightarrow> int list" where
  "news r c = ints (new_value (mixer_states r ! c))"

definition resets :: "audio_route \<Rightarrow> nat \<Rightarrow> int list" where
  "resets r c = ints (reset_value (mixer_states r ! c))"

text \<open>The settings of a path written over values.\<close>

fun override :: "mixer_setting list \<Rightarrow> (nat \<Rightarrow> int list) \<Rightarrow> nat \<Rightarrow> int list" where
  "override [] f = f"
| "override (s # ss) f = override ss (f(ctl_index s := set_value s))"

lemma override_distinct:
  "distinct (map ctl_index ss) \<Longrightarrow> override ss f c =
     (case find (\<lambda>s. ctl_index s = c) ss of Some s \<Rightarrow> set_value s | None \<Rightarrow> f c)"
proof (induction ss arbitrary: f)
  case (Cons s ss)
  show ?case
  proof (cases "ctl_index s = c")
    case True
    then have "find (\<lambda>s. ctl_index s = c) ss = None" using Cons.prems by (simp add: find_None_iff image_iff) metis
    then show ?thesis using Cons True by simp
  qed (use Cons in \<open>simp split: option.split\<close>)
qed simp

lemma wf_state_update [simp]:
  "wf_state e i m \<Longrightarrow> holds (ms_num_values m) p \<Longrightarrow> wf_state e i (m\<lparr>old_value := p\<rparr>)"
  "wf_state e i m \<Longrightarrow> holds (ms_num_values m) p \<Longrightarrow> wf_state e i (m\<lparr>new_value := p\<rparr>)"
  "wf_state e i m \<Longrightarrow> holds (ms_num_values m) p \<Longrightarrow> wf_state e i (m\<lparr>reset_value := p\<rparr>)"
  by (simp_all add: wf_state_def)

lemma wf_state_holds:
  "wf_state e i m \<Longrightarrow> ms_num_values m = ctl_get_num_values e i \<and> holds (ctl_get_num_values e i) (old_value m)
     \<and> holds (ctl_get_num_values e i) (new_value m) \<and> holds (ctl_get_num_values e i) (reset_value m)"
  by (simp add: wf_state_def)

text \<open>\<open>rebuild f\<close> replaces the new values.\<close>

definition rebuild :: "(nat \<Rightarrow> int list) \<Rightarrow> mixer_state list \<Rightarrow> mixer_state list" where
  "rebuild f ms = map (\<lambda>i. (ms ! i)\<lparr>new_value := Block (f i)\<rparr>) [0..<length ms]"

lemma rebuild_update:
  "i < length ms \<Longrightarrow> rebuild f (ms[i := (ms ! i)\<lparr>new_value := p\<rparr>]) = rebuild f ms"
  by (auto simp: rebuild_def nth_list_update)

lemma rebuild_same: "wf_states e ms \<Longrightarrow> rebuild (\<lambda>i. ints (new_value (ms ! i))) ms = ms"
  by (rule nth_equalityI) (auto simp: rebuild_def wf_states_def wf_state_def holds_def)

lemma wf_rebuild:
  "wf_states e ms \<Longrightarrow> (\<And>i. i < length ms \<Longrightarrow> length (f i) = ctl_get_num_values e i) \<Longrightarrow> wf_states e (rebuild f ms)"
  by (simp add: wf_states_def rebuild_def wf_state_def)

lemma apply_settings_ok:
  assumes "wf_states e ms" "\<forall>s\<in>set ss. wf_setting e s"
  shows "apply_settings ss ms = Some (rebuild (override ss (\<lambda>i. ints (new_value (ms ! i)))) ms)
    \<and> wf_states e (rebuild (override ss (\<lambda>i. ints (new_value (ms ! i)))) ms)"
  using assms
proof (induction ss arbitrary: ms)
  case Nil
  then show ?case by (simp add: rebuild_same)
next
  case (Cons s ss)
  let ?c = "ctl_index s"
  let ?m = "(ms ! ?c)\<lparr>new_value := Block (set_value s)\<rparr>"
  have s: "?c < length ms" "set_num_values s = ctl_get_num_values e ?c" "length (set_value s) = set_num_values s"
    using Cons.prems by (simp_all add: wf_states_def wf_setting_def)
  have m: "wf_state e ?c (ms ! ?c)" "ms_num_values (ms ! ?c) = ctl_get_num_values e ?c"
    using Cons.prems(1) s(1) by (simp_all add: wf_states_def wf_state_def)
  have cp: "copy_ints (set_num_values s) (new_value (ms ! ?c)) (Block (set_value s)) = Some (Block (set_value s))"
    using wf_state_holds[OF m(1)] m(2) s by simp
  have wf: "wf_states e (ms[?c := ?m])"
    using Cons.prems(1) m s by (auto simp: wf_states_def nth_list_update)
  have f: "(\<lambda>i. ints (new_value (ms[?c := ?m] ! i))) = (\<lambda>i. ints (new_value (ms ! i)))(?c := set_value s)"
    using s(1) by (auto simp: fun_eq_iff nth_list_update)
  from Cons.IH[OF wf] Cons.prems(2)
  show ?case unfolding f rebuild_update[OF s(1)] using s(1) cp by (simp add: Let_def)
qed

lemma reset_settings_ok:
  assumes "wf_states e ms" "\<forall>s\<in>set ss. wf_setting e s"
  shows "reset_settings ss ms = Some (rebuild (override (map (\<lambda>s. s\<lparr>set_value := ints (reset_value (ms ! ctl_index s))\<rparr>) ss)
      (\<lambda>i. ints (new_value (ms ! i)))) ms)
    \<and> wf_states e (rebuild (override (map (\<lambda>s. s\<lparr>set_value := ints (reset_value (ms ! ctl_index s))\<rparr>) ss)
      (\<lambda>i. ints (new_value (ms ! i)))) ms)"
  using assms
proof (induction ss arbitrary: ms)
  case Nil
  then show ?case by (simp add: rebuild_same)
next
  case (Cons s ss)
  let ?c = "ctl_index s"
  let ?m = "(ms ! ?c)\<lparr>new_value := reset_value (ms ! ?c)\<rparr>"
  have s: "?c < length ms" using Cons.prems by (simp add: wf_states_def wf_setting_def)
  have m: "wf_state e ?c (ms ! ?c)" using Cons.prems(1) s(1) by (simp add: wf_states_def)
  have cp: "copy_ints (ms_num_values (ms ! ?c)) (new_value (ms ! ?c)) (reset_value (ms ! ?c)) = Some (reset_value (ms ! ?c))"
    using wf_state_holds[OF m] by simp
  have wf: "wf_states e (ms[?c := ?m])"
    using Cons.prems(1) m s wf_state_holds[OF m] by (auto simp: wf_states_def nth_list_update)
  have f: "(\<lambda>i. ints (new_value (ms[?c := ?m] ! i))) = (\<lambda>i. ints (new_value (ms ! i)))(?c := ints (reset_value (ms ! ?c)))"
    using s(1) by (auto simp: fun_eq_iff nth_list_update)
  have g: "(\<lambda>s. s\<lparr>set_value := ints (reset_value (ms[?c := ?m] ! ctl_index s))\<rparr>)
      = (\<lambda>s. s\<lparr>set_value := ints (reset_value (ms ! ctl_index s))\<rparr> :: mixer_setting)"
    using s(1) by (auto simp: fun_eq_iff nth_list_update)
  from Cons.IH[OF wf] Cons.prems(2)
  show ?case unfolding f g rebuild_update[OF s(1)] using s(1) cp by (simp add: Let_def)
qed

text \<open>The loops over all controls.\<close>

definition wf_list :: "mixer_lib \<Rightarrow> mixer_state list \<Rightarrow> bool" where
  "wf_list e ms \<longleftrightarrow> (\<forall>m\<in>set ms. \<exists>i. wf_state e i m \<and> i < get_num_ctls e)"

lemma wf_states_list: "wf_states e ms \<Longrightarrow> wf_list e ms"
  by (fastforce simp: wf_states_def wf_list_def in_set_conv_nth)

lemma wf_list_Cons [simp]: "wf_list e (m # ms) \<longleftrightarrow> (\<exists>i. wf_state e i m \<and> i < get_num_ctls e) \<and> wf_list e ms"
  by (simp add: wf_list_def)

lemma save_states_ok: "wf_list e ms \<Longrightarrow> save_states ms = Some (map (\<lambda>m. m\<lparr>reset_value := new_value m\<rparr>) ms)"
  by (induction ms) (auto dest: wf_state_holds)

lemma load_states_ok: "wf_list e ms \<Longrightarrow> load_states ms = Some (map (\<lambda>m. m\<lparr>new_value := reset_value m\<rparr>) ms)"
  by (induction ms) (auto dest: wf_state_holds)

definition ctl_writes :: "mixer_lib \<Rightarrow> mixer_state \<Rightarrow> mixer_write list" where
  "ctl_writes e m = (if old_value m = new_value m then []
     else [if ctl_get_type e (ms_ctl m) = MIXER_CTL_TYPE_ENUM then Set_value (ms_ctl m) 0 (ints (new_value m) ! 0)
           else Set_array (ms_ctl m) (ints (new_value m))])"

lemma update_ctl_ok:
  assumes e: "card_ok e" and i: "i < get_num_ctls e" and m: "wf_state e i m"
  shows "update_ctl e m = Some (m\<lparr>old_value := new_value m\<rparr>, ctl_writes e m)"
proof -
  obtain xs ys where x: "old_value m = Block xs" "length xs = ms_num_values m"
      and y: "new_value m = Block ys" "length ys = ms_num_values m"
    using wf_state_holds[OF m] by (metis holdsE)
  have s: "supported (ctl_get_type e (ms_ctl m))" using e i m by (simp add: card_ok_def wf_state_def)
  have "(\<exists>j<ms_num_values m. xs ! j \<noteq> ys ! j) \<longleftrightarrow> xs \<noteq> ys"
    using x(2) y(2) by (auto simp: list_eq_iff_nth_eq)
  then show ?thesis using s x y by (cases "xs = ys") (simp_all add: update_ctl_def ctl_writes_def Let_def)
qed

lemma update_states_ok:
  "card_ok e \<Longrightarrow> wf_list e ms \<Longrightarrow>
     update_states e ms = Some (map (\<lambda>m. m\<lparr>old_value := new_value m\<rparr>) ms, concat (map (ctl_writes e) ms))"
  by (induction ms) (auto simp: update_ctl_ok)

lemma wf_map_states:
  assumes "wf_states e ms" "\<And>i m. wf_state e i m \<Longrightarrow> wf_state e i (f m)"
  shows "wf_states e (map f ms)"
  using assms by (simp add: wf_states_def)

text \<open>The operations on a route, with the values of every control after them.\<close>

lemma wf_route_states:
  "wf_route e r \<Longrightarrow> wf_states e ms \<Longrightarrow> wf_route e (r\<lparr>mixer_states := ms, writes := ws\<rparr>)"
  "wf_route e r \<Longrightarrow> wf_states e ms \<Longrightarrow> wf_route e (r\<lparr>mixer_states := ms\<rparr>)"
  by (simp_all add: wf_route_def)

lemma audio_route_update_ok:
  assumes e: "card_ok e" and wf: "wf_route e r"
  shows "\<exists>r'. audio_route_update_mixer e r = Some r' \<and> wf_route e r' \<and> mixer_paths r' = mixer_paths r
    \<and> writes r' = writes r @ concat (map (ctl_writes e) (mixer_states r))
    \<and> (\<forall>c<get_num_ctls e. olds r' c = news r c \<and> news r' c = news r c \<and> resets r' c = resets r c)"
proof -
  have ms: "wf_states e (mixer_states r)" using wf by (simp add: wf_route_def)
  let ?ms = "map (\<lambda>m. m\<lparr>old_value := new_value m\<rparr>) (mixer_states r)"
  have "wf_states e ?ms" by (rule wf_map_states[OF ms]) (simp add: wf_state_def)
  then show ?thesis using wf ms
    by (auto simp: audio_route_update_mixer_def update_states_ok[OF e wf_states_list] wf_route_states
        olds_def news_def resets_def wf_states_def)
qed

lemma audio_route_reset_ok:
  assumes wf: "wf_route e r"
  shows "\<exists>r'. audio_route_reset r = Some r' \<and> wf_route e r' \<and> mixer_paths r' = mixer_paths r \<and> writes r' = writes r
    \<and> (\<forall>c<get_num_ctls e. olds r' c = olds r c \<and> news r' c = resets r c \<and> resets r' c = resets r c)"
proof -
  have ms: "wf_states e (mixer_states r)" using wf by (simp add: wf_route_def)
  let ?ms = "map (\<lambda>m. m\<lparr>new_value := reset_value m\<rparr>) (mixer_states r)"
  have "wf_states e ?ms" by (rule wf_map_states[OF ms]) (simp add: wf_state_def)
  then show ?thesis using wf ms
    by (auto simp: audio_route_reset_def load_states_ok[OF wf_states_list] wf_route_states
        olds_def news_def resets_def wf_states_def)
qed

lemma save_mixer_state_ok:
  assumes wf: "wf_route e r"
  shows "\<exists>r'. save_mixer_state r = Some r' \<and> wf_route e r' \<and> mixer_paths r' = mixer_paths r \<and> writes r' = writes r
    \<and> (\<forall>c<get_num_ctls e. olds r' c = olds r c \<and> news r' c = news r c \<and> resets r' c = news r c)"
proof -
  have ms: "wf_states e (mixer_states r)" using wf by (simp add: wf_route_def)
  let ?ms = "map (\<lambda>m. m\<lparr>reset_value := new_value m\<rparr>) (mixer_states r)"
  have "wf_states e ?ms" by (rule wf_map_states[OF ms]) (simp add: wf_state_def)
  then show ?thesis using wf ms
    by (auto simp: save_mixer_state_def save_states_ok[OF wf_states_list] wf_route_states
        olds_def news_def resets_def wf_states_def)
qed

lemma path_apply_ok:
  assumes wf: "wf_route e r" and p: "\<forall>s\<in>set (setting p). wf_setting e s"
  shows "\<exists>r'. path_apply p r = Some r' \<and> wf_route e r' \<and> mixer_paths r' = mixer_paths r \<and> writes r' = writes r
    \<and> (\<forall>c<get_num_ctls e. olds r' c = olds r c \<and> news r' c = override (setting p) (news r) c \<and> resets r' c = resets r c)"
  using apply_settings_ok[of e "mixer_states r" "setting p"] wf p
  by (auto simp: path_apply_def wf_route_states olds_def news_def[abs_def] resets_def rebuild_def wf_route_def wf_states_def)

lemma path_reset_ok:
  assumes wf: "wf_route e r" and p: "\<forall>s\<in>set (setting p). wf_setting e s"
  shows "\<exists>r'. path_reset p r = Some r' \<and> wf_route e r' \<and> mixer_paths r' = mixer_paths r \<and> writes r' = writes r
    \<and> (\<forall>c<get_num_ctls e. olds r' c = olds r c \<and> resets r' c = resets r c
        \<and> news r' c = override (map (\<lambda>s. s\<lparr>set_value := resets r (ctl_index s)\<rparr>) (setting p)) (news r) c)"
  using reset_settings_ok[of e "mixer_states r" "setting p"] wf p
  by (auto simp: path_reset_def wf_route_states olds_def news_def[abs_def] resets_def rebuild_def wf_route_def wf_states_def)

section \<open>The hardware\<close>

text \<open>
  The values of the controls in the driver, as the calls of tinyalsa leave them when they succeed: the code ignores
  the results of \<open>mixer_ctl_set_value\<close> and \<open>mixer_ctl_set_array\<close>, so that what is said below of the hardware
  supposes that no call failed. An enumeration is read and written through its first value only.
\<close>

fun hw_write :: "mixer_write \<Rightarrow> (nat \<Rightarrow> int list) \<Rightarrow> nat \<Rightarrow> int list" where
  "hw_write (Set_value c j v) h = h(c := (h c)[j := v])"
| "hw_write (Set_array c vs) h = h(c := vs)"

definition hw_after :: "mixer_write list \<Rightarrow> (nat \<Rightarrow> int list) \<Rightarrow> nat \<Rightarrow> int list" where
  "hw_after ws h = fold hw_write ws h"

definition shows_values :: "mixer_lib \<Rightarrow> nat \<Rightarrow> int list \<Rightarrow> int list \<Rightarrow> bool" where
  "shows_values e c hv xs \<longleftrightarrow> length hv = length xs
     \<and> (if ctl_get_type e c = MIXER_CTL_TYPE_ENUM then hv ! 0 = xs ! 0 else hv = xs)"

definition mirrors :: "mixer_lib \<Rightarrow> audio_route \<Rightarrow> (nat \<Rightarrow> int list) \<Rightarrow> bool" where
  "mirrors e r h \<longleftrightarrow> (\<forall>c<get_num_ctls e. shows_values e c (h c) (olds r c))"

lemma hw_after_Nil [simp]: "hw_after [] h = h"
  by (simp add: hw_after_def)

lemma hw_after_append: "hw_after (us @ ws) h = hw_after ws (hw_after us h)"
  by (simp add: hw_after_def)

lemma hw_other: "c \<noteq> ms_ctl m \<Longrightarrow> hw_after (ctl_writes e m) h c = h c"
  by (simp add: hw_after_def ctl_writes_def)

lemma hw_others: "c \<notin> ms_ctl ` set ms \<Longrightarrow> hw_after (concat (map (ctl_writes e) ms)) h c = h c"
  by (induction ms arbitrary: h) (auto simp: hw_after_append hw_other)

lemma hw_own:
  "h c = h' c \<Longrightarrow> c = ms_ctl m \<Longrightarrow> hw_after (ctl_writes e m) h c = hw_after (ctl_writes e m) h' c"
  by (simp add: hw_after_def ctl_writes_def)

lemma hw_each:
  "distinct (map ms_ctl ms) \<Longrightarrow> m \<in> set ms \<Longrightarrow>
     hw_after (concat (map (ctl_writes e) ms)) h (ms_ctl m) = hw_after (ctl_writes e m) h (ms_ctl m)"
proof (induction ms arbitrary: h)
  case (Cons a ms)
  show ?case
  proof (cases "m = a")
    case True
    then show ?thesis using Cons.prems by (simp add: hw_after_append hw_others)
  next
    case False
    then have m: "m \<in> set ms" using Cons.prems by simp
    then have "ms_ctl m \<in> ms_ctl ` set ms" by simp
    then have "ms_ctl m \<noteq> ms_ctl a" using Cons.prems by auto
    then have "hw_after (concat (map (ctl_writes e) (a # ms))) h (ms_ctl m)
        = hw_after (ctl_writes e m) (hw_after (ctl_writes e a) h) (ms_ctl m)"
      using Cons.IH[OF _ m] Cons.prems by (simp add: hw_after_append)
    also have "\<dots> = hw_after (ctl_writes e m) h (ms_ctl m)"
      by (rule hw_own) (use \<open>ms_ctl m \<noteq> ms_ctl a\<close> in \<open>simp_all add: hw_other\<close>)
    finally show ?thesis .
  qed
qed simp

lemma wf_states_ctls: "wf_states e ms \<Longrightarrow> map ms_ctl ms = [0..<get_num_ctls e]"
  by (rule nth_equalityI) (auto simp: wf_states_def wf_state_def)

text \<open>What the driver has of a control after the turn for it: the new values.\<close>

lemma ctl_writes_show:
  assumes e: "card_ok e" and i: "i < get_num_ctls e" and m: "wf_state e i m"
    and h: "shows_values e i (h i) (ints (old_value m))"
  shows "shows_values e i (hw_after (ctl_writes e m) h i) (ints (new_value m))"
proof -
  have l: "length (ints (old_value m)) = ctl_get_num_values e i" "length (ints (new_value m)) = ctl_get_num_values e i"
      "0 < ctl_get_num_values e i" "ms_ctl m = i"
    using e i m by (simp_all add: wf_state_def holds_def card_ok_def)
  show ?thesis
    using h l by (auto simp: ctl_writes_def hw_after_def shows_values_def)
qed

lemma update_mirrors:
  assumes e: "card_ok e" and wf: "wf_route e r" and h: "mirrors e r h"
    and c: "c < get_num_ctls e"
  shows "shows_values e c (hw_after (concat (map (ctl_writes e) (mixer_states r))) h c) (news r c)"
proof -
  have ms: "wf_states e (mixer_states r)" using wf by (simp add: wf_route_def)
  let ?m = "mixer_states r ! c"
  have m: "c < length (mixer_states r)" "wf_state e c ?m" using wf_route_state[OF wf c] by auto
  then have mc: "ms_ctl ?m = c" by (simp add: wf_state_def)
  have "distinct (map ms_ctl (mixer_states r))" by (simp add: wf_states_ctls[OF ms])
  from hw_each[OF this, of ?m e h] m(1)
  have "hw_after (concat (map (ctl_writes e) (mixer_states r))) h c = hw_after (ctl_writes e ?m) h c"
    by (simp add: mc)
  moreover have "shows_values e c (h c) (ints (old_value ?m))"
    using h c by (simp add: mirrors_def olds_def)
  ultimately show ?thesis using ctl_writes_show[OF e c m(2)] by (simp add: news_def)
qed

section \<open>Operations in sequence\<close>

datatype route_op = Apply_path string | Reset_path string | Reset_all | Update_mixer

fun run_op :: "mixer_lib \<Rightarrow> route_op \<Rightarrow> audio_route \<Rightarrow> audio_route option" where
  "run_op e (Apply_path n) r = do { (x, ar) \<leftarrow> audio_route_apply_path n (Some r); ar }"
| "run_op e (Reset_path n) r = do { (x, ar) \<leftarrow> audio_route_reset_path n (Some r); ar }"
| "run_op e Reset_all r = audio_route_reset r"
| "run_op e Update_mixer r = audio_route_update_mixer e r"

fun run_ops :: "mixer_lib \<Rightarrow> route_op list \<Rightarrow> audio_route \<Rightarrow> audio_route option" where
  "run_ops e [] r = Some r"
| "run_ops e (x # xs) r = do { r \<leftarrow> run_op e x r; run_ops e xs r }"

text \<open>What an operation keeps: the paths, the reset values, and that the old values are those of the hardware.\<close>

definition keeps :: "mixer_lib \<Rightarrow> (nat \<Rightarrow> int list) \<Rightarrow> audio_route \<Rightarrow> audio_route \<Rightarrow> bool" where
  "keeps e h r r' \<longleftrightarrow> wf_route e r' \<and> mixer_paths r' = mixer_paths r
     \<and> (\<forall>c<get_num_ctls e. resets r' c = resets r c)
     \<and> (mirrors e r (hw_after (writes r) h) \<longrightarrow> mirrors e r' (hw_after (writes r') h))"

lemma keeps_refl: "wf_route e r \<Longrightarrow> keeps e h r r"
  by (simp add: keeps_def)

lemma keeps_trans: "keeps e h r1 r2 \<Longrightarrow> keeps e h r2 r3 \<Longrightarrow> keeps e h r1 r3"
  by (simp add: keeps_def)

lemma keeps_unwritten:
  "wf_route e r' \<Longrightarrow> mixer_paths r' = mixer_paths r \<Longrightarrow> writes r' = writes r
     \<Longrightarrow> \<forall>c<get_num_ctls e. olds r' c = olds r c \<and> resets r' c = resets r c \<Longrightarrow> keeps e h r r'"
  by (simp add: keeps_def mirrors_def)

text \<open>A path is found and applied, or not found and nothing changes.\<close>

definition path_named :: "audio_route \<Rightarrow> string \<Rightarrow> mixer_setting list" where
  "path_named r n = (case find (\<lambda>p. path_name p = Some n) (mixer_paths r) of None \<Rightarrow> [] | Some p \<Rightarrow> setting p)"

lemma find_elem: "find P xs = Some x \<Longrightarrow> P x" "find P xs = Some x \<Longrightarrow> x \<in> set xs"
  by (auto simp: find_Some_iff)

lemma path_named_hit:
  assumes "wf_route e r" "k < length (mixer_paths r)" "path_name (mixer_paths r ! k) = Some n"
  shows "path_named r n = setting (mixer_paths r ! k)"
proof -
  have d: "distinct (map path_name (mixer_paths r))" using assms(1) by (simp add: wf_route_def)
  let ?f = "find (\<lambda>p. path_name p = Some n) (mixer_paths r)"
  have "?f \<noteq> None" unfolding find_None_iff using nth_mem[OF assms(2)] assms(3) by blast
  then obtain p where p: "?f = Some p" by blast
  then obtain j where "j < length (mixer_paths r)" "path_name (mixer_paths r ! j) = Some n" "p = mixer_paths r ! j"
    by (auto simp: find_Some_iff)
  then have "j = k" using d assms(2,3) by (metis length_map nth_eq_iff_index_eq nth_map)
  then show ?thesis using p \<open>p = mixer_paths r ! j\<close> by (simp add: path_named_def)
qed

lemma path_named_miss:
  assumes "Some n \<notin> path_name ` set (mixer_paths r)"
  shows "path_named r n = []"
proof (cases "find (\<lambda>p. path_name p = Some n) (mixer_paths r)")
  case (Some p)
  from find_elem[OF Some] have "path_name p = Some n" "p \<in> set (mixer_paths r)" by simp_all
  with assms show ?thesis by (metis image_eqI)
qed (simp add: path_named_def)

lemma on_path_cases:
  assumes wf: "wf_route e r"
  obtains "Some n \<notin> path_name ` set (mixer_paths r)" "\<And>f. on_path f n (Some r) = Some (-1, Some r)"
  | p where "p \<in> set (mixer_paths r)" "path_name p = Some n" "\<forall>s\<in>set (setting p). wf_setting e s"
      "path_named r n = setting p"
      "\<And>f r'. f p r = Some r' \<Longrightarrow> on_path f n (Some r) = Some (0, Some r')"
proof (cases "Some n \<in> path_name ` set (mixer_paths r)")
  case True
  then obtain k where k: "k < length (mixer_paths r)" "path_name (mixer_paths r ! k) = Some n"
    by (metis imageE in_set_conv_nth)
  show ?thesis
  proof (rule that(2)[of "mixer_paths r ! k"])
    show "\<forall>s\<in>set (setting (mixer_paths r ! k)). wf_setting e s"
      using wf_route_path[OF wf k(1)] by (simp add: wf_path_def)
  qed (use k path_named_hit[OF wf k] path_get_by_name_hit[OF wf k] in \<open>simp_all add: on_path_def path_at_def\<close>)
qed (use that(1) path_get_by_name_None[OF wf] in \<open>simp add: on_path_def\<close>)

lemma apply_path_ok:
  assumes wf: "wf_route e r"
  shows "\<exists>x r'. audio_route_apply_path n (Some r) = Some (x, Some r') \<and> wf_route e r' \<and> mixer_paths r' = mixer_paths r
    \<and> writes r' = writes r \<and> (x = 0 \<longleftrightarrow> Some n \<in> path_name ` set (mixer_paths r))
    \<and> (\<forall>c<get_num_ctls e. olds r' c = olds r c \<and> news r' c = override (path_named r n) (news r) c \<and> resets r' c = resets r c)"
proof (cases rule: on_path_cases[OF wf, of n])
  case 1
  then show ?thesis using wf by (auto simp: audio_route_apply_path_def path_named_miss)
next
  case (2 p)
  obtain r' where r': "path_apply p r = Some r'" "wf_route e r'" "mixer_paths r' = mixer_paths r" "writes r' = writes r"
      "\<forall>c<get_num_ctls e. olds r' c = olds r c \<and> news r' c = override (setting p) (news r) c \<and> resets r' c = resets r c"
    using path_apply_ok[OF wf 2(3)] by blast
  have "on_path path_apply n (Some r) = Some (0, Some r')" using 2(5) r'(1) by blast
  then show ?thesis using r' 2(1,2,4)
    by (intro exI[of _ 0] exI[of _ r']) (auto simp: audio_route_apply_path_def image_iff intro: bexI[of _ p])
qed

lemma reset_path_ok:
  assumes wf: "wf_route e r"
  shows "\<exists>x r'. audio_route_reset_path n (Some r) = Some (x, Some r') \<and> wf_route e r' \<and> mixer_paths r' = mixer_paths r
    \<and> writes r' = writes r \<and> (x = 0 \<longleftrightarrow> Some n \<in> path_name ` set (mixer_paths r))
    \<and> (\<forall>c<get_num_ctls e. olds r' c = olds r c \<and> resets r' c = resets r c \<and> news r' c =
         override (map (\<lambda>s. s\<lparr>set_value := resets r (ctl_index s)\<rparr>) (path_named r n)) (news r) c)"
proof (cases rule: on_path_cases[OF wf, of n])
  case 1
  then show ?thesis using wf by (auto simp: audio_route_reset_path_def path_named_miss)
next
  case (2 p)
  obtain r' where r': "path_reset p r = Some r'" "wf_route e r'" "mixer_paths r' = mixer_paths r" "writes r' = writes r"
      "\<forall>c<get_num_ctls e. olds r' c = olds r c \<and> resets r' c = resets r c
        \<and> news r' c = override (map (\<lambda>s. s\<lparr>set_value := resets r (ctl_index s)\<rparr>) (setting p)) (news r) c"
    using path_reset_ok[OF wf 2(3)] by blast
  have "on_path path_reset n (Some r) = Some (0, Some r')" using 2(5) r'(1) by blast
  then show ?thesis using r' 2(1,2,4)
    by (intro exI[of _ 0] exI[of _ r']) (auto simp: audio_route_reset_path_def image_iff intro: bexI[of _ p])
qed

lemma run_op_keeps:
  assumes e: "card_ok e" and wf: "wf_route e r"
  shows "\<exists>r'. run_op e x r = Some r' \<and> keeps e h r r'"
proof (cases x)
  case (Apply_path n)
  from apply_path_ok[OF wf, of n] show ?thesis using Apply_path keeps_unwritten[of e _ r h] by fastforce
next
  case (Reset_path n)
  from reset_path_ok[OF wf, of n] show ?thesis using Reset_path keeps_unwritten[of e _ r h] by fastforce
next
  case Reset_all
  from audio_route_reset_ok[OF wf] show ?thesis using Reset_all keeps_unwritten[of e _ r h] by fastforce
next
  case Update_mixer
  obtain r' where r': "audio_route_update_mixer e r = Some r'" "wf_route e r'" "mixer_paths r' = mixer_paths r"
      "writes r' = writes r @ concat (map (ctl_writes e) (mixer_states r))"
      "\<forall>c<get_num_ctls e. olds r' c = news r c \<and> news r' c = news r c \<and> resets r' c = resets r c"
    using audio_route_update_ok[OF e wf] by blast
  have "mirrors e r (hw_after (writes r) h) \<longrightarrow> mirrors e r' (hw_after (writes r') h)"
    using update_mirrors[OF e wf] r' by (simp add: mirrors_def hw_after_append)
  then show ?thesis using Update_mixer r' by (simp add: keeps_def)
qed

lemma run_ops_keep:
  assumes e: "card_ok e" and wf: "wf_route e r"
  shows "\<exists>r'. run_ops e xs r = Some r' \<and> keeps e h r r'"
  using wf
proof (induction xs arbitrary: r)
  case Nil
  then show ?case by (simp add: keeps_refl)
next
  case (Cons x xs)
  obtain r1 where r1: "run_op e x r = Some r1" "keeps e h r r1" using run_op_keeps[OF e Cons.prems] by blast
  then have "wf_route e r1" by (simp add: keeps_def)
  from Cons.IH[OF this] obtain r2 where "run_ops e xs r1 = Some r2" "keeps e h r1 r2" by blast
  then show ?case using r1 keeps_trans by fastforce
qed

end
