(* ===== verification/AudioConfig.thy ===== *)
theory AudioConfig
  imports AudioMixer
begin

text \<open>
  \<open>audio/audio_route.c\<close>, second part: the handlers of the configuration file, \<open>audio_route_init\<close> and
  \<open>audio_route_free\<close>. expat is a parameter: what it calls the handlers with, piece by piece of the file. A printed
  configuration is read back.
\<close>

section \<open>Numbers in attributes\<close>

text \<open>\<open>atoi\<close>; a number that does not fit an \<open>int\<close> is undefined.\<close>

definition is_space :: "char \<Rightarrow> bool" where
  "is_space c \<longleftrightarrow> c = CHR '' '' \<or> 9 \<le> (of_char c :: nat) \<and> (of_char c :: nat) \<le> 13"

definition digit :: "char \<Rightarrow> nat option" where
  "digit c = (let n = of_char c in if 48 \<le> n \<and> n \<le> 57 then Some (n - 48) else None)"

fun digits :: "nat \<Rightarrow> string \<Rightarrow> nat" where
  "digits acc [] = acc"
| "digits acc (c # cs) = (case digit c of Some d \<Rightarrow> digits (10 * acc + d) cs | None \<Rightarrow> acc)"

definition int_range :: "int \<Rightarrow> bool" where
  "int_range v \<longleftrightarrow> - (2 ^ 31) \<le> v \<and> v < 2 ^ 31"

definition atoi :: "string \<Rightarrow> int option" where
  "atoi s = (let s = dropWhile is_space s;
     v = (case s of c # cs \<Rightarrow> if c = CHR ''-'' then - int (digits 0 cs)
                              else if c = CHR ''+'' then int (digits 0 cs) else int (digits 0 s)
          | [] \<Rightarrow> 0)
     in if int_range v then Some v else None)"

text \<open>\<open>%d\<close>.\<close>

fun show_nat :: "nat \<Rightarrow> string" where
  "show_nat n = (if n < 10 then [char_of (48 + n)] else show_nat (n div 10) @ [char_of (48 + n mod 10)])"

declare show_nat.simps [simp del]

definition show_int :: "int \<Rightarrow> string" where
  "show_int v = (if v < 0 then CHR ''-'' # show_nat (nat (- v)) else show_nat (nat v))"

lemma digit_char [simp]: "d < 10 \<Longrightarrow> digit (char_of (48 + d)) = Some d"
  by (simp add: digit_def Let_def)

lemma digits_append: "\<forall>c\<in>set s. digit c \<noteq> None \<Longrightarrow> digits acc (s @ t) = digits (digits acc s) t"
  by (induction s arbitrary: acc) auto

lemma show_nat_digits: "c \<in> set (show_nat n) \<Longrightarrow> digit c \<noteq> None"
proof (induction n rule: show_nat.induct)
  case (1 n)
  then show ?case by (cases "n < 10") (auto simp: show_nat.simps[of n])
qed

lemma digits_show_nat [simp]: "digits 0 (show_nat n) = n"
proof (induction n rule: show_nat.induct)
  case (1 n)
  show ?case
  proof (cases "n < 10")
    case False
    have "digits 0 (show_nat n) = digits (digits 0 (show_nat (n div 10))) [char_of (48 + n mod 10)]"
      using False show_nat_digits digits_append[of "show_nat (n div 10)" 0] by (subst show_nat.simps) simp
    also have "\<dots> = 10 * (n div 10) + n mod 10" using 1 False by simp
    finally show ?thesis by simp
  qed (simp add: show_nat.simps)
qed

lemma show_nat_ne [simp]: "show_nat n \<noteq> []"
  by (subst show_nat.simps) simp

lemma digit_not_space: "digit c \<noteq> None \<Longrightarrow> \<not> is_space c \<and> c \<noteq> CHR ''-'' \<and> c \<noteq> CHR ''+''"
  by (auto simp: digit_def is_space_def Let_def split: if_splits)

lemma atoi_show_nat [simp]: "int n < 2 ^ 31 \<Longrightarrow> atoi (show_nat n) = Some (int n)"
proof -
  assume n: "int n < 2 ^ 31"
  obtain c cs where s: "show_nat n = c # cs" by (meson list.exhaust show_nat_ne)
  then have "digit c \<noteq> None" using show_nat_digits[of c n] by simp
  note c = digit_not_space[OF this]
  have "digits 0 (c # cs) = n" by (metis s digits_show_nat)
  then show ?thesis using n c by (simp add: s atoi_def Let_def int_range_def)
qed

lemma atoi_show_int [simp]: "int_range v \<Longrightarrow> atoi (show_int v) = Some v"
  by (auto simp: show_int_def int_range_def atoi_def[of "CHR ''-'' # _"] is_space_def Let_def)

section \<open>The handlers\<close>

datatype sax = Start_tag string "(string \<times> string) list" | End_tag string

record config_parse_state =
  cp_path :: "nat option"
  level :: int

text \<open>The last attribute of each name counts.\<close>

fun scan_attrs :: "(string \<times> string) list \<Rightarrow> string option \<times> string option \<times> string option
    \<Rightarrow> string option \<times> string option \<times> string option" where
  "scan_attrs [] a = a"
| "scan_attrs ((k, x) # as) (n, i, v) = (
     let n = (if k = ''name'' then Some x else n) in
     if k = ''id'' then scan_attrs as (n, Some x, v)
     else if k = ''value'' then scan_attrs as (n, i, Some x)
     else scan_attrs as (n, i, v))"

fun enum_pos :: "string list \<Rightarrow> string \<Rightarrow> nat" where
  "enum_pos [] s = 0"
| "enum_pos (x # xs) s = (if x = s then 0 else Suc (enum_pos xs s))"

text \<open>\<open>strcmp\<close> with a NULL string is undefined, so is \<open>atoi\<close>.\<close>

definition mixer_enum_string_to_value :: "mixer_lib \<Rightarrow> nat \<Rightarrow> string option \<Rightarrow> int option" where
  "mixer_enum_string_to_value e ctl s = (if ctl_get_enums e ctl = [] then Some 0
     else do { s \<leftarrow> s; Some (int (enum_pos (ctl_get_enums e ctl) s)) })"

definition attr_to_value :: "mixer_lib \<Rightarrow> nat \<Rightarrow> string option \<Rightarrow> int option" where
  "attr_to_value e ctl s = (case ctl_get_type e ctl of
     MIXER_CTL_TYPE_BOOL \<Rightarrow> do { s \<leftarrow> s; atoi s }
   | MIXER_CTL_TYPE_INT \<Rightarrow> do { s \<leftarrow> s; atoi s }
   | MIXER_CTL_TYPE_ENUM \<Rightarrow> mixer_enum_string_to_value e ctl s
   | _ \<Rightarrow> Some 0)"

fun ctl_pos :: "mixer_state list \<Rightarrow> nat \<Rightarrow> nat" where
  "ctl_pos [] ctl = 0"
| "ctl_pos (m # ms) ctl = (if ms_ctl m = ctl then 0 else Suc (ctl_pos ms ctl))"

text \<open>
  A control at the top level: its new value with the index \<open>id\<close> of the attribute, as an \<open>unsigned int\<close>, or all
  its new values.
\<close>

definition set_new_values :: "nat \<Rightarrow> int list \<Rightarrow> audio_route \<Rightarrow> audio_route" where
  "set_new_values k xs r = r\<lparr>mixer_states := (mixer_states r)[k := (mixer_states r ! k)\<lparr>new_value := Block xs\<rparr>]\<rparr>"

definition set_initial :: "nat \<Rightarrow> string option \<Rightarrow> int \<Rightarrow> audio_route \<Rightarrow> audio_route option" where
  "set_initial k attr_id v r = (if length (mixer_states r) \<le> k then None else
     let m = mixer_states r ! k; n = ms_num_values m in
     case attr_id of
       Some s \<Rightarrow> do {
         i \<leftarrow> atoi s;
         let j = nat (i mod 2 ^ 32);
         if j < n then do { xs \<leftarrow> deref (new_value m); xs \<leftarrow> put j v xs; Some (set_new_values k xs r) }
         else Some r }
     | None \<Rightarrow> if n = 0 then Some r else do {
         xs \<leftarrow> deref (new_value m);
         if n \<le> length xs then Some (set_new_values k (replicate n v @ drop n xs) r) else None })"

text \<open>A \<open>path\<close> element: a new path at level 1, a reference to another path below.\<close>

definition path_tag :: "mixer_lib \<Rightarrow> string option \<Rightarrow> config_parse_state \<times> audio_route
    \<Rightarrow> (config_parse_state \<times> audio_route) option" where
  "path_tag e attr_name sr = (case sr of (st, r) \<Rightarrow> case attr_name of
     None \<Rightarrow> Some (st, r)
   | Some name \<Rightarrow>
       if level st = 1 then do { (p, r) \<leftarrow> path_create e name r; Some (st\<lparr>cp_path := p\<rparr>, r) }
       else do {
         sub \<leftarrow> path_get_by_name r name;
         (ok, r) \<leftarrow> path_add_path e (cp_path st) sub r;
         Some (st, r) })"

definition ctl_tag :: "mixer_lib \<Rightarrow> string option \<Rightarrow> string option \<Rightarrow> string option
    \<Rightarrow> config_parse_state \<times> audio_route \<Rightarrow> (config_parse_state \<times> audio_route) option" where
  "ctl_tag e attr_name attr_id attr_value sr = (case sr of (st, r) \<Rightarrow> case get_ctl_by_name e attr_name of
     None \<Rightarrow> Some (st, r)
   | Some ctl \<Rightarrow> do {
       v \<leftarrow> attr_to_value e ctl attr_value;
       let k = ctl_pos (mixer_states r) ctl;
       if level st = 1 then do { r \<leftarrow> set_initial k attr_id v r; Some (st, r) }
       else do {
         j \<leftarrow> (case attr_id of Some s \<Rightarrow> atoi s | None \<Rightarrow> Some (-1));
         (ok, r) \<leftarrow> path_add_value e (cp_path st) k j v r;
         Some (st, r) } })"

definition start_tag :: "mixer_lib \<Rightarrow> string \<Rightarrow> (string \<times> string) list \<Rightarrow> config_parse_state \<times> audio_route
    \<Rightarrow> (config_parse_state \<times> audio_route) option" where
  "start_tag e tag attrs sr = (case scan_attrs attrs (None, None, None) of (attr_name, attr_id, attr_value) \<Rightarrow> do {
     (st, r) \<leftarrow> (if tag = ''path'' then path_tag e attr_name sr
                else if tag = ''ctl'' then ctl_tag e attr_name attr_id attr_value sr
                else Some sr);
     Some (st\<lparr>level := level st + 1\<rparr>, r) })"

definition end_tag :: "config_parse_state \<times> audio_route \<Rightarrow> config_parse_state \<times> audio_route" where
  "end_tag sr = (case sr of (st, r) \<Rightarrow> (st\<lparr>level := level st - 1\<rparr>, r))"

fun handle :: "mixer_lib \<Rightarrow> sax list \<Rightarrow> config_parse_state \<times> audio_route
    \<Rightarrow> (config_parse_state \<times> audio_route) option" where
  "handle e [] sr = Some sr"
| "handle e (Start_tag t as # xs) sr = do { sr \<leftarrow> start_tag e t as sr; handle e xs sr }"
| "handle e (End_tag t # xs) sr = handle e xs (end_tag sr)"

lemma handle_append: "handle e (xs @ ys) sr = do { sr \<leftarrow> handle e xs sr; handle e ys sr }"
  by (induction e xs sr rule: handle.induct) (auto split: bind_splits)

section \<open>Creation and destruction\<close>

text \<open>
  What the system answers: the property \<open>ro.product.device\<close>, \<open>access\<close>, whether the allocation of the route, \<open>fopen\<close>
  and \<open>XML_ParserCreate\<close> succeed, the mixer of a card, and for every turn of the reading loop whether
  \<open>XML_GetBuffer\<close> succeeds, the elements that \<open>XML_ParseBuffer\<close> reports and whether it succeeds; the last turn
  is the one in which \<open>fread\<close> returns 0.
\<close>

record route_env =
  device_name :: string
  readable :: "string \<Rightarrow> bool"
  calloc_ok :: bool
  mixer_open :: "nat \<Rightarrow> mixer_lib option"
  fopen_ok :: "string \<Rightarrow> bool"
  parser_ok :: bool
  file_turns :: "string \<Rightarrow> (bool \<times> sax list \<times> bool) list"

definition MIXER_MAX_CARD :: nat where
  "MIXER_MAX_CARD = 3"

definition config_name :: string where
  "config_name = ''/system/etc/tiny_hw''"

definition default_config :: "route_env \<Rightarrow> string" where
  "default_config E = config_name @ ''.'' @ device_name E @ ''.xml''"

definition card_config :: "route_env \<Rightarrow> nat \<Rightarrow> string" where
  "card_config E i = config_name @ ''.'' @ show_nat i @ ''.'' @ device_name E @ ''.xml''"

text \<open>The search for a configuration file: the card and the path at the end of the loop.\<close>

function search_config :: "route_env \<Rightarrow> nat \<Rightarrow> string \<Rightarrow> nat \<times> string" where
  "search_config E i path = (if MIXER_MAX_CARD \<le> i then (i, path)
     else if i = 0 \<and> readable E path then (i, path)
     else let path = card_config E i in
       if readable E path then (i, path) else search_config E (Suc i) path)"
  by pat_completeness auto

termination by (relation "measure (\<lambda>(E, i, path). MIXER_MAX_CARD - i)") auto

declare search_config.simps [simp del]

definition find_config :: "route_env \<Rightarrow> nat \<times> string" where
  "find_config E = (if readable E config_name then (0, default_config E) else search_config E 0 (default_config E))"

definition empty_route :: audio_route where
  "empty_route = \<lparr>mixer_states = [], mixer_path_size = 0, path_block = 0, mixer_paths = [], allocs = 0, writes = []\<rparr>"

text \<open>The reading loop; the flag is whether it ends without an error.\<close>

fun read_config :: "mixer_lib \<Rightarrow> (bool \<times> sax list \<times> bool) list \<Rightarrow> config_parse_state \<times> audio_route
    \<Rightarrow> (bool \<times> config_parse_state \<times> audio_route) option" where
  "read_config e [] sr = Some (True, sr)"
| "read_config e ((buffer_ok, xs, parse_ok) # ts) sr = (if \<not> buffer_ok then Some (False, sr) else do {
     sr \<leftarrow> handle e xs sr;
     if \<not> parse_ok then Some (False, sr) else read_config e ts sr })"

definition audio_route_init :: "route_env \<Rightarrow> string option \<Rightarrow> audio_route option option" where
  "audio_route_init E xml_path = (case find_config E of (no, path) \<Rightarrow>
     if MIXER_MAX_CARD \<le> no \<or> \<not> calloc_ok E then Some None
     else case mixer_open E no of None \<Rightarrow> Some None
     | Some e \<Rightarrow> do {
         (ok, r) \<leftarrow> alloc_mixer_state e empty_route;
         if \<not> ok then Some None
         else let file = (case xml_path of None \<Rightarrow> path | Some f \<Rightarrow> f) in
         if \<not> fopen_ok E file \<or> \<not> parser_ok E then do { r \<leftarrow> free_mixer_state r; Some None }
         else do {
           (ok, st, r) \<leftarrow> read_config e (file_turns E file) (\<lparr>cp_path = None, level = 0\<rparr>, r);
           if \<not> ok then do { r \<leftarrow> free_mixer_state r; Some None }
           else do {
             r \<leftarrow> audio_route_update_mixer e r;
             r \<leftarrow> save_mixer_state r;
             Some (Some r) } } })"

text \<open>\<open>audio_route_free\<close> releases the values of the controls; the paths and their settings are lost.\<close>

definition audio_route_free :: "audio_route option \<Rightarrow> unit option" where
  "audio_route_free ar = do { r \<leftarrow> ar; r \<leftarrow> free_mixer_state r; Some () }"

end
