(* ===== verification/AudioReadBack.thy ===== *)
theory AudioReadBack
  imports AudioConfig
begin

text \<open>
  A configuration as a list of initial values and of paths, whose items are settings and references to earlier
  paths; its printed form; what reading it does.
\<close>

section \<open>Adding settings to a path\<close>

definition adds :: "nat \<Rightarrow> mixer_setting list \<Rightarrow> audio_route \<Rightarrow> audio_route \<Rightarrow> bool" where
  "adds i ss r r' \<longleftrightarrow> length (mixer_paths r') = length (mixer_paths r)
     \<and> (\<forall>j<length (mixer_paths r). j \<noteq> i \<longrightarrow> mixer_paths r' ! j = mixer_paths r ! j)
     \<and> path_name (mixer_paths r' ! i) = path_name (mixer_paths r ! i)
     \<and> setting (mixer_paths r' ! i) = setting (mixer_paths r ! i) @ ss
     \<and> mixer_states r' = mixer_states r \<and> writes r' = writes r"

lemma adds_Nil [simp]: "adds i [] r r"
  by (simp add: adds_def)

lemma adds_trans: "adds i ss r1 r2 \<Longrightarrow> adds i ts r2 r3 \<Longrightarrow> adds i (ss @ ts) r1 r3"
  by (simp add: adds_def)

lemma adds_one: "add_to_path i s r r' = adds i [s] r r'"
  by (simp add: adds_def add_to_path_def)

lemma add_settings_ok:
  assumes m: "memory_ok e" and wf: "wf_route e r" and i: "i < length (mixer_paths r)"
    and ss: "\<forall>s\<in>set ss. wf_setting e s" "distinct (map ctl_index (setting (mixer_paths r ! i) @ ss))"
  shows "\<exists>r'. add_settings e i ss r = Some (True, r') \<and> wf_route e r' \<and> adds i ss r r'"
  using wf i ss
proof (induction ss arbitrary: r)
  case (Cons s ss)
  have "wf_setting e s" "ctl_index s \<notin> ctl_index ` set (setting (mixer_paths r ! i))" using Cons.prems by auto
  from path_add_setting_new[OF m Cons.prems(1,2) this]
  obtain r1 where r1: "path_add_setting e i s r = Some (True, r1)" "wf_route e r1" "adds i [s] r r1"
    by (auto simp: adds_one)
  then have "i < length (mixer_paths r1)" "distinct (map ctl_index (setting (mixer_paths r1 ! i) @ ss))"
    using Cons.prems by (auto simp: adds_def)
  from Cons.IH[OF r1(2) this(1) _ this(2)] Cons.prems(3)
  obtain r2 where "add_settings e i ss r1 = Some (True, r2)" "wf_route e r2" "adds i ss r1 r2" by auto
  then show ?case using r1 adds_trans[OF r1(3), of ss r2] by auto
qed simp

lemma find_setting_last:
  "ctl_index s = c \<Longrightarrow> c \<notin> ctl_index ` set ss \<Longrightarrow> find_setting (ss @ [s]) c i = Some (i + length ss)"
  by (induction ss arbitrary: i) auto

section \<open>Printing\<close>

datatype item = Setting nat "int list" | Include string

definition print_value :: "mixer_lib \<Rightarrow> nat \<Rightarrow> int \<Rightarrow> string" where
  "print_value e c v = (if ctl_get_type e c = MIXER_CTL_TYPE_ENUM then ctl_get_enums e c ! nat v else show_int v)"

definition print_ctl :: "mixer_lib \<Rightarrow> (nat \<Rightarrow> string) \<Rightarrow> nat \<Rightarrow> nat \<Rightarrow> int \<Rightarrow> sax list" where
  "print_ctl e nm c j v = [Start_tag ''ctl'' [(''name'', nm c), (''id'', show_nat j), (''value'', print_value e c v)],
     End_tag ''ctl'']"

definition print_values :: "mixer_lib \<Rightarrow> (nat \<Rightarrow> string) \<Rightarrow> nat \<times> int list \<Rightarrow> sax list" where
  "print_values e nm x = concat (map (\<lambda>j. print_ctl e nm (fst x) j (snd x ! j)) [0..<length (snd x)])"

fun print_item :: "mixer_lib \<Rightarrow> (nat \<Rightarrow> string) \<Rightarrow> item \<Rightarrow> sax list" where
  "print_item e nm (Setting c vs) = print_values e nm (c, vs)"
| "print_item e nm (Include n) = [Start_tag ''path'' [(''name'', n)], End_tag ''path'']"

definition print_path :: "mixer_lib \<Rightarrow> (nat \<Rightarrow> string) \<Rightarrow> string \<times> item list \<Rightarrow> sax list" where
  "print_path e nm p = Start_tag ''path'' [(''name'', fst p)] # concat (map (print_item e nm) (snd p)) @ [End_tag ''path'']"

definition print_config :: "mixer_lib \<Rightarrow> (nat \<Rightarrow> string) \<Rightarrow> (nat \<times> int list) list \<Rightarrow> (string \<times> item list) list \<Rightarrow> sax list" where
  "print_config e nm inits ps = Start_tag ''mixer'' [] # concat (map (print_values e nm) inits)
     @ concat (map (print_path e nm) ps) @ [End_tag ''mixer'']"

section \<open>Meaning\<close>

type_synonym path_spec = "string \<times> (nat \<times> int list) list"

fun item_settings :: "path_spec list \<Rightarrow> item \<Rightarrow> (nat \<times> int list) list" where
  "item_settings env (Setting c vs) = [(c, vs)]"
| "item_settings env (Include n) = (case map_of env n of Some ss \<Rightarrow> ss | None \<Rightarrow> [])"

fun config_paths :: "path_spec list \<Rightarrow> (string \<times> item list) list \<Rightarrow> path_spec list" where
  "config_paths env [] = env"
| "config_paths env ((n, xs) # ps) = config_paths (env @ [(n, concat (map (item_settings env) xs))]) ps"

text \<open>
  What a configuration must satisfy: its controls exist under their names, every value can be printed, all values
  of a control are given, names are new, a reference is to an earlier path, and a path has a control only once.
\<close>

definition good_values :: "mixer_lib \<Rightarrow> (nat \<Rightarrow> string) \<Rightarrow> nat \<times> int list \<Rightarrow> bool" where
  "good_values e nm x \<longleftrightarrow> fst x < get_num_ctls e \<and> get_ctl_by_name e (Some (nm (fst x))) = Some (fst x)
     \<and> length (snd x) = ctl_get_num_values e (fst x) \<and> int (length (snd x)) < 2 ^ 31
     \<and> distinct (ctl_get_enums e (fst x))
     \<and> (\<forall>v\<in>set (snd x). if ctl_get_type e (fst x) = MIXER_CTL_TYPE_ENUM
          then 0 \<le> v \<and> nat v < length (ctl_get_enums e (fst x)) else int_range v)"

fun good_item :: "mixer_lib \<Rightarrow> (nat \<Rightarrow> string) \<Rightarrow> path_spec list \<Rightarrow> item \<Rightarrow> bool" where
  "good_item e nm env (Setting c vs) = good_values e nm (c, vs)"
| "good_item e nm env (Include n) = (n \<in> fst ` set env)"

fun good_paths :: "mixer_lib \<Rightarrow> (nat \<Rightarrow> string) \<Rightarrow> path_spec list \<Rightarrow> (string \<times> item list) list \<Rightarrow> bool" where
  "good_paths e nm env [] = True"
| "good_paths e nm env ((n, xs) # ps) = (n \<notin> fst ` set env \<and> (\<forall>x\<in>set xs. good_item e nm env x)
     \<and> distinct (map fst (concat (map (item_settings env) xs)))
     \<and> good_paths e nm (env @ [(n, concat (map (item_settings env) xs))]) ps)"

definition path_spec :: "mixer_path \<Rightarrow> path_spec" where
  "path_spec p = (the (path_name p), map (\<lambda>s. (ctl_index s, set_value s)) (setting p))"

section \<open>Reading a control\<close>

lemma ctl_pos_wf:
  assumes wf: "wf_route e r" and c: "c < get_num_ctls e"
  shows "ctl_pos (mixer_states r) c = c"
proof -
  have "ctl_pos ms c = c - k" if "map ms_ctl ms = [k..<n]" "k \<le> c" "c < n" for ms k n
    using that
  proof (induction ms arbitrary: k)
    case (Cons m ms)
    then have m: "ms_ctl m = k" "map ms_ctl ms = [Suc k..<n]" by (simp_all add: upt_conv_Cons)
    then show ?case using Cons.IH[OF m(2)] Cons.prems by auto
  qed (simp add: eq_commute[of "[]"])
  from this[of _ 0 "get_num_ctls e"] wf_states_ctls[of e "mixer_states r"] wf c show ?thesis
    by (simp add: wf_route_def)
qed

lemma enum_pos_nth: "distinct xs \<Longrightarrow> k < length xs \<Longrightarrow> enum_pos xs (xs ! k) = k"
proof (induction xs arbitrary: k)
  case (Cons x xs)
  then show ?case by (cases k) auto
qed simp

lemma attr_to_printed_value:
  assumes "card_ok e" "good_values e nm (c, vs)" "v \<in> set vs"
  shows "attr_to_value e c (Some (print_value e c v)) = Some v"
proof -
  have s: "supported (ctl_get_type e c)" using assms(1,2) by (simp add: card_ok_def good_values_def)
  show ?thesis
  proof (cases "ctl_get_type e c = MIXER_CTL_TYPE_ENUM")
    case True
    then have v: "0 \<le> v" "nat v < length (ctl_get_enums e c)" "distinct (ctl_get_enums e c)"
      using assms(2,3) by (auto simp: good_values_def)
    then have "ctl_get_enums e c \<noteq> []" by auto
    then show ?thesis using True v
      by (simp add: attr_to_value_def mixer_enum_string_to_value_def print_value_def enum_pos_nth)
  next
    case False
    then have "int_range v" using assms(2,3) by (simp add: good_values_def)
    with False s show ?thesis by (auto simp: attr_to_value_def print_value_def supported_def)
  qed
qed

lemma handle_print_ctl:
  assumes "card_ok e" "good_values e nm (c, vs)" "j < length vs" "wf_route e r"
  shows "handle e (print_ctl e nm c j (vs ! j)) (st, r) =
    (if level st = 1 then do { r \<leftarrow> set_initial c (Some (show_nat j)) (vs ! j) r; Some (st, r) }
     else do { (ok, r) \<leftarrow> path_add_value e (cp_path st) c (int j) (vs ! j) r; Some (st, r) })"
proof -
  have "attr_to_value e c (Some (print_value e c (vs ! j))) = Some (vs ! j)"
    by (rule attr_to_printed_value[OF assms(1,2)]) (simp add: assms(3))
  moreover have "get_ctl_by_name e (Some (nm c)) = Some c" "c < get_num_ctls e" "int j < 2 ^ 31"
    using assms(2,3) by (simp_all add: good_values_def)
  moreover have "ctl_pos (mixer_states r) c = c" by (rule ctl_pos_wf[OF assms(4) calculation(3)])
  ultimately show ?thesis
    by (auto simp: print_ctl_def start_tag_def ctl_tag_def end_tag_def Let_def split: bind_splits)
qed

section \<open>Reading a path\<close>

definition ctl_setting :: "mixer_lib \<Rightarrow> nat \<times> int list \<Rightarrow> mixer_setting" where
  "ctl_setting e x = \<lparr>ctl_index = fst x, set_num_values = ctl_get_num_values e (fst x), set_value = snd x\<rparr>"

text \<open>The elements of one control, from the first value on.\<close>

lemma handle_print_prefix:
  assumes m: "memory_ok e" and e: "card_ok e" and g: "good_values e nm (c, vs)" and wf: "wf_route e r"
    and i: "i < length (mixer_paths r)" and c: "c \<notin> ctl_index ` set (setting (mixer_paths r ! i))"
    and st: "level st \<noteq> 1" "cp_path st = Some i"
  shows "k < length vs \<Longrightarrow> \<exists>r' xs. handle e (concat (map (\<lambda>j. print_ctl e nm c j (vs ! j)) [0..<Suc k])) (st, r) = Some (st, r')
    \<and> wf_route e r' \<and> adds i [ctl_setting e (c, xs)] r r' \<and> length xs = length vs \<and> take (Suc k) xs = take (Suc k) vs"
proof (induction k)
  case 0
  have cn: "c < get_num_ctls e" "length vs = ctl_get_num_values e c" "0 < ctl_get_num_values e c"
    using g e by (auto simp: good_values_def card_ok_def)
  obtain r' junk where r': "path_add_value e (Some i) c 0 (vs ! 0) r = Some (True, r')" "wf_route e r'"
      "length junk = ctl_get_num_values e c"
      "add_to_path i \<lparr>ctl_index = c, set_num_values = ctl_get_num_values e c,
        set_value = value_at (ctl_get_num_values e c) 0 (vs ! 0) (junk[0 := vs ! 0])\<rparr> r r'"
    using path_add_value_new[OF m wf i cn(1) c cn(3), of 0 "vs ! 0"] cn(3) by auto
  have h: "handle e (print_ctl e nm c 0 (vs ! 0)) (st, r) = Some (st, r')"
    using handle_print_ctl[OF e g 0 wf, of st] r'(1) st by simp
  let ?xs = "junk[0 := vs ! 0]"
  have "take (Suc 0) ?xs = take (Suc 0) vs" using 0 r'(3) cn by (simp add: take_Suc_conv_app_nth)
  moreover have "adds i [ctl_setting e (c, ?xs)] r r'"
    using r'(4) by (simp add: adds_one ctl_setting_def value_at_def)
  ultimately show ?case using h r'(2,3) cn by auto
next
  case (Suc k)
  then obtain r1 xs where r1: "handle e (concat (map (\<lambda>j. print_ctl e nm c j (vs ! j)) [0..<Suc k])) (st, r) = Some (st, r1)"
      "wf_route e r1" "adds i [ctl_setting e (c, xs)] r r1" "length xs = length vs" "take (Suc k) xs = take (Suc k) vs"
    by (meson Suc_lessD)
  let ?l = "length (setting (mixer_paths r ! i))" and ?v = "vs ! Suc k"
  have cn: "length vs = ctl_get_num_values e c" using g by (simp add: good_values_def)
  have i1: "i < length (mixer_paths r1)" using r1(3) i by (simp add: adds_def)
  have s1: "setting (mixer_paths r1 ! i) = setting (mixer_paths r ! i) @ [ctl_setting e (c, xs)]"
    using r1(3) by (simp add: adds_def)
  have f: "find_ctl_index_in_path (mixer_paths r1 ! i) c = Some ?l"
    using find_setting_last[of "ctl_setting e (c, xs)" c "setting (mixer_paths r ! i)" 0] c s1
    by (simp add: find_ctl_index_in_path_def ctl_setting_def)
  obtain r2 where r2: "path_add_value e (Some i) c (int (Suc k)) ?v r1 = Some (True, r2)" "wf_route e r2"
      "r2 = set_path i ((mixer_paths r1 ! i)\<lparr>setting := (setting (mixer_paths r1 ! i))[?l :=
        (setting (mixer_paths r1 ! i) ! ?l)\<lparr>set_value := value_at (ctl_get_num_values e c) (int (Suc k)) ?v
          (set_value (setting (mixer_paths r1 ! i) ! ?l))\<rparr>]\<rparr>) r1"
    using path_add_value_old[OF r1(2) i1 f, of "int (Suc k)" ?v] Suc.prems cn by auto
  have h: "handle e (print_ctl e nm c (Suc k) ?v) (st, r1) = Some (st, r2)"
    using handle_print_ctl[OF e g Suc.prems r1(2), of st] r2(1) st by simp
  have "handle e (concat (map (\<lambda>j. print_ctl e nm c j (vs ! j)) [0..<Suc (Suc k)])) (st, r) = Some (st, r2)"
    using r1(1) h by (subst upt_Suc) (simp add: handle_append del: upt_Suc)
  moreover have "adds i [ctl_setting e (c, xs[Suc k := ?v])] r r2"
    using r1(3) r2(3) s1 i i1 by (simp add: adds_def ctl_setting_def value_at_def nth_append del: of_nat_Suc)
  moreover have "take (Suc (Suc k)) (xs[Suc k := ?v]) = take (Suc (Suc k)) vs"
    using r1(4,5) Suc.prems by (simp add: take_Suc_conv_app_nth)
  ultimately show ?case using r2(2) r1(4) by (intro exI[of _ r2] exI[of _ "xs[Suc k := ?v]"]) simp
qed

lemma handle_print_values:
  assumes "memory_ok e" "card_ok e" "good_values e nm (c, vs)" "wf_route e r" "i < length (mixer_paths r)"
    "c \<notin> ctl_index ` set (setting (mixer_paths r ! i))" "level st \<noteq> 1" "cp_path st = Some i"
  shows "\<exists>r'. handle e (print_values e nm (c, vs)) (st, r) = Some (st, r') \<and> wf_route e r'
    \<and> adds i [ctl_setting e (c, vs)] r r'"
proof -
  have "0 < length vs" using assms(2,3) by (auto simp: good_values_def card_ok_def)
  then obtain k where k: "length vs = Suc k" by (metis Suc_pred)
  from handle_print_prefix[OF assms, of k]
  obtain r' xs where "handle e (concat (map (\<lambda>j. print_ctl e nm c j (vs ! j)) [0..<length vs])) (st, r) = Some (st, r')"
      "wf_route e r'" "adds i [ctl_setting e (c, xs)] r r'" "length xs = length vs" "xs = vs"
    by (auto simp: k simp del: upt_Suc)
  then show ?thesis by (simp add: print_values_def)
qed

section \<open>Reading the items of a path\<close>

lemma adds_spec:
  assumes "adds i ss r r'" "i < length (mixer_paths r)"
  shows "map path_spec (mixer_paths r') = (map path_spec (mixer_paths r))
    [i := (fst (path_spec (mixer_paths r ! i)), snd (path_spec (mixer_paths r ! i)) @ map (\<lambda>s. (ctl_index s, set_value s)) ss)]"
  by (rule nth_equalityI) (use assms in \<open>auto simp: adds_def path_spec_def nth_list_update\<close>)

lemma path_names: "wf_route e r \<Longrightarrow> map path_name (mixer_paths r) = map (\<lambda>x. Some (fst x)) (map path_spec (mixer_paths r))"
  by (auto simp: wf_route_def wf_path_def path_spec_def)

lemma distinct_names: "wf_route e r \<Longrightarrow> distinct (map fst (map path_spec (mixer_paths r)))"
proof -
  assume wf: "wf_route e r"
  have "distinct (map (\<lambda>x. Some (fst x)) (map path_spec (mixer_paths r)))"
    using wf path_names[OF wf] by (simp add: wf_route_def)
  then show ?thesis by (simp add: distinct_map inj_on_def)
qed

lemma find_spec:
  assumes wf: "wf_route e r" and n: "(n, ss) \<in> set (map path_spec (mixer_paths r))"
  obtains j where "j < length (mixer_paths r)" "path_get_by_name r n = Some (Some j)" "path_spec (mixer_paths r ! j) = (n, ss)"
proof -
  obtain j where j: "j < length (mixer_paths r)" "path_spec (mixer_paths r ! j) = (n, ss)"
    using n by (auto simp: in_set_conv_nth)
  then have "path_name (mixer_paths r ! j) = Some n"
    using wf_route_path[OF wf j(1)] by (auto simp: path_spec_def wf_path_def)
  then show ?thesis using that j path_get_by_name_hit[OF wf j(1)] by blast
qed

text \<open>The state of the parser and of the route inside path number \<open>length env\<close>.\<close>

definition inside :: "mixer_lib \<Rightarrow> path_spec list \<Rightarrow> path_spec \<Rightarrow> config_parse_state \<Rightarrow> audio_route \<Rightarrow> bool" where
  "inside e env p st r \<longleftrightarrow> wf_route e r \<and> map path_spec (mixer_paths r) = env @ [p]
     \<and> level st \<noteq> 1 \<and> cp_path st = Some (length env)"

lemma inside_at:
  assumes "inside e env (n, ss) st r"
  shows "length env < length (mixer_paths r)" "path_spec (mixer_paths r ! length env) = (n, ss)"
    "map ctl_index (setting (mixer_paths r ! length env)) = map fst ss"
proof -
  have m: "map path_spec (mixer_paths r) = env @ [(n, ss)]" using assms by (simp add: inside_def)
  show l: "length env < length (mixer_paths r)" using arg_cong[OF m, of length] by simp
  show p: "path_spec (mixer_paths r ! length env) = (n, ss)"
    using arg_cong[OF m, of "\<lambda>xs. xs ! length env"] l by simp
  show "map ctl_index (setting (mixer_paths r ! length env)) = map fst ss"
    using p by (auto simp: path_spec_def)
qed

lemma inside_adds:
  assumes "inside e env (n, ss) st r" "adds (length env) ts r r'" "wf_route e r'"
  shows "inside e env (n, ss @ map (\<lambda>s. (ctl_index s, set_value s)) ts) st r'"
  using assms inside_at[OF assms(1)] adds_spec[OF assms(2)] by (simp add: inside_def)

lemma handle_item:
  assumes m: "memory_ok e" and e: "card_ok e" and ins: "inside e env (n, ss) st r"
    and g: "good_item e nm env it" and d: "distinct (map fst (ss @ item_settings env it))"
  shows "\<exists>r'. handle e (print_item e nm it) (st, r) = Some (st, r') \<and> inside e env (n, ss @ item_settings env it) st r'
    \<and> mixer_states r' = mixer_states r \<and> writes r' = writes r"
proof -
  have wf: "wf_route e r" and st: "level st \<noteq> 1" "cp_path st = Some (length env)" using ins by (simp_all add: inside_def)
  note at = inside_at[OF ins]
  show ?thesis
  proof (cases it)
    case (Setting c vs)
    have "c \<notin> ctl_index ` set (setting (mixer_paths r ! length env))"
      using d at(3) Setting by (simp flip: set_map)
    from handle_print_values[OF m e _ wf at(1) this st, of nm vs] g Setting
    obtain r' where r': "handle e (print_values e nm (c, vs)) (st, r) = Some (st, r')" "wf_route e r'"
        "adds (length env) [ctl_setting e (c, vs)] r r'" by auto
    from inside_adds[OF ins r'(3,2)] r' Setting show ?thesis by (simp add: ctl_setting_def adds_def)
  next
    case (Include k)
    then obtain ts where ts: "(k, ts) \<in> set env" using g by auto
    then have "(k, ts) \<in> set (map path_spec (mixer_paths r))" using ins by (simp add: inside_def)
    from find_spec[OF wf this] obtain j where j: "j < length (mixer_paths r)" "path_get_by_name r k = Some (Some j)"
        "path_spec (mixer_paths r ! j) = (k, ts)" .
    have "map path_spec (mixer_paths r) = env @ [(n, ss)]" using ins by (simp add: inside_def)
    from distinct_names[OF wf, unfolded this] have "distinct (map fst env)" by simp
    then have it: "item_settings env it = ts" using ts Include by simp
    let ?q = "setting (mixer_paths r ! j)"
    have q: "map (\<lambda>s. (ctl_index s, set_value s)) ?q = ts" using j(3) by (simp add: path_spec_def)
    then have qf: "map ctl_index ?q = map fst ts" by auto
    have "distinct (map ctl_index (setting (mixer_paths r ! length env) @ ?q))"
      using d at(3) it qf by simp
    moreover have "\<forall>s\<in>set ?q. wf_setting e s" using wf_route_path[OF wf j(1)] by (simp add: wf_path_def)
    ultimately obtain r' where r': "add_settings e (length env) ?q r = Some (True, r')" "wf_route e r'" "adds (length env) ?q r r'"
      using add_settings_ok[OF m wf at(1)] by blast
    have "path_add_path e (Some (length env)) (Some j) r = Some (True, r')"
      using r'(1) j(1) by (auto simp: path_add_path_def path_at_def)
    then have "handle e (print_item e nm it) (st, r) = Some (st, r')"
      using j(2) st Include by (simp add: start_tag_def path_tag_def end_tag_def)
    then show ?thesis using inside_adds[OF ins r'(3,2)] r'(3) q it by (simp add: adds_def)
  qed
qed

lemma handle_items:
  assumes m: "memory_ok e" and e: "card_ok e"
  shows "inside e env (n, ss) st r \<Longrightarrow> \<forall>it\<in>set its. good_item e nm env it
    \<Longrightarrow> distinct (map fst (ss @ concat (map (item_settings env) its)))
    \<Longrightarrow> \<exists>r'. handle e (concat (map (print_item e nm) its)) (st, r) = Some (st, r')
      \<and> inside e env (n, ss @ concat (map (item_settings env) its)) st r'
      \<and> mixer_states r' = mixer_states r \<and> writes r' = writes r"
proof (induction its arbitrary: ss r)
  case (Cons it its)
  have "good_item e nm env it" "distinct (map fst (ss @ item_settings env it))" using Cons.prems by auto
  from handle_item[OF m e Cons.prems(1) this]
  obtain r1 where r1: "handle e (print_item e nm it) (st, r) = Some (st, r1)" "inside e env (n, ss @ item_settings env it) st r1"
      "mixer_states r1 = mixer_states r" "writes r1 = writes r" by blast
  from Cons.IH[OF r1(2)] Cons.prems(2,3)
  obtain r2 where r2: "handle e (concat (map (print_item e nm) its)) (st, r1) = Some (st, r2)"
      "inside e env (n, (ss @ item_settings env it) @ concat (map (item_settings env) its)) st r2"
      "mixer_states r2 = mixer_states r1" "writes r2 = writes r1" by auto
  then show ?case using r1 by (intro exI[of _ r2]) (simp add: handle_append)
qed simp

text \<open>A whole path, and all paths.\<close>

lemma handle_path:
  assumes m: "memory_ok e" and e: "card_ok e" and wf: "wf_route e r" and st: "level st = 1"
    and env: "map path_spec (mixer_paths r) = env" and n: "n \<notin> fst ` set env"
    and g: "\<forall>it\<in>set its. good_item e nm env it" "distinct (map fst (concat (map (item_settings env) its)))"
  shows "\<exists>st' r'. handle e (print_path e nm (n, its)) (st, r) = Some (st', r') \<and> level st' = 1 \<and> wf_route e r'
    \<and> map path_spec (mixer_paths r') = env @ [(n, concat (map (item_settings env) its))]
    \<and> mixer_states r' = mixer_states r \<and> writes r' = writes r"
proof -
  have "Some n \<notin> set (map path_name (mixer_paths r))" unfolding path_names[OF wf] using n env by auto
  then obtain r1 where r1: "path_create e n r = Some (Some (length (mixer_paths r)), r1)" "wf_route e r1"
      "mixer_paths r1 = mixer_paths r @ [empty_path n]" "mixer_states r1 = mixer_states r" "writes r1 = writes r"
    using path_create_new[OF m wf, of n] by auto
  let ?st = "st\<lparr>cp_path := Some (length (mixer_paths r)), level := 2\<rparr>"
  have h: "start_tag e ''path'' [(''name'', n)] (st, r) = Some (?st, r1)"
    using r1(1) st by (simp add: start_tag_def path_tag_def)
  have "inside e env (n, []) ?st r1"
    using r1(2,3) env by (auto simp: inside_def path_spec_def)
  from handle_items[OF m e this g(1)] g(2)
  obtain r2 where r2: "handle e (concat (map (print_item e nm) its)) (?st, r1) = Some (?st, r2)"
      "inside e env (n, concat (map (item_settings env) its)) ?st r2"
      "mixer_states r2 = mixer_states r1" "writes r2 = writes r1" by auto
  have "handle e (print_path e nm (n, its)) (st, r) = Some (?st\<lparr>level := 1\<rparr>, r2)"
    using h r2(1) by (simp add: print_path_def handle_append end_tag_def)
  then show ?thesis using r2 r1(4,5) by (auto simp: inside_def)
qed

lemma handle_paths:
  assumes m: "memory_ok e" and e: "card_ok e"
  shows "wf_route e r \<Longrightarrow> level st = 1 \<Longrightarrow> map path_spec (mixer_paths r) = env \<Longrightarrow> good_paths e nm env ps
    \<Longrightarrow> \<exists>st' r'. handle e (concat (map (print_path e nm) ps)) (st, r) = Some (st', r') \<and> level st' = 1 \<and> wf_route e r'
      \<and> map path_spec (mixer_paths r') = config_paths env ps \<and> mixer_states r' = mixer_states r \<and> writes r' = writes r"
proof (induction ps arbitrary: env st r)
  case (Cons p ps)
  obtain n its where p: "p = (n, its)" by (cases p)
  have g: "n \<notin> fst ` set env" "\<forall>it\<in>set its. good_item e nm env it" "distinct (map fst (concat (map (item_settings env) its)))"
      "good_paths e nm (env @ [(n, concat (map (item_settings env) its))]) ps"
    using Cons.prems(4) by (simp_all add: p)
  obtain st1 r1 where r1: "handle e (print_path e nm (n, its)) (st, r) = Some (st1, r1)" "level st1 = 1" "wf_route e r1"
      "map path_spec (mixer_paths r1) = env @ [(n, concat (map (item_settings env) its))]"
      "mixer_states r1 = mixer_states r" "writes r1 = writes r"
    using handle_path[OF m e Cons.prems(1-3) g(1-3)] by blast
  from Cons.IH[OF r1(3,2,4) g(4)] r1 show ?case by (auto simp: p handle_append)
qed simp

end
