(* ===== verification/AudioInit.thy ===== *)
theory AudioInit
  imports AudioReadBack
begin

text \<open>
  \<open>audio_route_init\<close> as a whole: a printed configuration is read back, the initial values reach the hardware and
  are what a reset returns to; the choice of the file; and what a control of another type does.
\<close>

section \<open>Initial values\<close>

definition initial :: "mixer_lib \<Rightarrow> (nat \<Rightarrow> int list) \<Rightarrow> audio_route \<Rightarrow> audio_route \<Rightarrow> bool" where
  "initial e f r r' \<longleftrightarrow> wf_route e r' \<and> mixer_paths r' = mixer_paths r \<and> writes r' = writes r
     \<and> (\<forall>d<get_num_ctls e. olds r' d = olds r d \<and> news r' d = f d)"

lemma length_news: "wf_route e r \<Longrightarrow> c < get_num_ctls e \<Longrightarrow> length (news r c) = ctl_get_num_values e c"
  using wf_route_state[of e r c] by (simp add: news_def wf_state_def holds_def)

lemma set_new_values_ok:
  assumes wf: "wf_route e r" and c: "c < get_num_ctls e" and xs: "length xs = ctl_get_num_values e c"
  shows "initial e ((news r)(c := xs)) r (set_new_values c xs r)"
proof -
  have m: "wf_state e c (mixer_states r ! c)" "c < length (mixer_states r)" using wf_route_state[OF wf c] by auto
  have "wf_state e c ((mixer_states r ! c)\<lparr>new_value := Block xs\<rparr>)" using m xs by (simp add: wf_state_def)
  then have "wf_states e ((mixer_states r)[c := (mixer_states r ! c)\<lparr>new_value := Block xs\<rparr>])"
    using wf m by (auto simp: wf_route_def wf_states_def nth_list_update)
  then show ?thesis using wf m
    by (auto simp: initial_def set_new_values_def wf_route_states olds_def news_def nth_list_update)
qed

lemma set_initial_ok:
  assumes wf: "wf_route e r" and c: "c < get_num_ctls e" and j: "j < ctl_get_num_values e c" "int j < 2 ^ 31"
  shows "set_initial c (Some (show_nat j)) v r = Some (set_new_values c ((news r c)[j := v]) r)"
proof -
  have m: "c < length (mixer_states r)" "wf_state e c (mixer_states r ! c)" using wf_route_state[OF wf c] by auto
  have "nat (int j mod 2 ^ 32) = j" using j(2) by simp
  moreover obtain xs where "new_value (mixer_states r ! c) = Block xs" "length xs = ctl_get_num_values e c"
    using wf_state_holds[OF m(2)] by (metis holdsE)
  moreover have "ms_num_values (mixer_states r ! c) = ctl_get_num_values e c" using m(2) by (simp add: wf_state_def)
  ultimately show ?thesis using m(1) j by (simp add: set_initial_def Let_def put_def news_def)
qed

lemma initial_prefix:
  assumes e: "card_ok e" and g: "good_values e nm (c, vs)" and wf: "wf_route e r" and st: "level st = 1"
  shows "k \<le> length vs \<Longrightarrow> \<exists>r'. handle e (concat (map (\<lambda>j. print_ctl e nm c j (vs ! j)) [0..<k])) (st, r) = Some (st, r')
    \<and> initial e ((news r)(c := take k vs @ drop k (news r c))) r r'"
proof (induction k)
  case 0
  then show ?case using wf by (simp add: initial_def)
next
  case (Suc k)
  have c: "c < get_num_ctls e" "length vs = ctl_get_num_values e c" "int (length vs) < 2 ^ 31"
    using g by (simp_all add: good_values_def)
  obtain r1 where r1: "handle e (concat (map (\<lambda>j. print_ctl e nm c j (vs ! j)) [0..<k])) (st, r) = Some (st, r1)"
      "initial e ((news r)(c := take k vs @ drop k (news r c))) r r1"
    using Suc.IH Suc.prems by (meson Suc_leD)
  have wf1: "wf_route e r1" and n1: "news r1 c = take k vs @ drop k (news r c)"
    using r1(2) c by (simp_all add: initial_def)
  let ?r = "set_new_values c ((news r1 c)[k := vs ! k]) r1"
  have "handle e (print_ctl e nm c k (vs ! k)) (st, r1) = Some (st, ?r)"
    using handle_print_ctl[OF e g _ wf1, of k st] set_initial_ok[OF wf1 c(1), of k] st Suc.prems c by simp
  then have h: "handle e (concat (map (\<lambda>j. print_ctl e nm c j (vs ! j)) [0..<Suc k])) (st, r) = Some (st, ?r)"
    using r1(1) by (simp add: handle_append)
  have "(take k vs @ drop k (news r c))[k := vs ! k] = take (Suc k) vs @ drop (Suc k) (news r c)"
    using Suc.prems c length_news[OF wf c(1)]
    by (intro nth_equalityI) (auto simp: nth_list_update nth_append less_Suc_eq)
  then have eq: "(news r1 c)[k := vs ! k] = take (Suc k) vs @ drop (Suc k) (news r c)" using n1 by simp
  have "length ((news r1 c)[k := vs ! k]) = ctl_get_num_values e c" using length_news[OF wf1 c(1)] by simp
  from set_new_values_ok[OF wf1 c(1) this]
  have "initial e ((news r1)(c := take (Suc k) vs @ drop (Suc k) (news r c))) r1 ?r" unfolding eq .
  then have "initial e ((news r)(c := take (Suc k) vs @ drop (Suc k) (news r c))) r ?r"
    using r1(2) by (simp add: initial_def)
  with h show ?case by blast
qed

fun init_values :: "(nat \<times> int list) list \<Rightarrow> (nat \<Rightarrow> int list) \<Rightarrow> nat \<Rightarrow> int list" where
  "init_values [] f = f"
| "init_values ((c, vs) # xs) f = init_values xs (f(c := vs))"

lemma init_values_cong: "f c = g c \<Longrightarrow> init_values xs f c = init_values xs g c"
proof (induction xs arbitrary: f g)
  case (Cons x xs)
  obtain d vs where "x = (d, vs)" by (cases x)
  then show ?case using Cons.IH[of "f(d := vs)" "g(d := vs)"] Cons.prems by (simp add: fun_upd_def)
qed simp

lemma handle_initial:
  assumes e: "card_ok e" and st: "level st = 1"
  shows "wf_route e r \<Longrightarrow> \<forall>x\<in>set inits. good_values e nm x
    \<Longrightarrow> \<exists>r'. handle e (concat (map (print_values e nm) inits)) (st, r) = Some (st, r') \<and> initial e (init_values inits (news r)) r r'"
proof (induction inits arbitrary: r)
  case Nil
  then show ?case by (simp add: initial_def)
next
  case (Cons x inits)
  obtain c vs where x: "x = (c, vs)" by (cases x)
  have g: "good_values e nm (c, vs)" using Cons.prems x by simp
  then have "c < get_num_ctls e" "length vs = ctl_get_num_values e c" by (simp_all add: good_values_def)
  with length_news[OF Cons.prems(1)] have "drop (length vs) (news r c) = []" by simp
  with initial_prefix[OF e g Cons.prems(1) st, of "length vs"]
  obtain r1 where r1: "handle e (print_values e nm (c, vs)) (st, r) = Some (st, r1)" "initial e ((news r)(c := vs)) r r1"
    by (auto simp: print_values_def)
  then have "wf_route e r1" by (simp add: initial_def)
  from Cons.IH[OF this] Cons.prems(2)
  obtain r2 where r2: "handle e (concat (map (print_values e nm) inits)) (st, r1) = Some (st, r2)"
      "initial e (init_values inits (news r1)) r1 r2" by auto
  have "init_values inits (news r1) d = init_values inits ((news r)(c := vs)) d" if "d < get_num_ctls e" for d
    by (rule init_values_cong) (use r1(2) that in \<open>simp add: initial_def\<close>)
  then have "initial e (init_values (x # inits) (news r)) r r2"
    using r1(2) r2(2) x by (simp add: initial_def)
  then show ?case using r1(1) r2(1) x by (auto simp: handle_append)
qed

lemma handle_config:
  assumes m: "memory_ok e" and e: "card_ok e" and wf: "wf_route e r" and r: "mixer_paths r = []"
    and g: "\<forall>x\<in>set inits. good_values e nm x" "good_paths e nm [] ps"
  shows "\<exists>st' r'. handle e (print_config e nm inits ps) (\<lparr>cp_path = None, level = 0\<rparr>, r) = Some (st', r') \<and> wf_route e r'
    \<and> map path_spec (mixer_paths r') = config_paths [] ps \<and> writes r' = writes r
    \<and> (\<forall>d<get_num_ctls e. olds r' d = olds r d \<and> news r' d = init_values inits (news r) d)"
proof -
  let ?st = "\<lparr>cp_path = None, level = 1\<rparr>"
  obtain r1 where r1: "handle e (concat (map (print_values e nm) inits)) (?st, r) = Some (?st, r1)"
      "initial e (init_values inits (news r)) r r1"
    using handle_initial[OF e _ wf g(1), of ?st] by auto
  have wf1: "wf_route e r1" and p1: "map path_spec (mixer_paths r1) = []" using r1(2) r by (simp_all add: initial_def)
  obtain st2 r2 where r2: "handle e (concat (map (print_path e nm) ps)) (?st, r1) = Some (st2, r2)" "wf_route e r2"
      "map path_spec (mixer_paths r2) = config_paths [] ps" "mixer_states r2 = mixer_states r1" "writes r2 = writes r1"
    using handle_paths[OF m e wf1 _ p1 g(2), of ?st] by auto
  have "handle e (print_config e nm inits ps) (\<lparr>cp_path = None, level = 0\<rparr>, r) = Some (st2\<lparr>level := level st2 - 1\<rparr>, r2)"
    using r1(1) r2(1) by (simp add: print_config_def start_tag_def handle_append end_tag_def)
  moreover have "olds r2 d = olds r1 d \<and> news r2 d = news r1 d" for d
    using r2(4) by (simp add: olds_def news_def)
  ultimately show ?thesis using r1(2) r2 by (simp add: initial_def)
qed

section \<open>Reading the card\<close>

text \<open>The card answers with the values \<open>h\<close> that its controls have.\<close>

definition card_reads :: "mixer_lib \<Rightarrow> (nat \<Rightarrow> int list) \<Rightarrow> bool" where
  "card_reads e h \<longleftrightarrow> (\<forall>c<get_num_ctls e. length (h c) = ctl_get_num_values e c
     \<and> (if ctl_get_type e c = MIXER_CTL_TYPE_ENUM then ctl_get_value e c = h c ! 0
        else ctl_get_array e c = Some (\<lambda>j. h c ! j)))"

lemma next_alloc_states [simp]:
  "next_alloc r\<lparr>mixer_states := ms\<rparr> = next_alloc (r\<lparr>mixer_states := ms\<rparr>)"
  by (simp add: next_alloc_def)

lemma alloc_state_ok:
  assumes m: "memory_ok e" and e: "card_ok e" and i: "i < get_num_ctls e" and h: "card_reads e h"
  shows "\<exists>r' m. alloc_state e i r = Some r' \<and> mixer_states r' = mixer_states r @ [m] \<and> wf_state e i m
    \<and> new_value m = old_value m \<and> shows_values e i (h i) (ints (old_value m))
    \<and> mixer_paths r' = mixer_paths r \<and> path_block r' = path_block r \<and> mixer_path_size r' = mixer_path_size r
    \<and> writes r' = writes r"
proof -
  let ?n = "ctl_get_num_values e i"
  have s: "supported (ctl_get_type e i)" "0 < ?n" using e i by (simp_all add: card_ok_def)
  have hi: "length (h i) = ?n" "ctl_get_type e i = MIXER_CTL_TYPE_ENUM \<Longrightarrow> ctl_get_value e i = h i ! 0"
      "ctl_get_type e i \<noteq> MIXER_CTL_TYPE_ENUM \<Longrightarrow> ctl_get_array e i = Some (\<lambda>j. h i ! j)"
    using h i by (auto simp: card_reads_def split: if_splits)
  have map_h: "map ((!) (h i)) [0..<?n] = h i" using hi(1) by (metis map_nth)
  show ?thesis
    using s hi map_h
    by (cases "ctl_get_type e i = MIXER_CTL_TYPE_ENUM")
       (simp_all add: alloc_state_def Let_def holds_malloc[OF m] put_def wf_state_def shows_values_def)
qed

lemma alloc_states_ok:
  assumes m: "memory_ok e" and e: "card_ok e" and h: "card_reads e h"
  shows "k \<le> get_num_ctls e \<Longrightarrow> length (mixer_states r) = k
    \<Longrightarrow> \<forall>c<k. wf_state e c (mixer_states r ! c) \<and> new_value (mixer_states r ! c) = old_value (mixer_states r ! c)
        \<and> shows_values e c (h c) (olds r c)
    \<Longrightarrow> \<exists>r'. alloc_states e [k..<get_num_ctls e] r = Some r' \<and> wf_states e (mixer_states r')
      \<and> (\<forall>c<get_num_ctls e. news r' c = olds r' c \<and> shows_values e c (h c) (olds r' c))
      \<and> mixer_paths r' = mixer_paths r \<and> path_block r' = path_block r \<and> mixer_path_size r' = mixer_path_size r
      \<and> writes r' = writes r"
proof (induction "get_num_ctls e - k" arbitrary: k r)
  case 0
  then show ?case by (simp add: wf_states_def news_def olds_def)
next
  case (Suc d)
  then have k: "k < get_num_ctls e" by simp
  obtain r1 m1 where r1: "alloc_state e k r = Some r1" "mixer_states r1 = mixer_states r @ [m1]" "wf_state e k m1"
      "new_value m1 = old_value m1" "shows_values e k (h k) (ints (old_value m1))"
      "mixer_paths r1 = mixer_paths r" "path_block r1 = path_block r" "mixer_path_size r1 = mixer_path_size r"
      "writes r1 = writes r"
    using alloc_state_ok[OF m e k h, of r] by blast
  have "\<forall>c<Suc k. wf_state e c (mixer_states r1 ! c) \<and> new_value (mixer_states r1 ! c) = old_value (mixer_states r1 ! c)
      \<and> shows_values e c (h c) (olds r1 c)"
    using Suc.prems r1 by (auto simp: nth_append olds_def less_Suc_eq)
  moreover have "d = get_num_ctls e - Suc k" "Suc k \<le> get_num_ctls e" "length (mixer_states r1) = Suc k"
    using Suc k r1 by simp_all
  ultimately obtain r2 where "alloc_states e [Suc k..<get_num_ctls e] r1 = Some r2" "wf_states e (mixer_states r2)"
      "\<forall>c<get_num_ctls e. news r2 c = olds r2 c \<and> shows_values e c (h c) (olds r2 c)"
      "mixer_paths r2 = mixer_paths r1" "path_block r2 = path_block r1" "mixer_path_size r2 = mixer_path_size r1"
      "writes r2 = writes r1"
    using Suc.hyps(1) by blast
  then show ?case using r1 k by (simp add: upt_conv_Cons)
qed

lemma alloc_mixer_state_ok:
  assumes m: "memory_ok e" and e: "card_ok e" and h: "card_reads e h"
  shows "\<exists>r'. alloc_mixer_state e empty_route = Some (True, r') \<and> wf_route e r' \<and> mixer_paths r' = [] \<and> writes r' = []
    \<and> mirrors e r' h \<and> (\<forall>c<get_num_ctls e. news r' c = olds r' c)"
proof -
  let ?r = "next_alloc empty_route"
  have r0: "mixer_states ?r = []" "mixer_paths ?r = []" "path_block ?r = 0" "mixer_path_size ?r = 0" "writes ?r = []"
    by (simp_all add: empty_route_def)
  have "(next_alloc empty_route)\<lparr>mixer_states := []\<rparr> = ?r" by (simp add: empty_route_def)
  moreover obtain r' where r': "alloc_states e [0..<get_num_ctls e] ?r = Some r'" "wf_states e (mixer_states r')"
      "\<forall>c<get_num_ctls e. news r' c = olds r' c \<and> shows_values e c (h c) (olds r' c)"
      "mixer_paths r' = []" "path_block r' = 0" "mixer_path_size r' = 0" "writes r' = []"
    using alloc_states_ok[OF m e h, of 0 ?r] r0 by auto
  ultimately show ?thesis using m
    by (simp add: alloc_mixer_state_def memory_ok_def wf_route_def mirrors_def)
qed

section \<open>The whole of \<open>audio_route_init\<close>\<close>

lemma read_config_pieces:
  "handle e (concat xss) sr = Some sr' \<Longrightarrow> read_config e (map (\<lambda>xs. (True, xs, True)) xss) sr = Some (True, sr')"
  by (induction xss arbitrary: sr) (auto simp: handle_append split: bind_splits)

text \<open>The system finds the printed configuration \<open>inits\<close>, \<open>ps\<close> for a card whose controls have the values \<open>h\<close>.\<close>

definition config_present :: "route_env \<Rightarrow> mixer_lib \<Rightarrow> (nat \<Rightarrow> int list) \<Rightarrow> (nat \<Rightarrow> string)
    \<Rightarrow> (nat \<times> int list) list \<Rightarrow> (string \<times> item list) list \<Rightarrow> bool" where
  "config_present E e h nm inits ps \<longleftrightarrow> calloc_ok E \<and> parser_ok E \<and> memory_ok e \<and> card_ok e \<and> card_reads e h
     \<and> (\<forall>x\<in>set inits. good_values e nm x) \<and> good_paths e nm [] ps
     \<and> fst (find_config E) < MIXER_MAX_CARD \<and> mixer_open E (fst (find_config E)) = Some e
     \<and> fopen_ok E (snd (find_config E))
     \<and> (\<exists>xss. concat xss = print_config e nm inits ps
          \<and> file_turns E (snd (find_config E)) = map (\<lambda>xs. (True, xs, True)) xss)"

end
