(* ===== verification/AudioRouteFacts.thy ===== *)
theory AudioRouteFacts
  imports AudioInit
begin

text \<open>
  The properties of \<open>audio_route.c\<close>: sequences of operations, the choice of the configuration file, and what goes
  wrong with controls of other types and with unusual configurations.
\<close>

section \<open>Configurations are read back\<close>

text \<open>
  C22: A configuration that is printed as elements, in whatever pieces the file is read, is read back by
  \<open>audio_route_init\<close>: the paths of the route are those of the configuration, references to earlier paths replaced by
  their settings; the controls have their initial values in the new, the old and the reset values, and these are
  the values of the hardware after the calls that were made.
\<close>

theorem configuration_is_read_back:
  assumes "config_present E e h nm inits ps"
  shows "\<exists>r f. audio_route_init E None = Some (Some r) \<and> wf_route e r
    \<and> map path_spec (mixer_paths r) = config_paths [] ps
    \<and> mirrors e r (hw_after (writes r) h)
    \<and> (\<forall>c<get_num_ctls e. shows_values e c (h c) (f c)
        \<and> news r c = init_values inits f c \<and> olds r c = news r c \<and> resets r c = news r c)"
proof -
  have m: "memory_ok e" and e: "card_ok e" and h: "card_reads e h" and gi: "\<forall>x\<in>set inits. good_values e nm x"
      and gp: "good_paths e nm [] ps" using assms by (simp_all add: config_present_def)
  obtain xss where xss: "concat xss = print_config e nm inits ps"
      "file_turns E (snd (find_config E)) = map (\<lambda>xs. (True, xs, True)) xss"
    using assms by (auto simp: config_present_def)
  obtain r0 where r0: "alloc_mixer_state e empty_route = Some (True, r0)" "wf_route e r0" "mixer_paths r0 = []"
      "writes r0 = []" "mirrors e r0 h" "\<forall>c<get_num_ctls e. news r0 c = olds r0 c"
    using alloc_mixer_state_ok[OF m e h] by blast
  obtain st r1 where r1: "handle e (print_config e nm inits ps) (\<lparr>cp_path = None, level = 0\<rparr>, r0) = Some (st, r1)"
      "wf_route e r1" "map path_spec (mixer_paths r1) = config_paths [] ps" "writes r1 = writes r0"
      "\<forall>d<get_num_ctls e. olds r1 d = olds r0 d \<and> news r1 d = init_values inits (news r0) d"
    using handle_config[OF m e r0(2,3) gi gp] by blast
  have rd: "read_config e (file_turns E (snd (find_config E))) (\<lparr>cp_path = None, level = 0\<rparr>, r0) = Some (True, st, r1)"
    unfolding xss(2) by (rule read_config_pieces) (simp add: xss(1) r1(1))
  obtain r2 where r2: "audio_route_update_mixer e r1 = Some r2" "wf_route e r2" "mixer_paths r2 = mixer_paths r1"
      "writes r2 = writes r1 @ concat (map (ctl_writes e) (mixer_states r1))"
      "\<forall>c<get_num_ctls e. olds r2 c = news r1 c \<and> news r2 c = news r1 c \<and> resets r2 c = resets r1 c"
    using audio_route_update_ok[OF e r1(2)] by blast
  obtain r3 where r3: "save_mixer_state r2 = Some r3" "wf_route e r3" "mixer_paths r3 = mixer_paths r2" "writes r3 = writes r2"
      "\<forall>c<get_num_ctls e. olds r3 c = olds r2 c \<and> news r3 c = news r2 c \<and> resets r3 c = news r2 c"
    using save_mixer_state_ok[OF r2(2)] by blast
  have "audio_route_init E None = Some (Some r3)"
    using assms r0(1) rd r2(1) r3(1) by (simp add: audio_route_init_def config_present_def split_def)
  moreover have "mirrors e r1 h" using r0(5) r1(5) by (simp add: mirrors_def)
  then have "mirrors e r3 (hw_after (writes r3) h)"
    using update_mirrors[OF e r1(2)] r0(4) r1(4) r2(4,5) r3(4,5) by (simp add: mirrors_def)
  moreover have "init_values inits (news r0) c = init_values inits (olds r0) c" if "c < get_num_ctls e" for c
    by (rule init_values_cong) (use r0(6) that in simp)
  ultimately show ?thesis using r1(3,5) r2(3,5) r3(2,3,5) r0(5)
    by (intro exI[of _ r3] exI[of _ "olds r0"]) (simp add: mirrors_def)
qed

section \<open>A sample card\<close>

definition sample_card :: mixer_lib where
  "sample_card = \<lparr>get_num_ctls = 2,
     get_ctl_by_name = (\<lambda>n. if n = Some ''Volume'' then Some 0 else if n = Some ''Source'' then Some 1 else None),
     ctl_get_type = (\<lambda>c. if c = 0 then MIXER_CTL_TYPE_INT else MIXER_CTL_TYPE_ENUM),
     ctl_get_num_values = (\<lambda>c. if c = 0 then 2 else 1),
     ctl_get_enums = (\<lambda>c. if c = 1 then [''Mic'', ''Line''] else []),
     ctl_get_value = (\<lambda>c. 0), ctl_get_array = (\<lambda>c. if c = 0 then Some (\<lambda>j. [10, 11] ! j) else None),
     malloc_ok = (\<lambda>k. True), malloc_junk = (\<lambda>k j. 7)\<rparr>"

definition sample_hw :: "nat \<Rightarrow> int list" where
  "sample_hw c = (if c = 0 then [10, 11] else [0])"

definition sample_names :: "nat \<Rightarrow> string" where
  "sample_names c = (if c = 0 then ''Volume'' else ''Source'')"

definition sample_inits :: "(nat \<times> int list) list" where
  "sample_inits = [(0, [20, -20])]"

definition sample_paths :: "(string \<times> item list) list" where
  "sample_paths = [(''speaker'', [Setting 0 [30, 31]]), (''record'', [Include ''speaker'', Setting 1 [1]])]"

definition sample_env :: "mixer_lib \<Rightarrow> route_env" where
  "sample_env e = \<lparr>device_name = ''pyrope'', readable = (\<lambda>p. p = ''/system/etc/tiny_hw.pyrope.xml''), calloc_ok = True,
     mixer_open = (\<lambda>n. Some e), fopen_ok = (\<lambda>p. True), parser_ok = True,
     file_turns = (\<lambda>p. [(True, print_config e sample_names sample_inits sample_paths, True), (True, [], True)])\<rparr>"

lemma all_less_2: "(\<forall>c<2. P c) \<longleftrightarrow> P 0 \<and> P (1 :: nat)"
  by (auto simp: less_2_cases_iff)

lemma sample_card_ok: "memory_ok sample_card" "card_ok sample_card" "card_reads sample_card sample_hw"
  by (simp_all add: memory_ok_def card_ok_def card_reads_def sample_card_def sample_hw_def supported_def all_less_2)

lemma find_sample_config: "find_config (sample_env e) = (0, ''/system/etc/tiny_hw.pyrope.xml'')"
  by (simp add: find_config_def sample_env_def config_name_def default_config_def search_config.simps[of _ 0] MIXER_MAX_CARD_def)

lemma sample_config_present:
  "config_present (sample_env sample_card) sample_card sample_hw sample_names sample_inits sample_paths"
proof -
  have "\<forall>x\<in>set sample_inits. good_values sample_card sample_names x"
    by (simp add: good_values_def sample_inits_def sample_card_def sample_names_def int_range_def)
  moreover have "good_paths sample_card sample_names [] sample_paths"
    by (simp add: good_values_def sample_paths_def sample_card_def sample_names_def int_range_def)
  ultimately show ?thesis
    unfolding config_present_def using sample_card_ok find_sample_config[of sample_card]
    by (simp add: MIXER_MAX_CARD_def sample_env_def)
       (rule exI[of _ "[print_config sample_card sample_names sample_inits sample_paths, []]"], simp)
qed

lemma configuration_is_read_back_witness:
  "\<exists>r f. audio_route_init (sample_env sample_card) None = Some (Some r) \<and> wf_route sample_card r
    \<and> map path_spec (mixer_paths r) = [(''speaker'', [(0, [30, 31])]), (''record'', [(0, [30, 31]), (1, [1])])]
    \<and> mirrors sample_card r (hw_after (writes r) sample_hw)
    \<and> (\<forall>c<get_num_ctls sample_card. shows_values sample_card c (sample_hw c) (f c)
        \<and> news r c = init_values sample_inits f c \<and> olds r c = news r c \<and> resets r c = news r c)"
  using configuration_is_read_back[OF sample_config_present] by (simp add: sample_paths_def)

section \<open>Sequences of operations\<close>

text \<open>
  C21: On a route that \<open>audio_route_init\<close> made, no sequence of the operations runs into undefined behaviour; the
  paths and the reset values stay, and after each sequence the values that the code takes for the current ones are
  those of the hardware, as long as the set calls of tinyalsa succeed (\<open>hw_write\<close>).
\<close>

theorem route_operations_mirror_hardware:
  assumes "card_ok e" "wf_route e r" "mirrors e r (hw_after (writes r) h)"
  shows "\<exists>r'. run_ops e ops r = Some r' \<and> wf_route e r' \<and> mixer_paths r' = mixer_paths r
    \<and> (\<forall>c<get_num_ctls e. resets r' c = resets r c) \<and> mirrors e r' (hw_after (writes r') h)"
  using run_ops_keep[OF assms(1,2), of ops h] assms(3) by (auto simp: keeps_def)

definition sample_route :: audio_route where
  "sample_route = \<lparr>mixer_states =
       [\<lparr>ms_ctl = 0, ms_num_values = 2, old_value = Block [20, -20], new_value = Block [20, -20], reset_value = Block [20, -20]\<rparr>,
        \<lparr>ms_ctl = 1, ms_num_values = 1, old_value = Block [0], new_value = Block [0], reset_value = Block [0]\<rparr>],
     mixer_path_size = 8, path_block = 8,
     mixer_paths = [\<lparr>path_name = Some ''record'', set_size = 8, set_block = 8, setting =
       [\<lparr>ctl_index = 0, set_num_values = 2, set_value = [30, 31]\<rparr>, \<lparr>ctl_index = 1, set_num_values = 1, set_value = [1]\<rparr>]\<rparr>],
     allocs = 12, writes = [Set_array 0 [20, -20]]\<rparr>"

lemma sample_route_ok:
  "wf_route sample_card sample_route" "mirrors sample_card sample_route (hw_after (writes sample_route) sample_hw)"
  by (simp_all add: wf_defs sample_route_def sample_card_def all_less_2 mirrors_def shows_values_def olds_def
      hw_after_def sample_hw_def)

lemma route_operations_mirror_hardware_witness:
  "\<exists>r'. run_ops sample_card [Apply_path ''record'', Update_mixer, Reset_path ''record'', Update_mixer] sample_route = Some r'
    \<and> wf_route sample_card r' \<and> mixer_paths r' = mixer_paths sample_route
    \<and> (\<forall>c<get_num_ctls sample_card. resets r' c = resets sample_route c)
    \<and> mirrors sample_card r' (hw_after (writes r') sample_hw)"
  by (rule route_operations_mirror_hardware[OF sample_card_ok(2) sample_route_ok])

text \<open>What such a run writes.\<close>

lemma sample_run:
  "map_option writes (run_ops sample_card [Apply_path ''record'', Update_mixer, Reset_all, Update_mixer, Update_mixer] sample_route)
    = Some [Set_array 0 [20, -20], Set_array 0 [30, 31], Set_value 1 0 1, Set_array 0 [20, -20], Set_value 1 0 0]"
  by (simp add: sample_route_def sample_card_def audio_route_apply_path_def on_path_def path_get_by_name_def path_at_def
      path_apply_def copy_ints_def audio_route_update_mixer_def update_ctl_def supported_def Let_def audio_route_reset_def
      Ex_less_Suc numeral_2_eq_2)

text \<open>
  C23: \<open>audio_route_update_mixer\<close> writes exactly the controls whose new values differ from the old ones, each once,
  an enumeration by its first value and any other control by all its values; afterwards the hardware has the new
  values, and a second call writes nothing.
\<close>

theorem update_writes_changed_controls:
  assumes "card_ok e" "wf_route e r" "mirrors e r h"
  shows "\<exists>r'. audio_route_update_mixer e r = Some r'
    \<and> writes r' = writes r @ concat (map (\<lambda>c. if olds r c = news r c then []
        else [if ctl_get_type e c = MIXER_CTL_TYPE_ENUM then Set_value c 0 (news r c ! 0) else Set_array c (news r c)])
        [0..<get_num_ctls e])
    \<and> (\<forall>c<get_num_ctls e. news r' c = news r c
        \<and> shows_values e c (hw_after (drop (length (writes r)) (writes r')) h c) (news r c))
    \<and> audio_route_update_mixer e r' = Some r'"
proof -
  obtain r' where r': "audio_route_update_mixer e r = Some r'" "wf_route e r'"
      "writes r' = writes r @ concat (map (ctl_writes e) (mixer_states r))"
      "\<forall>c<get_num_ctls e. olds r' c = news r c \<and> news r' c = news r c \<and> resets r' c = resets r c"
    using audio_route_update_ok[OF assms(1,2)] by blast
  have ms: "wf_states e (mixer_states r)" "wf_states e (mixer_states r')" using assms(2) r'(2) by (simp_all add: wf_route_def)
  have "map (ctl_writes e) (mixer_states r) = map (\<lambda>c. if olds r c = news r c then []
        else [if ctl_get_type e c = MIXER_CTL_TYPE_ENUM then Set_value c 0 (news r c ! 0) else Set_array c (news r c)])
        [0..<get_num_ctls e]"
    by (rule nth_equalityI) (use ms(1) in \<open>auto simp: wf_states_def wf_state_def holds_def ctl_writes_def olds_def news_def\<close>)
  moreover have "shows_values e c (hw_after (drop (length (writes r)) (writes r')) h c) (news r c)" if "c < get_num_ctls e" for c
    using update_mirrors[OF assms that] r'(3) by simp
  moreover have "audio_route_update_mixer e r' = Some r'"
  proof -
    have same: "old_value m = new_value m" if "m \<in> set (mixer_states r')" for m
      using that ms(2) r'(4) by (auto simp: in_set_conv_nth wf_states_def wf_state_def holds_def olds_def news_def)
    then have w: "concat (map (ctl_writes e) (mixer_states r')) = []" by (auto simp: ctl_writes_def)
    have s: "map (\<lambda>m. m\<lparr>old_value := new_value m\<rparr>) (mixer_states r') = mixer_states r'"
      by (rule map_idI) (use same in \<open>simp add: mixer_state.defs\<close>)
    then show ?thesis
      by (simp add: audio_route_update_mixer_def update_states_ok[OF assms(1) wf_states_list[OF ms(2)]] w s)
  qed
  ultimately show ?thesis using r'(1,3,4) by auto
qed

lemma update_writes_changed_controls_witness:
  "\<exists>r'. audio_route_update_mixer sample_card sample_route = Some r'
    \<and> writes r' = writes sample_route @ concat (map (\<lambda>c. if olds sample_route c = news sample_route c then []
        else [if ctl_get_type sample_card c = MIXER_CTL_TYPE_ENUM then Set_value c 0 (news sample_route c ! 0)
              else Set_array c (news sample_route c)])
        [0..<get_num_ctls sample_card])
    \<and> (\<forall>c<get_num_ctls sample_card. news r' c = news sample_route c
        \<and> shows_values sample_card c (hw_after (drop (length (writes sample_route)) (writes r'))
            (hw_after (writes sample_route) sample_hw) c) (news sample_route c))
    \<and> audio_route_update_mixer sample_card r' = Some r'"
  by (rule update_writes_changed_controls[OF sample_card_ok(2) sample_route_ok])

section \<open>The configuration file\<close>

text \<open>
  Without a readable file \<open>/system/etc/tiny_hw\<close> the default file comes before those of the cards 0, 1 and 2, and the
  card is the number of the file; the argument \<open>card\<close> of \<open>audio_route_init\<close> plays no part.
\<close>

lemma configuration_file_order:
  "\<not> readable E config_name \<Longrightarrow> find_config E =
     (if readable E (default_config E) then (0, default_config E)
      else if readable E (card_config E 0) then (0, card_config E 0)
      else if readable E (card_config E 1) then (1, card_config E 1)
      else if readable E (card_config E 2) then (2, card_config E 2)
      else (3, card_config E 2))"
  by (simp add: find_config_def search_config.simps[of E 0] search_config.simps[of E "Suc 0"]
      search_config.simps[of E "Suc (Suc 0)"] search_config.simps[of E "Suc (Suc (Suc 0))"] MIXER_MAX_CARD_def Let_def numeral_2_eq_2 numeral_3_eq_3)

section \<open>Controls of other types\<close>

definition byte_card :: mixer_lib where
  "byte_card = sample_card\<lparr>ctl_get_type := \<lambda>c. if c = 1 then MIXER_CTL_TYPE_BYTE else MIXER_CTL_TYPE_INT\<rparr>"

text \<open>The pointers of a control of another type stay as they came from \<open>malloc\<close>.\<close>

definition untouched :: "mixer_lib \<Rightarrow> audio_route \<Rightarrow> bool" where
  "untouched e r \<longleftrightarrow> map ms_ctl (mixer_states r) = [0..<get_num_ctls e]
     \<and> (\<forall>m\<in>set (mixer_states r). \<not> supported (ctl_get_type e (ms_ctl m)) \<longrightarrow> new_value m = Wild)"

lemma untouched_states: "untouched e r \<Longrightarrow> mixer_states r' = mixer_states r \<Longrightarrow> untouched e r'"
  by (simp add: untouched_def)

lemma alloc_state_untouched:
  "alloc_state e i r = Some r' \<Longrightarrow> \<exists>m. mixer_states r' = mixer_states r @ [m] \<and> ms_ctl m = i
     \<and> (\<not> supported (ctl_get_type e i) \<longrightarrow> new_value m = Wild)"
  by (auto simp: alloc_state_def Let_def malloc_ints_def split: bind_splits if_splits)

lemma alloc_states_untouched:
  "alloc_states e is r = Some r' \<Longrightarrow> \<exists>ms. mixer_states r' = mixer_states r @ ms \<and> map ms_ctl ms = is
     \<and> (\<forall>m\<in>set ms. \<not> supported (ctl_get_type e (ms_ctl m)) \<longrightarrow> new_value m = Wild)"
proof (induction "is" arbitrary: r)
  case (Cons i "is")
  then obtain r1 where r1: "alloc_state e i r = Some r1" "alloc_states e is r1 = Some r'" by (auto split: bind_splits)
  from alloc_state_untouched[OF r1(1)] obtain m where m: "mixer_states r1 = mixer_states r @ [m]" "ms_ctl m = i"
      "\<not> supported (ctl_get_type e i) \<longrightarrow> new_value m = Wild" by blast
  from Cons.IH[OF r1(2)] obtain ms where "mixer_states r' = mixer_states r1 @ ms" "map ms_ctl ms = is"
      "\<forall>m\<in>set ms. \<not> supported (ctl_get_type e (ms_ctl m)) \<longrightarrow> new_value m = Wild" by blast
  then show ?case using m by (intro exI[of _ "m # ms"]) simp
qed simp

lemma alloc_mixer_untouched: "alloc_mixer_state e r = Some (True, r') \<Longrightarrow> untouched e r'"
  unfolding alloc_mixer_state_def untouched_def
  by (auto split: bind_splits if_splits dest!: alloc_states_untouched)

text \<open>Operations on paths do not touch the controls.\<close>

lemma path_create_states: "path_create e n r = Some (p, r') \<Longrightarrow> mixer_states r' = mixer_states r"
  by (auto simp: path_create_def grow_paths_def Let_def split: bind_splits if_splits)

lemma alloc_path_setting_states: "alloc_path_setting e i r = Some (k, r') \<Longrightarrow> mixer_states r' = mixer_states r"
  by (auto simp: alloc_path_setting_def Let_def split: bind_splits if_splits)

lemma append_setting_states: "append_setting i s r = Some r' \<Longrightarrow> mixer_states r' = mixer_states r"
  by (auto simp: append_setting_def split: bind_splits if_splits)

lemma store_value_states: "store_value i k n j v r = Some r' \<Longrightarrow> mixer_states r' = mixer_states r"
  by (auto simp: store_value_def Let_def split: bind_splits if_splits)

lemma malloc_ints_states: "malloc_ints e n r = (b, r') \<Longrightarrow> mixer_states r' = mixer_states r"
  by (auto simp: malloc_ints_def)

lemmas path_states = path_create_states alloc_path_setting_states append_setting_states store_value_states malloc_ints_states

lemma path_add_setting_states: "path_add_setting e i s r = Some (ok, r') \<Longrightarrow> mixer_states r' = mixer_states r"
  by (auto simp: path_add_setting_def dest!: path_states split: bind_splits if_splits prod.splits)

lemma add_settings_states: "add_settings e i ss r = Some (ok, r') \<Longrightarrow> mixer_states r' = mixer_states r"
  by (induction ss arbitrary: r) (auto dest!: path_add_setting_states split: bind_splits if_splits)

lemma path_add_path_states: "path_add_path e i sub r = Some (ok, r') \<Longrightarrow> mixer_states r' = mixer_states r"
  by (auto simp: path_add_path_def dest!: add_settings_states split: bind_splits if_splits)

lemma path_add_value_states: "path_add_value e i c j v r = Some (ok, r') \<Longrightarrow> mixer_states r' = mixer_states r"
  by (auto simp: path_add_value_def Let_def dest!: path_states split: bind_splits if_splits option.splits prod.splits)

lemma set_initial_untouched:
  assumes "set_initial k a v r = Some r'" "untouched e r"
  shows "untouched e r'"
proof (cases "r' = r")
  case False
  then obtain xs where k: "k < length (mixer_states r)" and x: "deref (new_value (mixer_states r ! k)) \<noteq> None"
      and r': "r' = set_new_values k xs r"
    using assms(1) by (auto simp: set_initial_def Let_def split: bind_splits if_splits option.splits)
  let ?m = "(mixer_states r ! k)\<lparr>new_value := Block xs\<rparr>"
  have "supported (ctl_get_type e (ms_ctl (mixer_states r ! k)))"
    using assms(2) x nth_mem[OF k] by (auto simp: untouched_def)
  moreover have "map ms_ctl ((mixer_states r)[k := ?m]) = map ms_ctl (mixer_states r)"
    by (simp add: map_update) (metis k length_map list_update_id nth_map)
  ultimately show ?thesis using assms(2) set_update_subset_insert[of "mixer_states r" k ?m]
    by (auto simp: untouched_def r' set_new_values_def)
qed (use assms in simp)

lemma start_tag_untouched:
  assumes "start_tag e t as (st, r) = Some (st', r')" "untouched e r"
  shows "untouched e r'"
proof -
  obtain st1 where "path_tag e (fst (scan_attrs as (None, None, None))) (st, r) = Some (st1, r')
      \<or> (\<exists>a b c. ctl_tag e a b c (st, r) = Some (st1, r')) \<or> r' = r"
    using assms(1) by (auto simp: start_tag_def split: bind_splits if_splits prod.splits)
  then show ?thesis
  proof (elim disjE exE)
    assume "path_tag e (fst (scan_attrs as (None, None, None))) (st, r) = Some (st1, r')"
    then have "mixer_states r' = mixer_states r"
      by (auto simp: path_tag_def dest!: path_create_states path_add_path_states split: bind_splits option.splits if_splits)
    then show ?thesis using assms(2) untouched_states by blast
  next
    fix a b c
    assume "ctl_tag e a b c (st, r) = Some (st1, r')"
    then have "mixer_states r' = mixer_states r \<or> (\<exists>k v. set_initial k b v r = Some r')"
      by (auto simp: ctl_tag_def Let_def dest!: path_add_value_states split: bind_splits option.splits if_splits)
    then show ?thesis using assms(2) untouched_states set_initial_untouched by blast
  qed (use assms(2) in simp)
qed

lemma handle_untouched: "handle e xs sr = Some sr' \<Longrightarrow> untouched e (snd sr) \<Longrightarrow> untouched e (snd sr')"
proof (induction e xs sr rule: handle.induct)
  case (2 e t as xs sr)
  then show ?case by (cases sr) (auto dest: start_tag_untouched split: bind_splits)
qed (auto simp: end_tag_def split: prod.splits)

lemma read_config_untouched:
  "read_config e ts sr = Some (ok, sr') \<Longrightarrow> untouched e (snd sr) \<Longrightarrow> untouched e (snd sr')"
  by (induction e ts sr rule: read_config.induct) (auto dest: handle_untouched split: bind_splits if_splits)

lemma update_ctl_untouched: "update_ctl e m = Some (m', ws) \<Longrightarrow> ms_ctl m' = ms_ctl m \<and> new_value m' = new_value m"
  by (auto simp: update_ctl_def Let_def split: bind_splits if_splits)

definition ctl_news :: "mixer_state list \<Rightarrow> (nat \<times> int_ptr) list" where
  "ctl_news ms = map (\<lambda>m. (ms_ctl m, new_value m)) ms"

lemma update_states_untouched: "update_states e ms = Some (ms', ws) \<Longrightarrow> ctl_news ms' = ctl_news ms"
proof (induction ms arbitrary: ms' ws)
  case (Cons m ms)
  then obtain m1 w1 ms1 w2 where "update_ctl e m = Some (m1, w1)" "update_states e ms = Some (ms1, w2)" "ms' = m1 # ms1"
    by (auto split: bind_splits)
  then show ?case using update_ctl_untouched Cons.IH by (auto simp: ctl_news_def)
qed simp

lemma untouched_alt:
  "untouched e r \<longleftrightarrow> map fst (ctl_news (mixer_states r)) = [0..<get_num_ctls e]
     \<and> (\<forall>x\<in>set (ctl_news (mixer_states r)). \<not> supported (ctl_get_type e (fst x)) \<longrightarrow> snd x = Wild)"
  by (simp add: untouched_def ctl_news_def comp_def)

lemma update_untouched: "audio_route_update_mixer e r = Some r' \<Longrightarrow> untouched e r \<Longrightarrow> untouched e r'"
  unfolding untouched_alt by (auto simp: audio_route_update_mixer_def dest!: update_states_untouched split: bind_splits)

lemma wild_exists:
  assumes "untouched e r" "c < get_num_ctls e" "\<not> supported (ctl_get_type e c)"
  shows "\<exists>m\<in>set (mixer_states r). new_value m = Wild"
proof -
  have "c \<in> set (map ms_ctl (mixer_states r))" using assms(1,2) by (simp add: untouched_def)
  then show ?thesis using assms(1,3) by (auto simp: untouched_def)
qed

lemma save_wild: "m \<in> set ms \<Longrightarrow> new_value m = Wild \<Longrightarrow> save_states ms = None"
proof (induction ms)
  case (Cons a ms)
  then show ?case by (auto simp: copy_ints_def split: bind_splits)
qed simp

text \<open>
  C24: On a card with a control of another type (bytes, IEC958, 64 bits), \<open>audio_route_init\<close> always runs into
  undefined behaviour once the mixer is open: \<open>save_mixer_state\<close> copies between pointers that were never set, and
  the error paths free them.
\<close>

theorem unsupported_control_is_undefined:
  assumes "fst (find_config E) < MIXER_MAX_CARD" "calloc_ok E" "mixer_open E (fst (find_config E)) = Some e" "memory_ok e"
    "c < get_num_ctls e" "\<not> supported (ctl_get_type e c)"
  shows "audio_route_init E xml_path = None"
proof -
  have bad: "free_mixer_state r = None" "save_mixer_state r = None" if "untouched e r" for r
    using wild_exists[OF that assms(5,6)] by (auto simp: free_mixer_state_def save_mixer_state_def save_wild)
  have reading: "do {
      (ok, st, r) \<leftarrow> read_config e ts (st0, r);
      if \<not> ok then do { r \<leftarrow> free_mixer_state r; Some None }
      else do { r \<leftarrow> audio_route_update_mixer e r; r \<leftarrow> save_mixer_state r; Some (Some r) } } = None"
    if u: "untouched e r" for ts st0 r
  proof (cases "read_config e ts (st0, r)")
    case (Some x)
    obtain ok st r1 where x: "x = (ok, st, r1)" by (cases x)
    have u1: "untouched e r1" using read_config_untouched[of e ts "(st0, r)" ok "(st, r1)"] Some x u by simp
    show ?thesis
    proof (cases "audio_route_update_mixer e r1")
      case (Some r2)
      show ?thesis using bad(1)[OF u1] bad(2)[OF update_untouched[OF Some u1]] Some \<open>read_config e ts (st0, r) = Some x\<close> x
        by simp
    qed (use bad(1)[OF u1] Some x in simp)
  qed simp
  obtain no path where c: "find_config E = (no, path)" by (cases "find_config E")
  show ?thesis
  proof (cases "alloc_mixer_state e empty_route")
    case (Some x)
    obtain ok r where x: "x = (ok, r)" by (cases x)
    then have ok using assms(4) Some by (auto simp: alloc_mixer_state_def memory_ok_def split: bind_splits)
    then have u: "untouched e r" using Some x alloc_mixer_untouched[of e empty_route r] by simp
    show ?thesis using assms(1-3) Some x \<open>ok\<close> c reading[OF u] bad(1)[OF u] by (simp add: audio_route_init_def Let_def)
  qed (use assms(1-3) c in \<open>simp add: audio_route_init_def\<close>)
qed

lemma unsupported_control_is_undefined_witness:
  "audio_route_init (sample_env byte_card) None = None"
proof (rule unsupported_control_is_undefined)
  show "fst (find_config (sample_env byte_card)) < MIXER_MAX_CARD" "calloc_ok (sample_env byte_card)"
    "mixer_open (sample_env byte_card) (fst (find_config (sample_env byte_card))) = Some byte_card"
    by (simp_all add: find_sample_config MIXER_MAX_CARD_def) (simp_all add: sample_env_def)
  show "memory_ok byte_card" "1 < get_num_ctls byte_card" "\<not> supported (ctl_get_type byte_card 1)"
    by (simp_all add: byte_card_def sample_card_def memory_ok_def supported_def)
qed

section \<open>Unusual configurations\<close>

text \<open>The first value of a control in a path is stored at index 0 too, whatever its \<open>id\<close> says.\<close>

lemma first_value_is_stored_twice:
  assumes "memory_ok e" "wf_route e r" "i < length (mixer_paths r)" "c < get_num_ctls e"
    "c \<notin> ctl_index ` set (setting (mixer_paths r ! i))" "0 < j" "j < ctl_get_num_values e c"
  shows "\<exists>r' s. path_add_value e (Some i) c (int j) v r = Some (True, r')
    \<and> setting (mixer_paths r' ! i) = setting (mixer_paths r ! i) @ [s] \<and> set_value s ! 0 = v \<and> set_value s ! j = v"
proof -
  obtain r' junk where "path_add_value e (Some i) c (int j) v r = Some (True, r')" "length junk = ctl_get_num_values e c"
      "add_to_path i \<lparr>ctl_index = c, set_num_values = ctl_get_num_values e c,
        set_value = value_at (ctl_get_num_values e c) (int j) v (junk[0 := v])\<rparr> r r'"
    using path_add_value_new[OF assms(1-5), of "int j" v] assms(6,7) by auto
  then show ?thesis using assms(6,7) by (auto simp: add_to_path_def value_at_def)
qed

text \<open>A reference to a path that does not exist (or comes later) is a NULL dereference.\<close>

lemma unknown_path_is_dereferenced:
  "wf_route e r \<Longrightarrow> Some n \<notin> path_name ` set (mixer_paths r) \<Longrightarrow> level st \<noteq> 1
     \<Longrightarrow> start_tag e ''path'' [(''name'', n)] (st, r) = None"
  by (simp add: start_tag_def path_tag_def path_get_by_name_None path_add_path_def)

text \<open>The second definition of a path leaves a NULL pointer, which the first control in it dereferences.\<close>

lemma second_definition_is_dereferenced:
  assumes "card_ok e" "wf_route e r" "Some n \<in> path_name ` set (mixer_paths r)" "level st = 1"
    "good_values e nm (c, vs)" "j < length vs"
  shows "handle e (Start_tag ''path'' [(''name'', n)] # print_ctl e nm c j (vs ! j)) (st, r) = None"
proof -
  have "start_tag e ''path'' [(''name'', n)] (st, r) = Some (st\<lparr>cp_path := None, level := 2\<rparr>, r)"
    using path_create_known[OF assms(2,3)] assms(4) by (simp add: start_tag_def path_tag_def)
  moreover have "path_add_value e None c (int j) (vs ! j) r = None"
    using wf_route_state[OF assms(2), of c] assms(5,6)
    by (auto simp: path_add_value_def index_to_ctl_def wf_state_def good_values_def Let_def)
  ultimately show ?thesis
    using handle_print_ctl[OF assms(1,5,6,2), of "st\<lparr>cp_path := None, level := 2\<rparr>"] by simp
qed

text \<open>The size of the settings is doubled before \<open>realloc\<close> fails: the next setting is written behind the block.\<close>

lemma failed_growth_overruns:
  assumes "wf_path e p" "path_at r i = Some p" "set_size p = length (setting p)" "0 < set_size p"
    "\<not> malloc_ok e (allocs r)" "ctl_index s \<notin> ctl_index ` set (setting p)"
  shows "\<exists>r'. path_add_setting e i s r = Some (False, r') \<and> path_add_setting e i s r' = None"
proof -
  let ?p = "p\<lparr>set_size := 2 * set_size p\<rparr>"
  let ?r = "set_path i ?p (next_alloc r)"
  have f: "find_setting (setting p) (ctl_index s) 0 = None" using assms(6) by (simp add: find_setting_None)
  have "path_add_setting e i s r = Some (False, ?r)"
    using assms f by (simp add: path_add_setting_def find_ctl_index_in_path_def alloc_path_setting_def Let_def)
  moreover have "path_at ?r i = Some ?p" using assms(2) by (auto simp: path_at_def split: if_splits)
  then have "path_add_setting e i s ?r = None"
    using assms(1,3,4) f
    by (auto simp: path_add_setting_def find_ctl_index_in_path_def alloc_path_setting_def wf_path_def Let_def
        append_setting_def malloc_ints_def path_at_def split: bind_splits if_splits prod.splits)
  ultimately show ?thesis by blast
qed

text \<open>An enumeration name that does not exist becomes the number of names, which is no value of the control.\<close>

lemma unknown_enum_value:
  "s \<notin> set xs \<Longrightarrow> enum_pos xs s = length xs"
  by (induction xs) auto

end
